(* ===== verification/Prelude.thy ===== *)
theory Prelude
  imports Main "HOL-Library.Word" "HOL-Library.Sublist"
begin

text \<open>
  Shared vocabulary of the development.

  The C functions modelled here return an \<open>int\<close> result code, write their results through
  pointers and mutate the objects they are given. A call is a function from the state it
  works on to an \<open>outcome\<close>: \<open>Done x s\<close> (the function returned \<open>CSWP_SUCCESS\<close> with results
  \<open>x\<close>), \<open>Fail e s\<close> (it returned the error code \<open>e\<close>; the state keeps every write made before
  the error) or \<open>Undef u\<close> (the execution has undefined behaviour in C, of kind \<open>u\<close>).
  The theory gives the combinators that mirror the control flow of the C code and the
  Hoare-style rules the component theories use.
\<close>

unbundle bit_operations_syntax

named_theorems prog_defs \<open>definitions of the control-flow combinators\<close>
named_theorems hoare_rules \<open>composition rules for the Hoare predicate\<close>
named_theorems keeps_rules \<open>programs that keep an invariant\<close>

type_synonym byte = "8 word"
type_synonym c_int = "32 word"      \<comment> \<open>the bit pattern of a C \<open>int\<close>\<close>
type_synonym c_uint = "32 word"     \<comment> \<open>\<open>unsigned\<close> and \<open>uint32_t\<close>\<close>
type_synonym size_t = "64 word"     \<comment> \<open>\<open>size_t\<close>, \<open>uint64_t\<close> on a 64-bit platform\<close>
type_synonym cstring = "byte list option"
  \<comment> \<open>a \<open>const char*\<close>: \<open>None\<close> is \<open>NULL\<close>, \<open>Some\<close> the characters before the terminator\<close>

text \<open>The ways an execution can end without a C result: the kinds of undefined behaviour the
  modelled code can run into, and a loop that never ends.\<close>

datatype c_undef =
    OutOfBounds      \<comment> \<open>access outside the object a pointer points to\<close>
  | NullDeref        \<comment> \<open>access through a null pointer\<close>
  | BadShift         \<comment> \<open>shift by at least the width of the promoted operand\<close>
  | UninitRead       \<comment> \<open>use of an uninitialised variable\<close>
  | IntOverflow      \<comment> \<open>overflow of a signed counter\<close>
  | Endless          \<comment> \<open>a loop whose unsigned counter wraps before it reaches the bound\<close>
  | Killed           \<comment> \<open>the process is ended by a signal\<close>

datatype ('s, 'a) outcome = Done 'a 's | Fail c_int 's | Undef c_undef

type_synonym ('s, 'a) prog = "'s \<Rightarrow> ('s, 'a) outcome"

subsection \<open>Control flow\<close>

definition ret :: "'a \<Rightarrow> ('s, 'a) prog" where
  [prog_defs]: "ret x = (\<lambda>s. Done x s)"

definition fail :: "c_int \<Rightarrow> ('s, 'a) prog" where
  [prog_defs]: "fail e = (\<lambda>s. Fail e s)"

definition undef :: "c_undef \<Rightarrow> ('s, 'a) prog" where
  [prog_defs]: "undef u = (\<lambda>s. Undef u)"

text \<open>\<open>attempt m h k\<close>: run \<open>m\<close>; on a result code other than success continue with \<open>h\<close>,
  otherwise with \<open>k\<close>. It is the \<open>if (res != CSWP_SUCCESS) \<dots> else \<dots>\<close> of the handlers.\<close>

definition attempt ::
  "('s, 'a) prog \<Rightarrow> (c_int \<Rightarrow> ('s, 'b) prog) \<Rightarrow> ('a \<Rightarrow> ('s, 'b) prog) \<Rightarrow> ('s, 'b) prog" where
  [prog_defs]: "attempt m h k = (\<lambda>s. case m s of
       Done x s' \<Rightarrow> k x s'
     | Fail e s' \<Rightarrow> h e s'
     | Undef u \<Rightarrow> Undef u)"

text \<open>\<open>cswp_check m k\<close> is the macro \<open>__CSWP_CHECK\<close>: return at once on an error.\<close>

definition cswp_check :: "('s, 'a) prog \<Rightarrow> ('a \<Rightarrow> ('s, 'b) prog) \<Rightarrow> ('s, 'b) prog" where
  [prog_defs]: "cswp_check m k = (\<lambda>s. case m s of
       Done x s' \<Rightarrow> k x s'
     | Fail e s' \<Rightarrow> Fail e s'
     | Undef u \<Rightarrow> Undef u)"

text \<open>\<open>ignore m k\<close>: call \<open>m\<close> and drop its result code.\<close>

definition ignore :: "('s, 'a) prog \<Rightarrow> ('s, 'b) prog \<Rightarrow> ('s, 'b) prog" where
  [prog_defs]: "ignore m k = (\<lambda>s. case m s of
       Done x s' \<Rightarrow> k s'
     | Fail e s' \<Rightarrow> k s'
     | Undef u \<Rightarrow> Undef u)"

text \<open>\<open>gets f\<close> reads the state, \<open>modify f\<close> updates it.\<close>

definition gets :: "('s \<Rightarrow> 'a) \<Rightarrow> ('s, 'a) prog" where
  [prog_defs]: "gets f = (\<lambda>s. Done (f s) s)"

definition modify :: "('s \<Rightarrow> 's) \<Rightarrow> ('s, unit) prog" where
  [prog_defs]: "modify f = (\<lambda>s. Done () (f s))"

text \<open>\<open>zoom get set m\<close> runs \<open>m\<close> on a part of the state.\<close>

definition zoom :: "('s \<Rightarrow> 't) \<Rightarrow> ('t \<Rightarrow> 's \<Rightarrow> 's) \<Rightarrow> ('t, 'a) prog \<Rightarrow> ('s, 'a) prog" where
  [prog_defs]: "zoom get put m = (\<lambda>s. case m (get s) of
       Done x t \<Rightarrow> Done x (put t s)
     | Fail e t \<Rightarrow> Fail e (put t s)
     | Undef u \<Rightarrow> Undef u)"

text \<open>An \<open>int\<close> returned by a callback: zero is success.\<close>

definition of_res :: "c_int \<Rightarrow> ('s, unit) prog" where
  [prog_defs]: "of_res r = (\<lambda>s. if r = 0 then Done () s else Fail r s)"

text \<open>A \<open>for\<close> loop whose body may leave with an error code.\<close>

function c_for :: "nat \<Rightarrow> nat \<Rightarrow> (nat \<Rightarrow> ('s, unit) prog) \<Rightarrow> ('s, unit) prog" where
  "c_for i n body s = (if i < n
     then (case body i s of
        Done _ s' \<Rightarrow> c_for (Suc i) n body s'
      | Fail e s' \<Rightarrow> Fail e s'
      | Undef u \<Rightarrow> Undef u)
     else Done () s)"
  by pat_completeness auto
termination
  by (relation "measure (\<lambda>(i, n, body, s). n - i)") auto

declare c_for.simps [simp del]

lemma c_for_done [simp]: "n \<le> i \<Longrightarrow> c_for i n body s = Done () s"
  by (subst c_for.simps) simp

lemma c_for_step: "i < n \<Longrightarrow> c_for i n body = cswp_check (body i) (\<lambda>_. c_for (Suc i) n body)"
  by (rule ext, subst c_for.simps) (simp add: cswp_check_def)

text \<open>A loop that counts with an \<open>int\<close>: the increment overflows after \<open>2\<^sup>3\<^sup>1 - 1\<close>.\<close>

definition int_incr :: "nat \<Rightarrow> ('s, unit) prog" where
  [prog_defs]: "int_incr i = (if Suc i < 2 ^ 31 then ret () else undef IntOverflow)"

definition c_for_int :: "nat \<Rightarrow> (nat \<Rightarrow> ('s, unit) prog) \<Rightarrow> ('s, unit) prog" where
  "c_for_int n body = c_for 0 n (\<lambda>i. cswp_check (body i) (\<lambda>_. int_incr i))"

text \<open>A loop that counts with an \<open>unsigned\<close> up to a 64-bit bound. From \<open>2\<^sup>3\<^sup>2\<close> on the bound is never
  reached: the counter wraps and the rounds go on until one of them leaves with an error.
  \<open>2\<^sup>6\<^sup>4\<close> rounds stand for "for ever": each round of such a loop of the program reads at least
  one byte of a buffer that has fewer.\<close>

definition uint_loop :: "64 word \<Rightarrow> (nat \<Rightarrow> ('s, 'a) prog) \<Rightarrow> ('s, 'a) prog" where
  "uint_loop n run = (if n < 0x100000000 then run (unat n)
     else cswp_check (run (2 ^ 64)) (\<lambda>_. undef Endless))"

definition c_for_uint :: "64 word \<Rightarrow> (c_uint \<Rightarrow> ('s, unit) prog) \<Rightarrow> ('s, unit) prog" where
  "c_for_uint n body = uint_loop n (\<lambda>k. c_for 0 k (\<lambda>i. body (of_nat i)))"

text \<open>A loop with local variables: \<open>acc\<close> is their value.\<close>

function c_fold :: "nat \<Rightarrow> nat \<Rightarrow> (nat \<Rightarrow> 'b \<Rightarrow> ('s, 'b) prog) \<Rightarrow> 'b \<Rightarrow> ('s, 'b) prog" where
  "c_fold i n body acc s = (if i < n
     then (case body i acc s of
        Done acc' s' \<Rightarrow> c_fold (Suc i) n body acc' s'
      | Fail e s' \<Rightarrow> Fail e s'
      | Undef u \<Rightarrow> Undef u)
     else Done acc s)"
  by pat_completeness auto
termination
  by (relation "measure (\<lambda>(i, n, body, acc, s). n - i)") auto

declare c_fold.simps [simp del]

lemma c_fold_done: "n \<le> i \<Longrightarrow> c_fold i n body acc = ret acc"
  by (rule ext, subst c_fold.simps) (simp add: ret_def)

lemma c_fold_step: "i < n \<Longrightarrow> c_fold i n body acc = cswp_check (body i acc) (c_fold (Suc i) n body)"
  by (rule ext, subst c_fold.simps) (simp add: cswp_check_def)

text \<open>A loop that stores one result per round: \<open>xs[i] = \<dots>\<close> for \<open>i\<close> from \<open>i\<close> to \<open>n\<close>.\<close>

function c_map :: "nat \<Rightarrow> nat \<Rightarrow> (nat \<Rightarrow> ('s, 'a) prog) \<Rightarrow> ('s, 'a list) prog" where
  "c_map i n body s = (if i < n
     then (case body i s of
        Done x s' \<Rightarrow> (case c_map (Suc i) n body s' of
            Done xs t \<Rightarrow> Done (x # xs) t
          | Fail e t \<Rightarrow> Fail e t
          | Undef u \<Rightarrow> Undef u)
      | Fail e s' \<Rightarrow> Fail e s'
      | Undef u \<Rightarrow> Undef u)
     else Done [] s)"
  by pat_completeness auto
termination
  by (relation "measure (\<lambda>(i, n, body, s). n - i)") auto

declare c_map.simps [simp del]

lemma c_map_done: "n \<le> i \<Longrightarrow> c_map i n body = ret []"
  by (rule ext, subst c_map.simps) (simp add: ret_def)

lemma c_map_step: "i < n \<Longrightarrow> c_map i n body =
    cswp_check (body i) (\<lambda>x. cswp_check (c_map (Suc i) n body) (\<lambda>xs. ret (x # xs)))"
  by (rule ext, subst c_map.simps) (simp add: cswp_check_def ret_def split: outcome.splits)

text \<open>Array access through an in-bounds check. \<open>None\<close> is a null pointer.\<close>

definition nth_c :: "'a list \<Rightarrow> nat \<Rightarrow> ('s, 'a) prog" where
  [prog_defs]: "nth_c xs i = (if i < length xs then ret (xs ! i) else undef OutOfBounds)"

definition nth_p :: "'a list option \<Rightarrow> nat \<Rightarrow> ('s, 'a) prog" where
  [prog_defs]: "nth_p p i = (case p of None \<Rightarrow> undef NullDeref | Some xs \<Rightarrow> nth_c xs i)"

lemma attempt_Done [simp]: "m s = Done x s' \<Longrightarrow> attempt m h k s = k x s'"
  and attempt_Fail [simp]: "m s = Fail e s' \<Longrightarrow> attempt m h k s = h e s'"
  and attempt_Undef [simp]: "m s = Undef u \<Longrightarrow> attempt m h k s = Undef u"
  by (simp_all add: attempt_def)

lemma cswp_check_Done [simp]: "m s = Done x s' \<Longrightarrow> cswp_check m k s = k x s'"
  and cswp_check_Fail [simp]: "m s = Fail e s' \<Longrightarrow> cswp_check m k s = Fail e s'"
  and cswp_check_Undef [simp]: "m s = Undef u \<Longrightarrow> cswp_check m k s = Undef u"
  by (simp_all add: cswp_check_def)

lemma ret_apply [simp]: "ret x s = Done x s"
  and fail_apply [simp]: "fail e s = Fail e s"
  and undef_apply [simp]: "undef u s = Undef u"
  and gets_apply [simp]: "gets f s = Done (f s) s"
  and modify_apply [simp]: "modify g s = Done () (g s)"
  by (simp_all add: prog_defs)

lemma cswp_check_assoc:
  "cswp_check (cswp_check m f) g = cswp_check m (\<lambda>x. cswp_check (f x) g)"
  by (rule ext) (simp add: cswp_check_def split: outcome.splits)

lemma cswp_check_ret [simp]: "cswp_check (ret x) f = f x"
  by (rule ext) (simp add: cswp_check_def)

lemma check_ret_unit [simp]: "cswp_check m (\<lambda>_. ret ()) = m"
  by (rule ext) (simp add: cswp_check_def split: outcome.splits)

lemma check_ret [simp]: "cswp_check m ret = m"
  by (rule ext) (simp add: cswp_check_def ret_def split: outcome.splits)

lemma cswp_check_eq_Done:
  "cswp_check m k s = Done y t \<longleftrightarrow> (\<exists>x s'. m s = Done x s' \<and> k x s' = Done y t)"
  by (simp add: cswp_check_def split: outcome.splits)

lemma c_map_length: "c_map i n body s = Done xs t \<Longrightarrow> length xs = n - i"
proof (induction "n - i" arbitrary: i s xs t)
  case 0
  then show ?case by (simp add: c_map_done ret_def)
next
  case (Suc m)
  then have lt: "i < n" and m: "m = n - Suc i" by simp_all
  from Suc.prems obtain x s' ys where "c_map (Suc i) n body s' = Done ys t" "xs = x # ys"
    unfolding c_map_step [OF lt] by (auto simp: cswp_check_eq_Done)
  with Suc.hyps(1) [OF m] lt show ?case by simp
qed

subsection \<open>Hoare-style reasoning\<close>

text \<open>
  \<open>hoare P m Q E U\<close>: from a state with \<open>P\<close>, success ends with \<open>Q\<close>, an error with \<open>E\<close>, and
  only the undefined behaviours in \<open>U\<close> are possible. With \<open>U = {}\<close> the call is free of
  undefined behaviour.
\<close>

definition hoare ::
  "('s \<Rightarrow> bool) \<Rightarrow> ('s, 'a) prog \<Rightarrow> ('a \<Rightarrow> 's \<Rightarrow> bool) \<Rightarrow> (c_int \<Rightarrow> 's \<Rightarrow> bool) \<Rightarrow> c_undef set \<Rightarrow> bool"
  where
  "hoare P m Q E U \<longleftrightarrow> (\<forall>s. P s \<longrightarrow> (case m s of
       Done x s' \<Rightarrow> Q x s'
     | Fail e s' \<Rightarrow> E e s'
     | Undef u \<Rightarrow> u \<in> U))"

lemma hoareI:
  assumes "\<And>s x s'. P s \<Longrightarrow> m s = Done x s' \<Longrightarrow> Q x s'"
    and "\<And>s e s'. P s \<Longrightarrow> m s = Fail e s' \<Longrightarrow> E e s'"
    and "\<And>s u. P s \<Longrightarrow> m s = Undef u \<Longrightarrow> u \<in> U"
  shows "hoare P m Q E U"
  using assms by (auto simp: hoare_def split: outcome.splits)

lemma hoare_Done: "hoare P m Q E U \<Longrightarrow> P s \<Longrightarrow> m s = Done x s' \<Longrightarrow> Q x s'"
  by (auto simp: hoare_def split: outcome.splits)

lemma hoare_Fail: "hoare P m Q E U \<Longrightarrow> P s \<Longrightarrow> m s = Fail e s' \<Longrightarrow> E e s'"
  by (auto simp: hoare_def split: outcome.splits)

lemma hoare_Undef: "hoare P m Q E U \<Longrightarrow> P s \<Longrightarrow> m s = Undef u \<Longrightarrow> u \<in> U"
  by (auto simp: hoare_def split: outcome.splits)

lemma hoare_weaken:
  assumes "hoare P' m Q' E' U'"
    and "\<And>s. P s \<Longrightarrow> P' s" and "\<And>x s. Q' x s \<Longrightarrow> Q x s"
    and "\<And>e s. E' e s \<Longrightarrow> E e s" and "U' \<subseteq> U"
  shows "hoare P m Q E U"
  using assms by (fastforce simp: hoare_def split: outcome.splits)

lemma hoare_pre: "hoare P' m Q E U \<Longrightarrow> (\<And>s. P s \<Longrightarrow> P' s) \<Longrightarrow> hoare P m Q E U"
  by (auto simp: hoare_def)

lemma hoare_ret: "(\<And>s. P s \<Longrightarrow> Q x s) \<Longrightarrow> hoare P (ret x) Q E U"
  by (simp add: hoare_def)

lemma hoare_fail: "(\<And>s. P s \<Longrightarrow> E e s) \<Longrightarrow> hoare P (fail e) Q E U"
  by (simp add: hoare_def)

lemma hoare_gets: "(\<And>s. P s \<Longrightarrow> Q (f s) s) \<Longrightarrow> hoare P (gets f) Q E U"
  by (simp add: hoare_def)

lemma hoare_modify: "(\<And>s. P s \<Longrightarrow> Q () (f s)) \<Longrightarrow> hoare P (modify f) Q E U"
  by (simp add: hoare_def)

lemma hoare_of_res: "(\<And>s. P s \<Longrightarrow> Q () s) \<Longrightarrow> (\<And>s. P s \<Longrightarrow> r \<noteq> 0 \<Longrightarrow> E r s) \<Longrightarrow> hoare P (of_res r) Q E U"
  by (simp add: hoare_def of_res_def)

lemma hoare_check:
  assumes "hoare P m R E U" and "\<And>x. hoare (R x) (k x) Q E U"
  shows "hoare P (cswp_check m k) Q E U"
  using assms by (fastforce simp: hoare_def cswp_check_def split: outcome.splits)

lemma hoare_attempt:
  assumes "hoare P m R F U" and "\<And>e. hoare (F e) (h e) Q E U" and "\<And>x. hoare (R x) (k x) Q E U"
  shows "hoare P (attempt m h k) Q E U"
  using assms by (fastforce simp: hoare_def attempt_def split: outcome.splits)

lemma hoare_ignore:
  assumes "hoare P m (\<lambda>_. R) (\<lambda>_. R) U" and "hoare R k Q E U"
  shows "hoare P (ignore m k) Q E U"
  using assms by (fastforce simp: hoare_def ignore_def split: outcome.splits)

lemma hoare_if:
  "(b \<Longrightarrow> hoare P f Q E U) \<Longrightarrow> (\<not> b \<Longrightarrow> hoare P g Q E U) \<Longrightarrow> hoare P (if b then f else g) Q E U"
  by simp

lemma hoare_conj_pre: "(p \<Longrightarrow> hoare P m Q E U) \<Longrightarrow> hoare (\<lambda>s. p \<and> P s) m Q E U"
  by (auto simp: hoare_def)

lemma hoare_zoom:
  assumes "\<And>s. P s \<Longrightarrow> hoare (\<lambda>t. t = get s) m (\<lambda>x t. Q x (put t s)) (\<lambda>e t. E e (put t s)) U"
  shows "hoare P (zoom get put m) Q E U"
  unfolding hoare_def zoom_def
proof (intro allI impI)
  fix s assume "P s"
  from assms [OF this] show "case (case m (get s) of Done x t \<Rightarrow> Done x (put t s)
       | Fail e t \<Rightarrow> Fail e (put t s) | Undef u \<Rightarrow> Undef u) of
      Done x s' \<Rightarrow> Q x s' | Fail e s' \<Rightarrow> E e s' | Undef u \<Rightarrow> u \<in> U"
    by (simp add: hoare_def split: outcome.splits)
qed

lemma hoare_at: "hoare P m Q E U \<Longrightarrow> P t \<Longrightarrow> hoare (\<lambda>s. s = t) m Q E U"
  by (simp add: hoare_def)

lemma hoare_for:
  assumes body: "\<And>i. i < n \<Longrightarrow> hoare P (body i) (\<lambda>_. P) E U"
  shows "hoare P (c_for i n body) (\<lambda>_. P) E U"
proof (induction "n - i" arbitrary: i)
  case 0
  then show ?case by (simp add: hoare_def)
next
  case (Suc m)
  then have lt: "i < n" and IH: "hoare P (c_for (Suc i) n body) (\<lambda>_. P) E U" by auto
  show ?case
    unfolding c_for_step [OF lt] by (rule hoare_check [OF body [OF lt] IH])
qed

lemma hoare_fold:
  assumes body: "\<And>i acc. i < n \<Longrightarrow> hoare (P acc) (body i acc) P E U"
  shows "hoare (P acc) (c_fold i n body acc) P E U"
proof (induction "n - i" arbitrary: i acc)
  case 0
  then show ?case by (simp add: c_fold_done hoare_def)
next
  case (Suc m)
  then have lt: "i < n" and IH: "hoare (P acc) (c_fold (Suc i) n body acc) P E U" for acc by auto
  show ?case
    unfolding c_fold_step [OF lt] by (rule hoare_check [OF body [OF lt] IH])
qed

lemma hoare_undef: "u \<in> U \<Longrightarrow> hoare P (undef u) Q E U"
  by (simp add: hoare_def)

lemma hoare_uint_loop:
  assumes "\<And>k. hoare P (run k) Q E U" and "n < 0x100000000 \<or> Endless \<in> U"
  shows "hoare P (uint_loop n run) Q E U"
  unfolding uint_loop_def
proof (rule hoare_if)
  assume "\<not> n < 0x100000000"
  with assms(2) show "hoare P (cswp_check (run (2 ^ 64)) (\<lambda>_. undef Endless)) Q E U"
    by (intro hoare_check [OF assms(1)] hoare_undef) simp
qed (rule assms(1))

lemma hoare_for_uint:
  assumes "\<And>i. hoare P (body i) (\<lambda>_. P) E U" and "n < 0x100000000 \<or> Endless \<in> U"
  shows "hoare P (c_for_uint n body) (\<lambda>_. P) E U"
  unfolding c_for_uint_def by (rule hoare_uint_loop [OF hoare_for [OF assms(1)] assms(2)])

lemmas hoare_basic [hoare_rules] =
  hoare_ret hoare_fail hoare_gets hoare_modify hoare_of_res hoare_if

subsection \<open>Programs that keep an invariant\<close>

text \<open>\<open>keeps I U R m\<close>: \<open>m\<close> keeps \<open>I\<close>, also when it fails, its result has \<open>R\<close>, and its undefined
  behaviour is limited to \<open>U\<close>.\<close>

definition keeps :: "('s \<Rightarrow> bool) \<Rightarrow> c_undef set \<Rightarrow> ('a \<Rightarrow> bool) \<Rightarrow> ('s, 'a) prog \<Rightarrow> bool" where
  "keeps I U R m \<longleftrightarrow> hoare I m (\<lambda>x s. I s \<and> R x) (\<lambda>_. I) U"

lemma keepsI:
  assumes "\<And>s x s'. I s \<Longrightarrow> m s = Done x s' \<Longrightarrow> I s' \<and> R x"
    and "\<And>s e s'. I s \<Longrightarrow> m s = Fail e s' \<Longrightarrow> I s'"
    and "\<And>s u. I s \<Longrightarrow> m s = Undef u \<Longrightarrow> u \<in> U"
  shows "keeps I U R m"
  unfolding keeps_def using assms by (intro hoareI) blast+

lemma keeps_Done: "keeps I U R m \<Longrightarrow> I s \<Longrightarrow> m s = Done x s' \<Longrightarrow> I s' \<and> R x"
  unfolding keeps_def by (drule (2) hoare_Done)

lemma keeps_Fail: "keeps I U R m \<Longrightarrow> I s \<Longrightarrow> m s = Fail e s' \<Longrightarrow> I s'"
  unfolding keeps_def by (drule (2) hoare_Fail)

lemma keeps_Undef: "keeps I U R m \<Longrightarrow> I s \<Longrightarrow> m s = Undef u \<Longrightarrow> u \<in> U"
  unfolding keeps_def by (drule (2) hoare_Undef)

lemma keeps_result: "keeps I U R m \<Longrightarrow> (\<And>x. R x \<Longrightarrow> S x) \<Longrightarrow> keeps I U S m"
  unfolding keeps_def by (erule hoare_weaken) auto

lemma keeps_ret: "R x \<Longrightarrow> keeps I U R (ret x)"
  and keeps_fail: "keeps I U R (fail e)"
  and keeps_undef: "u \<in> U \<Longrightarrow> keeps I U R (undef u)"
  and keeps_gets: "(\<And>s. I s \<Longrightarrow> R (f s)) \<Longrightarrow> keeps I U R (gets f)"
  by (rule keepsI; auto)+

lemma keeps_modify: "(\<And>s. I s \<Longrightarrow> I (g s)) \<Longrightarrow> R () \<Longrightarrow> keeps I U R (modify g)"
  by (rule keepsI; auto)

lemma keeps_assuming:
  assumes "p \<Longrightarrow> keeps I U R m"
  shows "hoare (\<lambda>s. I s \<and> p) m (\<lambda>x s. I s \<and> R x) (\<lambda>_. I) U"
  using assms by (cases p) (auto simp: keeps_def hoare_def)

lemma keeps_check:
  assumes "keeps I U S m" and "\<And>x. S x \<Longrightarrow> keeps I U R (k x)"
  shows "keeps I U R (cswp_check m k)"
  unfolding keeps_def
  by (rule hoare_check [OF assms(1) [unfolded keeps_def] keeps_assuming [OF assms(2)]])

lemma keeps_attempt:
  assumes "keeps I U S m" and "\<And>e. keeps I U R (h e)" and "\<And>x. S x \<Longrightarrow> keeps I U R (k x)"
  shows "keeps I U R (attempt m h k)"
  unfolding keeps_def
  by (rule hoare_attempt [OF assms(1) [unfolded keeps_def] assms(2) [unfolded keeps_def]
        keeps_assuming [OF assms(3)]])

lemma ignore_eq_attempt: "ignore m k = attempt m (\<lambda>_. k) (\<lambda>_. k)"
  by (simp add: ignore_def attempt_def)

lemma keeps_ignore: "keeps I U S m \<Longrightarrow> keeps I U R k \<Longrightarrow> keeps I U R (ignore m k)"
  unfolding ignore_eq_attempt by (rule keeps_attempt)

lemma keeps_if:
  "(b \<Longrightarrow> keeps I U R f) \<Longrightarrow> (\<not> b \<Longrightarrow> keeps I U R g) \<Longrightarrow> keeps I U R (if b then f else g)"
  by simp

lemma keeps_case_option:
  "(x = None \<Longrightarrow> keeps I U R f) \<Longrightarrow> (\<And>y. x = Some y \<Longrightarrow> keeps I U R (g y)) \<Longrightarrow>
   keeps I U R (case x of None \<Rightarrow> f | Some y \<Rightarrow> g y)"
  by (simp split: option.splits)

lemma hoare_no_Done: "(\<And>s. \<not> P s) \<Longrightarrow> hoare P m Q E U"
  by (simp add: hoare_def)

text \<open>A fold whose invariant depends on the round, and the loop that can only end with an error.\<close>

lemma keeps_fold:
  assumes "\<And>k acc. i \<le> k \<Longrightarrow> k < n \<Longrightarrow> Q k acc \<Longrightarrow> hoare (J k) (body k acc) (\<lambda>acc' s. J (Suc k) s \<and> Q (Suc k) acc') (\<lambda>_. I) U"
    and "i \<le> n" and "Q i acc"
  shows "hoare (J i) (c_fold i n body acc) (\<lambda>acc' s. J n s \<and> Q n acc') (\<lambda>_. I) U"
  using assms
proof (induction "n - i" arbitrary: i acc)
  case 0
  then show ?case by (simp add: c_fold_done hoare_def)
next
  case (Suc m)
  then have lt: "i < n" and m: "m = n - Suc i" by auto
  have IH: "hoare (\<lambda>s. J (Suc i) s \<and> Q (Suc i) acc') (c_fold (Suc i) n body acc')
      (\<lambda>acc' s. J n s \<and> Q n acc') (\<lambda>_. I) U" for acc'
  proof (cases "Q (Suc i) acc'")
    case True
    have "hoare (J (Suc i)) (c_fold (Suc i) n body acc') (\<lambda>acc' s. J n s \<and> Q n acc') (\<lambda>_. I) U"
      using Suc.prems(1) lt by (intro Suc.hyps(1) [OF m] True) simp_all
    then show ?thesis by (rule hoare_pre) simp
  qed (simp add: hoare_def)
  show ?case
    unfolding c_fold_step [OF lt]
    by (rule hoare_check [OF Suc.prems(1) [OF _ lt Suc.prems(3)] IH]) simp
qed

lemma hoare_for_indexed:
  assumes "\<And>k. i \<le> k \<Longrightarrow> k < n \<Longrightarrow> hoare (J k) (body k) (\<lambda>_. J (Suc k)) (\<lambda>_. I) U" and "i \<le> n"
  shows "hoare (J i) (c_for i n body) (\<lambda>_. J n) (\<lambda>_. I) U"
  using assms
proof (induction "n - i" arbitrary: i)
  case 0
  then show ?case by (simp add: hoare_def)
next
  case (Suc m)
  then have lt: "i < n" and m: "m = n - Suc i" by auto
  have "hoare (J (Suc i)) (c_for (Suc i) n body) (\<lambda>_. J n) (\<lambda>_. I) U"
    using Suc.prems lt by (intro Suc.hyps(1) [OF m]) simp_all
  then show ?case
    unfolding c_for_step [OF lt] by (intro hoare_check [OF Suc.prems(1) [OF _ lt]]) simp
qed

text \<open>If the rounds keep a bound that \<open>2\<^sup>6\<^sup>4\<close> rounds would break, the loop ends.\<close>

definition uint_rounds :: "64 word \<Rightarrow> nat" where
  "uint_rounds n = (if n < 0x100000000 then unat n else 2 ^ 64)"

lemma hoare_uint_loop_ends:
  assumes run: "hoare (J 0) (run (uint_rounds n)) (\<lambda>x s. J (uint_rounds n) s \<and> Q x) (\<lambda>_. I) U"
    and never: "\<And>s. \<not> J (2 ^ 64) s"
  shows "hoare (J 0) (uint_loop n run) (\<lambda>x s. J (unat n) s \<and> Q x) (\<lambda>_. I) U"
proof (cases "n < 0x100000000")
  case True
  then show ?thesis using run by (simp add: uint_loop_def uint_rounds_def)
next
  case False
  then have "hoare (J 0) (run (2 ^ 64)) (\<lambda>x s. J (2 ^ 64) s \<and> Q x) (\<lambda>_. I) U"
    using run by (simp only: uint_rounds_def if_False)
  moreover have "hoare (\<lambda>s. J (2 ^ 64) s \<and> Q x) (undef Endless) (\<lambda>x s. J (unat n) s \<and> Q x) (\<lambda>_. I) U" for x
    by (rule hoare_no_Done) (simp only: never simp_thms)
  ultimately show ?thesis
    unfolding uint_loop_def using False by (simp only: if_False) (rule hoare_check)
qed

lemmas keeps_basic [keeps_rules] =
  keeps_fail keeps_check keeps_attempt keeps_ignore keeps_if keeps_case_option

subsection \<open>Bytes and strings\<close>

text \<open>The characters of a literal, as bytes.\<close>

definition bytes_of :: "string \<Rightarrow> byte list" where
  "bytes_of s = map of_char s"

text \<open>\<open>strlen\<close> on a character array: up to the first zero byte.\<close>

definition cstr :: "byte list \<Rightarrow> byte list" where
  "cstr s = takeWhile (\<lambda>c. c \<noteq> 0) s"

lemma cstr_id: "0 \<notin> set s \<Longrightarrow> cstr s = s"
  by (auto simp: cstr_def takeWhile_eq_all_conv)

lemma cstr_cstr [simp]: "cstr (cstr s) = cstr s"
  by (rule cstr_id) (auto simp: cstr_def dest: set_takeWhileD)

lemma zero_notin_cstr [simp]: "0 \<notin> set (cstr s)"
  by (auto simp: cstr_def dest: set_takeWhileD)

lemma length_cstr_le: "length (cstr s) \<le> length s"
  by (simp add: cstr_def length_takeWhile_le)

subsection \<open>Formatted output\<close>

text \<open>
  The part of \<open>vsnprintf\<close> the code uses: \<open>%d\<close>, \<open>%u\<close>, \<open>%s\<close>, \<open>%X\<close>, \<open>%08X\<close> and
  \<open>%lX\<close>. An integer conversion without \<open>l\<close> takes the low 32 bits of its argument, which is what the variadic calling conventions of the
  64-bit targets make of a \<open>varint_t\<close>. The result is \<open>None\<close> when a conversion has no argument of
  its kind. Other characters are copied.
\<close>

datatype log_arg = Arg_int "64 word" | Arg_str "byte list"

fun digits :: "nat \<Rightarrow> nat \<Rightarrow> byte list" where
  "digits b n = (if b < 2 \<or> n < b then [of_nat (if n < 10 then 48 + n else 55 + n)]
     else digits b (n div b) @ [of_nat (if n mod b < 10 then 48 + n mod b else 55 + n mod b)])"

declare digits.simps [simp del]

definition fmt_d :: "c_int \<Rightarrow> byte list" where
  "fmt_d v = (if sint v < 0 then 45 # digits 10 (nat (- sint v)) else digits 10 (nat (sint v)))"

definition fmt_08X :: "c_uint \<Rightarrow> byte list" where
  "fmt_08X v = (let ds = digits 16 (unat v) in replicate (8 - length ds) 48 @ ds)"

definition int_conv :: "(c_uint \<Rightarrow> byte list) \<Rightarrow> log_arg list \<Rightarrow> (byte list \<times> log_arg list) option" where
  "int_conv f as = (case as of Arg_int v # as' \<Rightarrow> Some (f (ucast v), as') | _ \<Rightarrow> None)"

definition long_conv :: "log_arg list \<Rightarrow> (byte list \<times> log_arg list) option" where
  "long_conv as = (case as of Arg_int v # as' \<Rightarrow> Some (digits 16 (unat v), as') | _ \<Rightarrow> None)"

definition str_conv :: "log_arg list \<Rightarrow> (byte list \<times> log_arg list) option" where
  "str_conv as = (case as of Arg_str s # as' \<Rightarrow> Some (cstr s, as') | _ \<Rightarrow> None)"

fun conversion :: "byte list \<Rightarrow> log_arg list \<Rightarrow> ((byte list \<times> log_arg list) \<times> byte list) option" where
  "conversion (c # r) as =
     (if c = 100 then map_option (\<lambda>x. (x, r)) (int_conv fmt_d as)
      else if c = 117 then map_option (\<lambda>x. (x, r)) (int_conv (\<lambda>v. digits 10 (unat v)) as)
      else if c = 88 then map_option (\<lambda>x. (x, r)) (int_conv (\<lambda>v. digits 16 (unat v)) as)
      else if c = 115 then map_option (\<lambda>x. (x, r)) (str_conv as)
      else if take 2 (c # r) = [108, 88] then map_option (\<lambda>x. (x, drop 1 r)) (long_conv as)
      else if take 3 (c # r) = [48, 56, 88] then map_option (\<lambda>x. (x, drop 2 r)) (int_conv fmt_08X as)
      else Some (([37, c], as), r))"
| "conversion [] as = Some (([37], as), [])"

lemma conversion_length: "conversion r as = Some (x, r') \<Longrightarrow> length r' \<le> length r"
  by (cases "(r, as)" rule: conversion.cases)
    (auto simp: int_conv_def long_conv_def str_conv_def split: if_splits list.splits log_arg.splits)

function c_format :: "byte list \<Rightarrow> log_arg list \<Rightarrow> byte list option" where
  "c_format [] as = Some []"
| "c_format (c # r) as =
     (if c = 37 then (case conversion r as of
          None \<Rightarrow> None
        | Some ((out, as'), r') \<Rightarrow> map_option (\<lambda>rest. out @ rest) (c_format r' as'))
      else map_option (\<lambda>rest. c # rest) (c_format r as))"
  by pat_completeness auto
termination
  by (relation "measure (\<lambda>(f, as). length f)") (auto dest: conversion_length)

subsection \<open>Arithmetic on sizes\<close>

lemma unat_diff_less_iff:
  fixes a b n :: "64 word"
  shows "b \<le> a \<Longrightarrow> a - b < n \<longleftrightarrow> unat a - unat b < unat n"
  by (simp add: word_less_nat_alt unat_sub)

lemma unat_of_nat_small: "n < 2 ^ 64 \<Longrightarrow> unat (of_nat n :: 64 word) = n"
  by (simp add: unat_of_nat take_bit_nat_eq_self)

lemma unat_add_of_nat:
  assumes "unat (p :: 64 word) + n < 2 ^ 64"
  shows "unat (p + of_nat n) = unat p + n"
proof -
  have "unat (of_nat n :: 64 word) = n"
    using assms by (intro unat_of_nat_small) simp
  with assms show ?thesis by (simp add: unat_word_ariths)
qed

lemma unat_ucast_32_64 [simp]: "unat (ucast (n :: 32 word) :: 64 word) = unat n"
proof -
  have "unat n < 2 ^ LENGTH(32)" by (rule unsigned_less)
  then show ?thesis by (simp add: unsigned_ucast_eq take_bit_nat_eq_self)
qed

lemma unat_ucast_64_32: "w < (0x100000000 :: 64 word) \<Longrightarrow> unat (ucast w :: 32 word) = unat w"
  by (simp add: unsigned_ucast_eq take_bit_nat_eq_self word_less_nat_alt)

lemma ucast_of_nat_32: "(ucast (of_nat n :: 64 word) :: c_uint) = of_nat n"
  by (rule bit_word_eqI) (simp add: bit_simps)

text \<open>Counting up a non-negative \<open>int\<close>.\<close>

lemma sint_incr:
  assumes "0 \<le>s (k :: c_int)" and "k \<noteq> 0x7FFFFFFF" shows "sint (k + 1) = sint k + 1"
proof -
  have "sint k \<noteq> sint (0x7FFFFFFF :: c_int)" using assms(2) signed_word_eqI by blast
  moreover have "sint k < 2 ^ 31" using sint_lt [of k] by simp
  ultimately have "sint k < 2 ^ 31 - 1" by simp
  moreover have "sint (k + 1) = signed_take_bit 31 (sint k + 1)" by (simp add: sint_word_ariths)
  moreover have "0 \<le> sint k" using assms(1) by (simp add: word_sle_eq)
  ultimately show ?thesis by (simp add: signed_take_bit_int_eq_self)
qed

lemma token_incr:
  assumes "0 \<le>s (k :: c_int)" and "k \<noteq> 0x7FFFFFFF"
  shows "0 \<le>s k + 1" and "j <s k \<Longrightarrow> j <s k + 1" and "k <s k + 1"
  using assms sint_incr [OF assms] by (simp_all add: word_sle_eq word_sless_alt)

end
