(* ===== verification/Cswp_Types.thy ===== *)
theory Cswp_Types
  imports Prelude
begin

text \<open>
  The enumerations of \<^verbatim>\<open>cswp_types.h\<close>. A result code travels through the C code as an \<open>int\<close> and
  through the wire as a varint, a command identifier as a varint: the \<open>_val\<close> functions give
  the numbers, and the lemmas that they are injective make the numbers readable back.
\<close>

datatype cswp_result_t =
    CSWP_SUCCESS
  | CSWP_FAILED
  | CSWP_CANCELLED
  | CSWP_NOT_INITIALIZED
  | CSWP_BUFFER_FULL
  | CSWP_BUFFER_EMPTY
  | CSWP_OUTPUT_BUFFER_OVERFLOW
  | CSWP_COMMS
  | CSWP_INCOMPATIBLE
  | CSWP_TIMEOUT
  | CSWP_UNSUPPORTED
  | CSWP_DEVICE_UNSUPPORTED
  | CSWP_INVALID_DEVICE
  | CSWP_BAD_ARGS
  | CSWP_NOT_PERMITTED
  | CSWP_REG_FAILED
  | CSWP_REG_PARTIAL
  | CSWP_MEM_FAILED
  | CSWP_MEM_INVALID_ADDRESS
  | CSWP_MEM_BAD_ACCESS_SIZE
  | CSWP_MEM_POLL_NO_MATCH

fun res_val :: "cswp_result_t \<Rightarrow> c_int" where
  "res_val CSWP_SUCCESS = 0"
| "res_val CSWP_FAILED = 1"
| "res_val CSWP_CANCELLED = 2"
| "res_val CSWP_NOT_INITIALIZED = 3"
| "res_val CSWP_BUFFER_FULL = 0x10"
| "res_val CSWP_BUFFER_EMPTY = 0x11"
| "res_val CSWP_OUTPUT_BUFFER_OVERFLOW = 0x12"
| "res_val CSWP_COMMS = 0x20"
| "res_val CSWP_INCOMPATIBLE = 0x21"
| "res_val CSWP_TIMEOUT = 0x22"
| "res_val CSWP_UNSUPPORTED = 0x23"
| "res_val CSWP_DEVICE_UNSUPPORTED = 0x24"
| "res_val CSWP_INVALID_DEVICE = 0x25"
| "res_val CSWP_BAD_ARGS = 0x26"
| "res_val CSWP_NOT_PERMITTED = 0x27"
| "res_val CSWP_REG_FAILED = 0x200"
| "res_val CSWP_REG_PARTIAL = 0x201"
| "res_val CSWP_MEM_FAILED = 0x300"
| "res_val CSWP_MEM_INVALID_ADDRESS = 0x301"
| "res_val CSWP_MEM_BAD_ACCESS_SIZE = 0x302"
| "res_val CSWP_MEM_POLL_NO_MATCH = 0x303"

datatype cswp_commands_t =
    CSWP_NONE
  | CSWP_INIT
  | CSWP_TERM
  | CSWP_CLIENT_INFO
  | CSWP_SET_DEVICES
  | CSWP_GET_DEVICES
  | CSWP_GET_SYSTEM_DESCRIPTION
  | CSWP_DEVICE_OPEN
  | CSWP_DEVICE_CLOSE
  | CSWP_SET_CONFIG
  | CSWP_GET_CONFIG
  | CSWP_GET_DEVICE_CAPABILITIES
  | CSWP_REG_LIST
  | CSWP_REG_READ
  | CSWP_REG_WRITE
  | CSWP_MEM_READ
  | CSWP_MEM_WRITE
  | CSWP_MEM_POLL
  | CSWP_ASYNC_MESSAGE
  | CSWP_IMPLEMENTATION_DEFINED_BEGIN
  | CSWP_IMPLEMENTATION_DEFINED_END

fun cmd_val :: "cswp_commands_t \<Rightarrow> 64 word" where
  "cmd_val CSWP_NONE = 0"
| "cmd_val CSWP_INIT = 1"
| "cmd_val CSWP_TERM = 2"
| "cmd_val CSWP_CLIENT_INFO = 5"
| "cmd_val CSWP_SET_DEVICES = 0x10"
| "cmd_val CSWP_GET_DEVICES = 0x11"
| "cmd_val CSWP_GET_SYSTEM_DESCRIPTION = 0x12"
| "cmd_val CSWP_DEVICE_OPEN = 0x100"
| "cmd_val CSWP_DEVICE_CLOSE = 0x101"
| "cmd_val CSWP_SET_CONFIG = 0x102"
| "cmd_val CSWP_GET_CONFIG = 0x103"
| "cmd_val CSWP_GET_DEVICE_CAPABILITIES = 0x104"
| "cmd_val CSWP_REG_LIST = 0x200"
| "cmd_val CSWP_REG_READ = 0x201"
| "cmd_val CSWP_REG_WRITE = 0x202"
| "cmd_val CSWP_MEM_READ = 0x300"
| "cmd_val CSWP_MEM_WRITE = 0x301"
| "cmd_val CSWP_MEM_POLL = 0x302"
| "cmd_val CSWP_ASYNC_MESSAGE = 0x1000"
| "cmd_val CSWP_IMPLEMENTATION_DEFINED_BEGIN = 0x8000"
| "cmd_val CSWP_IMPLEMENTATION_DEFINED_END = 0xffff"

datatype cswp_access_size_t =
    CSWP_ACCESS_SIZE_DEF
  | CSWP_ACCESS_SIZE_8
  | CSWP_ACCESS_SIZE_16
  | CSWP_ACCESS_SIZE_32
  | CSWP_ACCESS_SIZE_64

fun access_val :: "cswp_access_size_t \<Rightarrow> c_uint" where
  "access_val CSWP_ACCESS_SIZE_DEF = 0"
| "access_val CSWP_ACCESS_SIZE_8 = 1"
| "access_val CSWP_ACCESS_SIZE_16 = 2"
| "access_val CSWP_ACCESS_SIZE_32 = 3"
| "access_val CSWP_ACCESS_SIZE_64 = 4"

datatype cswp_log_level_t = CSWP_LOG_ERROR | CSWP_LOG_WARN | CSWP_LOG_INFO | CSWP_LOG_DEBUG

fun log_val :: "cswp_log_level_t \<Rightarrow> nat" where
  "log_val CSWP_LOG_ERROR = 0"
| "log_val CSWP_LOG_WARN = 1"
| "log_val CSWP_LOG_INFO = 2"
| "log_val CSWP_LOG_DEBUG = 3"

text \<open>Log levels are compared with \<open><=\<close> in the logging macro: a linear order by their value.\<close>

lemma log_val_inject: "log_val a = log_val b \<longleftrightarrow> a = b"
  by (cases a; cases b) auto

instantiation cswp_log_level_t :: linorder
begin

definition less_eq_cswp_log_level_t :: "cswp_log_level_t \<Rightarrow> cswp_log_level_t \<Rightarrow> bool" where
  "less_eq_cswp_log_level_t a b \<longleftrightarrow> log_val a \<le> log_val b"

definition less_cswp_log_level_t :: "cswp_log_level_t \<Rightarrow> cswp_log_level_t \<Rightarrow> bool" where
  "less_cswp_log_level_t a b \<longleftrightarrow> log_val a < log_val b"

instance
  by standard (auto simp: less_eq_cswp_log_level_t_def less_cswp_log_level_t_def log_val_inject)

end

definition CSWP_PROTOCOL_v1 :: "64 word" where
  "CSWP_PROTOCOL_v1 = 1"

text \<open>Capabilities and common memory access flags.\<close>

definition CSWP_CAP_REG :: "64 word" where "CSWP_CAP_REG = 0x1"

definition CSWP_CAP_MEM :: "64 word" where "CSWP_CAP_MEM = 0x2"

definition CSWP_CAP_MEM_POLL :: "64 word" where "CSWP_CAP_MEM_POLL = 0x200"

definition CSWP_MEM_NO_ADDR_INC :: c_uint where "CSWP_MEM_NO_ADDR_INC = 0x1"

definition CSWP_MEM_POLL_MATCH_NE :: c_uint where "CSWP_MEM_POLL_MATCH_NE = 0x2"

definition CSWP_MEM_POLL_CHECK_LAST :: c_uint where "CSWP_MEM_POLL_CHECK_LAST = 0x4"

text \<open>Register description, \<open>cswp_register_info_t\<close>.\<close>

record cswp_register_info_t =
  reg_id :: c_uint
  reg_name :: cstring
  reg_size :: c_uint
  reg_displayName :: cstring
  reg_description :: cstring

lemma res_val_inject: "res_val a = res_val b \<longleftrightarrow> a = b"
  by (cases a; cases b) simp_all

lemma res_val_zero [simp]: "res_val r = 0 \<longleftrightarrow> r = CSWP_SUCCESS"
  by (cases r) simp_all

lemma cmd_val_inject: "cmd_val a = cmd_val b \<longleftrightarrow> a = b"
  by (cases a; cases b) simp_all

text \<open>Every command identifier and every result code has a varint the decoder reads back
  exactly (it is below \<open>2\<^sup>31\<close>).\<close>

lemma cmd_val_small: "cmd_val c < 0x80000000"
  by (cases c) simp_all

lemma res_val_small: "(ucast (res_val r) :: 64 word) < 0x80000000"
  by (cases r) simp_all

text \<open>The codes stay symbolic in proofs; the tables are unfolded by name.\<close>

declare res_val.simps [simp del] cmd_val.simps [simp del]
declare res_val_inject [simp] cmd_val_inject [simp]

end
