(* ===== verification/Cswp_Buffer.thy ===== *)
theory Cswp_Buffer
  imports Cswp_Types
begin

text \<open>
  The message buffer, \<^verbatim>\<open>cswp/cswp_buffer.c\<close>: a byte array with a capacity, a fill level and
  one position used for reading and for writing. The record has the fields of the C struct
  (\<open>size_t\<close> fields are 64-bit words, so the subtractions in the space checks wrap as in C) and
  the array as a list. Every function of the file is a definition here. An access outside
  the array is \<open>Undef OutOfBounds\<close>.
\<close>

subsection \<open>The buffer\<close>

record CSWP_BUFFER =
  bsize :: size_t
  bused :: size_t
  bpos :: size_t
  bdata :: "byte list"

definition cswp_buffer_init :: "size_t \<Rightarrow> CSWP_BUFFER \<Rightarrow> CSWP_BUFFER" where
  "cswp_buffer_init sz b = b\<lparr>bsize := sz, bused := 0, bpos := 0\<rparr>"

text \<open>\<open>malloc n\<close> is the allocator: \<open>None\<close> when it returns \<open>NULL\<close>, otherwise the (indeterminate)
  contents of the new block. The header of the struct is 24 bytes; the result is not checked
  for \<open>NULL\<close> before it is initialised.\<close>

definition CSWP_BUFFER_HEADER :: size_t where
  "CSWP_BUFFER_HEADER = 24"

definition cswp_buffer_alloc :: "(size_t \<Rightarrow> byte list option) \<Rightarrow> size_t \<Rightarrow> ('s, CSWP_BUFFER) prog" where
  "cswp_buffer_alloc malloc sz = (case malloc (CSWP_BUFFER_HEADER + sz) of
       None \<Rightarrow> undef NullDeref
     | Some p \<Rightarrow> ret (cswp_buffer_init sz
                   \<lparr>bsize = 0, bused = 0, bpos = 0, bdata = drop (unat CSWP_BUFFER_HEADER) p\<rparr>))"

definition cswp_buffer_clear :: "CSWP_BUFFER \<Rightarrow> CSWP_BUFFER" where
  "cswp_buffer_clear b = b\<lparr>bused := 0, bpos := 0\<rparr>"

definition cswp_buffer_seek :: "size_t \<Rightarrow> CSWP_BUFFER \<Rightarrow> CSWP_BUFFER" where
  "cswp_buffer_seek p b = b\<lparr>bpos := p\<rparr>"

definition cswp_buffer_skip :: "size_t \<Rightarrow> CSWP_BUFFER \<Rightarrow> CSWP_BUFFER" where
  "cswp_buffer_skip n b = b\<lparr>bpos := bpos b + n\<rparr>"

text \<open>The macros \<open>__CSWP_REQUIRE_W\<close>, \<open>__CSWP_REQUIRE_R\<close>, \<open>__CSWP_PUT_BYTE\<close>, \<open>__CSWP_GET_BYTE\<close>, and
  \<open>memcpy\<close> to and from the current position.\<close>

definition require_w :: "size_t \<Rightarrow> (CSWP_BUFFER, unit) prog" where
  "require_w n b = (if bsize b - bused b < n then Fail (res_val CSWP_BUFFER_FULL) b else Done () b)"

definition require_r :: "size_t \<Rightarrow> (CSWP_BUFFER, unit) prog" where
  "require_r n b = (if bused b - bpos b < n then Fail (res_val CSWP_BUFFER_EMPTY) b else Done () b)"

definition copy_in :: "byte list \<Rightarrow> (CSWP_BUFFER, unit) prog" where
  "copy_in bs b = (if unat (bpos b) + length bs \<le> length (bdata b)
     then Done () (b\<lparr>bdata := take (unat (bpos b)) (bdata b) @ bs
                        @ drop (unat (bpos b) + length bs) (bdata b),
                     bpos := bpos b + of_nat (length bs)\<rparr>)
     else Undef OutOfBounds)"

definition copy_out :: "size_t \<Rightarrow> (CSWP_BUFFER, byte list) prog" where
  "copy_out n b = (if unat (bpos b) + unat n \<le> length (bdata b)
     then Done (take (unat n) (drop (unat (bpos b)) (bdata b))) (b\<lparr>bpos := bpos b + n\<rparr>)
     else Undef OutOfBounds)"

definition put_byte :: "byte \<Rightarrow> (CSWP_BUFFER, unit) prog" where
  "put_byte v = copy_in [v]"

definition get_byte :: "(CSWP_BUFFER, byte) prog" where
  "get_byte b = (if unat (bpos b) < length (bdata b)
     then Done (bdata b ! unat (bpos b)) (b\<lparr>bpos := bpos b + 1\<rparr>)
     else Undef OutOfBounds)"

definition set_used :: "(CSWP_BUFFER, unit) prog" where
  "set_used = modify (\<lambda>b. b\<lparr>bused := bpos b\<rparr>)"

subsection \<open>Writing\<close>

definition cswp_buffer_put_uint8 :: "byte \<Rightarrow> (CSWP_BUFFER, unit) prog" where
  "cswp_buffer_put_uint8 val =
     cswp_check (require_w 1) (\<lambda>_.
     cswp_check (put_byte val) (\<lambda>_.
     set_used))"

definition cswp_buffer_put_uint32 :: "c_uint \<Rightarrow> (CSWP_BUFFER, unit) prog" where
  "cswp_buffer_put_uint32 val =
     cswp_check (require_w 4) (\<lambda>_.
     cswp_check (put_byte (ucast (val AND 0xFF))) (\<lambda>_.
     cswp_check (put_byte (ucast (drop_bit 8 val AND 0xFF))) (\<lambda>_.
     cswp_check (put_byte (ucast (drop_bit 16 val AND 0xFF))) (\<lambda>_.
     cswp_check (put_byte (ucast (drop_bit 24 val AND 0xFF))) (\<lambda>_.
     set_used)))))"

definition cswp_buffer_put_uint64 :: "64 word \<Rightarrow> (CSWP_BUFFER, unit) prog" where
  "cswp_buffer_put_uint64 val =
     cswp_check (require_w 8) (\<lambda>_.
     cswp_check (put_byte (ucast (val AND 0xFF))) (\<lambda>_.
     cswp_check (put_byte (ucast (drop_bit 8 val AND 0xFF))) (\<lambda>_.
     cswp_check (put_byte (ucast (drop_bit 16 val AND 0xFF))) (\<lambda>_.
     cswp_check (put_byte (ucast (drop_bit 24 val AND 0xFF))) (\<lambda>_.
     cswp_check (put_byte (ucast (drop_bit 32 val AND 0xFF))) (\<lambda>_.
     cswp_check (put_byte (ucast (drop_bit 40 val AND 0xFF))) (\<lambda>_.
     cswp_check (put_byte (ucast (drop_bit 48 val AND 0xFF))) (\<lambda>_.
     cswp_check (put_byte (ucast (drop_bit 56 val AND 0xFF))) (\<lambda>_.
     set_used)))))))))"

text \<open>\<open>put_varint\<close>: first the loop that counts the bytes, then the loop that writes them.\<close>

lemma drop_bit_7_less: "(0x7F :: 64 word) < v \<Longrightarrow> unat (drop_bit 7 v) < unat v"
proof -
  have "unat (drop_bit 7 v) = drop_bit 7 (unat v)" by (rule unat_drop_bit_eq)
  also have "\<dots> = unat v div 2 ^ 7" by (rule drop_bit_eq_div)
  finally have "unat (drop_bit 7 v) = unat v div 128" by simp
  moreover assume "0x7F < v"
  ultimately show ?thesis by (simp add: word_less_nat_alt)
qed

function varint_rq :: "64 word \<Rightarrow> size_t \<Rightarrow> size_t" where
  "varint_rq tmp rq = (if tmp > 0x7F then varint_rq (drop_bit 7 tmp) (rq + 1) else rq)"
  by pat_completeness auto
termination
  by (relation "measure (\<lambda>(tmp, rq). unat tmp)") (auto simp: drop_bit_7_less)

function put_varint_loop :: "64 word \<Rightarrow> (CSWP_BUFFER, unit) prog" where
  "put_varint_loop val = (if val > 0x7F
     then cswp_check (put_byte (ucast (0x80 OR (val AND 0x7F)))) (\<lambda>_. put_varint_loop (drop_bit 7 val))
     else put_byte (ucast (val AND 0x7F)))"
  by pat_completeness auto
termination
  by (relation "measure unat") (auto simp: drop_bit_7_less)

declare varint_rq.simps [simp del] put_varint_loop.simps [simp del]

definition cswp_buffer_put_varint :: "64 word \<Rightarrow> (CSWP_BUFFER, unit) prog" where
  "cswp_buffer_put_varint val =
     cswp_check (require_w (varint_rq val 1)) (\<lambda>_.
     cswp_check (put_varint_loop val) (\<lambda>_.
     set_used))"

definition cswp_buffer_put_string :: "cstring \<Rightarrow> (CSWP_BUFFER, unit) prog" where
  "cswp_buffer_put_string str = (case str of
       None \<Rightarrow> undef NullDeref
     | Some s \<Rightarrow>
         (let len = of_nat (length (cstr s)) in
          cswp_check (cswp_buffer_put_varint len) (\<lambda>_.
          cswp_check (require_w len) (\<lambda>_.
          cswp_check (copy_in (take (unat len) (cstr s))) (\<lambda>_.
          set_used)))))"

text \<open>\<open>data\<close> is the object the pointer argument points to; copying more than it holds is
  undefined.\<close>

definition cswp_buffer_put_data :: "byte list \<Rightarrow> size_t \<Rightarrow> (CSWP_BUFFER, unit) prog" where
  "cswp_buffer_put_data data sz =
     cswp_check (require_w sz) (\<lambda>_.
     if length data < unat sz then undef OutOfBounds
     else cswp_check (copy_in (take (unat sz) data)) (\<lambda>_. set_used))"

subsection \<open>Reading\<close>

definition cswp_buffer_get_uint8 :: "(CSWP_BUFFER, byte) prog" where
  "cswp_buffer_get_uint8 = cswp_check (require_r 1) (\<lambda>_. get_byte)"

text \<open>A byte is promoted to \<open>int\<close> before it is shifted. The shift count has to be below 32; a
  result that does not fit wraps to two's complement, as the compilers the project uses
  define it. \<open>int_shl\<close> is that shift.\<close>

definition int_shl :: "byte \<Rightarrow> nat \<Rightarrow> ('s, c_int) prog" where
  "int_shl v s = (if s < 32 then ret (push_bit s (ucast v)) else undef BadShift)"

definition cswp_buffer_get_uint32 :: "(CSWP_BUFFER, c_uint) prog" where
  "cswp_buffer_get_uint32 =
     cswp_check (require_r 4) (\<lambda>_.
     cswp_check get_byte (\<lambda>b0.
     cswp_check get_byte (\<lambda>b1.
     cswp_check (int_shl b1 8) (\<lambda>v1.
     cswp_check get_byte (\<lambda>b2.
     cswp_check (int_shl b2 16) (\<lambda>v2.
     cswp_check get_byte (\<lambda>b3.
     cswp_check (int_shl b3 24) (\<lambda>v3.
     ret (ucast b0 OR v1 OR v2 OR v3)))))))))"

definition cswp_buffer_get_uint64 :: "(CSWP_BUFFER, 64 word) prog" where
  "cswp_buffer_get_uint64 =
     cswp_check (require_r 8) (\<lambda>_.
     cswp_check get_byte (\<lambda>b0.
     cswp_check get_byte (\<lambda>b1.
     cswp_check get_byte (\<lambda>b2.
     cswp_check get_byte (\<lambda>b3.
     cswp_check get_byte (\<lambda>b4.
     cswp_check get_byte (\<lambda>b5.
     cswp_check get_byte (\<lambda>b6.
     cswp_check get_byte (\<lambda>b7.
     ret (ucast b0 OR push_bit 8 (ucast b1) OR push_bit 16 (ucast b2) OR push_bit 24 (ucast b3)
          OR push_bit 32 (ucast b4) OR push_bit 40 (ucast b5) OR push_bit 48 (ucast b6)
          OR push_bit 56 (ucast b7)))))))))))"

text \<open>\<open>get_varint\<close>: \<open>v |= (b & 0x7F) << s\<close> shifts an \<open>int\<close>; the \<open>int\<close> is sign-extended to the
  64 bits of \<open>v\<close>. Each round advances \<open>pos\<close> inside the array, so the loop ends.\<close>

function get_varint_loop :: "64 word \<Rightarrow> nat \<Rightarrow> (CSWP_BUFFER, 64 word) prog" where
  "get_varint_loop v s b =
     (if bused b - bpos b < 1 then Fail (res_val CSWP_BUFFER_EMPTY) b
      else if \<not> unat (bpos b) < length (bdata b) then Undef OutOfBounds
      else let x = bdata b ! unat (bpos b); b' = b\<lparr>bpos := bpos b + 1\<rparr> in
        if \<not> s < 32 then Undef BadShift
        else let v' = v OR scast (push_bit s (ucast (x AND 0x7F) :: c_int)) in
          if x AND 0x80 = 0 then Done v' b'
          else get_varint_loop v' (s + 7) b')"
  by pat_completeness auto
termination
  by (relation "measure (\<lambda>(v, s, b). 32 - s)") auto

declare get_varint_loop.simps [simp del]

definition cswp_buffer_get_varint :: "(CSWP_BUFFER, 64 word) prog" where
  "cswp_buffer_get_varint = get_varint_loop 0 0"

text \<open>The character array filled by \<open>get_string\<close>: the bytes before the added terminator.\<close>

definition cswp_buffer_get_string :: "size_t \<Rightarrow> (CSWP_BUFFER, byte list) prog" where
  "cswp_buffer_get_string strSize =
     cswp_check cswp_buffer_get_varint (\<lambda>len.
     cswp_check (require_r len) (\<lambda>_.
     if len \<ge> strSize then fail (res_val CSWP_OUTPUT_BUFFER_OVERFLOW)
     else copy_out len))"

definition cswp_buffer_get_direct :: "size_t \<Rightarrow> (CSWP_BUFFER, byte list) prog" where
  "cswp_buffer_get_direct len = cswp_check (require_r len) (\<lambda>_. copy_out len)"

definition cswp_buffer_get_data :: "size_t \<Rightarrow> (CSWP_BUFFER, byte list) prog" where
  "cswp_buffer_get_data sz = cswp_check (require_r sz) (\<lambda>_. copy_out sz)"

subsection \<open>Direct access by the users of a buffer\<close>

text \<open>The client and the server store into \<open>buf\<close> themselves: a header or a length at an offset, and
  the bytes a transport has received, whose number becomes \<open>used\<close>.\<close>

definition poke :: "nat \<Rightarrow> byte list \<Rightarrow> (CSWP_BUFFER, unit) prog" where
  "poke off bs b = (if off + length bs \<le> length (bdata b)
     then Done () (b\<lparr>bdata := take off (bdata b) @ bs @ drop (off + length bs) (bdata b)\<rparr>)
     else Undef OutOfBounds)"

definition received :: "byte list \<Rightarrow> (CSWP_BUFFER, unit) prog" where
  "received data b = (if length data \<le> length (bdata b)
     then Done () (b\<lparr>bdata := data @ drop (length data) (bdata b), bused := of_nat (length data)\<rparr>)
     else Undef OutOfBounds)"

end
