(* ===== verification/Buffer_Contract.thy ===== *)
theory Buffer_Contract
  imports Cswp_Buffer
begin

text \<open>
  Contracts of the buffer functions. A buffer is seen as the bytes written so far
  (\<open>written\<close>) and the bytes still to be read (\<open>unread\<close>).
  \<open>emits f bs\<close>: \<open>f\<close> appends exactly \<open>bs\<close>, or reports a full buffer after appending a
  prefix of \<open>bs\<close>. \<open>reads f bs x\<close>: on input that starts with \<open>bs\<close>, \<open>f\<close> consumes \<open>bs\<close> and
  returns \<open>x\<close>. Both compose along \<open>cswp_check\<close>, so a message encoder is the concatenation of
  the encodings of its fields and a decoder reads them back. The locale \<open>codec\<close> is the
  interface the message theories rely on: an encoder and a decoder for the same bytes.
\<close>

named_theorems emits_rules \<open>byte sequences appended by the encoders\<close>
named_theorems reads_rules \<open>byte sequences consumed by the decoders\<close>
named_theorems safe_rules \<open>memory safety of the decoders\<close>

subsection \<open>Views and well-formedness\<close>

definition written :: "CSWP_BUFFER \<Rightarrow> byte list" where
  "written b = take (unat (bused b)) (bdata b)"

definition unread :: "CSWP_BUFFER \<Rightarrow> byte list" where
  "unread b = drop (unat (bpos b)) (written b)"

definition buf_ok :: "CSWP_BUFFER \<Rightarrow> bool" where
  "buf_ok b \<longleftrightarrow> unat (bsize b) = length (bdata b) \<and> bpos b \<le> bused b \<and> bused b \<le> bsize b"

text \<open>Between two write operations the position is at the end of the written bytes.\<close>

definition at_end :: "CSWP_BUFFER \<Rightarrow> bool" where
  "at_end b \<longleftrightarrow> buf_ok b \<and> bpos b = bused b"

lemma buf_okD:
  assumes "buf_ok b"
  shows "unat (bsize b) = length (bdata b)" and "unat (bpos b) \<le> unat (bused b)"
    and "unat (bused b) \<le> length (bdata b)" and "length (bdata b) < 2 ^ 64"
proof -
  have "unat (bsize b) < 2 ^ LENGTH(64)" by (rule unsigned_less)
  with assms show "unat (bsize b) = length (bdata b)" and "unat (bpos b) \<le> unat (bused b)"
    and "unat (bused b) \<le> length (bdata b)" and "length (bdata b) < 2 ^ 64"
    by (auto simp: buf_ok_def word_le_nat_alt)
qed

lemma length_written: "buf_ok b \<Longrightarrow> length (written b) = unat (bused b)"
  by (simp add: written_def buf_okD)

lemma length_unread: "buf_ok b \<Longrightarrow> length (unread b) = unat (bused b) - unat (bpos b)"
  by (simp add: unread_def length_written)

lemma at_end_ok: "at_end b \<Longrightarrow> buf_ok b"
  by (simp add: at_end_def)

lemma buf_ok_bounded:
  assumes "buf_ok b" shows "unat (bpos b) \<le> length (bdata b)"
  using buf_okD [OF assms] by linarith

text \<open>A fresh or cleared buffer is well formed and empty.\<close>

lemma cswp_buffer_init_at_end:
  "length (bdata b) = unat sz \<Longrightarrow> at_end (cswp_buffer_init sz b)"
  by (simp add: cswp_buffer_init_def at_end_def buf_ok_def)

lemma cswp_buffer_clear_at_end: "buf_ok b \<Longrightarrow> at_end (cswp_buffer_clear b)"
  by (auto simp: cswp_buffer_clear_def at_end_def buf_ok_def)

lemma written_clear [simp]: "written (cswp_buffer_clear b) = []"
  by (simp add: written_def cswp_buffer_clear_def)

lemma bsize_clear [simp]: "bsize (cswp_buffer_clear b) = bsize b"
  by (simp add: cswp_buffer_clear_def)

subsection \<open>Appending\<close>

definition emits :: "(CSWP_BUFFER, unit) prog \<Rightarrow> byte list \<Rightarrow> bool" where
  "emits f bs \<longleftrightarrow> (\<forall>b. at_end b \<longrightarrow>
     (if unat (bused b) + length bs \<le> unat (bsize b)
      then \<exists>b'. f b = Done () b' \<and> at_end b' \<and> bsize b' = bsize b \<and> written b' = written b @ bs
      else \<exists>b' p. f b = Fail (res_val CSWP_BUFFER_FULL) b' \<and> at_end b' \<and> bsize b' = bsize b
             \<and> prefix p bs \<and> written b' = written b @ p))"

lemma emits_Done:
  assumes "emits f bs" and "at_end b" and "unat (bused b) + length bs \<le> unat (bsize b)"
  obtains b' where "f b = Done () b'" "at_end b'" "bsize b' = bsize b" "written b' = written b @ bs"
  using assms unfolding emits_def by metis

lemma emits_Fail:
  assumes "emits f bs" and "at_end b" and "\<not> unat (bused b) + length bs \<le> unat (bsize b)"
  obtains b' p where "f b = Fail (res_val CSWP_BUFFER_FULL) b'" "at_end b'" "bsize b' = bsize b"
    "prefix p bs" "written b' = written b @ p"
  using assms unfolding emits_def by metis

lemma emits_ret [emits_rules]: "emits (ret ()) []"
  unfolding emits_def
proof (intro allI impI)
  fix b assume "at_end b"
  then show "if unat (bused b) + length [] \<le> unat (bsize b)
      then \<exists>b'. ret () b = Done () b' \<and> at_end b' \<and> bsize b' = bsize b \<and> written b' = written b @ []
      else \<exists>b' p. ret () b = Fail (res_val CSWP_BUFFER_FULL) b' \<and> at_end b' \<and> bsize b' = bsize b
             \<and> prefix p [] \<and> written b' = written b @ p"
    using buf_okD [OF at_end_ok] by simp
qed

lemma emits_check [emits_rules]:
  assumes f: "emits f bs" and g: "emits (g ()) cs"
  shows "emits (cswp_check f g) (bs @ cs)"
  unfolding emits_def
proof (intro allI impI)
  fix b assume b: "at_end b"
  show "if unat (bused b) + length (bs @ cs) \<le> unat (bsize b)
      then \<exists>b'. cswp_check f g b = Done () b' \<and> at_end b' \<and> bsize b' = bsize b
             \<and> written b' = written b @ (bs @ cs)
      else \<exists>b' p. cswp_check f g b = Fail (res_val CSWP_BUFFER_FULL) b' \<and> at_end b'
             \<and> bsize b' = bsize b \<and> prefix p (bs @ cs) \<and> written b' = written b @ p"
  proof (cases "unat (bused b) + length bs \<le> unat (bsize b)")
    case False
    from emits_Fail [OF f b False] obtain b' p where
      "f b = Fail (res_val CSWP_BUFFER_FULL) b'" "at_end b'" "bsize b' = bsize b"
      "prefix p bs" "written b' = written b @ p" .
    moreover from False have "\<not> unat (bused b) + length (bs @ cs) \<le> unat (bsize b)" by simp
    ultimately show ?thesis by (simp add: prefix_prefix)
  next
    case True
    from emits_Done [OF f b True] obtain b' where
      b': "f b = Done () b'" "at_end b'" "bsize b' = bsize b" "written b' = written b @ bs" .
    then have used: "unat (bused b') = unat (bused b) + length bs"
      using length_written [OF at_end_ok [OF b]] length_written [OF at_end_ok [OF b'(2)]] by simp
    show ?thesis
    proof (cases "unat (bused b') + length cs \<le> unat (bsize b')")
      case True
      from emits_Done [OF g b'(2) True] obtain c where
        "g () b' = Done () c" "at_end c" "bsize c = bsize b'" "written c = written b' @ cs" .
      with True used b' show ?thesis by simp
    next
      case False
      from emits_Fail [OF g b'(2) False] obtain c p where
        "g () b' = Fail (res_val CSWP_BUFFER_FULL) c" "at_end c" "bsize c = bsize b'"
        "prefix p cs" "written c = written b' @ p" .
      with False used b' show ?thesis by (simp add: same_prefix_prefix)
    qed
  qed
qed

lemma emits_for:
  assumes "\<And>i. i < n \<Longrightarrow> emits (body i) (enc i)"
  shows "emits (c_for i n body) (concat (map enc [i..<n]))"
proof (induction "n - i" arbitrary: i)
  case 0
  then have "n \<le> i" by simp
  then have eq: "c_for i n body = ret ()" and nil: "[i..<n] = []"
    by (simp_all add: fun_eq_iff)
  show ?case unfolding eq nil by (simp add: emits_ret del: ret_apply)
next
  case (Suc m)
  then have lt: "i < n" and IH: "emits (c_for (Suc i) n body) (concat (map enc [Suc i..<n]))"
    by auto
  have "concat (map enc [i..<n]) = enc i @ concat (map enc [Suc i..<n])"
    using lt by (simp add: upt_conv_Cons)
  then show ?case
    unfolding c_for_step [OF lt] by (simp add: emits_check [OF assms [OF lt] IH])
qed

text \<open>The basic step: check the space, copy the bytes in, move the fill level.\<close>

lemma copy_in_seq:
  assumes "length (bdata b) < 2 ^ 64"
  shows "cswp_check (copy_in xs) (\<lambda>_. cswp_check (copy_in ys) k) b
       = cswp_check (copy_in (xs @ ys)) k b"
proof (cases "unat (bpos b) + length xs \<le> length (bdata b)")
  case True
  then have "unat (bpos b + of_nat (length xs)) = unat (bpos b) + length xs"
    using assms by (intro unat_add_of_nat) linarith
  moreover have "unat (bpos b) \<le> length (bdata b)" using True by linarith
  ultimately show ?thesis using True
    by (simp add: copy_in_def cswp_check_def min_absorb1 min_absorb2 ac_simps)
next
  case False
  then show ?thesis by (simp add: copy_in_def cswp_check_def)
qed

lemma emits_copy_in:
  assumes "unat n = length bs"
  shows "emits (cswp_check (require_w n) (\<lambda>_. cswp_check (copy_in bs) (\<lambda>_. set_used))) bs"
  unfolding emits_def
proof (intro allI impI)
  let ?f = "cswp_check (require_w n) (\<lambda>_. cswp_check (copy_in bs) (\<lambda>_. set_used))"
  fix b assume b: "at_end b"
  note ok = buf_okD [OF at_end_ok [OF b]]
  have le: "bused b \<le> bsize b" using b by (simp add: at_end_def buf_ok_def)
  have req: "bsize b - bused b < n \<longleftrightarrow> unat (bsize b) < unat (bused b) + length bs"
    using unat_diff_less_iff [OF le, of n] ok assms by auto
  show "if unat (bused b) + length bs \<le> unat (bsize b)
      then \<exists>b'. ?f b = Done () b' \<and> at_end b' \<and> bsize b' = bsize b \<and> written b' = written b @ bs
      else \<exists>b' p. ?f b = Fail (res_val CSWP_BUFFER_FULL) b' \<and> at_end b' \<and> bsize b' = bsize b
             \<and> prefix p bs \<and> written b' = written b @ p"
  proof (cases "unat (bused b) + length bs \<le> unat (bsize b)")
    case True
    then have "unat (bused b + of_nat (length bs)) = unat (bused b) + length bs"
      using ok by (intro unat_add_of_nat) linarith
    moreover have "unat (bused b) \<le> length (bdata b)" "bpos b = bused b"
      using b ok by (simp_all add: at_end_def)
    ultimately show ?thesis using True ok req
      by (simp add: cswp_check_def require_w_def copy_in_def set_used_def modify_def
          at_end_def buf_ok_def written_def word_le_nat_alt min_absorb1 min_absorb2)
  next
    case False
    with req have "?f b = Fail (res_val CSWP_BUFFER_FULL) b"
      by (simp add: cswp_check_def require_w_def)
    with False b show ?thesis by (auto intro: exI [of _ "[]"])
  qed
qed

subsection \<open>Encodings of the values\<close>

definition le_bytes :: "nat \<Rightarrow> 'a::len word \<Rightarrow> byte list" where
  "le_bytes n v = map (\<lambda>i. ucast (drop_bit (8 * i) v)) [0..<n]"

function varint_enc :: "64 word \<Rightarrow> byte list" where
  "varint_enc v = (if v > 0x7F then ucast (0x80 OR (v AND 0x7F)) # varint_enc (drop_bit 7 v)
                   else [ucast (v AND 0x7F)])"
  by pat_completeness auto
termination
  by (relation "measure unat") (auto simp: drop_bit_7_less)

declare varint_enc.simps [simp del]

definition string_enc :: "cstring \<Rightarrow> byte list" where
  "string_enc str = (case str of None \<Rightarrow> []
     | Some s \<Rightarrow> varint_enc (of_nat (length (cstr s))) @ cstr s)"

lemma length_le_bytes [simp]: "length (le_bytes n v) = n"
  by (simp add: le_bytes_def)

lemma varint_enc_not_Nil [simp]: "varint_enc v \<noteq> []"
  by (subst varint_enc.simps) simp

lemma length_varint_enc_le:
  assumes "unat v < 2 ^ (7 * n)" and "0 < n"
  shows "length (varint_enc v) \<le> n"
  using assms
proof (induction n arbitrary: v)
  case 0
  then show ?case by simp
next
  case (Suc n)
  show ?case
  proof (cases "v > 0x7F")
    case False
    then show ?thesis by (subst varint_enc.simps) simp
  next
    case True
    have "n \<noteq> 0"
    proof
      assume "n = 0"
      with Suc.prems True show False by (simp add: word_less_nat_alt)
    qed
    have "unat (drop_bit 7 v) = unat v div 2 ^ 7"
      using unat_drop_bit_eq [of 7 v] by (simp only: drop_bit_eq_div)
    also have "\<dots> < 2 ^ (7 * n)"
      using Suc.prems by (simp add: less_mult_imp_div_less power_add mult.commute)
    finally have "length (varint_enc (drop_bit 7 v)) \<le> n"
      using Suc.IH \<open>n \<noteq> 0\<close> by simp
    with True show ?thesis by (subst varint_enc.simps) simp
  qed
qed

lemma length_varint_enc_le_10: "length (varint_enc v) \<le> 10"
proof (rule length_varint_enc_le)
  have "unat v < 2 ^ LENGTH(64)" by (rule unsigned_less)
  then show "unat v < 2 ^ (7 * 10)" by simp
qed simp

lemma varint_rq_eq: "varint_rq v rq + 1 = rq + of_nat (length (varint_enc v))"
proof (induction v rq rule: varint_rq.induct)
  case (1 tmp rq)
  then show ?case
    by (cases "tmp > 0x7F") (simp_all add: varint_rq.simps [of tmp] varint_enc.simps [of tmp])
qed

lemma unat_varint_rq: "unat (varint_rq v 1) = length (varint_enc v)"
proof -
  have "varint_rq v 1 = of_nat (length (varint_enc v))"
    using varint_rq_eq [of v 1] by simp
  then show ?thesis
    using length_varint_enc_le_10 [of v] by (simp add: unat_of_nat_small)
qed

lemma put_varint_loop_eq:
  assumes "length (bdata b) < 2 ^ 64"
  shows "cswp_check (put_varint_loop v) k b = cswp_check (copy_in (varint_enc v)) k b"
  using assms
proof (induction v arbitrary: b rule: varint_enc.induct)
  case (1 v)
  show ?case
  proof (cases "v > 0x7F")
    case False
    then show ?thesis
      by (simp add: put_varint_loop.simps [of v] varint_enc.simps [of v] put_byte_def)
  next
    case True
    let ?x = "ucast (0x80 OR (v AND 0x7F)) :: byte"
    have "cswp_check (put_varint_loop v) k b
        = cswp_check (copy_in [?x]) (\<lambda>_. cswp_check (put_varint_loop (drop_bit 7 v)) k) b"
      using True by (simp add: put_varint_loop.simps [of v] put_byte_def cswp_check_assoc)
    also have "\<dots> = cswp_check (copy_in [?x]) (\<lambda>_. cswp_check (copy_in (varint_enc (drop_bit 7 v))) k) b"
      using 1 True by (simp add: cswp_check_def [of "copy_in [?x]"] copy_in_def [of "[?x]"])
    also have "\<dots> = cswp_check (copy_in (varint_enc v)) k b"
      using True by (simp only: copy_in_seq [OF "1.prems"] varint_enc.simps [of v]) simp
    finally show ?thesis .
  qed
qed

lemma emits_cong:
  assumes g: "emits g bs" and eq: "\<And>b. at_end b \<Longrightarrow> f b = g b"
  shows "emits f bs"
  unfolding emits_def
proof (intro allI impI)
  fix b assume "at_end b"
  then show "if unat (bused b) + length bs \<le> unat (bsize b)
      then \<exists>b'. f b = Done () b' \<and> at_end b' \<and> bsize b' = bsize b \<and> written b' = written b @ bs
      else \<exists>b' p. f b = Fail (res_val CSWP_BUFFER_FULL) b' \<and> at_end b' \<and> bsize b' = bsize b
             \<and> prefix p bs \<and> written b' = written b @ p"
    using g unfolding emits_def by (subst (1 2) eq) blast+
qed

lemma emits_space:
  assumes n: "unat n = length bs"
    and f: "\<And>b. length (bdata b) < 2 ^ 64 \<Longrightarrow> f b = cswp_check (copy_in bs) (\<lambda>_. set_used) b"
  shows "emits (cswp_check (require_w n) (\<lambda>_. f)) bs"
proof -
  have "cswp_check (require_w n) (\<lambda>_. f) b
      = cswp_check (require_w n) (\<lambda>_. cswp_check (copy_in bs) (\<lambda>_. set_used)) b" if "at_end b" for b
    using f [of b] buf_okD(4) [OF at_end_ok [OF that]]
    by (auto simp: cswp_check_def [of "require_w n"] require_w_def)
  then show ?thesis by (rule emits_cong [OF emits_copy_in [OF n]])
qed

lemma emits_put_varint [emits_rules]: "emits (cswp_buffer_put_varint v) (varint_enc v)"
  unfolding cswp_buffer_put_varint_def
  by (rule emits_space) (simp_all add: unat_varint_rq put_varint_loop_eq)

lemma emits_put_uint8 [emits_rules]: "emits (cswp_buffer_put_uint8 v) [v]"
  unfolding cswp_buffer_put_uint8_def put_byte_def by (rule emits_copy_in) simp

lemma ucast_and_255 [simp]: "ucast ((v :: 'a::len word) AND 0xFF) = (ucast v :: byte)"
proof -
  have mask: "(0xFF :: 'a word) = mask 8" by (simp add: mask_eq_decr_exp)
  show ?thesis unfolding mask by (rule bit_word_eqI) (auto simp: bit_simps dest: bit_imp_le_length)
qed

lemma emits_put_uint32 [emits_rules]: "emits (cswp_buffer_put_uint32 v) (le_bytes 4 v)"
  unfolding cswp_buffer_put_uint32_def put_byte_def
  by (rule emits_space) (simp_all add: copy_in_seq le_bytes_def upt_rec [of _ 4])

lemma emits_put_uint64 [emits_rules]: "emits (cswp_buffer_put_uint64 v) (le_bytes 8 v)"
  unfolding cswp_buffer_put_uint64_def put_byte_def
  by (rule emits_space) (simp_all add: copy_in_seq le_bytes_def upt_rec [of _ 8])

lemma emits_put_data [emits_rules]:
  assumes "unat n \<le> length data"
  shows "emits (cswp_buffer_put_data data n) (take (unat n) data)"
  unfolding cswp_buffer_put_data_def
  by (rule emits_space) (use assms in simp_all)

text \<open>A string is at most as long as memory, so its length is a \<open>size_t\<close>.\<close>

lemma emits_put_string [emits_rules]:
  assumes "length s < 2 ^ 64"
  shows "emits (cswp_buffer_put_string (Some s)) (string_enc (Some s))"
proof -
  have "length (cstr s) < 2 ^ 64" using assms length_cstr_le [of s] by linarith
  then have n: "unat (of_nat (length (cstr s)) :: size_t) = length (cstr s)"
    by (rule unat_of_nat_small)
  have "take (unat (of_nat (length (cstr s)) :: size_t)) (cstr s) = cstr s" using n by simp
  then show ?thesis
    unfolding cswp_buffer_put_string_def string_enc_def Let_def option.case
    using emits_check [OF emits_put_varint emits_copy_in [OF n]] by simp
qed

lemma put_string_NULL [simp]: "cswp_buffer_put_string None b = Undef NullDeref"
  by (simp add: cswp_buffer_put_string_def)

subsection \<open>Consuming\<close>

definition adv :: "nat \<Rightarrow> CSWP_BUFFER \<Rightarrow> CSWP_BUFFER" where
  "adv n b = b\<lparr>bpos := bpos b + of_nat n\<rparr>"

lemma adv_0 [simp]: "adv 0 b = b"
  by (simp add: adv_def)

lemma adv_adv [simp]: "adv m (adv n b) = adv (n + m) b"
  by (simp add: adv_def add.assoc)

lemma adv_fields [simp]:
  "bsize (adv n b) = bsize b" "bused (adv n b) = bused b" "bdata (adv n b) = bdata b"
  "written (adv n b) = written b"
  by (simp_all add: adv_def written_def)

lemma unat_bpos_adv:
  assumes "buf_ok b" and "n \<le> length (unread b)"
  shows "unat (bpos (adv n b)) = unat (bpos b) + n"
proof -
  note ok = buf_okD [OF assms(1)]
  have "unat (bpos b) + n < 2 ^ 64" using assms length_unread [OF assms(1)] ok by linarith
  then show ?thesis by (simp add: adv_def unat_add_of_nat)
qed

lemma adv_ok:
  assumes "buf_ok b" and "n \<le> length (unread b)"
  shows "buf_ok (adv n b)"
  using assms unat_bpos_adv [OF assms] length_unread [OF assms(1)] buf_okD [OF assms(1)]
  by (simp add: buf_ok_def word_le_nat_alt)

lemma unread_adv:
  assumes "buf_ok b" and "n \<le> length (unread b)"
  shows "unread (adv n b) = drop n (unread b)"
  by (simp add: unread_def unat_bpos_adv [OF assms] add.commute)

lemma unread_nth:
  assumes "buf_ok b" and "i < length (unread b)"
  shows "bdata b ! (unat (bpos b) + i) = unread b ! i"
  using assms length_unread [OF assms(1)] buf_okD [OF assms(1)]
  by (simp add: unread_def written_def)

lemma require_r_iff:
  assumes "buf_ok b"
  shows "bused b - bpos b < n \<longleftrightarrow> length (unread b) < unat n"
  using assms unat_diff_less_iff [of "bpos b" "bused b" n] length_unread [OF assms]
  by (simp add: buf_ok_def)

lemma require_r_eq:
  "buf_ok b \<Longrightarrow> require_r n b
     = (if length (unread b) < unat n then Fail (res_val CSWP_BUFFER_EMPTY) b else Done () b)"
  by (simp add: require_r_def require_r_iff)

lemma get_byte_eq:
  assumes "buf_ok b" and "unread b = x # xs"
  shows "get_byte b = Done x (adv 1 b)"
proof -
  have "0 < length (unread b)" using assms(2) by simp
  then have "bdata b ! unat (bpos b) = x" and "unat (bpos b) < length (bdata b)"
    using unread_nth [OF assms(1), of 0] assms(2) length_unread [OF assms(1)] buf_okD [OF assms(1)]
    by auto
  then show ?thesis by (simp add: get_byte_def adv_def)
qed

lemma copy_out_eq:
  assumes "buf_ok b" and "unat n \<le> length (unread b)"
  shows "copy_out n b = Done (take (unat n) (unread b)) (adv (unat n) b)"
  using assms length_unread [OF assms(1)] buf_okD [OF assms(1)]
  by (auto simp: copy_out_def adv_def unread_def written_def drop_take min_def)

text \<open>\<open>reads f bs x\<close>: complete input gives \<open>x\<close>; input that stops inside \<open>bs\<close> is reported as an
  empty buffer.\<close>

definition reads :: "(CSWP_BUFFER, 'a) prog \<Rightarrow> byte list \<Rightarrow> 'a \<Rightarrow> bool" where
  "reads f bs x \<longleftrightarrow>
     (\<forall>b zs. buf_ok b \<longrightarrow> unread b = bs @ zs \<longrightarrow> f b = Done x (adv (length bs) b)) \<and>
     (\<forall>b. buf_ok b \<longrightarrow> strict_prefix (unread b) bs \<longrightarrow>
        (\<exists>n \<le> length (unread b). f b = Fail (res_val CSWP_BUFFER_EMPTY) (adv n b)))"

lemma reads_Done:
  "reads f bs x \<Longrightarrow> buf_ok b \<Longrightarrow> unread b = bs @ zs \<Longrightarrow> f b = Done x (adv (length bs) b)"
  by (simp add: reads_def)

lemma reads_Fail:
  assumes "reads f bs x" and "buf_ok b" and "strict_prefix (unread b) bs"
  obtains n where "n \<le> length (unread b)" "f b = Fail (res_val CSWP_BUFFER_EMPTY) (adv n b)"
  using assms unfolding reads_def by metis

lemma reads_ret [reads_rules]: "reads (ret x) [] x"
  by (simp add: reads_def)

lemma strict_prefix_append_cases:
  assumes "strict_prefix p (xs @ ys)"
  obtains "strict_prefix p xs" | q where "p = xs @ q" "strict_prefix q ys"
proof (cases "strict_prefix p xs")
  case False
  with assms obtain q where "p = xs @ q" "prefix q ys"
    by (auto simp: strict_prefix_def prefix_append)
  with assms that show ?thesis by (auto simp: strict_prefix_def)
qed

lemma reads_check [reads_rules]:
  assumes f: "reads f bs x" and g: "reads (g x) cs y"
  shows "reads (cswp_check f g) (bs @ cs) y"
  unfolding reads_def
proof (intro conjI allI impI)
  fix b zs assume b: "buf_ok b" and u: "unread b = (bs @ cs) @ zs"
  let ?b' = "adv (length bs) b"
  from u have le: "length bs \<le> length (unread b)" by simp
  have "f b = Done x ?b'" using reads_Done [OF f b] u by simp
  moreover have "g x ?b' = Done y (adv (length cs) ?b')"
    using reads_Done [OF g adv_ok [OF b le]] u by (simp add: unread_adv [OF b le])
  ultimately show "cswp_check f g b = Done y (adv (length (bs @ cs)) b)" by simp
next
  fix b assume b: "buf_ok b" and u: "strict_prefix (unread b) (bs @ cs)"
  from u show "\<exists>n\<le>length (unread b).
      cswp_check f g b = Fail (res_val CSWP_BUFFER_EMPTY) (adv n b)"
  proof (cases rule: strict_prefix_append_cases)
    case 1
    from reads_Fail [OF f b 1] show ?thesis by (metis cswp_check_Fail)
  next
    case (2 q)
    then have le: "length bs \<le> length (unread b)" by simp
    let ?b' = "adv (length bs) b"
    have fb: "f b = Done x ?b'" using reads_Done [OF f b 2(1)] .
    have q: "unread ?b' = q" using 2(1) by (simp add: unread_adv [OF b le])
    from reads_Fail [OF g adv_ok [OF b le]] 2(2) q obtain n where
      "n \<le> length q" "g x ?b' = Fail (res_val CSWP_BUFFER_EMPTY) (adv n ?b')" by metis
    then show ?thesis using fb 2(1) by (intro exI [of _ "length bs + n"]) simp
  qed
qed

lemma reads_check_ret:
  assumes "reads f bs x" and "g x = ret y"
  shows "reads (cswp_check f g) bs y"
  using reads_check [OF assms(1), of g "[]" y] assms(2) by (simp add: reads_ret)

lemma reads_space:
  assumes n: "unat n = length bs"
    and f: "\<And>b zs. buf_ok b \<Longrightarrow> unread b = bs @ zs \<Longrightarrow> f b = Done x (adv (length bs) b)"
  shows "reads (cswp_check (require_r n) (\<lambda>_. f)) bs x"
  unfolding reads_def
proof (intro conjI allI impI)
  fix b zs assume b: "buf_ok b" and u: "unread b = bs @ zs"
  then have "require_r n b = Done () b" using n by (simp add: require_r_eq)
  with f [OF b u] show "cswp_check (require_r n) (\<lambda>_. f) b = Done x (adv (length bs) b)" by simp
next
  fix b assume b: "buf_ok b" and "strict_prefix (unread b) bs"
  then have "require_r n b = Fail (res_val CSWP_BUFFER_EMPTY) b"
    using n by (simp add: require_r_eq prefix_length_less)
  then show "\<exists>m\<le>length (unread b).
      cswp_check (require_r n) (\<lambda>_. f) b = Fail (res_val CSWP_BUFFER_EMPTY) (adv m b)"
    by (intro exI [of _ 0]) simp
qed

lemma check_get_byte:
  "buf_ok b \<Longrightarrow> unread b = x # xs \<Longrightarrow> cswp_check get_byte g b = g x (adv 1 b)"
  by (simp add: get_byte_eq)

lemma reads_get_uint8 [reads_rules]: "reads cswp_buffer_get_uint8 [v] v"
  unfolding cswp_buffer_get_uint8_def by (rule reads_space) (simp_all add: get_byte_eq)

lemma le_bytes_32: "le_bytes 4 v = [ucast v, ucast (drop_bit 8 v), ucast (drop_bit 16 v), ucast (drop_bit 24 v)]"
  by (simp add: le_bytes_def upt_rec [of _ 4])

lemma le_bytes_64: "le_bytes 8 v = [ucast v, ucast (drop_bit 8 v), ucast (drop_bit 16 v), ucast (drop_bit 24 v),
    ucast (drop_bit 32 v), ucast (drop_bit 40 v), ucast (drop_bit 48 v), ucast (drop_bit 56 v)]"
  by (simp add: le_bytes_def upt_rec [of _ 8])

lemma byte_lane:
  "bit (push_bit s (ucast (ucast (drop_bit s (v :: 'a::len word)) :: byte)) :: 'a word) n \<longleftrightarrow> s \<le> n \<and> n < s + 8 \<and> bit v n"
  using bit_imp_le_length [of v n] by (auto simp: bit_simps)

lemma le_combine_32:
  "ucast (ucast v :: byte) OR push_bit 8 (ucast (ucast (drop_bit 8 v) :: byte))
     OR push_bit 16 (ucast (ucast (drop_bit 16 v) :: byte))
     OR push_bit 24 (ucast (ucast (drop_bit 24 v) :: byte)) = (v :: 32 word)"
    (is "?w = v")
proof (rule bit_word_eqI)
  fix n assume "n < LENGTH(32)"
  then show "bit ?w n = bit v n"
    using byte_lane [of 0 v n] by (cases "bit v n") (auto simp: bit_or_iff byte_lane)
qed

lemma le_combine_64:
  "ucast (ucast v :: byte) OR push_bit 8 (ucast (ucast (drop_bit 8 v) :: byte))
     OR push_bit 16 (ucast (ucast (drop_bit 16 v) :: byte))
     OR push_bit 24 (ucast (ucast (drop_bit 24 v) :: byte))
     OR push_bit 32 (ucast (ucast (drop_bit 32 v) :: byte))
     OR push_bit 40 (ucast (ucast (drop_bit 40 v) :: byte))
     OR push_bit 48 (ucast (ucast (drop_bit 48 v) :: byte))
     OR push_bit 56 (ucast (ucast (drop_bit 56 v) :: byte)) = (v :: 64 word)"
    (is "?w = v")
proof (rule bit_word_eqI)
  fix n assume "n < LENGTH(64)"
  then show "bit ?w n = bit v n"
    using byte_lane [of 0 v n] by (cases "bit v n") (auto simp: bit_or_iff byte_lane)
qed

lemma reads_get_uint32 [reads_rules]: "reads cswp_buffer_get_uint32 (le_bytes 4 v) v"
  unfolding cswp_buffer_get_uint32_def int_shl_def
  by (rule reads_space)
    (simp_all add: le_bytes_32 check_get_byte adv_ok unread_adv le_combine_32)

lemma reads_get_uint64 [reads_rules]: "reads cswp_buffer_get_uint64 (le_bytes 8 v) v"
  unfolding cswp_buffer_get_uint64_def
  by (rule reads_space)
    (simp_all add: le_bytes_64 check_get_byte adv_ok unread_adv le_combine_64)

lemma reads_copy_out:
  assumes "unat n = length bs"
  shows "reads (cswp_check (require_r n) (\<lambda>_. copy_out n)) bs bs"
  by (rule reads_space [OF assms]) (simp add: copy_out_eq assms)

lemma reads_get_direct [reads_rules]: "unat n = length bs \<Longrightarrow> reads (cswp_buffer_get_direct n) bs bs"
  unfolding cswp_buffer_get_direct_def by (rule reads_copy_out)

lemma reads_get_data [reads_rules]: "unat n = length bs \<Longrightarrow> reads (cswp_buffer_get_data n) bs bs"
  unfolding cswp_buffer_get_data_def by (rule reads_copy_out)

subsection \<open>Varints\<close>

text \<open>The decoding loop as a function of the unread bytes; \<open>n\<close> counts the bytes consumed.\<close>

fun varint_parse :: "64 word \<Rightarrow> nat \<Rightarrow> nat \<Rightarrow> byte list \<Rightarrow> (nat, 64 word) outcome" where
  "varint_parse v s n [] = Fail (res_val CSWP_BUFFER_EMPTY) n"
| "varint_parse v s n (x # xs) =
     (if \<not> s < 32 then Undef BadShift
      else let v' = v OR scast (push_bit s (ucast (x AND 0x7F) :: c_int)) in
        if x AND 0x80 = 0 then Done v' (Suc n) else varint_parse v' (s + 7) (Suc n) xs)"

definition lift_adv :: "CSWP_BUFFER \<Rightarrow> (nat, 'a) outcome \<Rightarrow> (CSWP_BUFFER, 'a) outcome" where
  "lift_adv b r = (case r of
       Done x n \<Rightarrow> Done x (adv n b)
     | Fail e n \<Rightarrow> Fail e (adv n b)
     | Undef u \<Rightarrow> Undef u)"

lemma lift_adv_simps [simp]:
  "lift_adv b (Done x n) = Done x (adv n b)"
  "lift_adv b (Fail e n) = Fail e (adv n b)"
  "lift_adv b (Undef u) = Undef u"
  by (simp_all add: lift_adv_def)

lemma get_varint_loop_parse:
  assumes "buf_ok b" and "n \<le> length (unread b)"
  shows "get_varint_loop v s (adv n b) = lift_adv b (varint_parse v s n (drop n (unread b)))"
  using assms(2)
proof (induction "drop n (unread b)" arbitrary: n v s)
  case Nil
  then have "length (unread (adv n b)) = 0" by (simp add: unread_adv [OF assms(1)])
  then have "bused b - bpos (adv n b) < 1"
    using require_r_iff [OF adv_ok [OF assms(1) Nil.prems], of 1] by simp
  then show ?case using Nil.hyps by (simp add: get_varint_loop.simps flip: Nil.hyps)
next
  case (Cons x xs)
  have lt: "n < length (unread b)"
    using Cons.hyps(2) by (metis drop_eq_Nil leI list.distinct(1))
  have xs: "xs = drop (Suc n) (unread b)" and x: "unread b ! n = x"
    using Cons.hyps(2) Cons_nth_drop_Suc [OF lt] by (metis list.inject)+
  have ok: "buf_ok (adv n b)" and p: "unat (bpos (adv n b)) = unat (bpos b) + n"
    using assms(1) Cons.prems by (simp_all add: adv_ok unat_bpos_adv)
  have enough: "\<not> bused (adv n b) - bpos (adv n b) < 1"
    using require_r_iff [OF ok, of 1] lt by (simp add: unread_adv [OF assms(1)])
  have inside: "unat (bpos (adv n b)) < length (bdata (adv n b))"
    using lt p length_unread [OF assms(1)] buf_okD [OF assms(1)] by simp
  have byte: "bdata (adv n b) ! unat (bpos (adv n b)) = x"
    using unread_nth [OF assms(1) lt] p x by simp
  have next_b: "(adv n b)\<lparr>bpos := bpos (adv n b) + 1\<rparr> = adv (Suc n) b"
    by (simp add: adv_def ac_simps)
  show ?case
    unfolding Cons.hyps(2) [symmetric]
    using Cons.hyps(1) [OF xs, of _ "s + 7"] lt xs enough inside byte next_b
    by (subst get_varint_loop.simps) (simp add: Let_def)
qed

lemma get_varint_parse:
  "buf_ok b \<Longrightarrow> cswp_buffer_get_varint b = lift_adv b (varint_parse 0 0 0 (unread b))"
  using get_varint_loop_parse [of b 0 0 0] by (simp add: cswp_buffer_get_varint_def)

text \<open>
  What the decoder makes of the bytes of \<open>w\<close>: below \<open>2\<^sup>3\<^sup>5\<close> (at most five bytes) the low 32 bits
  of \<open>w\<close>, read as a signed number; above, the sixth byte needs a shift by 35 places of a 32-bit
  \<open>int\<close>. So the decoder inverts the encoder exactly below \<open>2\<^sup>3\<^sup>1\<close>.
\<close>

definition varint_wire :: "64 word \<Rightarrow> 64 word" where
  "varint_wire w = scast (ucast w :: c_int)"

lemma mask7: "(0x7F :: 'a::len word) = mask 7"
  by (simp add: mask_eq_decr_exp)

lemma bit_128: "bit (0x80 :: int) n \<longleftrightarrow> n = 7"
  using bit_exp_iff [of 7 n, where ?'a = int] by auto

lemma varint_byte_more:
  "(ucast (0x80 OR (w AND 0x7F :: 64 word)) :: byte) AND 0x80 \<noteq> 0"
  "(ucast (0x80 OR (w AND 0x7F :: 64 word)) :: byte) AND 0x7F = ucast (w AND 0x7F)"
proof -
  have "bit ((ucast (0x80 OR (w AND 0x7F)) :: byte) AND 0x80) 7"
    by (simp add: bit_and_iff bit_or_iff bit_ucast_iff bit_128)
  then show "(ucast (0x80 OR (w AND 0x7F)) :: byte) AND 0x80 \<noteq> 0" by auto
  show "(ucast (0x80 OR (w AND 0x7F)) :: byte) AND 0x7F = ucast (w AND 0x7F)"
    unfolding mask7 by (rule bit_word_eqI)
      (auto simp: bit_and_iff bit_or_iff bit_ucast_iff bit_128 bit_mask_iff)
qed

lemma varint_byte_last:
  "(ucast (w AND 0x7F :: 64 word) :: byte) AND 0x80 = 0"
  "(ucast (w AND 0x7F :: 64 word) :: byte) AND 0x7F = ucast (w AND 0x7F)"
proof -
  show "(ucast (w AND 0x7F) :: byte) AND 0x80 = 0"
    unfolding mask7 by (rule bit_word_eqI) (auto simp: bit_and_iff bit_ucast_iff bit_128 bit_mask_iff)
  show "(ucast (w AND 0x7F) :: byte) AND 0x7F = ucast (w AND 0x7F)"
    unfolding mask7 by (rule bit_word_eqI) (auto simp: bit_and_iff bit_ucast_iff bit_mask_iff)
qed

lemma scast_or: "scast (a OR b :: 32 word) = (scast a OR scast b :: 64 word)"
  by (rule bit_word_eqI) (auto simp: bit_simps)

lemma varint_split:
  "push_bit s (ucast (ucast (w AND 0x7F :: 64 word) :: byte) :: c_int) OR push_bit (s + 7) (ucast (drop_bit 7 w))
     = push_bit s (ucast w)" (is "?l = ?r")
proof (rule bit_word_eqI)
  fix n assume "n < LENGTH(32)"
  show "bit ?l n = bit ?r n"
  proof (cases "n < s + 7")
    case False
    then have "7 + (n - (s + 7)) = n - s" by simp
    then show ?thesis using False unfolding mask7 by (auto simp: bit_simps)
  qed (auto simp: bit_simps mask7)
qed

lemma varint_small:
  assumes "\<not> (w :: 64 word) > 0x7F"
  shows "ucast (ucast (w AND 0x7F) :: byte) = (ucast w :: c_int)"
proof -
  have high: "n < 7" if "bit w n" for n
  proof (rule ccontr)
    assume "\<not> n < 7"
    have "unat w < 2 ^ 7" using assms by (simp add: word_less_nat_alt)
    also have "(2::nat) ^ 7 \<le> 2 ^ n" using \<open>\<not> n < 7\<close> by (intro power_increasing) simp_all
    finally have "\<not> bit (unat w) n" by (simp add: bit_iff_odd)
    with that show False by (simp add: bit_unsigned_iff)
  qed
  show ?thesis
    unfolding mask7 by (rule bit_word_eqI) (auto simp: bit_simps dest: high)
qed

lemma varint_parse_enc:
  assumes "unat w < 2 ^ (35 - s)" and "s \<in> {0, 7, 14, 21, 28}"
  shows "varint_parse v s n (varint_enc w @ zs)
    = Done (v OR scast (push_bit s (ucast w :: c_int))) (n + length (varint_enc w))"
  using assms
proof (induction w arbitrary: v s n rule: varint_enc.induct)
  case (1 w)
  have s32: "s < 32" using "1.prems"(2) by auto
  show ?case
  proof (cases "w > 0x7F")
    case False
    then show ?thesis
      using s32 varint_small [OF False]
      by (simp add: varint_enc.simps [of w] varint_byte_last Let_def)
  next
    case True
    have "s \<noteq> 28"
    proof
      assume "s = 28"
      with "1.prems"(1) True show False by (simp add: word_less_nat_alt)
    qed
    then have s7: "s + 7 \<in> {0, 7, 14, 21, 28}" using "1.prems"(2) by auto
    have "unat (drop_bit 7 w) = unat w div 2 ^ 7"
      using unat_drop_bit_eq [of 7 w] by (simp only: drop_bit_eq_div)
    moreover have "(2::nat) ^ (35 - s) = 2 ^ (35 - (s + 7)) * 2 ^ 7"
      using s7 by (simp flip: power_add) auto
    ultimately have "unat (drop_bit 7 w) < 2 ^ (35 - (s + 7))"
      using "1.prems"(1) by (simp add: less_mult_imp_div_less)
    from "1.IH" [OF True this s7] True s32 show ?thesis
      by (simp add: varint_enc.simps [of w] varint_byte_more Let_def or.assoc
          flip: scast_or varint_split)
  qed
qed

lemma varint_parse_overlong:
  assumes "2 ^ (35 - s) \<le> unat w" and "s \<in> {0, 7, 14, 21, 28, 35}"
  shows "varint_parse v s n (varint_enc w @ zs) = Undef BadShift"
  using assms
proof (induction w arbitrary: v s n rule: varint_enc.induct)
  case (1 w)
  show ?case
  proof (cases "s = 35")
    case True
    then show ?thesis by (simp add: varint_enc.simps [of w])
  next
    case False
    then have s: "s \<in> {0, 7, 14, 21, 28}" "s + 7 \<in> {0, 7, 14, 21, 28, 35}"
      using "1.prems"(2) by auto
    have pow: "(2::nat) ^ (35 - s) = 2 ^ (35 - (s + 7)) * 2 ^ 7"
      using s by (simp flip: power_add) auto
    have "(2::nat) ^ 7 \<le> 2 ^ (35 - s)" using s by (intro power_increasing) auto
    with "1.prems"(1) have w: "w > 0x7F" by (simp add: word_less_nat_alt)
    have "unat (drop_bit 7 w) = unat w div 2 ^ 7"
      using unat_drop_bit_eq [of 7 w] by (simp only: drop_bit_eq_div)
    moreover have "2 ^ (35 - (s + 7)) \<le> unat w div 2 ^ 7"
      using "1.prems"(1) pow by (simp add: less_eq_div_iff_mult_less_eq)
    ultimately have "2 ^ (35 - (s + 7)) \<le> unat (drop_bit 7 w)" by simp
    from "1.IH" [OF w this s(2)] w show ?thesis
      by (simp add: varint_enc.simps [of w] varint_byte_more Let_def)
  qed
qed

lemma varint_parse_short:
  assumes "unat w < 2 ^ (35 - s)" and "s \<in> {0, 7, 14, 21, 28}" and "strict_prefix p (varint_enc w)"
  shows "varint_parse v s n p = Fail (res_val CSWP_BUFFER_EMPTY) (n + length p)"
  using assms
proof (induction w arbitrary: v s n p rule: varint_enc.induct)
  case (1 w)
  show ?case
  proof (cases p)
    case Nil
    then show ?thesis by simp
  next
    case (Cons x q)
    have w: "w > 0x7F"
      using "1.prems"(3) Cons by (cases "w > 0x7F") (auto simp: varint_enc.simps [of w])
    then have x: "x = ucast (0x80 OR (w AND 0x7F))" and q: "strict_prefix q (varint_enc (drop_bit 7 w))"
      using "1.prems"(3) Cons by (simp_all add: varint_enc.simps [of w])
    have "s \<noteq> 28"
    proof
      assume "s = 28"
      with "1.prems"(1) w show False by (simp add: word_less_nat_alt)
    qed
    then have s7: "s + 7 \<in> {0, 7, 14, 21, 28}" and s32: "s < 32" using "1.prems"(2) by auto
    have "unat (drop_bit 7 w) = unat w div 2 ^ 7"
      using unat_drop_bit_eq [of 7 w] by (simp only: drop_bit_eq_div)
    moreover have "(2::nat) ^ (35 - s) = 2 ^ (35 - (s + 7)) * 2 ^ 7"
      using s7 by (simp flip: power_add) auto
    ultimately have "unat (drop_bit 7 w) < 2 ^ (35 - (s + 7))"
      using "1.prems"(1) by (simp add: less_mult_imp_div_less)
    from "1.IH" [OF w this s7 q] s32 show ?thesis
      by (simp add: Cons x varint_byte_more Let_def)
  qed
qed

lemma reads_get_varint_wire:
  assumes "unat w < 2 ^ 35"
  shows "reads cswp_buffer_get_varint (varint_enc w) (varint_wire w)"
  unfolding reads_def
proof (intro conjI allI impI)
  fix b zs assume "buf_ok b" and "unread b = varint_enc w @ zs"
  then show "cswp_buffer_get_varint b = Done (varint_wire w) (adv (length (varint_enc w)) b)"
    using assms by (simp add: get_varint_parse varint_parse_enc varint_wire_def)
next
  fix b assume "buf_ok b" and "strict_prefix (unread b) (varint_enc w)"
  then show "\<exists>n\<le>length (unread b).
      cswp_buffer_get_varint b = Fail (res_val CSWP_BUFFER_EMPTY) (adv n b)"
    using assms by (intro exI [of _ "length (unread b)"]) (simp add: get_varint_parse varint_parse_short)
qed

text \<open>The values a decoder reads back unchanged.\<close>

definition varint_ok :: "64 word \<Rightarrow> bool" where
  "varint_ok w \<longleftrightarrow> w < 0x80000000"

lemma varint_wire_small:
  assumes "varint_ok w"
  shows "varint_wire w = w"
proof (rule bit_word_eqI)
  have high: "n < 31" if "bit w n" for n
  proof (rule ccontr)
    assume "\<not> n < 31"
    have "unat w < 2 ^ 31" using assms by (simp add: varint_ok_def word_less_nat_alt)
    also have "(2::nat) ^ 31 \<le> 2 ^ n" using \<open>\<not> n < 31\<close> by (intro power_increasing) simp_all
    finally have "\<not> bit (unat w) n" by (simp add: bit_iff_odd)
    with that show False by (simp add: bit_unsigned_iff)
  qed
  fix n assume "n < LENGTH(64)"
  then show "bit (varint_wire w) n = bit w n"
    using high [of 31] high [of n] by (auto simp: varint_wire_def bit_simps min_def)
qed

lemma ucast_varint_wire [simp]: "(ucast (varint_wire w) :: 32 word) = ucast w"
  by (rule bit_word_eqI) (auto simp: varint_wire_def bit_simps)

lemma reads_get_varint [reads_rules]:
  assumes "varint_ok w"
  shows "reads cswp_buffer_get_varint (varint_enc w) w"
proof -
  have "unat w < 2 ^ 35" using assms by (simp add: varint_ok_def word_less_nat_alt)
  from reads_get_varint_wire [OF this] show ?thesis by (simp add: varint_wire_small [OF assms])
qed

lemma varint_ok_of_nat: "n < 2 ^ 31 \<Longrightarrow> varint_ok (of_nat n)"
  by (simp add: varint_ok_def word_less_nat_alt unat_of_nat_small)

lemma varint_ok_cmd [simp]: "varint_ok (cmd_val c)"
  by (simp add: varint_ok_def cmd_val_small)

lemma varint_ok_0 [simp]: "varint_ok 0"
  by (simp add: varint_ok_def)

lemma reads_get_string [reads_rules]:
  assumes "length (cstr s) < unat n" and "length (cstr s) < 2 ^ 31"
  shows "reads (cswp_buffer_get_string n) (string_enc (Some s)) (cstr s)"
proof -
  let ?len = "of_nat (length (cstr s)) :: size_t"
  have len: "unat ?len = length (cstr s)"
    using assms(2) by (intro unat_of_nat_small) simp
  then have "\<not> ?len \<ge> n" using assms(1) by (simp add: word_le_nat_alt)
  then have "reads (cswp_check (require_r ?len) (\<lambda>_.
      if ?len \<ge> n then fail (res_val CSWP_OUTPUT_BUFFER_OVERFLOW) else copy_out ?len)) (cstr s) (cstr s)"
    using reads_copy_out [OF len] by simp
  then show ?thesis
    unfolding cswp_buffer_get_string_def string_enc_def option.case
    by (rule reads_check [OF reads_get_varint [OF varint_ok_of_nat [OF assms(2)]]])
qed

subsection \<open>Memory safety on arbitrary input\<close>

text \<open>\<open>safe U f\<close>: from any well-formed buffer, whatever its bytes, \<open>f\<close> only moves the position
  forward inside the received bytes; undefined behaviour is limited to the kinds in \<open>U\<close>.\<close>

definition moved :: "CSWP_BUFFER \<Rightarrow> CSWP_BUFFER \<Rightarrow> bool" where
  "moved b b' \<longleftrightarrow> (\<exists>n \<le> length (unread b). b' = adv n b)"

definition safe :: "c_undef set \<Rightarrow> (CSWP_BUFFER, 'a) prog \<Rightarrow> bool" where
  "safe U f \<longleftrightarrow> (\<forall>b. buf_ok b \<longrightarrow> (case f b of
       Done x b' \<Rightarrow> moved b b'
     | Fail e b' \<Rightarrow> moved b b'
     | Undef u \<Rightarrow> u \<in> U))"

lemma moved_refl [simp]: "moved b b"
  by (auto simp: moved_def intro: exI [of _ 0])

lemma moved_adv: "n \<le> length (unread b) \<Longrightarrow> moved b (adv n b)"
  by (auto simp: moved_def)

lemma moved_ok: "buf_ok b \<Longrightarrow> moved b b' \<Longrightarrow> buf_ok b'"
  by (auto simp: moved_def adv_ok)

lemma moved_trans:
  assumes "buf_ok b" and "moved b b'" and "moved b' b''"
  shows "moved b b''"
proof -
  from assms(2,3) obtain m n where "m \<le> length (unread b)" "b' = adv m b"
    "n \<le> length (unread b')" "b'' = adv n b'" by (auto simp: moved_def)
  then show ?thesis using assms(1)
    by (auto simp: moved_def unread_adv intro: exI [of _ "m + n"])
qed

lemma safe_ret [safe_rules]: "safe U (ret x)"
  and safe_fail [safe_rules]: "safe U (fail e)"
  by (simp_all add: safe_def)

lemma safe_check [safe_rules]:
  assumes "safe U f" and "\<And>x. safe U (g x)"
  shows "safe U (cswp_check f g)"
  unfolding safe_def
proof (intro allI impI)
  fix b assume b: "buf_ok b"
  show "case cswp_check f g b of Done x b' \<Rightarrow> moved b b' | Fail e b' \<Rightarrow> moved b b' | Undef u \<Rightarrow> u \<in> U"
  proof (cases "f b")
    case (Done x c)
    then have m: "moved b c" using assms(1) b by (force simp: safe_def)
    have "case g x c of Done x b' \<Rightarrow> moved c b' | Fail e b' \<Rightarrow> moved c b' | Undef u \<Rightarrow> u \<in> U"
      using assms(2) moved_ok [OF b m] by (simp add: safe_def)
    then show ?thesis using Done m
      by (auto split: outcome.splits intro: moved_trans [OF b])
  qed (use assms(1) b in \<open>force simp: safe_def\<close>)+
qed

lemma safe_if [safe_rules]: "safe U f \<Longrightarrow> safe U g \<Longrightarrow> safe U (if c then f else g)"
  by simp

lemma safe_mono: "safe U f \<Longrightarrow> U \<subseteq> V \<Longrightarrow> safe V f"
  unfolding safe_def by (fastforce split: outcome.splits)

lemma varint_parse_bounds:
  "case varint_parse v s n xs of
     Done x m \<Rightarrow> m \<le> n + length xs | Fail e m \<Rightarrow> m \<le> n + length xs | Undef u \<Rightarrow> u = BadShift"
proof (induction v s n xs rule: varint_parse.induct)
  case (2 v s n x xs)
  show ?case
    using "2.IH" [OF _ refl] by (auto simp: Let_def split: outcome.splits)
qed simp

lemma safe_get_varint [safe_rules]:
  assumes "BadShift \<in> U"
  shows "safe U cswp_buffer_get_varint"
  unfolding safe_def
proof (intro allI impI)
  fix b assume "buf_ok b"
  then show "case cswp_buffer_get_varint b of
      Done x b' \<Rightarrow> moved b b' | Fail e b' \<Rightarrow> moved b b' | Undef u \<Rightarrow> u \<in> U"
    using varint_parse_bounds [where v = 0 and s = 0 and n = 0 and xs = "unread b"] assms
    by (cases "varint_parse 0 0 0 (unread b)") (simp_all add: get_varint_parse moved_adv)
qed

lemma safe_require_copy [safe_rules]: "safe U (cswp_check (require_r n) (\<lambda>_. copy_out n))"
  by (auto simp: safe_def require_r_eq copy_out_eq cswp_check_def moved_adv)

lemma safe_get_direct [safe_rules]: "safe U (cswp_buffer_get_direct n)"
  and safe_get_data [safe_rules]: "safe U (cswp_buffer_get_data n)"
  unfolding cswp_buffer_get_direct_def cswp_buffer_get_data_def by (rule safe_require_copy)+

lemma safe_get_string [safe_rules]: "BadShift \<in> U \<Longrightarrow> safe U (cswp_buffer_get_string n)"
proof -
  assume U: "BadShift \<in> U"
  have "safe U (cswp_check (require_r len) (\<lambda>_.
      if len \<ge> n then fail (res_val CSWP_OUTPUT_BUFFER_OVERFLOW) else copy_out len))" for len
    by (auto simp: safe_def require_r_eq copy_out_eq cswp_check_def moved_adv)
  then show ?thesis unfolding cswp_buffer_get_string_def
    by (rule safe_check [OF safe_get_varint [OF U]])
qed

lemma safe_require_bytes:
  assumes "\<And>b. buf_ok b \<Longrightarrow> unat n \<le> length (unread b) \<Longrightarrow> (unat n \<noteq> 0 \<Longrightarrow> unread b \<noteq> [])
    \<Longrightarrow> \<exists>x. f b = Done x (adv (unat n) b)"
  shows "safe U (cswp_check (require_r n) (\<lambda>_. f))"
  unfolding safe_def
proof (intro allI impI)
  fix b assume b: "buf_ok b"
  show "case cswp_check (require_r n) (\<lambda>_. f) b of
      Done x b' \<Rightarrow> moved b b' | Fail e b' \<Rightarrow> moved b b' | Undef u \<Rightarrow> u \<in> U"
    using assms [OF b] b by (fastforce simp: require_r_eq cswp_check_def intro: moved_adv)
qed

lemma get_byte_nonempty:
  "buf_ok b \<Longrightarrow> unread b \<noteq> [] \<Longrightarrow> get_byte b = Done (unread b ! 0) (adv 1 b)"
  "buf_ok b \<Longrightarrow> unread b \<noteq> [] \<Longrightarrow> cswp_check get_byte g b = g (unread b ! 0) (adv 1 b)"
  by (cases "unread b"; simp add: get_byte_eq)+

lemma safe_get_uint8 [safe_rules]: "safe U cswp_buffer_get_uint8"
  unfolding cswp_buffer_get_uint8_def
  by (rule safe_require_bytes) (simp add: get_byte_nonempty)

lemma safe_get_uint32 [safe_rules]: "safe U cswp_buffer_get_uint32"
  unfolding cswp_buffer_get_uint32_def int_shl_def
  by (rule safe_require_bytes) (simp add: get_byte_nonempty adv_ok unread_adv, simp add: eval_nat_numeral)

lemma safe_get_uint64 [safe_rules]: "safe U cswp_buffer_get_uint64"
  unfolding cswp_buffer_get_uint64_def
  by (rule safe_require_bytes) (simp add: get_byte_nonempty adv_ok unread_adv, simp add: eval_nat_numeral)

subsection \<open>Memory safety of the writers\<close>

text \<open>\<open>writes U f\<close>: from the end of a well-formed buffer, \<open>f\<close> ends at the end of a well-formed
  buffer that still has the bytes written before, whatever its arguments are.\<close>

definition writes :: "c_undef set \<Rightarrow> (CSWP_BUFFER, unit) prog \<Rightarrow> bool" where
  "writes U f \<longleftrightarrow> (\<forall>b. at_end b \<longrightarrow> (case f b of
       Done _ b' \<Rightarrow> at_end b' \<and> prefix (written b) (written b')
     | Fail e b' \<Rightarrow> at_end b' \<and> prefix (written b) (written b')
     | Undef u \<Rightarrow> u \<in> U))"

lemma emits_writes:
  assumes "emits f bs" shows "writes U f"
  unfolding writes_def
proof (intro allI impI)
  fix b assume b: "at_end b"
  show "case f b of Done _ b' \<Rightarrow> at_end b' \<and> prefix (written b) (written b')
     | Fail e b' \<Rightarrow> at_end b' \<and> prefix (written b) (written b') | Undef u \<Rightarrow> u \<in> U"
  proof (cases "unat (bused b) + length bs \<le> unat (bsize b)")
    case True
    from emits_Done [OF assms b True] obtain b' where
      "f b = Done () b'" "at_end b'" "written b' = written b @ bs" .
    then show ?thesis by simp
  next
    case False
    from emits_Fail [OF assms b False] obtain b' p where
      "f b = Fail (res_val CSWP_BUFFER_FULL) b'" "at_end b'" "written b' = written b @ p" .
    then show ?thesis by simp
  qed
qed

lemma writes_check [safe_rules]:
  assumes "writes U f" and "writes U (g ())"
  shows "writes U (cswp_check f g)"
  unfolding writes_def
proof (intro allI impI)
  fix b assume b: "at_end b"
  show "case cswp_check f g b of Done _ b' \<Rightarrow> at_end b' \<and> prefix (written b) (written b')
     | Fail e b' \<Rightarrow> at_end b' \<and> prefix (written b) (written b') | Undef u \<Rightarrow> u \<in> U"
  proof (cases "f b")
    case (Done x c)
    then have c: "at_end c" "prefix (written b) (written c)" using assms(1) b by (force simp: writes_def)+
    have "case g () c of Done _ b' \<Rightarrow> at_end b' \<and> prefix (written c) (written b')
       | Fail e b' \<Rightarrow> at_end b' \<and> prefix (written c) (written b') | Undef u \<Rightarrow> u \<in> U"
      using assms(2) c(1) by (simp add: writes_def)
    then show ?thesis using Done c(2) by (auto split: outcome.splits intro: prefix_order.trans)
  qed (use assms(1) b in \<open>force simp: writes_def\<close>)+
qed

lemma writes_ret [safe_rules]: "writes U (ret ())"
  and writes_undef [safe_rules]: "u \<in> U \<Longrightarrow> writes U (undef u)"
  by (simp_all add: writes_def)

lemma writes_put_varint [safe_rules]: "writes U (cswp_buffer_put_varint v)"
  and writes_put_uint32 [safe_rules]: "writes U (cswp_buffer_put_uint32 w)"
  by (rule emits_writes, rule emits_rules)+

lemma writes_put_data [safe_rules]: "unat n \<le> length data \<Longrightarrow> writes U (cswp_buffer_put_data data n)"
  by (rule emits_writes, erule emits_put_data)

lemma writes_put_string [safe_rules]:
  assumes "NullDeref \<in> U"
  shows "writes U (cswp_buffer_put_string s)"
proof (cases s)
  case None
  then show ?thesis using assms by (simp add: writes_def)
next
  case (Some t)
  let ?n = "of_nat (length (cstr t)) :: size_t"
  have "unat ?n \<le> length (cstr t)" by (simp add: unat_of_nat take_bit_nat_eq_self_iff)
  then have "unat ?n = length (take (unat ?n) (cstr t))" by simp
  from emits_writes [OF emits_check [OF emits_put_varint emits_copy_in [OF this]]]
  show ?thesis by (simp add: Some cswp_buffer_put_string_def Let_def)
qed

lemma writes_for [safe_rules]:
  assumes "\<And>i. i < n \<Longrightarrow> writes U (body i)"
  shows "writes U (c_for i n body)"
proof (induction "n - i" arbitrary: i)
  case 0
  then have "c_for i n body = ret ()" by (simp add: fun_eq_iff)
  then show ?case by (simp add: writes_ret del: ret_apply)
next
  case (Suc m)
  then have lt: "i < n" and IH: "writes U (c_for (Suc i) n body)" by auto
  show ?case unfolding c_for_step [OF lt] by (rule writes_check [OF assms [OF lt] IH])
qed

lemma writes_for_int [safe_rules]:
  assumes "\<And>i. i < n \<Longrightarrow> writes U (body i)" and "IntOverflow \<in> U"
  shows "writes U (c_for_int n body)"
  unfolding c_for_int_def
proof (rule writes_for, rule writes_check [OF assms(1)])
  fix i show "writes U (int_incr i)" using assms(2) by (simp add: int_incr_def writes_ret writes_undef del: ret_apply)
qed

text \<open>The results of the varint decoder are 32-bit numbers, sign-extended.\<close>

lemma ucast_or_32: "ucast (a OR b :: 64 word) = (ucast a OR ucast b :: 32 word)"
  by (rule bit_word_eqI) (auto simp: bit_simps)

lemma varint_parse_sext:
  assumes "varint_parse v s n xs = Done w m" and "v = varint_wire v"
  shows "w = varint_wire w"
  using assms
proof (induction v s n xs rule: varint_parse.induct)
  case (2 v s n x xs)
  have "ucast (scast a :: 64 word) = a" for a :: c_int
    by (rule bit_word_eqI) (auto simp: bit_simps)
  then have step: "v OR scast a = varint_wire (v OR scast a)" for a :: c_int
    using "2.prems"(2) unfolding varint_wire_def
    by (metis scast_or ucast_or_32)
  show ?case using "2.prems"(1) "2.IH" step
    by (auto simp: Let_def split: if_splits)
qed simp

lemma get_varint_sext:
  assumes "buf_ok b" and "cswp_buffer_get_varint b = Done w b'"
  shows "w = varint_wire w"
  using assms varint_parse_sext [of 0 0 0 "unread b" w]
  by (auto simp: get_varint_parse lift_adv_def varint_wire_def split: outcome.splits)

subsection \<open>Progress of the readers\<close>

lemma varint_parse_progress: "varint_parse v s n xs = Done w m \<Longrightarrow> n < m \<and> m \<le> n + length xs"
proof (induction v s n xs rule: varint_parse.induct)
  case (2 v s n x xs)
  then show ?case by (fastforce simp: Let_def split: if_splits)
qed simp

text \<open>\<open>consumes U R f\<close>: \<open>f\<close> reads at least one byte when it succeeds.\<close>

definition unread_below :: "nat \<Rightarrow> CSWP_BUFFER \<Rightarrow> bool" where
  "unread_below k b \<longleftrightarrow> buf_ok b \<and> length (unread b) + k < 2 ^ 64"

definition consumes :: "c_undef set \<Rightarrow> ('a \<Rightarrow> bool) \<Rightarrow> (CSWP_BUFFER, 'a) prog \<Rightarrow> bool" where
  "consumes U R f \<longleftrightarrow> (\<forall>k. hoare (unread_below k) f (\<lambda>x b. unread_below (Suc k) b \<and> R x)
     (\<lambda>_. unread_below k) U)"

lemma unread_below_0: "unread_below 0 b \<longleftrightarrow> buf_ok b"
proof
  assume "buf_ok b"
  with buf_okD(2,3,4) [OF this] show "unread_below 0 b" by (simp add: unread_below_def length_unread)
qed (simp add: unread_below_def)

lemma unread_below_mono: "unread_below k b \<Longrightarrow> j \<le> k \<Longrightarrow> unread_below j b"
  by (simp add: unread_below_def)

lemma unread_below_never [simp]: "\<not> unread_below (2 ^ 64) b"
  by (simp add: unread_below_def)

lemma moved_unread_below: "unread_below k b \<Longrightarrow> moved b b' \<Longrightarrow> unread_below k b'"
  by (auto simp: unread_below_def moved_def adv_ok unread_adv)

lemma safe_keeps: "safe U f \<Longrightarrow> keeps (unread_below k) U (\<lambda>_. True) f"
  by (rule keepsI) (force simp: safe_def unread_below_def dest: moved_unread_below [unfolded unread_below_def, rotated])+

lemma consumes_get_varint:
  assumes "BadShift \<in> U"
  shows "consumes U (\<lambda>w. w = varint_wire w) cswp_buffer_get_varint"
  unfolding consumes_def
proof (intro allI hoareI)
  fix k b w b' assume b: "unread_below k b" and r: "cswp_buffer_get_varint b = Done w b'"
  then have ok: "buf_ok b" by (simp add: unread_below_def)
  with r obtain m where m: "varint_parse 0 0 0 (unread b) = Done w m" and b': "b' = adv m b"
    by (auto simp: get_varint_parse lift_adv_def split: outcome.splits)
  from varint_parse_progress [OF m] have "0 < m" "m \<le> length (unread b)" by auto
  then show "unread_below (Suc k) b' \<and> w = varint_wire w"
    using b ok b' get_varint_sext [OF ok r] by (simp add: unread_below_def adv_ok unread_adv)
next
  fix k b e b' assume "unread_below k b" and "cswp_buffer_get_varint b = Fail e b'"
  then show "unread_below k b'" by (rule keeps_Fail [OF safe_keeps [OF safe_get_varint [OF assms]]])
next
  fix k b u assume "unread_below k b" and "cswp_buffer_get_varint b = Undef u"
  then show "u \<in> U" by (rule keeps_Undef [OF safe_keeps [OF safe_get_varint [OF assms]]])
qed

lemma consumes_check:
  assumes "consumes U R f" and "\<And>x. R x \<Longrightarrow> safe U (g x)"
  shows "consumes U (\<lambda>_. True) (cswp_check f g)"
  unfolding consumes_def
proof (intro allI hoare_check)
  fix k
  show "hoare (unread_below k) f (\<lambda>x b. unread_below (Suc k) b \<and> R x) (\<lambda>_. unread_below k) U"
    using assms(1) by (simp add: consumes_def)
  fix x
  have "hoare (\<lambda>b. unread_below (Suc k) b \<and> R x) (g x) (\<lambda>x b. unread_below (Suc k) b \<and> True)
      (\<lambda>_. unread_below (Suc k)) U"
    by (rule keeps_assuming, rule safe_keeps, rule assms(2))
  then show "hoare (\<lambda>b. unread_below (Suc k) b \<and> R x) (g x) (\<lambda>x b. unread_below (Suc k) b \<and> True)
      (\<lambda>_. unread_below k) U"
    by (rule hoare_weaken) (auto intro: unread_below_mono)
qed

lemma consumes_get_string: "BadShift \<in> U \<Longrightarrow> consumes U (\<lambda>_. True) (cswp_buffer_get_string n)"
  unfolding cswp_buffer_get_string_def
  by (rule consumes_check [OF consumes_get_varint])
    (auto simp: safe_def require_r_eq copy_out_eq cswp_check_def moved_adv)

text \<open>A varint that does not end has used up the input.\<close>

lemma varint_parse_Fail: "varint_parse v s n xs = Fail e m \<Longrightarrow> m = n + length xs"
proof (induction v s n xs rule: varint_parse.induct)
  case (2 v s n x xs)
  show ?case using "2.IH" [OF _ refl] "2.prems" by (auto simp: Let_def split: if_splits)
qed simp

end
