(* ===== verification/Codec.thy ===== *)
theory Codec
  imports Buffer_Contract
begin

text \<open>
  The interface between the buffer and the message theories. A \<open>codec\<close> is an encoder and a
  decoder that agree on the bytes of a value; \<open>codec_pair\<close> puts two of them in sequence. What
  the messages need of a codec (transmission, truncation, arrays of values) is proved in the
  locale once, and the locale is interpreted on every value type of \<^verbatim>\<open>cswp_buffer.c\<close>.
\<close>

text \<open>\<open>transmits put get x\<close>: there is a byte string that \<open>put\<close> appends (or reports a full
  buffer) and from which \<open>get\<close> returns \<open>x\<close> (or reports that bytes are missing).\<close>

definition transmits :: "(CSWP_BUFFER, unit) prog \<Rightarrow> (CSWP_BUFFER, 'a) prog \<Rightarrow> 'a \<Rightarrow> bool" where
  "transmits put get x \<longleftrightarrow> (\<exists>bs. emits put bs \<and> reads get bs x)"

lemma transmitsI: "emits put bs \<Longrightarrow> reads get bs x \<Longrightarrow> transmits put get x"
  by (auto simp: transmits_def)

text \<open>What it means for two concrete buffers, the sender's \<open>b\<close> and the receiver's \<open>r\<close>.\<close>

lemma transmits_run:
  assumes "transmits put get x" and "at_end b" and "put b = Done () b'"
    and "buf_ok r" and "unread r = drop (length (written b)) (written b') @ zs"
  shows "\<exists>r'. get r = Done x r' \<and> unread r' = zs"
proof -
  from assms(1) obtain bs where bs: "emits put bs" "reads get bs x" by (auto simp: transmits_def)
  have "written b' = written b @ bs"
  proof (cases "unat (bused b) + length bs \<le> unat (bsize b)")
    case True
    from emits_Done [OF bs(1) assms(2) True] assms(3) show ?thesis by auto
  next
    case False
    from emits_Fail [OF bs(1) assms(2) False] assms(3) show ?thesis by auto
  qed
  then have u: "unread r = bs @ zs" using assms(5) by simp
  then have "unread (adv (length bs) r) = zs" by (simp add: unread_adv [OF assms(4)])
  then show ?thesis using reads_Done [OF bs(2) assms(4) u] by blast
qed

lemma transmits_outcome:
  assumes "transmits put get x" and "at_end b"
  shows "(\<exists>b'. put b = Done () b' \<and> at_end b') \<or> (\<exists>b'. put b = Fail (res_val CSWP_BUFFER_FULL) b' \<and> at_end b')"
proof -
  from assms(1) obtain bs where "emits put bs" by (auto simp: transmits_def)
  with assms(2) show ?thesis by (metis emits_Done emits_Fail)
qed

text \<open>Loops over an array of values, with the counter an \<open>int\<close>.\<close>

lemma concat_map_nth: "concat (map (\<lambda>i. f (xs ! i)) [0..<length xs]) = concat (map f xs)"
proof -
  have "map (\<lambda>i. f (xs ! i)) [0..<length xs] = map f xs" by (rule nth_equalityI) simp_all
  then show ?thesis by simp
qed

lemma int_incr_small: "Suc i < 2 ^ 31 \<Longrightarrow> int_incr i = ret ()"
  by (simp add: int_incr_def del: ret_apply)

lemma emits_for_int:
  assumes "n = length xs" and "n < 2 ^ 31" and "\<And>i. i < n \<Longrightarrow> emits (body i) (f (xs ! i))"
  shows "emits (c_for_int n body) (concat (map f xs))"
proof -
  have "emits (cswp_check (body i) (\<lambda>_. int_incr i)) (f (xs ! i))" if "i < n" for i
    using that assms(2,3) by (simp add: int_incr_small del: ret_apply)
  then have "emits (c_for_int n body) (concat (map (\<lambda>i. f (xs ! i)) [0..<n]))"
    unfolding c_for_int_def by (rule emits_for)
  then show ?thesis by (simp only: assms(1) concat_map_nth)
qed

lemma nth_p_Some: "i < length xs \<Longrightarrow> nth_p (Some xs) i = ret (xs ! i)"
  by (simp add: nth_p_def nth_c_def del: ret_apply)

subsection \<open>The interface\<close>

locale codec =
  fixes put :: "'a \<Rightarrow> (CSWP_BUFFER, unit) prog"
    and get :: "(CSWP_BUFFER, 'b) prog"
    and enc :: "'a \<Rightarrow> byte list"
    and ok :: "'a \<Rightarrow> bool"
    and view :: "'a \<Rightarrow> 'b"
  assumes emits_put: "ok x \<Longrightarrow> emits (put x) (enc x)"
    and reads_get: "ok x \<Longrightarrow> reads get (enc x) (view x)"
begin

lemma transmits_ok: "ok x \<Longrightarrow> transmits (put x) get (view x)"
  by (rule transmitsI [OF emits_put reads_get])

text \<open>Equal encodings of two values have equal views: the wire format is unambiguous.\<close>

lemma view_unique:
  assumes "ok x" and "ok y" and "enc x = enc y" and "length (enc x) < 2 ^ 64"
  shows "view x = view y"
proof -
  let ?n = "of_nat (length (enc x)) :: 64 word"
  let ?b = "\<lparr>bsize = ?n, bused = ?n, bpos = 0, bdata = enc x\<rparr>"
  have "unat ?n = length (enc x)" by (rule unat_of_nat_small [OF assms(4)])
  then have "buf_ok ?b" and "unread ?b = enc x @ []"
    by (simp_all add: buf_ok_def unread_def written_def)
  from reads_Done [OF reads_get [OF assms(1)] this]
    reads_Done [OF reads_get [OF assms(2), folded assms(3)] this] show ?thesis by simp
qed

text \<open>Arrays of values: the encoder's and the decoder's loops.\<close>

lemma emits_array:
  assumes "\<And>x. x \<in> set xs \<Longrightarrow> ok x" and "n = length xs" and "n < 2 ^ 31"
  shows "emits (c_for_int n (\<lambda>i. cswp_check (nth_p (Some xs) i) put)) (concat (map enc xs))"
  by (rule emits_for_int [OF assms(2,3)]) (simp add: assms nth_p_Some emits_put del: ret_apply)

lemma reads_array:
  assumes "\<And>x. x \<in> set xs \<Longrightarrow> ok x"
  shows "reads (c_map i (i + length xs) (\<lambda>_. get)) (concat (map enc xs)) (map view xs)"
  using assms
proof (induction xs arbitrary: i)
  case Nil
  have "c_map i (i + length []) (\<lambda>_. get) = ret []" by (rule c_map_done) simp
  then show ?case by (simp add: reads_ret del: ret_apply)
next
  case (Cons x xs)
  have lt: "i < i + length (x # xs)" by simp
  have IH: "reads (c_map (Suc i) (Suc i + length xs) (\<lambda>_. get)) (concat (map enc xs)) (map view xs)"
    using Cons.prems by (intro Cons.IH) simp
  have "reads (cswp_check get (\<lambda>v. cswp_check (c_map (Suc i) (Suc i + length xs) (\<lambda>_. get))
      (\<lambda>vs. ret (v # vs)))) (enc x @ concat (map enc xs)) (view x # map view xs)"
    by (rule reads_check [OF reads_get reads_check_ret [OF IH]]) (simp_all add: Cons.prems del: ret_apply)
  then show ?case unfolding c_map_step [OF lt] by simp
qed

end

text \<open>Two values in sequence.\<close>

locale codec_pair = a: codec put\<^sub>a get\<^sub>a enc\<^sub>a ok\<^sub>a view\<^sub>a + b: codec put\<^sub>b get\<^sub>b enc\<^sub>b ok\<^sub>b view\<^sub>b
  for put\<^sub>a :: "'a \<Rightarrow> (CSWP_BUFFER, unit) prog" and get\<^sub>a :: "(CSWP_BUFFER, 'c) prog"
    and enc\<^sub>a ok\<^sub>a view\<^sub>a
    and put\<^sub>b :: "'b \<Rightarrow> (CSWP_BUFFER, unit) prog" and get\<^sub>b :: "(CSWP_BUFFER, 'd) prog"
    and enc\<^sub>b ok\<^sub>b view\<^sub>b

sublocale codec_pair \<subseteq> pair: codec
  "\<lambda>(x, y). cswp_check (put\<^sub>a x) (\<lambda>_. put\<^sub>b y)"
  "cswp_check get\<^sub>a (\<lambda>x. cswp_check get\<^sub>b (\<lambda>y. ret (x, y)))"
  "\<lambda>(x, y). enc\<^sub>a x @ enc\<^sub>b y" "\<lambda>(x, y). ok\<^sub>a x \<and> ok\<^sub>b y" "\<lambda>(x, y). (view\<^sub>a x, view\<^sub>b y)"
  by unfold_locales
    (auto intro!: emits_check a.emits_put b.emits_put
       reads_check [OF a.reads_get reads_check_ret [OF b.reads_get]])

subsection \<open>The buffer provides codecs\<close>

interpretation u8: codec cswp_buffer_put_uint8 cswp_buffer_get_uint8 "\<lambda>v. [v]" "\<lambda>_. True" "\<lambda>v. v"
  by unfold_locales (rule emits_put_uint8 reads_get_uint8)+

interpretation u32: codec cswp_buffer_put_uint32 cswp_buffer_get_uint32 "le_bytes 4" "\<lambda>_. True" "\<lambda>v. v"
  by unfold_locales (rule emits_put_uint32 reads_get_uint32)+

interpretation u64: codec cswp_buffer_put_uint64 cswp_buffer_get_uint64 "le_bytes 8" "\<lambda>_. True" "\<lambda>v. v"
  by unfold_locales (rule emits_put_uint64 reads_get_uint64)+

interpretation vint: codec cswp_buffer_put_varint cswp_buffer_get_varint varint_enc varint_ok "\<lambda>v. v"
  by unfold_locales (rule emits_put_varint, erule reads_get_varint)

text \<open>The whole domain on which the varint functions are defined, with the sign extension.\<close>

interpretation vwire: codec cswp_buffer_put_varint cswp_buffer_get_varint varint_enc
    "\<lambda>w. unat w < 2 ^ 35" varint_wire
  by unfold_locales (rule emits_put_varint, erule reads_get_varint_wire)

text \<open>A string that fits a destination of \<open>n\<close> characters, with its terminator.\<close>

definition string_fits :: "size_t \<Rightarrow> cstring \<Rightarrow> bool" where
  "string_fits n str = (case str of None \<Rightarrow> False
     | Some s \<Rightarrow> length s < 2 ^ 31 \<and> length (cstr s) < unat n)"

definition string_view :: "cstring \<Rightarrow> byte list" where
  "string_view str = (case str of None \<Rightarrow> [] | Some s \<Rightarrow> cstr s)"

lemma string_view_Some [simp]: "string_view (Some s) = cstr s"
  by (simp add: string_view_def)

lemma emits_put_string_fits [emits_rules]:
  "string_fits n s \<Longrightarrow> emits (cswp_buffer_put_string s) (string_enc s)"
  by (cases s) (auto simp: string_fits_def intro: emits_put_string)

lemma reads_get_string_fits [reads_rules]:
  "string_fits n s \<Longrightarrow> reads (cswp_buffer_get_string n) (string_enc s) (string_view s)"
  using length_cstr_le [of "the s"]
  by (cases s) (auto simp: string_fits_def string_view_def intro!: reads_get_string)

interpretation str: codec cswp_buffer_put_string "cswp_buffer_get_string n" string_enc
    "string_fits n" string_view for n
  by unfold_locales (erule emits_put_string_fits, erule reads_get_string_fits)

text \<open>A name and a type, as the device lists send them.\<close>

interpretation str2: codec_pair cswp_buffer_put_string "cswp_buffer_get_string m" string_enc
    "string_fits m" string_view cswp_buffer_put_string "cswp_buffer_get_string n" string_enc
    "string_fits n" string_view for m n
  by unfold_locales

text \<open>Raw data of a size both sides know.\<close>

interpretation raw: codec "\<lambda>bs. cswp_buffer_put_data bs n" "cswp_buffer_get_data n" "take (unat n)"
    "\<lambda>bs. unat n \<le> length bs" "take (unat n)" for n
  by unfold_locales (erule emits_put_data, simp add: reads_get_data)

interpretation direct: codec "\<lambda>bs. cswp_buffer_put_data bs n" "cswp_buffer_get_direct n" "take (unat n)"
    "\<lambda>bs. unat n \<le> length bs" "take (unat n)" for n
  by unfold_locales (erule emits_put_data, simp add: reads_get_direct)

end
