(* ===== verification/Client_Commands.thy ===== *)
theory Client_Commands
  imports Cswp_Buffer
begin

text \<open>
  The client's message codec, \<^verbatim>\<open>cswp/client/cswp_client_commands.c\<close>: one encoder per command and
  one decoder per response body. An output parameter is a component of the result; an array
  argument is a pointer (\<open>None\<close> is \<open>NULL\<close>) to a list.
\<close>

text \<open>\<open>strNull\<close>: the destination pointer is \<open>NULL\<close>. The characters are skipped without a check
  that they have been received.\<close>

definition cswp_get_optional_string :: "bool \<Rightarrow> size_t \<Rightarrow> (CSWP_BUFFER, byte list option) prog" where
  "cswp_get_optional_string strNull strSz =
     (if strSz = 0 \<or> strNull then
        cswp_check cswp_buffer_get_varint (\<lambda>sz.
        cswp_check (modify (cswp_buffer_skip sz)) (\<lambda>_.
        ret None))
      else
        cswp_check (cswp_buffer_get_string strSz) (\<lambda>s. ret (Some s)))"

definition cswp_encode_command_header :: "64 word \<Rightarrow> (CSWP_BUFFER, unit) prog" where
  "cswp_encode_command_header messageType =
     cswp_check (cswp_buffer_put_varint messageType) (\<lambda>_. ret ())"

definition cswp_decode_response_header :: "(CSWP_BUFFER, 64 word \<times> 64 word) prog" where
  "cswp_decode_response_header =
     cswp_check cswp_buffer_get_varint (\<lambda>messageType.
     cswp_check cswp_buffer_get_varint (\<lambda>errorCode.
     ret (messageType, errorCode)))"

definition cswp_decode_error_response_body :: "size_t \<Rightarrow> (CSWP_BUFFER, byte list) prog" where
  "cswp_decode_error_response_body errorMessageSize = cswp_buffer_get_string errorMessageSize"

definition cswp_encode_init_command :: "64 word \<Rightarrow> cstring \<Rightarrow> (CSWP_BUFFER, unit) prog" where
  "cswp_encode_init_command clientProtocolVersion clientID =
     cswp_check (cswp_encode_command_header (cmd_val CSWP_INIT)) (\<lambda>_.
     cswp_check (cswp_buffer_put_varint clientProtocolVersion) (\<lambda>_.
     cswp_check (cswp_buffer_put_string clientID) (\<lambda>_.
     ret ())))"

definition cswp_decode_init_response_body ::
  "bool \<Rightarrow> size_t \<Rightarrow> (CSWP_BUFFER, 64 word \<times> byte list option \<times> 64 word) prog" where
  "cswp_decode_init_response_body serverIDNull serverIDSize =
     cswp_check cswp_buffer_get_varint (\<lambda>serverProtocolVersion.
     cswp_check (cswp_get_optional_string serverIDNull serverIDSize) (\<lambda>serverID.
     cswp_check cswp_buffer_get_varint (\<lambda>serverVersion.
     ret (serverProtocolVersion, serverID, serverVersion))))"

definition cswp_encode_term_command :: "(CSWP_BUFFER, unit) prog" where
  "cswp_encode_term_command =
     cswp_check (cswp_encode_command_header (cmd_val CSWP_TERM)) (\<lambda>_. ret ())"

definition cswp_encode_client_info_command :: "cstring \<Rightarrow> (CSWP_BUFFER, unit) prog" where
  "cswp_encode_client_info_command message =
     cswp_check (cswp_encode_command_header (cmd_val CSWP_CLIENT_INFO)) (\<lambda>_.
     cswp_check (cswp_buffer_put_string message) (\<lambda>_.
     ret ()))"

definition cswp_encode_set_devices_command ::
  "64 word \<Rightarrow> cstring list option \<Rightarrow> cstring list option \<Rightarrow> (CSWP_BUFFER, unit) prog" where
  "cswp_encode_set_devices_command deviceCount deviceList deviceType =
     cswp_check (cswp_encode_command_header (cmd_val CSWP_SET_DEVICES)) (\<lambda>_.
     cswp_check (cswp_buffer_put_varint deviceCount) (\<lambda>_.
     c_for_int (unat deviceCount) (\<lambda>i.
       cswp_check (nth_p deviceList i) (\<lambda>name.
       cswp_check (cswp_buffer_put_string name) (\<lambda>_.
       cswp_check (nth_p deviceType i) (\<lambda>type.
       cswp_buffer_put_string type))))))"

definition cswp_encode_get_devices_command :: "(CSWP_BUFFER, unit) prog" where
  "cswp_encode_get_devices_command =
     cswp_check (cswp_encode_command_header (cmd_val CSWP_GET_DEVICES)) (\<lambda>_. ret ())"

definition cswp_decode_get_devices_response_body :: "(CSWP_BUFFER, 64 word) prog" where
  "cswp_decode_get_devices_response_body = cswp_buffer_get_varint"

definition cswp_encode_get_system_description_command :: "(CSWP_BUFFER, unit) prog" where
  "cswp_encode_get_system_description_command =
     cswp_check (cswp_encode_command_header (cmd_val CSWP_GET_SYSTEM_DESCRIPTION)) (\<lambda>_. ret ())"

definition cswp_decode_get_system_description_response_body ::
  "size_t \<Rightarrow> (CSWP_BUFFER, 64 word \<times> 64 word \<times> byte list) prog" where
  "cswp_decode_get_system_description_response_body systemDescriptionDataSize =
     cswp_check cswp_buffer_get_varint (\<lambda>systemDescriptionFormat.
     cswp_check cswp_buffer_get_varint (\<lambda>systemDescriptionSize.
     let bufferSize = (if systemDescriptionDataSize < systemDescriptionSize
                       then systemDescriptionDataSize else systemDescriptionSize) in
     cswp_check (cswp_buffer_get_data bufferSize) (\<lambda>systemDescriptionData.
     ret (systemDescriptionFormat, systemDescriptionSize, systemDescriptionData))))"

definition cswp_encode_device_open_command :: "64 word \<Rightarrow> (CSWP_BUFFER, unit) prog" where
  "cswp_encode_device_open_command deviceNo =
     cswp_check (cswp_encode_command_header (cmd_val CSWP_DEVICE_OPEN)) (\<lambda>_.
     cswp_check (cswp_buffer_put_varint deviceNo) (\<lambda>_.
     ret ()))"

definition cswp_decode_device_open_response_body ::
  "bool \<Rightarrow> size_t \<Rightarrow> (CSWP_BUFFER, byte list option) prog" where
  "cswp_decode_device_open_response_body deviceInfoNull deviceInfoSize =
     cswp_get_optional_string deviceInfoNull deviceInfoSize"

definition cswp_encode_device_close_command :: "64 word \<Rightarrow> (CSWP_BUFFER, unit) prog" where
  "cswp_encode_device_close_command deviceNo =
     cswp_check (cswp_encode_command_header (cmd_val CSWP_DEVICE_CLOSE)) (\<lambda>_.
     cswp_check (cswp_buffer_put_varint deviceNo) (\<lambda>_.
     ret ()))"

definition cswp_encode_set_config_command ::
  "64 word \<Rightarrow> cstring \<Rightarrow> cstring \<Rightarrow> (CSWP_BUFFER, unit) prog" where
  "cswp_encode_set_config_command deviceNo name val =
     cswp_check (cswp_encode_command_header (cmd_val CSWP_SET_CONFIG)) (\<lambda>_.
     cswp_check (cswp_buffer_put_varint deviceNo) (\<lambda>_.
     cswp_check (cswp_buffer_put_string name) (\<lambda>_.
     cswp_check (cswp_buffer_put_string val) (\<lambda>_.
     ret ()))))"

definition cswp_encode_get_config_command :: "64 word \<Rightarrow> cstring \<Rightarrow> (CSWP_BUFFER, unit) prog" where
  "cswp_encode_get_config_command deviceNo name =
     cswp_check (cswp_encode_command_header (cmd_val CSWP_GET_CONFIG)) (\<lambda>_.
     cswp_check (cswp_buffer_put_varint deviceNo) (\<lambda>_.
     cswp_check (cswp_buffer_put_string name) (\<lambda>_.
     ret ())))"

definition cswp_decode_get_config_response_body :: "size_t \<Rightarrow> (CSWP_BUFFER, byte list) prog" where
  "cswp_decode_get_config_response_body valueSize = cswp_buffer_get_string valueSize"

definition cswp_encode_get_device_capabilities_command :: "64 word \<Rightarrow> (CSWP_BUFFER, unit) prog" where
  "cswp_encode_get_device_capabilities_command deviceNo =
     cswp_check (cswp_encode_command_header (cmd_val CSWP_GET_DEVICE_CAPABILITIES)) (\<lambda>_.
     cswp_check (cswp_buffer_put_varint deviceNo) (\<lambda>_.
     ret ()))"

definition cswp_decode_get_device_capabilities_response_body ::
  "(CSWP_BUFFER, 64 word \<times> 64 word) prog" where
  "cswp_decode_get_device_capabilities_response_body =
     cswp_check cswp_buffer_get_varint (\<lambda>capabilities.
     cswp_check cswp_buffer_get_varint (\<lambda>capabilityData.
     ret (capabilities, capabilityData)))"

definition cswp_encode_reg_list_command :: "64 word \<Rightarrow> (CSWP_BUFFER, unit) prog" where
  "cswp_encode_reg_list_command deviceNo =
     cswp_check (cswp_encode_command_header (cmd_val CSWP_REG_LIST)) (\<lambda>_.
     cswp_check (cswp_buffer_put_varint deviceNo) (\<lambda>_.
     ret ()))"

definition cswp_decode_reg_list_response_body :: "(CSWP_BUFFER, 64 word) prog" where
  "cswp_decode_reg_list_response_body = cswp_buffer_get_varint"

definition cswp_decode_reg_info :: "size_t \<Rightarrow> size_t \<Rightarrow> size_t \<Rightarrow>
    (CSWP_BUFFER, 64 word \<times> byte list \<times> 64 word \<times> byte list \<times> byte list) prog" where
  "cswp_decode_reg_info nameSize displayNameSize descriptionSize =
     cswp_check cswp_buffer_get_varint (\<lambda>regID.
     cswp_check (cswp_buffer_get_string nameSize) (\<lambda>name.
     cswp_check cswp_buffer_get_varint (\<lambda>sz.
     cswp_check (cswp_buffer_get_string displayNameSize) (\<lambda>displayName.
     cswp_check (cswp_buffer_get_string descriptionSize) (\<lambda>description.
     ret (regID, name, sz, displayName, description))))))"

definition cswp_encode_reg_read_command ::
  "64 word \<Rightarrow> 64 word \<Rightarrow> 64 word list option \<Rightarrow> (CSWP_BUFFER, unit) prog" where
  "cswp_encode_reg_read_command deviceNo count registerIDs =
     cswp_check (cswp_encode_command_header (cmd_val CSWP_REG_READ)) (\<lambda>_.
     cswp_check (cswp_buffer_put_varint deviceNo) (\<lambda>_.
     cswp_check (cswp_buffer_put_varint count) (\<lambda>_.
     c_for_int (unat count) (\<lambda>i.
       cswp_check (nth_p registerIDs i) cswp_buffer_put_varint))))"

definition cswp_decode_reg_read_response_body :: "(CSWP_BUFFER, 64 word) prog" where
  "cswp_decode_reg_read_response_body = cswp_buffer_get_varint"

definition cswp_encode_reg_write_command :: "64 word \<Rightarrow> 64 word \<Rightarrow> (CSWP_BUFFER, unit) prog" where
  "cswp_encode_reg_write_command deviceNo count =
     cswp_check (cswp_encode_command_header (cmd_val CSWP_REG_WRITE)) (\<lambda>_.
     cswp_check (cswp_buffer_put_varint deviceNo) (\<lambda>_.
     cswp_check (cswp_buffer_put_varint count) (\<lambda>_.
     ret ())))"

definition cswp_encode_mem_read_command ::
  "64 word \<Rightarrow> 64 word \<Rightarrow> 64 word \<Rightarrow> 64 word \<Rightarrow> 64 word \<Rightarrow> (CSWP_BUFFER, unit) prog" where
  "cswp_encode_mem_read_command deviceNo address sz accessSize flags =
     cswp_check (cswp_encode_command_header (cmd_val CSWP_MEM_READ)) (\<lambda>_.
     cswp_check (cswp_buffer_put_varint deviceNo) (\<lambda>_.
     cswp_check (cswp_buffer_put_uint64 address) (\<lambda>_.
     cswp_check (cswp_buffer_put_varint sz) (\<lambda>_.
     cswp_check (cswp_buffer_put_varint accessSize) (\<lambda>_.
     cswp_check (cswp_buffer_put_varint flags) (\<lambda>_.
     ret ()))))))"

definition cswp_decode_mem_read_response_body :: "(CSWP_BUFFER, 64 word) prog" where
  "cswp_decode_mem_read_response_body = cswp_buffer_get_varint"

definition cswp_encode_mem_write_command ::
  "64 word \<Rightarrow> 64 word \<Rightarrow> 64 word \<Rightarrow> 64 word \<Rightarrow> 64 word \<Rightarrow> byte list \<Rightarrow> (CSWP_BUFFER, unit) prog" where
  "cswp_encode_mem_write_command deviceNo address sz accessSize flags data =
     cswp_check (cswp_encode_command_header (cmd_val CSWP_MEM_WRITE)) (\<lambda>_.
     cswp_check (cswp_buffer_put_varint deviceNo) (\<lambda>_.
     cswp_check (cswp_buffer_put_uint64 address) (\<lambda>_.
     cswp_check (cswp_buffer_put_varint sz) (\<lambda>_.
     cswp_check (cswp_buffer_put_varint accessSize) (\<lambda>_.
     cswp_check (cswp_buffer_put_varint flags) (\<lambda>_.
     cswp_check (cswp_buffer_put_data data sz) (\<lambda>_.
     ret ())))))))"

definition cswp_encode_mem_poll_command ::
  "64 word \<Rightarrow> 64 word \<Rightarrow> 64 word \<Rightarrow> 64 word \<Rightarrow> 64 word \<Rightarrow> 64 word \<Rightarrow> 64 word
     \<Rightarrow> byte list \<Rightarrow> byte list \<Rightarrow> (CSWP_BUFFER, unit) prog" where
  "cswp_encode_mem_poll_command deviceNo address sz accessSize flags tries delay mask_p val_p =
     cswp_check (cswp_encode_command_header (cmd_val CSWP_MEM_POLL)) (\<lambda>_.
     cswp_check (cswp_buffer_put_varint deviceNo) (\<lambda>_.
     cswp_check (cswp_buffer_put_uint64 address) (\<lambda>_.
     cswp_check (cswp_buffer_put_varint sz) (\<lambda>_.
     cswp_check (cswp_buffer_put_varint accessSize) (\<lambda>_.
     cswp_check (cswp_buffer_put_varint flags) (\<lambda>_.
     cswp_check (cswp_buffer_put_varint tries) (\<lambda>_.
     cswp_check (cswp_buffer_put_varint delay) (\<lambda>_.
     cswp_check (cswp_buffer_put_data mask_p sz) (\<lambda>_.
     cswp_check (cswp_buffer_put_data val_p sz) (\<lambda>_.
     ret ()))))))))))"

definition cswp_decode_mem_poll_response_body :: "(CSWP_BUFFER, 64 word) prog" where
  "cswp_decode_mem_poll_response_body = cswp_buffer_get_varint"

definition cswp_decode_async_message_body ::
  "size_t \<Rightarrow> (CSWP_BUFFER, 64 word \<times> 64 word \<times> byte list) prog" where
  "cswp_decode_async_message_body messageSize =
     cswp_check cswp_buffer_get_varint (\<lambda>deviceNo.
     cswp_check cswp_buffer_get_varint (\<lambda>level.
     cswp_check (cswp_buffer_get_string messageSize) (\<lambda>message.
     ret (deviceNo, level, message))))"

end
