(* ===== verification/Server_Commands.thy ===== *)
theory Server_Commands
  imports Cswp_Buffer
begin

text \<open>
  The server's message codec, \<^verbatim>\<open>cswp/server/cswp_server_commands.c\<close>: one decoder per command body
  and one encoder per response.
\<close>

definition cswp_decode_command_header :: "(CSWP_BUFFER, 64 word) prog" where
  "cswp_decode_command_header = cswp_buffer_get_varint"

definition cswp_encode_response_header :: "64 word \<Rightarrow> 64 word \<Rightarrow> (CSWP_BUFFER, unit) prog" where
  "cswp_encode_response_header messageType errorCode =
     cswp_check (cswp_buffer_put_varint messageType) (\<lambda>_.
     cswp_check (cswp_buffer_put_varint errorCode) (\<lambda>_.
     ret ()))"

definition cswp_encode_error_response :: "64 word \<Rightarrow> 64 word \<Rightarrow> cstring \<Rightarrow> (CSWP_BUFFER, unit) prog" where
  "cswp_encode_error_response messageType errorCode errorMessage =
     cswp_check (cswp_encode_response_header messageType errorCode) (\<lambda>_.
     cswp_check (cswp_buffer_put_string errorMessage) (\<lambda>_.
     ret ()))"

definition cswp_decode_init_command_body :: "size_t \<Rightarrow> (CSWP_BUFFER, 64 word \<times> byte list) prog" where
  "cswp_decode_init_command_body clientIDSize =
     cswp_check cswp_buffer_get_varint (\<lambda>clientProtocolVersion.
     cswp_check (cswp_buffer_get_string clientIDSize) (\<lambda>clientID.
     ret (clientProtocolVersion, clientID)))"

definition cswp_encode_init_response :: "64 word \<Rightarrow> cstring \<Rightarrow> 64 word \<Rightarrow> (CSWP_BUFFER, unit) prog" where
  "cswp_encode_init_response serverProtocolVersion serverID serverVersion =
     cswp_check (cswp_encode_response_header (cmd_val CSWP_INIT) 0) (\<lambda>_.
     cswp_check (cswp_buffer_put_varint serverProtocolVersion) (\<lambda>_.
     cswp_check (cswp_buffer_put_string serverID) (\<lambda>_.
     cswp_check (cswp_buffer_put_varint serverVersion) (\<lambda>_.
     ret ()))))"

definition cswp_encode_term_response :: "(CSWP_BUFFER, unit) prog" where
  "cswp_encode_term_response =
     cswp_check (cswp_encode_response_header (cmd_val CSWP_TERM) 0) (\<lambda>_. ret ())"

definition cswp_decode_client_info_command_body :: "size_t \<Rightarrow> (CSWP_BUFFER, byte list) prog" where
  "cswp_decode_client_info_command_body messageSize = cswp_buffer_get_string messageSize"

definition cswp_encode_client_info_response :: "(CSWP_BUFFER, unit) prog" where
  "cswp_encode_client_info_response =
     cswp_check (cswp_encode_response_header (cmd_val CSWP_CLIENT_INFO) 0) (\<lambda>_. ret ())"

definition cswp_decode_set_devices_command_body :: "(CSWP_BUFFER, 64 word) prog" where
  "cswp_decode_set_devices_command_body = cswp_buffer_get_varint"

definition cswp_encode_set_devices_response :: "(CSWP_BUFFER, unit) prog" where
  "cswp_encode_set_devices_response =
     cswp_check (cswp_encode_response_header (cmd_val CSWP_SET_DEVICES) 0) (\<lambda>_. ret ())"

definition cswp_encode_get_devices_response ::
  "64 word \<Rightarrow> cstring list option \<Rightarrow> cstring list option \<Rightarrow> (CSWP_BUFFER, unit) prog" where
  "cswp_encode_get_devices_response deviceCount deviceList deviceTypes =
     cswp_check (cswp_encode_response_header (cmd_val CSWP_GET_DEVICES) 0) (\<lambda>_.
     cswp_check (cswp_buffer_put_varint deviceCount) (\<lambda>_.
     c_for_int (unat deviceCount) (\<lambda>i.
       cswp_check (nth_p deviceList i) (\<lambda>name.
       cswp_check (cswp_buffer_put_string name) (\<lambda>_.
       cswp_check (nth_p deviceTypes i) (\<lambda>type.
       cswp_buffer_put_string type))))))"

definition cswp_encode_get_system_description_response ::
  "64 word \<Rightarrow> 64 word \<Rightarrow> byte list \<Rightarrow> (CSWP_BUFFER, unit) prog" where
  "cswp_encode_get_system_description_response systemDescriptionFormat systemDescriptionSize
      systemDescriptionData =
     cswp_check (cswp_encode_response_header (cmd_val CSWP_GET_SYSTEM_DESCRIPTION) 0) (\<lambda>_.
     cswp_check (cswp_buffer_put_varint systemDescriptionFormat) (\<lambda>_.
     cswp_check (cswp_buffer_put_varint systemDescriptionSize) (\<lambda>_.
     cswp_check (cswp_buffer_put_data systemDescriptionData systemDescriptionSize) (\<lambda>_.
     ret ()))))"

definition cswp_decode_device_open_command_body :: "(CSWP_BUFFER, 64 word) prog" where
  "cswp_decode_device_open_command_body = cswp_buffer_get_varint"

definition cswp_encode_device_open_response :: "cstring \<Rightarrow> (CSWP_BUFFER, unit) prog" where
  "cswp_encode_device_open_response deviceInfo =
     cswp_check (cswp_encode_response_header (cmd_val CSWP_DEVICE_OPEN) 0) (\<lambda>_.
     cswp_check (cswp_buffer_put_string deviceInfo) (\<lambda>_.
     ret ()))"

definition cswp_decode_device_close_command_body :: "(CSWP_BUFFER, 64 word) prog" where
  "cswp_decode_device_close_command_body = cswp_buffer_get_varint"

definition cswp_encode_device_close_response :: "(CSWP_BUFFER, unit) prog" where
  "cswp_encode_device_close_response =
     cswp_check (cswp_encode_response_header (cmd_val CSWP_DEVICE_CLOSE) 0) (\<lambda>_. ret ())"

definition cswp_decode_set_config_command_body ::
  "size_t \<Rightarrow> size_t \<Rightarrow> (CSWP_BUFFER, 64 word \<times> byte list \<times> byte list) prog" where
  "cswp_decode_set_config_command_body nameSize valueSize =
     cswp_check cswp_buffer_get_varint (\<lambda>deviceNo.
     cswp_check (cswp_buffer_get_string nameSize) (\<lambda>name.
     cswp_check (cswp_buffer_get_string valueSize) (\<lambda>val.
     ret (deviceNo, name, val))))"

definition cswp_encode_set_config_response :: "(CSWP_BUFFER, unit) prog" where
  "cswp_encode_set_config_response =
     cswp_check (cswp_encode_response_header (cmd_val CSWP_SET_CONFIG) 0) (\<lambda>_. ret ())"

definition cswp_decode_get_config_command_body ::
  "size_t \<Rightarrow> (CSWP_BUFFER, 64 word \<times> byte list) prog" where
  "cswp_decode_get_config_command_body nameSize =
     cswp_check cswp_buffer_get_varint (\<lambda>deviceNo.
     cswp_check (cswp_buffer_get_string nameSize) (\<lambda>name.
     ret (deviceNo, name)))"

definition cswp_encode_get_config_response :: "cstring \<Rightarrow> (CSWP_BUFFER, unit) prog" where
  "cswp_encode_get_config_response val =
     cswp_check (cswp_encode_response_header (cmd_val CSWP_GET_CONFIG) 0) (\<lambda>_.
     cswp_check (cswp_buffer_put_string val) (\<lambda>_.
     ret ()))"

definition cswp_decode_get_device_capabilities_command_body :: "(CSWP_BUFFER, 64 word) prog" where
  "cswp_decode_get_device_capabilities_command_body = cswp_buffer_get_varint"

definition cswp_encode_get_device_capabilities_response ::
  "64 word \<Rightarrow> 64 word \<Rightarrow> (CSWP_BUFFER, unit) prog" where
  "cswp_encode_get_device_capabilities_response capabilities capabilitiesData =
     cswp_check (cswp_encode_response_header (cmd_val CSWP_GET_DEVICE_CAPABILITIES) 0) (\<lambda>_.
     cswp_check (cswp_buffer_put_varint capabilities) (\<lambda>_.
     cswp_check (cswp_buffer_put_varint capabilitiesData) (\<lambda>_.
     ret ())))"

definition cswp_decode_reg_list_command_body :: "(CSWP_BUFFER, 64 word) prog" where
  "cswp_decode_reg_list_command_body = cswp_buffer_get_varint"

definition cswp_encode_reg_list_response :: "64 word \<Rightarrow> (CSWP_BUFFER, unit) prog" where
  "cswp_encode_reg_list_response registerCount =
     cswp_check (cswp_encode_response_header (cmd_val CSWP_REG_LIST) 0) (\<lambda>_.
     cswp_check (cswp_buffer_put_varint registerCount) (\<lambda>_.
     ret ()))"

definition cswp_encode_reg_info ::
  "64 word \<Rightarrow> cstring \<Rightarrow> 64 word \<Rightarrow> cstring \<Rightarrow> cstring \<Rightarrow> (CSWP_BUFFER, unit) prog" where
  "cswp_encode_reg_info regID name sz displayName description =
     cswp_check (cswp_buffer_put_varint regID) (\<lambda>_.
     cswp_check (cswp_buffer_put_string name) (\<lambda>_.
     cswp_check (cswp_buffer_put_varint sz) (\<lambda>_.
     cswp_check (cswp_buffer_put_string displayName) (\<lambda>_.
     cswp_check (cswp_buffer_put_string description) (\<lambda>_.
     ret ())))))"

definition cswp_decode_reg_read_command_body :: "(CSWP_BUFFER, 64 word \<times> 64 word) prog" where
  "cswp_decode_reg_read_command_body =
     cswp_check cswp_buffer_get_varint (\<lambda>deviceNo.
     cswp_check cswp_buffer_get_varint (\<lambda>count.
     ret (deviceNo, count)))"

definition cswp_encode_reg_read_response :: "64 word \<Rightarrow> c_uint list \<Rightarrow> (CSWP_BUFFER, unit) prog" where
  "cswp_encode_reg_read_response count registerValues =
     cswp_check (cswp_encode_response_header (cmd_val CSWP_REG_READ) 0) (\<lambda>_.
     cswp_check (cswp_buffer_put_varint count) (\<lambda>_.
     c_for_int (unat count) (\<lambda>i.
       cswp_check (nth_c registerValues i) cswp_buffer_put_uint32)))"

definition cswp_decode_reg_write_command_body :: "(CSWP_BUFFER, 64 word \<times> 64 word) prog" where
  "cswp_decode_reg_write_command_body =
     cswp_check cswp_buffer_get_varint (\<lambda>deviceNo.
     cswp_check cswp_buffer_get_varint (\<lambda>count.
     ret (deviceNo, count)))"

definition cswp_encode_reg_write_response :: "(CSWP_BUFFER, unit) prog" where
  "cswp_encode_reg_write_response =
     cswp_check (cswp_encode_response_header (cmd_val CSWP_REG_WRITE) 0) (\<lambda>_. ret ())"

definition cswp_decode_mem_read_command_body ::
  "(CSWP_BUFFER, 64 word \<times> 64 word \<times> 64 word \<times> 64 word \<times> 64 word) prog" where
  "cswp_decode_mem_read_command_body =
     cswp_check cswp_buffer_get_varint (\<lambda>deviceNo.
     cswp_check cswp_buffer_get_uint64 (\<lambda>address.
     cswp_check cswp_buffer_get_varint (\<lambda>sz.
     cswp_check cswp_buffer_get_varint (\<lambda>accessSize.
     cswp_check cswp_buffer_get_varint (\<lambda>flags.
     ret (deviceNo, address, sz, accessSize, flags))))))"

definition cswp_encode_mem_read_response :: "64 word \<Rightarrow> byte list \<Rightarrow> (CSWP_BUFFER, unit) prog" where
  "cswp_encode_mem_read_response count data =
     cswp_check (cswp_encode_response_header (cmd_val CSWP_MEM_READ) 0) (\<lambda>_.
     cswp_check (cswp_buffer_put_varint count) (\<lambda>_.
     cswp_check (cswp_buffer_put_data data count) (\<lambda>_.
     ret ())))"

definition cswp_decode_mem_write_command_body ::
  "(CSWP_BUFFER, 64 word \<times> 64 word \<times> 64 word \<times> 64 word \<times> 64 word) prog" where
  "cswp_decode_mem_write_command_body =
     cswp_check cswp_buffer_get_varint (\<lambda>deviceNo.
     cswp_check cswp_buffer_get_uint64 (\<lambda>address.
     cswp_check cswp_buffer_get_varint (\<lambda>sz.
     cswp_check cswp_buffer_get_varint (\<lambda>accessSize.
     cswp_check cswp_buffer_get_varint (\<lambda>flags.
     ret (deviceNo, address, sz, accessSize, flags))))))"

definition cswp_encode_mem_write_response :: "(CSWP_BUFFER, unit) prog" where
  "cswp_encode_mem_write_response =
     cswp_check (cswp_encode_response_header (cmd_val CSWP_MEM_WRITE) 0) (\<lambda>_. ret ())"

definition cswp_decode_mem_poll_command_body ::
  "(CSWP_BUFFER, 64 word \<times> 64 word \<times> 64 word \<times> 64 word \<times> 64 word \<times> 64 word \<times> 64 word) prog" where
  "cswp_decode_mem_poll_command_body =
     cswp_check cswp_buffer_get_varint (\<lambda>deviceNo.
     cswp_check cswp_buffer_get_uint64 (\<lambda>address.
     cswp_check cswp_buffer_get_varint (\<lambda>sz.
     cswp_check cswp_buffer_get_varint (\<lambda>accessSize.
     cswp_check cswp_buffer_get_varint (\<lambda>flags.
     cswp_check cswp_buffer_get_varint (\<lambda>tries.
     cswp_check cswp_buffer_get_varint (\<lambda>interval.
     ret (deviceNo, address, sz, accessSize, flags, tries, interval))))))))"

definition cswp_encode_mem_poll_response :: "64 word \<Rightarrow> byte list \<Rightarrow> (CSWP_BUFFER, unit) prog" where
  "cswp_encode_mem_poll_response count data =
     cswp_check (cswp_encode_response_header (cmd_val CSWP_MEM_POLL) 0) (\<lambda>_.
     cswp_check (cswp_buffer_put_varint count) (\<lambda>_.
     cswp_check (cswp_buffer_put_data data count) (\<lambda>_.
     ret ())))"

definition cswp_encode_async_message ::
  "64 word \<Rightarrow> 64 word \<Rightarrow> 64 word \<Rightarrow> cstring \<Rightarrow> (CSWP_BUFFER, unit) prog" where
  "cswp_encode_async_message errorCode deviceNo level message =
     cswp_check (cswp_encode_response_header (cmd_val CSWP_ASYNC_MESSAGE) errorCode) (\<lambda>_.
     cswp_check (cswp_buffer_put_varint deviceNo) (\<lambda>_.
     cswp_check (cswp_buffer_put_varint level) (\<lambda>_.
     cswp_check (cswp_buffer_put_string message) (\<lambda>_.
     ret ()))))"

end
