(* ===== verification/Command_Codec.thy ===== *)
theory Command_Codec
  imports Codec Client_Commands Server_Commands
begin

text \<open>
  The client's and the server's codecs against each other. \<open>command_in\<close> is what the server
  does with the bytes of a command (header, then body), \<open>response_in\<close> what the client does with
  a response. For each message the bytes it has on the wire are stated once; the encoder of
  one side appends them and the decoder of the other side reads them back.
\<close>

definition command_in :: "(CSWP_BUFFER, 'a) prog \<Rightarrow> (CSWP_BUFFER, 64 word \<times> 'a) prog" where
  "command_in body = cswp_check cswp_decode_command_header (\<lambda>t. cswp_check body (\<lambda>x. ret (t, x)))"

definition response_in :: "(CSWP_BUFFER, 'a) prog \<Rightarrow> (CSWP_BUFFER, (64 word \<times> 64 word) \<times> 'a) prog" where
  "response_in body = cswp_check cswp_decode_response_header (\<lambda>te. cswp_check body (\<lambda>x. ret (te, x)))"

lemma reads_command_in:
  assumes "varint_ok t" and "reads body bs x"
  shows "reads (command_in body) (varint_enc t @ bs) (t, x)"
  unfolding command_in_def cswp_decode_command_header_def
  by (rule reads_check [OF reads_get_varint [OF assms(1)] reads_check_ret [OF assms(2)]]) (rule refl)

lemma reads_response_header:
  assumes "varint_ok t" and "varint_ok e"
  shows "reads cswp_decode_response_header (varint_enc t @ varint_enc e) (t, e)"
  unfolding cswp_decode_response_header_def
  by (rule reads_check [OF reads_get_varint [OF assms(1)] reads_check_ret [OF reads_get_varint [OF assms(2)]]])
    (rule refl)

lemma reads_response_in:
  assumes "varint_ok t" and "varint_ok e" and "reads body bs x"
  shows "reads (response_in body) ((varint_enc t @ varint_enc e) @ bs) ((t, e), x)"
  unfolding response_in_def
  by (rule reads_check [OF reads_response_header [OF assms(1,2)] reads_check_ret [OF assms(3)]]) (rule refl)

text \<open>A message without a body.\<close>

lemma reads_nothing: "reads (ret ()) [] ()"
  by (rule reads_ret)

text \<open>Unfolding a codec turns it into a flat sequence of buffer calls; the rules then match the
  bytes call by call.\<close>

lemmas sequence_defs =
  command_in_def response_in_def cswp_decode_command_header_def cswp_decode_response_header_def
  cswp_encode_command_header_def cswp_encode_response_header_def
  cswp_check_assoc cswp_check_ret check_ret_unit prod.case

lemmas wire_rules = emits_rules
lemmas unwire_rules = reads_check reads_rules reads_check_ret varint_ok_cmd varint_ok_0 refl

lemmas client_message_defs =
  cswp_decode_error_response_body_def cswp_encode_init_command_def
  cswp_decode_init_response_body_def cswp_encode_term_command_def
  cswp_encode_client_info_command_def cswp_encode_set_devices_command_def
  cswp_encode_get_devices_command_def cswp_decode_get_devices_response_body_def
  cswp_encode_get_system_description_command_def
  cswp_decode_get_system_description_response_body_def cswp_encode_device_open_command_def
  cswp_decode_device_open_response_body_def cswp_encode_device_close_command_def
  cswp_encode_set_config_command_def cswp_encode_get_config_command_def
  cswp_decode_get_config_response_body_def cswp_encode_get_device_capabilities_command_def
  cswp_decode_get_device_capabilities_response_body_def cswp_encode_reg_list_command_def
  cswp_decode_reg_list_response_body_def cswp_decode_reg_info_def
  cswp_encode_reg_read_command_def cswp_decode_reg_read_response_body_def
  cswp_encode_reg_write_command_def cswp_encode_mem_read_command_def
  cswp_decode_mem_read_response_body_def cswp_encode_mem_write_command_def
  cswp_encode_mem_poll_command_def cswp_decode_mem_poll_response_body_def
  cswp_decode_async_message_body_def

lemmas server_message_defs =
  cswp_encode_error_response_def cswp_decode_init_command_body_def cswp_encode_init_response_def
  cswp_encode_term_response_def cswp_decode_client_info_command_body_def
  cswp_encode_client_info_response_def cswp_decode_set_devices_command_body_def
  cswp_encode_set_devices_response_def cswp_encode_get_devices_response_def
  cswp_encode_get_system_description_response_def cswp_decode_device_open_command_body_def
  cswp_encode_device_open_response_def cswp_decode_device_close_command_body_def
  cswp_encode_device_close_response_def cswp_decode_set_config_command_body_def
  cswp_encode_set_config_response_def cswp_decode_get_config_command_body_def
  cswp_encode_get_config_response_def cswp_decode_get_device_capabilities_command_body_def
  cswp_encode_get_device_capabilities_response_def cswp_decode_reg_list_command_body_def
  cswp_encode_reg_list_response_def cswp_encode_reg_info_def
  cswp_decode_reg_read_command_body_def cswp_encode_reg_read_response_def
  cswp_decode_reg_write_command_body_def cswp_encode_reg_write_response_def
  cswp_decode_mem_read_command_body_def cswp_encode_mem_read_response_def
  cswp_decode_mem_write_command_body_def cswp_encode_mem_write_response_def
  cswp_decode_mem_poll_command_body_def cswp_encode_mem_poll_response_def
  cswp_encode_async_message_def

lemmas message_defs = client_message_defs server_message_defs sequence_defs

subsection \<open>Commands: client to server\<close>

lemma transmits_init_command:
  assumes "varint_ok v" and "string_fits n s"
  shows "transmits (cswp_encode_init_command v s) (command_in (cswp_decode_init_command_body n))
    (cmd_val CSWP_INIT, v, string_view s)"
  by (unfold message_defs, (rule transmitsI, (rule wire_rules assms)+, (rule unwire_rules assms)+)+)

lemma transmits_bare_commands:
  "transmits cswp_encode_term_command (command_in (ret ())) (cmd_val CSWP_TERM, ())"
  "transmits cswp_encode_get_devices_command (command_in (ret ())) (cmd_val CSWP_GET_DEVICES, ())"
  "transmits cswp_encode_get_system_description_command (command_in (ret ()))
     (cmd_val CSWP_GET_SYSTEM_DESCRIPTION, ())"
  by (unfold message_defs, (rule transmitsI, (rule wire_rules)+, (rule unwire_rules)+)+)

lemma transmits_client_info_command:
  assumes "string_fits n s"
  shows "transmits (cswp_encode_client_info_command s) (command_in (cswp_decode_client_info_command_body n))
    (cmd_val CSWP_CLIENT_INFO, string_view s)"
  by (unfold message_defs, (rule transmitsI, (rule wire_rules assms)+, (rule unwire_rules assms)+)+)

lemma transmits_device_commands:
  assumes "varint_ok d"
  shows "transmits (cswp_encode_device_open_command d) (command_in cswp_decode_device_open_command_body)
      (cmd_val CSWP_DEVICE_OPEN, d)"
    and "transmits (cswp_encode_device_close_command d) (command_in cswp_decode_device_close_command_body)
      (cmd_val CSWP_DEVICE_CLOSE, d)"
    and "transmits (cswp_encode_get_device_capabilities_command d)
      (command_in cswp_decode_get_device_capabilities_command_body) (cmd_val CSWP_GET_DEVICE_CAPABILITIES, d)"
    and "transmits (cswp_encode_reg_list_command d) (command_in cswp_decode_reg_list_command_body)
      (cmd_val CSWP_REG_LIST, d)"
  by (unfold message_defs, (rule transmitsI, (rule wire_rules assms)+, (rule unwire_rules assms)+)+)

lemma transmits_config_commands:
  assumes "varint_ok d" and "string_fits m name" and "string_fits n val"
  shows "transmits (cswp_encode_set_config_command d name val)
      (command_in (cswp_decode_set_config_command_body m n))
      (cmd_val CSWP_SET_CONFIG, d, string_view name, string_view val)"
    and "transmits (cswp_encode_get_config_command d name)
      (command_in (cswp_decode_get_config_command_body m)) (cmd_val CSWP_GET_CONFIG, d, string_view name)"
  by (unfold message_defs, (rule transmitsI, (rule wire_rules assms)+, (rule unwire_rules assms)+)+)

lemma transmits_reg_write_command:
  assumes "varint_ok d" and "varint_ok n"
  shows "transmits (cswp_encode_reg_write_command d n) (command_in cswp_decode_reg_write_command_body)
      (cmd_val CSWP_REG_WRITE, d, n)"
  by (unfold message_defs, (rule transmitsI, (rule wire_rules assms)+, (rule unwire_rules assms)+)+)

lemma transmits_mem_read_command:
  assumes "varint_ok d" and "varint_ok n" and "varint_ok a" and "varint_ok f"
  shows "transmits (cswp_encode_mem_read_command d addr n a f) (command_in cswp_decode_mem_read_command_body)
      (cmd_val CSWP_MEM_READ, d, addr, n, a, f)"
  by (unfold message_defs, (rule transmitsI, (rule wire_rules assms)+, (rule unwire_rules assms)+)+)

text \<open>The memory commands carry data the handlers take with \<open>cswp_buffer_get_direct\<close>.\<close>

definition mem_write_in :: "(CSWP_BUFFER, (64 word \<times> 64 word \<times> 64 word \<times> 64 word \<times> 64 word) \<times> byte list) prog" where
  "mem_write_in = cswp_check cswp_decode_mem_write_command_body (\<lambda>c.
     cswp_check (cswp_buffer_get_direct (fst (snd (snd c)))) (\<lambda>data. ret (c, data)))"

lemma transmits_mem_write_command:
  assumes "varint_ok d" and "varint_ok n" and "varint_ok a" and "varint_ok f" and "unat n = length data"
  shows "transmits (cswp_encode_mem_write_command d addr n a f data) (command_in mem_write_in)
      (cmd_val CSWP_MEM_WRITE, (d, addr, n, a, f), data)"
proof -
  have data: "emits (cswp_buffer_put_data data n) data" "reads (cswp_buffer_get_direct n) data data"
    using emits_put_data [of n data] assms(5) by (simp_all add: reads_get_direct)
  show ?thesis
    by (unfold mem_write_in_def fst_conv snd_conv message_defs, (rule transmitsI, (rule data emits_check wire_rules assms)+, (rule data unwire_rules assms)+)+)
qed

definition mem_poll_in :: "(CSWP_BUFFER,
    (64 word \<times> 64 word \<times> 64 word \<times> 64 word \<times> 64 word \<times> 64 word \<times> 64 word) \<times> byte list \<times> byte list) prog" where
  "mem_poll_in = cswp_check cswp_decode_mem_poll_command_body (\<lambda>c.
     cswp_check (cswp_buffer_get_direct (fst (snd (snd c)))) (\<lambda>mask_p.
     cswp_check (cswp_buffer_get_direct (fst (snd (snd c)))) (\<lambda>val_p. ret (c, mask_p, val_p))))"

lemma transmits_mem_poll_command:
  assumes "varint_ok d" and "varint_ok n" and "varint_ok a" and "varint_ok f" and "varint_ok t"
    and "varint_ok i" and "unat n = length m" and "unat n = length v"
  shows "transmits (cswp_encode_mem_poll_command d addr n a f t i m v) (command_in mem_poll_in)
      (cmd_val CSWP_MEM_POLL, (d, addr, n, a, f, t, i), m, v)"
proof -
  have data: "emits (cswp_buffer_put_data m n) m" "reads (cswp_buffer_get_direct n) m m"
    "emits (cswp_buffer_put_data v n) v" "reads (cswp_buffer_get_direct n) v v"
    using emits_put_data [of n m] emits_put_data [of n v] assms(7,8) by (simp_all add: reads_get_direct)
  show ?thesis
    by (unfold mem_poll_in_def fst_conv snd_conv message_defs, (rule transmitsI, (rule data emits_check wire_rules assms)+, (rule data unwire_rules assms)+)+)
qed

subsection \<open>Commands with a list\<close>

text \<open>The server takes the items one by one after the body.\<close>

definition set_devices_in :: "size_t \<Rightarrow> size_t \<Rightarrow> (CSWP_BUFFER, (byte list \<times> byte list) list) prog" where
  "set_devices_in m n = cswp_check cswp_decode_set_devices_command_body (\<lambda>count.
     c_map 0 (unat count) (\<lambda>_. cswp_check (cswp_buffer_get_string m) (\<lambda>name.
       cswp_check (cswp_buffer_get_string n) (\<lambda>type. ret (name, type)))))"

lemma emits_device_list:
  assumes "length types = length names" and "length names < 2 ^ 31"
    and "\<And>s. s \<in> set names \<Longrightarrow> string_fits m s" and "\<And>s. s \<in> set types \<Longrightarrow> string_fits n s"
  shows "emits (c_for_int (length names) (\<lambda>i.
       cswp_check (nth_p (Some names) i) (\<lambda>name.
       cswp_check (cswp_buffer_put_string name) (\<lambda>_.
       cswp_check (nth_p (Some types) i) (\<lambda>type.
       cswp_buffer_put_string type)))))
     (concat (map (\<lambda>(x, y). string_enc x @ string_enc y) (zip names types)))"
proof (rule emits_for_int)
  fix i assume "i < length names"
  then show "emits (cswp_check (nth_p (Some names) i) (\<lambda>name.
       cswp_check (cswp_buffer_put_string name) (\<lambda>_.
       cswp_check (nth_p (Some types) i) (\<lambda>type. cswp_buffer_put_string type))))
     (case zip names types ! i of (x, y) \<Rightarrow> string_enc x @ string_enc y)"
    using assms by (simp add: nth_p_Some del: ret_apply)
      (rule emits_check [OF emits_put_string_fits [of m] emits_put_string_fits [of n]]; simp)
qed (use assms in simp_all)

lemma reads_device_list:
  assumes "length types = length names" and "length names < 2 ^ 31"
    and "\<And>s. s \<in> set names \<Longrightarrow> string_fits m s" and "\<And>s. s \<in> set types \<Longrightarrow> string_fits n s"
  shows "reads (c_map 0 (unat (of_nat (length names) :: 64 word))
       (\<lambda>_. cswp_check (cswp_buffer_get_string m) (\<lambda>name.
       cswp_check (cswp_buffer_get_string n) (\<lambda>type. ret (name, type)))))
     (concat (map (\<lambda>(x, y). string_enc x @ string_enc y) (zip names types)))
     (zip (map string_view names) (map string_view types))"
proof -
  have n: "unat (of_nat (length names) :: 64 word) = length names"
    using assms(2) by (simp add: unat_of_nat_small)
  show ?thesis unfolding n
    using str2.pair.reads_array [where xs = "zip names types" and i = 0 and m = m and n = n]
      assms by (auto simp: zip_map_map dest: set_zip_leftD set_zip_rightD)
qed

lemma transmits_set_devices_command:
  assumes len: "length types = length names" and small: "length names < 2 ^ 31"
    and fits: "\<And>s. s \<in> set names \<Longrightarrow> string_fits m s" "\<And>s. s \<in> set types \<Longrightarrow> string_fits n s"
  shows "transmits (cswp_encode_set_devices_command (of_nat (length names)) (Some names) (Some types))
      (command_in (set_devices_in m n))
      (cmd_val CSWP_SET_DEVICES, zip (map string_view names) (map string_view types))"
proof -
  have n: "unat (of_nat (length names) :: 64 word) = length names" using small by (simp add: unat_of_nat_small)
  note list = emits_device_list [OF len small fits] reads_device_list [OF len small fits] varint_ok_of_nat [OF small]
  show ?thesis
    by (unfold set_devices_in_def message_defs n, rule transmitsI,
        (assumption | rule list emits_check wire_rules)+, (assumption | rule list unwire_rules)+)
qed

definition reg_read_in :: "(CSWP_BUFFER, 64 word \<times> 64 word list) prog" where
  "reg_read_in = cswp_check cswp_decode_reg_read_command_body (\<lambda>c.
     cswp_check (c_map 0 (unat (snd c)) (\<lambda>_. cswp_buffer_get_varint)) (\<lambda>ids. ret (fst c, ids)))"

lemma transmits_reg_read_command:
  assumes "varint_ok d" and small: "length ids < 2 ^ 31" and ids: "\<And>r. r \<in> set ids \<Longrightarrow> varint_ok r"
  shows "transmits (cswp_encode_reg_read_command d (of_nat (length ids)) (Some ids))
      (command_in reg_read_in) (cmd_val CSWP_REG_READ, d, ids)"
proof -
  have n: "unat (of_nat (length ids) :: 64 word) = length ids" using small by (simp add: unat_of_nat_small)
  have bytes: "reads (c_map 0 (unat (of_nat (length ids) :: 64 word)) (\<lambda>_. cswp_buffer_get_varint))
      (concat (map varint_enc ids)) ids"
    unfolding n using vint.reads_array [of ids 0] ids by simp
  note list = vint.emits_array [of ids, OF ids refl small] bytes varint_ok_of_nat [OF small] assms(1)
  show ?thesis
    by (unfold reg_read_in_def message_defs n fst_conv snd_conv, rule transmitsI,
        (assumption | rule list emits_check wire_rules)+, (assumption | rule list unwire_rules)+)
qed

subsection \<open>Responses: server to client\<close>

text \<open>A string destination that is not \<open>NULL\<close> and not empty gets the string.\<close>

lemma reads_get_optional_string:
  assumes "string_fits n s"
  shows "reads (cswp_get_optional_string False n) (string_enc s) (Some (string_view s))"
proof -
  have "n \<noteq> 0" using assms by (auto simp: string_fits_def split: option.splits)
  then show ?thesis
    unfolding cswp_get_optional_string_def
    by (simp add: reads_check_ret [OF reads_get_string_fits [OF assms]] del: ret_apply)
qed

text \<open>An absent destination: the string is skipped, provided it is there.\<close>

lemma skip_optional_string:
  assumes "string_fits n s" and b: "buf_ok b" and u: "unread b = string_enc s @ zs"
    and null: "m = 0 \<or> p"
  shows "cswp_get_optional_string p m b = Done None (adv (length (string_enc s)) b)"
proof -
  obtain t where t: "s = Some t" "length t < 2 ^ 31"
    using assms(1) by (auto simp: string_fits_def split: option.splits)
  let ?n = "of_nat (length (cstr t)) :: size_t"
  have small: "length (cstr t) < 2 ^ 31" using t(2) length_cstr_le [of t] by linarith
  have "unread b = varint_enc ?n @ (cstr t @ zs)" using u by (simp add: t(1) string_enc_def)
  from reads_Done [OF reads_get_varint [OF varint_ok_of_nat [OF small]] b this]
  show ?thesis using null
    by (auto simp: cswp_get_optional_string_def cswp_buffer_skip_def t(1) string_enc_def adv_def ac_simps)
qed

lemma transmits_error_response:
  assumes "varint_ok e" and "string_fits n s"
  shows "transmits (cswp_encode_error_response (cmd_val c) e s)
    (response_in (cswp_decode_error_response_body n)) ((cmd_val c, e), string_view s)"
  by (unfold message_defs, (rule transmitsI, (rule wire_rules assms)+, (rule unwire_rules assms)+)+)

lemma transmits_init_response:
  assumes "varint_ok p" and "string_fits n s" and "varint_ok v"
  shows "transmits (cswp_encode_init_response p s v)
    (response_in (cswp_decode_init_response_body False n))
    ((cmd_val CSWP_INIT, 0), p, Some (string_view s), v)"
  by (unfold message_defs, (rule transmitsI, (rule wire_rules assms)+,
        (rule reads_check unwire_rules reads_get_optional_string assms)+)+)

lemma transmits_bare_responses:
  "transmits cswp_encode_term_response (response_in (ret ())) ((cmd_val CSWP_TERM, 0), ())"
  "transmits cswp_encode_client_info_response (response_in (ret ())) ((cmd_val CSWP_CLIENT_INFO, 0), ())"
  "transmits cswp_encode_set_devices_response (response_in (ret ())) ((cmd_val CSWP_SET_DEVICES, 0), ())"
  "transmits cswp_encode_device_close_response (response_in (ret ())) ((cmd_val CSWP_DEVICE_CLOSE, 0), ())"
  "transmits cswp_encode_set_config_response (response_in (ret ())) ((cmd_val CSWP_SET_CONFIG, 0), ())"
  "transmits cswp_encode_reg_write_response (response_in (ret ())) ((cmd_val CSWP_REG_WRITE, 0), ())"
  "transmits cswp_encode_mem_write_response (response_in (ret ())) ((cmd_val CSWP_MEM_WRITE, 0), ())"
  by (unfold message_defs, (rule transmitsI, (rule wire_rules)+, (rule unwire_rules)+)+)

lemma transmits_string_responses:
  assumes "string_fits n s"
  shows "transmits (cswp_encode_device_open_response s)
      (response_in (cswp_decode_device_open_response_body False n))
      ((cmd_val CSWP_DEVICE_OPEN, 0), Some (string_view s))"
    and "transmits (cswp_encode_get_config_response s)
      (response_in (cswp_decode_get_config_response_body n)) ((cmd_val CSWP_GET_CONFIG, 0), string_view s)"
  by (unfold message_defs, (rule transmitsI, (rule wire_rules assms)+,
        (rule unwire_rules reads_get_optional_string assms)+)+)

lemma transmits_capabilities_response:
  assumes "varint_ok c" and "varint_ok d"
  shows "transmits (cswp_encode_get_device_capabilities_response c d)
      (response_in cswp_decode_get_device_capabilities_response_body)
      ((cmd_val CSWP_GET_DEVICE_CAPABILITIES, 0), c, d)"
  by (unfold message_defs, (rule transmitsI, (rule wire_rules assms)+, (rule unwire_rules assms)+)+)

text \<open>The client cuts the system description to the size of its own buffer.\<close>

lemma transmits_system_description_response:
  assumes "varint_ok f" and "varint_ok n" and "unat n = length data" and "n \<le> sz"
  shows "transmits (cswp_encode_get_system_description_response f n data)
      (response_in (cswp_decode_get_system_description_response_body sz))
      ((cmd_val CSWP_GET_SYSTEM_DESCRIPTION, 0), f, n, data)"
proof -
  have data: "emits (cswp_buffer_put_data data n) data" "reads (cswp_buffer_get_data n) data data"
    using emits_put_data [of n data] assms(3) by (simp_all add: reads_get_data)
  have cut: "(if sz < n then sz else n) = n" using assms(4) by (auto dest: leD)
  have body: "reads (cswp_decode_get_system_description_response_body sz)
      (varint_enc f @ varint_enc n @ data) (f, n, data)"
    unfolding cswp_decode_get_system_description_response_body_def Let_def
    by (rule reads_check [OF reads_get_varint [OF assms(1)]], rule reads_check [OF reads_get_varint [OF assms(2)]])
      (simp only: cut, rule reads_check_ret [OF data(2) refl])
  have "emits (cswp_encode_get_system_description_response f n data)
      ((varint_enc (cmd_val CSWP_GET_SYSTEM_DESCRIPTION) @ varint_enc 0) @ varint_enc f @ varint_enc n @ data)"
    unfolding message_defs append_assoc by (rule data emits_check wire_rules)+
  then show ?thesis
    by (rule transmitsI) (rule reads_response_in [OF varint_ok_cmd varint_ok_0 body])
qed

text \<open>Memory responses: the client takes \<open>count\<close> bytes with \<open>cswp_buffer_get_direct\<close>.\<close>

definition counted_data_in :: "(CSWP_BUFFER, 64 word) prog \<Rightarrow> (CSWP_BUFFER, byte list) prog" where
  "counted_data_in body = cswp_check body (\<lambda>count. cswp_buffer_get_direct count)"

lemma transmits_mem_responses:
  assumes "varint_ok n" and "unat n = length data"
  shows "transmits (cswp_encode_mem_read_response n data)
      (response_in (counted_data_in cswp_decode_mem_read_response_body)) ((cmd_val CSWP_MEM_READ, 0), data)"
    and "transmits (cswp_encode_mem_poll_response n data)
      (response_in (counted_data_in cswp_decode_mem_poll_response_body)) ((cmd_val CSWP_MEM_POLL, 0), data)"
proof -
  have data: "emits (cswp_buffer_put_data data n) data" "reads (cswp_buffer_get_direct n) data data"
    using emits_put_data [of n data] assms(2) by (simp_all add: reads_get_direct)
  show "transmits (cswp_encode_mem_read_response n data)
      (response_in (counted_data_in cswp_decode_mem_read_response_body)) ((cmd_val CSWP_MEM_READ, 0), data)"
    and "transmits (cswp_encode_mem_poll_response n data)
      (response_in (counted_data_in cswp_decode_mem_poll_response_body)) ((cmd_val CSWP_MEM_POLL, 0), data)"
    by (unfold counted_data_in_def message_defs, (rule transmitsI, (rule data emits_check wire_rules assms)+,
          (rule data unwire_rules assms)+)+)
qed

text \<open>Register values: the client reads \<open>count\<close> words.\<close>

definition reg_values_in :: "(CSWP_BUFFER, c_uint list) prog" where
  "reg_values_in = cswp_check cswp_decode_reg_read_response_body (\<lambda>count.
     c_map 0 (unat count) (\<lambda>_. cswp_buffer_get_uint32))"

lemma nth_p_eq_nth_c: "nth_p (Some xs) = nth_c xs"
  by (rule ext) (simp add: nth_p_def)

lemma transmits_reg_read_response:
  assumes small: "length vs < 2 ^ 31"
  shows "transmits (cswp_encode_reg_read_response (of_nat (length vs)) vs) (response_in reg_values_in)
    ((cmd_val CSWP_REG_READ, 0), vs)"
proof -
  have n: "unat (of_nat (length vs) :: 64 word) = length vs" using small by (simp add: unat_of_nat_small)
  have bytes: "reads (c_map 0 (unat (of_nat (length vs) :: 64 word)) (\<lambda>_. cswp_buffer_get_uint32))
      (concat (map (le_bytes 4) vs)) vs"
    unfolding n using u32.reads_array [of vs 0] by simp
  note list = u32.emits_array [of vs, OF TrueI refl small, unfolded nth_p_eq_nth_c] bytes
    varint_ok_of_nat [OF small]
  show ?thesis
    by (unfold reg_values_in_def message_defs n, rule transmitsI,
        (assumption | rule list emits_check wire_rules)+, (assumption | rule list unwire_rules)+)
qed

lemma transmits_reg_list_response:
  assumes "varint_ok n"
  shows "transmits (cswp_encode_reg_list_response n) (response_in cswp_decode_reg_list_response_body)
    ((cmd_val CSWP_REG_LIST, 0), n)"
  by (unfold message_defs, (rule transmitsI, (rule wire_rules assms)+, (rule unwire_rules assms)+)+)

lemma transmits_reg_info:
  assumes "varint_ok r" and "varint_ok n" and "string_fits a name" and "string_fits b disp"
    and "string_fits c descr"
  shows "transmits (cswp_encode_reg_info r name n disp descr) (cswp_decode_reg_info a b c)
    (r, string_view name, n, string_view disp, string_view descr)"
proof -
  note strings = emits_put_string_fits [OF assms(3)] emits_put_string_fits [OF assms(4)]
    emits_put_string_fits [OF assms(5)]
  show ?thesis
    by (unfold message_defs, (rule transmitsI, (rule strings wire_rules)+, (rule unwire_rules assms)+)+)
qed

lemma transmits_async_message:
  assumes "varint_ok e" and "varint_ok d" and "varint_ok l" and "string_fits n s"
  shows "transmits (cswp_encode_async_message e d l s) (response_in (cswp_decode_async_message_body n))
    ((cmd_val CSWP_ASYNC_MESSAGE, e), d, l, string_view s)"
  by (unfold message_defs, (rule transmitsI, (rule wire_rules assms)+, (rule unwire_rules assms)+)+)

text \<open>The device list response is the command's list under another header.\<close>

definition get_devices_in :: "size_t \<Rightarrow> size_t \<Rightarrow> (CSWP_BUFFER, (byte list \<times> byte list) list) prog" where
  "get_devices_in m n = cswp_check cswp_decode_get_devices_response_body (\<lambda>count.
     c_map 0 (unat count) (\<lambda>_. cswp_check (cswp_buffer_get_string m) (\<lambda>name.
       cswp_check (cswp_buffer_get_string n) (\<lambda>type. ret (name, type)))))"

lemma transmits_get_devices_response:
  assumes len: "length types = length names" and small: "length names < 2 ^ 31"
    and fits: "\<And>s. s \<in> set names \<Longrightarrow> string_fits m s" "\<And>s. s \<in> set types \<Longrightarrow> string_fits n s"
  shows "transmits (cswp_encode_get_devices_response (of_nat (length names)) (Some names) (Some types))
      (response_in (get_devices_in m n))
      ((cmd_val CSWP_GET_DEVICES, 0), zip (map string_view names) (map string_view types))"
proof -
  have n: "unat (of_nat (length names) :: 64 word) = length names" using small by (simp add: unat_of_nat_small)
  note list = emits_device_list [OF len small fits] reads_device_list [OF len small fits] varint_ok_of_nat [OF small]
  show ?thesis
    by (unfold get_devices_in_def message_defs n, rule transmitsI,
        (assumption | rule list emits_check wire_rules)+, (assumption | rule list unwire_rules)+)
qed

end
