(* ===== verification/Wire_Properties.thy ===== *)
theory Wire_Properties
  imports Command_Codec
begin

text \<open>
  The properties of the message buffer: what the primitive encoders and decoders of
  \<^verbatim>\<open>cswp_buffer.c\<close> guarantee on the bytes that travel between the client and the server. Each
  property is followed by a witness at concrete buffers.
\<close>

text \<open>The buffers of the witnesses: an empty one with \<open>n\<close> bytes of room, and one that has received
  the bytes \<open>bs\<close>.\<close>

definition empty_buffer :: "nat \<Rightarrow> CSWP_BUFFER" where
  "empty_buffer n = \<lparr>bsize = of_nat n, bused = 0, bpos = 0, bdata = replicate n 0\<rparr>"

definition received_buffer :: "byte list \<Rightarrow> CSWP_BUFFER" where
  "received_buffer bs = \<lparr>bsize = of_nat (length bs), bused = of_nat (length bs), bpos = 0, bdata = bs\<rparr>"

lemma empty_buffer_at_end: "n < 2 ^ 64 \<Longrightarrow> at_end (empty_buffer n)"
  by (simp add: at_end_def buf_ok_def empty_buffer_def unat_of_nat_small)

lemma received_buffer_ok: "length bs < 2 ^ 64 \<Longrightarrow> buf_ok (received_buffer bs)"
  by (simp add: buf_ok_def received_buffer_def unat_of_nat_small)

lemma unread_received_buffer: "length bs < 2 ^ 64 \<Longrightarrow> unread (received_buffer bs) = bs"
  by (simp add: unread_def written_def received_buffer_def unat_of_nat_small)

lemma emits_written:
  assumes "emits put bs" and "at_end b" and "put b = Done () b'"
  shows "written b' = written b @ bs"
  using assms by (metis emits_Done emits_Fail outcome.distinct(1) outcome.inject(1))

lemma check_require_w_full:
  assumes "at_end b" and "unat (bused b) + unat n > unat (bsize b)"
  shows "cswp_check (require_w n) f b = Fail (res_val CSWP_BUFFER_FULL) b"
proof -
  have "bused b \<le> bsize b" using assms(1) by (simp add: at_end_def buf_ok_def)
  then have "bsize b - bused b < n"
    using assms(2) by (simp add: unat_diff_less_iff word_le_nat_alt less_diff_conv2 less_diff_conv)
  then show ?thesis by (simp add: cswp_check_def require_w_def)
qed

lemma written_empty [simp]: "written (empty_buffer n) = []"
  by (simp add: written_def empty_buffer_def)

lemma emits_empty:
  assumes "emits put bs" and "length bs \<le> n" and "n < 2 ^ 64"
  shows "\<exists>b'. put (empty_buffer n) = Done () b' \<and> at_end b' \<and> written b' = bs"
proof -
  have "unat (bused (empty_buffer n)) + length bs \<le> unat (bsize (empty_buffer n))"
    using assms(2,3) by (simp add: empty_buffer_def unat_of_nat_small)
  from emits_Done [OF assms(1) empty_buffer_at_end [OF assms(3)] this] show ?thesis by auto
qed

subsection \<open>Values\<close>

text \<open>C8: a varint below \<open>2\<^sup>3\<^sup>5\<close> that the encoder has appended is decoded to its low 32 bits, sign
  extended; below \<open>2\<^sup>3\<^sup>1\<close> that is the value itself. The encoder reports a full buffer and
  the decoder missing bytes.\<close>

theorem varint_transmitted:
  assumes "unat w < 2 ^ 35"
  shows "transmits (cswp_buffer_put_varint w) cswp_buffer_get_varint (scast (ucast w :: c_int))
    \<and> (w < 0x80000000 \<longrightarrow> scast (ucast w :: c_int) = w)"
  using vwire.transmits_ok [of w] varint_wire_small [of w] assms
  by (simp add: varint_wire_def varint_ok_def)

theorem varint_transmitted_witness:
  "transmits (cswp_buffer_put_varint 0x90000000) cswp_buffer_get_varint (- 0x70000000)"
  using varint_transmitted [of "0x90000000"] by simp

text \<open>A varint of \<open>2\<^sup>3\<^sup>5\<close> or more is accepted by the encoder, and the decoder then shifts an
  \<open>int\<close> by 35 bits, which is undefined.\<close>

theorem varint_overlong_undefined:
  assumes "2 ^ 35 \<le> unat w" and "at_end b" and "cswp_buffer_put_varint w b = Done () b'"
    and "buf_ok r" and "unread r = drop (length (written b)) (written b') @ zs"
  shows "cswp_buffer_get_varint r = Undef BadShift"
proof -
  have "written b' = written b @ varint_enc w"
    using emits_written [OF emits_put_varint assms(2,3)] .
  then show ?thesis
    using assms by (simp add: get_varint_parse varint_parse_overlong)
qed

theorem varint_overlong_undefined_witness:
  "cswp_buffer_get_varint (received_buffer [0x80, 0x80, 0x80, 0x80, 0x80, 0x01]) = Undef BadShift"
proof -
  let ?bs = "[0x80, 0x80, 0x80, 0x80, 0x80, 0x01] :: byte list"
  have e: "varint_enc 0x800000000 = ?bs" by code_simp
  obtain b' where b': "cswp_buffer_put_varint 0x800000000 (empty_buffer 6) = Done () b'" "written b' = ?bs"
    using emits_empty [OF emits_put_varint [of "0x800000000", unfolded e], of 6] by auto
  show ?thesis
    by (rule varint_overlong_undefined [OF _ empty_buffer_at_end b'(1)  received_buffer_ok, where zs = "[]"])
      (simp_all add: b'(2) unread_received_buffer)
qed

text \<open>C9: bytes, 32-bit and 64-bit words, strings and raw data sent by one side are what the other
  side reads; a string needs room for its terminator in the destination.\<close>

theorem values_transmitted:
  assumes "s = Some t" and "length t < 2 ^ 31" and "length (cstr t) < unat m" and "unat n = length d"
  shows "transmits (cswp_buffer_put_uint8 v8) cswp_buffer_get_uint8 v8
    \<and> transmits (cswp_buffer_put_uint32 v32) cswp_buffer_get_uint32 v32
    \<and> transmits (cswp_buffer_put_uint64 v64) cswp_buffer_get_uint64 v64
    \<and> transmits (cswp_buffer_put_string s) (cswp_buffer_get_string m) (cstr t)
    \<and> transmits (cswp_buffer_put_data d n) (cswp_buffer_get_data n) d
    \<and> transmits (cswp_buffer_put_data d n) (cswp_buffer_get_direct n) d"
  using str.transmits_ok [of m s] raw.transmits_ok [of n d] direct.transmits_ok [of n d]
    u8.transmits_ok u32.transmits_ok u64.transmits_ok assms
  by (simp add: string_fits_def)

theorem values_transmitted_witness:
  "transmits (cswp_buffer_put_string (Some [104, 105])) (cswp_buffer_get_string 3) [104, 105]"
  using values_transmitted [of "Some [104, 105]" "[104, 105]" 3 1 "[7]" 1 2 3] by (simp add: cstr_def)

text \<open>An integer or a block of data that does not fit leaves the buffer exactly as it was.\<close>

theorem put_full_unchanged:
  assumes "at_end b"
  shows "(unat (bused b) + 1 > unat (bsize b)
        \<longrightarrow> cswp_buffer_put_uint8 v8 b = Fail (res_val CSWP_BUFFER_FULL) b)
    \<and> (unat (bused b) + 4 > unat (bsize b)
        \<longrightarrow> cswp_buffer_put_uint32 v32 b = Fail (res_val CSWP_BUFFER_FULL) b)
    \<and> (unat (bused b) + 8 > unat (bsize b)
        \<longrightarrow> cswp_buffer_put_uint64 v64 b = Fail (res_val CSWP_BUFFER_FULL) b)
    \<and> (unat (bused b) + length (varint_enc w) > unat (bsize b)
        \<longrightarrow> cswp_buffer_put_varint w b = Fail (res_val CSWP_BUFFER_FULL) b)
    \<and> (unat (bused b) + unat n > unat (bsize b)
        \<longrightarrow> cswp_buffer_put_data d n b = Fail (res_val CSWP_BUFFER_FULL) b)"
  unfolding cswp_buffer_put_uint8_def cswp_buffer_put_uint32_def cswp_buffer_put_uint64_def
    cswp_buffer_put_varint_def cswp_buffer_put_data_def
  by (simp add: check_require_w_full [OF assms] unat_varint_rq)

theorem put_full_unchanged_witness:
  "cswp_buffer_put_uint32 7 (empty_buffer 3) = Fail (res_val CSWP_BUFFER_FULL) (empty_buffer 3)"
  using put_full_unchanged [OF empty_buffer_at_end [of 3]] by (simp add: empty_buffer_def)

text \<open>A string that does not fit can leave its length in the buffer: the call fails, and the
  bytes that remain are those of a string whose characters never follow.\<close>

theorem put_string_full_leaves_length:
  assumes "at_end b" and "length s < 2 ^ 64" and "0 \<notin> set s"
    and "unat (bused b) + length (varint_enc (of_nat (length s))) \<le> unat (bsize b)"
    and "unat (bused b) + length (varint_enc (of_nat (length s))) + length s > unat (bsize b)"
  shows "\<exists>b'. cswp_buffer_put_string (Some s) b = Fail (res_val CSWP_BUFFER_FULL) b'
    \<and> written b' = written b @ varint_enc (of_nat (length s))"
proof -
  let ?n = "of_nat (length s) :: size_t"
  have n: "unat ?n = length s" using assms(2) by (rule unat_of_nat_small)
  obtain b' where b': "cswp_buffer_put_varint ?n b = Done () b'" "at_end b'" "bsize b' = bsize b"
      "written b' = written b @ varint_enc ?n"
    using emits_Done [OF emits_put_varint assms(1,4)] .
  have "unat (bused b') = unat (bused b) + length (varint_enc ?n)"
    using b'(2,4) assms(1) by (metis at_end_ok length_append length_written)
  then show ?thesis
    using assms(5) b' n
    by (simp add: cswp_buffer_put_string_def cstr_id [OF assms(3)] Let_def check_require_w_full)
qed

theorem put_string_full_leaves_length_witness:
  "\<exists>b'. cswp_buffer_put_string (Some [65, 66, 67]) (empty_buffer 2) = Fail (res_val CSWP_BUFFER_FULL) b'
    \<and> written b' = [3]"
  using put_string_full_leaves_length [OF empty_buffer_at_end [of 2], of "[65, 66, 67]"]
  by (simp add: empty_buffer_def written_def varint_enc.simps)

end
