(* ===== verification/Messages.thy ===== *)
theory Messages
  imports Command_Codec
begin

text \<open>
  The messages of the protocol as values. \<open>command\<close> and \<open>reply\<close> are what the two sides mean;
  \<open>command_bytes\<close> and \<open>reply_bytes\<close> are the bytes the encoders produce for them. The client's
  encoder of every command emits \<open>command_bytes\<close>, and the server's encoder of every reply emits
  \<open>reply_bytes\<close>. The abstract server and the abstract client speak in these values.
\<close>

subsection \<open>Commands\<close>

datatype command =
    Init "64 word" "byte list"
  | Term
  | Client_info "byte list"
  | Set_devices "(byte list \<times> byte list) list"
  | Get_devices
  | Get_system_description
  | Device_open "64 word"
  | Device_close "64 word"
  | Set_config "64 word" "byte list" "byte list"
  | Get_config "64 word" "byte list"
  | Get_device_capabilities "64 word"
  | Reg_list "64 word"
  | Reg_read "64 word" "64 word list"
  | Reg_write "64 word" "(64 word \<times> c_uint) list"
  | Mem_read "64 word" "64 word" "64 word" "64 word" "64 word"
  | Mem_write "64 word" "64 word" "64 word" "64 word" "byte list"
  | Mem_poll "64 word" "64 word" "64 word" "64 word" "64 word" "64 word" "byte list" "byte list"

fun command_type :: "command \<Rightarrow> cswp_commands_t" where
  "command_type (Init v i) = CSWP_INIT"
| "command_type Term = CSWP_TERM"
| "command_type (Client_info m) = CSWP_CLIENT_INFO"
| "command_type (Set_devices ds) = CSWP_SET_DEVICES"
| "command_type Get_devices = CSWP_GET_DEVICES"
| "command_type Get_system_description = CSWP_GET_SYSTEM_DESCRIPTION"
| "command_type (Device_open d) = CSWP_DEVICE_OPEN"
| "command_type (Device_close d) = CSWP_DEVICE_CLOSE"
| "command_type (Set_config d n v) = CSWP_SET_CONFIG"
| "command_type (Get_config d n) = CSWP_GET_CONFIG"
| "command_type (Get_device_capabilities d) = CSWP_GET_DEVICE_CAPABILITIES"
| "command_type (Reg_list d) = CSWP_REG_LIST"
| "command_type (Reg_read d rs) = CSWP_REG_READ"
| "command_type (Reg_write d rvs) = CSWP_REG_WRITE"
| "command_type (Mem_read d addr n a f) = CSWP_MEM_READ"
| "command_type (Mem_write d addr a f data) = CSWP_MEM_WRITE"
| "command_type (Mem_poll d addr a f t i m v) = CSWP_MEM_POLL"

definition str_bytes :: "byte list \<Rightarrow> byte list" where
  "str_bytes s = varint_enc (of_nat (length s)) @ s"

definition data_bytes :: "byte list \<Rightarrow> byte list" where
  "data_bytes d = varint_enc (of_nat (length d)) @ d"

definition list_bytes :: "('a \<Rightarrow> byte list) \<Rightarrow> 'a list \<Rightarrow> byte list" where
  "list_bytes f xs = varint_enc (of_nat (length xs)) @ concat (map f xs)"

fun body_bytes :: "command \<Rightarrow> byte list" where
  "body_bytes (Init v i) = varint_enc v @ str_bytes i"
| "body_bytes (Client_info m) = str_bytes m"
| "body_bytes (Set_devices ds) = list_bytes (\<lambda>(n, t). str_bytes n @ str_bytes t) ds"
| "body_bytes (Device_open d) = varint_enc d"
| "body_bytes (Device_close d) = varint_enc d"
| "body_bytes (Set_config d n v) = varint_enc d @ str_bytes n @ str_bytes v"
| "body_bytes (Get_config d n) = varint_enc d @ str_bytes n"
| "body_bytes (Get_device_capabilities d) = varint_enc d"
| "body_bytes (Reg_list d) = varint_enc d"
| "body_bytes (Reg_read d rs) = varint_enc d @ list_bytes varint_enc rs"
| "body_bytes (Reg_write d rvs) = varint_enc d @ list_bytes (\<lambda>(r, v). varint_enc r @ le_bytes 4 v) rvs"
| "body_bytes (Mem_read d addr n a f) =
     varint_enc d @ le_bytes 8 addr @ varint_enc n @ varint_enc a @ varint_enc f"
| "body_bytes (Mem_write d addr a f data) =
     varint_enc d @ le_bytes 8 addr @ varint_enc (of_nat (length data)) @ varint_enc a @ varint_enc f @ data"
| "body_bytes (Mem_poll d addr a f t i m v) =
     varint_enc d @ le_bytes 8 addr @ varint_enc (of_nat (length m)) @ varint_enc a @ varint_enc f
       @ varint_enc t @ varint_enc i @ m @ v"
| "body_bytes _ = []"

definition command_bytes :: "command \<Rightarrow> byte list" where
  "command_bytes c = varint_enc (cmd_val (command_type c)) @ body_bytes c"

text \<open>The values both sides read alike: integers below \<open>2\<^sup>3\<^sup>1\<close>, strings without a zero byte that
  fit the server's local arrays.\<close>

definition str_ok :: "nat \<Rightarrow> byte list \<Rightarrow> bool" where
  "str_ok n s \<longleftrightarrow> 0 \<notin> set s \<and> length s < n"

definition count_ok :: "'a list \<Rightarrow> bool" where
  "count_ok xs \<longleftrightarrow> length xs < 2 ^ 31"

fun command_ok :: "command \<Rightarrow> bool" where
  "command_ok (Init v i) = (varint_ok v \<and> str_ok 256 i)"
| "command_ok (Client_info m) = str_ok 1024 m"
| "command_ok (Set_devices ds) = (count_ok ds \<and> (\<forall>(n, t) \<in> set ds. str_ok 256 n \<and> str_ok 256 t))"
| "command_ok (Device_open d) = varint_ok d"
| "command_ok (Device_close d) = varint_ok d"
| "command_ok (Set_config d n v) = (varint_ok d \<and> str_ok 256 n \<and> str_ok 256 v)"
| "command_ok (Get_config d n) = (varint_ok d \<and> str_ok 256 n)"
| "command_ok (Get_device_capabilities d) = varint_ok d"
| "command_ok (Reg_list d) = varint_ok d"
| "command_ok (Reg_read d rs) = (varint_ok d \<and> count_ok rs \<and> (\<forall>r \<in> set rs. varint_ok r))"
| "command_ok (Reg_write d rvs) = (varint_ok d \<and> count_ok rvs \<and> (\<forall>(r, v) \<in> set rvs. varint_ok r))"
| "command_ok (Mem_read d addr n a f) = (varint_ok d \<and> varint_ok n \<and> varint_ok a \<and> varint_ok f)"
| "command_ok (Mem_write d addr a f data) = (varint_ok d \<and> varint_ok a \<and> varint_ok f \<and> count_ok data)"
| "command_ok (Mem_poll d addr a f t i m v) = (varint_ok d \<and> varint_ok a \<and> varint_ok f \<and> varint_ok t
     \<and> varint_ok i \<and> count_ok m \<and> length v = length m)"
| "command_ok _ = True"

text \<open>The client's encoder of each command. The pairs of a register write are appended by the
  caller of the encoder.\<close>

fun encode_command :: "command \<Rightarrow> (CSWP_BUFFER, unit) prog" where
  "encode_command (Init v i) = cswp_encode_init_command v (Some i)"
| "encode_command Term = cswp_encode_term_command"
| "encode_command (Client_info m) = cswp_encode_client_info_command (Some m)"
| "encode_command (Set_devices ds) = cswp_encode_set_devices_command (of_nat (length ds))
     (Some (map (\<lambda>d. Some (fst d)) ds)) (Some (map (\<lambda>d. Some (snd d)) ds))"
| "encode_command Get_devices = cswp_encode_get_devices_command"
| "encode_command Get_system_description = cswp_encode_get_system_description_command"
| "encode_command (Device_open d) = cswp_encode_device_open_command d"
| "encode_command (Device_close d) = cswp_encode_device_close_command d"
| "encode_command (Set_config d n v) = cswp_encode_set_config_command d (Some n) (Some v)"
| "encode_command (Get_config d n) = cswp_encode_get_config_command d (Some n)"
| "encode_command (Get_device_capabilities d) = cswp_encode_get_device_capabilities_command d"
| "encode_command (Reg_list d) = cswp_encode_reg_list_command d"
| "encode_command (Reg_read d rs) = cswp_encode_reg_read_command d (of_nat (length rs)) (Some rs)"
| "encode_command (Reg_write d rvs) =
     cswp_check (cswp_encode_reg_write_command d (of_nat (length rvs))) (\<lambda>_.
     c_for_int (length rvs) (\<lambda>i.
       cswp_check (cswp_buffer_put_varint (fst (rvs ! i))) (\<lambda>_.
       cswp_buffer_put_uint32 (snd (rvs ! i)))))"
| "encode_command (Mem_read d addr n a f) = cswp_encode_mem_read_command d addr n a f"
| "encode_command (Mem_write d addr a f data) =
     cswp_encode_mem_write_command d addr (of_nat (length data)) a f data"
| "encode_command (Mem_poll d addr a f t i m v) =
     cswp_encode_mem_poll_command d addr (of_nat (length m)) a f t i m v"

lemma string_enc_str: "0 \<notin> set s \<Longrightarrow> string_enc (Some s) = str_bytes s"
  by (simp add: string_enc_def str_bytes_def cstr_id)

lemma emits_put_str:
  "str_ok n s \<Longrightarrow> n \<le> 2 ^ 31 \<Longrightarrow> emits (cswp_buffer_put_string (Some s)) (str_bytes s)"
  using emits_put_string [of s] by (simp add: str_ok_def string_enc_str)

lemma reads_get_str:
  assumes "str_ok (unat n) s" and "n \<le> 0x80000000"
  shows "reads (cswp_buffer_get_string n) (str_bytes s) s"
proof -
  have "unat n \<le> 2 ^ 31" using assms(2) by (simp add: word_le_nat_alt)
  then show ?thesis
    using reads_get_string [of s n] assms(1) by (simp add: str_ok_def string_enc_str cstr_id)
qed

lemma unat_count: "count_ok xs \<Longrightarrow> unat (of_nat (length xs) :: 64 word) = length xs"
  by (simp add: count_ok_def unat_of_nat_small)

lemma varint_ok_count: "count_ok xs \<Longrightarrow> varint_ok (of_nat (length xs))"
  by (simp add: count_ok_def varint_ok_of_nat)

lemma emits_put_block:
  "count_ok d \<Longrightarrow> emits (cswp_buffer_put_data d (of_nat (length d))) d"
  using emits_put_data [of "of_nat (length d)" d] by (simp add: unat_count)

lemma reads_get_block: "count_ok d \<Longrightarrow> reads (cswp_buffer_get_direct (of_nat (length d))) d d"
  by (rule reads_get_direct) (simp add: unat_count)


text \<open>The lists of the two list commands.\<close>

lemma emits_for_count:
  assumes "count_ok xs" and "\<And>i. i < length xs \<Longrightarrow> emits (body i) (f (xs ! i))"
  shows "emits (c_for_int (length xs) body) (concat (map f xs))"
  using assms by (intro emits_for_int) (simp_all add: count_ok_def)

lemma emits_name_type_list:
  assumes "count_ok ds" and "\<forall>(n, t) \<in> set ds. str_ok 256 n \<and> str_ok 256 t"
  shows "emits (c_for_int (length ds) (\<lambda>i.
       cswp_check (nth_p (Some (map (\<lambda>d. Some (fst d)) ds)) i) (\<lambda>name.
       cswp_check (cswp_buffer_put_string name) (\<lambda>_.
       cswp_check (nth_p (Some (map (\<lambda>d. Some (snd d)) ds)) i) (\<lambda>type.
       cswp_buffer_put_string type)))))
     (concat (map (\<lambda>(n, t). str_bytes n @ str_bytes t) ds))"
proof (rule emits_for_count [OF assms(1)])
  fix i assume i: "i < length ds"
  then have "ds ! i \<in> set ds" by simp
  with assms(2) have ok: "str_ok 256 (fst (ds ! i))" "str_ok 256 (snd (ds ! i))" by auto
  show "emits (cswp_check (nth_p (Some (map (\<lambda>d. Some (fst d)) ds)) i) (\<lambda>name.
       cswp_check (cswp_buffer_put_string name) (\<lambda>_.
       cswp_check (nth_p (Some (map (\<lambda>d. Some (snd d)) ds)) i) (\<lambda>type.
       cswp_buffer_put_string type))))
     (case ds ! i of (n, t) \<Rightarrow> str_bytes n @ str_bytes t)"
    using i by (simp add: nth_p_Some case_prod_beta emits_check emits_put_str [OF ok(1)] emits_put_str [OF ok(2)]
        del: ret_apply)
qed

lemma emits_id_value_list:
  assumes "count_ok rvs"
  shows "emits (c_for_int (length rvs) (\<lambda>i.
       cswp_check (cswp_buffer_put_varint (fst (rvs ! i))) (\<lambda>_.
       cswp_buffer_put_uint32 (snd (rvs ! i)))))
     (concat (map (\<lambda>(r, v). varint_enc r @ le_bytes 4 v) rvs))"
  by (rule emits_for_count [OF assms]) (simp add: case_prod_beta emits_check emits_put_varint emits_put_uint32)

lemma count_ok_same: "count_ok m \<Longrightarrow> length v = length m \<Longrightarrow> count_ok v"
  by (simp add: count_ok_def)

lemma emits_put_block_same:
  "count_ok m \<Longrightarrow> length v = length m \<Longrightarrow> emits (cswp_buffer_put_data v (of_nat (length m))) v"
  using emits_put_block [of v] by (simp add: count_ok_def)

lemma encode_command_emits:
  assumes "command_ok c"
  shows "emits (encode_command c) (command_bytes c)"
proof (cases c)
  case (Set_devices ds)
  then show ?thesis
    using assms emits_name_type_list [of ds]
    by (simp add: command_bytes_def list_bytes_def message_defs unat_count emits_check emits_put_varint)
next
  case (Reg_write d rvs)
  then show ?thesis
    using assms emits_id_value_list [of rvs]
    by (simp add: command_bytes_def list_bytes_def message_defs emits_check emits_put_varint)
next
  case (Reg_read d rs)
  then show ?thesis
    using assms vint.emits_array [of rs "length rs"]
    by (simp add: command_bytes_def list_bytes_def message_defs unat_count emits_check emits_put_varint count_ok_def)
next
  case (Mem_poll d addr a f t i m v)
  then show ?thesis
    using assms
    by (simp add: command_bytes_def message_defs emits_check emits_put_varint emits_put_uint64
        emits_put_block emits_put_block_same)
qed (use assms in \<open>simp_all add: command_bytes_def message_defs emits_check emits_put_varint emits_put_uint64
       emits_put_block emits_put_str [of 256] emits_put_str [of 1024]\<close>)

subsection \<open>Replies\<close>

datatype reply =
    Error_reply "64 word" c_int "byte list"
  | Ack cswp_commands_t
  | Init_reply "64 word" "byte list" "64 word"
  | Get_devices_reply "(cstring \<times> cstring) list"
  | System_description_reply "64 word" "byte list"
  | Device_open_reply "byte list"
  | Get_config_reply "byte list"
  | Capabilities_reply "64 word" "64 word"
  | Reg_list_reply "cswp_register_info_t list"
  | Reg_read_reply "c_uint list"
  | Mem_read_reply "byte list"
  | Mem_poll_reply "byte list"

definition reg_bytes :: "cswp_register_info_t \<Rightarrow> byte list" where
  "reg_bytes r = varint_enc (ucast (reg_id r)) @ string_enc (reg_name r) @ varint_enc (ucast (reg_size r))
     @ string_enc (reg_displayName r) @ string_enc (reg_description r)"

definition ok_header :: "cswp_commands_t \<Rightarrow> byte list" where
  "ok_header t = varint_enc (cmd_val t) @ varint_enc 0"

text \<open>An error code is an \<open>int\<close>; it becomes a varint by sign extension.\<close>

fun reply_bytes :: "reply \<Rightarrow> byte list" where
  "reply_bytes (Error_reply t e msg) = (varint_enc t @ varint_enc (scast e)) @ string_enc (Some msg)"
| "reply_bytes (Ack t) = ok_header t"
| "reply_bytes (Init_reply p i v) = ok_header CSWP_INIT @ varint_enc p @ string_enc (Some i) @ varint_enc v"
| "reply_bytes (Get_devices_reply ds) =
     ok_header CSWP_GET_DEVICES @ list_bytes (\<lambda>(n, t). string_enc n @ string_enc t) ds"
| "reply_bytes (System_description_reply f d) =
     ok_header CSWP_GET_SYSTEM_DESCRIPTION @ varint_enc f @ data_bytes d"
| "reply_bytes (Device_open_reply i) = ok_header CSWP_DEVICE_OPEN @ string_enc (Some i)"
| "reply_bytes (Get_config_reply v) = ok_header CSWP_GET_CONFIG @ string_enc (Some v)"
| "reply_bytes (Capabilities_reply c d) =
     ok_header CSWP_GET_DEVICE_CAPABILITIES @ varint_enc c @ varint_enc d"
| "reply_bytes (Reg_list_reply rs) = ok_header CSWP_REG_LIST @ list_bytes reg_bytes rs"
| "reply_bytes (Reg_read_reply vs) = ok_header CSWP_REG_READ @ list_bytes (le_bytes 4) vs"
| "reply_bytes (Mem_read_reply d) = ok_header CSWP_MEM_READ @ data_bytes d"
| "reply_bytes (Mem_poll_reply d) = ok_header CSWP_MEM_POLL @ data_bytes d"

definition text_ok :: "cstring \<Rightarrow> bool" where
  "text_ok s = (case s of None \<Rightarrow> False | Some t \<Rightarrow> length t < 2 ^ 31)"

definition reg_ok :: "cswp_register_info_t \<Rightarrow> bool" where
  "reg_ok r \<longleftrightarrow> text_ok (reg_name r) \<and> text_ok (reg_displayName r) \<and> text_ok (reg_description r)"

fun reply_ok :: "reply \<Rightarrow> bool" where
  "reply_ok (Error_reply t e msg) = text_ok (Some msg)"
| "reply_ok (Init_reply p i v) = text_ok (Some i)"
| "reply_ok (Get_devices_reply ds) = (count_ok ds \<and> (\<forall>(n, t) \<in> set ds. text_ok n \<and> text_ok t))"
| "reply_ok (System_description_reply f d) = count_ok d"
| "reply_ok (Device_open_reply i) = text_ok (Some i)"
| "reply_ok (Get_config_reply v) = text_ok (Some v)"
| "reply_ok (Reg_list_reply rs) = (count_ok rs \<and> (\<forall>r \<in> set rs. reg_ok r))"
| "reply_ok (Reg_read_reply vs) = count_ok vs"
| "reply_ok (Mem_read_reply d) = count_ok d"
| "reply_ok (Mem_poll_reply d) = count_ok d"
| "reply_ok _ = True"

lemma emits_put_text: "text_ok s \<Longrightarrow> emits (cswp_buffer_put_string s) (string_enc s)"
  by (cases s) (auto simp: text_ok_def intro: emits_put_string)

text \<open>The server's encoders.\<close>

lemma emits_ok_header: "emits (cswp_encode_response_header (cmd_val t) 0) (ok_header t)"
  by (simp add: ok_header_def cswp_encode_response_header_def emits_check emits_put_varint)

lemma emits_error_reply:
  "reply_ok (Error_reply t e msg) \<Longrightarrow>
   emits (cswp_encode_error_response t (scast e) (Some msg)) (reply_bytes (Error_reply t e msg))"
  by (simp add: message_defs emits_check emits_put_varint emits_put_text)

lemma emits_acks:
  "emits cswp_encode_term_response (reply_bytes (Ack CSWP_TERM))"
  "emits cswp_encode_client_info_response (reply_bytes (Ack CSWP_CLIENT_INFO))"
  "emits cswp_encode_set_devices_response (reply_bytes (Ack CSWP_SET_DEVICES))"
  "emits cswp_encode_device_close_response (reply_bytes (Ack CSWP_DEVICE_CLOSE))"
  "emits cswp_encode_set_config_response (reply_bytes (Ack CSWP_SET_CONFIG))"
  "emits cswp_encode_reg_write_response (reply_bytes (Ack CSWP_REG_WRITE))"
  "emits cswp_encode_mem_write_response (reply_bytes (Ack CSWP_MEM_WRITE))"
  by (simp_all add: ok_header_def message_defs emits_check emits_put_varint)

lemma emits_scalar_replies:
  "reply_ok (Init_reply p i v) \<Longrightarrow>
   emits (cswp_encode_init_response p (Some i) v) (reply_bytes (Init_reply p i v))"
  "reply_ok (Device_open_reply i) \<Longrightarrow>
   emits (cswp_encode_device_open_response (Some i)) (reply_bytes (Device_open_reply i))"
  "reply_ok (Get_config_reply i) \<Longrightarrow>
   emits (cswp_encode_get_config_response (Some i)) (reply_bytes (Get_config_reply i))"
  "emits (cswp_encode_get_device_capabilities_response c d) (reply_bytes (Capabilities_reply c d))"
  by (simp_all add: ok_header_def message_defs emits_check emits_put_varint emits_put_text)

lemma emits_put_block_take:
  assumes "unat n \<le> length d" and "n < 0x80000000"
  shows "emits (cswp_check (cswp_buffer_put_varint n) (\<lambda>_. cswp_buffer_put_data d n)) (data_bytes (take (unat n) d))"
proof -
  have "length (take (unat n) d) = unat n" using assms(1) by simp
  then show ?thesis
    using emits_check [OF emits_put_varint emits_put_data [OF assms(1)]]
    by (simp add: data_bytes_def)
qed

lemma emits_data_replies:
  assumes "unat n \<le> length d" and "n < 0x80000000"
  shows "emits (cswp_encode_get_system_description_response f n d)
      (reply_bytes (System_description_reply f (take (unat n) d)))"
    and "emits (cswp_encode_mem_read_response n d) (reply_bytes (Mem_read_reply (take (unat n) d)))"
    and "emits (cswp_encode_mem_poll_response n d) (reply_bytes (Mem_poll_reply (take (unat n) d)))"
  using emits_put_block_take [OF assms]
  by (simp_all add: ok_header_def message_defs emits_check emits_put_varint)

lemma emits_reg_read_reply:
  assumes "count_ok vs"
  shows "emits (cswp_encode_reg_read_response (of_nat (length vs)) vs) (reply_bytes (Reg_read_reply vs))"
  using assms u32.emits_array [of vs "length vs", unfolded nth_p_eq_nth_c]
  by (simp add: ok_header_def list_bytes_def message_defs emits_check emits_put_varint unat_count count_ok_def)

lemma emits_get_devices_reply:
  assumes "reply_ok (Get_devices_reply (zip names types))" and "length types = length names"
  shows "emits (cswp_encode_get_devices_response (of_nat (length names)) (Some names) (Some types))
    (reply_bytes (Get_devices_reply (zip names types)))"
proof -
  have ok: "text_ok (names ! i)" "text_ok (types ! i)" if "i < length names" for i
  proof -
    have "(names ! i, types ! i) \<in> set (zip names types)" using that assms(2) by (force simp: set_zip)
    then show "text_ok (names ! i)" "text_ok (types ! i)" using assms(1) by auto
  qed
  have n: "length (zip names types) = length names" using assms(2) by simp
  have c: "count_ok names" using assms by (simp add: count_ok_def)
  have "emits (c_for_int (length names) (\<lambda>i.
       cswp_check (nth_p (Some names) i) (\<lambda>name.
       cswp_check (cswp_buffer_put_string name) (\<lambda>_.
       cswp_check (nth_p (Some types) i) (\<lambda>type.
       cswp_buffer_put_string type)))))
     (concat (map (\<lambda>(n, t). string_enc n @ string_enc t) (zip names types)))"
    using c assms(2) ok
    by (intro emits_for_int) (simp_all add: count_ok_def nth_p_Some emits_check emits_put_text del: ret_apply)
  then show ?thesis
    by (simp add: ok_header_def list_bytes_def message_defs emits_check emits_put_varint unat_count [OF c] assms(2))
qed

lemma emits_reg_info:
  "reg_ok r \<Longrightarrow> emits (cswp_encode_reg_info (ucast (reg_id r)) (reg_name r) (ucast (reg_size r))
     (reg_displayName r) (reg_description r)) (reg_bytes r)"
  by (simp add: reg_ok_def reg_bytes_def message_defs emits_check emits_put_varint emits_put_text)

lemma emits_reg_list_header:
  "emits (cswp_encode_reg_list_response n) (ok_header CSWP_REG_LIST @ varint_enc n)"
  by (simp add: ok_header_def message_defs emits_check emits_put_varint)

subsection \<open>Requests and responses\<close>

text \<open>A request is its length, the number of its commands, the mode byte and the commands; a response
  its length, the number of commands it answers and the replies.\<close>

definition request_bytes :: "byte \<Rightarrow> command list \<Rightarrow> byte list" where
  "request_bytes a cs = (let body = varint_enc (of_nat (length cs)) @ [a] @ concat (map command_bytes cs) in
     le_bytes 4 (of_nat (4 + length body) :: c_uint) @ body)"

definition response_bytes :: "nat \<Rightarrow> reply list \<Rightarrow> byte list" where
  "response_bytes n rs = (let body = varint_enc (of_nat n) @ concat (map reply_bytes rs) in
     le_bytes 4 (of_nat (4 + length body) :: c_uint) @ body)"

end
