(* ===== verification/Cswp_Client.thy ===== *)
theory Cswp_Client
  imports Client_Commands
begin

text \<open>
  The client library, \<^verbatim>\<open>cswp/client/cswp_client.c\<close>. A call encodes its command, queues the
  response it expects and, outside a batch, sends the request and processes the responses. The
  output arguments of the calls are objects in the caller's memory \<open>out_mem\<close>, addressed by
  pointers, so that a completion function that writes past an object or through \<open>NULL\<close> is
  \<open>Undef\<close>. A completion function and its reply data are a constructor of \<open>completion\<close>. The
  transport is a record of callbacks on the client, and \<open>'t\<close> its private data. The
  small allocations of the calls (queue entries, reply data, scratch strings) are taken to
  succeed, and releasing memory is not modelled.
\<close>

subsection \<open>The caller's memory\<close>

type_synonym ptr = "nat option"   \<comment> \<open>\<open>None\<close> is \<open>NULL\<close>, otherwise the number of an object\<close>

text \<open>A register description as the client stores it: a string pointer is an offset in the
  caller's string buffer.\<close>

record reg_out =
  out_id :: c_uint
  out_size :: c_uint
  out_name :: "nat option"
  out_displayName :: "nat option"
  out_description :: "nat option"

record out_mem =
  m_uint :: "nat \<Rightarrow> c_uint option"
  m_size :: "nat \<Rightarrow> size_t option"
  m_bytes :: "nat \<Rightarrow> byte list option"
  m_words :: "nat \<Rightarrow> c_uint list option"
  m_regs :: "nat \<Rightarrow> reg_out list option"

definition store_uint :: "ptr \<Rightarrow> c_uint \<Rightarrow> (out_mem, unit) prog" where
  "store_uint p v m = (case p of None \<Rightarrow> Undef NullDeref
     | Some a \<Rightarrow> if m_uint m a = None then Undef OutOfBounds
                 else Done () (m\<lparr>m_uint := (m_uint m)(a \<mapsto> v)\<rparr>))"

definition store_size :: "ptr \<Rightarrow> size_t \<Rightarrow> (out_mem, unit) prog" where
  "store_size p v m = (case p of None \<Rightarrow> Undef NullDeref
     | Some a \<Rightarrow> if m_size m a = None then Undef OutOfBounds
                 else Done () (m\<lparr>m_size := (m_size m)(a \<mapsto> v)\<rparr>))"

text \<open>\<open>memcpy(p + off, bs, \<dots>)\<close>. Nothing is copied, and no pointer used, when \<open>bs\<close> is empty.\<close>

definition store_bytes :: "ptr \<Rightarrow> nat \<Rightarrow> byte list \<Rightarrow> (out_mem, unit) prog" where
  "store_bytes p off bs m = (if bs = [] then Done () m else case p of None \<Rightarrow> Undef NullDeref
     | Some a \<Rightarrow> (case m_bytes m a of None \<Rightarrow> Undef OutOfBounds
         | Some obj \<Rightarrow>
             if off + length bs \<le> length obj
             then Done () (m\<lparr>m_bytes := (m_bytes m)(a \<mapsto>
                    take off obj @ bs @ drop (off + length bs) obj)\<rparr>)
             else Undef OutOfBounds))"

text \<open>A string with its terminator.\<close>

definition store_string :: "ptr \<Rightarrow> nat \<Rightarrow> byte list \<Rightarrow> (out_mem, unit) prog" where
  "store_string p off s = store_bytes p off (s @ [0])"

definition store_word :: "ptr \<Rightarrow> nat \<Rightarrow> c_uint \<Rightarrow> (out_mem, unit) prog" where
  "store_word p i v m = (case p of None \<Rightarrow> Undef NullDeref
     | Some a \<Rightarrow> (case m_words m a of None \<Rightarrow> Undef OutOfBounds
         | Some xs \<Rightarrow> if i < length xs then Done () (m\<lparr>m_words := (m_words m)(a \<mapsto> xs[i := v])\<rparr>)
                     else Undef OutOfBounds))"

definition update_reg :: "ptr \<Rightarrow> nat \<Rightarrow> (reg_out \<Rightarrow> reg_out) \<Rightarrow> (out_mem, unit) prog" where
  "update_reg p i f m = (case p of None \<Rightarrow> Undef NullDeref
     | Some a \<Rightarrow> (case m_regs m a of None \<Rightarrow> Undef OutOfBounds
         | Some xs \<Rightarrow> if i < length xs then Done () (m\<lparr>m_regs := (m_regs m)(a \<mapsto> xs[i := f (xs ! i)])\<rparr>)
                     else Undef OutOfBounds))"

subsection \<open>Client state\<close>

definition BUFFER_SIZE :: size_t where "BUFFER_SIZE = 32768"

definition ERROR_MESSAGE_SIZE :: size_t where "ERROR_MESSAGE_SIZE = 1024"

definition CSWP_REQ_HEADER_SIZE :: size_t where "CSWP_REQ_HEADER_SIZE = 15"

datatype batch_mode_t = BATCH_NONE | BATCH_CONTINUE | BATCH_ABORT

fun batch_val :: "batch_mode_t \<Rightarrow> byte" where
  "batch_val BATCH_NONE = 0"
| "batch_val BATCH_CONTINUE = 1"
| "batch_val BATCH_ABORT = 2"

text \<open>A completion function with its reply data; \<open>No_completion\<close> is a null function pointer.\<close>

datatype completion =
    No_completion
  | Init_complete (serverProtocolVersion: ptr) (serverID: ptr) (serverIDSize: size_t) (serverVersion: ptr)
  | Get_devices_complete (gd_count: ptr) (deviceList: "ptr list option") (deviceListSize: size_t)
      (deviceListEntrySize: size_t) (deviceTypeList: "ptr list option") (deviceTypeSize: size_t)
      (deviceTypeEntrySize: size_t)
  | Get_system_description_complete (descriptionFormat: ptr) (descriptionSize: ptr)
      (descriptionDataBuffer: ptr) (bufferSize: size_t)
  | Device_open_complete (open_info: ptr) (open_infoSize: size_t)
  | Get_config_complete (config_value: ptr) (config_valueSize: size_t)
  | Get_device_capabilities_complete (caps: ptr) (capsData: ptr)
  | Reg_list_complete (rl_count: ptr) (rl_info: ptr) (rl_infoSize: size_t) (rl_strBuf: ptr) (rl_strBufSize: size_t)
  | Reg_read_complete (rr_values: ptr) (rr_valuesSize: size_t)
  | Mem_read_complete (mr_buf: ptr) (mr_bytesRead: ptr)
  | Mem_poll_complete (mp_buf: ptr) (mp_bytesRead: ptr)

record pending_response_t =
  pending_type :: cswp_commands_t
  complete :: completion

record 't cswp_client_t =
  errorMsg :: "byte list"
  c_hdr :: CSWP_BUFFER
  c_cmd :: CSWP_BUFFER
  c_rsp :: CSWP_BUFFER
  batch_mode :: batch_mode_t
  num_cmds :: c_int
  pending_responses :: "pending_response_t list"
  c_out :: out_mem
  transport_priv :: 't

type_synonym ('t, 'a) client = "('t cswp_client_t, 'a) prog"

text \<open>The transport. \<open>send\<close> gets the bytes of the message, \<open>receive\<close> the size of the destination
  and returns the bytes it stored there.\<close>

record 't cswp_client_transport_t =
  t_connect :: "('t, unit) client option"
  t_disconnect :: "('t, unit) client option"
  t_send :: "byte list \<Rightarrow> ('t, unit) client"
  t_receive :: "size_t \<Rightarrow> ('t, byte list) client"

definition on_c_cmd :: "(CSWP_BUFFER, 'a) prog \<Rightarrow> ('t, 'a) client" where
  "on_c_cmd = zoom c_cmd (\<lambda>b. c_cmd_update (\<lambda>_. b))"

definition on_c_rsp :: "(CSWP_BUFFER, 'a) prog \<Rightarrow> ('t, 'a) client" where
  "on_c_rsp = zoom c_rsp (\<lambda>b. c_rsp_update (\<lambda>_. b))"

definition on_c_hdr :: "(CSWP_BUFFER, 'a) prog \<Rightarrow> ('t, 'a) client" where
  "on_c_hdr = zoom c_hdr (\<lambda>b. c_hdr_update (\<lambda>_. b))"

definition on_out :: "(out_mem, 'a) prog \<Rightarrow> ('t, 'a) client" where
  "on_out = zoom c_out (\<lambda>m. c_out_update (\<lambda>_. m))"

definition cswp_client_error :: "c_int \<Rightarrow> string \<Rightarrow> log_arg list \<Rightarrow> ('t, 'a) client" where
  "cswp_client_error errorCode fmt args = (case c_format (bytes_of fmt) args of
       None \<Rightarrow> undef UninitRead
     | Some msg \<Rightarrow> cswp_check (modify (\<lambda>c. c\<lparr>errorMsg := take (unat ERROR_MESSAGE_SIZE - 1) msg\<rparr>)) (\<lambda>_.
                   fail errorCode))"

definition cswp_client_push_request :: "cswp_commands_t \<Rightarrow> completion \<Rightarrow> ('t, unit) client" where
  "cswp_client_push_request type cf c =
     (if num_cmds c = 0x7FFFFFFF then Undef IntOverflow
      else Done () (c\<lparr>pending_responses := pending_responses c @ [\<lparr>pending_type = type, complete = cf\<rparr>],
                     num_cmds := num_cmds c + 1\<rparr>))"

text \<open>The three buffers come from \<open>malloc\<close>; a failed allocation is dereferenced there.\<close>

definition cswp_client_init ::
  "(size_t \<Rightarrow> byte list option) \<Rightarrow> out_mem \<Rightarrow> 't \<Rightarrow> ('s, 't cswp_client_t) prog" where
  "cswp_client_init malloc m t =
     cswp_check (cswp_buffer_alloc malloc CSWP_REQ_HEADER_SIZE) (\<lambda>hdr.
     cswp_check (cswp_buffer_alloc malloc BUFFER_SIZE) (\<lambda>cmd.
     cswp_check (cswp_buffer_alloc malloc BUFFER_SIZE) (\<lambda>rsp.
     ret \<lparr>errorMsg = [], c_hdr = hdr, c_cmd = cmd, c_rsp = rsp, batch_mode = BATCH_NONE,
          num_cmds = 0, pending_responses = [], c_out = m, transport_priv = t\<rparr>)))"

definition cswp_client_prepare_cmd :: "('t, unit) client" where
  "cswp_client_prepare_cmd = modify (\<lambda>c.
     if batch_mode c = BATCH_NONE
     then c\<lparr>c_cmd := (c_cmd c)\<lparr>bpos := CSWP_REQ_HEADER_SIZE, bused := CSWP_REQ_HEADER_SIZE\<rparr>,
            pending_responses := [], num_cmds := 0\<rparr>
     else c)"

subsection \<open>Completion functions\<close>

text \<open>A string read into the caller's buffer.\<close>

definition get_string_to :: "ptr \<Rightarrow> size_t \<Rightarrow> ('t, unit) client" where
  "get_string_to p sz =
     cswp_check (on_c_rsp (cswp_buffer_get_string sz)) (\<lambda>s. on_out (store_string p 0 s))"

text \<open>A string that \<open>cswp_get_optional_string\<close> may have skipped.\<close>

definition store_optional :: "ptr \<Rightarrow> byte list option \<Rightarrow> ('t, unit) client" where
  "store_optional p s = (case s of None \<Rightarrow> ret () | Some s \<Rightarrow> on_out (store_string p 0 s))"

text \<open>\<open>if (p) *p = v\<close>.\<close>

definition store_if_uint :: "ptr \<Rightarrow> c_uint \<Rightarrow> ('t, unit) client" where
  "store_if_uint p v = (if p = None then ret () else on_out (store_uint p v))"

definition cswp_init_complete :: "ptr \<Rightarrow> ptr \<Rightarrow> size_t \<Rightarrow> ptr \<Rightarrow> ('t, unit) client" where
  "cswp_init_complete pVer pID idSize pSvr =
     cswp_check (on_c_rsp (cswp_decode_init_response_body (pID = None) idSize)) (\<lambda>(protoVer, sid, svrVer).
     cswp_check (store_optional pID sid) (\<lambda>_.
     cswp_check (store_if_uint pVer (ucast protoVer)) (\<lambda>_.
     store_if_uint pSvr (ucast svrVer))))"

text \<open>The result of reading the name is overwritten by that of reading the type.\<close>

definition get_devices_item ::
  "ptr list option \<Rightarrow> size_t \<Rightarrow> ptr list option \<Rightarrow> size_t \<Rightarrow> nat \<Rightarrow> ('t, unit) client" where
  "get_devices_item names nsz types tsz i =
     cswp_check (nth_p names i) (\<lambda>pn.
     ignore (get_string_to pn nsz)
     (cswp_check (nth_p types i) (\<lambda>pt.
      get_string_to pt tsz)))"

definition cswp_get_devices_complete :: "ptr \<Rightarrow> ptr list option \<Rightarrow> size_t \<Rightarrow> size_t
    \<Rightarrow> ptr list option \<Rightarrow> size_t \<Rightarrow> size_t \<Rightarrow> ('t, unit) client" where
  "cswp_get_devices_complete pCount names nCount nsz types tCount tsz =
     cswp_check (on_c_rsp cswp_decode_get_devices_response_body) (\<lambda>devCount.
     cswp_check (on_out (store_uint pCount (ucast devCount))) (\<lambda>_.
     if nCount < devCount then
       cswp_client_error (res_val CSWP_OUTPUT_BUFFER_OVERFLOW) ''Device list too small'' []
     else if tCount < devCount then
       cswp_client_error (res_val CSWP_OUTPUT_BUFFER_OVERFLOW) ''Device type list too small'' []
     else c_for_int (unat devCount) (get_devices_item names nsz types tsz)))"

definition cswp_get_system_description_complete :: "ptr \<Rightarrow> ptr \<Rightarrow> ptr \<Rightarrow> size_t \<Rightarrow> ('t, unit) client" where
  "cswp_get_system_description_complete pFormat pSize pData bufSize =
     cswp_check (on_c_rsp (cswp_decode_get_system_description_response_body bufSize)) (\<lambda>(fmt, sz, data).
     cswp_check (on_out (store_bytes pData 0 data)) (\<lambda>_.
     cswp_check (on_out (store_uint pFormat (ucast fmt))) (\<lambda>_.
     cswp_check (on_out (store_uint pSize (ucast sz))) (\<lambda>_.
     if bufSize < sz then
       cswp_client_error (res_val CSWP_OUTPUT_BUFFER_OVERFLOW) ''System description buffer too small'' []
     else ret ()))))"

definition cswp_device_open_complete :: "ptr \<Rightarrow> size_t \<Rightarrow> ('t, unit) client" where
  "cswp_device_open_complete pInfo infoSize =
     cswp_check (on_c_rsp (cswp_decode_device_open_response_body (pInfo = None) infoSize)) (store_optional pInfo)"

definition cswp_get_config_complete :: "ptr \<Rightarrow> size_t \<Rightarrow> ('t, unit) client" where
  "cswp_get_config_complete pValue valueSize =
     cswp_check (on_c_rsp (cswp_decode_get_config_response_body valueSize)) (\<lambda>v.
     on_out (store_string pValue 0 v))"

definition cswp_get_device_capabilities_complete :: "ptr \<Rightarrow> ptr \<Rightarrow> ('t, unit) client" where
  "cswp_get_device_capabilities_complete pCaps pData =
     cswp_check (on_c_rsp cswp_decode_get_device_capabilities_response_body) (\<lambda>(capabilities, capabilityData).
     cswp_check (on_out (store_uint pCaps (ucast capabilities))) (\<lambda>_.
     on_out (store_uint pData (ucast capabilityData))))"

text \<open>
  The register list. The locals are the offset of \<open>strBuf\<close> in the caller's buffer, the remaining
  \<open>strBufSize\<close> and the pending result \<open>res\<close>: a string that does not fit sets the result, and the
  strings after it are still tried. The check leaves no room for the terminator, and the
  remaining size is reduced by one more than was checked.
\<close>

definition put_reg_string :: "ptr \<Rightarrow> ptr \<Rightarrow> nat \<Rightarrow> (nat \<Rightarrow> reg_out \<Rightarrow> reg_out) \<Rightarrow> byte list
    \<Rightarrow> nat \<times> size_t \<times> c_int \<Rightarrow> ('t, nat \<times> size_t \<times> c_int) client" where
  "put_reg_string pInfo pStr i set_field str = (\<lambda>(off, sz, res).
     let s = cstr str; len = of_nat (length s) :: size_t in
     if len > sz then
       attempt (cswp_client_error (res_val CSWP_OUTPUT_BUFFER_OVERFLOW) ''strBuf too small'' [])
         (\<lambda>e. ret (off, sz, e)) (\<lambda>_ :: unit. ret (off, sz, res))
     else
       cswp_check (on_out (store_string pStr off s)) (\<lambda>_.
       cswp_check (on_out (update_reg pInfo i (set_field off))) (\<lambda>_.
       ret (off + length s + 1, sz - (len + 1), res))))"

definition reg_list_round :: "ptr \<Rightarrow> ptr \<Rightarrow> nat \<Rightarrow> nat \<times> size_t \<Rightarrow> ('t, nat \<times> size_t) client" where
  "reg_list_round pInfo pStr i = (\<lambda>(off, sz).
     cswp_check (on_c_rsp (cswp_decode_reg_info 256 256 1024)) (\<lambda>(regID, regName, regSize, displayName, description).
     cswp_check (on_out (update_reg pInfo i (\<lambda>r. r\<lparr>out_id := ucast regID\<rparr>))) (\<lambda>_.
     cswp_check (on_out (update_reg pInfo i (\<lambda>r. r\<lparr>out_size := ucast regSize\<rparr>))) (\<lambda>_.
     cswp_check (put_reg_string pInfo pStr i (\<lambda>o1 r. r\<lparr>out_name := Some o1\<rparr>) regName (off, sz, 0)) (\<lambda>st1.
     cswp_check (put_reg_string pInfo pStr i (\<lambda>o1 r. r\<lparr>out_displayName := Some o1\<rparr>) displayName st1) (\<lambda>st2.
     cswp_check (put_reg_string pInfo pStr i (\<lambda>o1 r. r\<lparr>out_description := Some o1\<rparr>) description st2)
       (\<lambda>(off', sz', res).
     cswp_check (int_incr i) (\<lambda>_.
     cswp_check (of_res res) (\<lambda>_.
     ret (off', sz'))))))))))"

definition cswp_device_reg_list_complete :: "ptr \<Rightarrow> ptr \<Rightarrow> size_t \<Rightarrow> ptr \<Rightarrow> size_t \<Rightarrow> ('t, unit) client" where
  "cswp_device_reg_list_complete pCount pInfo infoSize pStr strSize =
     cswp_check (on_c_rsp cswp_decode_reg_list_response_body) (\<lambda>regCount.
     cswp_check (on_out (store_uint pCount (ucast regCount))) (\<lambda>_.
     if infoSize < regCount then
       cswp_client_error (res_val CSWP_OUTPUT_BUFFER_OVERFLOW) ''registerInfo too small'' []
     else
       cswp_check (c_fold 0 (unat regCount) (reg_list_round pInfo pStr) (0, strSize)) (\<lambda>_. ret ())))"

definition cswp_device_reg_read_complete :: "ptr \<Rightarrow> size_t \<Rightarrow> ('t, unit) client" where
  "cswp_device_reg_read_complete pValues valuesSize =
     cswp_check (on_c_rsp cswp_decode_reg_read_response_body) (\<lambda>count.
     if valuesSize < count then
       cswp_client_error (res_val CSWP_OUTPUT_BUFFER_OVERFLOW) ''registerValues too small'' []
     else c_for_int (unat count) (\<lambda>i.
       cswp_check (on_c_rsp cswp_buffer_get_uint32) (\<lambda>v.
       on_out (store_word pValues i v))))"

text \<open>The result of \<open>cswp_buffer_get_direct\<close> is dropped; after a failure \<open>pData\<close> has no value. The
  count is the server's, and nothing compares it with the size of the caller's buffer.\<close>

definition cswp_device_mem_read_complete :: "ptr \<Rightarrow> ptr \<Rightarrow> ('t, unit) client" where
  "cswp_device_mem_read_complete pBuf pCount =
     cswp_check (on_c_rsp cswp_decode_mem_read_response_body) (\<lambda>count.
     attempt (on_c_rsp (cswp_buffer_get_direct count))
       (\<lambda>_. undef UninitRead)
       (\<lambda>data.
         cswp_check (on_out (store_bytes pBuf 0 data)) (\<lambda>_.
         on_out (store_size pCount count))))"

definition cswp_device_mem_poll_complete :: "ptr \<Rightarrow> ptr \<Rightarrow> ('t, unit) client" where
  "cswp_device_mem_poll_complete pBuf pCount =
     cswp_check (on_c_rsp cswp_decode_mem_poll_response_body) (\<lambda>count.
     cswp_check (attempt (on_c_rsp (cswp_buffer_get_direct count))
       (\<lambda>_. if pBuf = None then ret () else undef UninitRead)
       (\<lambda>data. if pBuf = None then ret () else on_out (store_bytes pBuf 0 data))) (\<lambda>_.
     if pCount = None then ret () else on_out (store_size pCount count)))"

fun run_complete :: "completion \<Rightarrow> ('t, unit) client" where
  "run_complete No_completion = ret ()"
| "run_complete (Init_complete v i n s) = cswp_init_complete v i n s"
| "run_complete (Get_devices_complete c l ln le t tn te) = cswp_get_devices_complete c l ln le t tn te"
| "run_complete (Get_system_description_complete f s d n) = cswp_get_system_description_complete f s d n"
| "run_complete (Device_open_complete i n) = cswp_device_open_complete i n"
| "run_complete (Get_config_complete v n) = cswp_get_config_complete v n"
| "run_complete (Get_device_capabilities_complete c d) = cswp_get_device_capabilities_complete c d"
| "run_complete (Reg_list_complete c i n s m) = cswp_device_reg_list_complete c i n s m"
| "run_complete (Reg_read_complete v n) = cswp_device_reg_read_complete v n"
| "run_complete (Mem_read_complete b n) = cswp_device_mem_read_complete b n"
| "run_complete (Mem_poll_complete b n) = cswp_device_mem_poll_complete b n"

subsection \<open>Transactions\<close>

text \<open>The error code of the response is cut to an \<open>int\<close>; the result of decoding the error text is
  dropped.\<close>

definition cswp_client_process_response :: "pending_response_t \<Rightarrow> ('t, unit) client" where
  "cswp_client_process_response pending =
     cswp_check (on_c_rsp cswp_decode_response_header) (\<lambda>(msgType, errCode).
     if msgType \<noteq> cmd_val (pending_type pending) then
       cswp_client_error (res_val CSWP_COMMS) ''Unexpected response: 0x%lX'' [Arg_int msgType]
     else
       cswp_check
         (if errCode \<noteq> 0 then
            attempt (on_c_rsp (cswp_decode_error_response_body ERROR_MESSAGE_SIZE))
              (\<lambda>_. of_res (ucast errCode))
              (\<lambda>text. cswp_check (modify (\<lambda>c. c\<lparr>errorMsg := text\<rparr>)) (\<lambda>_. of_res (ucast errCode)))
          else ret ()) (\<lambda>_.
       run_complete (complete pending)))"

text \<open>The loop over the pending responses stops at the first error; \<open>opsCompleted\<close> counts the
  successful ones.\<close>

definition incr_uint :: "ptr \<Rightarrow> (out_mem, unit) prog" where
  "incr_uint p m = (case p of None \<Rightarrow> Done () m
     | Some a \<Rightarrow> (case m_uint m a of None \<Rightarrow> Undef OutOfBounds
         | Some v \<Rightarrow> store_uint p (v + 1) m))"

primrec process_responses :: "ptr \<Rightarrow> pending_response_t list \<Rightarrow> ('t, unit) client" where
  "process_responses ops [] = ret ()"
| "process_responses ops (r # rs) =
     cswp_check (cswp_client_process_response r) (\<lambda>_.
     cswp_check (on_out (incr_uint ops)) (\<lambda>_.
     process_responses ops rs))"

text \<open>Building the request: the header is written into its own buffer (results dropped), then
  copied in front of the commands together with the message length.\<close>

definition put_request_header :: "('t, unit) client" where
  "put_request_header =
     cswp_check (on_c_hdr (modify cswp_buffer_clear)) (\<lambda>_.
     cswp_check (gets id) (\<lambda>c.
     ignore (on_c_hdr (cswp_buffer_put_varint (scast (num_cmds c))))
     (ignore (on_c_hdr (cswp_buffer_put_uint8 (batch_val (batch_mode c))))
     (ret ()))))"

definition request_message :: "('t, byte list) client" where
  "request_message =
     cswp_check put_request_header (\<lambda>_.
     cswp_check (gets id) (\<lambda>c.
     let reqOffset = CSWP_REQ_HEADER_SIZE - 4 - bused (c_hdr c);
         reqSize = ucast (bused (c_cmd c) - reqOffset) :: c_uint;
         len = [ucast (reqSize AND 0xFF), ucast (drop_bit 8 reqSize AND 0xFF),
                ucast (drop_bit 16 reqSize AND 0xFF), ucast (drop_bit 24 reqSize AND 0xFF)] in
     cswp_check (on_c_cmd (poke (unat reqOffset) len)) (\<lambda>_.
     cswp_check (on_c_cmd (poke (unat reqOffset + 4) (take (unat (bused (c_hdr c))) (bdata (c_hdr c))))) (\<lambda>_.
     cswp_check (gets c_cmd) (\<lambda>b.
     if unat reqOffset + unat reqSize \<le> length (bdata b)
     then ret (take (unat reqSize) (drop (unat reqOffset) (bdata b)))
     else undef OutOfBounds)))))"

text \<open>The length and the number of responses; both results are dropped, so a short message leaves
  the variable unset.\<close>

definition check_reply_length :: "('t, unit) client" where
  "check_reply_length =
     cswp_check (on_c_rsp (modify (cswp_buffer_seek 0))) (\<lambda>_.
     attempt (on_c_rsp cswp_buffer_get_uint32)
       (\<lambda>_. undef UninitRead)
       (\<lambda>rspSize.
         cswp_check (gets (\<lambda>c. bused (c_rsp c))) (\<lambda>used.
         if ucast rspSize > used then
           cswp_client_error (res_val CSWP_COMMS)
             ''Incomplete response received.  Received %d bytes, expected %d''
             [Arg_int used, Arg_int (ucast rspSize)]
         else ret ())))"

definition check_reply_count :: "('t, unit) client" where
  "check_reply_count =
     attempt (on_c_rsp cswp_buffer_get_varint)
       (\<lambda>_. undef UninitRead)
       (\<lambda>numRsps.
         cswp_check (gets num_cmds) (\<lambda>n.
         if numRsps \<noteq> scast n then
           cswp_client_error (res_val CSWP_COMMS)
             ''Incomplete response received.  Received %d responses, expected %d''
             [Arg_int numRsps, Arg_int (scast n)]
         else ret ()))"

definition store_if_ops :: "ptr \<Rightarrow> ('t, unit) client" where
  "store_if_ops ops = (if ops = None then ret () else on_out (store_uint ops 0))"

text \<open>The queue is dropped at the end of a transaction, whatever its result.\<close>

definition cswp_client_transact :: "'t cswp_client_transport_t \<Rightarrow> ptr \<Rightarrow> ('t, unit) client" where
  "cswp_client_transact tr ops =
     (let body =
        cswp_check request_message (\<lambda>msg.
        cswp_check (store_if_ops ops) (\<lambda>_.
        cswp_check (t_send tr msg) (\<lambda>_.
        cswp_check (gets (\<lambda>c. bsize (c_rsp c))) (\<lambda>sz.
        cswp_check (t_receive tr sz) (\<lambda>data.
        cswp_check (on_c_rsp (received data)) (\<lambda>_.
        cswp_check check_reply_length (\<lambda>_.
        cswp_check check_reply_count (\<lambda>_.
        cswp_check (gets pending_responses) (\<lambda>rs.
        process_responses ops rs)))))))));
        cleanup = modify (\<lambda>c. c\<lparr>pending_responses := []\<rparr>)
      in
      attempt body (\<lambda>res. cswp_check cleanup (\<lambda>_. fail res)) (\<lambda>_. cleanup))"

definition cswp_client_process :: "'t cswp_client_transport_t \<Rightarrow> ('t, unit) client" where
  "cswp_client_process tr =
     cswp_check (gets id) (\<lambda>c.
     if batch_mode c = BATCH_NONE \<and> 0 <s num_cmds c then cswp_client_transact tr None
     else ret ())"

subsection \<open>Calls\<close>

text \<open>The body shared by the calls: prepare, encode, queue the response, process.\<close>

definition submit :: "'t cswp_client_transport_t \<Rightarrow> (CSWP_BUFFER, unit) prog \<Rightarrow> cswp_commands_t
    \<Rightarrow> completion \<Rightarrow> ('t, unit) client" where
  "submit tr enc type cf =
     cswp_check cswp_client_prepare_cmd (\<lambda>_.
     cswp_check (on_c_cmd enc) (\<lambda>_.
     cswp_check (cswp_client_push_request type cf) (\<lambda>_.
     cswp_client_process tr)))"

definition cswp_init :: "'t cswp_client_transport_t \<Rightarrow> cstring \<Rightarrow> ptr \<Rightarrow> ptr \<Rightarrow> size_t \<Rightarrow> ptr \<Rightarrow> ('t, unit) client" where
  "cswp_init tr clientID pVer pID idSize pSvr =
     cswp_check (case t_connect tr of None \<Rightarrow> ret () | Some f \<Rightarrow> f) (\<lambda>_.
     submit tr (cswp_encode_init_command CSWP_PROTOCOL_v1 clientID) CSWP_INIT
       (Init_complete pVer pID idSize pSvr))"

text \<open>The transport is disconnected whatever the result, and the result of that is dropped.\<close>

definition cswp_term :: "'t cswp_client_transport_t \<Rightarrow> ('t, unit) client" where
  "cswp_term tr =
     (let disconnect = (case t_disconnect tr of None \<Rightarrow> ret () | Some f \<Rightarrow> ignore f (ret ())) in
      attempt (submit tr cswp_encode_term_command CSWP_TERM No_completion)
        (\<lambda>res. cswp_check disconnect (\<lambda>_. fail res))
        (\<lambda>_. disconnect))"

definition cswp_batch_begin :: "bool \<Rightarrow> ('t, unit) client" where
  "cswp_batch_begin abortOnError =
     cswp_check cswp_client_prepare_cmd (\<lambda>_.
     modify (\<lambda>c. c\<lparr>batch_mode := (if abortOnError then BATCH_ABORT else BATCH_CONTINUE)\<rparr>))"

definition cswp_batch_end :: "'t cswp_client_transport_t \<Rightarrow> ptr \<Rightarrow> ('t, unit) client" where
  "cswp_batch_end tr ops =
     cswp_check (gets id) (\<lambda>c.
     let finish = modify (\<lambda>c. c\<lparr>batch_mode := BATCH_NONE\<rparr>) in
     if 0 <s num_cmds c then
       attempt (cswp_client_transact tr ops) (\<lambda>res. cswp_check finish (\<lambda>_. fail res)) (\<lambda>_. finish)
     else finish)"

definition cswp_client_info :: "'t cswp_client_transport_t \<Rightarrow> cstring \<Rightarrow> ('t, unit) client" where
  "cswp_client_info tr message =
     submit tr (cswp_encode_client_info_command message) CSWP_CLIENT_INFO No_completion"

definition cswp_set_devices ::
  "'t cswp_client_transport_t \<Rightarrow> c_uint \<Rightarrow> cstring list option \<Rightarrow> cstring list option \<Rightarrow> ('t, unit) client" where
  "cswp_set_devices tr n names types =
     submit tr (cswp_encode_set_devices_command (ucast n) names types) CSWP_SET_DEVICES No_completion"

definition cswp_get_devices :: "'t cswp_client_transport_t \<Rightarrow> ptr \<Rightarrow> ptr list option \<Rightarrow> size_t \<Rightarrow> size_t
    \<Rightarrow> ptr list option \<Rightarrow> size_t \<Rightarrow> size_t \<Rightarrow> ('t, unit) client" where
  "cswp_get_devices tr pCount names nCount nsz types tCount tsz =
     submit tr cswp_encode_get_devices_command CSWP_GET_DEVICES
       (Get_devices_complete pCount names nCount nsz types tCount tsz)"

definition cswp_get_system_description ::
  "'t cswp_client_transport_t \<Rightarrow> ptr \<Rightarrow> ptr \<Rightarrow> ptr \<Rightarrow> size_t \<Rightarrow> ('t, unit) client" where
  "cswp_get_system_description tr pFormat pSize pData bufSize =
     submit tr cswp_encode_get_system_description_command CSWP_GET_SYSTEM_DESCRIPTION
       (Get_system_description_complete pFormat pSize pData bufSize)"

definition cswp_device_open :: "'t cswp_client_transport_t \<Rightarrow> c_uint \<Rightarrow> ptr \<Rightarrow> size_t \<Rightarrow> ('t, unit) client" where
  "cswp_device_open tr deviceNo pInfo infoSize =
     submit tr (cswp_encode_device_open_command (ucast deviceNo)) CSWP_DEVICE_OPEN
       (Device_open_complete pInfo infoSize)"

definition cswp_device_close :: "'t cswp_client_transport_t \<Rightarrow> c_uint \<Rightarrow> ('t, unit) client" where
  "cswp_device_close tr deviceNo =
     submit tr (cswp_encode_device_close_command (ucast deviceNo)) CSWP_DEVICE_CLOSE No_completion"

definition cswp_set_config ::
  "'t cswp_client_transport_t \<Rightarrow> 64 word \<Rightarrow> cstring \<Rightarrow> cstring \<Rightarrow> ('t, unit) client" where
  "cswp_set_config tr deviceNo name val =
     submit tr (cswp_encode_set_config_command deviceNo name val) CSWP_SET_CONFIG No_completion"

definition cswp_get_config ::
  "'t cswp_client_transport_t \<Rightarrow> 64 word \<Rightarrow> cstring \<Rightarrow> ptr \<Rightarrow> size_t \<Rightarrow> ('t, unit) client" where
  "cswp_get_config tr deviceNo name pValue valueSize =
     submit tr (cswp_encode_get_config_command deviceNo name) CSWP_GET_CONFIG
       (Get_config_complete pValue valueSize)"

definition cswp_get_device_capabilities ::
  "'t cswp_client_transport_t \<Rightarrow> 64 word \<Rightarrow> ptr \<Rightarrow> ptr \<Rightarrow> ('t, unit) client" where
  "cswp_get_device_capabilities tr deviceNo pCaps pData =
     submit tr (cswp_encode_get_device_capabilities_command deviceNo) CSWP_GET_DEVICE_CAPABILITIES
       (Get_device_capabilities_complete pCaps pData)"

definition cswp_device_reg_list :: "'t cswp_client_transport_t \<Rightarrow> c_uint \<Rightarrow> ptr \<Rightarrow> ptr \<Rightarrow> size_t
    \<Rightarrow> ptr \<Rightarrow> size_t \<Rightarrow> ('t, unit) client" where
  "cswp_device_reg_list tr deviceNo pCount pInfo infoSize pStr strSize =
     submit tr (cswp_encode_reg_list_command (ucast deviceNo)) CSWP_REG_LIST
       (Reg_list_complete pCount pInfo infoSize pStr strSize)"

text \<open>The register numbers are first widened into a scratch array.\<close>

definition cswp_device_reg_read :: "'t cswp_client_transport_t \<Rightarrow> c_uint \<Rightarrow> size_t \<Rightarrow> c_uint list option
    \<Rightarrow> ptr \<Rightarrow> size_t \<Rightarrow> ('t, unit) client" where
  "cswp_device_reg_read tr deviceNo n registerIDs pValues valuesSize =
     cswp_check (c_map 0 (unat n) (\<lambda>i. cswp_check (nth_p registerIDs i) (\<lambda>r.
                   cswp_check (int_incr i) (\<lambda>_. ret (ucast r))))) (\<lambda>regIDs.
     submit tr (cswp_encode_reg_read_command (ucast deviceNo) n (Some regIDs)) CSWP_REG_READ
       (Reg_read_complete pValues valuesSize))"

text \<open>The pairs are appended whatever the encoder of the header returned, and the results of
  appending them are dropped.\<close>

definition reg_write_pairs ::
  "size_t \<Rightarrow> c_uint list option \<Rightarrow> c_uint list option \<Rightarrow> ('t, unit) client" where
  "reg_write_pairs n registerIDs registerValues =
     c_for_int (unat n) (\<lambda>i.
       cswp_check (nth_p registerIDs i) (\<lambda>r.
       ignore (on_c_cmd (cswp_buffer_put_varint (ucast r)))
       (cswp_check (nth_p registerValues i) (\<lambda>v.
        ignore (on_c_cmd (cswp_buffer_put_uint32 v))
        (ret ())))))"

definition cswp_device_reg_write :: "'t cswp_client_transport_t \<Rightarrow> c_uint \<Rightarrow> size_t \<Rightarrow> c_uint list option
    \<Rightarrow> c_uint list option \<Rightarrow> ('t, unit) client" where
  "cswp_device_reg_write tr deviceNo n registerIDs registerValues =
     cswp_check cswp_client_prepare_cmd (\<lambda>_.
     attempt (on_c_cmd (cswp_encode_reg_write_command (ucast deviceNo) n))
       (\<lambda>res. cswp_check (reg_write_pairs n registerIDs registerValues) (\<lambda>_. fail res))
       (\<lambda>_.
         cswp_check (reg_write_pairs n registerIDs registerValues) (\<lambda>_.
         cswp_check (cswp_client_push_request CSWP_REG_WRITE No_completion) (\<lambda>_.
         cswp_client_process tr))))"

definition cswp_device_mem_read :: "'t cswp_client_transport_t \<Rightarrow> c_uint \<Rightarrow> 64 word \<Rightarrow> size_t \<Rightarrow> c_uint
    \<Rightarrow> c_uint \<Rightarrow> ptr \<Rightarrow> ptr \<Rightarrow> ('t, unit) client" where
  "cswp_device_mem_read tr deviceNo address sz accessSize flags pBuf pCount =
     submit tr (cswp_encode_mem_read_command (ucast deviceNo) address sz (ucast accessSize) (ucast flags))
       CSWP_MEM_READ (Mem_read_complete pBuf pCount)"

definition cswp_device_mem_write :: "'t cswp_client_transport_t \<Rightarrow> c_uint \<Rightarrow> 64 word \<Rightarrow> size_t \<Rightarrow> c_uint
    \<Rightarrow> c_uint \<Rightarrow> byte list \<Rightarrow> ('t, unit) client" where
  "cswp_device_mem_write tr deviceNo address sz accessSize flags data =
     submit tr (cswp_encode_mem_write_command (ucast deviceNo) address sz (ucast accessSize) (ucast flags) data)
       CSWP_MEM_WRITE No_completion"

definition cswp_device_mem_poll :: "'t cswp_client_transport_t \<Rightarrow> c_uint \<Rightarrow> 64 word \<Rightarrow> size_t \<Rightarrow> c_uint
    \<Rightarrow> c_uint \<Rightarrow> c_uint \<Rightarrow> c_uint \<Rightarrow> byte list \<Rightarrow> byte list \<Rightarrow> ptr \<Rightarrow> ptr \<Rightarrow> ('t, unit) client" where
  "cswp_device_mem_poll tr deviceNo address sz accessSize flags tries interval mask_p val_p pBuf pCount =
     submit tr (cswp_encode_mem_poll_command (ucast deviceNo) address sz (ucast accessSize) (ucast flags)
                  (ucast tries) (ucast interval) mask_p val_p)
       CSWP_MEM_POLL (Mem_poll_complete pBuf pCount)"

end
