(* ===== verification/Client_Refines.thy ===== *)
theory Client_Refines
  imports Messages Cswp_Client
begin

text \<open>
  What the client does with the replies. \<open>deliver cf r\<close> is the effect of the reply \<open>r\<close> on the
  caller's memory when the completion \<open>cf\<close> waits for it, without buffers and bytes;
  \<open>receives h bs m\<close> is the simulation: a client program \<open>h\<close> that finds the bytes \<open>bs\<close> unread in the
  response buffer consumes exactly them and does \<open>m\<close> to the caller's memory, undefined behaviour
  included.
\<close>

definition receives :: "('t, unit) client \<Rightarrow> byte list \<Rightarrow> (out_mem, unit) prog \<Rightarrow> bool" where
  "receives h bs m \<longleftrightarrow> (\<forall>c zs. buf_ok (c_rsp c) \<longrightarrow> unread (c_rsp c) = bs @ zs \<longrightarrow>
     (case m (c_out c) of
        Done _ mem \<Rightarrow> h c = Done () (c\<lparr>c_rsp := adv (length bs) (c_rsp c), c_out := mem\<rparr>)
      | Fail e mem \<Rightarrow> True
      | Undef u \<Rightarrow> h c = Undef u))"

lemma receivesI:
  assumes "\<And>c zs mem. buf_ok (c_rsp c) \<Longrightarrow> unread (c_rsp c) = bs @ zs \<Longrightarrow> m (c_out c) = Done () mem \<Longrightarrow>
      h c = Done () (c\<lparr>c_rsp := adv (length bs) (c_rsp c), c_out := mem\<rparr>)"
    and "\<And>c zs u. buf_ok (c_rsp c) \<Longrightarrow> unread (c_rsp c) = bs @ zs \<Longrightarrow> m (c_out c) = Undef u \<Longrightarrow> h c = Undef u"
  shows "receives h bs m"
  using assms by (auto simp: receives_def split: outcome.splits)

lemma receivesD:
  assumes "receives h bs m" and "buf_ok (c_rsp c)" and "unread (c_rsp c) = bs @ zs"
  shows "m (c_out c) = Done () mem \<Longrightarrow> h c = Done () (c\<lparr>c_rsp := adv (length bs) (c_rsp c), c_out := mem\<rparr>)"
    and "m (c_out c) = Undef u \<Longrightarrow> h c = Undef u"
  using assms by (auto simp: receives_def split: outcome.splits)

text \<open>\<open>takes f bs x\<close>: the part of \<open>reads\<close> about complete input. A string that is skipped has only
  this one.\<close>

definition takes :: "(CSWP_BUFFER, 'a) prog \<Rightarrow> byte list \<Rightarrow> 'a \<Rightarrow> bool" where
  "takes f bs x \<longleftrightarrow> (\<forall>b zs. buf_ok b \<longrightarrow> unread b = bs @ zs \<longrightarrow> f b = Done x (adv (length bs) b))"

lemma takes_Done: "takes f bs x \<Longrightarrow> buf_ok b \<Longrightarrow> unread b = bs @ zs \<Longrightarrow> f b = Done x (adv (length bs) b)"
  by (simp add: takes_def)

lemma reads_takes: "reads f bs x \<Longrightarrow> takes f bs x"
  by (simp add: reads_def takes_def)

lemma takes_ret: "takes (ret x) [] x"
  by (simp add: takes_def)

lemma takes_check:
  assumes "takes f bs x" and "takes (g x) cs y"
  shows "takes (cswp_check f g) (bs @ cs) y"
  using assms by (simp add: takes_def adv_ok unread_adv)

lemma takes_check_ret:
  assumes "takes f bs x" and "y = g x"
  shows "takes (cswp_check f (\<lambda>x. ret (g x))) bs y"
proof -
  have "takes (cswp_check f (\<lambda>x. ret (g x))) (bs @ []) (g x)"
    by (rule takes_check [OF assms(1) takes_ret])
  then show ?thesis using assms(2) by simp
qed

lemma on_c_rsp_reads:
  assumes "takes dec bs x" and "buf_ok (c_rsp c)" and "unread (c_rsp c) = bs @ zs"
  shows "on_c_rsp dec c = Done x (c\<lparr>c_rsp := adv (length bs) (c_rsp c)\<rparr>)"
  using takes_Done [OF assms] by (simp add: on_c_rsp_def zoom_def)

text \<open>The unread bytes after the first part has been consumed.\<close>

lemma after_read:
  assumes "buf_ok b" and "unread b = bs @ zs"
  shows "buf_ok (adv (length bs) b)" and "unread (adv (length bs) b) = zs"
  using assms by (simp_all add: adv_ok unread_adv)

lemma receives_read:
  fixes k :: "'x \<Rightarrow> ('t, unit) client"
  assumes dec: "takes dec bs x" and k: "receives (k x) cs m"
  shows "receives (cswp_check (on_c_rsp dec) k) (bs @ cs) m"
proof (rule receivesI)
  fix c :: "'t cswp_client_t" and zs mem
  let ?c = "c\<lparr>c_rsp := adv (length bs) (c_rsp c)\<rparr>"
  assume c: "buf_ok (c_rsp c)" "unread (c_rsp c) = (bs @ cs) @ zs" "m (c_out c) = Done () mem"
  have u: "unread (c_rsp c) = bs @ (cs @ zs)" using c(2) by simp
  have "k x ?c = Done () (?c\<lparr>c_rsp := adv (length cs) (c_rsp ?c), c_out := mem\<rparr>)"
    by (rule receivesD(1) [OF k, of ?c zs]) (use after_read [OF c(1) u] c(3) in simp_all)
  then show "cswp_check (on_c_rsp dec) k c = Done () (c\<lparr>c_rsp := adv (length (bs @ cs)) (c_rsp c), c_out := mem\<rparr>)"
    by (simp add: on_c_rsp_reads [OF dec c(1) u])
next
  fix c :: "'t cswp_client_t" and zs u'
  let ?c = "c\<lparr>c_rsp := adv (length bs) (c_rsp c)\<rparr>"
  assume c: "buf_ok (c_rsp c)" "unread (c_rsp c) = (bs @ cs) @ zs" "m (c_out c) = Undef u'"
  have u: "unread (c_rsp c) = bs @ (cs @ zs)" using c(2) by simp
  have "k x ?c = Undef u'"
    by (rule receivesD(2) [OF k, of ?c zs]) (use after_read [OF c(1) u] c(3) in simp_all)
  then show "cswp_check (on_c_rsp dec) k c = Undef u'"
    by (simp add: on_c_rsp_reads [OF dec c(1) u])
qed

lemma receives_read_all:
  "takes dec bs x \<Longrightarrow> receives (k x) [] m \<Longrightarrow> receives (cswp_check (on_c_rsp dec) k) bs m"
  using receives_read [of dec bs x k "[]"] by simp

lemma on_out_eq: "on_out f c = (case f (c_out c) of
    Done x m \<Rightarrow> Done x (c\<lparr>c_out := m\<rparr>) | Fail e m \<Rightarrow> Fail e (c\<lparr>c_out := m\<rparr>) | Undef u \<Rightarrow> Undef u)"
  by (simp add: on_out_def zoom_def)

lemma receives_ret: "receives (ret ()) [] (ret ())"
  by (simp add: receives_def)

lemma receives_out: "receives (on_out f) [] f"
  by (auto simp: receives_def on_out_eq split: outcome.splits)

text \<open>Two programs in sequence.\<close>

lemma receives_seq:
  fixes f :: "('t, unit) client"
  assumes f: "receives f bs m" and g: "receives g cs m'" and never: "\<And>mem e mem'. m mem \<noteq> Fail e mem'"
  shows "receives (cswp_check f (\<lambda>_. g)) (bs @ cs) (cswp_check m (\<lambda>_. m'))"
proof (rule receivesI)
  fix c :: "'t cswp_client_t" and zs mem
  assume c: "buf_ok (c_rsp c)" "unread (c_rsp c) = (bs @ cs) @ zs" "cswp_check m (\<lambda>_. m') (c_out c) = Done () mem"
  have u: "unread (c_rsp c) = bs @ (cs @ zs)" using c(2) by simp
  obtain mem1 where m: "m (c_out c) = Done () mem1" "m' mem1 = Done () mem"
    using c(3) by (auto simp: cswp_check_eq_Done)
  let ?c = "c\<lparr>c_rsp := adv (length bs) (c_rsp c), c_out := mem1\<rparr>"
  have "g ?c = Done () (?c\<lparr>c_rsp := adv (length cs) (c_rsp ?c), c_out := mem\<rparr>)"
    by (rule receivesD(1) [OF g, of ?c zs]) (use after_read [OF c(1) u] m(2) in simp_all)
  then show "cswp_check f (\<lambda>_. g) c = Done () (c\<lparr>c_rsp := adv (length (bs @ cs)) (c_rsp c), c_out := mem\<rparr>)"
    by (simp add: receivesD(1) [OF f c(1) u m(1)])
next
  fix c :: "'t cswp_client_t" and zs u'
  assume c: "buf_ok (c_rsp c)" "unread (c_rsp c) = (bs @ cs) @ zs" "cswp_check m (\<lambda>_. m') (c_out c) = Undef u'"
  have u: "unread (c_rsp c) = bs @ (cs @ zs)" using c(2) by simp
  show "cswp_check f (\<lambda>_. g) c = Undef u'"
  proof (cases "m (c_out c)")
    case (Done x mem1)
    let ?c = "c\<lparr>c_rsp := adv (length bs) (c_rsp c), c_out := mem1\<rparr>"
    have "g ?c = Undef u'"
      by (rule receivesD(2) [OF g, of ?c zs]) (use after_read [OF c(1) u] c(3) Done in simp_all)
    then show ?thesis using Done by (simp add: receivesD(1) [OF f c(1) u])
  next
    case (Undef v)
    then show ?thesis using c(3) by (simp add: receivesD(2) [OF f c(1) u])
  qed (use never in simp)
qed

lemma receives_out_then:
  fixes m :: "(out_mem, unit) prog"
  shows "receives g cs m' \<Longrightarrow> (\<And>mem e mem'. m mem \<noteq> Fail e mem') \<Longrightarrow>
   receives (cswp_check (on_out m) (\<lambda>_. g)) cs (cswp_check m (\<lambda>_. m'))"
  using receives_seq [OF receives_out, of g cs m' m] by simp

lemma receives_seq_out:
  fixes f :: "('t, unit) client"
  shows "receives f [] m \<Longrightarrow> receives g cs m' \<Longrightarrow> (\<And>mem e mem'. m mem \<noteq> Fail e mem') \<Longrightarrow>
   receives (cswp_check f (\<lambda>_. g)) cs (cswp_check m (\<lambda>_. m'))"
  using receives_seq [of f "[]" m g cs m'] by simp

lemma receives_cong:
  assumes "receives h bs m"
    and "\<And>c zs. buf_ok (c_rsp c) \<Longrightarrow> unread (c_rsp c) = bs @ zs \<Longrightarrow> h' c = h c"
  shows "receives h' bs m"
  by (rule receivesI; simp only: assms(2); erule (2) receivesD [OF assms(1)])

text \<open>A result code that is dropped, or handled, when there is none.\<close>

lemma receives_ignore:
  assumes f: "receives f bs m" and g: "receives g cs m'" and never: "\<And>mem e mem'. m mem \<noteq> Fail e mem'"
  shows "receives (ignore f g) (bs @ cs) (cswp_check m (\<lambda>_. m'))"
proof (rule receives_cong [OF receives_seq [OF assms]])
  fix c :: "'a cswp_client_t" and zs
  assume c: "buf_ok (c_rsp c)" "unread (c_rsp c) = (bs @ cs) @ zs"
  then have u: "unread (c_rsp c) = bs @ (cs @ zs)" by simp
  have "\<not> (\<exists>e c'. f c = Fail e c')"
    using never receivesD [OF f c(1) u] by (cases "m (c_out c)") auto
  then show "ignore f g c = cswp_check f (\<lambda>_. g) c"
    by (simp add: ignore_def cswp_check_def split: outcome.splits)
qed

lemma receives_attempt_read:
  assumes "takes dec bs x" and "receives (k x) cs m"
  shows "receives (attempt (on_c_rsp dec) eh k) (bs @ cs) m"
  by (rule receives_cong [OF receives_read [where k = k, OF assms]]) (simp add: on_c_rsp_reads [OF assms(1)])

lemma never_for:
  assumes "\<And>i mem e mem'. body i mem \<noteq> Fail e mem'"
  shows "c_for i n body mem \<noteq> Fail e mem'"
proof (induction "n - i" arbitrary: i mem)
  case (Suc k)
  then have "i < n" and "k = n - Suc i" by simp_all
  then show ?case using assms Suc.hyps(1) by (simp add: c_for_step cswp_check_def split: outcome.splits)
qed simp

lemma receives_for:
  assumes "\<And>i. i < n \<Longrightarrow> receives (body i) (bs i) (m i)"
    and never: "\<And>i mem e mem'. m i mem \<noteq> Fail e mem'"
  shows "receives (c_for i n body) (concat (map bs [i..<n])) (c_for i n m)"
proof (induction "n - i" arbitrary: i)
  case 0
  then show ?case by (simp add: receives_def)
next
  case (Suc k)
  then have lt: "i < n" and k: "k = n - Suc i" by simp_all
  have "receives (cswp_check (body i) (\<lambda>_. c_for (Suc i) n body)) (bs i @ concat (map bs [Suc i..<n]))
      (cswp_check (m i) (\<lambda>_. c_for (Suc i) n m))"
    by (rule receives_seq [OF assms(1) [OF lt] Suc.hyps(1) [OF k] never])
  moreover have "[i..<n] = i # [Suc i..<n]" by (rule upt_conv_Cons [OF lt])
  ultimately show ?case by (simp add: c_for_step [OF lt])
qed

lemma receives_for_int:
  assumes "\<And>i. i < length xs \<Longrightarrow> receives (body i) (f (xs ! i)) (m i)"
    and never: "\<And>i mem e mem'. m i mem \<noteq> Fail e mem'" and "length xs < 2 ^ 31"
  shows "receives (c_for_int (length xs) body) (concat (map f xs)) (c_for 0 (length xs) m)"
proof -
  have "receives (cswp_check (body i) (\<lambda>_. int_incr i)) (f (xs ! i)) (m i)" if "i < length xs" for i
    using that assms(1,3) by (simp add: int_incr_small del: ret_apply)
  then have "receives (c_for_int (length xs) body) (concat (map (\<lambda>i. f (xs ! i)) [0..<length xs]))
      (c_for 0 (length xs) m)"
    unfolding c_for_int_def by (rule receives_for [OF _ never])
  then show ?thesis by (simp only: concat_map_nth)
qed

lemma store_never_fails [simp]:
  "store_uint p v mem \<noteq> Fail e mem'" "store_size p n mem \<noteq> Fail e mem'"
  "store_bytes p off bs mem \<noteq> Fail e mem'" "store_string p off s mem \<noteq> Fail e mem'"
  "store_word p i v mem \<noteq> Fail e mem'"
  by (auto simp: store_uint_def store_size_def store_bytes_def store_string_def store_word_def
      split: option.splits)

subsection \<open>The effect of a reply\<close>

definition store_optional_text :: "ptr \<Rightarrow> size_t \<Rightarrow> byte list \<Rightarrow> (out_mem, unit) prog" where
  "store_optional_text p n s = (if n = 0 \<or> p = None then ret () else store_string p 0 (cstr s))"

definition store_optional_uint :: "ptr \<Rightarrow> c_uint \<Rightarrow> (out_mem, unit) prog" where
  "store_optional_uint p v = (if p = None then ret () else store_uint p v)"

fun deliver :: "completion \<Rightarrow> reply \<Rightarrow> (out_mem, unit) prog" where
  "deliver No_completion r = (case r of Ack t \<Rightarrow> ret () | _ \<Rightarrow> fail (res_val CSWP_COMMS))"
| "deliver (Init_complete v i n s) r = (case r of
     Init_reply p sid sv \<Rightarrow>
       cswp_check (store_optional_text i n sid) (\<lambda>_.
       cswp_check (store_optional_uint v (ucast p)) (\<lambda>_.
       store_optional_uint s (ucast sv)))
   | _ \<Rightarrow> fail (res_val CSWP_COMMS))"
| "deliver (Get_devices_complete c l ln le t tn te) r = (case r of
     Get_devices_reply ds \<Rightarrow>
       cswp_check (store_uint c (of_nat (length ds))) (\<lambda>_.
       c_for 0 (length ds) (\<lambda>i.
         cswp_check (store_string (the l ! i) 0 (string_view (fst (ds ! i)))) (\<lambda>_.
         store_string (the t ! i) 0 (string_view (snd (ds ! i))))))
   | _ \<Rightarrow> fail (res_val CSWP_COMMS))"
| "deliver (Get_system_description_complete f s d n) r = (case r of
     System_description_reply fmt data \<Rightarrow>
       cswp_check (store_bytes d 0 data) (\<lambda>_.
       cswp_check (store_uint f (ucast fmt)) (\<lambda>_.
       store_uint s (of_nat (length data))))
   | _ \<Rightarrow> fail (res_val CSWP_COMMS))"
| "deliver (Device_open_complete p n) r = (case r of
     Device_open_reply i \<Rightarrow> store_optional_text p n i | _ \<Rightarrow> fail (res_val CSWP_COMMS))"
| "deliver (Get_config_complete p n) r = (case r of
     Get_config_reply v \<Rightarrow> store_string p 0 (cstr v) | _ \<Rightarrow> fail (res_val CSWP_COMMS))"
| "deliver (Get_device_capabilities_complete p q) r = (case r of
     Capabilities_reply c d \<Rightarrow> cswp_check (store_uint p (ucast c)) (\<lambda>_. store_uint q (ucast d))
   | _ \<Rightarrow> fail (res_val CSWP_COMMS))"
| "deliver (Reg_list_complete c i n s m) r = fail (res_val CSWP_COMMS)"
| "deliver (Reg_read_complete p n) r = (case r of
     Reg_read_reply vs \<Rightarrow> c_for 0 (length vs) (\<lambda>i. store_word p i (vs ! i))
   | _ \<Rightarrow> fail (res_val CSWP_COMMS))"
| "deliver (Mem_read_complete p q) r = (case r of
     Mem_read_reply d \<Rightarrow> cswp_check (store_bytes p 0 d) (\<lambda>_. store_size q (of_nat (length d)))
   | _ \<Rightarrow> fail (res_val CSWP_COMMS))"
| "deliver (Mem_poll_complete p q) r = (case r of
     Mem_poll_reply d \<Rightarrow>
       cswp_check (if p = None then ret () else store_bytes p 0 d) (\<lambda>_.
       if q = None then ret () else store_size q (of_nat (length d)))
   | _ \<Rightarrow> fail (res_val CSWP_COMMS))"

text \<open>The replies a completion accepts: its own kind, integers below \<open>2\<^sup>3\<^sup>1\<close>, strings and lists
  that fit the sizes the caller gave.\<close>

fun reply_fits :: "completion \<Rightarrow> reply \<Rightarrow> bool" where
  "reply_fits No_completion r = (case r of Ack t \<Rightarrow> True | _ \<Rightarrow> False)"
| "reply_fits (Init_complete v i n s) r = (case r of
     Init_reply p sid sv \<Rightarrow> varint_ok p \<and> varint_ok sv \<and> text_ok (Some sid)
       \<and> (n = 0 \<or> i = None \<or> string_fits n (Some sid))
   | _ \<Rightarrow> False)"
| "reply_fits (Get_devices_complete c l ln le t tn te) r = (case r of
     Get_devices_reply ds \<Rightarrow> count_ok ds \<and> length ds \<le> unat ln \<and> length ds \<le> unat tn
       \<and> l \<noteq> None \<and> t \<noteq> None \<and> length ds \<le> length (the l) \<and> length ds \<le> length (the t)
       \<and> (\<forall>(n, ty) \<in> set ds. string_fits le n \<and> string_fits te ty)
   | _ \<Rightarrow> False)"
| "reply_fits (Get_system_description_complete f s d n) r = (case r of
     System_description_reply fmt data \<Rightarrow> varint_ok fmt \<and> count_ok data \<and> length data \<le> unat n
   | _ \<Rightarrow> False)"
| "reply_fits (Device_open_complete p n) r = (case r of
     Device_open_reply i \<Rightarrow> text_ok (Some i) \<and> (n = 0 \<or> p = None \<or> string_fits n (Some i))
   | _ \<Rightarrow> False)"
| "reply_fits (Get_config_complete p n) r = (case r of
     Get_config_reply v \<Rightarrow> string_fits n (Some v) | _ \<Rightarrow> False)"
| "reply_fits (Get_device_capabilities_complete p q) r = (case r of
     Capabilities_reply c d \<Rightarrow> varint_ok c \<and> varint_ok d | _ \<Rightarrow> False)"
| "reply_fits (Reg_list_complete c i n s m) r = False"
| "reply_fits (Reg_read_complete p n) r = (case r of
     Reg_read_reply vs \<Rightarrow> count_ok vs \<and> length vs \<le> unat n | _ \<Rightarrow> False)"
| "reply_fits (Mem_read_complete p q) r = (case r of Mem_read_reply d \<Rightarrow> count_ok d | _ \<Rightarrow> False)"
| "reply_fits (Mem_poll_complete p q) r = (case r of Mem_poll_reply d \<Rightarrow> count_ok d | _ \<Rightarrow> False)"

text \<open>The bytes of a reply after its header.\<close>

fun reply_body :: "reply \<Rightarrow> byte list" where
  "reply_body (Error_reply t e msg) = string_enc (Some msg)"
| "reply_body (Ack t) = []"
| "reply_body (Init_reply p i v) = varint_enc p @ string_enc (Some i) @ varint_enc v"
| "reply_body (Get_devices_reply ds) = list_bytes (\<lambda>(n, t). string_enc n @ string_enc t) ds"
| "reply_body (System_description_reply f d) = varint_enc f @ data_bytes d"
| "reply_body (Device_open_reply i) = string_enc (Some i)"
| "reply_body (Get_config_reply v) = string_enc (Some v)"
| "reply_body (Capabilities_reply c d) = varint_enc c @ varint_enc d"
| "reply_body (Reg_list_reply rs) = list_bytes reg_bytes rs"
| "reply_body (Reg_read_reply vs) = list_bytes (le_bytes 4) vs"
| "reply_body (Mem_read_reply d) = data_bytes d"
| "reply_body (Mem_poll_reply d) = data_bytes d"

fun reply_type :: "reply \<Rightarrow> 64 word" where
  "reply_type (Error_reply t e msg) = t"
| "reply_type (Ack t) = cmd_val t"
| "reply_type (Init_reply p i v) = cmd_val CSWP_INIT"
| "reply_type (Get_devices_reply ds) = cmd_val CSWP_GET_DEVICES"
| "reply_type (System_description_reply f d) = cmd_val CSWP_GET_SYSTEM_DESCRIPTION"
| "reply_type (Device_open_reply i) = cmd_val CSWP_DEVICE_OPEN"
| "reply_type (Get_config_reply v) = cmd_val CSWP_GET_CONFIG"
| "reply_type (Capabilities_reply c d) = cmd_val CSWP_GET_DEVICE_CAPABILITIES"
| "reply_type (Reg_list_reply rs) = cmd_val CSWP_REG_LIST"
| "reply_type (Reg_read_reply vs) = cmd_val CSWP_REG_READ"
| "reply_type (Mem_read_reply d) = cmd_val CSWP_MEM_READ"
| "reply_type (Mem_poll_reply d) = cmd_val CSWP_MEM_POLL"

fun reply_code :: "reply \<Rightarrow> 64 word" where
  "reply_code (Error_reply t e msg) = scast e"
| "reply_code _ = 0"

lemma reply_bytes_split:
  "reply_bytes r = (varint_enc (reply_type r) @ varint_enc (reply_code r)) @ reply_body r"
  by (cases r) (simp_all add: ok_header_def)

subsection \<open>The completions deliver the replies\<close>

lemma takes_optional_string:
  assumes "text_ok (Some t)" and "n = 0 \<or> p = None \<or> string_fits n (Some t)"
  shows "takes (cswp_get_optional_string (p = None) n) (string_enc (Some t))
    (if n = 0 \<or> p = None then None else Some (cstr t))"
proof (cases "n = 0 \<or> p = None")
  case True
  have "string_fits 0x80000000 (Some t)"
    using assms(1) length_cstr_le [of t] by (simp add: text_ok_def string_fits_def word_less_nat_alt)
  then show ?thesis using True by (auto simp: takes_def skip_optional_string)
next
  case False
  then show ?thesis
    using assms(2) reads_takes [OF reads_get_optional_string [of n "Some t"]] by auto
qed

lemma receives_store_optional:
  "receives (store_optional p (if n = 0 \<or> p = None then None else Some (cstr t))) []
    (store_optional_text p n t)"
  by (simp add: store_optional_def store_optional_text_def receives_ret receives_out del: ret_apply)

lemma receives_store_if: "receives (store_if_uint p v) [] (store_optional_uint p v)"
  by (simp add: store_if_uint_def store_optional_uint_def receives_ret receives_out del: ret_apply)

lemma store_optional_never_fails [simp]:
  "store_optional_text p n t mem \<noteq> Fail e mem'" "store_optional_uint p v mem \<noteq> Fail e mem'"
  by (simp_all add: store_optional_text_def store_optional_uint_def)

lemma receives_init:
  assumes "reply_fits (Init_complete v i n s) (Init_reply p sid sv)"
  shows "receives (run_complete (Init_complete v i n s)) (reply_body (Init_reply p sid sv))
    (deliver (Init_complete v i n s) (Init_reply p sid sv))"
proof -
  let ?sid = "if n = 0 \<or> i = None then None else Some (cstr sid)"
  have ok: "varint_ok p" "varint_ok sv" "text_ok (Some sid)" "n = 0 \<or> i = None \<or> string_fits n (Some sid)"
    using assms by simp_all
  have dec: "takes (cswp_decode_init_response_body (i = None) n) (reply_body (Init_reply p sid sv)) (p, ?sid, sv)"
    unfolding cswp_decode_init_response_body_def reply_body.simps
    by (rule takes_check [OF reads_takes [OF reads_get_varint [OF ok(1)]]],
        rule takes_check [OF takes_optional_string [OF ok(3,4)]],
        rule takes_check_ret [OF reads_takes [OF reads_get_varint [OF ok(2)]]], rule refl)
  have store: "receives (cswp_check (store_optional i ?sid) (\<lambda>_.
        cswp_check (store_if_uint v (ucast p)) (\<lambda>_. store_if_uint s (ucast sv)))) []
      (cswp_check (store_optional_text i n sid) (\<lambda>_.
        cswp_check (store_optional_uint v (ucast p)) (\<lambda>_. store_optional_uint s (ucast sv))))"
    by (rule receives_seq_out [OF receives_store_optional receives_seq_out [OF receives_store_if receives_store_if]])
      simp_all
  show ?thesis
    unfolding run_complete.simps cswp_init_complete_def deliver.simps reply.case
    by (rule receives_read_all [OF dec]) (simp only: prod.case store)
qed

lemma receives_get_string_to:
  "string_fits n s \<Longrightarrow> receives (get_string_to p n) (string_enc s) (store_string p 0 (string_view s))"
  unfolding get_string_to_def
  by (rule receives_read_all [OF reads_takes [OF reads_get_string_fits] receives_out])

lemma check_never_fails:
  "(\<And>mem e mem'. f mem \<noteq> Fail e mem') \<Longrightarrow> (\<And>x mem e mem'. g x mem \<noteq> Fail e mem') \<Longrightarrow>
   cswp_check f g mem \<noteq> Fail e mem'"
  by (simp add: cswp_check_def split: outcome.splits)

lemma receives_get_devices:
  assumes "reply_fits (Get_devices_complete c l ln le t tn te) (Get_devices_reply ds)"
  shows "receives (run_complete (Get_devices_complete c l ln le t tn te)) (reply_body (Get_devices_reply ds))
    (deliver (Get_devices_complete c l ln le t tn te) (Get_devices_reply ds))"
proof -
  let ?n = "of_nat (length ds) :: 64 word"
  have ok: "count_ok ds" "length ds \<le> unat ln" "length ds \<le> unat tn" "length ds \<le> length (the l)"
      "length ds \<le> length (the t)"
    and fits: "\<And>i. i < length ds \<Longrightarrow> string_fits le (fst (ds ! i)) \<and> string_fits te (snd (ds ! i))"
    using assms by (auto simp: case_prod_beta)
  obtain ls ts where lt: "l = Some ls" "t = Some ts" using assms by auto
  have n: "unat ?n = length ds" by (rule unat_count [OF ok(1)])
  have small: "length ds < 2 ^ 31" using ok(1) by (simp add: count_ok_def)
  let ?store = "\<lambda>i. cswp_check (store_string (the l ! i) 0 (string_view (fst (ds ! i)))) (\<lambda>_.
       store_string (the t ! i) 0 (string_view (snd (ds ! i))))"
  have item: "receives (get_devices_item l le t te i)
      ((\<lambda>(n, t). string_enc n @ string_enc t) (ds ! i)) (?store i)" if i: "i < length ds" for i
  proof -
    have len: "i < length ls" "i < length ts" using i ok(4,5) lt by simp_all
    show ?thesis
      using receives_ignore [OF receives_get_string_to receives_get_string_to, of le "fst (ds ! i)" te "snd (ds ! i)"]
        fits [OF i] len
      by (simp add: get_devices_item_def case_prod_beta lt nth_p_Some del: ret_apply)
  qed
  have loop: "receives (c_for_int (unat ?n) (get_devices_item l le t te))
      (concat (map (\<lambda>(n, t). string_enc n @ string_enc t) ds)) (c_for 0 (length ds) ?store)"
    unfolding n by (rule receives_for_int [OF _ _ small]) (erule item, simp add: check_never_fails)
  have fit: "\<not> ln < ?n" "\<not> tn < ?n" using ok(2,3) by (simp_all add: word_less_nat_alt n)
  show ?thesis
    unfolding run_complete.simps cswp_get_devices_complete_def cswp_decode_get_devices_response_body_def
      deliver.simps reply.case reply_body.simps list_bytes_def
    by (rule receives_read [OF reads_takes [OF reads_get_varint [OF varint_ok_count [OF ok(1)]]]])
      (simp only: fit if_False ucast_of_nat_32, rule receives_out_then [OF loop], simp)
qed

lemma receives_system_description:
  assumes "reply_fits (Get_system_description_complete f s d n) (System_description_reply fmt data)"
  shows "receives (run_complete (Get_system_description_complete f s d n))
    (reply_body (System_description_reply fmt data))
    (deliver (Get_system_description_complete f s d n) (System_description_reply fmt data))"
proof -
  let ?n = "of_nat (length data) :: 64 word"
  have ok: "varint_ok fmt" "count_ok data" "length data \<le> unat n" using assms by simp_all
  have fit: "\<not> n < ?n" "(if n < ?n then n else ?n) = ?n"
    using ok(3) by (simp_all add: word_less_nat_alt unat_count [OF ok(2)])
  have body: "reads (cswp_buffer_get_data ?n) data data" by (rule reads_get_data) (simp add: unat_count [OF ok(2)])
  have dec: "takes (cswp_decode_get_system_description_response_body n)
      (reply_body (System_description_reply fmt data)) (fmt, ?n, data)"
    unfolding cswp_decode_get_system_description_response_body_def reply_body.simps data_bytes_def
    by (rule takes_check [OF reads_takes [OF reads_get_varint [OF ok(1)]]],
        rule takes_check [OF reads_takes [OF reads_get_varint [OF varint_ok_count [OF ok(2)]]]])
      (simp only: Let_def fit(2), rule takes_check_ret [OF reads_takes [OF body] refl])
  show ?thesis
    unfolding run_complete.simps cswp_get_system_description_complete_def deliver.simps reply.case
    by (rule receives_read_all [OF dec], simp only: prod.case fit(1) if_False check_ret_unit ucast_of_nat_32)
      (intro receives_out_then receives_out, simp_all)
qed

lemma receives_scalars:
  "reply_fits (Device_open_complete p n) (Device_open_reply i) \<Longrightarrow>
   receives (run_complete (Device_open_complete p n)) (reply_body (Device_open_reply i))
     (deliver (Device_open_complete p n) (Device_open_reply i))"
  "reply_fits (Get_config_complete p n) (Get_config_reply i) \<Longrightarrow>
   receives (run_complete (Get_config_complete p n)) (reply_body (Get_config_reply i))
     (deliver (Get_config_complete p n) (Get_config_reply i))"
  "reply_fits (Get_device_capabilities_complete p q) (Capabilities_reply c d) \<Longrightarrow>
   receives (run_complete (Get_device_capabilities_complete p q)) (reply_body (Capabilities_reply c d))
     (deliver (Get_device_capabilities_complete p q) (Capabilities_reply c d))"
proof -
  assume "reply_fits (Device_open_complete p n) (Device_open_reply i)"
  then have ok: "text_ok (Some i)" "n = 0 \<or> p = None \<or> string_fits n (Some i)" by simp_all
  show "receives (run_complete (Device_open_complete p n)) (reply_body (Device_open_reply i))
     (deliver (Device_open_complete p n) (Device_open_reply i))"
    unfolding run_complete.simps cswp_device_open_complete_def cswp_decode_device_open_response_body_def
      deliver.simps reply.case reply_body.simps
    by (rule receives_read_all, rule takes_optional_string [OF ok]) (rule receives_store_optional)
next
  assume "reply_fits (Get_config_complete p n) (Get_config_reply i)"
  then have "string_fits n (Some i)" by simp
  from receives_get_string_to [OF this] show "receives (run_complete (Get_config_complete p n))
     (reply_body (Get_config_reply i)) (deliver (Get_config_complete p n) (Get_config_reply i))"
    by (simp add: cswp_get_config_complete_def cswp_decode_get_config_response_body_def get_string_to_def)
next
  assume "reply_fits (Get_device_capabilities_complete p q) (Capabilities_reply c d)"
  then have dec: "takes cswp_decode_get_device_capabilities_response_body (reply_body (Capabilities_reply c d)) (c, d)"
    unfolding cswp_decode_get_device_capabilities_response_body_def reply_body.simps
    by (intro takes_check [OF reads_takes [OF reads_get_varint]] takes_check_ret [OF reads_takes [OF reads_get_varint]])
      simp_all
  show "receives (run_complete (Get_device_capabilities_complete p q)) (reply_body (Capabilities_reply c d))
     (deliver (Get_device_capabilities_complete p q) (Capabilities_reply c d))"
    unfolding run_complete.simps cswp_get_device_capabilities_complete_def deliver.simps reply.case
    by (rule receives_read_all [OF dec], simp only: prod.case)
      (intro receives_out_then receives_out, simp)
qed

lemma receives_reg_read:
  assumes "reply_fits (Reg_read_complete p n) (Reg_read_reply vs)"
  shows "receives (run_complete (Reg_read_complete p n)) (reply_body (Reg_read_reply vs))
    (deliver (Reg_read_complete p n) (Reg_read_reply vs))"
proof -
  have ok: "count_ok vs" "length vs \<le> unat n" using assms by simp_all
  have fit: "\<not> n < of_nat (length vs)" using ok(2) by (simp add: word_less_nat_alt unat_count [OF ok(1)])
  have item: "receives (cswp_check (on_c_rsp cswp_buffer_get_uint32) (\<lambda>v. on_out (store_word p i v)))
      (le_bytes 4 (vs ! i)) (store_word p i (vs ! i))" for i
    by (rule receives_read_all [OF reads_takes [OF reads_get_uint32] receives_out])
  have loop: "receives (c_for_int (length vs) (\<lambda>i. cswp_check (on_c_rsp cswp_buffer_get_uint32)
      (\<lambda>v. on_out (store_word p i v)))) (concat (map (le_bytes 4) vs))
      (c_for 0 (length vs) (\<lambda>i. store_word p i (vs ! i)))"
    by (rule receives_for_int) (rule item, use ok(1) in \<open>simp_all add: count_ok_def\<close>)
  show ?thesis
    unfolding run_complete.simps cswp_device_reg_read_complete_def cswp_decode_reg_read_response_body_def
      deliver.simps reply.case reply_body.simps list_bytes_def
    by (rule receives_read [OF reads_takes [OF reads_get_varint [OF varint_ok_count [OF ok(1)]]]])
      (simp only: fit if_False unat_count [OF ok(1)] loop)
qed

lemma receives_memory:
  assumes "count_ok d"
  shows "receives (run_complete (Mem_read_complete p q)) (reply_body (Mem_read_reply d))
      (deliver (Mem_read_complete p q) (Mem_read_reply d))"
    and "receives (run_complete (Mem_poll_complete p q)) (reply_body (Mem_poll_reply d))
      (deliver (Mem_poll_complete p q) (Mem_poll_reply d))"
proof -
  note count = reads_takes [OF reads_get_varint [OF varint_ok_count [OF assms]]]
  note block = reads_takes [OF reads_get_block [OF assms]]
  have data: "receives (attempt (on_c_rsp (cswp_buffer_get_direct (of_nat (length d)))) eh k) d m"
    if "receives (k d) [] m" for eh m and k :: "byte list \<Rightarrow> ('t, unit) client"
    using receives_attempt_read [where k = k, OF block that] by simp
  show "receives (run_complete (Mem_read_complete p q)) (reply_body (Mem_read_reply d))
      (deliver (Mem_read_complete p q) (Mem_read_reply d))"
    unfolding run_complete.simps cswp_device_mem_read_complete_def cswp_decode_mem_read_response_body_def
      deliver.simps reply.case reply_body.simps data_bytes_def
    by (rule receives_read [OF count], rule data, rule receives_out_then [OF receives_out]) simp
  have store: "receives (if p = None then ret () else on_out (store_bytes p 0 d)) []
      (if p = None then ret () else store_bytes p 0 d)"
    "receives (if q = None then ret () else on_out (store_size q n)) []
      (if q = None then ret () else store_size q n)" for n
    by (simp_all add: receives_ret receives_out del: ret_apply)
  show "receives (run_complete (Mem_poll_complete p q)) (reply_body (Mem_poll_reply d))
      (deliver (Mem_poll_complete p q) (Mem_poll_reply d))"
    unfolding run_complete.simps cswp_device_mem_poll_complete_def cswp_decode_mem_poll_response_body_def
      deliver.simps reply.case reply_body.simps data_bytes_def
    by (rule receives_read [OF count], rule receives_seq [where cs = "[]", simplified, OF data store(2)])
      (rule store(1), simp split: if_splits)
qed

lemma receives_reply:
  assumes "reply_fits cf r"
  shows "receives (run_complete cf) (reply_body r) (deliver cf r)"
  using assms
  by (cases cf; cases r)
    (simp_all only: reply_fits.simps reply.case receives_init receives_get_devices receives_system_description
      receives_scalars receives_reg_read receives_memory, simp_all add: receives_ret del: ret_apply)

end
