(* ===== verification/Client_Transact.thy ===== *)
theory Client_Transact
  imports Client_Refines
begin

text \<open>
  A transaction of the client: the request it builds, and what a response makes of the queued
  completions. \<open>deliver_all\<close> is the effect of a list of replies on the caller's memory; the
  theorems say that a transaction whose transport brings back the bytes of the replies has
  that effect, and what an error reply, a reply of another type and a short response do.
\<close>

subsection \<open>One response\<close>

lemma takes_response_header:
  assumes "varint_ok t" and "varint_ok e"
  shows "takes cswp_decode_response_header (varint_enc t @ varint_enc e) (t, e)"
  unfolding cswp_decode_response_header_def
  by (intro takes_check [OF reads_takes [OF reads_get_varint]] takes_check_ret [OF reads_takes [OF reads_get_varint]] assms refl)

lemma reply_fits_code: "reply_fits cf r \<Longrightarrow> reply_code r = 0"
  by (cases cf; cases r) simp_all

lemma receives_response:
  assumes "reply_fits (complete p) r" and "reply_type r = cmd_val (pending_type p)"
  shows "receives (cswp_client_process_response p) (reply_bytes r) (deliver (complete p) r)"
  unfolding cswp_client_process_response_def reply_bytes_split assms(2) reply_fits_code [OF assms(1)]
  by (rule receives_read [OF takes_response_header [OF varint_ok_cmd varint_ok_0]])
    (simp add: receives_reply [OF assms(1)] del: ret_apply)

lemma ucast_scast_32 [simp]: "(ucast (scast e :: 64 word) :: c_int) = e"
  by (rule bit_word_eqI) (simp add: bit_simps)

text \<open>An error reply: its text is kept, its code returned.\<close>

lemma process_response_error:
  fixes c :: "'t cswp_client_t"
  assumes "buf_ok (c_rsp c)" and "unread (c_rsp c) = reply_bytes (Error_reply (cmd_val (pending_type p)) e msg) @ zs"
    and "e \<noteq> 0" and "varint_ok (scast e)" and "string_fits ERROR_MESSAGE_SIZE (Some msg)"
  shows "cswp_client_process_response p c = Fail e
    (c\<lparr>c_rsp := adv (length (reply_bytes (Error_reply (cmd_val (pending_type p)) e msg))) (c_rsp c),
      errorMsg := cstr msg\<rparr>)"
proof -
  let ?h = "varint_enc (cmd_val (pending_type p)) @ varint_enc (scast e)"
  let ?c = "c\<lparr>c_rsp := adv (length ?h) (c_rsp c)\<rparr>"
  have u: "unread (c_rsp c) = ?h @ (string_enc (Some msg) @ zs)" using assms(2) by simp
  have hdr: "on_c_rsp cswp_decode_response_header c = Done (cmd_val (pending_type p), scast e) ?c"
    by (rule on_c_rsp_reads [OF takes_response_header [OF varint_ok_cmd assms(4)] assms(1) u])
  have "takes (cswp_decode_error_response_body ERROR_MESSAGE_SIZE) (string_enc (Some msg)) (cstr msg)"
    using reads_takes [OF reads_get_string_fits [OF assms(5)]]
    by (simp add: cswp_decode_error_response_body_def)
  from on_c_rsp_reads [OF this, of ?c zs] after_read [OF assms(1) u]
  have body: "on_c_rsp (cswp_decode_error_response_body ERROR_MESSAGE_SIZE) ?c
      = Done (cstr msg) (?c\<lparr>c_rsp := adv (length (string_enc (Some msg))) (c_rsp ?c)\<rparr>)" by simp
  have "(scast e :: 64 word) \<noteq> 0"
    using assms(3) ucast_scast_32 [of e] by (metis unsigned_0)
  then show ?thesis
    using hdr body assms(3) ucast_scast_32 [of e]
    by (simp add: cswp_client_process_response_def cswp_check_def of_res_def add.assoc)
qed

text \<open>A reply of another type than the one that is waited for, and an error code below zero: its
  ten-byte varint shifts an \<open>int\<close> out of range.\<close>

lemma process_response_wrong_type:
  assumes "buf_ok (c_rsp c)" and "unread (c_rsp c) = reply_bytes r @ zs"
    and "varint_ok (reply_type r)" and "varint_ok (reply_code r)" and "reply_type r \<noteq> cmd_val (pending_type p)"
  shows "\<exists>c'. cswp_client_process_response p c = Fail (res_val CSWP_COMMS) c' \<and> c_out c' = c_out c
    \<and> transport_priv c' = transport_priv c"
proof -
  let ?h = "varint_enc (reply_type r) @ varint_enc (reply_code r)"
  have u: "unread (c_rsp c) = ?h @ (reply_body r @ zs)" using assms(2) by (simp add: reply_bytes_split)
  have hdr: "on_c_rsp cswp_decode_response_header c
      = Done (reply_type r, reply_code r) (c\<lparr>c_rsp := adv (length ?h) (c_rsp c)\<rparr>)"
    by (rule on_c_rsp_reads [OF takes_response_header [OF assms(3,4)] assms(1) u])
  have "\<exists>m. c_format (bytes_of ''Unexpected response: 0x%lX'') [Arg_int (reply_type r)] = Some m"
    by (simp add: bytes_of_def int_conv_def long_conv_def)
  then show ?thesis
    using hdr assms(5) by (auto simp: cswp_client_process_response_def cswp_client_error_def)
qed

lemma scast_negative:
  assumes "e <s (0 :: c_int)"
  shows "2 ^ 35 \<le> unat (scast e :: 64 word)"
proof -
  have neg: "sint e < 0" "- (2 ^ 31) \<le> sint e"
    using assms sint_ge [of e] by (simp_all add: word_sless_alt)
  have "uint (scast e :: 64 word) = sint e mod 2 ^ 64"
    unfolding scast_eq by (subst uint_word_of_int) simp
  also have "\<dots> = (sint e + 2 ^ 64) mod 2 ^ 64" by simp
  also have "\<dots> = sint e + 2 ^ 64" by (rule mod_pos_pos_trivial) (use neg in simp_all)
  finally have "2 ^ 35 \<le> uint (scast e :: 64 word)" using neg(2) by simp
  then show ?thesis by (simp add: le_nat_iff flip: nat_uint_eq)
qed

lemma process_response_negative_code:
  assumes "buf_ok (c_rsp c)" and "unread (c_rsp c) = reply_bytes (Error_reply t e msg) @ zs"
    and "varint_ok t" and "e <s 0"
  shows "cswp_client_process_response p c = Undef BadShift"
proof -
  have u: "unread (c_rsp c) = varint_enc t @ (varint_enc (scast e) @ (string_enc (Some msg) @ zs))"
    using assms(2) by simp
  let ?b = "adv (length (varint_enc t)) (c_rsp c)"
  have t: "cswp_buffer_get_varint (c_rsp c) = Done t ?b"
    by (rule reads_Done [OF reads_get_varint [OF assms(3)] assms(1) u])
  have "buf_ok ?b" and ub: "unread ?b = varint_enc (scast e) @ (string_enc (Some msg) @ zs)"
    using after_read [OF assms(1) u] .
  moreover have "2 ^ 35 \<le> unat (scast e :: 64 word)"
    by (rule scast_negative [OF assms(4)])
  ultimately have "cswp_buffer_get_varint ?b = Undef BadShift"
    by (simp add: get_varint_parse varint_parse_overlong)
  then show ?thesis
    using t by (simp add: cswp_client_process_response_def cswp_decode_response_header_def on_c_rsp_def zoom_def)
qed

subsection \<open>All responses of a transaction\<close>

primrec deliver_all :: "ptr \<Rightarrow> (pending_response_t \<times> reply) list \<Rightarrow> (out_mem, unit) prog" where
  "deliver_all ops [] = ret ()"
| "deliver_all ops (x # xs) =
     cswp_check (deliver (complete (fst x)) (snd x)) (\<lambda>_.
     cswp_check (incr_uint ops) (\<lambda>_.
     deliver_all ops xs))"

definition reply_for :: "pending_response_t \<Rightarrow> reply \<Rightarrow> bool" where
  "reply_for p r \<longleftrightarrow> reply_fits (complete p) r \<and> reply_type r = cmd_val (pending_type p)"

lemma incr_never_fails [simp]: "incr_uint p mem \<noteq> Fail e mem'"
  by (simp add: incr_uint_def split: option.splits)

lemma fits_never_fails: "reply_fits cf r \<Longrightarrow> deliver cf r mem \<noteq> Fail e mem'"
  by (cases cf; cases r) (simp_all add: check_never_fails never_for)

lemma receives_all:
  assumes "list_all2 reply_for ps rs"
  shows "receives (process_responses ops ps) (concat (map reply_bytes rs)) (deliver_all ops (zip ps rs))"
  using assms
proof (induction rule: list_all2_induct)
  case Nil
  then show ?case by (simp add: receives_ret del: ret_apply)
next
  case (Cons p ps r rs)
  then have fits: "reply_fits (complete p) r" and t: "reply_type r = cmd_val (pending_type p)"
    by (simp_all add: reply_for_def)
  show ?case
    unfolding process_responses.simps zip_Cons_Cons deliver_all.simps fst_conv snd_conv list.map concat.simps
    by (rule receives_seq, rule receives_response [OF fits t], rule receives_out_then [OF Cons.IH])
      (simp_all add: fits_never_fails [OF fits])
qed

subsection \<open>The request\<close>

definition client_ok :: "'t cswp_client_t \<Rightarrow> bool" where
  "client_ok c \<longleftrightarrow> buf_ok (c_hdr c) \<and> bsize (c_hdr c) = CSWP_REQ_HEADER_SIZE
     \<and> buf_ok (c_cmd c) \<and> bsize (c_cmd c) = BUFFER_SIZE \<and> buf_ok (c_rsp c) \<and> bsize (c_rsp c) = BUFFER_SIZE"

text \<open>The commands \<open>cs\<close> are in the command buffer, after the space for the header.\<close>

definition queued :: "'t cswp_client_t \<Rightarrow> command list \<Rightarrow> bool" where
  "queued c cs \<longleftrightarrow> at_end (c_cmd c) \<and> CSWP_REQ_HEADER_SIZE \<le> bused (c_cmd c)
     \<and> drop (unat CSWP_REQ_HEADER_SIZE) (written (c_cmd c)) = concat (map command_bytes cs)
     \<and> num_cmds c = of_nat (length cs) \<and> length cs < 2 ^ 31"

lemma scast_of_nat_small: "n < 2 ^ 31 \<Longrightarrow> (scast (of_nat n :: c_int) :: 64 word) = of_nat n"
  by (simp add: scast_eq signed_of_nat signed_take_bit_int_eq_self)

lemma on_c_hdr_emits:
  assumes "emits enc bs" and "at_end (c_hdr c)" and "unat (bused (c_hdr c)) + length bs \<le> unat (bsize (c_hdr c))"
  obtains h where "\<And>k :: ('t, 'x) client. ignore (on_c_hdr enc) k c = k (c\<lparr>c_hdr := h\<rparr>)"
    "at_end h" "bsize h = bsize (c_hdr c)" "written h = written (c_hdr c) @ bs"
  using emits_Done [OF assms] that by (force simp: on_c_hdr_def zoom_def ignore_def)

lemma request_header_bytes:
  fixes c :: "'t cswp_client_t"
  assumes "client_ok c" and "num_cmds c = of_nat n" and "n < 2 ^ 31"
  defines "bs \<equiv> varint_enc (of_nat n) @ [batch_val (batch_mode c)]"
  shows "\<exists>h. put_request_header c = Done () (c\<lparr>c_hdr := h\<rparr>) \<and> at_end h \<and> bsize h = bsize (c_hdr c) \<and> written h = bs"
proof -
  let ?c = "c\<lparr>c_hdr := cswp_buffer_clear (c_hdr c)\<rparr>"
  have e: "at_end (c_hdr ?c)" "written (c_hdr ?c) = []" "unat (bused (c_hdr ?c)) = 0" "unat (bsize (c_hdr ?c)) = 15"
    using assms(1) cswp_buffer_clear_at_end [of "c_hdr c"]
    by (simp_all add: client_ok_def cswp_buffer_clear_def written_def CSWP_REQ_HEADER_SIZE_def)
  have small: "length (varint_enc (of_nat n)) \<le> 10" by (rule length_varint_enc_le_10)
  obtain h1 where h1: "\<And>k :: ('t, unit) client. ignore (on_c_hdr (cswp_buffer_put_varint (of_nat n))) k ?c = k (?c\<lparr>c_hdr := h1\<rparr>)"
    "at_end h1" "bsize h1 = bsize (c_hdr c)" "written h1 = varint_enc (of_nat n)"
    using on_c_hdr_emits [OF emits_put_varint [of "of_nat n"] e(1)] e small by auto
  have "unat (bused h1) = length (varint_enc (of_nat n))"
    using h1(2,4) length_written [of h1] by (simp add: at_end_def)
  then obtain h2 where h2: "\<And>k :: ('t, unit) client.
      ignore (on_c_hdr (cswp_buffer_put_uint8 (batch_val (batch_mode c)))) k (c\<lparr>c_hdr := h1\<rparr>) = k (c\<lparr>c_hdr := h2\<rparr>)"
    "at_end h2" "bsize h2 = bsize (c_hdr c)" "written h2 = bs"
    using on_c_hdr_emits [OF emits_put_uint8 [of "batch_val (batch_mode c)"], of "c\<lparr>c_hdr := h1\<rparr>"] h1 e small
    by (auto simp: bs_def)
  have clear: "on_c_hdr (modify cswp_buffer_clear) c = Done () ?c" by (simp add: on_c_hdr_def zoom_def)
  have "put_request_header c = Done () (c\<lparr>c_hdr := h2\<rparr>)"
    using clear h1(1) h2(1) assms(2,3) by (simp add: put_request_header_def scast_of_nat_small)
  then show ?thesis using h2(2-4) by blast
qed

lemma poke_twice:
  assumes "length len = 4" and "off + 4 + length hdr = n" and "n \<le> length d"
  defines "d1 \<equiv> take off d @ len @ drop (off + 4) d"
  shows "drop off (take (off + 4) d1 @ hdr @ drop (off + 4 + length hdr) d1) = len @ hdr @ drop n d"
  using assms by (simp add: d1_def)

lemma request_message_bytes:
  fixes c :: "'t cswp_client_t"
  assumes ok: "client_ok c" and q: "queued c cs"
  shows "\<exists>h b. request_message c = Done (request_bytes (batch_val (batch_mode c)) cs) (c\<lparr>c_hdr := h, c_cmd := b\<rparr>)
    \<and> client_ok (c\<lparr>c_hdr := h, c_cmd := b\<rparr>)"
proof -
  define bs where "bs = varint_enc (of_nat (length cs)) @ [batch_val (batch_mode c)]"
  define cmds where "cmds = concat (map command_bytes cs)"
  obtain h where h: "put_request_header c = Done () (c\<lparr>c_hdr := h\<rparr>)" "at_end h" "bsize h = bsize (c_hdr c)" "written h = bs"
    using request_header_bytes [OF ok] q by (auto simp: queued_def bs_def)
  have lb: "length bs \<le> 11" using length_varint_enc_le_10 by (simp add: bs_def)
  have hu: "unat (bused h) = length bs" using h(2,4) length_written [of h] by (simp add: at_end_def)
  have hd: "take (unat (bused h)) (bdata h) = bs" using h(4) by (simp add: written_def)
  let ?b = "c_cmd c"
  have b: "buf_ok ?b" "length (bdata ?b) = 32768" "15 \<le> unat (bused ?b)" "unat (bused ?b) \<le> 32768"
    "drop 15 (take (unat (bused ?b)) (bdata ?b)) = cmds"
    using ok q buf_okD [of ?b]
    by (auto simp: client_ok_def queued_def at_end_def BUFFER_SIZE_def CSWP_REQ_HEADER_SIZE_def word_le_nat_alt cmds_def written_def)
  define off where "off = 11 - length bs"
  have o: "unat (CSWP_REQ_HEADER_SIZE - 4 - bused h) = off"
    using lb hu by (simp add: CSWP_REQ_HEADER_SIZE_def off_def unat_sub word_le_nat_alt)
  have off: "off + 4 + length bs = 15" using lb by (simp add: off_def)
  define N where "N = 4 + length (bs @ cmds)"
  have used: "unat (bused ?b) - off = N"
  proof -
    have "length cmds = unat (bused ?b) - 15"
      unfolding b(5) [symmetric] length_drop length_take b(2) using b(4) by (simp only: min_absorb2)
    then show ?thesis unfolding N_def length_append using b(3) off by linarith
  qed
  have n: "N \<le> 32768" using used b(4) by linarith
  have n64: "unat (of_nat N :: 64 word) = N" by (rule unat_of_nat_small) (use n in simp)
  have usz: "unat (of_nat N :: c_uint) = N"
    using n unat_of_nat [of N, where ?'a = 32] by (simp add: take_bit_nat_eq_self)
  have le: "CSWP_REQ_HEADER_SIZE - 4 - bused h \<le> bused ?b" using o b(3) off by (simp add: word_le_nat_alt)
  have "unat (bused ?b - (CSWP_REQ_HEADER_SIZE - 4 - bused h)) = unat (of_nat N :: 64 word)"
    unfolding unat_sub [OF le] o used n64 ..
  then have "bused ?b - (CSWP_REQ_HEADER_SIZE - 4 - bused h) = of_nat N"
    by (simp only: word_unat_eq_iff)
  then have sz: "ucast (bused ?b - (CSWP_REQ_HEADER_SIZE - 4 - bused h)) = (of_nat N :: c_uint)"
    by (simp only: ucast_of_nat_32)
  define len where "len = le_bytes 4 (of_nat N :: c_uint)"
  have len: "[ucast (of_nat N :: c_uint), ucast (drop_bit 8 (of_nat N :: c_uint)),
      ucast (drop_bit 16 (of_nat N :: c_uint)), ucast (drop_bit 24 (of_nat N :: c_uint))] = len"
    unfolding len_def le_bytes_32 ..
  let ?d = "bdata ?b"
  define d1 where "d1 = take off ?d @ len @ drop (off + 4) ?d"
  define d2 where "d2 = take (off + 4) d1 @ bs @ drop (off + 4 + length bs) d1"
  have len4: "length len = 4" by (simp add: len_def)
  have sizes: "length d1 = 32768" "length d2 = 32768"
    using b(2) off len4 by (simp_all add: d1_def d2_def)
  have p1: "on_c_cmd (poke off len) (c\<lparr>c_hdr := h\<rparr>) = Done () (c\<lparr>c_hdr := h, c_cmd := ?b\<lparr>bdata := d1\<rparr>\<rparr>)"
    using off b(2) len4 by (simp add: on_c_cmd_def zoom_def poke_def d1_def d2_def)
  have p2: "on_c_cmd (poke (off + 4) bs) (c\<lparr>c_hdr := h, c_cmd := ?b\<lparr>bdata := d1\<rparr>\<rparr>)
      = Done () (c\<lparr>c_hdr := h, c_cmd := ?b\<lparr>bdata := d2\<rparr>\<rparr>)"
    using off sizes(1) by (simp add: on_c_cmd_def zoom_def poke_def d1_def d2_def)
  have room: "off + N \<le> length d2" using used b(4) off n sizes(2) by linarith
  have "drop off d2 = len @ bs @ drop 15 ?d"
    unfolding d1_def d2_def by (rule poke_twice [OF len4 off]) (simp add: b(2))
  moreover have "take (length cmds) (drop 15 ?d) = cmds"
    using b(5) by (metis append_eq_conv_conj append_take_drop_id drop_append take_drop length_drop)
  ultimately have msg: "take N (drop off d2) = request_bytes (batch_val (batch_mode c)) cs"
    using len4 by (simp add: request_bytes_def Let_def len_def N_def bs_def cmds_def)
  have "request_message c = Done (request_bytes (batch_val (batch_mode c)) cs)
      (c\<lparr>c_hdr := h, c_cmd := ?b\<lparr>bdata := d2\<rparr>\<rparr>)"
    using h(1) p1 p2 room msg
    by (simp add: request_message_def Let_def sz o hd usz len)
  moreover have "client_ok (c\<lparr>c_hdr := h, c_cmd := ?b\<lparr>bdata := d2\<rparr>\<rparr>)"
    using ok h(2,3) sizes(2) b(1,2) by (auto simp: client_ok_def at_end_def buf_ok_def)
  ultimately show ?thesis by blast
qed

subsection \<open>The transaction\<close>

text \<open>A transport that takes the message \<open>req\<close> and brings back \<open>rsp\<close>, and touches nothing but its
  private data. The destination is the response buffer.\<close>

definition exchanges :: "'t cswp_client_transport_t \<Rightarrow> byte list \<Rightarrow> 't \<Rightarrow> byte list \<Rightarrow> 't \<Rightarrow> bool" where
  "exchanges tr req t rsp t' \<longleftrightarrow> (\<exists>t1.
     (\<forall>c. transport_priv c = t \<longrightarrow> t_send tr req c = Done () (c\<lparr>transport_priv := t1\<rparr>)) \<and>
     (\<forall>c. transport_priv c = t1 \<longrightarrow> t_receive tr BUFFER_SIZE c = Done rsp (c\<lparr>transport_priv := t'\<rparr>)))"

lemma received_rsp:
  assumes "buf_ok b" and "length bs \<le> unat (bsize b)"
  shows "\<exists>b'. received bs b = Done () b' \<and> bsize b' = bsize b \<and> buf_ok (cswp_buffer_seek 0 b')
    \<and> unread (cswp_buffer_seek 0 b') = bs \<and> bused b' = of_nat (length bs)"
proof -
  have len: "length bs \<le> length (bdata b)" using assms by (simp add: buf_ok_def)
  have "length bs < 2 ^ 64" using assms(2) unsigned_less [of "bsize b", where ?'a = nat] by simp
  then have u: "unat (of_nat (length bs) :: 64 word) = length bs" by (rule unat_of_nat_small)
  show ?thesis
    using assms len u
    by (simp add: received_def buf_ok_def written_def unread_def cswp_buffer_seek_def word_le_nat_alt)
qed

lemma check_reply_ok:
  fixes c :: "'t cswp_client_t"
  assumes "buf_ok (cswp_buffer_seek 0 (c_rsp c))" and "bused (c_rsp c) = of_nat (length (response_bytes n rs))"
    and "unread (cswp_buffer_seek 0 (c_rsp c)) = response_bytes n rs"
    and "length (response_bytes n rs) < 2 ^ 32" and "num_cmds c = of_nat n" and "n < 2 ^ 31"
  shows "\<exists>b. cswp_check check_reply_length (\<lambda>_. cswp_check check_reply_count k) c = k () (c\<lparr>c_rsp := b\<rparr>)
    \<and> buf_ok b \<and> bsize b = bsize (c_rsp c) \<and> unread b = concat (map reply_bytes rs)"
proof -
  define body where "body = varint_enc (of_nat n) @ concat (map reply_bytes rs)"
  define v where "v = (of_nat (4 + length body) :: c_uint)"
  let ?b0 = "cswp_buffer_seek 0 (c_rsp c)"
  have len: "length (response_bytes n rs) = 4 + length body" by (simp add: response_bytes_def Let_def body_def)
  have u0: "unread ?b0 = le_bytes 4 v @ body" using assms(3) by (simp add: response_bytes_def Let_def body_def v_def)
  let ?b1 = "adv 4 ?b0"
  have r1: "cswp_buffer_get_uint32 ?b0 = Done v ?b1"
    using reads_Done [OF reads_get_uint32 assms(1) u0] by simp
  have b1: "buf_ok ?b1" "unread ?b1 = varint_enc (of_nat n) @ concat (map reply_bytes rs)"
    using after_read [OF assms(1) u0] by (simp_all add: body_def)
  let ?b2 = "adv (length (varint_enc (of_nat n))) ?b1"
  have r2: "cswp_buffer_get_varint ?b1 = Done (of_nat n) ?b2"
    by (rule reads_Done [OF reads_get_varint [OF varint_ok_of_nat [OF assms(6)]] b1])
  have "(ucast v :: 64 word) = bused (c_rsp c)"
  proof -
    have "unat v = length (response_bytes n rs)"
      unfolding v_def len [symmetric] unat_of_nat using assms(4) by (simp add: take_bit_nat_eq_self)
    moreover have "unat (bused (c_rsp c)) = length (response_bytes n rs)"
      unfolding assms(2) by (rule unat_of_nat_small) (use assms(4) in simp)
    ultimately show ?thesis by (simp only: word_unat_eq_iff unat_ucast_32_64)
  qed
  then have "\<not> bused (c_rsp c) < ucast v" by simp
  then have "cswp_check check_reply_length (\<lambda>_. cswp_check check_reply_count k) c = k () (c\<lparr>c_rsp := ?b2\<rparr>)"
    using r1 r2 assms(5)
    by (simp add: check_reply_length_def check_reply_count_def on_c_rsp_def zoom_def attempt_def cswp_check_def
        scast_of_nat_small [OF assms(6)] del: adv_adv) (simp add: cswp_buffer_seek_def)
  moreover have "buf_ok ?b2" "unread ?b2 = concat (map reply_bytes rs)"
    using after_read [OF b1] by (simp_all del: adv_adv)
  ultimately show ?thesis by (metis adv_fields(1) cswp_buffer_seek_def CSWP_BUFFER.ext_inject CSWP_BUFFER.surjective CSWP_BUFFER.update_convs(3))
qed

lemma store_if_ops_eq: "store_if_ops ops c = (case (if ops = None then ret () else store_uint ops 0) (c_out c) of
    Done _ mem \<Rightarrow> Done () (c\<lparr>c_out := mem\<rparr>) | Fail e mem \<Rightarrow> Fail e (c\<lparr>c_out := mem\<rparr>) | Undef u \<Rightarrow> Undef u)"
  by (cases c) (auto simp: store_if_ops_def on_out_eq split: outcome.splits)

text \<open>What is left of a transaction once the replies have arrived: processing them.\<close>

definition finish :: "ptr \<Rightarrow> ('t, unit) client" where
  "finish ops = (let cleanup = modify (\<lambda>c. c\<lparr>pending_responses := []\<rparr>) in
     attempt (cswp_check (gets pending_responses) (process_responses ops))
       (\<lambda>res. cswp_check cleanup (\<lambda>_. fail res)) (\<lambda>_. cleanup))"

lemma attempt_run: "m s = m' s' \<Longrightarrow> attempt m h k s = attempt m' h k s'"
  by (simp add: attempt_def)

lemma transact_exchange:
  fixes c :: "'t cswp_client_t"
  assumes ok: "client_ok c" and q: "queued c cs"
    and ex: "exchanges tr (request_bytes (batch_val (batch_mode c)) cs) (transport_priv c)
        (response_bytes (length cs) rs) t'"
    and fits: "length (response_bytes (length cs) rs) \<le> unat BUFFER_SIZE"
    and ops: "(if ops = None then ret () else store_uint ops 0) (c_out c) = Done () mem"
  shows "\<exists>h d w. let c' = c\<lparr>c_hdr := h, c_cmd := d, c_out := mem, transport_priv := t', c_rsp := w\<rparr> in
    cswp_client_transact tr ops c = finish ops c' \<and> client_ok c' \<and> unread w = concat (map reply_bytes rs)"
proof -
  let ?req = "request_bytes (batch_val (batch_mode c)) cs" and ?rsp = "response_bytes (length cs) rs"
  obtain h d where hk: "request_message c = Done ?req (c\<lparr>c_hdr := h, c_cmd := d\<rparr>)"
      "client_ok (c\<lparr>c_hdr := h, c_cmd := d\<rparr>)"
    using request_message_bytes [OF ok q] by auto
  define c1 where "c1 = c\<lparr>c_hdr := h, c_cmd := d\<rparr>"
  note c1 = hk [folded c1_def]
  let ?c2 = "c1\<lparr>c_out := mem\<rparr>"
  have same: "c_out c1 = c_out c" "transport_priv c1 = transport_priv c" "num_cmds c1 = num_cmds c"
      "pending_responses c1 = pending_responses c" "c_rsp c1 = c_rsp c"
    by (simp_all add: c1_def)
  have s2: "store_if_ops ops c1 = Done () ?c2" using ops same by (simp add: store_if_ops_eq)
  obtain t1 where t1: "t_send tr ?req ?c2 = Done () (?c2\<lparr>transport_priv := t1\<rparr>)"
    "\<And>c. transport_priv c = t1 \<Longrightarrow> t_receive tr BUFFER_SIZE c = Done ?rsp (c\<lparr>transport_priv := t'\<rparr>)"
    using ex same(2) by (auto simp: exchanges_def)
  let ?c3 = "?c2\<lparr>transport_priv := t1\<rparr>" and ?c4 = "?c2\<lparr>transport_priv := t'\<rparr>"
  have size: "bsize (c_rsp ?c3) = BUFFER_SIZE" "buf_ok (c_rsp ?c3)" using c1(2) by (simp_all add: client_ok_def)
  have s4: "t_receive tr BUFFER_SIZE ?c3 = Done ?rsp ?c4"
    using t1(2) [of ?c3] by simp
  obtain b where b: "received ?rsp (c_rsp ?c4) = Done () b" "bsize b = bsize (c_rsp ?c4)"
    "buf_ok (cswp_buffer_seek 0 b)" "unread (cswp_buffer_seek 0 b) = ?rsp" "bused b = of_nat (length ?rsp)"
    using received_rsp [of "c_rsp ?c4" ?rsp] size fits by auto
  let ?c5 = "?c4\<lparr>c_rsp := b\<rparr>"
  have s5: "on_c_rsp (received ?rsp) ?c4 = Done () ?c5" using b(1) by (simp add: on_c_rsp_def zoom_def)
  have small: "length ?rsp < 2 ^ 32" using fits by (simp add: BUFFER_SIZE_def)
  define k :: "('t, unit) client" where "k = cswp_check (gets pending_responses) (process_responses ops)"
  obtain w where w: "cswp_check check_reply_length (\<lambda>_. cswp_check check_reply_count (\<lambda>_. k)) ?c5 = k (?c5\<lparr>c_rsp := w\<rparr>)"
    "buf_ok w" "bsize w = bsize b" "unread w = concat (map reply_bytes rs)"
    using check_reply_ok [of ?c5 "length cs" rs "\<lambda>_. k"] b(3-5) small q same(3) by (auto simp: queued_def)
  let ?c6 = "?c5\<lparr>c_rsp := w\<rparr>"
  have "cswp_client_transact tr ops c = finish ops ?c6"
    unfolding cswp_client_transact_def Let_def finish_def k_def [symmetric]
    by (rule attempt_run) (use c1(1) s2 t1(1) size(1) s4 s5 w(1) in simp)
  moreover have "client_ok ?c6" using c1(2) w(2,3) b(2) by (simp add: client_ok_def)
  moreover have "?c6 = c\<lparr>c_hdr := h, c_cmd := d, c_out := mem, transport_priv := t', c_rsp := w\<rparr>"
    by (simp add: c1_def)
  ultimately show ?thesis using w(4) unfolding Let_def by metis
qed

text \<open>Every reply is the one its command waits for: the caller's memory is that of \<open>deliver_all\<close>, and
  the queue is empty.\<close>

definition after_transact :: "'t cswp_client_t \<Rightarrow> out_mem \<Rightarrow> 't \<Rightarrow> 't cswp_client_t \<Rightarrow> bool" where
  "after_transact c mem t c' \<longleftrightarrow> client_ok c' \<and> c_out c' = mem \<and> transport_priv c' = t
     \<and> pending_responses c' = [] \<and> batch_mode c' = batch_mode c \<and> num_cmds c' = num_cmds c"

lemma client_ok_adv:
  "client_ok c \<Longrightarrow> n \<le> length (unread (c_rsp c)) \<Longrightarrow> client_ok (c\<lparr>c_rsp := adv n (c_rsp c)\<rparr>)"
  by (simp add: client_ok_def adv_ok)

lemma transact_delivers:
  fixes c :: "'t cswp_client_t"
  assumes ok: "client_ok c" and q: "queued c cs"
    and ex: "exchanges tr (request_bytes (batch_val (batch_mode c)) cs) (transport_priv c)
        (response_bytes (length cs) rs) t'"
    and fits: "length (response_bytes (length cs) rs) \<le> unat BUFFER_SIZE"
    and ops: "(if ops = None then ret () else store_uint ops 0) (c_out c) = Done () mem"
    and all: "list_all2 reply_for (pending_responses c) rs"
    and mem: "deliver_all ops (zip (pending_responses c) rs) mem = Done () mem'"
  shows "\<exists>c'. cswp_client_transact tr ops c = Done () c' \<and> after_transact c mem' t' c' \<and> errorMsg c' = errorMsg c"
proof -
  obtain h d w where w: "cswp_client_transact tr ops c
      = finish ops (c\<lparr>c_hdr := h, c_cmd := d, c_out := mem, transport_priv := t', c_rsp := w\<rparr>)"
    and okw: "client_ok (c\<lparr>c_hdr := h, c_cmd := d, c_out := mem, transport_priv := t', c_rsp := w\<rparr>)"
    and uw: "unread w = concat (map reply_bytes rs)"
    using transact_exchange [OF ok q ex fits ops] by (auto simp: Let_def)
  let ?c = "c\<lparr>c_hdr := h, c_cmd := d, c_out := mem, transport_priv := t', c_rsp := w\<rparr>"
  let ?n = "length (concat (map reply_bytes rs))"
  let ?c' = "?c\<lparr>c_rsp := adv ?n w, c_out := mem'\<rparr>"
  have "process_responses ops (pending_responses c) ?c = Done () ?c'"
    using receivesD(1) [OF receives_all [OF all], of ?c "[]" ops mem'] okw uw mem by (simp add: client_ok_def)
  then have "finish ops ?c = Done () (?c'\<lparr>pending_responses := []\<rparr>)"
    by (simp add: finish_def Let_def attempt_def)
  moreover have "client_ok ?c'" using client_ok_adv [OF okw, of ?n] uw by (simp add: client_ok_def)
  ultimately show ?thesis using w by (simp add: after_transact_def client_ok_def)
qed

text \<open>A delivery that is undefined makes the transaction undefined.\<close>

lemma transact_undef:
  fixes c :: "'t cswp_client_t"
  assumes ok: "client_ok c" and q: "queued c cs"
    and ex: "exchanges tr (request_bytes (batch_val (batch_mode c)) cs) (transport_priv c)
        (response_bytes (length cs) rs) t'"
    and fits: "length (response_bytes (length cs) rs) \<le> unat BUFFER_SIZE"
    and ops: "(if ops = None then ret () else store_uint ops 0) (c_out c) = Done () mem"
    and all: "list_all2 reply_for (pending_responses c) rs"
    and mem: "deliver_all ops (zip (pending_responses c) rs) mem = Undef u"
  shows "cswp_client_transact tr ops c = Undef u"
proof -
  obtain h d w where w: "cswp_client_transact tr ops c
      = finish ops (c\<lparr>c_hdr := h, c_cmd := d, c_out := mem, transport_priv := t', c_rsp := w\<rparr>)"
    and okw: "client_ok (c\<lparr>c_hdr := h, c_cmd := d, c_out := mem, transport_priv := t', c_rsp := w\<rparr>)"
    and uw: "unread w = concat (map reply_bytes rs)"
    using transact_exchange [OF ok q ex fits ops] by (auto simp: Let_def)
  let ?c = "c\<lparr>c_hdr := h, c_cmd := d, c_out := mem, transport_priv := t', c_rsp := w\<rparr>"
  have "process_responses ops (pending_responses c) ?c = Undef u"
    using receivesD(2) [OF receives_all [OF all], of ?c "[]" ops u] okw uw mem by (simp add: client_ok_def)
  then show ?thesis using w by (simp add: finish_def Let_def attempt_def)
qed

text \<open>The replies before the first error have been delivered, the error is returned, and the replies
  after it are not looked at.\<close>

lemma process_responses_append:
  "process_responses ops (ps @ qs) = cswp_check (process_responses ops ps) (\<lambda>_. process_responses ops qs)"
  by (induction ps) (simp_all add: cswp_check_assoc)

lemma transact_fails:
  fixes c :: "'t cswp_client_t"
  assumes ok: "client_ok c" and q: "queued c cs"
    and ex: "exchanges tr (request_bytes (batch_val (batch_mode c)) cs) (transport_priv c)
        (response_bytes (length cs) (rs @ Error_reply (cmd_val (pending_type p)) e msg # rs')) t'"
    and fits: "length (response_bytes (length cs) (rs @ Error_reply (cmd_val (pending_type p)) e msg # rs')) \<le> unat BUFFER_SIZE"
    and ops: "(if ops = None then ret () else store_uint ops 0) (c_out c) = Done () mem"
    and ps: "pending_responses c = ps @ p # ps'"
    and all: "list_all2 reply_for ps rs" and mem: "deliver_all ops (zip ps rs) mem = Done () mem'"
    and e: "e \<noteq> 0" "varint_ok (scast e)" "string_fits ERROR_MESSAGE_SIZE (Some msg)"
  shows "\<exists>c'. cswp_client_transact tr ops c = Fail e c' \<and> after_transact c mem' t' c' \<and> errorMsg c' = cstr msg"
proof -
  let ?E = "Error_reply (cmd_val (pending_type p)) e msg"
  obtain h d w where w: "cswp_client_transact tr ops c
      = finish ops (c\<lparr>c_hdr := h, c_cmd := d, c_out := mem, transport_priv := t', c_rsp := w\<rparr>)"
    and okw: "client_ok (c\<lparr>c_hdr := h, c_cmd := d, c_out := mem, transport_priv := t', c_rsp := w\<rparr>)"
    and uw: "unread w = concat (map reply_bytes (rs @ ?E # rs'))"
    using transact_exchange [OF ok q ex fits ops] by (auto simp: Let_def)
  let ?c = "c\<lparr>c_hdr := h, c_cmd := d, c_out := mem, transport_priv := t', c_rsp := w\<rparr>"
  let ?ok = "concat (map reply_bytes rs)" and ?rest = "concat (map reply_bytes rs')"
  let ?c1 = "?c\<lparr>c_rsp := adv (length ?ok) w, c_out := mem'\<rparr>"
  have bw: "buf_ok w" using okw by (simp add: client_ok_def)
  have uw': "unread w = ?ok @ (reply_bytes ?E @ ?rest)" using uw by simp
  have run: "process_responses ops ps ?c = Done () ?c1"
    using receivesD(1) [OF receives_all [OF all], of ?c "reply_bytes ?E @ ?rest" ops mem'] bw uw' mem by simp
  note after = after_read [OF bw uw']
  let ?n = "length (reply_bytes ?E)"
  have err: "cswp_client_process_response p ?c1
      = Fail e (?c1\<lparr>c_rsp := adv ?n (adv (length ?ok) w), errorMsg := cstr msg\<rparr>)"
    using process_response_error [of ?c1 p e msg ?rest] after e by simp
  let ?c' = "?c1\<lparr>c_rsp := adv ?n (adv (length ?ok) w), errorMsg := cstr msg, pending_responses := []\<rparr>"
  have "finish ops ?c = Fail e ?c'"
    using run err by (simp add: finish_def Let_def attempt_def ps process_responses_append del: adv_adv)
  moreover have "buf_ok (adv ?n (adv (length ?ok) w))" by (rule adv_ok [OF after(1)]) (simp add: after(2))
  ultimately show ?thesis using w okw by (simp add: after_transact_def client_ok_def del: adv_adv)
qed

text \<open>A reply of another type than the first command's ends the transaction.\<close>

lemma transact_wrong_type:
  fixes c :: "'t cswp_client_t"
  assumes ok: "client_ok c" and q: "queued c cs"
    and ex: "exchanges tr (request_bytes (batch_val (batch_mode c)) cs) (transport_priv c)
        (response_bytes (length cs) (r # rs)) t'"
    and fits: "length (response_bytes (length cs) (r # rs)) \<le> unat BUFFER_SIZE"
    and ops: "(if ops = None then ret () else store_uint ops 0) (c_out c) = Done () mem"
    and ps: "pending_responses c = p # ps"
    and r: "varint_ok (reply_type r)" "varint_ok (reply_code r)" "reply_type r \<noteq> cmd_val (pending_type p)"
  shows "\<exists>c'. cswp_client_transact tr ops c = Fail (res_val CSWP_COMMS) c' \<and> c_out c' = mem
    \<and> transport_priv c' = t' \<and> pending_responses c' = []"
proof -
  obtain h d w where w: "cswp_client_transact tr ops c
      = finish ops (c\<lparr>c_hdr := h, c_cmd := d, c_out := mem, transport_priv := t', c_rsp := w\<rparr>)"
    and okw: "client_ok (c\<lparr>c_hdr := h, c_cmd := d, c_out := mem, transport_priv := t', c_rsp := w\<rparr>)"
    and uw: "unread w = concat (map reply_bytes (r # rs))"
    using transact_exchange [OF ok q ex fits ops] by (auto simp: Let_def)
  let ?c = "c\<lparr>c_hdr := h, c_cmd := d, c_out := mem, transport_priv := t', c_rsp := w\<rparr>"
  obtain c' where c': "cswp_client_process_response p ?c = Fail (res_val CSWP_COMMS) c'" "c_out c' = mem" "transport_priv c' = t'"
    using process_response_wrong_type [of ?c r "concat (map reply_bytes rs)" p] okw uw r
    by (auto simp: client_ok_def)
  have "finish ops ?c = Fail (res_val CSWP_COMMS) (c'\<lparr>pending_responses := []\<rparr>)"
    using c'(1) by (simp add: finish_def Let_def attempt_def ps)
  with w c'(2,3) show ?thesis by simp
qed

subsection \<open>A single call\<close>

text \<open>Outside a batch a call queues its command behind the header and sends it at once.\<close>

lemma prepare_queued:
  assumes "client_ok c" and "batch_mode c = BATCH_NONE"
  shows "\<exists>c'. cswp_client_prepare_cmd c = Done () c' \<and> client_ok c' \<and> queued c' []
    \<and> c' = c\<lparr>c_cmd := c_cmd c', pending_responses := [], num_cmds := 0\<rparr>"
proof -
  let ?b = "(c_cmd c)\<lparr>bpos := CSWP_REQ_HEADER_SIZE, bused := CSWP_REQ_HEADER_SIZE\<rparr>"
  have "buf_ok ?b" using assms(1) by (auto simp: client_ok_def buf_ok_def CSWP_REQ_HEADER_SIZE_def BUFFER_SIZE_def)
  moreover have "drop (unat CSWP_REQ_HEADER_SIZE) (written ?b) = []" by (simp add: written_def)
  ultimately show ?thesis
    using assms by (simp add: cswp_client_prepare_cmd_def client_ok_def queued_def at_end_def)
qed

lemma queue_command:
  assumes "client_ok c" and "queued c cs" and "command_ok x"
    and "unat (bused (c_cmd c)) + length (command_bytes x) \<le> unat BUFFER_SIZE" and "Suc (length cs) < 2 ^ 31"
  shows "\<exists>c'. cswp_check (on_c_cmd (encode_command x)) (\<lambda>_. cswp_client_push_request t cf) c = Done () c'
    \<and> client_ok c' \<and> queued c' (cs @ [x])
    \<and> c' = c\<lparr>c_cmd := c_cmd c', pending_responses := pending_responses c @ [\<lparr>pending_type = t, complete = cf\<rparr>],
         num_cmds := num_cmds c + 1\<rparr>"
proof -
  have a: "at_end (c_cmd c)" "bsize (c_cmd c) = BUFFER_SIZE" using assms(1,2) by (simp_all add: client_ok_def queued_def)
  obtain b where b: "encode_command x (c_cmd c) = Done () b" "at_end b" "bsize b = BUFFER_SIZE"
    "written b = written (c_cmd c) @ command_bytes x"
    using emits_Done [OF encode_command_emits [OF assms(3)] a(1)] assms(4) a(2) by auto
  have len: "unat (bused b) = unat (bused (c_cmd c)) + length (command_bytes x)"
    using b(2,4) a(1) length_written [of b] length_written [of "c_cmd c"] by (simp add: at_end_def)
  have n: "num_cmds c = of_nat (length cs)" "length cs < 2 ^ 31" using assms(2) by (simp_all add: queued_def)
  have "unat (num_cmds c) = length cs" unfolding n(1) unat_of_nat using n(2) by (simp add: take_bit_nat_eq_self)
  then have "num_cmds c \<noteq> 0x7FFFFFFF" using assms(5) by auto
  moreover have "drop (unat CSWP_REQ_HEADER_SIZE) (written b) = concat (map command_bytes (cs @ [x]))"
    using assms(2) b(4) length_written [of "c_cmd c"]
    by (simp add: queued_def at_end_def word_le_nat_alt)
  ultimately show ?thesis
    using assms b len n
    by (simp add: cswp_client_push_request_def on_c_cmd_def zoom_def client_ok_def queued_def at_end_def word_le_nat_alt)
qed

lemma check_seq: "cswp_check f (\<lambda>_. cswp_check g k) = cswp_check (cswp_check f (\<lambda>_. g)) k"
  by (simp add: cswp_check_assoc)

lemma submit_parts: "submit tr enc t cf = cswp_check cswp_client_prepare_cmd (\<lambda>_.
    cswp_check (cswp_check (on_c_cmd enc) (\<lambda>_. cswp_client_push_request t cf)) (\<lambda>_. cswp_client_process tr))"
  by (simp add: submit_def cswp_check_assoc)

lemma submit_queue:
  assumes "client_ok c" and "queued c cs" and "command_ok x"
    and "unat (bused (c_cmd c)) + length (command_bytes x) \<le> unat BUFFER_SIZE" and "Suc (length cs) < 2 ^ 31"
    and "cswp_client_prepare_cmd b = Done () c"
  shows "\<exists>c'. submit tr (encode_command x) t cf b = cswp_client_process tr c' \<and> client_ok c' \<and> queued c' (cs @ [x])
    \<and> c' = c\<lparr>c_cmd := c_cmd c', pending_responses := pending_responses c @ [\<lparr>pending_type = t, complete = cf\<rparr>],
         num_cmds := num_cmds c + 1\<rparr>"
  using queue_command [OF assms(1-5), of t cf] assms(6) by (auto simp: submit_parts)

text \<open>In a batch a call is only queued.\<close>

lemma submit_batched:
  assumes "client_ok c" and "queued c cs" and "command_ok x"
    and "unat (bused (c_cmd c)) + length (command_bytes x) \<le> unat BUFFER_SIZE" and "Suc (length cs) < 2 ^ 31"
    and "batch_mode c \<noteq> BATCH_NONE"
  shows "\<exists>c'. submit tr (encode_command x) t cf c = Done () c' \<and> client_ok c' \<and> queued c' (cs @ [x])
    \<and> c' = c\<lparr>c_cmd := c_cmd c', pending_responses := pending_responses c @ [\<lparr>pending_type = t, complete = cf\<rparr>],
         num_cmds := num_cmds c + 1\<rparr>"
proof -
  have "cswp_client_prepare_cmd c = Done () c" using assms(6) by (simp add: cswp_client_prepare_cmd_def)
  from submit_queue [OF assms(1-5) this, of tr t cf] obtain c' where c':
    "submit tr (encode_command x) t cf c = cswp_client_process tr c'" "client_ok c'" "queued c' (cs @ [x])"
    "c' = c\<lparr>c_cmd := c_cmd c', pending_responses := pending_responses c @ [\<lparr>pending_type = t, complete = cf\<rparr>],
         num_cmds := num_cmds c + 1\<rparr>" by auto
  have "batch_mode c' = batch_mode c" using arg_cong [OF c'(4), of batch_mode] by simp
  then have "cswp_client_process tr c' = Done () c'" using assms(6) by (simp add: cswp_client_process_def)
  with c' show ?thesis by auto
qed

lemma queued_none_used:
  assumes "queued c []"
  shows "unat (bused (c_cmd c)) = 15"
proof -
  have "length (written (c_cmd c)) \<le> 15" "15 \<le> unat (bused (c_cmd c))"
    using assms by (simp_all add: queued_def CSWP_REQ_HEADER_SIZE_def word_le_nat_alt)
  then show ?thesis using assms length_written [of "c_cmd c"] by (simp add: queued_def at_end_def)
qed

text \<open>Outside a batch it runs a transaction of its own.\<close>

lemma submit_transacts:
  assumes ok: "client_ok c" and none: "batch_mode c = BATCH_NONE" and x: "command_ok x"
    and len: "length (command_bytes x) + 15 \<le> unat BUFFER_SIZE"
  shows "\<exists>c'. submit tr (encode_command x) t cf c = cswp_client_transact tr None c' \<and> client_ok c' \<and> queued c' [x]
    \<and> c' = c\<lparr>c_cmd := c_cmd c', pending_responses := [\<lparr>pending_type = t, complete = cf\<rparr>], num_cmds := 1\<rparr>"
proof -
  obtain c1 where c1: "cswp_client_prepare_cmd c = Done () c1" "client_ok c1" "queued c1 []"
    "c1 = c\<lparr>c_cmd := c_cmd c1, pending_responses := [], num_cmds := 0\<rparr>"
    using prepare_queued [OF ok none] by auto
  obtain c2 where c2: "submit tr (encode_command x) t cf c = cswp_client_process tr c2" "client_ok c2" "queued c2 ([] @ [x])"
    "c2 = c1\<lparr>c_cmd := c_cmd c2, pending_responses := pending_responses c1 @ [\<lparr>pending_type = t, complete = cf\<rparr>],
         num_cmds := num_cmds c1 + 1\<rparr>"
    using submit_queue [OF c1(2,3) x _ _ c1(1), of tr t cf] len queued_none_used [OF c1(3)] by auto
  have empty: "pending_responses c1 = []" "num_cmds c1 = 0"
    using arg_cong [OF c1(4), of pending_responses] arg_cong [OF c1(4), of num_cmds] by simp_all
  have eq: "c2 = c\<lparr>c_cmd := c_cmd c2, pending_responses := [\<lparr>pending_type = t, complete = cf\<rparr>], num_cmds := 1\<rparr>"
    by (subst c2(4), subst (1) c1(4)) (simp add: empty)
  have "batch_mode c2 = BATCH_NONE" "num_cmds c2 = 1"
    using arg_cong [OF eq, of batch_mode] arg_cong [OF eq, of num_cmds] none by simp_all
  then have "cswp_client_process tr c2 = cswp_client_transact tr None c2"
    by (simp add: cswp_client_process_def word_sless_alt)
  with c2 eq show ?thesis by auto
qed

end
