(* ===== verification/Server_Impl.thy ===== *)
theory Server_Impl
  imports Cswp_Types
begin

text \<open>
  The server state and its operations, \<^verbatim>\<open>cswp/server/cswp_server_types.h\<close> and
  \<^verbatim>\<open>cswp/server/cswp_server_impl.c\<close>. The state's \<open>impl\<close> pointer is constant after start-up and is
  an argument of the operations instead of a field; \<open>priv\<close> has the type \<open>'p\<close> of the
  implementation's private data. A callback of the implementation is a program on the whole
  state: it may fail with any code and change any field. Released memory is not tracked: \<open>free\<close>
  is the assignment of \<open>NULL\<close> that follows it.
\<close>

subsection \<open>State\<close>

record cswp_device_info_t =
  registerCount :: c_uint
  registerInfo :: "cswp_register_info_t list option"

record 'p cswp_server_state_t =
  deviceCount :: c_uint
  deviceNames :: "cstring list option"
  deviceTypes :: "cstring list option"
  deviceInfo :: "cswp_device_info_t list option"
  systemDescription :: "byte list option"
  systemDescriptionSize :: c_uint
  systemDescriptionFormat :: c_uint
  priv :: 'p

type_synonym ('p, 'a) srv_prog = "('p cswp_server_state_t, 'a) prog"

text \<open>The table of callbacks; \<open>None\<close> is a null function pointer. A callback that fills an output
  argument returns the new contents; \<open>mem_read\<close> and \<open>mem_poll\<close> are given the destination.\<close>

record 'p cswp_server_impl_t =
  init_cb :: "('p, unit) srv_prog option"
  term_cb :: "('p, unit) srv_prog option"
  init_devices_cb :: "(c_uint \<Rightarrow> ('p, unit) srv_prog) option"
  clear_devices_cb :: "('p, unit) srv_prog option"
  device_add_cb :: "(c_uint \<Rightarrow> cstring \<Rightarrow> ('p, unit) srv_prog) option"
  device_open_cb :: "(c_uint \<Rightarrow> ('p, unit) srv_prog) option"
  device_close_cb :: "(c_uint \<Rightarrow> ('p, unit) srv_prog) option"
  set_config_cb :: "(c_uint \<Rightarrow> byte list \<Rightarrow> byte list \<Rightarrow> ('p, unit) srv_prog) option"
  get_config_cb :: "(c_uint \<Rightarrow> byte list \<Rightarrow> size_t \<Rightarrow> ('p, byte list) srv_prog) option"
  get_device_capabilities_cb :: "(c_uint \<Rightarrow> ('p, 64 word \<times> 64 word) srv_prog) option"
  register_list_build_cb :: "(c_uint \<Rightarrow> ('p, unit) srv_prog) option"
  register_read_cb :: "(c_uint \<Rightarrow> c_int \<Rightarrow> ('p, c_uint) srv_prog) option"
  register_write_cb :: "(c_uint \<Rightarrow> c_int \<Rightarrow> c_uint \<Rightarrow> ('p, unit) srv_prog) option"
  mem_read_cb :: "(c_uint \<Rightarrow> 64 word \<Rightarrow> size_t \<Rightarrow> c_uint \<Rightarrow> c_uint \<Rightarrow> byte list option
    \<Rightarrow> ('p, byte list option) srv_prog) option"
  mem_write_cb :: "(c_uint \<Rightarrow> 64 word \<Rightarrow> size_t \<Rightarrow> c_uint \<Rightarrow> c_uint \<Rightarrow> byte list
    \<Rightarrow> ('p, unit) srv_prog) option"
  mem_poll_cb :: "(c_uint \<Rightarrow> 64 word \<Rightarrow> size_t \<Rightarrow> c_uint \<Rightarrow> c_uint \<Rightarrow> c_uint \<Rightarrow> c_uint
    \<Rightarrow> byte list \<Rightarrow> byte list \<Rightarrow> byte list option \<Rightarrow> ('p, byte list option) srv_prog) option"
  log_cb :: "(cswp_log_level_t \<Rightarrow> byte list \<Rightarrow> log_arg list \<Rightarrow> ('p, unit) srv_prog) option"

text \<open>The allocator: whether \<open>calloc\<close> and \<open>strdup\<close> succeed, and what \<open>malloc\<close> returns (\<open>None\<close> is
  \<open>NULL\<close>, otherwise the indeterminate contents of a block of that size).\<close>

record libc =
  calloc_ok :: "size_t \<Rightarrow> size_t \<Rightarrow> bool"
  malloc :: "size_t \<Rightarrow> byte list option"
  strdup_ok :: "byte list \<Rightarrow> bool"

definition calloc :: "libc \<Rightarrow> size_t \<Rightarrow> size_t \<Rightarrow> 'a \<Rightarrow> 'a list option" where
  "calloc os n sz zero = (if calloc_ok os n sz then Some (replicate (unat n) zero) else None)"

definition strdup :: "libc \<Rightarrow> byte list \<Rightarrow> cstring" where
  "strdup os s = (if strdup_ok os (cstr s) then Some (cstr s) else None)"

text \<open>\<open>state->impl && state->impl->f\<close>.\<close>

definition cb :: "'p cswp_server_impl_t option \<Rightarrow> ('p cswp_server_impl_t \<Rightarrow> 'f option) \<Rightarrow> 'f option" where
  "cb impl sel = Option.bind impl sel"

text \<open>\<open>p[i] = v\<close>.\<close>

definition update_p :: "'a list option \<Rightarrow> nat \<Rightarrow> 'a \<Rightarrow> ('s, 'a list option) prog" where
  "update_p p i v = (case p of None \<Rightarrow> undef NullDeref
     | Some xs \<Rightarrow> if i < length xs then ret (Some (xs[i := v])) else undef OutOfBounds)"

subsection \<open>Start and end of a session\<close>

definition cswp_server_init :: "'p cswp_server_impl_t option \<Rightarrow> ('p, unit) srv_prog" where
  "cswp_server_init impl =
     cswp_check (modify (\<lambda>s. s\<lparr>deviceCount := 0, deviceNames := None, deviceTypes := None,
                              deviceInfo := None\<rparr>)) (\<lambda>_.
     (case cb impl init_cb of None \<Rightarrow> ret () | Some f \<Rightarrow> ignore f (ret ())))"

text \<open>The registers are visited to free their strings; the loop counter is an \<open>int\<close>.\<close>

definition cswp_server_clear_device_info :: "cswp_device_info_t \<Rightarrow> ('s, cswp_device_info_t) prog" where
  "cswp_server_clear_device_info devInfo =
     (case registerInfo devInfo of
        None \<Rightarrow> ret devInfo
      | Some rs \<Rightarrow>
          cswp_check (c_for_int (unat (registerCount devInfo))
            (\<lambda>i. cswp_check (nth_c rs i) (\<lambda>_. ret ()))) (\<lambda>_.
          ret (devInfo\<lparr>registerInfo := None\<rparr>)))"

text \<open>One round of the loop in \<open>cswp_server_clear_devices\<close>.\<close>

definition clear_device :: "nat \<Rightarrow> ('p, unit) srv_prog" where
  "clear_device i =
     cswp_check (gets id) (\<lambda>s.
     cswp_check (nth_p (deviceInfo s) i) (\<lambda>d.
     cswp_check (cswp_server_clear_device_info d) (\<lambda>d'.
     cswp_check (update_p (deviceInfo s) i d') (\<lambda>ds.
     cswp_check (modify (\<lambda>s. s\<lparr>deviceInfo := ds\<rparr>)) (\<lambda>_.
     cswp_check (nth_p (deviceNames s) i) (\<lambda>_.
     cswp_check (nth_p (deviceTypes s) i) (\<lambda>_.
     ret ())))))))"

definition no_devices :: "'p cswp_server_state_t \<Rightarrow> 'p cswp_server_state_t" where
  "no_devices s = s\<lparr>deviceCount := 0, deviceNames := None, deviceTypes := None, deviceInfo := None\<rparr>"

definition cswp_server_clear_devices :: "'p cswp_server_impl_t option \<Rightarrow> ('p, unit) srv_prog" where
  "cswp_server_clear_devices impl =
     cswp_check (case cb impl clear_devices_cb of None \<Rightarrow> ret () | Some f \<Rightarrow> ignore f (ret ())) (\<lambda>_.
     cswp_check (gets deviceCount) (\<lambda>n.
     cswp_check (c_for 0 (unat n) clear_device) (\<lambda>_.
     modify no_devices)))"

definition cswp_server_term :: "'p cswp_server_impl_t option \<Rightarrow> ('p, unit) srv_prog" where
  "cswp_server_term impl =
     cswp_check (case cb impl term_cb of None \<Rightarrow> ret () | Some f \<Rightarrow> ignore f (ret ())) (\<lambda>_.
     cswp_server_clear_devices impl)"

subsection \<open>Devices\<close>

text \<open>\<open>sizeof(const char* )\<close> is 8 and \<open>sizeof(cswp_device_info_t)\<close> is 16.\<close>

definition cswp_server_init_devices ::
  "libc \<Rightarrow> 'p cswp_server_impl_t option \<Rightarrow> c_uint \<Rightarrow> ('p, unit) srv_prog" where
  "cswp_server_init_devices os impl n =
     cswp_check (modify (\<lambda>s. s\<lparr>deviceCount := n,
         deviceNames := calloc os (ucast n) 8 None,
         deviceTypes := calloc os (ucast n) 8 None,
         deviceInfo := calloc os (ucast n) 16 \<lparr>registerCount = 0, registerInfo = None\<rparr>\<rparr>)) (\<lambda>_.
     (case cb impl init_devices_cb of None \<Rightarrow> ret () | Some f \<Rightarrow> ignore (f n) (ret ())))"

definition cswp_server_set_device ::
  "libc \<Rightarrow> 'p cswp_server_impl_t option \<Rightarrow> c_uint \<Rightarrow> byte list \<Rightarrow> byte list \<Rightarrow> ('p, unit) srv_prog" where
  "cswp_server_set_device os impl index deviceName deviceType =
     cswp_check (gets deviceCount) (\<lambda>n.
     if index \<ge> n then fail (res_val CSWP_INVALID_DEVICE)
     else
       cswp_check (gets deviceNames) (\<lambda>p.
       cswp_check (update_p p (unat index) (strdup os deviceName)) (\<lambda>p'.
       cswp_check (modify (\<lambda>s. s\<lparr>deviceNames := p'\<rparr>)) (\<lambda>_.
       cswp_check (gets deviceTypes) (\<lambda>p.
       cswp_check (update_p p (unat index) (strdup os deviceType)) (\<lambda>p'.
       cswp_check (modify (\<lambda>s. s\<lparr>deviceTypes := p'\<rparr>)) (\<lambda>_.
       (case cb impl device_add_cb of
          None \<Rightarrow> ret ()
        | Some f \<Rightarrow> f index (Some (cstr deviceType))))))))))"

text \<open>The text \<open>snprintf\<close> leaves in \<open>deviceInfo\<close>, cut to the destination. Opening a device forgets
  its register list.\<close>

definition cswp_server_device_open ::
  "'p cswp_server_impl_t option \<Rightarrow> c_uint \<Rightarrow> size_t \<Rightarrow> ('p, byte list) srv_prog" where
  "cswp_server_device_open impl deviceNo deviceInfoSz =
     (let text = take (unat deviceInfoSz - 1)
                   (bytes_of ''Device '' @ fmt_d deviceNo @ bytes_of '' info'') in
      cswp_check (gets deviceInfo) (\<lambda>p.
      cswp_check (nth_p p (unat deviceNo)) (\<lambda>d.
      cswp_check (update_p p (unat deviceNo) (d\<lparr>registerCount := 0, registerInfo := None\<rparr>)) (\<lambda>p'.
      cswp_check (modify (\<lambda>s. s\<lparr>deviceInfo := p'\<rparr>)) (\<lambda>_.
      (case cb impl device_open_cb of
         None \<Rightarrow> ret text
       | Some f \<Rightarrow> cswp_check (f deviceNo) (\<lambda>_. ret text)))))))"

text \<open>The register list is dropped whether or not the implementation closed the device.\<close>

definition cswp_server_device_close :: "'p cswp_server_impl_t option \<Rightarrow> c_uint \<Rightarrow> ('p, unit) srv_prog" where
  "cswp_server_device_close impl deviceNo =
     (let clear =
        cswp_check (gets deviceInfo) (\<lambda>p.
        cswp_check (nth_p p (unat deviceNo)) (\<lambda>d.
        cswp_check (cswp_server_clear_device_info d) (\<lambda>d'.
        cswp_check (update_p p (unat deviceNo) d') (\<lambda>p'.
        modify (\<lambda>s. s\<lparr>deviceInfo := p'\<rparr>)))))
      in
      (case cb impl device_close_cb of
         None \<Rightarrow> clear
       | Some f \<Rightarrow> attempt (f deviceNo)
           (\<lambda>res. cswp_check clear (\<lambda>_. fail res))
           (\<lambda>_. clear)))"

subsection \<open>Operations of the implementation\<close>

definition cswp_server_set_config ::
  "'p cswp_server_impl_t option \<Rightarrow> c_uint \<Rightarrow> byte list \<Rightarrow> byte list \<Rightarrow> ('p, unit) srv_prog" where
  "cswp_server_set_config impl deviceNo name val = (case cb impl set_config_cb of
       None \<Rightarrow> fail (res_val CSWP_UNSUPPORTED)
     | Some f \<Rightarrow> f deviceNo name val)"

definition cswp_server_get_config ::
  "'p cswp_server_impl_t option \<Rightarrow> c_uint \<Rightarrow> byte list \<Rightarrow> size_t \<Rightarrow> ('p, byte list) srv_prog" where
  "cswp_server_get_config impl deviceNo name valueSize = (case cb impl get_config_cb of
       None \<Rightarrow> fail (res_val CSWP_UNSUPPORTED)
     | Some f \<Rightarrow> f deviceNo name valueSize)"

definition cswp_server_get_device_capabilities ::
  "'p cswp_server_impl_t option \<Rightarrow> c_uint \<Rightarrow> ('p, 64 word \<times> 64 word) srv_prog" where
  "cswp_server_get_device_capabilities impl deviceNo = (case cb impl get_device_capabilities_cb of
       None \<Rightarrow> fail (res_val CSWP_UNSUPPORTED)
     | Some f \<Rightarrow> f deviceNo)"

definition cswp_server_reg_list_build :: "'p cswp_server_impl_t option \<Rightarrow> c_uint \<Rightarrow> ('p, unit) srv_prog" where
  "cswp_server_reg_list_build impl deviceNo = (case cb impl register_list_build_cb of
       None \<Rightarrow> fail (res_val CSWP_UNSUPPORTED)
     | Some f \<Rightarrow> f deviceNo)"

definition cswp_server_reg_read ::
  "'p cswp_server_impl_t option \<Rightarrow> c_uint \<Rightarrow> c_uint \<Rightarrow> ('p, c_uint) srv_prog" where
  "cswp_server_reg_read impl deviceNo regID = (case cb impl register_read_cb of
       None \<Rightarrow> fail (res_val CSWP_UNSUPPORTED)
     | Some f \<Rightarrow> f deviceNo regID)"

definition cswp_server_reg_write ::
  "'p cswp_server_impl_t option \<Rightarrow> c_uint \<Rightarrow> c_uint \<Rightarrow> c_uint \<Rightarrow> ('p, unit) srv_prog" where
  "cswp_server_reg_write impl deviceNo regID val = (case cb impl register_write_cb of
       None \<Rightarrow> fail (res_val CSWP_UNSUPPORTED)
     | Some f \<Rightarrow> f deviceNo regID val)"

definition cswp_server_mem_read ::
  "'p cswp_server_impl_t option \<Rightarrow> c_uint \<Rightarrow> 64 word \<Rightarrow> size_t \<Rightarrow> c_uint \<Rightarrow> c_uint \<Rightarrow> byte list option
     \<Rightarrow> ('p, byte list option) srv_prog" where
  "cswp_server_mem_read impl deviceNo address sz accessSize flags pData = (case cb impl mem_read_cb of
       None \<Rightarrow> fail (res_val CSWP_UNSUPPORTED)
     | Some f \<Rightarrow> f deviceNo address sz accessSize flags pData)"

definition cswp_server_mem_write ::
  "'p cswp_server_impl_t option \<Rightarrow> c_uint \<Rightarrow> 64 word \<Rightarrow> size_t \<Rightarrow> c_uint \<Rightarrow> c_uint \<Rightarrow> byte list
     \<Rightarrow> ('p, unit) srv_prog" where
  "cswp_server_mem_write impl deviceNo address sz accessSize flags pData = (case cb impl mem_write_cb of
       None \<Rightarrow> fail (res_val CSWP_UNSUPPORTED)
     | Some f \<Rightarrow> f deviceNo address sz accessSize flags pData)"

definition cswp_server_mem_poll ::
  "'p cswp_server_impl_t option \<Rightarrow> c_uint \<Rightarrow> 64 word \<Rightarrow> size_t \<Rightarrow> c_uint \<Rightarrow> c_uint \<Rightarrow> c_uint \<Rightarrow> c_uint
     \<Rightarrow> byte list \<Rightarrow> byte list \<Rightarrow> byte list option \<Rightarrow> ('p, byte list option) srv_prog" where
  "cswp_server_mem_poll impl deviceNo address sz accessSize flags tries interval pMask pValue pData =
     (case cb impl mem_poll_cb of
       None \<Rightarrow> fail (res_val CSWP_UNSUPPORTED)
     | Some f \<Rightarrow> f deviceNo address sz accessSize flags tries interval pMask pValue pData)"

end
