(* ===== verification/Server_Cmdint.thy ===== *)
theory Server_Cmdint
  imports Server_Commands Server_Impl
begin

text \<open>
  The command interpreter of the server, \<^verbatim>\<open>cswp/server/cswp_server_cmdint.c\<close>: one handler per
  command, the dispatcher and the entry point. The state is the server state with the command
  and the response buffer. The handlers' names carry the suffix \<open>_srv\<close>, since the client has
  functions of the same names. A handler that returns \<open>CSWP_SUCCESS\<close> is \<open>Done\<close>, another code \<open>Fail\<close>.
\<close>

record 'p ctx =
  srv :: "'p cswp_server_state_t"
  cmd :: CSWP_BUFFER
  rsp :: CSWP_BUFFER

type_synonym ('p, 'a) handler = "('p ctx, 'a) prog"

definition on_srv :: "('p, 'a) srv_prog \<Rightarrow> ('p, 'a) handler" where
  "on_srv = zoom srv (\<lambda>s. srv_update (\<lambda>_. s))"

definition on_cmd :: "(CSWP_BUFFER, 'a) prog \<Rightarrow> ('p, 'a) handler" where
  "on_cmd = zoom cmd (\<lambda>s. cmd_update (\<lambda>_. s))"

definition on_rsp :: "(CSWP_BUFFER, 'a) prog \<Rightarrow> ('p, 'a) handler" where
  "on_rsp = zoom rsp (\<lambda>s. rsp_update (\<lambda>_. s))"

definition SERVER_PROTOCOL_VERSION :: c_uint where "SERVER_PROTOCOL_VERSION = ucast CSWP_PROTOCOL_v1"

definition SERVER_ID :: "byte list" where "SERVER_ID = bytes_of ''AMIS PoC CSWP Server''"

definition SERVER_VERISION :: c_uint where "SERVER_VERISION = 0x0100"

text \<open>The build without \<open>DEBUG\<close>; the interpreter logs nothing at the debug level.\<close>

definition CSWP_LOG_MAX :: cswp_log_level_t where "CSWP_LOG_MAX = CSWP_LOG_INFO"

definition CSWP_LOG :: "'p cswp_server_impl_t option \<Rightarrow> cswp_log_level_t \<Rightarrow> byte list \<Rightarrow> log_arg list
    \<Rightarrow> ('p, unit) handler" where
  "CSWP_LOG impl level fmt args =
     (if level \<le> CSWP_LOG_MAX
      then (case cb impl log_cb of
              None \<Rightarrow> ret ()
            | Some f \<Rightarrow> ignore (on_srv (f level fmt args)) (ret ()))
      else ret ())"

text \<open>The error text is cut to the 1023 characters of \<open>buf\<close>; \<open>buf\<close> itself is the format of the log
  message. The result code of the encoder is dropped. An \<open>int\<close> code becomes a \<open>varint_t\<close> by sign
  extension.\<close>

definition error_text :: "c_int \<Rightarrow> byte list \<Rightarrow> byte list" where
  "error_text res msg = take 1023 (bytes_of ''Error '' @ fmt_d res @ bytes_of '': '' @ msg)"

definition cswp_error :: "'p cswp_server_impl_t option \<Rightarrow> 64 word \<Rightarrow> c_int \<Rightarrow> string \<Rightarrow> log_arg list
    \<Rightarrow> ('p, 'a) handler" where
  "cswp_error impl messageType res msgFmt args =
     (case c_format (bytes_of msgFmt) args of
        None \<Rightarrow> undef UninitRead
      | Some msg \<Rightarrow>
          cswp_check (CSWP_LOG impl CSWP_LOG_ERROR (error_text res msg) []) (\<lambda>_.
          ignore (on_rsp (cswp_encode_error_response messageType (scast res) (Some (error_text res msg))))
          (fail res)))"

text \<open>\<open>deviceNo >= state->deviceCount\<close>, with the count widened to 64 bits.\<close>

definition invalid_device :: "64 word \<Rightarrow> 'p ctx \<Rightarrow> bool" where
  "invalid_device deviceNo c \<longleftrightarrow> deviceNo \<ge> ucast (deviceCount (srv c))"

subsection \<open>Session commands\<close>

definition cswp_init_srv :: "'p cswp_server_impl_t option \<Rightarrow> ('p, unit) handler" where
  "cswp_init_srv impl =
     attempt (on_cmd (cswp_decode_init_command_body 256))
       (\<lambda>res. cswp_error impl (cmd_val CSWP_INIT) res ''Failed to decode CSWP_INIT command'' [])
       (\<lambda>(protocolVersion, clientID).
          cswp_check (CSWP_LOG impl CSWP_LOG_INFO (bytes_of ''Client %s connected: protocol version: %d'')
            [Arg_str clientID, Arg_int protocolVersion]) (\<lambda>_.
          cswp_check (on_srv (cswp_server_init impl)) (\<lambda>_.
          attempt (on_rsp (cswp_encode_init_response (ucast SERVER_PROTOCOL_VERSION) (Some SERVER_ID)
                             (ucast SERVER_VERISION)))
            (\<lambda>res. cswp_error impl (cmd_val CSWP_INIT) res ''Failed to encode CSWP_INIT response'' [])
            ret)))"

definition cswp_term_srv :: "'p cswp_server_impl_t option \<Rightarrow> ('p, unit) handler" where
  "cswp_term_srv impl =
     cswp_check (CSWP_LOG impl CSWP_LOG_INFO (bytes_of ''Client disconnected'') []) (\<lambda>_.
     cswp_check (on_srv (cswp_server_term impl)) (\<lambda>_.
     attempt (on_rsp cswp_encode_term_response)
       (\<lambda>res. cswp_error impl (cmd_val CSWP_TERM) res ''Failed to encode CSWP_TERM response'' [])
       ret))"

definition cswp_client_info_srv :: "'p cswp_server_impl_t option \<Rightarrow> ('p, unit) handler" where
  "cswp_client_info_srv impl =
     attempt (on_cmd (cswp_decode_client_info_command_body 1024))
       (\<lambda>res. cswp_error impl (cmd_val CSWP_CLIENT_INFO) res ''Failed to decode CSWP_CLIENT_INFO command'' [])
       (\<lambda>msgBuf.
          cswp_check (CSWP_LOG impl CSWP_LOG_INFO (bytes_of ''Client info: %s'') [Arg_str msgBuf]) (\<lambda>_.
          attempt (on_rsp cswp_encode_client_info_response)
            (\<lambda>res. cswp_error impl (cmd_val CSWP_CLIENT_INFO) res
               ''Failed to encode CSWP_CLIENT_INFO response'' [])
            ret))"

subsection \<open>Device list and description\<close>

definition set_devices_item ::
  "libc \<Rightarrow> 'p cswp_server_impl_t option \<Rightarrow> c_uint \<Rightarrow> ('p, unit) handler" where
  "set_devices_item os impl i =
     attempt (on_cmd (cswp_buffer_get_string 256))
       (\<lambda>res. cswp_error impl (cmd_val CSWP_SET_DEVICES) res
          ''Failed to decode CSWP_SET_DEVICES command - Cannot get device name'' [])
       (\<lambda>deviceID.
     attempt (on_cmd (cswp_buffer_get_string 256))
       (\<lambda>res. cswp_error impl (cmd_val CSWP_SET_DEVICES) res
          ''Failed to decode CSWP_SET_DEVICES command - Cannot get device type'' [])
       (\<lambda>deviceType.
     cswp_check (CSWP_LOG impl CSWP_LOG_INFO (bytes_of ''Device %d: %s'')
         [Arg_int (ucast i), Arg_str deviceID]) (\<lambda>_.
     attempt (on_srv (cswp_server_set_device os impl i deviceID deviceType))
       (\<lambda>res. cswp_error impl (cmd_val CSWP_SET_DEVICES) res ''Failed to add device %s'' [Arg_str deviceID])
       ret)))"

definition cswp_set_devices_srv :: "libc \<Rightarrow> 'p cswp_server_impl_t option \<Rightarrow> ('p, unit) handler" where
  "cswp_set_devices_srv os impl =
     attempt (on_cmd cswp_decode_set_devices_command_body)
       (\<lambda>res. cswp_error impl (cmd_val CSWP_SET_DEVICES) res ''Failed to decode CSWP_SET_DEVICES command'' [])
       (\<lambda>n.
          cswp_check (on_srv (cswp_server_clear_devices impl)) (\<lambda>_.
          cswp_check (on_srv (cswp_server_init_devices os impl (ucast n))) (\<lambda>_.
          cswp_check (c_for_uint n (set_devices_item os impl)) (\<lambda>_.
          attempt (on_rsp cswp_encode_set_devices_response)
            (\<lambda>res. cswp_error impl (cmd_val CSWP_SET_DEVICES) res
               ''Failed to encode CSWP_SET_DEVICES response'' [])
            ret))))"

definition cswp_get_devices_srv :: "'p cswp_server_impl_t option \<Rightarrow> ('p, unit) handler" where
  "cswp_get_devices_srv impl =
     cswp_check (gets srv) (\<lambda>s.
     attempt (on_rsp (cswp_encode_get_devices_response (ucast (deviceCount s)) (deviceNames s) (deviceTypes s)))
       (\<lambda>res. cswp_error impl (cmd_val CSWP_GET_DEVICES) res ''Failed to encode CSWP_GET_DEVICES response'' [])
       ret)"

definition cswp_get_system_description_srv :: "'p cswp_server_impl_t option \<Rightarrow> ('p, unit) handler" where
  "cswp_get_system_description_srv impl =
     cswp_check (gets srv) (\<lambda>s.
     (case systemDescription s of
        None \<Rightarrow> cswp_error impl (cmd_val CSWP_GET_SYSTEM_DESCRIPTION) (res_val CSWP_UNSUPPORTED)
                  ''Failed to get system description'' []
      | Some d \<Rightarrow>
          attempt (on_rsp (cswp_encode_get_system_description_response
                     (ucast (systemDescriptionFormat s)) (ucast (systemDescriptionSize s)) d))
            (\<lambda>res. cswp_error impl (cmd_val CSWP_GET_SYSTEM_DESCRIPTION) res
               ''Failed to encode CSWP_GET_SYSTEM_DESCRIPTION response'' [])
            ret))"

subsection \<open>Device commands\<close>

definition cswp_device_open_srv :: "'p cswp_server_impl_t option \<Rightarrow> ('p, unit) handler" where
  "cswp_device_open_srv impl =
     attempt (on_cmd cswp_decode_device_open_command_body)
       (\<lambda>res. cswp_error impl (cmd_val CSWP_DEVICE_OPEN) res ''Failed to decode CSWP_DEVICE_OPEN command'' [])
       (\<lambda>deviceNo.
     cswp_check (CSWP_LOG impl CSWP_LOG_INFO (bytes_of ''Open device %d'') [Arg_int deviceNo]) (\<lambda>_.
     cswp_check (gets (invalid_device deviceNo)) (\<lambda>bad.
     if bad then cswp_error impl (cmd_val CSWP_DEVICE_OPEN) (res_val CSWP_INVALID_DEVICE)
                   ''Invalid device %u'' [Arg_int deviceNo]
     else
       attempt (on_srv (cswp_server_device_open impl (ucast deviceNo) 256))
         (\<lambda>res. cswp_error impl (cmd_val CSWP_DEVICE_OPEN) res ''Failed to open device %u'' [Arg_int deviceNo])
         (\<lambda>info.
       attempt (on_rsp (cswp_encode_device_open_response (Some info)))
         (\<lambda>res. cswp_error impl (cmd_val CSWP_DEVICE_OPEN) res
            ''Failed to encode CSWP_DEVICE_OPEN response'' [])
         ret))))"

text \<open>The error for an unknown device carries the type of another command here and in five
  handlers below, as in the code.\<close>

definition cswp_device_close_srv :: "'p cswp_server_impl_t option \<Rightarrow> ('p, unit) handler" where
  "cswp_device_close_srv impl =
     attempt (on_cmd cswp_decode_device_close_command_body)
       (\<lambda>res. cswp_error impl (cmd_val CSWP_DEVICE_CLOSE) res ''Failed to decode CSWP_DEVICE_CLOSE command'' [])
       (\<lambda>deviceNo.
     cswp_check (gets (invalid_device deviceNo)) (\<lambda>bad.
     if bad then cswp_error impl (cmd_val CSWP_DEVICE_OPEN) (res_val CSWP_INVALID_DEVICE)
                   ''Invalid device %u'' [Arg_int deviceNo]
     else
       cswp_check (CSWP_LOG impl CSWP_LOG_INFO (bytes_of ''Close device %d'') [Arg_int deviceNo]) (\<lambda>_.
       attempt (on_srv (cswp_server_device_close impl (ucast deviceNo)))
         (\<lambda>res. cswp_error impl (cmd_val CSWP_DEVICE_CLOSE) res ''Failed to close device %u'' [Arg_int deviceNo])
         (\<lambda>_.
       attempt (on_rsp cswp_encode_device_close_response)
         (\<lambda>res. cswp_error impl (cmd_val CSWP_DEVICE_CLOSE) res
            ''Failed to encode CSWP_DEVICE_CLOSE response'' [])
         ret))))"

definition cswp_set_config_srv :: "'p cswp_server_impl_t option \<Rightarrow> ('p, unit) handler" where
  "cswp_set_config_srv impl =
     attempt (on_cmd (cswp_decode_set_config_command_body 256 256))
       (\<lambda>res. cswp_error impl (cmd_val CSWP_SET_CONFIG) res ''Failed to decode CSWP_SET_CONFIG command'' [])
       (\<lambda>(deviceNo, name, val).
     cswp_check (CSWP_LOG impl CSWP_LOG_INFO (bytes_of ''Set config device %d: %s = %s'')
         [Arg_int deviceNo, Arg_str name, Arg_str val]) (\<lambda>_.
     cswp_check (gets (invalid_device deviceNo)) (\<lambda>bad.
     if bad then cswp_error impl (cmd_val CSWP_SET_CONFIG) (res_val CSWP_INVALID_DEVICE)
                   ''Invalid device %u'' [Arg_int deviceNo]
     else
       attempt (on_srv (cswp_server_set_config impl (ucast deviceNo) name val))
         (\<lambda>res. cswp_error impl (cmd_val CSWP_SET_CONFIG) res
            ''Failed to set config item on device %u'' [Arg_int deviceNo])
         (\<lambda>_.
       attempt (on_rsp cswp_encode_set_config_response)
         (\<lambda>res. cswp_error impl (cmd_val CSWP_SET_CONFIG) res
            ''Failed to encode CSWP_SET_CONFIG response'' [])
         ret))))"

definition cswp_get_config_srv :: "'p cswp_server_impl_t option \<Rightarrow> ('p, unit) handler" where
  "cswp_get_config_srv impl =
     attempt (on_cmd (cswp_decode_get_config_command_body 256))
       (\<lambda>res. cswp_error impl (cmd_val CSWP_GET_CONFIG) res ''Failed to decode CSWP_GET_CONFIG command'' [])
       (\<lambda>(deviceNo, name).
     cswp_check (CSWP_LOG impl CSWP_LOG_INFO (bytes_of ''Get config device %d: %s'')
         [Arg_int deviceNo, Arg_str name]) (\<lambda>_.
     cswp_check (gets (invalid_device deviceNo)) (\<lambda>bad.
     if bad then cswp_error impl (cmd_val CSWP_GET_CONFIG) (res_val CSWP_INVALID_DEVICE)
                   ''Invalid device %u'' [Arg_int deviceNo]
     else
       attempt (on_srv (cswp_server_get_config impl (ucast deviceNo) name 256))
         (\<lambda>res. cswp_error impl (cmd_val CSWP_GET_CONFIG) res
            ''Failed to get config item on device %u'' [Arg_int deviceNo])
         (\<lambda>val.
       attempt (on_rsp (cswp_encode_get_config_response (Some val)))
         (\<lambda>res. cswp_error impl (cmd_val CSWP_GET_CONFIG) res
            ''Failed to encode CSWP_GET_CONFIG response'' [])
         ret))))"

definition cswp_get_device_capabilities_srv :: "'p cswp_server_impl_t option \<Rightarrow> ('p, unit) handler" where
  "cswp_get_device_capabilities_srv impl =
     attempt (on_cmd cswp_decode_get_device_capabilities_command_body)
       (\<lambda>res. cswp_error impl (cmd_val CSWP_GET_DEVICE_CAPABILITIES) res
          ''Failed to decode CSWP_GET_DEVICE_CAPABILITIES command'' [])
       (\<lambda>deviceNo.
     cswp_check (CSWP_LOG impl CSWP_LOG_INFO (bytes_of ''Get capabilities for device %d'') []) (\<lambda>_.
     cswp_check (gets (invalid_device deviceNo)) (\<lambda>bad.
     if bad then cswp_error impl (cmd_val CSWP_GET_DEVICE_CAPABILITIES) (res_val CSWP_INVALID_DEVICE)
                   ''Invalid device %u'' [Arg_int deviceNo]
     else
       attempt (on_srv (cswp_server_get_device_capabilities impl (ucast deviceNo)))
         (\<lambda>res. cswp_error impl (cmd_val CSWP_GET_DEVICE_CAPABILITIES) res
            ''Failed to get capabilities on device %u'' [Arg_int deviceNo])
         (\<lambda>(capabilities, capabilitiesData).
       attempt (on_rsp (cswp_encode_get_device_capabilities_response capabilities capabilitiesData))
         (\<lambda>res. cswp_error impl (cmd_val CSWP_GET_DEVICE_CAPABILITIES) res
            ''Failed to encode CSWP_GET_DEVICE_CAPABILITIES response'' [])
         ret))))"

subsection \<open>Register commands\<close>

text \<open>The result of building the list is overwritten by that of the encoder.\<close>

definition reg_list_item :: "cswp_device_info_t \<Rightarrow> nat \<Rightarrow> ('p, unit) handler" where
  "reg_list_item d i =
     cswp_check (nth_p (registerInfo d) i) (\<lambda>r.
     on_rsp (cswp_encode_reg_info (ucast (reg_id r)) (reg_name r) (ucast (reg_size r))
               (reg_displayName r) (reg_description r)))"

definition cswp_reg_list_srv :: "'p cswp_server_impl_t option \<Rightarrow> ('p, unit) handler" where
  "cswp_reg_list_srv impl =
     attempt (on_cmd cswp_decode_reg_list_command_body)
       (\<lambda>res. cswp_error impl (cmd_val CSWP_REG_LIST) res ''Failed to decode CSWP_REG_LIST command'' [])
       (\<lambda>deviceNo.
     cswp_check (gets (invalid_device deviceNo)) (\<lambda>bad.
     if bad then cswp_error impl (cmd_val CSWP_DEVICE_OPEN) (res_val CSWP_INVALID_DEVICE)
                   ''Invalid device %u'' [Arg_int deviceNo]
     else
       ignore (on_srv (cswp_server_reg_list_build impl (ucast deviceNo)))
       (cswp_check (gets (\<lambda>c. deviceInfo (srv c))) (\<lambda>p.
       cswp_check (nth_p p (unat deviceNo)) (\<lambda>d.
       attempt
         (cswp_check (on_rsp (cswp_encode_reg_list_response (ucast (registerCount d)))) (\<lambda>_.
          c_for 0 (unat (registerCount d)) (reg_list_item d)))
         (\<lambda>res. cswp_error impl (cmd_val CSWP_REG_LIST) res ''Failed to encode CSWP_REG_LIST response'' [])
         ret)))))"

text \<open>\<open>register_error\<close>: the error path of both loops reads \<open>regID\<close>, which no round may have
  assigned yet.\<close>

definition register_error :: "'p cswp_server_impl_t option \<Rightarrow> cswp_commands_t \<Rightarrow> c_int \<Rightarrow> string
    \<Rightarrow> 64 word option \<Rightarrow> ('p, 'a) handler" where
  "register_error impl c res msg regID = (case regID of
       None \<Rightarrow> undef UninitRead
     | Some r \<Rightarrow> cswp_error impl (cmd_val c) res msg [Arg_int r])"

text \<open>One round of the read loop. \<open>regValues\<close> is the block from \<open>malloc\<close>, and the locals are \<open>regID\<close>
  and the values stored so far. The callback stores through \<open>&regValues[r]\<close>.\<close>

definition reg_store :: "byte list option \<Rightarrow> nat \<Rightarrow> ('s, unit) prog" where
  "reg_store regValues i = (case regValues of
       None \<Rightarrow> undef NullDeref
     | Some p \<Rightarrow> if 4 * (unat (of_nat i :: c_uint) + 1) \<le> length p then ret () else undef OutOfBounds)"

definition reg_read_item :: "'p cswp_server_impl_t option \<Rightarrow> c_uint \<Rightarrow> byte list option \<Rightarrow> nat
    \<Rightarrow> 64 word option \<times> c_uint list \<Rightarrow> ('p, 64 word option \<times> c_uint list) handler" where
  "reg_read_item impl deviceNo regValues i = (\<lambda>(regID, vals).
     attempt (on_cmd cswp_buffer_get_varint)
       (\<lambda>res. register_error impl CSWP_REG_READ res ''Failed to read register %u'' regID)
       (\<lambda>r.
     cswp_check (CSWP_LOG impl CSWP_LOG_INFO (bytes_of ''Read reg %u'') [Arg_int r]) (\<lambda>_.
     attempt (on_srv (cswp_server_reg_read impl deviceNo (ucast r)))
       (\<lambda>res. register_error impl CSWP_REG_READ res ''Failed to read register %u'' (Some r))
       (\<lambda>v.
     cswp_check (reg_store regValues i) (\<lambda>_.
     ret (Some r, vals @ [v]))))))"

definition cswp_reg_read_srv :: "libc \<Rightarrow> 'p cswp_server_impl_t option \<Rightarrow> ('p, unit) handler" where
  "cswp_reg_read_srv os impl =
     attempt (on_cmd cswp_decode_reg_read_command_body)
       (\<lambda>res. cswp_error impl (cmd_val CSWP_REG_READ) res ''Failed to decode CSWP_REG_READ command'' [])
       (\<lambda>(deviceNo, regCount).
     cswp_check (gets (invalid_device deviceNo)) (\<lambda>bad.
     if bad then cswp_error impl (cmd_val CSWP_REG_READ) (res_val CSWP_INVALID_DEVICE)
                   ''Invalid device %u'' [Arg_int deviceNo]
     else
       cswp_check (uint_loop regCount (\<lambda>k.
           c_fold 0 k (reg_read_item impl (ucast deviceNo) (malloc os (regCount * 4))) (None, []))) (\<lambda>(_, vals).
       attempt (on_rsp (cswp_encode_reg_read_response regCount vals))
         (\<lambda>res. cswp_error impl (cmd_val CSWP_REG_READ) res ''Failed to encode CSWP_REG_READ response'' [])
         ret)))"

definition reg_write_item :: "'p cswp_server_impl_t option \<Rightarrow> c_uint \<Rightarrow> nat
    \<Rightarrow> 64 word option \<Rightarrow> ('p, 64 word option) handler" where
  "reg_write_item impl deviceNo i regID =
     attempt (on_cmd cswp_buffer_get_varint)
       (\<lambda>res. register_error impl CSWP_REG_WRITE res ''Failed to write register %u'' regID)
       (\<lambda>r.
     attempt (on_cmd cswp_buffer_get_uint32)
       (\<lambda>res. register_error impl CSWP_REG_WRITE res ''Failed to write register %u'' (Some r))
       (\<lambda>regVal.
     cswp_check (CSWP_LOG impl CSWP_LOG_INFO (bytes_of ''Write reg %u = 0x%08X'')
         [Arg_int r, Arg_int (ucast regVal)]) (\<lambda>_.
     attempt (on_srv (cswp_server_reg_write impl deviceNo (ucast r) regVal))
       (\<lambda>res. register_error impl CSWP_REG_WRITE res ''Failed to write register %u'' (Some r))
       (\<lambda>_. ret (Some r)))))"

definition cswp_reg_write_srv :: "'p cswp_server_impl_t option \<Rightarrow> ('p, unit) handler" where
  "cswp_reg_write_srv impl =
     attempt (on_cmd cswp_decode_reg_write_command_body)
       (\<lambda>res. cswp_error impl (cmd_val CSWP_REG_WRITE) res ''Failed to decode CSWP_REG_WRITE command'' [])
       (\<lambda>(deviceNo, regCount).
     cswp_check (gets (invalid_device deviceNo)) (\<lambda>bad.
     if bad then cswp_error impl (cmd_val CSWP_DEVICE_OPEN) (res_val CSWP_INVALID_DEVICE)
                   ''Invalid device %u'' [Arg_int deviceNo]
     else
       cswp_check (uint_loop regCount (\<lambda>k. c_fold 0 k (reg_write_item impl (ucast deviceNo)) None)) (\<lambda>_.
       attempt (on_rsp cswp_encode_reg_write_response)
         (\<lambda>res. cswp_error impl (cmd_val CSWP_REG_WRITE) res ''Failed to encode CSWP_REG_WRITE response'' [])
         ret)))"

subsection \<open>Memory commands\<close>

text \<open>The arguments of the memory messages, and the bytes behind a pointer (none behind \<open>NULL\<close>, so
  that copying any is out of bounds).\<close>

definition mem_args :: "64 word \<Rightarrow> 64 word \<Rightarrow> 64 word \<Rightarrow> 64 word \<Rightarrow> 64 word \<Rightarrow> log_arg list" where
  "mem_args deviceNo address sz accessSize flags =
     [Arg_int deviceNo, Arg_int (drop_bit 32 address), Arg_int (address AND 0xFFFFFFFF),
      Arg_int sz, Arg_int accessSize, Arg_int flags]"

definition block :: "byte list option \<Rightarrow> byte list" where
  "block p = (case p of None \<Rightarrow> [] | Some d \<Rightarrow> d)"

definition cswp_mem_read_srv :: "libc \<Rightarrow> 'p cswp_server_impl_t option \<Rightarrow> ('p, unit) handler" where
  "cswp_mem_read_srv os impl =
     attempt (on_cmd cswp_decode_mem_read_command_body)
       (\<lambda>res. cswp_error impl (cmd_val CSWP_MEM_READ) res ''Failed to decode CSWP_MEM_READ command'' [])
       (\<lambda>(deviceNo, address, sz, accessSize, flags).
     cswp_check (gets (invalid_device deviceNo)) (\<lambda>bad.
     if bad then cswp_error impl (cmd_val CSWP_DEVICE_OPEN) (res_val CSWP_INVALID_DEVICE)
                   ''Invalid device %u'' [Arg_int deviceNo]
     else
       cswp_check (CSWP_LOG impl CSWP_LOG_INFO
           (bytes_of ''Mem read: %d: 0x%08X%08X ..+0x%X, acc=0x%X, flags=0x%X'')
           (mem_args deviceNo address sz accessSize flags)) (\<lambda>_.
       attempt (on_srv (cswp_server_mem_read impl (ucast deviceNo) address sz (ucast accessSize)
                   (ucast flags) (malloc os sz)))
         (\<lambda>res. cswp_error impl (cmd_val CSWP_MEM_READ) res
            ''Failed to read memory %d: 0x%08X%08X ..+0x%X, acc=0x%X, flags=0x%X''
            (mem_args deviceNo address sz accessSize flags))
         (\<lambda>readBuf.
       attempt (on_rsp (cswp_encode_mem_read_response sz (block readBuf)))
         (\<lambda>res. cswp_error impl (cmd_val CSWP_MEM_READ) res ''Failed to encode CSWP_MEM_READ response'' [])
         ret))))"

definition cswp_mem_write_srv :: "'p cswp_server_impl_t option \<Rightarrow> ('p, unit) handler" where
  "cswp_mem_write_srv impl =
     attempt (on_cmd (cswp_check cswp_decode_mem_write_command_body (\<lambda>c.
                cswp_check (cswp_buffer_get_direct (fst (snd (snd c)))) (\<lambda>writeBuf. ret (c, writeBuf)))))
       (\<lambda>res. cswp_error impl (cmd_val CSWP_MEM_WRITE) res ''Failed to decode CSWP_MEM_WRITE command'' [])
       (\<lambda>((deviceNo, address, sz, accessSize, flags), writeBuf).
     cswp_check (gets (invalid_device deviceNo)) (\<lambda>bad.
     if bad then cswp_error impl (cmd_val CSWP_DEVICE_OPEN) (res_val CSWP_INVALID_DEVICE)
                   ''Invalid device %u'' [Arg_int deviceNo]
     else
       cswp_check (CSWP_LOG impl CSWP_LOG_INFO
           (bytes_of ''Mem write: %d: 0x%08X%08X ..+0x%X, acc=0x%X, flags=0x%X'')
           (mem_args deviceNo address sz accessSize flags)) (\<lambda>_.
       attempt (on_srv (cswp_server_mem_write impl (ucast deviceNo) address sz (ucast accessSize)
                   (ucast flags) writeBuf))
         (\<lambda>res. cswp_error impl (cmd_val CSWP_MEM_WRITE) res
            ''Failed to write memory %d: 0x%08X%08X ..+0x%X, acc=0x%X, flags=0x%X''
            (mem_args deviceNo address sz accessSize flags))
         (\<lambda>_.
       attempt (on_rsp cswp_encode_mem_write_response)
         (\<lambda>res. cswp_error impl (cmd_val CSWP_MEM_WRITE) res ''Failed to encode CSWP_MEM_WRITE response'' [])
         ret))))"

definition cswp_mem_poll_srv :: "libc \<Rightarrow> 'p cswp_server_impl_t option \<Rightarrow> ('p, unit) handler" where
  "cswp_mem_poll_srv os impl =
     attempt (on_cmd (cswp_check cswp_decode_mem_poll_command_body (\<lambda>c.
                cswp_check (cswp_buffer_get_direct (fst (snd (snd c)))) (\<lambda>maskBuf.
                cswp_check (cswp_buffer_get_direct (fst (snd (snd c)))) (\<lambda>valueBuf.
                ret (c, maskBuf, valueBuf))))))
       (\<lambda>res. cswp_error impl (cmd_val CSWP_MEM_POLL) res ''Failed to decode CSWP_MEM_POLL command'' [])
       (\<lambda>((deviceNo, address, sz, accessSize, flags, tries, interval), maskBuf, valueBuf).
     cswp_check (gets (invalid_device deviceNo)) (\<lambda>bad.
     if bad then cswp_error impl (cmd_val CSWP_DEVICE_OPEN) (res_val CSWP_INVALID_DEVICE)
                   ''Invalid device %u'' [Arg_int deviceNo]
     else
       cswp_check (CSWP_LOG impl CSWP_LOG_INFO
           (bytes_of ''Mem poll: %d: 0x%08X%08X ..+0x%X, acc=0x%X, flags=0x%X'')
           (mem_args deviceNo address sz accessSize flags)) (\<lambda>_.
       attempt (on_srv (cswp_server_mem_poll impl (ucast deviceNo) address sz (ucast accessSize)
                   (ucast flags) (ucast tries) (ucast interval) maskBuf valueBuf (malloc os sz)))
         (\<lambda>res. cswp_error impl (cmd_val CSWP_MEM_POLL) res
            ''Failed to poll memory %d: 0x%08X%08X ..+0x%X, acc=0x%X, flags=0x%X''
            (mem_args deviceNo address sz accessSize flags))
         (\<lambda>readBuf.
       attempt (on_rsp (cswp_encode_mem_poll_response sz (block readBuf)))
         (\<lambda>res. cswp_error impl (cmd_val CSWP_MEM_POLL) res ''Failed to encode CSWP_MEM_POLL response'' [])
         ret))))"

subsection \<open>Dispatch\<close>

text \<open>An asynchronous message from a client is refused without a response.\<close>

definition cswp_dispatch_command ::
  "libc \<Rightarrow> 'p cswp_server_impl_t option \<Rightarrow> 64 word \<Rightarrow> ('p, unit) handler" where
  "cswp_dispatch_command os impl messageType =
     (if messageType = cmd_val CSWP_INIT then cswp_init_srv impl
      else if messageType = cmd_val CSWP_TERM then cswp_term_srv impl
      else if messageType = cmd_val CSWP_CLIENT_INFO then cswp_client_info_srv impl
      else if messageType = cmd_val CSWP_SET_DEVICES then cswp_set_devices_srv os impl
      else if messageType = cmd_val CSWP_GET_DEVICES then cswp_get_devices_srv impl
      else if messageType = cmd_val CSWP_GET_SYSTEM_DESCRIPTION then cswp_get_system_description_srv impl
      else if messageType = cmd_val CSWP_DEVICE_OPEN then cswp_device_open_srv impl
      else if messageType = cmd_val CSWP_DEVICE_CLOSE then cswp_device_close_srv impl
      else if messageType = cmd_val CSWP_SET_CONFIG then cswp_set_config_srv impl
      else if messageType = cmd_val CSWP_GET_CONFIG then cswp_get_config_srv impl
      else if messageType = cmd_val CSWP_GET_DEVICE_CAPABILITIES then cswp_get_device_capabilities_srv impl
      else if messageType = cmd_val CSWP_REG_LIST then cswp_reg_list_srv impl
      else if messageType = cmd_val CSWP_REG_READ then cswp_reg_read_srv os impl
      else if messageType = cmd_val CSWP_REG_WRITE then cswp_reg_write_srv impl
      else if messageType = cmd_val CSWP_MEM_READ then cswp_mem_read_srv os impl
      else if messageType = cmd_val CSWP_MEM_WRITE then cswp_mem_write_srv impl
      else if messageType = cmd_val CSWP_MEM_POLL then cswp_mem_poll_srv os impl
      else if messageType = cmd_val CSWP_ASYNC_MESSAGE then fail (res_val CSWP_UNSUPPORTED)
      else cswp_error impl messageType (res_val CSWP_UNSUPPORTED) ''Unknown message type %d''
             [Arg_int messageType])"

text \<open>\<open>stateNull\<close>: the state pointer is \<open>NULL\<close>.\<close>

definition cswp_handle_command ::
  "libc \<Rightarrow> 'p cswp_server_impl_t option \<Rightarrow> bool \<Rightarrow> ('p, unit) handler" where
  "cswp_handle_command os impl stateNull =
     (if stateNull then fail (res_val CSWP_NOT_INITIALIZED)
      else
        attempt (on_cmd cswp_decode_command_header)
          (\<lambda>res. cswp_error impl (cmd_val CSWP_NONE) res ''Failed to decode command header'' [])
          (cswp_dispatch_command os impl))"

end
