(* ===== verification/Target_Server.thy ===== *)
theory Target_Server
  imports Server_Cmdint
begin

text \<open>
  The server program, \<^verbatim>\<open>target/cswp_server/cswp_server.c\<close>: the command thread that reads a request,
  runs its commands and writes one response, and the thread's start and stop on the events of
  the USB function driver. The system calls are parameters: what \<open>read_msg\<close> returns is an
  element of the type \<open>read_result\<close>, and whether \<open>write_msg\<close> succeeds is a boolean. The state is
  the interpreter's \<open>ctx\<close> (server state, command buffer, response buffer).
\<close>

subsection \<open>Tracing a buffer\<close>

text \<open>\<open>hex_dump\<close> reads \<open>sz\<close> bytes in lines of eight.\<close>

function dump_lines :: "byte list \<Rightarrow> nat \<Rightarrow> size_t \<Rightarrow> ('s, nat \<times> size_t) prog" where
  "dump_lines buf p sz s = (if 8 < sz
     then (case c_for 0 8 (\<lambda>i. cswp_check (nth_c buf (p + i)) (\<lambda>_. ret ())) s of
        Done _ s' \<Rightarrow> dump_lines buf (p + 8) (sz - 8) s'
      | Fail e s' \<Rightarrow> Fail e s'
      | Undef u \<Rightarrow> Undef u)
     else Done (p, sz) s)"
  by pat_completeness auto
termination
proof (relation "measure (\<lambda>(buf, p, sz, s). unat sz)", simp)
  fix sz :: size_t
  assume "8 < sz"
  then show "((buf, p + 8, sz - 8, s'), buf, p, sz, s) \<in> measure (\<lambda>(buf, p, sz, s). unat sz)"
    for buf :: "byte list" and p and s s' :: 's
    by (simp add: unat_sub_if' word_less_nat_alt word_le_nat_alt)
qed

declare dump_lines.simps [simp del]

function dump_rest :: "byte list \<Rightarrow> nat \<Rightarrow> size_t \<Rightarrow> ('s, unit) prog" where
  "dump_rest buf p sz s = (if 1 < sz
     then (case nth_c buf p s of
        Done _ s' \<Rightarrow> dump_rest buf (p + 1) (sz - 1) s'
      | Fail e s' \<Rightarrow> Fail e s'
      | Undef u \<Rightarrow> Undef u)
     else if 0 < sz then cswp_check (nth_c buf p) (\<lambda>_. ret ()) s
     else Done () s)"
  by pat_completeness auto
termination
proof (relation "measure (\<lambda>(buf, p, sz, s). unat sz)", simp)
  fix sz :: size_t
  assume "1 < sz"
  then show "((buf, p + 1, sz - 1, s'), buf, p, sz, s) \<in> measure (\<lambda>(buf, p, sz, s). unat sz)"
    for buf :: "byte list" and p and s s' :: 's
    by (simp add: unat_sub_if' word_less_nat_alt word_le_nat_alt)
qed

declare dump_rest.simps [simp del]

definition hex_dump :: "byte list \<Rightarrow> size_t \<Rightarrow> ('s, unit) prog" where
  "hex_dump buf sz = cswp_check (dump_lines buf 0 sz) (\<lambda>(p, sz'). dump_rest buf p sz')"

subsection \<open>Writing to the USB endpoint\<close>

text \<open>The calls of \<open>write\<close> return the numbers in \<open>results\<close>, in order; \<open>None\<close> is a negative result.
  The outcome is the number of bytes sent, or \<open>None\<close> for the result \<open>-1\<close>. When the results run
  out the call is still blocked in \<open>write\<close>.\<close>

datatype sent = Sent nat | Send_error | Sending nat

fun write_msg_usb :: "nat option list \<Rightarrow> nat \<Rightarrow> nat \<Rightarrow> sent" where
  "write_msg_usb results sz bytesSent = (if bytesSent < sz
     then (case results of
         [] \<Rightarrow> Sending bytesSent
       | None # _ \<Rightarrow> Send_error
       | Some 0 # _ \<Rightarrow> Send_error
       | Some n # rest \<Rightarrow> write_msg_usb rest sz (bytesSent + n))
     else Sent bytesSent)"

subsection \<open>One request\<close>

text \<open>The result of \<open>read_msg\<close>: the bytes it stored, no bytes (the connection is closed), or \<open>-1\<close>
  with \<open>errno\<close> equal to \<open>ESHUTDOWN\<close> or not.\<close>

datatype read_result = Read_bytes "byte list" | Read_closed | Read_shutdown | Read_failed

text \<open>The loop over the commands of a request: \<open>c\<close> is an \<open>unsigned\<close>, \<open>numCmds\<close> a \<open>varint_t\<close>, and
  \<open>abortOnError\<close> has no value (\<open>None\<close>) when the request was too short to hold it. Every round
  reads at least one byte of the command buffer, so \<open>fuel\<close> rounds are enough when \<open>fuel\<close> is more
  than the number of bytes.\<close>

primrec run_commands :: "nat \<Rightarrow> libc \<Rightarrow> 'p cswp_server_impl_t option \<Rightarrow> 64 word \<Rightarrow> byte option
    \<Rightarrow> c_uint \<Rightarrow> c_int \<Rightarrow> ('p, c_uint \<times> c_int) handler" where
  "run_commands 0 os impl numCmds abortOnError c res = undef Endless"
| "run_commands (Suc fuel) os impl numCmds abortOnError c res =
     (let next = run_commands fuel os impl numCmds abortOnError (c + 1);
          after = (\<lambda>e. if e = 0 then next e else case abortOnError of
             None \<Rightarrow> undef UninitRead
           | Some a \<Rightarrow> if a \<noteq> 0 then ret (c, e) else next e) in
      cswp_check (gets cmd) (\<lambda>b.
      if ucast c < numCmds \<and> bpos b < bused b
      then attempt (cswp_handle_command os impl False) after (\<lambda>_. after 0)
      else ret (c, res)))"

text \<open>The replies of the commands that are not run after an error. The results of the encoder are
  dropped; the counter is 32 bits wide.\<close>

definition cancel_rest :: "64 word \<Rightarrow> c_uint \<Rightarrow> ('p, unit) handler" where
  "cancel_rest numCmds c =
     (if numCmds < 0x100000000
      then c_for (unat c) (unat numCmds) (\<lambda>_.
             ignore (on_rsp (cswp_encode_error_response 0 (ucast (res_val CSWP_CANCELLED))
                               (Some (bytes_of ''Cancelled'')))) (ret ()))
      else undef Endless)"

definition cancel_commands :: "64 word \<Rightarrow> byte option \<Rightarrow> c_uint \<times> c_int \<Rightarrow> ('p, unit) handler" where
  "cancel_commands numCmds abortOnError = (\<lambda>(c, res).
     if res = 0 then ret () else case abortOnError of
         None \<Rightarrow> undef UninitRead
       | Some a \<Rightarrow> if a \<noteq> 0 then cancel_rest numCmds c else ret ())"

text \<open>The space for the length is written over at the end.\<close>

definition len_bytes :: "size_t \<Rightarrow> byte list" where
  "len_bytes n = [ucast (n AND 0xFF), ucast (drop_bit 8 n AND 0xFF),
     ucast (drop_bit 16 n AND 0xFF), ucast (drop_bit 24 n AND 0xFF)]"

definition process_request :: "libc \<Rightarrow> 'p cswp_server_impl_t option \<Rightarrow> ('p, byte list) handler" where
  "process_request os impl =
     cswp_check (gets cmd) (\<lambda>b.
     cswp_check (hex_dump (bdata b) (bused b)) (\<lambda>_.
     cswp_check (on_cmd (modify (cswp_buffer_seek 0))) (\<lambda>_.
     attempt (on_cmd cswp_buffer_get_uint32) (\<lambda>_. undef UninitRead) (\<lambda>cmdSize.
     attempt (on_cmd cswp_buffer_get_varint) (\<lambda>_. undef UninitRead) (\<lambda>numCmds.
     cswp_check (attempt (on_cmd cswp_buffer_get_uint8) (\<lambda>_. ret None) (\<lambda>a. ret (Some a))) (\<lambda>abortOnError.
     cswp_check (on_rsp (modify cswp_buffer_clear)) (\<lambda>_.
     ignore (on_rsp (cswp_buffer_put_uint32 0))
     (ignore (on_rsp (cswp_buffer_put_varint numCmds))
     (cswp_check (run_commands (Suc (unat (bused b))) os impl numCmds abortOnError 0 0) (\<lambda>end_of_loop.
      cswp_check (cancel_commands numCmds abortOnError end_of_loop) (\<lambda>_.
      cswp_check (gets (\<lambda>c. bused (rsp c))) (\<lambda>used.
      cswp_check (on_rsp (poke 0 (len_bytes used))) (\<lambda>_.
      cswp_check (gets rsp) (\<lambda>r.
      cswp_check (hex_dump (bdata r) (bused r)) (\<lambda>_.
      if unat (bused r) \<le> length (bdata r) then ret (take (unat (bused r)) (bdata r))
      else undef OutOfBounds)))))))))))))))"

subsection \<open>The command thread\<close>

text \<open>The events of a session: a read result, and for a request whether its response could be
  written. The loop leaves at a closed connection or a failed write and then ends the session;
  \<open>None\<close> is a thread that still waits for a request. A failed read other than \<open>ESHUTDOWN\<close> only
  leaves the \<open>switch\<close>: \<open>used\<close> becomes \<open>SIZE_MAX\<close>.\<close>

primrec command_loop :: "libc \<Rightarrow> 'p cswp_server_impl_t option \<Rightarrow> (read_result \<times> bool) list
    \<Rightarrow> ('p, byte list list \<times> bool) handler" where
  "command_loop os impl [] = ret ([], False)"
| "command_loop os impl (ev # evs) =
     cswp_check (on_cmd (modify cswp_buffer_clear)) (\<lambda>_.
     case fst ev of
       Read_shutdown \<Rightarrow> command_loop os impl evs
     | Read_closed \<Rightarrow> ret ([], True)
     | Read_failed \<Rightarrow>
         cswp_check (on_cmd (modify (\<lambda>b. b\<lparr>bused := - 1\<rparr>))) (\<lambda>_.
         cswp_check (process_request os impl) (\<lambda>out.
         if snd ev then cswp_check (command_loop os impl evs) (\<lambda>(outs, closed). ret (out # outs, closed))
         else ret ([out], True)))
     | Read_bytes data \<Rightarrow>
         cswp_check (on_cmd (received data)) (\<lambda>_.
         cswp_check (process_request os impl) (\<lambda>out.
         if snd ev then cswp_check (command_loop os impl evs) (\<lambda>(outs, closed). ret (out # outs, closed))
         else ret ([out], True))))"

definition run_session :: "libc \<Rightarrow> 'p cswp_server_impl_t option \<Rightarrow> (read_result \<times> bool) list
    \<Rightarrow> ('p, byte list list \<times> bool) handler" where
  "run_session os impl evs =
     cswp_check (command_loop os impl evs) (\<lambda>(outs, closed).
     if closed then cswp_check (on_srv (cswp_server_term impl)) (\<lambda>_. ret (outs, closed))
     else ret (outs, closed))"

text \<open>The session starts with two fresh buffers and a zeroed server state; the private data of the
  implementation is whatever \<open>p\<close> stands for.\<close>

definition TARGET_BUFFER_SIZE :: size_t where "TARGET_BUFFER_SIZE = 32768"

definition zero_state :: "'p \<Rightarrow> 'p cswp_server_state_t" where
  "zero_state p = \<lparr>deviceCount = 0, deviceNames = None, deviceTypes = None, deviceInfo = None,
     systemDescription = None, systemDescriptionSize = 0, systemDescriptionFormat = 0, priv = p\<rparr>"

definition process_commands :: "libc \<Rightarrow> 'p cswp_server_impl_t option \<Rightarrow> 'p \<Rightarrow> (read_result \<times> bool) list
    \<Rightarrow> ('s, (byte list list \<times> bool) \<times> 'p cswp_server_state_t) prog" where
  "process_commands os impl p evs =
     cswp_check (cswp_buffer_alloc (malloc os) TARGET_BUFFER_SIZE) (\<lambda>cmd.
     cswp_check (cswp_buffer_alloc (malloc os) TARGET_BUFFER_SIZE) (\<lambda>rsp.
     (\<lambda>s. case run_session os impl evs \<lparr>srv = zero_state p, cmd = cmd, rsp = rsp\<rparr> of
         Done x c \<Rightarrow> Done (x, srv c) s
       | Fail e c \<Rightarrow> Fail e s
       | Undef u \<Rightarrow> Undef u)))"

end
