(* ===== verification/Server_Spec.thy ===== *)
theory Server_Spec
  imports Messages Server_Cmdint
begin

text \<open>
  The abstract server: what a command does to the server state and what it answers, without
  buffers and bytes. \<open>perform\<close> gives the answer as a pair of a result (\<open>None\<close> for success,
  otherwise the error code) and the reply that goes to the client. The theory
  \<^verbatim>\<open>Server_Refines\<close> proves that the command interpreter implements it.
\<close>

type_synonym 'p answer = "('p, c_int option \<times> reply) srv_prog"

definition accept :: "reply \<Rightarrow> 'p answer" where
  "accept r = ret (None, r)"

text \<open>The error text goes to the log callback, as its format.\<close>

definition report :: "'p cswp_server_impl_t option \<Rightarrow> byte list \<Rightarrow> ('p, unit) srv_prog" where
  "report impl msg = (case cb impl log_cb of
       None \<Rightarrow> ret ()
     | Some f \<Rightarrow> ignore (f CSWP_LOG_ERROR msg []) (ret ()))"

definition refuse :: "'p cswp_server_impl_t option \<Rightarrow> 64 word \<Rightarrow> c_int \<Rightarrow> string \<Rightarrow> log_arg list \<Rightarrow> 'p answer" where
  "refuse impl t e msg args = (case c_format (bytes_of msg) args of
       None \<Rightarrow> undef UninitRead
     | Some m \<Rightarrow> cswp_check (report impl (error_text e m)) (\<lambda>_. ret (Some e, Error_reply t e (error_text e m))))"

text \<open>A command for a device that does not exist is refused. The type in the error reply is that
  of the command for some commands and \<open>CSWP_DEVICE_OPEN\<close> for the others.\<close>

definition on_device :: "'p cswp_server_impl_t option \<Rightarrow> cswp_commands_t \<Rightarrow> 64 word \<Rightarrow> 'p answer \<Rightarrow> 'p answer" where
  "on_device impl t d m = cswp_check (gets deviceCount) (\<lambda>n.
     if d \<ge> ucast n then refuse impl (cmd_val t) (res_val CSWP_INVALID_DEVICE) ''Invalid device %u'' [Arg_int d]
     else m)"

primrec set_all_devices :: "libc \<Rightarrow> 'p cswp_server_impl_t option \<Rightarrow> nat \<Rightarrow> (byte list \<times> byte list) list
    \<Rightarrow> 'p answer" where
  "set_all_devices os impl i [] = accept (Ack CSWP_SET_DEVICES)"
| "set_all_devices os impl i (d # ds) =
     attempt (cswp_server_set_device os impl (of_nat i) (fst d) (snd d))
       (\<lambda>e. refuse impl (cmd_val CSWP_SET_DEVICES) e ''Failed to add device %s'' [Arg_str (fst d)])
       (\<lambda>_. set_all_devices os impl (Suc i) ds)"

primrec read_registers :: "'p cswp_server_impl_t option \<Rightarrow> c_uint \<Rightarrow> 64 word list \<Rightarrow> c_uint list \<Rightarrow> 'p answer" where
  "read_registers impl d [] vals = accept (Reg_read_reply vals)"
| "read_registers impl d (r # rs) vals =
     attempt (cswp_server_reg_read impl d (ucast r))
       (\<lambda>e. refuse impl (cmd_val CSWP_REG_READ) e ''Failed to read register %u'' [Arg_int r])
       (\<lambda>v. read_registers impl d rs (vals @ [v]))"

primrec write_registers :: "'p cswp_server_impl_t option \<Rightarrow> c_uint \<Rightarrow> (64 word \<times> c_uint) list \<Rightarrow> 'p answer" where
  "write_registers impl d [] = accept (Ack CSWP_REG_WRITE)"
| "write_registers impl d (rv # rvs) =
     attempt (cswp_server_reg_write impl d (ucast (fst rv)) (snd rv))
       (\<lambda>e. refuse impl (cmd_val CSWP_REG_WRITE) e ''Failed to write register %u'' [Arg_int (fst rv)])
       (\<lambda>_. write_registers impl d rvs)"

text \<open>The first \<open>n\<close> items of an array that has to be there when \<open>n > 0\<close>.\<close>

definition items :: "nat \<Rightarrow> 'a list option \<Rightarrow> ('s, 'a list) prog" where
  "items n p = (if n = 0 then ret [] else case p of None \<Rightarrow> undef NullDeref
     | Some xs \<Rightarrow> if n \<le> length xs then ret (take n xs) else undef OutOfBounds)"

definition device_list :: "'p answer" where
  "device_list = cswp_check (gets id) (\<lambda>s.
     cswp_check (items (unat (deviceCount s)) (deviceNames s)) (\<lambda>names.
     cswp_check (items (unat (deviceCount s)) (deviceTypes s)) (\<lambda>types.
     accept (Get_devices_reply (zip names types)))))"

definition description :: "'p cswp_server_impl_t option \<Rightarrow> 'p answer" where
  "description impl = cswp_check (gets id) (\<lambda>s. case systemDescription s of
       None \<Rightarrow> refuse impl (cmd_val CSWP_GET_SYSTEM_DESCRIPTION) (res_val CSWP_UNSUPPORTED)
                 ''Failed to get system description'' []
     | Some d \<Rightarrow> cswp_check (items (unat (systemDescriptionSize s)) (Some d)) (\<lambda>bytes.
         accept (System_description_reply (ucast (systemDescriptionFormat s)) bytes)))"

text \<open>The register list the implementation has left in the device, whether or not building it
  succeeded.\<close>

definition register_list :: "'p cswp_server_impl_t option \<Rightarrow> 64 word \<Rightarrow> 'p answer" where
  "register_list impl d =
     ignore (cswp_server_reg_list_build impl (ucast d))
     (cswp_check (gets deviceInfo) (\<lambda>p.
     cswp_check (nth_p p (unat d)) (\<lambda>i.
     cswp_check (items (unat (registerCount i)) (registerInfo i)) (\<lambda>rs.
     accept (Reg_list_reply rs)))))"

definition mem_reply :: "(byte list \<Rightarrow> reply) \<Rightarrow> 64 word \<Rightarrow> byte list option \<Rightarrow> 'p answer" where
  "mem_reply mk n p = cswp_check (items (unat n) (Some (block p))) (\<lambda>data. accept (mk data))"

fun perform :: "libc \<Rightarrow> 'p cswp_server_impl_t option \<Rightarrow> command \<Rightarrow> 'p answer" where
  "perform os impl (Init v i) = cswp_check (cswp_server_init impl) (\<lambda>_.
     accept (Init_reply CSWP_PROTOCOL_v1 SERVER_ID (ucast SERVER_VERISION)))"
| "perform os impl Term = cswp_check (cswp_server_term impl) (\<lambda>_. accept (Ack CSWP_TERM))"
| "perform os impl (Client_info m) = accept (Ack CSWP_CLIENT_INFO)"
| "perform os impl (Set_devices ds) =
     cswp_check (cswp_server_clear_devices impl) (\<lambda>_.
     cswp_check (cswp_server_init_devices os impl (of_nat (length ds))) (\<lambda>_.
     set_all_devices os impl 0 ds))"
| "perform os impl Get_devices = device_list"
| "perform os impl Get_system_description = description impl"
| "perform os impl (Device_open d) = on_device impl CSWP_DEVICE_OPEN d
     (attempt (cswp_server_device_open impl (ucast d) 256)
       (\<lambda>e. refuse impl (cmd_val CSWP_DEVICE_OPEN) e ''Failed to open device %u'' [Arg_int d])
       (\<lambda>info. accept (Device_open_reply info)))"
| "perform os impl (Device_close d) = on_device impl CSWP_DEVICE_OPEN d
     (attempt (cswp_server_device_close impl (ucast d))
       (\<lambda>e. refuse impl (cmd_val CSWP_DEVICE_CLOSE) e ''Failed to close device %u'' [Arg_int d])
       (\<lambda>_. accept (Ack CSWP_DEVICE_CLOSE)))"
| "perform os impl (Set_config d n v) = on_device impl CSWP_SET_CONFIG d
     (attempt (cswp_server_set_config impl (ucast d) n v)
       (\<lambda>e. refuse impl (cmd_val CSWP_SET_CONFIG) e ''Failed to set config item on device %u'' [Arg_int d])
       (\<lambda>_. accept (Ack CSWP_SET_CONFIG)))"
| "perform os impl (Get_config d n) = on_device impl CSWP_GET_CONFIG d
     (attempt (cswp_server_get_config impl (ucast d) n 256)
       (\<lambda>e. refuse impl (cmd_val CSWP_GET_CONFIG) e ''Failed to get config item on device %u'' [Arg_int d])
       (\<lambda>v. accept (Get_config_reply v)))"
| "perform os impl (Get_device_capabilities d) = on_device impl CSWP_GET_DEVICE_CAPABILITIES d
     (attempt (cswp_server_get_device_capabilities impl (ucast d))
       (\<lambda>e. refuse impl (cmd_val CSWP_GET_DEVICE_CAPABILITIES) e ''Failed to get capabilities on device %u'' [Arg_int d])
       (\<lambda>(c, cd). accept (Capabilities_reply c cd)))"
| "perform os impl (Reg_list d) = on_device impl CSWP_DEVICE_OPEN d (register_list impl d)"
| "perform os impl (Reg_read d rs) = on_device impl CSWP_REG_READ d (read_registers impl (ucast d) rs [])"
| "perform os impl (Reg_write d rvs) = on_device impl CSWP_DEVICE_OPEN d (write_registers impl (ucast d) rvs)"
| "perform os impl (Mem_read d addr n a f) = on_device impl CSWP_DEVICE_OPEN d
     (attempt (cswp_server_mem_read impl (ucast d) addr n (ucast a) (ucast f) (malloc os n))
       (\<lambda>e. refuse impl (cmd_val CSWP_MEM_READ) e
          ''Failed to read memory %d: 0x%08X%08X ..+0x%X, acc=0x%X, flags=0x%X'' (mem_args d addr n a f))
       (mem_reply Mem_read_reply n))"
| "perform os impl (Mem_write d addr a f data) = on_device impl CSWP_DEVICE_OPEN d
     (attempt (cswp_server_mem_write impl (ucast d) addr (of_nat (length data)) (ucast a) (ucast f) data)
       (\<lambda>e. refuse impl (cmd_val CSWP_MEM_WRITE) e
          ''Failed to write memory %d: 0x%08X%08X ..+0x%X, acc=0x%X, flags=0x%X''
          (mem_args d addr (of_nat (length data)) a f))
       (\<lambda>_. accept (Ack CSWP_MEM_WRITE)))"
| "perform os impl (Mem_poll d addr a f t i m v) = on_device impl CSWP_DEVICE_OPEN d
     (attempt (cswp_server_mem_poll impl (ucast d) addr (of_nat (length m)) (ucast a) (ucast f)
                 (ucast t) (ucast i) m v (malloc os (of_nat (length m))))
       (\<lambda>e. refuse impl (cmd_val CSWP_MEM_POLL) e
          ''Failed to poll memory %d: 0x%08X%08X ..+0x%X, acc=0x%X, flags=0x%X''
          (mem_args d addr (of_nat (length m)) a f))
       (mem_reply Mem_poll_reply (of_nat (length m))))"

end
