(* ===== verification/Server_Refines.thy ===== *)
theory Server_Refines
  imports Server_Spec
begin

text \<open>
  The command interpreter implements the abstract server. \<open>answers dr h bs m\<close> is the simulation:
  when the unread command bytes start with \<open>bs\<close> and the abstract program \<open>m\<close> answers, the
  handler \<open>h\<close> leaves the server in the state \<open>m\<close> ends in, returns the result code of the answer,
  and has appended exactly the bytes of the reply. A successful command has consumed exactly
  \<open>bs\<close>; with \<open>dr\<close> a refused one has as well. One rule per combinator of the handlers
  carries the proofs.
\<close>

definition answered :: "bool \<Rightarrow> 'p ctx \<Rightarrow> byte list \<Rightarrow> c_int option \<Rightarrow> reply \<Rightarrow> 'p cswp_server_state_t
    \<Rightarrow> ('p ctx, unit) outcome \<Rightarrow> bool" where
  "answered dr c zs res r s' out \<longleftrightarrow> (\<exists>c'.
     out = (case res of None \<Rightarrow> Done () c' | Some e \<Rightarrow> Fail e c') \<and>
     srv c' = s' \<and>
     buf_ok (cmd c') \<and> bsize (cmd c') = bsize (cmd c) \<and> suffix (unread (cmd c')) (unread (cmd c)) \<and> (res = None \<or> dr \<longrightarrow> unread (cmd c') = zs) \<and>
     at_end (rsp c') \<and> bsize (rsp c') = bsize (rsp c) \<and> written (rsp c') = written (rsp c) @ reply_bytes r)"

definition answers :: "bool \<Rightarrow> ('p, unit) handler \<Rightarrow> byte list \<Rightarrow> 'p answer \<Rightarrow> bool" where
  "answers dr h bs m \<longleftrightarrow> (\<forall>c zs res r s'.
     buf_ok (cmd c) \<longrightarrow> unread (cmd c) = bs @ zs \<longrightarrow> at_end (rsp c) \<longrightarrow>
     m (srv c) = Done (res, r) s' \<longrightarrow> reply_ok r \<longrightarrow>
     unat (bused (rsp c)) + length (reply_bytes r) \<le> unat (bsize (rsp c)) \<longrightarrow>
     answered dr c zs res r s' (h c))"

text \<open>The log callback has no effect on the state when it is handed information; what it does with an
  error is up to it.\<close>

definition quiet :: "'p cswp_server_impl_t option \<Rightarrow> bool" where
  "quiet impl \<longleftrightarrow> (\<forall>f. cb impl log_cb = Some f \<longrightarrow> (\<forall>m as s. f CSWP_LOG_INFO m as s = Done () s))"

text \<open>A log callback without effect on the state whatever it is handed.\<close>

definition silent :: "'p cswp_server_impl_t option \<Rightarrow> bool" where
  "silent impl \<longleftrightarrow> (\<forall>f. cb impl log_cb = Some f \<longrightarrow> (\<forall>l m as s. f l m as s = Done () s))"

lemma silent_quiet: "silent impl \<Longrightarrow> quiet impl"
  by (simp add: silent_def quiet_def)

lemma silent_report: "silent impl \<Longrightarrow> report impl m s = Done () s"
  by (auto simp: silent_def report_def ignore_def split: option.splits)

text \<open>The allocator of the handlers' scratch blocks succeeds.\<close>

definition alloc_ok :: "libc \<Rightarrow> bool" where
  "alloc_ok os \<longleftrightarrow> (\<forall>n. \<exists>p. malloc os n = Some p \<and> length p = unat n)"

lemma answersI:
  assumes "\<And>c zs res r s'. buf_ok (cmd c) \<Longrightarrow> unread (cmd c) = bs @ zs \<Longrightarrow> at_end (rsp c) \<Longrightarrow>
     m (srv c) = Done (res, r) s' \<Longrightarrow> reply_ok r \<Longrightarrow>
     unat (bused (rsp c)) + length (reply_bytes r) \<le> unat (bsize (rsp c)) \<Longrightarrow>
     answered dr c zs res r s' (h c)"
  shows "answers dr h bs m"
  using assms by (simp add: answers_def)

lemma answersD:
  "answers dr h bs m \<Longrightarrow> buf_ok (cmd c) \<Longrightarrow> unread (cmd c) = bs @ zs \<Longrightarrow> at_end (rsp c) \<Longrightarrow>
     m (srv c) = Done (res, r) s' \<Longrightarrow> reply_ok r \<Longrightarrow>
     unat (bused (rsp c)) + length (reply_bytes r) \<le> unat (bsize (rsp c)) \<Longrightarrow>
     answered dr c zs res r s' (h c)"
  by (simp add: answers_def)

lemma on_cmd_reads:
  assumes "reads dec bs x" and "buf_ok (cmd c)" and "unread (cmd c) = bs @ zs"
  shows "on_cmd dec c = Done x (c\<lparr>cmd := adv (length bs) (cmd c)\<rparr>)"
  using reads_Done [OF assms] by (simp add: on_cmd_def zoom_def)

text \<open>Reading a part of the command.\<close>

lemma answers_decode:
  fixes m :: "'p answer"
  assumes dec: "reads dec bs x" and k: "answers dr (k x) cs m"
  shows "answers dr (attempt (on_cmd dec) eh k) (bs @ cs) m"
proof (rule answersI)
  fix c :: "'p ctx" and zs res r s'
  let ?c = "c\<lparr>cmd := adv (length bs) (cmd c)\<rparr>"
  assume c: "buf_ok (cmd c)" "unread (cmd c) = (bs @ cs) @ zs" "at_end (rsp c)" "m (srv c) = Done (res, r) s'"
    "reply_ok r" "unat (bused (rsp c)) + length (reply_bytes r) \<le> unat (bsize (rsp c))"
  have u: "unread (cmd c) = bs @ (cs @ zs)" using c(2) by simp
  then have len: "length bs \<le> length (unread (cmd c))" by simp
  have u': "unread (cmd ?c) = cs @ zs" "buf_ok (cmd ?c)"
    using c(1) u len by (simp_all add: unread_adv adv_ok)
  have "answered dr ?c zs res r s' (k x ?c)"
    using answersD [OF k u'(2,1)] c by simp
  moreover have "suffix (unread (cmd ?c)) (unread (cmd c))" unfolding u' u by (rule suffixI) simp
  ultimately have "answered dr c zs res r s' (k x ?c)"
    unfolding answered_def by (fastforce intro: suffix_order.trans)
  then show "answered dr c zs res r s' (attempt (on_cmd dec) eh k c)"
    by (simp add: on_cmd_reads [OF dec c(1) u])
qed

lemma answers_log:
  assumes "quiet impl" and "answers dr k bs m"
  shows "answers dr (cswp_check (CSWP_LOG impl CSWP_LOG_INFO f a) (\<lambda>_. k)) bs m"
proof -
  have "CSWP_LOG impl CSWP_LOG_INFO f a c = Done () c" for c :: "'a ctx"
    using assms(1) by (auto simp: CSWP_LOG_def quiet_def on_srv_def ignore_def zoom_def split: option.splits)
  then have "cswp_check (CSWP_LOG impl CSWP_LOG_INFO f a) (\<lambda>_. k) = k" by (intro ext) simp
  with assms(2) show ?thesis by simp
qed

text \<open>Appending the reply.\<close>

lemma on_rsp_emits:
  assumes "emits enc bs" and "at_end (rsp c)" and "unat (bused (rsp c)) + length bs \<le> unat (bsize (rsp c))"
  shows "\<exists>b'. on_rsp enc c = Done () (c\<lparr>rsp := b'\<rparr>) \<and> at_end b' \<and> bsize b' = bsize (rsp c)
    \<and> written b' = written (rsp c) @ bs"
  using emits_Done [OF assms] by (force simp: on_rsp_def zoom_def)

lemma answers_respond:
  assumes enc: "reply_ok r \<Longrightarrow> emits enc (reply_bytes r)"
  shows "answers dr (attempt (on_rsp enc) eh ret) [] (accept r)"
proof (rule answersI)
  fix c :: "'a ctx" and zs res r' s'
  assume c: "buf_ok (cmd c)" "unread (cmd c) = [] @ zs" "at_end (rsp c)" "accept r (srv c) = Done (res, r') s'"
    "reply_ok r'" "unat (bused (rsp c)) + length (reply_bytes r') \<le> unat (bsize (rsp c))"
  then have r: "r' = r" "res = None" "s' = srv c" by (auto simp: accept_def)
  from on_rsp_emits [OF enc c(3), of] c(5,6) r obtain b' where "on_rsp enc c = Done () (c\<lparr>rsp := b'\<rparr>)"
      "at_end b'" "bsize b' = bsize (rsp c)" "written b' = written (rsp c) @ reply_bytes r" by auto
  then show "answered dr c zs res r' s' (attempt (on_rsp enc) eh ret c)"
    using c(1,2) r by (simp add: answered_def)
qed

text \<open>Refusing the command. The rest of the command is not looked at.\<close>

lemma answers_refusal:
  assumes "dr \<Longrightarrow> bs = []"
  shows "answers dr (ignore (on_rsp (cswp_encode_error_response t (scast e) (Some (error_text e m)))) (fail e)) bs
    (ret (Some e, Error_reply t e (error_text e m)))"
proof (rule answersI)
  let ?enc = "cswp_encode_error_response t (scast e) (Some (error_text e m))"
  fix c :: "'a ctx" and zs res r s'
  assume c: "buf_ok (cmd c)" "unread (cmd c) = bs @ zs" "at_end (rsp c)"
    "ret (Some e, Error_reply t e (error_text e m)) (srv c) = Done (res, r) s'" "reply_ok r"
    "unat (bused (rsp c)) + length (reply_bytes r) \<le> unat (bsize (rsp c))"
  then have eq: "r = Error_reply t e (error_text e m)" "res = Some e" "s' = srv c" by auto
  obtain b' where "on_rsp ?enc c = Done () (c\<lparr>rsp := b'\<rparr>)" "at_end b'" "bsize b' = bsize (rsp c)"
      "written b' = written (rsp c) @ reply_bytes r"
    using on_rsp_emits [OF emits_error_reply c(3)] c(5,6) eq(1) by blast
  then show "answered dr c zs res r s' (ignore (on_rsp ?enc) (fail e) c)"
    using c(1,2) eq assms by (auto simp: answered_def ignore_def)
qed

text \<open>Calls into the server state.\<close>

lemma on_srv_eq: "on_srv f c = (case f (srv c) of
    Done x s \<Rightarrow> Done x (c\<lparr>srv := s\<rparr>) | Fail e s \<Rightarrow> Fail e (c\<lparr>srv := s\<rparr>) | Undef u \<Rightarrow> Undef u)"
  by (simp add: on_srv_def zoom_def)

lemma answered_srv: "answered dr (c\<lparr>srv := s\<rparr>) zs res r s' out = answered dr c zs res r s' out"
  by (simp add: answered_def)

lemma answers_attempt:
  fixes f :: "('p, 'x) srv_prog"
  assumes eh: "\<And>e. answers dr (eh e) bs (eh' e)" and k: "\<And>x. answers dr (k x) bs (k' x)"
  shows "answers dr (attempt (on_srv f) eh k) bs (attempt f eh' k')"
proof (rule answersI)
  fix c :: "'p ctx" and zs res r s'
  assume c: "buf_ok (cmd c)" "unread (cmd c) = bs @ zs" "at_end (rsp c)"
    "attempt f eh' k' (srv c) = Done (res, r) s'" "reply_ok r"
    "unat (bused (rsp c)) + length (reply_bytes r) \<le> unat (bsize (rsp c))"
  show "answered dr c zs res r s' (attempt (on_srv f) eh k c)"
  proof (cases "f (srv c)")
    case (Done x s)
    then show ?thesis
      using answersD [OF k [of x], of "c\<lparr>srv := s\<rparr>"] c by (simp add: on_srv_eq answered_srv)
  next
    case (Fail e s)
    then show ?thesis
      using answersD [OF eh [of e], of "c\<lparr>srv := s\<rparr>"] c by (simp add: on_srv_eq answered_srv)
  qed (use c in \<open>simp add: attempt_def\<close>)
qed

lemma answers_check:
  fixes f :: "('p, 'x) srv_prog"
  assumes k: "\<And>x. answers dr (k x) bs (k' x)"
  shows "answers dr (cswp_check (on_srv f) k) bs (cswp_check f k')"
proof (rule answersI)
  fix c :: "'p ctx" and zs res r s'
  assume c: "buf_ok (cmd c)" "unread (cmd c) = bs @ zs" "at_end (rsp c)"
    "cswp_check f k' (srv c) = Done (res, r) s'" "reply_ok r"
    "unat (bused (rsp c)) + length (reply_bytes r) \<le> unat (bsize (rsp c))"
  then obtain x s where x: "f (srv c) = Done x s" "k' x s = Done (res, r) s'" by (auto simp: cswp_check_eq_Done)
  from answersD [OF k [of x], of "c\<lparr>srv := s\<rparr>"] c x
  show "answered dr c zs res r s' (cswp_check (on_srv f) k c)" by (simp add: on_srv_eq answered_srv)
qed

lemma log_error_eq: "CSWP_LOG impl CSWP_LOG_ERROR m [] = on_srv (report impl m)"
  by (rule ext) (auto simp: CSWP_LOG_def CSWP_LOG_MAX_def report_def ignore_def on_srv_eq less_eq_cswp_log_level_t_def
      split: option.splits outcome.splits)

lemma answers_error:
  assumes "dr \<Longrightarrow> bs = []"
  shows "answers dr (cswp_error impl t e msg args) bs (refuse impl t e msg args)"
proof (cases "c_format (bytes_of msg) args")
  case None
  then show ?thesis by (simp add: refuse_def answers_def undef_def)
next
  case (Some m)
  then show ?thesis
    using answers_check [OF answers_refusal, OF assms] by (simp add: cswp_error_def refuse_def log_error_eq)
qed

text \<open>Case distinctions.\<close>

lemma answers_ignore: "answers dr k bs k' \<Longrightarrow> answers dr (ignore (on_srv f) k) bs (ignore f k')"
  unfolding ignore_eq_attempt by (rule answers_attempt)

lemma answers_gets:
  assumes "\<And>s. answers dr (k (f s)) bs (k' (g s))"
  shows "answers dr (cswp_check (gets (\<lambda>c. f (srv c))) k) bs (cswp_check (gets g) k')"
  using assms by (auto simp: answers_def gets_def cswp_check_def)

lemma answers_state:
  "(\<And>s. answers dr (k s) bs (k' s)) \<Longrightarrow> answers dr (cswp_check (gets srv) k) bs (cswp_check (gets id) k')"
  by (auto simp: answers_def gets_def cswp_check_def)

lemma answers_device:
  assumes "answers dr f bs (refuse impl (cmd_val t) (res_val CSWP_INVALID_DEVICE) ''Invalid device %u'' [Arg_int d])"
    and "answers dr g bs m"
  shows "answers dr (cswp_check (gets (invalid_device d)) (\<lambda>bad. if bad then f else g)) bs (on_device impl t d m)"
  using assms by (auto simp: answers_def gets_def cswp_check_def invalid_device_def on_device_def)

subsection \<open>The handlers\<close>

text \<open>The rules for the last read of a command: nothing is left to read.\<close>

lemma answers_decode_all:
  "reads dec bs x \<Longrightarrow> answers dr (k x) [] m \<Longrightarrow> answers dr (attempt (on_cmd dec) eh k) bs m"
  using answers_decode [of dec bs x dr k "[]"] by simp

lemmas answers_rules = answers_log answers_device answers_error answers_attempt answers_check

lemma reads_scalars:
  "varint_ok a \<Longrightarrow> reads cswp_decode_device_open_command_body (varint_enc a) a"
  "varint_ok a \<Longrightarrow> reads cswp_decode_device_close_command_body (varint_enc a) a"
  "varint_ok a \<Longrightarrow> reads cswp_decode_get_device_capabilities_command_body (varint_enc a) a"
  "varint_ok a \<Longrightarrow> reads cswp_decode_reg_list_command_body (varint_enc a) a"
  "varint_ok a \<Longrightarrow> reads cswp_decode_set_devices_command_body (varint_enc a) a"
  by (simp_all add: message_defs reads_get_varint)

lemma reads_strings:
  "varint_ok v \<Longrightarrow> str_ok 256 i \<Longrightarrow> reads (cswp_decode_init_command_body 256) (varint_enc v @ str_bytes i) (v, i)"
  "str_ok 1024 i \<Longrightarrow> reads (cswp_decode_client_info_command_body 1024) (str_bytes i) i"
  "varint_ok v \<Longrightarrow> str_ok 256 i \<Longrightarrow> str_ok 256 j \<Longrightarrow>
   reads (cswp_decode_set_config_command_body 256 256) (varint_enc v @ str_bytes i @ str_bytes j) (v, i, j)"
  "varint_ok v \<Longrightarrow> str_ok 256 i \<Longrightarrow>
   reads (cswp_decode_get_config_command_body 256) (varint_enc v @ str_bytes i) (v, i)"
  by (simp_all add: message_defs reads_check [OF reads_get_varint] reads_get_str reads_check_ret [OF reads_get_str]
      reads_check [OF reads_get_str] del: ret_apply)

lemma answers_init:
  assumes "quiet impl" and "command_ok (Init v i)"
  shows "answers dr (cswp_init_srv impl) (body_bytes (Init v i)) (perform os impl (Init v i))"
  unfolding cswp_init_srv_def perform.simps body_bytes.simps
  using assms
  by (intro answers_decode_all [OF reads_strings(1)])
    (auto intro!: answers_rules answers_respond emits_scalar_replies
      simp: SERVER_PROTOCOL_VERSION_def CSWP_PROTOCOL_v1_def)

lemma answers_term:
  "quiet impl \<Longrightarrow> answers dr (cswp_term_srv impl) (body_bytes Term) (perform os impl Term)"
  unfolding cswp_term_srv_def by (auto intro!: answers_rules answers_respond emits_acks)

lemma answers_client_info:
  assumes "quiet impl" and "command_ok (Client_info m)"
  shows "answers dr (cswp_client_info_srv impl) (body_bytes (Client_info m)) (perform os impl (Client_info m))"
  unfolding cswp_client_info_srv_def perform.simps body_bytes.simps
  using assms
  by (intro answers_decode_all [OF reads_strings(2)])
    (auto intro!: answers_rules answers_respond emits_acks)

lemma answers_device_open:
  assumes "quiet impl" and "command_ok (Device_open d)"
  shows "answers dr (cswp_device_open_srv impl) (body_bytes (Device_open d)) (perform os impl (Device_open d))"
  unfolding cswp_device_open_srv_def perform.simps body_bytes.simps
  using assms
  by (intro answers_decode_all [OF reads_scalars(1)])
    (auto intro!: answers_rules answers_respond emits_scalar_replies)

lemma answers_device_close:
  assumes "quiet impl" and "command_ok (Device_close d)"
  shows "answers dr (cswp_device_close_srv impl) (body_bytes (Device_close d)) (perform os impl (Device_close d))"
  unfolding cswp_device_close_srv_def perform.simps body_bytes.simps
  using assms
  by (intro answers_decode_all [OF reads_scalars(2)])
    (auto intro!: answers_rules answers_respond emits_acks)

lemma answers_set_config:
  assumes "quiet impl" and "command_ok (Set_config d n v)"
  shows "answers dr (cswp_set_config_srv impl) (body_bytes (Set_config d n v)) (perform os impl (Set_config d n v))"
  unfolding cswp_set_config_srv_def perform.simps body_bytes.simps
  using assms
  by (intro answers_decode_all [OF reads_strings(3)])
    (auto intro!: answers_rules answers_respond emits_acks)

lemma answers_get_config:
  assumes "quiet impl" and "command_ok (Get_config d n)"
  shows "answers dr (cswp_get_config_srv impl) (body_bytes (Get_config d n)) (perform os impl (Get_config d n))"
  unfolding cswp_get_config_srv_def perform.simps body_bytes.simps
  using assms
  by (intro answers_decode_all [OF reads_strings(4)])
    (auto intro!: answers_rules answers_respond emits_scalar_replies)

lemma answers_capabilities:
  assumes "quiet impl" and "command_ok (Get_device_capabilities d)"
  shows "answers dr (cswp_get_device_capabilities_srv impl) (body_bytes (Get_device_capabilities d))
    (perform os impl (Get_device_capabilities d))"
  unfolding cswp_get_device_capabilities_srv_def perform.simps body_bytes.simps
  using assms
  by (intro answers_decode_all [OF reads_scalars(3)])
    (auto intro!: answers_rules answers_respond emits_scalar_replies)

subsection \<open>Memory\<close>

lemma answers_items:
  assumes "\<And>xs. (n = 0 \<and> xs = [] \<or> (\<exists>ys. p = Some ys \<and> n \<le> length ys \<and> xs = take n ys)) \<Longrightarrow> answers dr h bs (k xs)"
  shows "answers dr h bs (cswp_check (items n p) k)"
proof (cases "n = 0 \<or> (\<exists>ys. p = Some ys \<and> n \<le> length ys)")
  case True
  show ?thesis
  proof (cases "n = 0")
    case True
    then show ?thesis using assms by (simp add: items_def del: ret_apply)
  next
    case False
    with True obtain ys where "p = Some ys" "n \<le> length ys" by auto
    then show ?thesis using assms False by (simp add: items_def del: ret_apply)
  qed
next
  case False
  then have "\<exists>u. cswp_check (items n p) k = undef u"
    by (cases p) (auto simp: items_def cswp_check_def fun_eq_iff)
  then show ?thesis by (auto simp: answers_def)
qed

lemma answers_nth_p:
  assumes "\<And>x. answers dr (h x) bs (k x)"
  shows "answers dr (cswp_check (nth_p p i) h) bs (cswp_check (nth_p p i) k)"
proof (cases "\<exists>xs. p = Some xs \<and> i < length xs")
  case True
  then show ?thesis using assms by (auto simp: nth_p_Some simp del: ret_apply)
next
  case False
  then have "\<exists>u. cswp_check (nth_p p i) k = undef u"
    by (cases p) (auto simp: nth_p_def nth_c_def cswp_check_def fun_eq_iff)
  then show ?thesis by (auto simp: answers_def)
qed

lemma answers_mem_reply:
  assumes "varint_ok n" and "\<And>d. unat n \<le> length d \<Longrightarrow> emits (enc d) (reply_bytes (mk (take (unat n) d)))"
  shows "answers dr (attempt (on_rsp (enc (block p))) eh ret) [] (mem_reply mk n p)"
  unfolding mem_reply_def
  by (rule answers_items, rule answers_respond) (use assms(2) in auto)

lemma reads_mem:
  "varint_ok d \<Longrightarrow> varint_ok n \<Longrightarrow> varint_ok a \<Longrightarrow> varint_ok f \<Longrightarrow> reads cswp_decode_mem_read_command_body
     (varint_enc d @ le_bytes 8 addr @ varint_enc n @ varint_enc a @ varint_enc f) (d, addr, n, a, f)"
  "varint_ok d \<Longrightarrow> varint_ok n \<Longrightarrow> varint_ok a \<Longrightarrow> varint_ok f \<Longrightarrow> reads cswp_decode_mem_write_command_body
     (varint_enc d @ le_bytes 8 addr @ varint_enc n @ varint_enc a @ varint_enc f) (d, addr, n, a, f)"
  "varint_ok d \<Longrightarrow> varint_ok n \<Longrightarrow> varint_ok a \<Longrightarrow> varint_ok f \<Longrightarrow> varint_ok t \<Longrightarrow> varint_ok i \<Longrightarrow>
   reads cswp_decode_mem_poll_command_body
     (varint_enc d @ le_bytes 8 addr @ varint_enc n @ varint_enc a @ varint_enc f @ varint_enc t @ varint_enc i)
     (d, addr, n, a, f, t, i)"
  unfolding message_defs by (rule unwire_rules | assumption)+

lemma answers_mem_read:
  assumes "quiet impl" and "command_ok (Mem_read d addr n a f)"
  shows "answers dr (cswp_mem_read_srv os impl) (body_bytes (Mem_read d addr n a f))
    (perform os impl (Mem_read d addr n a f))"
  unfolding cswp_mem_read_srv_def perform.simps body_bytes.simps
  using assms
  by (intro answers_decode_all [OF reads_mem(1)])
    (auto intro!: answers_rules answers_mem_reply emits_data_replies simp: varint_ok_def)

lemma reads_mem_write:
  assumes "varint_ok d" and "varint_ok a" and "varint_ok f" and "count_ok data"
  shows "reads (cswp_check cswp_decode_mem_write_command_body (\<lambda>c.
      cswp_check (cswp_buffer_get_direct (fst (snd (snd c)))) (\<lambda>writeBuf. ret (c, writeBuf))))
    (body_bytes (Mem_write d addr a f data)) ((d, addr, of_nat (length data), a, f), data)"
proof -
  have bytes: "body_bytes (Mem_write d addr a f data) =
      (varint_enc d @ le_bytes 8 addr @ varint_enc (of_nat (length data)) @ varint_enc a @ varint_enc f) @ data"
    by simp
  show ?thesis unfolding bytes
    by (rule reads_check [OF reads_mem(2) [OF assms(1) varint_ok_count [OF assms(4)] assms(2,3)]],
        unfold fst_conv snd_conv, rule reads_check_ret [OF reads_get_block [OF assms(4)] refl])
qed

lemma answers_mem_write:
  assumes "quiet impl" and "command_ok (Mem_write d addr a f data)"
  shows "answers dr (cswp_mem_write_srv impl) (body_bytes (Mem_write d addr a f data))
    (perform os impl (Mem_write d addr a f data))"
  unfolding cswp_mem_write_srv_def perform.simps
  using assms
  by (intro answers_decode_all [OF reads_mem_write])
    (auto intro!: answers_rules answers_respond emits_acks)

lemma reads_mem_poll:
  assumes "varint_ok d" and "varint_ok a" and "varint_ok f" and "varint_ok t" and "varint_ok i"
    and "count_ok m" and "length v = length m"
  shows "reads (cswp_check cswp_decode_mem_poll_command_body (\<lambda>c.
      cswp_check (cswp_buffer_get_direct (fst (snd (snd c)))) (\<lambda>maskBuf.
      cswp_check (cswp_buffer_get_direct (fst (snd (snd c)))) (\<lambda>valueBuf.
      ret (c, maskBuf, valueBuf)))))
    (body_bytes (Mem_poll d addr a f t i m v)) ((d, addr, of_nat (length m), a, f, t, i), m, v)"
proof -
  have v: "reads (cswp_buffer_get_direct (of_nat (length m))) v v"
    using reads_get_block [of v] assms(6,7) by (simp add: count_ok_def)
  have bytes: "body_bytes (Mem_poll d addr a f t i m v) =
      (varint_enc d @ le_bytes 8 addr @ varint_enc (of_nat (length m)) @ varint_enc a @ varint_enc f
        @ varint_enc t @ varint_enc i) @ m @ v"
    by simp
  show ?thesis unfolding bytes
    by (rule reads_check [OF reads_mem(3) [OF assms(1) varint_ok_count [OF assms(6)] assms(2-5)]],
        unfold fst_conv snd_conv, rule reads_check [OF reads_get_block [OF assms(6)]],
        rule reads_check_ret [OF v refl])
qed

lemma answers_mem_poll:
  assumes "quiet impl" and "command_ok (Mem_poll d addr a f t i m v)"
  shows "answers dr (cswp_mem_poll_srv os impl) (body_bytes (Mem_poll d addr a f t i m v))
    (perform os impl (Mem_poll d addr a f t i m v))"
proof -
  have n: "of_nat (length m) < (0x80000000 :: 64 word)"
    using assms(2) varint_ok_count [of m] by (simp add: varint_ok_def)
  show ?thesis
    unfolding cswp_mem_poll_srv_def perform.simps
    using assms n
    by (intro answers_decode_all [OF reads_mem_poll])
      (auto intro!: answers_rules answers_mem_reply emits_data_replies varint_ok_count)
qed

subsection \<open>Registers\<close>

lemma attempt_assoc:
  "cswp_check (attempt m h k) g = attempt m (\<lambda>e. cswp_check (h e) g) (\<lambda>x. cswp_check (k x) g)"
  by (rule ext) (simp add: attempt_def cswp_check_def split: outcome.splits)

lemma error_stops: "cswp_check (cswp_error impl t e msg args) K = cswp_error impl t e msg args"
  unfolding cswp_error_def
  by (cases "c_format (bytes_of msg) args")
    (auto simp: fun_eq_iff cswp_check_def ignore_def split: outcome.splits)

lemma reads_counts:
  "varint_ok d \<Longrightarrow> varint_ok n \<Longrightarrow> reads cswp_decode_reg_read_command_body (varint_enc d @ varint_enc n) (d, n)"
  "varint_ok d \<Longrightarrow> varint_ok n \<Longrightarrow> reads cswp_decode_reg_write_command_body (varint_enc d @ varint_enc n) (d, n)"
  unfolding message_defs by (rule unwire_rules | assumption)+

lemma reg_store_ok:
  assumes "4 * Suc i \<le> length p" and "i < 2 ^ 31"
  shows "reg_store (Some p) i = ret ()"
proof -
  have "unat (of_nat i :: c_uint) = i" using assms(2) by (simp add: unat_of_nat take_bit_nat_eq_self)
  then show ?thesis using assms(1) by (simp add: reg_store_def fun_eq_iff)
qed

lemma reg_read_round:
  fixes impl :: "'p cswp_server_impl_t option"
  assumes "reg_store (Some p) i = (ret () :: ('p, unit) handler)"
  shows "cswp_check (reg_read_item impl d (Some p) i (regID, vals)) G =
    attempt (on_cmd cswp_buffer_get_varint)
      (\<lambda>res. cswp_check (register_error impl CSWP_REG_READ res ''Failed to read register %u'' regID) G)
      (\<lambda>r. cswp_check (CSWP_LOG impl CSWP_LOG_INFO (bytes_of ''Read reg %u'') [Arg_int r]) (\<lambda>_.
         attempt (on_srv (cswp_server_reg_read impl d (ucast r)))
           (\<lambda>res. cswp_error impl (cmd_val CSWP_REG_READ) res ''Failed to read register %u'' [Arg_int r])
           (\<lambda>v. G (Some r, vals @ [v]))))"
  by (simp only: reg_read_item_def prod.case attempt_assoc cswp_check_assoc assms cswp_check_ret
      register_error_def option.case error_stops)

lemma reg_write_round:
  "cswp_check (reg_write_item impl d i regID) G =
    attempt (on_cmd cswp_buffer_get_varint)
      (\<lambda>res. cswp_check (register_error impl CSWP_REG_WRITE res ''Failed to write register %u'' regID) G)
      (\<lambda>r. attempt (on_cmd cswp_buffer_get_uint32)
        (\<lambda>res. cswp_error impl (cmd_val CSWP_REG_WRITE) res ''Failed to write register %u'' [Arg_int r])
        (\<lambda>v. cswp_check (CSWP_LOG impl CSWP_LOG_INFO (bytes_of ''Write reg %u = 0x%08X'')
              [Arg_int r, Arg_int (ucast v)]) (\<lambda>_.
           attempt (on_srv (cswp_server_reg_write impl d (ucast r) v))
             (\<lambda>res. cswp_error impl (cmd_val CSWP_REG_WRITE) res ''Failed to write register %u'' [Arg_int r])
             (\<lambda>_. G (Some r)))))"
  by (simp only: reg_write_item_def attempt_assoc cswp_check_assoc cswp_check_ret
      register_error_def option.case error_stops)

lemma answers_read_loop:
  fixes impl :: "'p cswp_server_impl_t option"
  assumes "quiet impl" and "\<And>r. r \<in> set rs \<Longrightarrow> varint_ok r"
    and "4 * (i + length rs) \<le> length p" and "i + length rs < 2 ^ 31"
    and K: "\<And>regID vs. length vs = length vals + length rs \<Longrightarrow> answers False (K (regID, vs)) [] (accept (Reg_read_reply vs))"
  shows "answers False (cswp_check (c_fold i (i + length rs) (reg_read_item impl d (Some p)) (regID, vals)) K)
    (concat (map varint_enc rs)) (read_registers impl d rs vals)"
  using assms(2-)
proof (induction rs arbitrary: i regID vals)
  case Nil
  then show ?case by (simp add: c_fold_done del: ret_apply)
next
  case (Cons r rs)
  have lt: "i < i + length (r # rs)" by simp
  have store: "reg_store (Some p) i = (ret () :: ('p, unit) handler)" using Cons.prems(2,3) by (intro reg_store_ok) simp_all
  have IH: "answers False (cswp_check (c_fold (Suc i) (Suc i + length rs) (reg_read_item impl d (Some p)) (Some r, vals @ [v])) K)
    (concat (map varint_enc rs)) (read_registers impl d rs (vals @ [v]))" for v
    using Cons.prems by (intro Cons.IH) simp_all
  show ?case
    unfolding c_fold_step [OF lt] cswp_check_assoc
    unfolding reg_read_round [OF store] read_registers.simps list.map concat.simps
    using IH assms(1) Cons.prems(1)
    by (intro answers_decode [OF reads_get_varint] answers_log answers_attempt answers_error) simp_all
qed

lemma answers_reg_read:
  assumes "quiet impl" and "command_ok (Reg_read d rs)" and "alloc_ok os"
  shows "answers False (cswp_reg_read_srv os impl) (body_bytes (Reg_read d rs)) (perform os impl (Reg_read d rs))"
proof -
  let ?n = "of_nat (length rs) :: 64 word"
  have ok: "varint_ok d" "count_ok rs" "\<And>r. r \<in> set rs \<Longrightarrow> varint_ok r" using assms(2) by auto
  then have small: "length rs < 2 ^ 31" by (simp add: count_ok_def)
  have n: "unat ?n = length rs" and lt: "?n < 0x100000000"
    using unat_count [OF ok(2)] small by (simp_all add: word_less_nat_alt)
  have "unat (?n * 4) = 4 * length rs"
    using n small by (simp add: unat_word_ariths)
  then obtain p where p: "malloc os (?n * 4) = Some p" "length p = 4 * length rs"
    using assms(3) unfolding alloc_ok_def by metis
  have loop: "answers False (cswp_check (c_fold 0 (0 + length rs) (reg_read_item impl (ucast d) (Some p)) (None, []))
      (\<lambda>(_, vals). attempt (on_rsp (cswp_encode_reg_read_response ?n vals)) eh ret))
     (concat (map varint_enc rs)) (read_registers impl (ucast d) rs [])" for eh
  proof (rule answers_read_loop [OF assms(1) ok(3)])
    fix regID :: "64 word option" and vs :: "c_uint list"
    assume "length vs = length [] + length rs"
    then have "?n = of_nat (length vs)" "count_ok vs" using ok(2) by (simp_all add: count_ok_def)
    then show "answers False (case (regID, vs) of (_, vals) \<Rightarrow>
        attempt (on_rsp (cswp_encode_reg_read_response ?n vals)) eh ret) [] (accept (Reg_read_reply vs))"
      using answers_respond [OF emits_reg_read_reply] by simp
  qed (use small p(2) in simp_all)
  have bytes: "body_bytes (Reg_read d rs) = (varint_enc d @ varint_enc ?n) @ concat (map varint_enc rs)"
    by (simp add: list_bytes_def)
  show ?thesis
    unfolding cswp_reg_read_srv_def perform.simps bytes
    by (rule answers_decode [OF reads_counts(1) [OF ok(1) varint_ok_count [OF ok(2)]]])
      (simp add: answers_device answers_error [OF FalseE] uint_loop_def lt n p(1) loop [simplified])
qed

lemma answers_write_loop:
  assumes "quiet impl" and "\<And>r v. (r, v) \<in> set rvs \<Longrightarrow> varint_ok r"
    and K: "\<And>regID. answers False (K regID) [] (accept (Ack CSWP_REG_WRITE))"
  shows "answers False (cswp_check (c_fold i (i + length rvs) (reg_write_item impl d) regID) K)
    (concat (map (\<lambda>(r, v). varint_enc r @ le_bytes 4 v) rvs)) (write_registers impl d rvs)"
  using assms(2)
proof (induction rvs arbitrary: i regID)
  case Nil
  then show ?case using K by (simp add: c_fold_done del: ret_apply)
next
  case (Cons rv rvs)
  obtain r v where rv: "rv = (r, v)" by fastforce
  have lt: "i < i + length (rv # rvs)" by simp
  have r: "varint_ok r" using Cons.prems rv by auto
  have IH: "answers False (cswp_check (c_fold (Suc i) (Suc i + length rvs) (reg_write_item impl d) (Some r)) K)
    (concat (map (\<lambda>(r, v). varint_enc r @ le_bytes 4 v) rvs)) (write_registers impl d rvs)"
    by (rule Cons.IH) (use Cons.prems in auto)
  show ?case
    unfolding c_fold_step [OF lt] cswp_check_assoc
    unfolding reg_write_round write_registers.simps list.map concat.simps
      rv prod.case append_assoc fst_conv snd_conv
    using IH assms(1) r
    by (intro answers_decode [OF reads_get_varint] answers_decode [OF reads_get_uint32] answers_log
        answers_attempt answers_error) simp_all
qed

lemma answers_reg_write:
  assumes "quiet impl" and "command_ok (Reg_write d rvs)"
  shows "answers False (cswp_reg_write_srv impl) (body_bytes (Reg_write d rvs)) (perform os impl (Reg_write d rvs))"
proof -
  let ?n = "of_nat (length rvs) :: 64 word"
  have ok: "varint_ok d" "count_ok rvs" "\<And>r v. (r, v) \<in> set rvs \<Longrightarrow> varint_ok r" using assms(2) by auto
  have n: "unat ?n = length rvs" and lt: "?n < 0x100000000"
    using unat_count [OF ok(2)] ok(2) by (simp_all add: word_less_nat_alt count_ok_def)
  have loop: "answers False (cswp_check (c_fold 0 (length rvs) (reg_write_item impl (ucast d)) None)
      (\<lambda>_. attempt (on_rsp cswp_encode_reg_write_response) eh ret))
     (concat (map (\<lambda>(r, v). varint_enc r @ le_bytes 4 v) rvs)) (write_registers impl (ucast d) rvs)" for eh
    using answers_write_loop [OF assms(1) ok(3) answers_respond [OF emits_acks(6)], where i = 0] by simp
  have bytes: "body_bytes (Reg_write d rvs)
      = (varint_enc d @ varint_enc ?n) @ concat (map (\<lambda>(r, v). varint_enc r @ le_bytes 4 v) rvs)"
    by (simp add: list_bytes_def)
  show ?thesis
    unfolding cswp_reg_write_srv_def perform.simps bytes
    by (rule answers_decode [OF reads_counts(2) [OF ok(1) varint_ok_count [OF ok(2)]]])
      (simp add: answers_device answers_error [OF FalseE] uint_loop_def lt n loop)
qed

subsection \<open>Device lists\<close>

lemma set_devices_round:
  "cswp_check (set_devices_item os impl i) G =
    attempt (on_cmd (cswp_buffer_get_string 256))
      (\<lambda>res. cswp_error impl (cmd_val CSWP_SET_DEVICES) res
         ''Failed to decode CSWP_SET_DEVICES command - Cannot get device name'' [])
      (\<lambda>n. attempt (on_cmd (cswp_buffer_get_string 256))
        (\<lambda>res. cswp_error impl (cmd_val CSWP_SET_DEVICES) res
           ''Failed to decode CSWP_SET_DEVICES command - Cannot get device type'' [])
        (\<lambda>t. cswp_check (CSWP_LOG impl CSWP_LOG_INFO (bytes_of ''Device %d: %s'')
              [Arg_int (ucast i), Arg_str n]) (\<lambda>_.
           attempt (on_srv (cswp_server_set_device os impl i n t))
             (\<lambda>res. cswp_error impl (cmd_val CSWP_SET_DEVICES) res ''Failed to add device %s'' [Arg_str n])
             G)))"
  by (simp only: set_devices_item_def attempt_assoc cswp_check_assoc cswp_check_ret error_stops)

lemma answers_set_loop:
  assumes "quiet impl" and "\<And>n t. (n, t) \<in> set ds \<Longrightarrow> str_ok 256 n \<and> str_ok 256 t"
    and K: "answers False K [] (accept (Ack CSWP_SET_DEVICES))"
  shows "answers False (cswp_check (c_for i (i + length ds) (\<lambda>i. set_devices_item os impl (of_nat i))) (\<lambda>_. K))
    (concat (map (\<lambda>(n, t). str_bytes n @ str_bytes t) ds)) (set_all_devices os impl i ds)"
  using assms(2)
proof (induction ds arbitrary: i)
  case Nil
  have "c_for i (i + length []) (\<lambda>i. set_devices_item os impl (of_nat i)) = ret ()" by (rule ext) simp
  then show ?case using K by (simp del: ret_apply)
next
  case (Cons d ds)
  obtain n t where d: "d = (n, t)" by fastforce
  have lt: "i < i + length (d # ds)" by simp
  have s: "str_ok (unat (256 :: size_t)) n" "str_ok (unat (256 :: size_t)) t" using Cons.prems d by auto
  have IH: "answers False (cswp_check (c_for (Suc i) (Suc i + length ds) (\<lambda>i. set_devices_item os impl (of_nat i))) (\<lambda>_. K))
    (concat (map (\<lambda>(n, t). str_bytes n @ str_bytes t) ds)) (set_all_devices os impl (Suc i) ds)"
    by (rule Cons.IH) (use Cons.prems in auto)
  show ?case
    unfolding c_for_step [OF lt] cswp_check_assoc
    unfolding set_devices_round set_all_devices.simps list.map concat.simps d prod.case append_assoc
      fst_conv snd_conv
    using IH assms(1) s
    by (intro answers_decode [OF reads_get_str] answers_log answers_attempt answers_error) simp_all
qed

lemma answers_set_devices:
  assumes "quiet impl" and "command_ok (Set_devices ds)"
  shows "answers False (cswp_set_devices_srv os impl) (body_bytes (Set_devices ds)) (perform os impl (Set_devices ds))"
proof -
  let ?n = "of_nat (length ds) :: 64 word"
  have ok: "count_ok ds" "\<And>n t. (n, t) \<in> set ds \<Longrightarrow> str_ok 256 n \<and> str_ok 256 t" using assms(2) by auto
  have n: "unat ?n = length ds" and lt: "?n < 0x100000000"
    using unat_count [OF ok(1)] ok(1) by (simp_all add: word_less_nat_alt count_ok_def)
  have n32: "(ucast ?n :: c_uint) = of_nat (length ds)"
    by (rule bit_word_eqI) (simp add: bit_simps)
  have loop: "answers False (cswp_check (c_for_uint ?n (set_devices_item os impl))
      (\<lambda>_. attempt (on_rsp cswp_encode_set_devices_response) eh ret))
     (concat (map (\<lambda>(n, t). str_bytes n @ str_bytes t) ds)) (set_all_devices os impl 0 ds)" for eh
    using answers_set_loop [OF assms(1) ok(2) answers_respond [OF emits_acks(3)], where i = 0]
    by (simp add: c_for_uint_def uint_loop_def lt n)
  show ?thesis
    unfolding cswp_set_devices_srv_def perform.simps body_bytes.simps list_bytes_def
    by (rule answers_decode [OF reads_scalars(5) [OF varint_ok_count [OF ok(1)]]])
      (simp only: n32, intro answers_check loop)
qed

lemma emits_device_pairs:
  assumes "count_ok names" and "length types = length names"
    and "\<And>x. x \<in> set names \<union> set types \<Longrightarrow> text_ok x"
    and "\<And>i. i < length names \<Longrightarrow> nth_p p i = (ret (names ! i) :: (CSWP_BUFFER, cstring) prog)"
    and "\<And>i. i < length names \<Longrightarrow> nth_p q i = (ret (types ! i) :: (CSWP_BUFFER, cstring) prog)"
  shows "emits (cswp_encode_get_devices_response (of_nat (length names)) p q)
    (reply_bytes (Get_devices_reply (zip names types)))"
proof -
  have "emits (c_for_int (length names) (\<lambda>i.
       cswp_check (nth_p p i) (\<lambda>name.
       cswp_check (cswp_buffer_put_string name) (\<lambda>_.
       cswp_check (nth_p q i) (\<lambda>type.
       cswp_buffer_put_string type)))))
     (concat (map (\<lambda>(n, t). string_enc n @ string_enc t) (zip names types)))"
    using assms(1-3)
    by (intro emits_for_int)
      (simp_all add: count_ok_def assms(4,5) emits_check emits_put_text del: ret_apply)
  then show ?thesis
    by (simp add: ok_header_def list_bytes_def message_defs emits_check emits_put_varint unat_count [OF assms(1)]
        assms(2))
qed

lemma items_nth:
  assumes "n = 0 \<and> xs = [] \<or> (\<exists>ys. p = Some ys \<and> n \<le> length ys \<and> xs = take n ys)"
  shows "length xs = n" and "i < n \<Longrightarrow> nth_p p i = (ret (xs ! i) :: ('s, 'x) prog)"
  using assms by (auto simp: nth_p_Some simp del: ret_apply)

lemma answers_get_devices:
  "answers dr (cswp_get_devices_srv impl) (body_bytes Get_devices) (perform os impl Get_devices)"
proof -
  have n: "(ucast (deviceCount s) :: 64 word) = of_nat (unat (deviceCount s))" for s :: "'a cswp_server_state_t"
    by simp
  have "answers dr (attempt (on_rsp (cswp_encode_get_devices_response (ucast (deviceCount s)) (deviceNames s) (deviceTypes s))) eh ret)
      [] (cswp_check (items (unat (deviceCount s)) (deviceNames s)) (\<lambda>names.
          cswp_check (items (unat (deviceCount s)) (deviceTypes s)) (\<lambda>types.
          accept (Get_devices_reply (zip names types)))))" for s :: "'a cswp_server_state_t" and eh
  proof (rule answers_items, rule answers_items, rule answers_respond)
    fix names types
    assume a: "unat (deviceCount s) = 0 \<and> names = [] \<or>
        (\<exists>ys. deviceNames s = Some ys \<and> unat (deviceCount s) \<le> length ys \<and> names = take (unat (deviceCount s)) ys)"
      and b: "unat (deviceCount s) = 0 \<and> types = [] \<or>
        (\<exists>ys. deviceTypes s = Some ys \<and> unat (deviceCount s) \<le> length ys \<and> types = take (unat (deviceCount s)) ys)"
      and ok: "reply_ok (Get_devices_reply (zip names types))"
    have len: "length names = unat (deviceCount s)" "length types = length names"
      using items_nth(1) [OF a] items_nth(1) [OF b] by simp_all
    have "text_ok x" if x: "x \<in> set names \<union> set types" for x
    proof -
      from x obtain i where i: "i < length names" "x = names ! i \<or> x = types ! i"
        using len(2) by (auto simp: in_set_conv_nth)
      then have "(names ! i, types ! i) \<in> set (zip names types)" using len(2) by (force simp: set_zip)
      with ok i(2) show ?thesis by auto
    qed
    then show "emits (cswp_encode_get_devices_response (ucast (deviceCount s)) (deviceNames s) (deviceTypes s))
        (reply_bytes (Get_devices_reply (zip names types)))"
      unfolding n len(1) [symmetric]
      using ok len items_nth(2) [OF a] items_nth(2) [OF b]
      by (intro emits_device_pairs) (simp_all add: count_ok_def)
  qed
  then show ?thesis
    unfolding cswp_get_devices_srv_def perform.simps device_list_def body_bytes.simps
    by (rule answers_state)
qed

lemma answers_description:
  "answers dr (cswp_get_system_description_srv impl) (body_bytes Get_system_description)
    (perform os impl Get_system_description)"
proof -
  have "answers dr (case systemDescription s of
        None \<Rightarrow> cswp_error impl (cmd_val CSWP_GET_SYSTEM_DESCRIPTION) (res_val CSWP_UNSUPPORTED)
                  ''Failed to get system description'' []
      | Some d \<Rightarrow> attempt (on_rsp (cswp_encode_get_system_description_response
             (ucast (systemDescriptionFormat s)) (ucast (systemDescriptionSize s)) d)) eh ret) []
     (case systemDescription s of
       None \<Rightarrow> refuse impl (cmd_val CSWP_GET_SYSTEM_DESCRIPTION) (res_val CSWP_UNSUPPORTED)
                 ''Failed to get system description'' []
     | Some d \<Rightarrow> cswp_check (items (unat (systemDescriptionSize s)) (Some d)) (\<lambda>bytes.
         accept (System_description_reply (ucast (systemDescriptionFormat s)) bytes)))"
    for s :: "'a cswp_server_state_t" and eh
  proof (cases "systemDescription s")
    case None
    then show ?thesis by (simp add: answers_error)
  next
    case (Some d)
    have "answers dr (attempt (on_rsp (cswp_encode_get_system_description_response
             (ucast (systemDescriptionFormat s)) (ucast (systemDescriptionSize s)) d)) eh ret) []
        (cswp_check (items (unat (systemDescriptionSize s)) (Some d)) (\<lambda>bytes.
         accept (System_description_reply (ucast (systemDescriptionFormat s)) bytes)))"
    proof (rule answers_items, rule answers_respond)
      fix bytes
      assume a: "unat (systemDescriptionSize s) = 0 \<and> bytes = [] \<or>
          (\<exists>ys. Some d = Some ys \<and> unat (systemDescriptionSize s) \<le> length ys \<and> bytes = take (unat (systemDescriptionSize s)) ys)"
        and ok: "reply_ok (System_description_reply (ucast (systemDescriptionFormat s)) bytes)"
      let ?n = "ucast (systemDescriptionSize s) :: 64 word"
      have n: "unat ?n = unat (systemDescriptionSize s)" by simp
      have len: "unat ?n \<le> length d" and b: "bytes = take (unat ?n) d" using a n by auto
      then have "unat ?n < 2 ^ 31" using ok by (simp add: count_ok_def)
      then have "?n < 0x80000000" by (simp add: word_less_nat_alt)
      then show "emits (cswp_encode_get_system_description_response (ucast (systemDescriptionFormat s)) ?n d)
          (reply_bytes (System_description_reply (ucast (systemDescriptionFormat s)) bytes))"
        unfolding b by (rule emits_data_replies(1) [OF len])
    qed
    then show ?thesis by (simp add: Some)
  qed
  then show ?thesis
    unfolding cswp_get_system_description_srv_def perform.simps description_def body_bytes.simps
    by (rule answers_state)
qed

text \<open>The register list is written by one encoder call per register; together they are one encoder.\<close>

lemma on_rsp_check: "on_rsp (cswp_check f g) = cswp_check (on_rsp f) (\<lambda>x. on_rsp (g x))"
  by (rule ext) (simp add: on_rsp_def zoom_def cswp_check_def split: outcome.splits)

lemma on_rsp_ret: "on_rsp (ret x) = ret x"
  by (rule ext) (simp add: on_rsp_def zoom_def)

lemma on_rsp_for: "on_rsp (c_for i n body) = c_for i n (\<lambda>k. on_rsp (body k))"
proof (induction "n - i" arbitrary: i)
  case 0
  then show ?case by (auto intro!: ext simp: on_rsp_def zoom_def)
next
  case (Suc m)
  then have lt: "i < n" and m: "m = n - Suc i" by simp_all
  show ?case unfolding c_for_step [OF lt] on_rsp_check Suc.hyps(1) [OF m] ..
qed

lemma c_for_cong: "(\<And>k. i \<le> k \<Longrightarrow> k < n \<Longrightarrow> f k = g k) \<Longrightarrow> c_for i n f = c_for i n g"
proof (induction "n - i" arbitrary: i)
  case 0
  then show ?case by (auto intro!: ext)
next
  case (Suc m)
  then have lt: "i < n" and m: "m = n - Suc i" by simp_all
  show ?case unfolding c_for_step [OF lt] using Suc.prems lt Suc.hyps(1) [OF m] by simp
qed

lemma emits_for_list:
  assumes "\<And>i. i < length xs \<Longrightarrow> emits (body i) (f (xs ! i))"
  shows "emits (c_for 0 (length xs) body) (concat (map f xs))"
  using emits_for [of "length xs" body "\<lambda>i. f (xs ! i)" 0] assms by (simp add: concat_map_nth)

lemma answers_reg_list:
  assumes "quiet impl" and "command_ok (Reg_list d)"
  shows "answers dr (cswp_reg_list_srv impl) (body_bytes (Reg_list d)) (perform os impl (Reg_list d))"
proof -
  have list: "answers dr (cswp_check (gets (\<lambda>c. deviceInfo (srv c))) (\<lambda>p.
       cswp_check (nth_p p (unat d)) (\<lambda>i.
       attempt
         (cswp_check (on_rsp (cswp_encode_reg_list_response (ucast (registerCount i)))) (\<lambda>_.
          c_for 0 (unat (registerCount i)) (reg_list_item i))) eh ret))) []
     (cswp_check (gets deviceInfo) (\<lambda>p.
      cswp_check (nth_p p (unat d)) (\<lambda>i.
      cswp_check (items (unat (registerCount i)) (registerInfo i)) (\<lambda>rs.
      accept (Reg_list_reply rs)))))"
    for eh :: "c_int \<Rightarrow> ('a, unit) handler"
  proof (rule answers_gets, rule answers_nth_p, rule answers_items)
    fix i :: cswp_device_info_t and rs
    assume a: "unat (registerCount i) = 0 \<and> rs = [] \<or> (\<exists>ys. registerInfo i = Some ys
        \<and> unat (registerCount i) \<le> length ys \<and> rs = take (unat (registerCount i)) ys)"
    let ?enc = "\<lambda>r. cswp_encode_reg_info (ucast (reg_id r)) (reg_name r) (ucast (reg_size r))
        (reg_displayName r) (reg_description r)"
    have len: "unat (registerCount i) = length rs" using items_nth(1) [OF a] by simp
    have n: "(ucast (registerCount i) :: 64 word) = of_nat (length rs)"
      unfolding len [symmetric] by simp
    have item: "reg_list_item i k = (on_rsp (?enc (rs ! k)) :: ('a, unit) handler)" if "k < length rs" for k
    proof -
      have "nth_p (registerInfo i) k = (ret (rs ! k) :: ('a, cswp_register_info_t) handler)"
        using that len by (intro items_nth(2) [OF a]) simp
      then show ?thesis by (simp add: reg_list_item_def del: ret_apply)
    qed
    have loop: "c_for 0 (length rs) (reg_list_item i) = (on_rsp (c_for 0 (length rs) (\<lambda>k. ?enc (rs ! k))) :: ('a, unit) handler)"
      unfolding on_rsp_for by (rule c_for_cong) (rule item)
    have "answers dr (attempt (on_rsp (cswp_check (cswp_encode_reg_list_response (ucast (registerCount i)))
        (\<lambda>_. c_for 0 (length rs) (\<lambda>k. ?enc (rs ! k))))) eh ret) [] (accept (Reg_list_reply rs))"
    proof (rule answers_respond)
      assume ok: "reply_ok (Reg_list_reply rs)"
      have "emits (c_for 0 (length rs) (\<lambda>k. ?enc (rs ! k))) (concat (map reg_bytes rs))"
        using ok by (intro emits_for_list emits_reg_info) simp
      from emits_check [OF emits_reg_list_header this]
      show "emits (cswp_check (cswp_encode_reg_list_response (ucast (registerCount i)))
          (\<lambda>_. c_for 0 (length rs) (\<lambda>k. ?enc (rs ! k)))) (reply_bytes (Reg_list_reply rs))"
        by (simp only: n reply_bytes.simps list_bytes_def append_assoc)
    qed
    then show "answers dr (attempt
         (cswp_check (on_rsp (cswp_encode_reg_list_response (ucast (registerCount i)))) (\<lambda>_.
          c_for 0 (unat (registerCount i)) (reg_list_item i))) eh ret) [] (accept (Reg_list_reply rs))"
      by (simp only: len loop on_rsp_check)
  qed
  show ?thesis
    unfolding cswp_reg_list_srv_def perform.simps body_bytes.simps register_list_def
    using assms
    by (intro answers_decode_all [OF reads_scalars(4)] answers_device answers_error answers_ignore list) simp_all
qed

subsection \<open>Every command\<close>

text \<open>The commands that have read all their bytes before they can be refused by the implementation.
  The others stop at the item that failed and leave the rest of their bytes unread.\<close>

fun drains :: "command \<Rightarrow> bool" where
  "drains (Set_devices ds) = False"
| "drains (Reg_read d rs) = False"
| "drains (Reg_write d rvs) = False"
| "drains _ = True"

lemma answers_dispatch:
  assumes "quiet impl" and "alloc_ok os" and "command_ok c"
  shows "answers (drains c) (cswp_dispatch_command os impl (cmd_val (command_type c))) (body_bytes c)
    (perform os impl c)"
  using assms
  by (cases c)
    (simp_all only: cswp_dispatch_command_def command_type.simps cmd_val_inject drains.simps
      cswp_commands_t.distinct if_True if_False simp_thms
      answers_init answers_term answers_client_info answers_set_devices answers_get_devices
      answers_description answers_device_open answers_device_close answers_set_config answers_get_config
      answers_capabilities answers_reg_list answers_reg_read answers_reg_write answers_mem_read
      answers_mem_write answers_mem_poll)

lemma answers_command:
  assumes "quiet impl" and "alloc_ok os" and "command_ok c"
  shows "answers (drains c) (cswp_handle_command os impl False) (command_bytes c) (perform os impl c)"
proof -
  have "reads cswp_decode_command_header (varint_enc (cmd_val (command_type c))) (cmd_val (command_type c))"
    by (simp add: message_defs reads_get_varint)
  then show ?thesis
    unfolding cswp_handle_command_def command_bytes_def if_False
    by (rule answers_decode) (rule answers_dispatch [OF assms])
qed

end
