(* ===== verification/Target_Refines.thy ===== *)
theory Target_Refines
  imports Target_Server Server_Refines
begin

text \<open>
  What the server program does with a request of several commands. \<open>perform_batch\<close> is the
  abstract server's run over a list of commands, in the two modes of the protocol; the loop of
  \<open>process_commands\<close> implements it, and the response has the bytes \<open>response_bytes\<close>.
\<close>

definition code :: "c_int option \<Rightarrow> c_int" where
  "code res = (case res of None \<Rightarrow> 0 | Some e \<Rightarrow> e)"

definition cancelled :: reply where
  "cancelled = Error_reply 0 (res_val CSWP_CANCELLED) (bytes_of ''Cancelled'')"

text \<open>After an error in abort mode the command that failed gets its own error reply, and then it
  and every command after it gets a reply that it is cancelled. In continue mode a refused
  command that is not the last must have been read to its end; otherwise the rest of it is taken for commands, and
  nothing is promised (\<open>Fail\<close>).\<close>

primrec perform_batch :: "libc \<Rightarrow> 'p cswp_server_impl_t option \<Rightarrow> bool \<Rightarrow> command list
    \<Rightarrow> ('p, reply list) srv_prog" where
  "perform_batch os impl abort [] = ret []"
| "perform_batch os impl abort (c # cs) =
     cswp_check (perform os impl c) (\<lambda>(res, r).
     if abort \<and> code res \<noteq> 0 then ret (r # replicate (Suc (length cs)) cancelled)
     else if res \<noteq> None \<and> \<not> drains c \<and> cs \<noteq> [] then fail (code res)
     else cswp_check (perform_batch os impl abort cs) (\<lambda>rs. ret (r # rs)))"

subsection \<open>Tracing has no effect\<close>

lemma nth_c_ok: "i < length xs \<Longrightarrow> nth_c xs i s = Done (xs ! i) s"
  by (simp add: nth_c_def)

lemma c_for_skip: "(\<And>i. a \<le> i \<Longrightarrow> i < n \<Longrightarrow> body i s = Done () s) \<Longrightarrow> c_for a n body s = Done () s"
proof (induction "n - a" arbitrary: a)
  case (Suc m)
  then have "a < n" and "m = n - Suc a" by simp_all
  then show ?case using Suc.prems Suc.hyps(1) by (simp add: c_for_step)
qed simp

lemma dump_lines_ok:
  "p + unat sz \<le> length buf \<Longrightarrow> \<exists>p' sz'. dump_lines buf p sz s = Done (p', sz') s \<and> p' + unat sz' \<le> length buf"
proof (induction buf p sz s rule: dump_lines.induct)
  case (1 buf p sz s)
  show ?case
  proof (cases "8 < sz")
    case True
    then have m: "unat (sz - 8) = unat sz - 8" "8 < unat sz"
      by (simp_all add: unat_sub word_le_nat_alt word_less_nat_alt)
    have line: "c_for 0 8 (\<lambda>i. cswp_check (nth_c buf (p + i)) (\<lambda>_. ret ())) s = Done () s"
      using "1.prems" m(2) by (intro c_for_skip) (simp add: nth_c_ok)
    from "1.IH" [OF True line] "1.prems" m show ?thesis
      by (subst dump_lines.simps) (simp add: True line)
  next
    case False
    then show ?thesis using "1.prems" by (subst dump_lines.simps) simp
  qed
qed

lemma dump_rest_ok: "p + unat sz \<le> length buf \<Longrightarrow> dump_rest buf p sz s = Done () s"
proof (induction buf p sz s rule: dump_rest.induct)
  case (1 buf p sz s)
  show ?case
  proof (cases "1 < sz")
    case True
    then have m: "unat (sz - 1) = unat sz - 1" "1 < unat sz"
      by (simp_all add: unat_sub word_le_nat_alt word_less_nat_alt)
    have n: "nth_c buf p s = Done (buf ! p) s" using "1.prems" m(2) by (intro nth_c_ok) simp
    from "1.IH" [OF True n] "1.prems" m show ?thesis
      by (subst dump_rest.simps) (simp add: True n)
  next
    case False
    show ?thesis
    proof (cases "0 < sz")
      case True
      then have "0 < unat sz" by (simp add: word_less_nat_alt)
      then have n: "nth_c buf p s = Done (buf ! p) s" using "1.prems" by (intro nth_c_ok) simp
      from False True n show ?thesis by (subst dump_rest.simps) simp
    next
      case False': False
      with False show ?thesis by (subst dump_rest.simps) simp
    qed
  qed
qed

lemma hex_dump_ok: "unat sz \<le> length buf \<Longrightarrow> hex_dump buf sz s = Done () s"
  using dump_lines_ok [of 0 sz buf s] by (auto simp: hex_dump_def dump_rest_ok)

subsection \<open>The commands of a request\<close>

text \<open>\<open>appended c c' bs s\<close>: the response has grown by \<open>bs\<close>, the server state is \<open>s\<close>.\<close>

definition appended :: "'p ctx \<Rightarrow> 'p ctx \<Rightarrow> byte list \<Rightarrow> 'p cswp_server_state_t \<Rightarrow> bool" where
  "appended c c' bs s \<longleftrightarrow> srv c' = s \<and> at_end (rsp c') \<and> bsize (rsp c') = bsize (rsp c)
     \<and> written (rsp c') = written (rsp c) @ bs"

definition room :: "'p ctx \<Rightarrow> nat \<Rightarrow> bool" where
  "room c n \<longleftrightarrow> at_end (rsp c) \<and> unat (bused (rsp c)) + n \<le> unat (bsize (rsp c))"

lemma appended_trans:
  "appended c c' bs s \<Longrightarrow> appended c' c'' cs t \<Longrightarrow> appended c c'' (bs @ cs) t"
  by (simp add: appended_def)

lemma bused_written: "at_end b \<Longrightarrow> unat (bused b) = length (written b)"
  by (simp add: at_end_ok length_written)

lemma appended_room:
  assumes "appended c c' bs s" and "room c (length bs + n)"
  shows "room c' n"
  using assms by (auto simp: appended_def room_def bused_written)

lemma append_loop:
  assumes "emits enc bs" and "room c (k * length bs)"
  shows "\<exists>c'. c_for i (i + k) (\<lambda>_. ignore (on_rsp enc) (ret ())) c = Done () c'
    \<and> appended c c' (concat (replicate k bs)) (srv c) \<and> cmd c' = cmd c"
  using assms(2)
proof (induction k arbitrary: i c)
  case 0
  then show ?case by (simp add: appended_def room_def)
next
  case (Suc k)
  have lt: "i < i + Suc k" by simp
  obtain b where b: "on_rsp enc c = Done () (c\<lparr>rsp := b\<rparr>)" "appended c (c\<lparr>rsp := b\<rparr>) bs (srv c)"
    using on_rsp_emits [OF assms(1), of c] Suc.prems by (auto simp: room_def appended_def)
  have "room (c\<lparr>rsp := b\<rparr>) (k * length bs)" using appended_room [OF b(2)] Suc.prems by simp
  from Suc.IH [OF this, of "Suc i"] obtain c' where c': "c_for (Suc i) (Suc i + k) (\<lambda>_. ignore (on_rsp enc) (ret ())) (c\<lparr>rsp := b\<rparr>) = Done () c'"
    "appended (c\<lparr>rsp := b\<rparr>) c' (concat (replicate k bs)) (srv c)" "cmd c' = cmd c" by (auto simp del: ret_apply)
  show ?case
    unfolding c_for_step [OF lt]
    using c' appended_trans [OF b(2) c'(2)] by (simp add: ignore_def b(1) cswp_check_def)
qed

lemma cancelled_emits:
  "emits (cswp_encode_error_response 0 (ucast (res_val CSWP_CANCELLED)) (Some (bytes_of ''Cancelled'')))
     (reply_bytes cancelled)"
proof -
  have "(ucast (res_val CSWP_CANCELLED) :: 64 word) = scast (res_val CSWP_CANCELLED)" by (simp add: res_val.simps)
  moreover have "reply_ok cancelled" by (simp add: cancelled_def text_ok_def bytes_of_def)
  ultimately show ?thesis using emits_error_reply [of 0 "res_val CSWP_CANCELLED"] by (simp add: cancelled_def)
qed

text \<open>One command: what the refinement gives for the loop.\<close>

lemma command_step:
  assumes "quiet impl" and "alloc_ok os" and "command_ok x"
    and "buf_ok (cmd c)" and "unread (cmd c) = command_bytes x @ zs"
    and "perform os impl x (srv c) = Done (res, r) s" and "reply_ok r" and "room c (length (reply_bytes r))"
  obtains c' where "cswp_handle_command os impl False c = (case res of None \<Rightarrow> Done () c' | Some e \<Rightarrow> Fail e c')"
    "appended c c' (reply_bytes r) s" "buf_ok (cmd c')" "bsize (cmd c') = bsize (cmd c)" "res = None \<or> drains x \<Longrightarrow> unread (cmd c') = zs"
  using answersD [OF answers_command [OF assms(1-3)] assms(4,5) _ assms(6,7)] assms(8)
  by (auto simp: answered_def appended_def room_def)

lemma command_bytes_not_Nil [simp]: "command_bytes c \<noteq> []"
  by (simp add: command_bytes_def)

lemma more_unread: "buf_ok b \<Longrightarrow> unread b \<noteq> [] \<Longrightarrow> bpos b < bused b"
  using length_unread [of b] by (cases "unread b") (auto simp: word_less_nat_alt)

lemma run_cancel:
  assumes "quiet impl" and "alloc_ok os" and "\<And>x. x \<in> set cs \<Longrightarrow> command_ok x"
    and "buf_ok (cmd c)" and "unread (cmd c) = concat (map command_bytes cs) @ zs"
    and "perform_batch os impl (a \<noteq> 0) cs (srv c) = Done rs s" and "\<And>r. r \<in> set rs \<Longrightarrow> reply_ok r"
    and "room c (length (concat (map reply_bytes rs)))"
    and "i + length cs < 2 ^ 32" and "length cs < fuel" and "a = 0 \<or> res = 0"
  shows "\<exists>c'. cswp_check (run_commands fuel os impl (of_nat (i + length cs)) (Some a) (of_nat i) res)
      (cancel_commands (of_nat (i + length cs)) (Some a)) c = Done () c'
    \<and> appended c c' (concat (map reply_bytes rs)) s \<and> buf_ok (cmd c') \<and> bsize (cmd c') = bsize (cmd c)"
  using assms(3-)
proof (induction cs arbitrary: c rs i fuel res zs)
  case Nil
  from Nil.prems(8) obtain f where f: "fuel = Suc f" by (cases fuel) auto
  have n: "\<not> (ucast (of_nat i :: c_uint) :: 64 word) < of_nat i"
    using Nil.prems(7) by (simp add: word_less_nat_alt unat_of_nat_small unat_of_nat take_bit_nat_eq_self)
  have "cancel_commands (of_nat i) (Some a) (of_nat i, res) c = Done () c"
    using Nil.prems(9) by (auto simp: cancel_commands_def)
  then show ?case
    using Nil.prems n by (auto simp: f cswp_check_def gets_def appended_def room_def)
next
  case (Cons x cs)
  from Cons.prems(8) obtain f where f: "fuel = Suc f" "length cs < f" by (cases fuel) auto
  let ?N = "of_nat (i + length (x # cs)) :: 64 word"
  let ?next = "run_commands f os impl ?N (Some a) (of_nat i + 1)"
  let ?cancel = "cancel_commands ?N (Some a)"
  have N: "unat ?N = i + Suc (length cs)"
    using unat_of_nat_small [of "i + length (x # cs)"] Cons.prems(7) by (simp del: of_nat_add of_nat_Suc)
  have i: "unat (of_nat i :: c_uint) = i" using Cons.prems(7) by (simp add: unat_of_nat take_bit_nat_eq_self)
  have lt: "(ucast (of_nat i :: c_uint) :: 64 word) < ?N"
    unfolding word_less_nat_alt unat_ucast_32_64 N i by simp
  from Cons.prems(4) obtain res' r s1 where p: "perform os impl x (srv c) = Done (res', r) s1"
    and rest: "(if a \<noteq> 0 \<and> code res' \<noteq> 0 then ret (r # replicate (Suc (length cs)) cancelled)
      else if res' \<noteq> None \<and> \<not> drains x \<and> cs \<noteq> [] then fail (code res')
      else cswp_check (perform_batch os impl (a \<noteq> 0) cs) (\<lambda>rs. ret (r # rs))) s1 = Done rs s"
    by (auto simp: cswp_check_eq_Done)
  then obtain rs' where rs: "rs = r # rs'"
    by (auto simp: cswp_check_eq_Done split: if_splits)
  have u: "unread (cmd c) = command_bytes x @ (concat (map command_bytes cs) @ zs)" using Cons.prems(3) by simp
  have rm: "room c (length (reply_bytes r))" using Cons.prems(6) rs by (auto simp: room_def)
  obtain c' where c': "cswp_handle_command os impl False c = (case res' of None \<Rightarrow> Done () c' | Some e \<Rightarrow> Fail e c')"
    "appended c c' (reply_bytes r) s1" "buf_ok (cmd c')" "bsize (cmd c') = bsize (cmd c)"
    "res' = None \<or> drains x \<Longrightarrow> unread (cmd c') = concat (map command_bytes cs) @ zs"
    using command_step [OF assms(1,2) _ Cons.prems(2) u p _ rm] Cons.prems(1,5) rs by auto
  have pos: "bpos (cmd c) < bused (cmd c)" using more_unread [OF Cons.prems(2)] u by simp
  have run: "run_commands fuel os impl ?N (Some a) (of_nat i) res c
    = (if code res' \<noteq> 0 \<and> a \<noteq> 0 then Done (of_nat i, code res') c' else ?next (code res') c')"
    using lt pos c'(1) by (cases res') (auto simp: f Let_def code_def cswp_check_def gets_def attempt_def)
  have rm': "room c' (length (concat (map reply_bytes rs')))"
    using appended_room [OF c'(2)] Cons.prems(6) rs by simp
  show ?case
  proof (cases "code res' \<noteq> 0 \<and> a \<noteq> 0")
    case True
    then have rs': "rs' = replicate (Suc (length cs)) cancelled" "s = s1" using rest rs by auto
    have conc: "concat (map reply_bytes rs') = concat (replicate (Suc (length cs)) (reply_bytes cancelled))"
      unfolding rs' by (simp add: map_replicate_const)
    have rm'': "room c' (Suc (length cs) * length (reply_bytes cancelled))"
      using rm' unfolding conc by (simp add: length_concat sum_list_replicate algebra_simps)
    have small: "?N < 0x100000000" using Cons.prems(7) unfolding word_less_nat_alt N by simp
    obtain c'' where c'': "c_for i (i + Suc (length cs)) (\<lambda>_. ignore (on_rsp (cswp_encode_error_response 0
        (ucast (res_val CSWP_CANCELLED)) (Some (bytes_of ''Cancelled'')))) (ret ())) c' = Done () c''"
      "appended c' c'' (concat (map reply_bytes rs')) s1" "buf_ok (cmd c'')" "bsize (cmd c'') = bsize (cmd c)"
      using append_loop [OF cancelled_emits rm'', of i] c'(2,3,4) conc by (auto simp: appended_def)
    have cancel: "?cancel (of_nat i, code res') c' = Done () c''"
      unfolding cancel_commands_def cancel_rest_def prod.case option.case N i
      using True small c''(1) by simp
    have "cswp_check (run_commands fuel os impl ?N (Some a) (of_nat i) res) ?cancel c = Done () c''"
      unfolding cswp_check_def run using cancel True by simp
    moreover have "appended c c'' (concat (map reply_bytes rs)) s"
      using appended_trans [OF c'(2) c''(2)] rs rs'(2) by simp
    ultimately show ?thesis using c''(3,4) by blast
  next
    case False
    then have d: "res' = None \<or> drains x \<or> cs = []" "perform_batch os impl (a \<noteq> 0) cs s1 = Done rs' s"
      using rest rs by (auto simp: cswp_check_eq_Done split: if_splits)
    obtain zs' where zs': "unread (cmd c') = concat (map command_bytes cs) @ zs'"
      using d(1) c'(5) by (cases "cs = []") auto
    have s1: "srv c' = s1" using c'(2) by (simp add: appended_def)
    have "\<exists>c''. cswp_check (run_commands f os impl (of_nat (Suc i + length cs)) (Some a) (of_nat (Suc i)) (code res'))
        (cancel_commands (of_nat (Suc i + length cs)) (Some a)) c' = Done () c''
      \<and> appended c' c'' (concat (map reply_bytes rs')) s \<and> buf_ok (cmd c'') \<and> bsize (cmd c'') = bsize (cmd c')"
      using Cons.prems f rs False
      by (intro Cons.IH [OF _ c'(3) zs' d(2) [folded s1] _ rm' _ f(2)]) auto
    then obtain c'' where c'': "cswp_check (?next (code res')) ?cancel c' = Done () c''"
      "appended c' c'' (concat (map reply_bytes rs')) s" "buf_ok (cmd c'')" "bsize (cmd c'') = bsize (cmd c)"
      using c'(4) by (auto simp: add.commute)
    have "cswp_check (run_commands fuel os impl ?N (Some a) (of_nat i) res) ?cancel c
        = cswp_check (?next (code res')) ?cancel c'"
      unfolding cswp_check_def run using False by auto
    then have "cswp_check (run_commands fuel os impl ?N (Some a) (of_nat i) res) ?cancel c = Done () c''"
      using c''(1) by simp
    moreover have "appended c c'' (concat (map reply_bytes rs)) s"
      using appended_trans [OF c'(2) c''(2)] rs by simp
    ultimately show ?thesis using c''(3,4) by blast
  qed
qed

subsection \<open>A whole request\<close>

lemma len_bytes_le: "len_bytes n = le_bytes 4 (ucast n :: c_uint)"
proof -
  have "ucast (drop_bit s n AND 0xFF) = (ucast (drop_bit s (ucast n :: c_uint)) :: byte)" if "s \<le> 24" for s
    using that by (intro bit_word_eqI) (auto simp: bit_simps)
  from this [of 0] this [of 8] this [of 16] this [of 24] show ?thesis
    by (simp add: len_bytes_def le_bytes_32)
qed

lemma poke_front:
  assumes "buf_ok b" and "length bs \<le> unat (bused b)"
  shows "\<exists>b'. poke 0 bs b = Done () b' \<and> bused b' = bused b \<and> buf_ok b'
    \<and> written b' = bs @ drop (length bs) (written b)"
proof -
  let ?d = "bs @ drop (length bs) (bdata b)"
  note ok = buf_okD [OF assms(1)]
  have len: "length bs \<le> length (bdata b)" using ok assms(2) by linarith
  have "take (unat (bused b)) ?d = bs @ drop (length bs) (written b)"
    using assms(2) by (simp add: written_def drop_take)
  moreover have "buf_ok (b\<lparr>bdata := ?d\<rparr>)" using assms(1) len by (simp add: buf_ok_def)
  ultimately show ?thesis using len by (simp add: poke_def written_def)
qed

lemma request_header:
  assumes "buf_ok (cmd c)" and "written (cmd c) = request_bytes a cs" and "length cs < 2 ^ 31"
  defines "n \<equiv> of_nat (length cs) :: 64 word"
  obtains b v where "on_cmd (modify (cswp_buffer_seek 0)) c = Done () (c\<lparr>cmd := b 0\<rparr>)"
    "on_cmd cswp_buffer_get_uint32 (c\<lparr>cmd := b 0\<rparr>) = Done v (c\<lparr>cmd := b 1\<rparr>)"
    "on_cmd cswp_buffer_get_varint (c\<lparr>cmd := b 1\<rparr>) = Done n (c\<lparr>cmd := b 2\<rparr>)"
    "on_cmd cswp_buffer_get_uint8 (c\<lparr>cmd := b 2\<rparr>) = Done a (c\<lparr>cmd := b (3 :: nat)\<rparr>)"
    "buf_ok (b 3)" "unread (b 3) = concat (map command_bytes cs)" "bused (b 3) = bused (cmd c)"
    "bsize (b 3) = bsize (cmd c)"
proof -
  define v :: c_uint where "v = of_nat (4 + length (varint_enc n @ [a] @ concat (map command_bytes cs)))"
  let ?rest = "varint_enc n @ [a] @ concat (map command_bytes cs)"
  define b0 where "b0 = cswp_buffer_seek 0 (cmd c)"
  have b0: "buf_ok b0" "unread b0 = le_bytes 4 v @ ?rest"
    using assms(1,2) by (simp_all add: b0_def cswp_buffer_seek_def buf_ok_def unread_def written_def
        request_bytes_def Let_def n_def v_def)
  have n_ok: "varint_ok n" unfolding n_def by (rule varint_ok_of_nat [OF assms(3)])
  note adv_simps = adv_ok unread_adv
  have r1: "cswp_buffer_get_uint32 b0 = Done v (adv 4 b0)"
    using reads_Done [OF reads_get_uint32 b0] by simp
  have b1: "buf_ok (adv 4 b0)" "unread (adv 4 b0) = ?rest" using b0 by (simp_all add: adv_simps)
  have r2: "cswp_buffer_get_varint (adv 4 b0) = Done n (adv (length (varint_enc n)) (adv 4 b0))"
    by (rule reads_Done [OF reads_get_varint [OF n_ok] b1])
  let ?b2 = "adv (length (varint_enc n)) (adv 4 b0)"
  have b2: "buf_ok ?b2" "unread ?b2 = [a] @ concat (map command_bytes cs)"
    using b1 adv_ok [OF b1(1), of "length (varint_enc n)"] unread_adv [OF b1(1), of "length (varint_enc n)"]
    by (simp_all del: adv_adv)
  have r3: "cswp_buffer_get_uint8 ?b2 = Done a (adv 1 ?b2)"
    using reads_Done [OF reads_get_uint8 b2] by simp
  have b3: "buf_ok (adv 1 ?b2)" "unread (adv 1 ?b2) = concat (map command_bytes cs)"
    using b2 adv_ok [OF b2(1), of 1] unread_adv [OF b2(1), of 1] by (simp_all del: adv_adv)
  let ?b = "\<lambda>k :: nat. if k = 0 then b0 else if k = 1 then adv 4 b0 else if k = 2 then ?b2 else adv 1 ?b2"
  show thesis
  proof (rule that [of ?b v])
    show "on_cmd (modify (cswp_buffer_seek 0)) c = Done () (c\<lparr>cmd := ?b 0\<rparr>)"
      by (simp add: on_cmd_def zoom_def b0_def)
    show "on_cmd cswp_buffer_get_uint32 (c\<lparr>cmd := ?b 0\<rparr>) = Done v (c\<lparr>cmd := ?b 1\<rparr>)"
      by (simp add: on_cmd_def zoom_def r1)
    show "on_cmd cswp_buffer_get_varint (c\<lparr>cmd := ?b 1\<rparr>) = Done n (c\<lparr>cmd := ?b 2\<rparr>)"
      using r2 by (simp add: on_cmd_def zoom_def del: adv_adv)
    show "on_cmd cswp_buffer_get_uint8 (c\<lparr>cmd := ?b 2\<rparr>) = Done a (c\<lparr>cmd := ?b 3\<rparr>)"
      using r3 by (simp add: on_cmd_def zoom_def del: adv_adv)
    show "bused (?b 3) = bused (cmd c)" "bsize (?b 3) = bsize (cmd c)"
      by (simp_all add: b0_def cswp_buffer_seek_def)
  qed (use b3 in \<open>simp_all del: adv_adv\<close>)
qed

lemma response_header:
  fixes c :: "'p ctx"
  assumes "buf_ok (rsp c)" and "4 + length (varint_enc n) \<le> unat (bsize (rsp c))"
  obtains b where "\<And>k :: ('p, 'x) handler.
      ignore (on_rsp (cswp_buffer_put_uint32 0)) (ignore (on_rsp (cswp_buffer_put_varint n)) k)
      (c\<lparr>rsp := cswp_buffer_clear (rsp c)\<rparr>) = k (c\<lparr>rsp := b\<rparr>)"
    "at_end b" "bsize b = bsize (rsp c)" "written b = le_bytes 4 (0 :: c_uint) @ varint_enc n"
proof -
  let ?c = "c\<lparr>rsp := cswp_buffer_clear (rsp c)\<rparr>"
  have e: "at_end (rsp ?c)" "bused (rsp ?c) = 0" "written (rsp ?c) = []" "bsize (rsp ?c) = bsize (rsp c)"
    using cswp_buffer_clear_at_end [OF assms(1)] by (simp_all add: cswp_buffer_clear_def written_def)
  obtain b1 where b1: "on_rsp (cswp_buffer_put_uint32 0) ?c = Done () (?c\<lparr>rsp := b1\<rparr>)" "at_end b1"
    "bsize b1 = bsize (rsp c)" "written b1 = le_bytes 4 (0 :: c_uint)"
    using on_rsp_emits [OF emits_put_uint32 e(1)] e assms(2) by auto
  have "unat (bused b1) = 4" using bused_written [OF b1(2)] b1(4) by simp
  then obtain b2 where b2: "on_rsp (cswp_buffer_put_varint n) (c\<lparr>rsp := b1\<rparr>) = Done () (c\<lparr>rsp := b2\<rparr>)" "at_end b2"
    "bsize b2 = bsize (rsp c)" "written b2 = le_bytes 4 (0 :: c_uint) @ varint_enc n"
    using on_rsp_emits [OF emits_put_varint, of "c\<lparr>rsp := b1\<rparr>" n] b1 assms(2) by auto
  show thesis using that b1 b2 by (simp add: ignore_def)
qed

lemma dump_ok:
  assumes "buf_ok b" shows "hex_dump (bdata b) (bused b) s = Done () s"
  using buf_okD [OF assms] by (intro hex_dump_ok) linarith

lemma length_request: "length cs \<le> length (concat (map command_bytes cs))"
proof (induction cs)
  case (Cons c cs)
  have "0 < length (command_bytes c)" by simp
  then have "1 \<le> length (command_bytes c)" by linarith
  with Cons show ?case by simp
qed simp

lemma length_written_le: "buf_ok b \<Longrightarrow> length (written b) \<le> unat (bused b)"
  by (simp add: length_written)

lemma finish_response:
  assumes "at_end b" and "written b = le_bytes 4 (0 :: c_uint) @ varint_enc (of_nat n) @ concat (map reply_bytes rs)"
  shows "\<exists>b'. poke 0 (len_bytes (bused b)) b = Done () b' \<and> buf_ok b' \<and> bsize b' = bsize b
    \<and> written b' = response_bytes n rs"
proof -
  let ?body = "varint_enc (of_nat n) @ concat (map reply_bytes rs)"
  have u: "unat (bused b) = 4 + length ?body" using bused_written [OF assms(1)] assms(2) by simp
  have "length (len_bytes (bused b)) = 4" by (simp add: len_bytes_def)
  then obtain b' where b': "poke 0 (len_bytes (bused b)) b = Done () b'" "buf_ok b'"
      "written b' = len_bytes (bused b) @ drop 4 (written b)"
    using poke_front [OF at_end_ok [OF assms(1)], of "len_bytes (bused b)"] u by auto
  have "bsize b' = bsize b" using b'(1) by (auto simp: poke_def split: if_splits)
  have "bused b = of_nat (4 + length ?body)" unfolding u [symmetric] by simp
  then have "(ucast (bused b) :: c_uint) = of_nat (4 + length ?body)"
    by (simp only: ucast_of_nat_32)
  then have "written b' = response_bytes n rs"
    using b'(3) assms(2) by (simp add: response_bytes_def Let_def len_bytes_le)
  with b' \<open>bsize b' = bsize b\<close> show ?thesis by blast
qed

lemma on_rsp_modify: "on_rsp (modify f) c = Done () (c\<lparr>rsp := f (rsp c)\<rparr>)"
  by (simp add: on_rsp_def zoom_def)

lemma process_request_batch:
  assumes "quiet impl" and "alloc_ok os" and "\<And>x. x \<in> set cs \<Longrightarrow> command_ok x" and "length cs < 2 ^ 31"
    and "buf_ok (cmd c)" and "written (cmd c) = request_bytes a cs"
    and "buf_ok (rsp c)" and "length (response_bytes (length cs) rs) \<le> unat (bsize (rsp c))"
    and "perform_batch os impl (a \<noteq> 0) cs (srv c) = Done rs s" and "\<And>r. r \<in> set rs \<Longrightarrow> reply_ok r"
  shows "\<exists>c'. process_request os impl c = Done (response_bytes (length cs) rs) c' \<and> srv c' = s
    \<and> buf_ok (cmd c') \<and> bsize (cmd c') = bsize (cmd c)
    \<and> buf_ok (rsp c') \<and> bsize (rsp c') = bsize (rsp c)"
proof -
  let ?n = "of_nat (length cs) :: 64 word"
  obtain b v where q: "on_cmd (modify (cswp_buffer_seek 0)) c = Done () (c\<lparr>cmd := b 0\<rparr>)"
    "on_cmd cswp_buffer_get_uint32 (c\<lparr>cmd := b 0\<rparr>) = Done v (c\<lparr>cmd := b 1\<rparr>)"
    "on_cmd cswp_buffer_get_varint (c\<lparr>cmd := b 1\<rparr>) = Done ?n (c\<lparr>cmd := b 2\<rparr>)"
    "on_cmd cswp_buffer_get_uint8 (c\<lparr>cmd := b 2\<rparr>) = Done a (c\<lparr>cmd := b (3 :: nat)\<rparr>)"
    "buf_ok (b 3)" "unread (b 3) = concat (map command_bytes cs)" "bused (b 3) = bused (cmd c)"
    "bsize (b 3) = bsize (cmd c)"
    using request_header [OF assms(5,6,4)] .
  let ?c3 = "c\<lparr>cmd := b 3\<rparr>"
  have size: "4 + length (varint_enc ?n) + length (concat (map reply_bytes rs)) \<le> unat (bsize (rsp c))"
    using assms(8) by (simp add: response_bytes_def Let_def)
  obtain w where w: "\<And>k :: ('a, byte list) handler.
      ignore (on_rsp (cswp_buffer_put_uint32 0)) (ignore (on_rsp (cswp_buffer_put_varint ?n)) k)
      (?c3\<lparr>rsp := cswp_buffer_clear (rsp ?c3)\<rparr>) = k (?c3\<lparr>rsp := w\<rparr>)"
    "at_end w" "bsize w = bsize (rsp c)" "written w = le_bytes 4 (0 :: c_uint) @ varint_enc ?n"
    using response_header [of ?c3 ?n] assms(7) size by auto
  let ?c4 = "?c3\<lparr>rsp := w\<rparr>"
  have room: "room ?c4 (length (concat (map reply_bytes rs)))"
    using w(2,3,4) bused_written [OF w(2)] size by (simp add: room_def)
  have fuel: "length cs < Suc (unat (bused (cmd c)))"
    using length_request [of cs] length_written_le [OF assms(5)] assms(6)
    by (simp add: request_bytes_def Let_def)
  obtain c5 where c5: "cswp_check (run_commands (Suc (unat (bused (cmd c)))) os impl ?n (Some a) 0 0)
      (cancel_commands ?n (Some a)) ?c4 = Done () c5"
    "appended ?c4 c5 (concat (map reply_bytes rs)) s" "buf_ok (cmd c5)" "bsize (cmd c5) = bsize (b 3)"
    using run_cancel [OF assms(1-3) _ _ _ assms(10) room, where zs = "[]" and i = 0 and res = 0
        and cs = cs and s = s and a = a and fuel = "Suc (unat (bused (cmd c)))"]
      q(5,6) assms(4,9) fuel by (auto simp del: run_commands.simps)
  have r5: "at_end (rsp c5)" "srv c5 = s" "bsize (rsp c5) = bsize (rsp c)"
    "written (rsp c5) = le_bytes 4 (0 :: c_uint) @ varint_enc ?n @ concat (map reply_bytes rs)"
    using c5(2) w(3,4) by (simp_all add: appended_def)
  obtain r where r: "poke 0 (len_bytes (bused (rsp c5))) (rsp c5) = Done () r" "buf_ok r" "bsize r = bsize (rsp c5)"
    "written r = response_bytes (length cs) rs"
    using finish_response [OF r5(1,4)] by auto
  have bound: "unat (bused r) \<le> length (bdata r)" using buf_okD [OF r(2)] by linarith
  define K :: "('a, byte list) handler" where "K =
     cswp_check (gets (\<lambda>c. bused (rsp c))) (\<lambda>used.
     cswp_check (on_rsp (poke 0 (len_bytes used))) (\<lambda>_.
     cswp_check (gets rsp) (\<lambda>r.
     cswp_check (hex_dump (bdata r) (bused r)) (\<lambda>_.
     if unat (bused r) \<le> length (bdata r) then ret (take (unat (bused r)) (bdata r))
     else undef OutOfBounds))))"
  have K: "K c5 = Done (response_bytes (length cs) rs) (c5\<lparr>rsp := r\<rparr>)"
    using r bound by (simp add: K_def on_rsp_def zoom_def dump_ok written_def del: ret_apply) (simp add: written_def)
  have loop: "cswp_check (run_commands (Suc (unat (bused (cmd c)))) os impl ?n (Some a) 0 0) (\<lambda>end_of_loop.
      cswp_check (cancel_commands ?n (Some a) end_of_loop) (\<lambda>_. K)) ?c4 = K c5"
    using c5(1) by (simp add: cswp_check_assoc [symmetric] del: run_commands.simps)
  have "process_request os impl c = K c5"
    unfolding process_request_def K_def [symmetric]
    using w(1) loop
    by (simp add: dump_ok [OF assms(5)] q on_rsp_modify del: run_commands.simps One_nat_def)
  with K c5(3,4) q(8) r r5(2,3) show ?thesis by simp
qed

subsection \<open>A session of several requests\<close>

primrec perform_session :: "libc \<Rightarrow> 'p cswp_server_impl_t option \<Rightarrow> (byte \<times> command list) list
    \<Rightarrow> ('p, reply list list) srv_prog" where
  "perform_session os impl [] = ret []"
| "perform_session os impl (q # qs) =
     cswp_check (perform_batch os impl (fst q \<noteq> 0) (snd q)) (\<lambda>rs.
     cswp_check (perform_session os impl qs) (\<lambda>rss. ret (rs # rss)))"

definition request_ok :: "size_t \<Rightarrow> byte \<times> command list \<Rightarrow> bool" where
  "request_ok sz q \<longleftrightarrow> length (snd q) < 2 ^ 31 \<and> length (request_bytes (fst q) (snd q)) \<le> unat sz
     \<and> (\<forall>x \<in> set (snd q). command_ok x)"

definition replies_ok :: "size_t \<Rightarrow> byte \<times> command list \<Rightarrow> reply list \<Rightarrow> bool" where
  "replies_ok sz q rs \<longleftrightarrow> length (response_bytes (length (snd q)) rs) \<le> unat sz \<and> (\<forall>r \<in> set rs. reply_ok r)"

definition requests_then_close :: "(byte \<times> command list) list \<Rightarrow> (read_result \<times> bool) list" where
  "requests_then_close qs = map (\<lambda>q. (Read_bytes (request_bytes (fst q) (snd q)), True)) qs @ [(Read_closed, True)]"

lemma received_eq:
  assumes "buf_ok b" and "length bs \<le> unat (bsize b)"
  shows "\<exists>b'. received bs (cswp_buffer_clear b) = Done () b' \<and> buf_ok b' \<and> written b' = bs \<and> bsize b' = bsize b"
proof -
  have len: "length bs \<le> length (bdata b)" using assms by (simp add: buf_ok_def)
  have "length bs < 2 ^ 64" using assms(2) unsigned_less [of "bsize b", where ?'a = nat] by simp
  then have u: "unat (of_nat (length bs) :: 64 word) = length bs" by (rule unat_of_nat_small)
  show ?thesis
    using assms len u
    by (simp add: received_def cswp_buffer_clear_def buf_ok_def written_def word_le_nat_alt)
qed

lemma command_loop_session:
  assumes "quiet impl" and "alloc_ok os" and "\<And>q. q \<in> set qs \<Longrightarrow> request_ok (bsize (cmd c)) q"
    and "buf_ok (cmd c)" and "buf_ok (rsp c)"
    and "perform_session os impl qs (srv c) = Done rss s"
    and "list_all2 (replies_ok (bsize (rsp c))) qs rss"
  shows "\<exists>c'. command_loop os impl (requests_then_close qs) c
      = Done (map2 (\<lambda>q rs. response_bytes (length (snd q)) rs) qs rss, True) c' \<and> srv c' = s"
  using assms(3-)
proof (induction qs arbitrary: c rss)
  case Nil
  then show ?case by (simp add: requests_then_close_def on_cmd_def zoom_def cswp_check_def)
next
  case (Cons q qs)
  obtain rs rss' s1 where rss: "rss = rs # rss'"
    and p: "perform_batch os impl (fst q \<noteq> 0) (snd q) (srv c) = Done rs s1"
    "perform_session os impl qs s1 = Done rss' s"
    using Cons.prems(4) by (auto simp: cswp_check_eq_Done)
  have ok: "request_ok (bsize (cmd c)) q" "replies_ok (bsize (rsp c)) q rs"
    using Cons.prems(1,5) rss by auto
  obtain b where b: "received (request_bytes (fst q) (snd q)) (cswp_buffer_clear (cmd c)) = Done () b"
    "buf_ok b" "written b = request_bytes (fst q) (snd q)" "bsize b = bsize (cmd c)"
    using received_eq [OF Cons.prems(2)] ok(1) by (auto simp: request_ok_def)
  obtain c' where c': "process_request os impl (c\<lparr>cmd := b\<rparr>) = Done (response_bytes (length (snd q)) rs) c'"
    "srv c' = s1" "buf_ok (cmd c')" "buf_ok (rsp c')" "bsize (rsp c') = bsize (rsp c)" "bsize (cmd c') = bsize (cmd c)"
    using process_request_batch [OF assms(1,2), of "snd q" "c\<lparr>cmd := b\<rparr>" "fst q" rs s1] ok b p Cons.prems(3)
    by (auto simp: request_ok_def replies_ok_def)
  have "\<exists>c''. command_loop os impl (requests_then_close qs) c'
      = Done (map2 (\<lambda>q rs. response_bytes (length (snd q)) rs) qs rss', True) c'' \<and> srv c'' = s"
    using Cons.prems rss p(2) c' by (intro Cons.IH) auto
  then show ?case
    using b c'(1) rss
    by (auto simp: requests_then_close_def on_cmd_def zoom_def cswp_check_def)
qed

end
