(* ===== verification/End_To_End.thy ===== *)
theory End_To_End
  imports Client_Transact Target_Refines
begin

text \<open>
  The client and the server together. \<open>loopback\<close> is a transport that hands the client's message to
  the server program and its response back, so that a call of the client library runs through
  both codecs, the command interpreter and the server operations. The theorems relate a call to
  the abstract server (\<open>perform\<close>, \<open>perform_batch\<close>) and the abstract client (\<open>deliver\<close>,
  \<open>deliver_all\<close>); buffers and bytes do not occur in them except as size bounds.
\<close>

text \<open>One round of the server's loop.\<close>

definition server_round :: "libc \<Rightarrow> 'p cswp_server_impl_t option \<Rightarrow> byte list \<Rightarrow> ('p, byte list) handler" where
  "server_round os impl msg =
     cswp_check (on_cmd (modify cswp_buffer_clear)) (\<lambda>_.
     cswp_check (on_cmd (received msg)) (\<lambda>_.
     process_request os impl))"

text \<open>The private data are the server and the message that is on its way.\<close>

type_synonym 'p link = "'p ctx \<times> byte list"

definition loopback :: "libc \<Rightarrow> 'p cswp_server_impl_t option \<Rightarrow> 'p link cswp_client_transport_t" where
  "loopback os impl = \<lparr>t_connect = None, t_disconnect = None,
     t_send = (\<lambda>msg. modify (\<lambda>c. c\<lparr>transport_priv := (fst (transport_priv c), msg)\<rparr>)),
     t_receive = (\<lambda>sz c. case server_round os impl (snd (transport_priv c)) (fst (transport_priv c)) of
         Done out d \<Rightarrow> if length out \<le> unat sz then Done out (c\<lparr>transport_priv := (d, [])\<rparr>)
                       else Fail (res_val CSWP_COMMS) (c\<lparr>transport_priv := (d, [])\<rparr>)
       | Fail e d \<Rightarrow> Fail (res_val CSWP_COMMS) (c\<lparr>transport_priv := (d, [])\<rparr>)
       | Undef u \<Rightarrow> Undef u)\<rparr>"

definition server_ready :: "'p ctx \<Rightarrow> bool" where
  "server_ready d \<longleftrightarrow> buf_ok (cmd d) \<and> bsize (cmd d) = TARGET_BUFFER_SIZE
     \<and> buf_ok (rsp d) \<and> bsize (rsp d) = TARGET_BUFFER_SIZE"

text \<open>The sizes of a message and of its answer.\<close>

definition exchange_fits :: "command list \<Rightarrow> reply list \<Rightarrow> bool" where
  "exchange_fits cs rs \<longleftrightarrow> length cs < 2 ^ 31 \<and> length (concat (map command_bytes cs)) + 15 \<le> unat BUFFER_SIZE
     \<and> length (response_bytes (length cs) rs) \<le> unat BUFFER_SIZE"

lemma request_fits:
  assumes "exchange_fits cs rs" shows "length (request_bytes a cs) \<le> unat TARGET_BUFFER_SIZE"
  using assms length_varint_enc_le_10 [of "of_nat (length cs)"]
  by (simp add: exchange_fits_def request_bytes_def Let_def TARGET_BUFFER_SIZE_def BUFFER_SIZE_def)

lemma server_round_batch:
  assumes "quiet impl" and "alloc_ok os" and "\<And>x. x \<in> set cs \<Longrightarrow> command_ok x"
    and "server_ready d" and "exchange_fits cs rs"
    and "perform_batch os impl (a \<noteq> 0) cs (srv d) = Done rs s" and "\<And>r. r \<in> set rs \<Longrightarrow> reply_ok r"
  shows "\<exists>d'. server_round os impl (request_bytes a cs) d = Done (response_bytes (length cs) rs) d'
    \<and> srv d' = s \<and> server_ready d'"
proof -
  obtain b where b: "received (request_bytes a cs) (cswp_buffer_clear (cmd d)) = Done () b"
    "buf_ok b" "written b = request_bytes a cs" "bsize b = bsize (cmd d)"
    using received_eq [of "cmd d" "request_bytes a cs"] request_fits [OF assms(5), of a] assms(4)
    by (auto simp: server_ready_def)
  have "\<exists>c'. process_request os impl (d\<lparr>cmd := b\<rparr>) = Done (response_bytes (length cs) rs) c' \<and> srv c' = s
    \<and> buf_ok (cmd c') \<and> bsize (cmd c') = bsize (cmd (d\<lparr>cmd := b\<rparr>))
    \<and> buf_ok (rsp c') \<and> bsize (rsp c') = bsize (rsp (d\<lparr>cmd := b\<rparr>))"
    using assms(4-6) b
    by (intro process_request_batch [where a = a, OF assms(1-3) _ _ _ _ _ _ assms(7)])
      (simp_all add: exchange_fits_def server_ready_def TARGET_BUFFER_SIZE_def BUFFER_SIZE_def)
  with assms(4) b(1,4) show ?thesis
    by (auto simp: server_round_def on_cmd_def zoom_def server_ready_def)
qed

lemma loopback_exchanges:
  assumes "server_round os impl msg d = Done out d'" and "length out \<le> unat BUFFER_SIZE"
  shows "exchanges (loopback os impl) msg (d, m) out (d', [])"
  unfolding exchanges_def by (rule exI [of _ "(d, msg)"]) (simp add: loopback_def assms)

subsection \<open>One call\<close>

lemma perform_single:
  assumes "perform os impl x s = Done (res, r) s'"
  shows "perform_batch os impl False [x] s = Done [r] s'"
  using assms by (simp add: cswp_check_def)

lemma call_transacts:
  fixes c :: "'p link cswp_client_t"
  assumes "quiet impl" and "alloc_ok os" and "command_ok x"
    and "client_ok c" and "batch_mode c = BATCH_NONE" and "transport_priv c = (d, m)" and "server_ready d"
    and "perform os impl x (srv d) = Done (res, r) s" and "reply_ok r" and "exchange_fits [x] [r]"
  obtains c' d' where "submit (loopback os impl) (encode_command x) t cf c = cswp_client_transact (loopback os impl) None c'"
    "client_ok c'" "queued c' [x]" "batch_mode c' = BATCH_NONE" "c_out c' = c_out c" "transport_priv c' = (d, m)"
    "pending_responses c' = [\<lparr>pending_type = t, complete = cf\<rparr>]"
    "exchanges (loopback os impl) (request_bytes (batch_val (batch_mode c')) [x]) (transport_priv c')
       (response_bytes (length [x]) [r]) (d', [])"
    "srv d' = s" "server_ready d'"
proof -
  obtain c' where c': "submit (loopback os impl) (encode_command x) t cf c = cswp_client_transact (loopback os impl) None c'"
    "client_ok c'" "queued c' [x]"
    "c' = c\<lparr>c_cmd := c_cmd c', pending_responses := [\<lparr>pending_type = t, complete = cf\<rparr>], num_cmds := 1\<rparr>"
    using submit_transacts [OF assms(4,5,3), of "loopback os impl" t cf] assms(10) by (auto simp: exchange_fits_def)
  have same: "batch_mode c' = BATCH_NONE" "c_out c' = c_out c" "transport_priv c' = (d, m)"
    "pending_responses c' = [\<lparr>pending_type = t, complete = cf\<rparr>]"
    using arg_cong [OF c'(4), of batch_mode] arg_cong [OF c'(4), of c_out]
      arg_cong [OF c'(4), of transport_priv] arg_cong [OF c'(4), of pending_responses] assms(5,6) by simp_all
  have "\<exists>d'. server_round os impl (request_bytes 0 [x]) d = Done (response_bytes (length [x]) [r]) d'
    \<and> srv d' = s \<and> server_ready d'"
    using assms perform_single [OF assms(8)] by (intro server_round_batch) simp_all
  then obtain d' where d': "server_round os impl (request_bytes 0 [x]) d = Done (response_bytes (length [x]) [r]) d'"
    "srv d' = s" "server_ready d'" by auto
  show thesis
    by (rule that [OF c'(1-3) same(1-4) _ d'(2,3)]) (use loopback_exchanges [OF d'(1)] same assms(10) in \<open>simp add: exchange_fits_def\<close>)
qed

text \<open>A call whose command the abstract server accepts delivers the reply.\<close>

lemma call_accepted:
  fixes c :: "'p link cswp_client_t"
  assumes "quiet impl" and "alloc_ok os" and "command_ok x"
    and "client_ok c" and "batch_mode c = BATCH_NONE" and "transport_priv c = (d, m)" and "server_ready d"
    and "perform os impl x (srv d) = Done (None, r) s" and "reply_ok r" and "exchange_fits [x] [r]"
    and "reply_for \<lparr>pending_type = t, complete = cf\<rparr> r" and "deliver cf r (c_out c) = Done () mem"
  shows "\<exists>c' d'. submit (loopback os impl) (encode_command x) t cf c = Done () c'
    \<and> c_out c' = mem \<and> transport_priv c' = (d', []) \<and> srv d' = s \<and> client_ok c' \<and> batch_mode c' = BATCH_NONE \<and> server_ready d'"
proof -
  obtain c1 d' where c1: "submit (loopback os impl) (encode_command x) t cf c = cswp_client_transact (loopback os impl) None c1"
    "client_ok c1" "queued c1 [x]" "batch_mode c1 = BATCH_NONE" "c_out c1 = c_out c"
    "pending_responses c1 = [\<lparr>pending_type = t, complete = cf\<rparr>]"
    "exchanges (loopback os impl) (request_bytes (batch_val (batch_mode c1)) [x]) (transport_priv c1)
       (response_bytes (length [x]) [r]) (d', [])"
    "srv d' = s" "server_ready d'"
    using call_transacts [OF assms(1-10)] by blast
  obtain c2 where c2: "cswp_client_transact (loopback os impl) None c1 = Done () c2" "after_transact c1 mem (d', []) c2"
    using transact_delivers [OF c1(2,3,7), of None "c_out c" mem] assms(10-12) c1(5,6)
    by (auto simp: exchange_fits_def incr_uint_def cswp_check_def)
  with c1 show ?thesis by (auto simp: after_transact_def)
qed

text \<open>A call whose command is refused returns the error code and keeps the server's text.\<close>

lemma call_refused:
  fixes c :: "'p link cswp_client_t"
  assumes "quiet impl" and "alloc_ok os" and "command_ok x"
    and "client_ok c" and "batch_mode c = BATCH_NONE" and "transport_priv c = (d, m)" and "server_ready d"
    and "perform os impl x (srv d) = Done (res, Error_reply (cmd_val t) e msg) s"
    and "exchange_fits [x] [Error_reply (cmd_val t) e msg]"
    and "e \<noteq> 0" and "varint_ok (scast e)" and "string_fits ERROR_MESSAGE_SIZE (Some msg)"
  shows "\<exists>c' d'. submit (loopback os impl) (encode_command x) t cf c = Fail e c'
    \<and> errorMsg c' = cstr msg \<and> c_out c' = c_out c
    \<and> transport_priv c' = (d', []) \<and> srv d' = s \<and> client_ok c' \<and> batch_mode c' = BATCH_NONE \<and> server_ready d'"
proof -
  let ?r = "Error_reply (cmd_val t) e msg"
  have "reply_ok ?r" using assms(12) by (simp add: text_ok_def string_fits_def)
  obtain c1 d' where c1: "submit (loopback os impl) (encode_command x) t cf c = cswp_client_transact (loopback os impl) None c1"
    "client_ok c1" "queued c1 [x]" "batch_mode c1 = BATCH_NONE" "c_out c1 = c_out c"
    "pending_responses c1 = [\<lparr>pending_type = t, complete = cf\<rparr>]"
    "exchanges (loopback os impl) (request_bytes (batch_val (batch_mode c1)) [x]) (transport_priv c1)
       (response_bytes (length [x]) [?r]) (d', [])"
    "srv d' = s" "server_ready d'"
    using call_transacts [OF assms(1-8) \<open>reply_ok ?r\<close> assms(9)] by blast
  have "\<exists>c2. cswp_client_transact (loopback os impl) None c1 = Fail e c2
      \<and> after_transact c1 (c_out c) (d', []) c2 \<and> errorMsg c2 = cstr msg"
    by (rule transact_fails [where rs = "[]" and rs' = "[]" and ps = "[]" and ps' = "[]"
          and p = "\<lparr>pending_type = t, complete = cf\<rparr>" and cs = "[x]"])
      (use c1 assms(9-12) in \<open>simp_all add: exchange_fits_def\<close>)
  with c1 show ?thesis by (auto simp: after_transact_def)
qed

text \<open>A refusal with the type of another command is a communication error for the client: the
  server's code and text are lost.\<close>

lemma call_mistyped:
  fixes c :: "'p link cswp_client_t"
  assumes "quiet impl" and "alloc_ok os" and "command_ok x"
    and "client_ok c" and "batch_mode c = BATCH_NONE" and "transport_priv c = (d, m)" and "server_ready d"
    and "perform os impl x (srv d) = Done (res, r) s" and "reply_ok r" and "exchange_fits [x] [r]"
    and "varint_ok (reply_type r)" and "varint_ok (reply_code r)" and "reply_type r \<noteq> cmd_val t"
  shows "\<exists>c' d'. submit (loopback os impl) (encode_command x) t cf c = Fail (res_val CSWP_COMMS) c'
    \<and> c_out c' = c_out c \<and> transport_priv c' = (d', []) \<and> srv d' = s"
proof -
  obtain c1 d' where c1: "submit (loopback os impl) (encode_command x) t cf c = cswp_client_transact (loopback os impl) None c1"
    "client_ok c1" "queued c1 [x]" "c_out c1 = c_out c"
    "pending_responses c1 = [\<lparr>pending_type = t, complete = cf\<rparr>]"
    "exchanges (loopback os impl) (request_bytes (batch_val (batch_mode c1)) [x]) (transport_priv c1)
       (response_bytes (length [x]) [r]) (d', [])"
    "srv d' = s"
    using call_transacts [OF assms(1-10)] by blast
  have "\<exists>c2. cswp_client_transact (loopback os impl) None c1 = Fail (res_val CSWP_COMMS) c2
      \<and> c_out c2 = c_out c \<and> transport_priv c2 = (d', []) \<and> pending_responses c2 = []"
    by (rule transact_wrong_type [OF c1(2,3,6), where ps = "[]" and p = "\<lparr>pending_type = t, complete = cf\<rparr>"])
      (use c1(4,5) assms(10-13) in \<open>simp_all add: exchange_fits_def\<close>)
  with c1(1,7) show ?thesis by auto
qed

subsection \<open>A batch\<close>

lemma batch_exchanges:
  fixes c :: "'p link cswp_client_t"
  assumes "quiet impl" and "alloc_ok os" and "\<And>x. x \<in> set cs \<Longrightarrow> command_ok x"
    and "batch_mode c \<noteq> BATCH_NONE" and "transport_priv c = (d, m)" and "server_ready d"
    and "perform_batch os impl True cs (srv d) = Done rs s" and "\<And>r. r \<in> set rs \<Longrightarrow> reply_ok r"
    and "exchange_fits cs rs"
  obtains d' where "exchanges (loopback os impl) (request_bytes (batch_val (batch_mode c)) cs) (transport_priv c)
       (response_bytes (length cs) rs) (d', [])" "srv d' = s" "server_ready d'"
proof -
  have "batch_val (batch_mode c) \<noteq> 0" using assms(4) by (cases "batch_mode c") simp_all
  then obtain d' where "server_round os impl (request_bytes (batch_val (batch_mode c)) cs) d
      = Done (response_bytes (length cs) rs) d'" "srv d' = s" "server_ready d'"
    using server_round_batch [OF assms(1-3,6,9), of "batch_val (batch_mode c)" s] assms(7,8) by auto
  moreover from this(1) have "exchanges (loopback os impl) (request_bytes (batch_val (batch_mode c)) cs) (d, m)
       (response_bytes (length cs) rs) (d', [])"
    by (rule loopback_exchanges) (use assms(9) in \<open>simp add: exchange_fits_def\<close>)
  ultimately show thesis using that assms(5) by simp
qed

lemma batch_end_transacts:
  assumes "queued c cs" and "cs \<noteq> []"
  shows "cswp_batch_end tr ops c = attempt (cswp_client_transact tr ops)
     (\<lambda>res. cswp_check (modify (\<lambda>c. c\<lparr>batch_mode := BATCH_NONE\<rparr>)) (\<lambda>_. fail res))
     (\<lambda>_. modify (\<lambda>c. c\<lparr>batch_mode := BATCH_NONE\<rparr>)) c"
proof -
  have n: "num_cmds c = of_nat (length cs)" "length cs < 2 ^ 31" using assms(1) by (simp_all add: queued_def)
  have "sint (num_cmds c) = int (length cs)"
    unfolding n(1) using n(2) by (simp add: signed_of_nat signed_take_bit_int_eq_self)
  then have "0 <s num_cmds c" using assms(2) by (simp add: word_sless_alt)
  then show ?thesis by (simp add: cswp_batch_end_def Let_def)
qed

text \<open>A batch the abstract server performs without an error delivers every reply.\<close>

lemma batch_accepted:
  fixes c :: "'p link cswp_client_t"
  assumes "quiet impl" and "alloc_ok os" and "\<And>x. x \<in> set cs \<Longrightarrow> command_ok x"
    and "batch_mode c \<noteq> BATCH_NONE" and "transport_priv c = (d, m)" and "server_ready d"
    and "perform_batch os impl True cs (srv d) = Done rs s" and "\<And>r. r \<in> set rs \<Longrightarrow> reply_ok r"
    and "exchange_fits cs rs"
    and "client_ok c" and "queued c cs" and "cs \<noteq> []"
    and "(if ops = None then ret () else store_uint ops 0) (c_out c) = Done () mem"
    and "list_all2 reply_for (pending_responses c) rs"
    and "deliver_all ops (zip (pending_responses c) rs) mem = Done () mem'"
  shows "\<exists>c' d'. cswp_batch_end (loopback os impl) ops c = Done () c' \<and> c_out c' = mem'
    \<and> batch_mode c' = BATCH_NONE \<and> pending_responses c' = [] \<and> transport_priv c' = (d', []) \<and> srv d' = s
    \<and> client_ok c' \<and> server_ready d'"
proof -
  obtain d' where d': "exchanges (loopback os impl) (request_bytes (batch_val (batch_mode c)) cs) (transport_priv c)
       (response_bytes (length cs) rs) (d', [])" "srv d' = s" "server_ready d'"
    by (rule batch_exchanges [OF assms(1-9)]) auto
  have fits: "length (response_bytes (length cs) rs) \<le> unat BUFFER_SIZE" using assms(9) by (simp add: exchange_fits_def)
  obtain c' where "cswp_client_transact (loopback os impl) ops c = Done () c'" "after_transact c mem' (d', []) c'"
    using transact_delivers [OF assms(10,11) d'(1) fits assms(13-15)] by auto
  then show ?thesis
    using d'(2,3) batch_end_transacts [OF assms(11,12)] by (simp add: after_transact_def client_ok_def)
qed

text \<open>A batch that meets an error. Both modes of the client run the same way on the server: the mode
  byte of a batch that should continue is not zero either.\<close>

lemma batch_error:
  fixes c :: "'p link cswp_client_t"
  assumes "quiet impl" and "alloc_ok os" and "\<And>x. x \<in> set cs \<Longrightarrow> command_ok x"
    and "batch_mode c \<noteq> BATCH_NONE" and "transport_priv c = (d, m)" and "server_ready d"
    and "perform_batch os impl True cs (srv d) = Done (rs @ Error_reply (cmd_val (pending_type p)) e msg # rs') s"
    and "\<And>r. r \<in> set (rs @ Error_reply (cmd_val (pending_type p)) e msg # rs') \<Longrightarrow> reply_ok r"
    and "exchange_fits cs (rs @ Error_reply (cmd_val (pending_type p)) e msg # rs')"
    and "client_ok c" and "queued c cs" and "cs \<noteq> []"
    and "(if ops = None then ret () else store_uint ops 0) (c_out c) = Done () mem"
    and "pending_responses c = ps @ p # ps'" and "list_all2 reply_for ps rs"
    and "deliver_all ops (zip ps rs) mem = Done () mem'"
    and "e \<noteq> 0" and "varint_ok (scast e)" and "string_fits ERROR_MESSAGE_SIZE (Some msg)"
  shows "\<exists>c' d'. cswp_batch_end (loopback os impl) ops c = Fail e c' \<and> c_out c' = mem' \<and> errorMsg c' = cstr msg
    \<and> batch_mode c' = BATCH_NONE \<and> pending_responses c' = [] \<and> transport_priv c' = (d', []) \<and> srv d' = s"
proof -
  let ?rs = "rs @ Error_reply (cmd_val (pending_type p)) e msg # rs'"
  obtain d' where d': "exchanges (loopback os impl) (request_bytes (batch_val (batch_mode c)) cs) (transport_priv c)
       (response_bytes (length cs) ?rs) (d', [])" "srv d' = s" "server_ready d'"
    by (rule batch_exchanges [OF assms(1-9)]) auto
  have fits: "length (response_bytes (length cs) ?rs) \<le> unat BUFFER_SIZE" using assms(9) by (simp add: exchange_fits_def)
  obtain c' where "cswp_client_transact (loopback os impl) ops c = Fail e c'" "after_transact c mem' (d', []) c'"
      "errorMsg c' = cstr msg"
    using transact_fails [OF assms(10,11) d'(1) fits assms(13-19)] by auto
  then show ?thesis
    using d'(2) batch_end_transacts [OF assms(11,12)] by (simp add: after_transact_def)
qed

end
