(* ===== verification/Client_Properties.thy ===== *)
theory Client_Properties
  imports Wire_Properties End_To_End
begin

text \<open>
  The properties of the client library: the request it sends, what a response does to the
  caller's memory, and the responses it does not survive. The witnesses use a client with fresh
  buffers and a transport that brings back a given message.
\<close>

definition test_mem :: out_mem where
  "test_mem = \<lparr>m_uint = (\<lambda>_. Some 0), m_size = (\<lambda>_. Some 0), m_bytes = (\<lambda>_. Some [0, 0, 0, 0]),
     m_words = (\<lambda>_. Some [0, 0]), m_regs = (\<lambda>_. Some [])\<rparr>"

definition client_with :: "CSWP_BUFFER \<Rightarrow> 't \<Rightarrow> 't cswp_client_t" where
  "client_with b t = \<lparr>errorMsg = [], c_hdr = empty_buffer 15, c_cmd = empty_buffer 32768, c_rsp = b,
     batch_mode = BATCH_NONE, num_cmds = 0, pending_responses = [], c_out = test_mem, transport_priv = t\<rparr>"

definition fresh_client :: "'t \<Rightarrow> 't cswp_client_t" where
  "fresh_client t = client_with (empty_buffer 32768) t"

definition canned :: "byte list \<Rightarrow> 't cswp_client_transport_t" where
  "canned out = \<lparr>t_connect = None, t_disconnect = None, t_send = (\<lambda>_. ret ()), t_receive = (\<lambda>_. ret out)\<rparr>"

lemma canned_exchanges: "exchanges (canned out) req t out t"
  unfolding exchanges_def by (rule exI [of _ t]) (simp add: canned_def)

lemma fresh_client_ok: "client_ok (fresh_client t)" "batch_mode (fresh_client t) = BATCH_NONE"
    "c_out (fresh_client t) = test_mem" "transport_priv (fresh_client t) = t"
  using empty_buffer_at_end [of 15] empty_buffer_at_end [of 32768]
  by (simp_all add: client_ok_def fresh_client_def client_with_def CSWP_REQ_HEADER_SIZE_def BUFFER_SIZE_def at_end_def
      empty_buffer_def)

lemma client_with_simps [simp]:
  "c_rsp (client_with b t) = b" "c_out (client_with b t) = test_mem" "transport_priv (client_with b t) = t"
  by (simp_all add: client_with_def)

text \<open>The client after \<open>cswp_batch_begin\<close>.\<close>

definition batching_client :: "'t \<Rightarrow> 't cswp_client_t" where
  "batching_client t = (fresh_client t)\<lparr>c_cmd := (empty_buffer 32768)\<lparr>bpos := 15, bused := 15\<rparr>, batch_mode := BATCH_ABORT\<rparr>"

lemma batching_client_begun: "cswp_batch_begin True (fresh_client t) = Done () (batching_client t)"
  by (simp add: cswp_batch_begin_def cswp_client_prepare_cmd_def batching_client_def fresh_client_def client_with_def
      CSWP_REQ_HEADER_SIZE_def)

lemma batching_client_ok: "client_ok (batching_client t)" "queued (batching_client t) []"
    "batch_mode (batching_client t) = BATCH_ABORT" "unat (bused (c_cmd (batching_client t))) = 15"
  using fresh_client_ok(1) [of t]
  by (simp_all add: batching_client_def client_ok_def queued_def fresh_client_def client_with_def CSWP_REQ_HEADER_SIZE_def
      at_end_def buf_ok_def empty_buffer_def written_def BUFFER_SIZE_def)

subsection \<open>Sending\<close>

text \<open>C18: in a batch a call sends nothing: it appends its command to the request and its response to the
  queue.\<close>

theorem batched_call_queues:
  assumes "client_ok c" and "queued c cs" and "command_ok x"
    and "unat (bused (c_cmd c)) + length (command_bytes x) \<le> unat BUFFER_SIZE" and "Suc (length cs) < 2 ^ 31"
    and "batch_mode c \<noteq> BATCH_NONE"
  shows "\<exists>c'. submit tr (encode_command x) t cf c = Done () c' \<and> client_ok c' \<and> queued c' (cs @ [x])
    \<and> c' = c\<lparr>c_cmd := c_cmd c', pending_responses := pending_responses c @ [\<lparr>pending_type = t, complete = cf\<rparr>],
         num_cmds := num_cmds c + 1\<rparr>"
  by (rule submit_batched [OF assms])

theorem batched_call_queues_witness:
  "\<exists>c'. cswp_client_info (canned []) (Some [104, 105]) (batching_client ()) = Done () c' \<and> queued c' [Client_info [104, 105]]
    \<and> pending_responses c' = [\<lparr>pending_type = CSWP_CLIENT_INFO, complete = No_completion\<rparr>]"
proof -
  let ?x = "Client_info [104, 105]" and ?c = "batching_client () :: unit cswp_client_t"
  have len: "length (command_bytes ?x) = 4" by code_simp
  have "command_ok ?x" by (simp add: str_ok_def)
  from batched_call_queues [OF batching_client_ok(1,2) this, of "()" "canned []" CSWP_CLIENT_INFO No_completion]
  obtain c' where c': "submit (canned []) (encode_command ?x) CSWP_CLIENT_INFO No_completion ?c = Done () c'"
    "queued c' ([] @ [?x])"
    "c' = ?c\<lparr>c_cmd := c_cmd c', pending_responses := pending_responses ?c @ [\<lparr>pending_type = CSWP_CLIENT_INFO, complete = No_completion\<rparr>],
         num_cmds := num_cmds ?c + 1\<rparr>"
    using batching_client_ok(3,4) [of "()"] len by (auto simp: BUFFER_SIZE_def)
  have "pending_responses ?c = []" by (simp add: batching_client_def fresh_client_def client_with_def)
  then show ?thesis using c'(1,2) arg_cong [OF c'(3), of pending_responses] by (simp add: cswp_client_info_def)
qed

text \<open>C17: the request of a transaction is one message: its length, the number of commands, the mode, and
  the bytes of the queued commands in their order.\<close>

theorem request_framed:
  assumes "client_ok c" and "queued c cs"
  shows "\<exists>h b. request_message c = Done (request_bytes (batch_val (batch_mode c)) cs) (c\<lparr>c_hdr := h, c_cmd := b\<rparr>)
    \<and> client_ok (c\<lparr>c_hdr := h, c_cmd := b\<rparr>)"
  by (rule request_message_bytes [OF assms])

theorem request_framed_witness:
  "\<exists>c'. request_message (batching_client ()) = Done (request_bytes 2 []) c'"
  using request_framed [OF batching_client_ok(1,2), of "()"] batching_client_ok(3) [of "()"] by auto

subsection \<open>Responses\<close>

text \<open>C5: a transaction whose transport brings back the bytes of the replies its commands wait for
  stores what the replies say in the caller's objects, in order, and empties the queue.\<close>

theorem transaction_delivers:
  assumes "client_ok c" and "queued c cs"
    and "exchanges tr (request_bytes (batch_val (batch_mode c)) cs) (transport_priv c) (response_bytes (length cs) rs) t'"
    and "length (response_bytes (length cs) rs) \<le> unat BUFFER_SIZE"
    and "(if ops = None then ret () else store_uint ops 0) (c_out c) = Done () mem"
    and "list_all2 reply_for (pending_responses c) rs"
    and "deliver_all ops (zip (pending_responses c) rs) mem = Done () mem'"
  shows "\<exists>c'. cswp_client_transact tr ops c = Done () c' \<and> client_ok c' \<and> c_out c' = mem'
    \<and> transport_priv c' = t' \<and> pending_responses c' = []"
  using transact_delivers [OF assms] by (auto simp: after_transact_def)

lemma call_queued:
  assumes "command_ok x" and "length (command_bytes x) + 15 \<le> unat BUFFER_SIZE"
  shows "\<exists>c. submit (canned out) (encode_command x) t cf (fresh_client d) = cswp_client_transact (canned out) None c
    \<and> client_ok c \<and> queued c [x] \<and> pending_responses c = [\<lparr>pending_type = t, complete = cf\<rparr>] \<and> c_out c = test_mem
    \<and> exchanges (canned out) (request_bytes (batch_val (batch_mode c)) [x]) (transport_priv c) out d"
proof -
  obtain c where c: "submit (canned out) (encode_command x) t cf (fresh_client d) = cswp_client_transact (canned out) None c"
    "client_ok c" "queued c [x]"
    "c = (fresh_client d)\<lparr>c_cmd := c_cmd c, pending_responses := [\<lparr>pending_type = t, complete = cf\<rparr>], num_cmds := 1\<rparr>"
    using submit_transacts [OF fresh_client_ok(1,2) [of d] assms, of "canned out" t cf] by auto
  have "c_out c = test_mem" "transport_priv c = d" "pending_responses c = [\<lparr>pending_type = t, complete = cf\<rparr>]"
    using arg_cong [OF c(4), of c_out] arg_cong [OF c(4), of transport_priv] arg_cong [OF c(4), of pending_responses]
    by (simp_all add: fresh_client_ok)
  then show ?thesis using c(1-3) canned_exchanges by metis
qed

theorem transaction_delivers_witness:
  "\<exists>c'. cswp_device_mem_read (canned (response_bytes 1 [Mem_read_reply [7, 8]])) 0 0x80000000 2 2 0 (Some 1) (Some 2)
       (fresh_client ()) = Done () c'
    \<and> m_bytes (c_out c') 1 = Some [7, 8, 0, 0] \<and> m_size (c_out c') 2 = Some 2"
proof -
  let ?x = "Mem_read 0 0x80000000 2 2 0" and ?r = "Mem_read_reply [7, 8]" and ?cf = "Mem_read_complete (Some 1) (Some 2)"
  let ?mem = "test_mem\<lparr>m_bytes := (m_bytes test_mem)(1 \<mapsto> [7, 8, 0, 0]), m_size := (m_size test_mem)(2 \<mapsto> 2)\<rparr>"
  have len: "length (command_bytes ?x) = 14" "length (response_bytes 1 [?r]) = 11" by code_simp+
  have ok: "command_ok ?x" "length (command_bytes ?x) + 15 \<le> unat BUFFER_SIZE"
    by (simp add: varint_ok_def) (simp add: len BUFFER_SIZE_def)
  obtain c where c: "submit (canned (response_bytes 1 [?r])) (encode_command ?x) CSWP_MEM_READ ?cf (fresh_client ())
      = cswp_client_transact (canned (response_bytes 1 [?r])) None c"
    "client_ok c" "queued c [?x]" "pending_responses c = [\<lparr>pending_type = CSWP_MEM_READ, complete = ?cf\<rparr>]" "c_out c = test_mem"
    "exchanges (canned (response_bytes 1 [?r])) (request_bytes (batch_val (batch_mode c)) [?x]) (transport_priv c)
       (response_bytes 1 [?r]) ()"
    using call_queued [OF ok, of "response_bytes 1 [?r]" CSWP_MEM_READ ?cf "()"] by blast
  have fits: "list_all2 reply_for (pending_responses c) [?r]" using c(4) by (simp add: reply_for_def count_ok_def)
  have mem: "deliver_all None (zip (pending_responses c) [?r]) test_mem = Done () ?mem"
    using c(4) by (simp add: store_bytes_def store_size_def test_mem_def incr_uint_def cswp_check_def)
  have "\<exists>c'. cswp_client_transact (canned (response_bytes 1 [?r])) None c = Done () c' \<and> client_ok c' \<and> c_out c' = ?mem
      \<and> transport_priv c' = () \<and> pending_responses c' = []"
    by (rule transaction_delivers [OF c(2,3) _ _ _ fits mem]) (use c(5,6) len in \<open>simp_all add: BUFFER_SIZE_def\<close>)
  then show ?thesis using c(1) by (auto simp: cswp_device_mem_read_def)
qed

text \<open>At an error reply a transaction stops: the replies before it have been delivered, its code is
  returned, its text kept, and the commands after it are forgotten.\<close>

theorem transaction_stops_at_error:
  assumes "client_ok c" and "queued c cs"
    and "exchanges tr (request_bytes (batch_val (batch_mode c)) cs) (transport_priv c)
        (response_bytes (length cs) (rs @ Error_reply (cmd_val (pending_type p)) e msg # rs')) t'"
    and "length (response_bytes (length cs) (rs @ Error_reply (cmd_val (pending_type p)) e msg # rs')) \<le> unat BUFFER_SIZE"
    and "(if ops = None then ret () else store_uint ops 0) (c_out c) = Done () mem"
    and "pending_responses c = ps @ p # ps'" and "list_all2 reply_for ps rs"
    and "deliver_all ops (zip ps rs) mem = Done () mem'"
    and "e \<noteq> 0" and "varint_ok (scast e)" and "string_fits ERROR_MESSAGE_SIZE (Some msg)"
  shows "\<exists>c'. cswp_client_transact tr ops c = Fail e c' \<and> client_ok c' \<and> c_out c' = mem' \<and> errorMsg c' = cstr msg
    \<and> pending_responses c' = []"
  using transact_fails [OF assms] by (auto simp: after_transact_def)

theorem transaction_stops_at_error_witness:
  "\<exists>c'. cswp_device_close (canned (response_bytes 1 [Error_reply (cmd_val CSWP_DEVICE_CLOSE) 5 [66, 97, 100]])) 0
       (fresh_client ()) = Fail 5 c' \<and> errorMsg c' = [66, 97, 100]"
proof -
  let ?x = "Device_close 0" and ?r = "Error_reply (cmd_val CSWP_DEVICE_CLOSE) 5 [66, 97, 100]"
  let ?p = "\<lparr>pending_type = CSWP_DEVICE_CLOSE, complete = No_completion\<rparr>"
  have len: "length (command_bytes ?x) = 3" "length (response_bytes 1 [?r]) = 12" by code_simp+
  have ok: "command_ok ?x" "length (command_bytes ?x) + 15 \<le> unat BUFFER_SIZE"
    by (simp add: varint_ok_def) (simp add: len BUFFER_SIZE_def)
  obtain c where c: "submit (canned (response_bytes 1 [?r])) (encode_command ?x) CSWP_DEVICE_CLOSE No_completion (fresh_client ())
      = cswp_client_transact (canned (response_bytes 1 [?r])) None c"
    "client_ok c" "queued c [?x]" "pending_responses c = [?p]" "c_out c = test_mem"
    "exchanges (canned (response_bytes 1 [?r])) (request_bytes (batch_val (batch_mode c)) [?x]) (transport_priv c)
       (response_bytes 1 [?r]) ()"
    using call_queued [OF ok, of "response_bytes 1 [?r]" CSWP_DEVICE_CLOSE No_completion "()"] by blast
  have "\<exists>c'. cswp_client_transact (canned (response_bytes 1 [?r])) None c = Fail 5 c' \<and> client_ok c' \<and> c_out c' = test_mem
      \<and> errorMsg c' = cstr [66, 97, 100] \<and> pending_responses c' = []"
    by (rule transaction_stops_at_error [OF c(2,3), where p = ?p and rs = "[]" and rs' = "[]" and ps = "[]" and ps' = "[]"])
      (use c(4-6) len in \<open>simp_all add: BUFFER_SIZE_def varint_ok_def string_fits_def ERROR_MESSAGE_SIZE_def cstr_def\<close>)
  then show ?thesis using c(1) by (auto simp: cswp_device_close_def cstr_def)
qed

lemma le_bytes_onto:
  fixes bs :: "byte list"
  assumes "length bs = 4" shows "\<exists>v :: c_uint. bs = le_bytes 4 v"
proof -
  obtain b0 b1 b2 b3 where bs: "bs = [b0, b1, b2, b3]"
    using assms by (auto simp: length_Suc_conv eval_nat_numeral)
  let ?v = "ucast b0 OR push_bit 8 (ucast b1) OR push_bit 16 (ucast b2) OR push_bit 24 (ucast b3) :: c_uint"
  have "ucast ?v = b0" "ucast (drop_bit 8 ?v) = b1" "ucast (drop_bit 16 ?v) = b2" "ucast (drop_bit 24 ?v) = b3"
    by (rule bit_word_eqI; auto simp: bit_simps dest: bit_imp_le_length)+
  then show ?thesis unfolding bs le_bytes_32 by (intro exI [of _ ?v]) simp
qed

text \<open>A received message is accepted when it holds at least as many bytes as its first four say; a
  shorter one is a communication error. A message of fewer than four bytes is not noticed: the
  length is used without a value.\<close>

theorem reply_length_checked:
  assumes "buf_ok (c_rsp c)"
  shows "case check_reply_length c of
      Done _ c' \<Rightarrow> \<exists>v :: c_uint. prefix (le_bytes 4 v) (written (c_rsp c)) \<and> unat v \<le> length (written (c_rsp c))
    | Fail e c' \<Rightarrow> e = res_val CSWP_COMMS \<and>
        (\<exists>v :: c_uint. prefix (le_bytes 4 v) (written (c_rsp c)) \<and> length (written (c_rsp c)) < unat v)
    | Undef u \<Rightarrow> u = UninitRead \<and> length (written (c_rsp c)) < 4"
proof -
  let ?b = "cswp_buffer_seek 0 (c_rsp c)" and ?w = "written (c_rsp c)"
  have ok: "buf_ok ?b" "unread ?b = ?w" "bused ?b = bused (c_rsp c)"
    using assms by (simp_all add: cswp_buffer_seek_def buf_ok_def unread_def written_def)
  have used: "unat (bused (c_rsp c)) = length ?w" using assms by (simp add: length_written)
  show ?thesis
  proof (cases "length ?w < 4")
    case True
    then have "bused (c_rsp c) < 4" using used by (simp add: word_less_nat_alt)
    then have "cswp_buffer_get_uint32 ?b = Fail (res_val CSWP_BUFFER_EMPTY) ?b"
      by (simp add: cswp_buffer_get_uint32_def require_r_def cswp_buffer_seek_def)
    then show ?thesis using True by (simp add: check_reply_length_def on_c_rsp_def zoom_def attempt_def cswp_check_def)
  next
    case False
    then obtain v :: c_uint where v: "take 4 ?w = le_bytes 4 v" using le_bytes_onto [of "take 4 ?w"] by auto
    then have w: "?w = le_bytes 4 v @ drop 4 ?w" by (metis append_take_drop_id)
    from reads_Done [OF reads_get_uint32 ok(1), of v "drop 4 ?w"] w ok(2)
    have r: "cswp_buffer_get_uint32 ?b = Done v (adv 4 ?b)" by simp
    have pre: "prefix (le_bytes 4 v) ?w" using w by (metis prefixI)
    have "\<exists>m. c_format (bytes_of ''Incomplete response received.  Received %d bytes, expected %d'')
        [Arg_int (bused (c_rsp c)), Arg_int (ucast v)] = Some m"
      by (simp add: bytes_of_def int_conv_def long_conv_def)
    moreover have "bused (c_rsp c) < ucast v \<longleftrightarrow> length ?w < unat v"
      by (simp only: word_less_nat_alt used unat_ucast_32_64)
    ultimately show ?thesis
      using r pre ok(3)
      by (auto simp: check_reply_length_def on_c_rsp_def zoom_def attempt_def cswp_check_def cswp_client_error_def
          cswp_buffer_seek_def not_less split: outcome.splits)
  qed
qed

theorem reply_length_checked_witness:
  "check_reply_length (client_with (received_buffer [9, 0]) ()) = Undef UninitRead"
proof -
  let ?c = "client_with (received_buffer [9, 0]) ()"
  have w: "written (c_rsp ?c) = [9, 0]" "buf_ok (c_rsp ?c)"
    using received_buffer_ok [of "[9, 0]"] by (simp_all add: written_def received_buffer_def)
  have none: "\<not> prefix (le_bytes 4 v) [9, 0]" for v :: c_uint
    using prefix_length_le [of "le_bytes 4 v" "[9, 0]"] by auto
  from reply_length_checked [OF w(2)] show ?thesis
    unfolding w(1) by (cases "check_reply_length ?c") (simp_all add: none)
qed

text \<open>A reply whose error code is negative takes the client out of defined behaviour, for any
  command: the code is sent as a varint of ten bytes, and the decoder shifts an \<open>int\<close> out of range.\<close>

theorem negative_error_code_undefined:
  assumes "buf_ok (c_rsp c)" and "unread (c_rsp c) = reply_bytes (Error_reply t e msg) @ zs"
    and "varint_ok t" and "e <s 0"
  shows "cswp_client_process_response p c = Undef BadShift"
  by (rule process_response_negative_code [OF assms])

theorem negative_error_code_undefined_witness:
  "cswp_client_process_response \<lparr>pending_type = CSWP_TERM, complete = No_completion\<rparr>
     (client_with (received_buffer (reply_bytes (Error_reply (cmd_val CSWP_TERM) (- 1) []))) ()) = Undef BadShift"
proof -
  let ?bs = "reply_bytes (Error_reply (cmd_val CSWP_TERM) (- 1) [])"
  have "length ?bs = 12" by code_simp
  then have len: "length ?bs < 2 ^ 64" by simp
  show ?thesis
    by (rule negative_error_code_undefined [where zs = "[]" and t = "cmd_val CSWP_TERM" and e = "- 1" and msg = "[]"])
      (use received_buffer_ok [OF len] unread_received_buffer [OF len] varint_ok_cmd in simp_all)
qed

subsection \<open>What the client takes from the server on trust\<close>

text \<open>C28: the number of bytes a memory read or poll stores is the server's, not the caller's: a reply
  with more bytes than the caller's buffer holds is written past its end.\<close>

theorem memory_reply_overflows_buffer:
  assumes "buf_ok (c_rsp c)" and "count_ok d" and "m_bytes (c_out c) a = Some obj" and "length obj < length d"
    and "unread (c_rsp c) = data_bytes d @ zs"
  shows "run_complete (Mem_read_complete (Some a) q) c = Undef OutOfBounds
    \<and> run_complete (Mem_poll_complete (Some a) q) c = Undef OutOfBounds"
proof -
  have d: "d \<noteq> []" using assms(4) by auto
  have read: "deliver (Mem_read_complete (Some a) q) (Mem_read_reply d) (c_out c) = Undef OutOfBounds"
    and poll: "deliver (Mem_poll_complete (Some a) q) (Mem_poll_reply d) (c_out c) = Undef OutOfBounds"
    using assms(3,4) d by (simp_all add: store_bytes_def)
  show ?thesis
    using receivesD(2) [OF receives_memory(1) [OF assms(2)] assms(1) _ read] receivesD(2) [OF receives_memory(2) [OF assms(2)] assms(1) _ poll]
      assms(5) by simp
qed

theorem memory_reply_overflows_buffer_witness:
  "run_complete (Mem_read_complete (Some 0) None) (client_with (received_buffer (data_bytes [1, 2, 3, 4, 5])) ()) = Undef OutOfBounds"
proof -
  have "length (data_bytes [1, 2, 3, 4, 5]) = 6" by code_simp
  then have len: "length (data_bytes [1, 2, 3, 4, 5]) < 2 ^ 64" by simp
  show ?thesis
    using memory_reply_overflows_buffer [of "client_with (received_buffer (data_bytes [1, 2, 3, 4, 5])) ()" "[1, 2, 3, 4, 5]" 0
        "[0, 0, 0, 0]" "[]" None] received_buffer_ok [OF len] unread_received_buffer [OF len]
    by (simp add: test_mem_def count_ok_def)
qed

text \<open>A reply to a memory read that announces more bytes than the message holds makes the client copy
  from a pointer it has not set.\<close>

theorem memory_reply_truncated_undefined:
  assumes "buf_ok (c_rsp c)" and "unread (c_rsp c) = varint_enc n @ zs" and "varint_ok n" and "length zs < unat n"
  shows "run_complete (Mem_read_complete p q) c = Undef UninitRead"
proof -
  let ?b = "adv (length (varint_enc n)) (c_rsp c)"
  have n: "cswp_buffer_get_varint (c_rsp c) = Done n ?b"
    by (rule reads_Done [OF reads_get_varint [OF assms(3)] assms(1,2)])
  note b = after_read [OF assms(1,2)]
  have "unat (bused ?b - bpos ?b) < unat n"
    using assms(4) buf_okD(2) [OF b(1)] length_unread [of ?b] b
    by (simp add: unat_sub word_le_nat_alt del: adv_fields)
  then have "cswp_buffer_get_direct n ?b = Fail (res_val CSWP_BUFFER_EMPTY) ?b"
    by (simp add: cswp_buffer_get_direct_def require_r_def word_less_nat_alt del: adv_fields)
  then show ?thesis
    using n by (simp add: cswp_device_mem_read_complete_def cswp_decode_mem_read_response_body_def on_c_rsp_def zoom_def attempt_def
        cswp_check_def)
qed

theorem memory_reply_truncated_undefined_witness:
  "run_complete (Mem_read_complete (Some 0) None) (client_with (received_buffer [4, 1, 2]) ()) = Undef UninitRead"
proof -
  have "varint_enc 4 = [4]" by code_simp
  then show ?thesis
    using memory_reply_truncated_undefined [of "client_with (received_buffer [4, 1, 2]) ()" 4 "[1, 2]"]
      received_buffer_ok [of "[4, 1, 2]"] unread_received_buffer [of "[4, 1, 2]"]
    by (simp add: varint_ok_def)
qed

text \<open>A register string that is exactly as long as what is left of the caller's string buffer passes
  the check, and its terminator is written behind the buffer.\<close>

theorem reg_list_string_off_by_one:
  assumes "m_bytes (c_out c) a = Some obj" and "off + unat sz = length obj" and "length (cstr str) = unat sz"
  shows "put_reg_string pInfo (Some a) i set_field str (off, sz, res) c = Undef OutOfBounds"
proof -
  have "(of_nat (length (cstr str)) :: size_t) = sz" unfolding assms(3) by simp
  then show ?thesis
    using assms by (simp add: put_reg_string_def Let_def on_out_def zoom_def store_string_def store_bytes_def)
qed

theorem reg_list_string_off_by_one_witness:
  "put_reg_string (Some 0) (Some 0) 0 (\<lambda>o1 r. r) [82, 49, 53, 65] (0, 4, 0) (client_with (received_buffer []) ()) = Undef OutOfBounds"
  by (rule reg_list_string_off_by_one [where obj = "[0, 0, 0, 0]"]) (simp_all add: test_mem_def cstr_def)

end
