(* ===== verification/Server_Safety.thy ===== *)
theory Server_Safety
  imports Server_Cmdint Command_Codec
begin

text \<open>
  Memory safety and well-formedness of the server. \<open>srv_ok n\<close> is the invariant of the server
  state with \<open>n\<close> devices: the arrays that are present have \<open>n\<close> elements, a register list has at
  least as many elements as its count, and the system description has at least its size.
  \<open>impl_ok\<close> is the contract of the implementation's callbacks and \<open>libc_ok\<close> that of the
  allocator. Under them every command, whatever its bytes, keeps the invariant, and the
  undefined behaviour it can run into is limited to the kinds in \<open>srv_undef\<close>: no access is out
  of bounds and every loop ends.
\<close>

subsection \<open>Invariant and contracts\<close>

definition arr_ok :: "c_uint \<Rightarrow> 'a list option \<Rightarrow> bool" where
  "arr_ok n p \<longleftrightarrow> (\<forall>xs. p = Some xs \<longrightarrow> length xs = unat n)"

definition dev_ok :: "cswp_device_info_t \<Rightarrow> bool" where
  "dev_ok d \<longleftrightarrow> (\<forall>rs. registerInfo d = Some rs \<longrightarrow> unat (registerCount d) \<le> length rs)"

definition devs_ok :: "cswp_device_info_t list option \<Rightarrow> bool" where
  "devs_ok p \<longleftrightarrow> (\<forall>ds. p = Some ds \<longrightarrow> (\<forall>d \<in> set ds. dev_ok d))"

definition srv_ok :: "c_uint \<Rightarrow> 'p cswp_server_state_t \<Rightarrow> bool" where
  "srv_ok n s \<longleftrightarrow> deviceCount s = n \<and> arr_ok n (deviceNames s) \<and> arr_ok n (deviceTypes s)
     \<and> arr_ok n (deviceInfo s) \<and> devs_ok (deviceInfo s)
     \<and> (\<forall>d. systemDescription s = Some d \<longrightarrow> unat (systemDescriptionSize s) \<le> length d)"

text \<open>The undefined behaviour that remains: a varint of six bytes or more, a register error
  before the first register number, a null pointer (a failed allocation, or a device list left
  incomplete), and a loop with an \<open>int\<close> counter over \<open>2\<^sup>3\<^sup>1\<close> items.\<close>

definition srv_undef :: "c_undef set" where
  "srv_undef = {BadShift, UninitRead, NullDeref, IntOverflow}"

lemma srv_undefI [simp, intro]:
  "BadShift \<in> srv_undef" "UninitRead \<in> srv_undef" "NullDeref \<in> srv_undef" "IntOverflow \<in> srv_undef"
  by (simp_all add: srv_undef_def)

abbreviation keeps_srv :: "c_uint \<Rightarrow> ('a \<Rightarrow> bool) \<Rightarrow> ('p, 'a) srv_prog \<Rightarrow> bool" where
  "keeps_srv n \<equiv> keeps (srv_ok n) srv_undef"

definition cb_ok :: "'f option \<Rightarrow> ('f \<Rightarrow> bool) \<Rightarrow> bool" where
  "cb_ok f P \<longleftrightarrow> (\<forall>g. f = Some g \<longrightarrow> P g)"

lemma cb_okD: "cb_ok f P \<Longrightarrow> f = Some g \<Longrightarrow> P g"
  by (simp add: cb_ok_def)

definition srv_wf :: "'p cswp_server_state_t \<Rightarrow> bool" where
  "srv_wf s \<longleftrightarrow> srv_ok (deviceCount s) s"

definition impl_ok :: "'p cswp_server_impl_t option \<Rightarrow> bool" where
  "impl_ok impl \<longleftrightarrow> (\<forall>n.
     cb_ok (cb impl init_cb) (keeps srv_wf srv_undef (\<lambda>_. True)) \<and>
     cb_ok (cb impl term_cb) (keeps_srv n (\<lambda>_. True)) \<and>
     cb_ok (cb impl init_devices_cb) (\<lambda>f. \<forall>m. keeps_srv n (\<lambda>_. True) (f m)) \<and>
     cb_ok (cb impl clear_devices_cb) (keeps_srv n (\<lambda>_. True)) \<and>
     cb_ok (cb impl device_add_cb) (\<lambda>f. \<forall>i t. keeps_srv n (\<lambda>_. True) (f i t)) \<and>
     cb_ok (cb impl device_open_cb) (\<lambda>f. \<forall>d. keeps_srv n (\<lambda>_. True) (f d)) \<and>
     cb_ok (cb impl device_close_cb) (\<lambda>f. \<forall>d. keeps_srv n (\<lambda>_. True) (f d)) \<and>
     cb_ok (cb impl set_config_cb) (\<lambda>f. \<forall>d k v. keeps_srv n (\<lambda>_. True) (f d k v)) \<and>
     cb_ok (cb impl get_config_cb) (\<lambda>f. \<forall>d k sz. keeps_srv n (\<lambda>_. True) (f d k sz)) \<and>
     cb_ok (cb impl get_device_capabilities_cb) (\<lambda>f. \<forall>d. keeps_srv n (\<lambda>_. True) (f d)) \<and>
     cb_ok (cb impl register_list_build_cb) (\<lambda>f. \<forall>d. keeps_srv n (\<lambda>_. True) (f d)) \<and>
     cb_ok (cb impl register_read_cb) (\<lambda>f. \<forall>d r. keeps_srv n (\<lambda>_. True) (f d r)) \<and>
     cb_ok (cb impl register_write_cb) (\<lambda>f. \<forall>d r v. keeps_srv n (\<lambda>_. True) (f d r v)) \<and>
     cb_ok (cb impl mem_read_cb) (\<lambda>f. \<forall>d a sz w fl p.
        keeps_srv n (\<lambda>q. unat sz \<le> length (block q)) (f d a sz w fl p)) \<and>
     cb_ok (cb impl mem_write_cb) (\<lambda>f. \<forall>d a sz w fl p. keeps_srv n (\<lambda>_. True) (f d a sz w fl p)) \<and>
     cb_ok (cb impl mem_poll_cb) (\<lambda>f. \<forall>d a sz w fl t i m v p.
        keeps_srv n (\<lambda>q. unat sz \<le> length (block q)) (f d a sz w fl t i m v p)) \<and>
     cb_ok (cb impl log_cb) (\<lambda>f. \<forall>l m as. keeps_srv n (\<lambda>_. True) (f l m as)))"

text \<open>A block from \<open>malloc\<close> has the requested size.\<close>

definition libc_ok :: "libc \<Rightarrow> bool" where
  "libc_ok os \<longleftrightarrow> (\<forall>n p. malloc os n = Some p \<longrightarrow> length p = unat n)"

subsection \<open>Operations on the server state\<close>

lemma keeps_nth_p:
  assumes "arr_ok n p" and "i < unat n" and "NullDeref \<in> U"
  shows "keeps I U (\<lambda>x. \<exists>xs. p = Some xs \<and> x \<in> set xs) (nth_p p i)"
  using assms by (cases p)
    (auto simp: nth_p_def nth_c_def arr_ok_def simp del: ret_apply intro!: keeps_undef keeps_ret)

lemma keeps_update_p:
  assumes "arr_ok n p" and "i < unat n" and "NullDeref \<in> U"
  shows "keeps I U (\<lambda>q. arr_ok n q \<and> (\<exists>xs. p = Some xs \<and> q = Some (xs[i := v]))) (update_p p i v)"
  using assms by (cases p)
    (auto simp: update_p_def arr_ok_def simp del: ret_apply intro!: keeps_undef keeps_ret)

lemma keeps_for:
  assumes "\<And>k. i \<le> k \<Longrightarrow> k < n \<Longrightarrow> keeps I U (\<lambda>_. True) (body k)"
  shows "keeps I U (\<lambda>_. True) (c_for i n body)"
  using assms
proof (induction "n - i" arbitrary: i)
  case 0
  then have "c_for i n body = ret ()" by (simp add: fun_eq_iff)
  then show ?case by (simp add: keeps_ret del: ret_apply)
next
  case (Suc m)
  then have lt: "i < n" and IH: "keeps I U (\<lambda>_. True) (c_for (Suc i) n body)" by auto
  show ?case unfolding c_for_step [OF lt] by (rule keeps_check [OF Suc.prems [OF _ lt] IH]) simp
qed

lemma keeps_for_int:
  assumes "\<And>k. k < n \<Longrightarrow> keeps I U (\<lambda>_. True) (body k)" and "IntOverflow \<in> U"
  shows "keeps I U (\<lambda>_. True) (c_for_int n body)"
  unfolding c_for_int_def int_incr_def using assms(2)
  by (intro keeps_for keeps_check [OF assms(1)] keeps_if) (auto intro: keeps_ret keeps_undef)

lemma keeps_clear_device_info:
  assumes "dev_ok d"
  shows "keeps I srv_undef dev_ok (cswp_server_clear_device_info d)"
  unfolding cswp_server_clear_device_info_def
proof (intro keeps_case_option)
  fix rs assume rs: "registerInfo d = Some rs"
  have "keeps I srv_undef (\<lambda>_. True)
      (c_for_int (unat (registerCount d)) (\<lambda>i. cswp_check (nth_c rs i) (\<lambda>_. ret ())))"
    using assms rs by (intro keeps_for_int)
      (auto simp: dev_ok_def nth_c_def simp del: ret_apply intro!: keeps_ret)
  then show "keeps I srv_undef dev_ok
      (cswp_check (c_for_int (unat (registerCount d)) (\<lambda>i. cswp_check (nth_c rs i) (\<lambda>_. ret ())))
        (\<lambda>_. ret (d\<lparr>registerInfo := None\<rparr>)))"
    by (rule keeps_check) (auto intro: keeps_ret simp: dev_ok_def)
qed (rule keeps_ret, rule assms)

lemma keeps_callback:
  assumes "cb_ok c (\<lambda>f. keeps I U S (g f))"
  shows "keeps I U (\<lambda>_. True) (case c of None \<Rightarrow> ret () | Some f \<Rightarrow> ignore (g f) (ret ()))"
  by (rule keeps_case_option, rule keeps_ret, simp)
    (rule keeps_ignore [OF cb_okD [OF assms]], assumption, rule keeps_ret, simp)

lemma devs_okD: "devs_ok p \<Longrightarrow> \<exists>xs. p = Some xs \<and> d \<in> set xs \<Longrightarrow> dev_ok d"
  by (auto simp: devs_ok_def)

lemma devs_ok_update:
  "devs_ok p \<Longrightarrow> dev_ok d \<Longrightarrow> \<exists>xs. p = Some xs \<and> q = Some (xs[i := d]) \<Longrightarrow> devs_ok q"
  by (auto simp: devs_ok_def dest!: set_update_subset_insert [THEN subsetD])

lemma srv_okD:
  assumes "srv_ok n s"
  shows "deviceCount s = n" and "arr_ok n (deviceNames s)" and "arr_ok n (deviceTypes s)"
    and "arr_ok n (deviceInfo s)" and "devs_ok (deviceInfo s)"
    and "systemDescription s = Some d \<Longrightarrow> unat (systemDescriptionSize s) \<le> length d"
  using assms by (simp_all add: srv_ok_def)

text \<open>Replacing one element of the device information.\<close>

lemma keeps_set_info:
  assumes "arr_ok n q" and "devs_ok q"
  shows "keeps_srv n (\<lambda>_. True) (modify (\<lambda>s. s\<lparr>deviceInfo := q\<rparr>))"
  by (rule keeps_modify) (use assms in \<open>simp_all add: srv_ok_def\<close>)

lemma keeps_update_info:
  assumes p: "arr_ok n p \<and> devs_ok p" and i: "i < unat n" and d: "dev_ok d" and k: "keeps_srv n R k"
  shows "keeps_srv n R (cswp_check (update_p p i d) (\<lambda>p'.
     cswp_check (modify (\<lambda>s. s\<lparr>deviceInfo := p'\<rparr>)) (\<lambda>_. k)))"
proof (rule keeps_check [OF keeps_update_p [OF conjunct1 [OF p] i srv_undefI(3)]])
  fix q assume q: "arr_ok n q \<and> (\<exists>xs. p = Some xs \<and> q = Some (xs[i := d]))"
  then have "devs_ok q" using devs_ok_update [OF conjunct2 [OF p] d] by blast
  with q have "keeps_srv n (\<lambda>_. True) (modify (\<lambda>s. s\<lparr>deviceInfo := q\<rparr>))" by (intro keeps_set_info) simp_all
  then show "keeps_srv n R (cswp_check (modify (\<lambda>s. s\<lparr>deviceInfo := q\<rparr>)) (\<lambda>_. k))"
    by (rule keeps_check) (rule k)
qed

lemma keeps_device_close_clear:
  assumes "i < unat n"
  shows "keeps_srv n (\<lambda>_. True)
    (cswp_check (gets deviceInfo) (\<lambda>p.
     cswp_check (nth_p p i) (\<lambda>d.
     cswp_check (cswp_server_clear_device_info d) (\<lambda>d'.
     cswp_check (update_p p i d') (\<lambda>p'.
     modify (\<lambda>s. s\<lparr>deviceInfo := p'\<rparr>))))))"
proof (rule keeps_check [where S = "\<lambda>p. arr_ok n p \<and> devs_ok p"], rule keeps_gets)
  fix p :: "cswp_device_info_t list option" assume p: "arr_ok n p \<and> devs_ok p"
  show "keeps_srv n (\<lambda>_. True)
    (cswp_check (nth_p p i) (\<lambda>d.
     cswp_check (cswp_server_clear_device_info d) (\<lambda>d'.
     cswp_check (update_p p i d') (\<lambda>p'.
     modify (\<lambda>s. s\<lparr>deviceInfo := p'\<rparr>)))))"
    by (rule keeps_check [OF keeps_nth_p [OF conjunct1 [OF p] assms srv_undefI(3)]],
        rule keeps_check [OF keeps_clear_device_info], rule devs_okD [OF conjunct2 [OF p]], assumption,
        rule keeps_update_info [OF p assms _ keeps_ret [where x = "()" and R = "\<lambda>_. True", OF TrueI],
          unfolded check_ret_unit], assumption)
qed (simp add: srv_ok_def)

text \<open>The operations with an index below the device count.\<close>

lemma keeps_option_fail:
  assumes "cb_ok c (\<lambda>f. keeps I U R (g f))"
  shows "keeps I U R (case c of None \<Rightarrow> fail e | Some f \<Rightarrow> g f)"
  by (rule keeps_case_option, rule keeps_fail, rule cb_okD [OF assms])

lemma impl_okD:
  assumes "impl_ok impl"
  shows "cb_ok (cb impl init_cb) (keeps srv_wf srv_undef (\<lambda>_. True))"
    and "cb_ok (cb impl term_cb) (keeps_srv n (\<lambda>_. True))"
    and "cb_ok (cb impl init_devices_cb) (\<lambda>f. keeps_srv n (\<lambda>_. True) (f m))"
    and "cb_ok (cb impl clear_devices_cb) (keeps_srv n (\<lambda>_. True))"
    and "cb_ok (cb impl device_add_cb) (\<lambda>f. keeps_srv n (\<lambda>_. True) (f i t))"
    and "cb_ok (cb impl device_open_cb) (\<lambda>f. keeps_srv n (\<lambda>_. True) (f d))"
    and "cb_ok (cb impl device_close_cb) (\<lambda>f. keeps_srv n (\<lambda>_. True) (f d))"
    and "cb_ok (cb impl log_cb) (\<lambda>f. keeps_srv n (\<lambda>_. True) (f l fmt as))"
  using assms unfolding impl_ok_def cb_ok_def by metis+

lemma keeps_implementation_ops [keeps_rules]:
  assumes "impl_ok impl"
  shows "keeps_srv n (\<lambda>_. True) (cswp_server_set_config impl d k v)"
    and "keeps_srv n (\<lambda>_. True) (cswp_server_get_config impl d k sz)"
    and "keeps_srv n (\<lambda>_. True) (cswp_server_get_device_capabilities impl d)"
    and "keeps_srv n (\<lambda>_. True) (cswp_server_reg_list_build impl d)"
    and "keeps_srv n (\<lambda>_. True) (cswp_server_reg_read impl d r)"
    and "keeps_srv n (\<lambda>_. True) (cswp_server_reg_write impl d r w)"
    and "keeps_srv n (\<lambda>q. unat sz \<le> length (block q)) (cswp_server_mem_read impl d a sz acc fl p)"
    and "keeps_srv n (\<lambda>_. True) (cswp_server_mem_write impl d a sz acc fl p')"
    and "keeps_srv n (\<lambda>q. unat sz \<le> length (block q)) (cswp_server_mem_poll impl d a sz acc fl t i m x p)"
  unfolding cswp_server_set_config_def cswp_server_get_config_def
    cswp_server_get_device_capabilities_def cswp_server_reg_list_build_def cswp_server_reg_read_def
    cswp_server_reg_write_def cswp_server_mem_read_def cswp_server_mem_write_def cswp_server_mem_poll_def
  using assms by (intro keeps_option_fail; simp add: impl_ok_def cb_ok_def)+

lemma keeps_server_set_device:
  assumes "impl_ok impl"
  shows "keeps_srv n (\<lambda>_. True) (cswp_server_set_device os impl i name type)"
proof -
  let ?tail = "case cb impl device_add_cb of None \<Rightarrow> ret () | Some f \<Rightarrow> f i (Some (cstr type))"
  have cb: "keeps_srv n (\<lambda>_. True) ?tail"
    by (rule keeps_case_option, rule keeps_ret, simp, rule cb_okD [OF impl_okD(5) [OF assms]])
  have names: "keeps_srv n (arr_ok n) (gets deviceNames)" "keeps_srv n (arr_ok n) (gets deviceTypes)"
    "keeps_srv n (\<lambda>m. m = n) (gets deviceCount)"
    by (rule keeps_gets, simp add: srv_ok_def)+
  have set: "keeps_srv n (\<lambda>_. True) (modify (\<lambda>s. s\<lparr>deviceNames := q\<rparr>))"
    "keeps_srv n (\<lambda>_. True) (modify (\<lambda>s. s\<lparr>deviceTypes := q\<rparr>))" if "arr_ok n q" for q
    by (rule keeps_modify; use that in \<open>simp add: srv_ok_def\<close>)+
  show ?thesis
    unfolding cswp_server_set_device_def
  proof (rule keeps_check [OF names(3)], rule keeps_if, rule keeps_fail, rule keeps_check [OF names(1)])
    fix m :: c_uint and p :: "cstring list option" assume "m = n" and i: "\<not> m \<le> i" and p: "arr_ok n p"
    then have lt: "unat i < unat n" by (simp add: word_le_nat_alt)
    show "keeps_srv n (\<lambda>_. True)
      (cswp_check (update_p p (unat i) (strdup os name)) (\<lambda>p'.
       cswp_check (modify (\<lambda>s. s\<lparr>deviceNames := p'\<rparr>)) (\<lambda>_.
       cswp_check (gets deviceTypes) (\<lambda>p.
       cswp_check (update_p p (unat i) (strdup os type)) (\<lambda>p'.
       cswp_check (modify (\<lambda>s. s\<lparr>deviceTypes := p'\<rparr>)) (\<lambda>_. ?tail))))))"
      by (rule keeps_check [OF keeps_update_p [OF p lt]], simp, rule keeps_check [OF set(1)], simp,
          rule keeps_check [OF names(2)], rule keeps_check [OF keeps_update_p [OF _ lt]], assumption, simp,
          rule keeps_check [OF set(2)], simp, rule cb)
  qed
qed

lemma keeps_server_device_open:
  assumes "impl_ok impl" and lt: "unat i < unat n"
  shows "keeps_srv n (\<lambda>_. True) (cswp_server_device_open impl i sz)"
  unfolding cswp_server_device_open_def Let_def
proof (rule keeps_check [where S = "\<lambda>p. arr_ok n p \<and> devs_ok p"], rule keeps_gets)
  fix p :: "cswp_device_info_t list option" assume p: "arr_ok n p \<and> devs_ok p"
  show "keeps_srv n (\<lambda>_. True)
    (cswp_check (nth_p p (unat i)) (\<lambda>d.
     cswp_check (update_p p (unat i) (d\<lparr>registerCount := 0, registerInfo := None\<rparr>)) (\<lambda>p'.
     cswp_check (modify (\<lambda>s. s\<lparr>deviceInfo := p'\<rparr>)) (\<lambda>_.
     case cb impl device_open_cb of
       None \<Rightarrow> ret (take (unat sz - 1) (bytes_of ''Device '' @ fmt_d i @ bytes_of '' info''))
     | Some f \<Rightarrow> cswp_check (f i) (\<lambda>_. ret (take (unat sz - 1)
            (bytes_of ''Device '' @ fmt_d i @ bytes_of '' info'')))))))"
    by (rule keeps_check [OF keeps_nth_p [OF conjunct1 [OF p] lt srv_undefI(3)]],
        rule keeps_update_info [OF p lt], simp add: dev_ok_def,
        rule keeps_case_option, rule keeps_ret, simp,
        rule keeps_check [OF cb_okD [OF impl_okD(6) [OF assms(1)]]], assumption, rule keeps_ret, simp)
qed (simp add: srv_ok_def)

lemma keeps_server_device_close:
  assumes "impl_ok impl" and lt: "unat i < unat n"
  shows "keeps_srv n (\<lambda>_. True) (cswp_server_device_close impl i)"
  unfolding cswp_server_device_close_def Let_def
  by (rule keeps_case_option, rule keeps_device_close_clear [OF lt],
      rule keeps_attempt [OF cb_okD [OF impl_okD(7) [OF assms(1)]]], assumption,
      rule keeps_check [OF keeps_device_close_clear [OF lt] keeps_fail],
      rule keeps_device_close_clear [OF lt])

text \<open>The operations that change the number of devices.\<close>

lemma srv_ok_wf: "srv_ok n s \<Longrightarrow> srv_wf s"
  by (simp add: srv_wf_def srv_ok_def)

lemma srv_wf_ok: "srv_wf s \<Longrightarrow> \<exists>n. srv_ok n s"
  by (auto simp: srv_wf_def)

lemma keeps_wfI:
  assumes "\<And>n. hoare (srv_ok n) m (\<lambda>x s. srv_wf s \<and> R x) (\<lambda>_. srv_wf) U"
  shows "keeps srv_wf U R m"
  unfolding keeps_def hoare_def
proof (intro allI impI)
  fix s :: "'a cswp_server_state_t" assume "srv_wf s"
  then have "srv_ok (deviceCount s) s" by (simp add: srv_wf_def)
  then show "case m s of Done x s' \<Rightarrow> srv_wf s' \<and> R x | Fail e s' \<Rightarrow> srv_wf s' | Undef u \<Rightarrow> u \<in> U"
    using assms [of "deviceCount s"] unfolding hoare_def by blast
qed

lemma keeps_srv_hoare:
  assumes "keeps_srv n R m"
  shows "hoare (srv_ok n) m (\<lambda>x s. srv_wf s \<and> R x) (\<lambda>_. srv_wf) srv_undef"
    and "hoare (srv_ok n) m (\<lambda>x s. srv_ok n s \<and> R x) (\<lambda>_. srv_wf) srv_undef"
  using assms unfolding keeps_def by (auto elim!: hoare_weaken intro: srv_ok_wf)

lemma keeps_wf: "(\<And>n. keeps_srv n R m) \<Longrightarrow> keeps srv_wf srv_undef R m"
  by (rule keeps_wfI, rule keeps_srv_hoare)

lemma no_devices_ok: "srv_wf s \<Longrightarrow> srv_ok 0 (no_devices s)"
  by (simp add: srv_wf_def srv_ok_def no_devices_def arr_ok_def devs_ok_def)

lemma keeps_server_init:
  assumes "impl_ok impl"
  shows "keeps srv_wf srv_undef (\<lambda>_. True) (cswp_server_init impl)"
  unfolding cswp_server_init_def
  by (rule keeps_check, rule keeps_modify, fold no_devices_def,
      blast intro: srv_ok_wf no_devices_ok, rule TrueI,
      rule keeps_callback [OF impl_okD(1) [OF assms]])

lemma keeps_clear_device:
  assumes i: "i < unat n"
  shows "keeps_srv n (\<lambda>_. True) (clear_device i)"
  unfolding clear_device_def
proof (rule keeps_check [where S = "srv_ok n"], rule keeps_gets, simp)
  fix s :: "'a cswp_server_state_t" assume s: "srv_ok n s"
  note ok = srv_okD [OF s]
  have p: "arr_ok n (deviceInfo s) \<and> devs_ok (deviceInfo s)" using ok(4,5) by simp
  show "keeps_srv n (\<lambda>_. True)
    (cswp_check (nth_p (deviceInfo s) i) (\<lambda>d.
     cswp_check (cswp_server_clear_device_info d) (\<lambda>d'.
     cswp_check (update_p (deviceInfo s) i d') (\<lambda>ds.
     cswp_check (modify (\<lambda>s. s\<lparr>deviceInfo := ds\<rparr>)) (\<lambda>_.
     cswp_check (nth_p (deviceNames s) i) (\<lambda>_.
     cswp_check (nth_p (deviceTypes s) i) (\<lambda>_.
     ret ())))))))"
    by (rule keeps_check [OF keeps_nth_p [OF ok(4) i srv_undefI(3)]],
        rule keeps_check [OF keeps_clear_device_info], rule devs_okD [OF ok(5)], assumption,
        rule keeps_update_info [OF p i], assumption,
        rule keeps_check [OF keeps_nth_p [OF ok(2) i srv_undefI(3)]],
        rule keeps_check [OF keeps_nth_p [OF ok(3) i srv_undefI(3)]], rule keeps_ret, simp)
qed

lemma keeps_clear_loop:
  "keeps_srv n (\<lambda>_. True) (cswp_check (gets deviceCount) (\<lambda>m. c_for 0 (unat m) clear_device))"
  by (rule keeps_check [where S = "\<lambda>m. m = n"], rule keeps_gets, simp add: srv_ok_def,
      rule keeps_for, rule keeps_clear_device, simp)

lemma keeps_server_clear_devices:
  assumes "impl_ok impl"
  shows "keeps srv_wf srv_undef (\<lambda>_. True) (cswp_server_clear_devices impl)"
proof -
  have no_dev: "keeps srv_wf srv_undef (\<lambda>_. True) (modify no_devices)"
    by (rule keeps_modify) (blast intro: srv_ok_wf no_devices_ok)+
  show ?thesis
    unfolding cswp_server_clear_devices_def
    by (rule keeps_check, rule keeps_wf, rule keeps_callback [OF impl_okD(4) [OF assms]],
        subst cswp_check_assoc [symmetric],
        rule keeps_check [OF keeps_wf [OF keeps_clear_loop] no_dev])
qed

lemma keeps_server_term:
  assumes "impl_ok impl"
  shows "keeps srv_wf srv_undef (\<lambda>_. True) (cswp_server_term impl)"
  unfolding cswp_server_term_def
  by (rule keeps_check, rule keeps_wf, rule keeps_callback [OF impl_okD(2) [OF assms]],
      rule keeps_server_clear_devices [OF assms])

lemma server_init_devices:
  assumes "impl_ok impl"
  shows "hoare srv_wf (cswp_server_init_devices os impl n) (\<lambda>_. srv_ok n) (\<lambda>_. srv_wf) srv_undef"
  unfolding cswp_server_init_devices_def
proof (rule hoare_check, rule hoare_modify)
  fix s :: "'a cswp_server_state_t" assume "srv_wf s"
  then show "srv_ok n (s\<lparr>deviceCount := n, deviceNames := calloc os (ucast n) 8 None,
         deviceTypes := calloc os (ucast n) 8 None,
         deviceInfo := calloc os (ucast n) 16 \<lparr>registerCount = 0, registerInfo = None\<rparr>\<rparr>)"
    by (auto simp: srv_wf_def srv_ok_def calloc_def arr_ok_def devs_ok_def dev_ok_def)
next
  show "hoare (srv_ok n) (case cb impl init_devices_cb of None \<Rightarrow> ret () | Some f \<Rightarrow> ignore (f n) (ret ()))
      (\<lambda>_. srv_ok n) (\<lambda>_. srv_wf) srv_undef"
    using keeps_srv_hoare(2) [OF keeps_callback [OF impl_okD(3) [OF assms]]] by simp
qed

subsection \<open>The handlers' state\<close>

text \<open>\<open>ctx_inv w k I\<close>: the server state has \<open>I\<close>, the command buffer is well formed with room for
  \<open>k\<close> more rounds of a reading loop, and the response buffer still holds the bytes \<open>w\<close>.\<close>

definition ctx_inv :: "byte list \<Rightarrow> nat \<Rightarrow> ('p cswp_server_state_t \<Rightarrow> bool) \<Rightarrow> 'p ctx \<Rightarrow> bool" where
  "ctx_inv w k I c \<longleftrightarrow> I (srv c) \<and> unread_below k (cmd c) \<and> at_end (rsp c) \<and> prefix w (written (rsp c))"

abbreviation keeps_ctx ::
  "byte list \<Rightarrow> nat \<Rightarrow> ('p cswp_server_state_t \<Rightarrow> bool) \<Rightarrow> ('a \<Rightarrow> bool) \<Rightarrow> ('p, 'a) handler \<Rightarrow> bool" where
  "keeps_ctx w k I \<equiv> keeps (ctx_inv w k I) srv_undef"

lemma hoare_on_srv:
  assumes "hoare P f Q E U"
  shows "hoare (ctx_inv w k P) (on_srv f) (\<lambda>x. ctx_inv w k (Q x)) (\<lambda>e. ctx_inv w k (E e)) U"
  unfolding on_srv_def
  by (rule hoare_zoom, rule hoare_weaken [OF hoare_at [OF assms]]) (simp_all add: ctx_inv_def)

lemma hoare_on_cmd:
  assumes "hoare (unread_below k) f (\<lambda>x b. unread_below j b \<and> R x) (\<lambda>_. unread_below i) U"
  shows "hoare (ctx_inv w k I) (on_cmd f) (\<lambda>x c. ctx_inv w j I c \<and> R x) (\<lambda>_. ctx_inv w i I) U"
  unfolding on_cmd_def
  by (rule hoare_zoom, rule hoare_weaken [OF hoare_at [OF assms]]) (simp_all add: ctx_inv_def)

lemma keeps_on_srv: "keeps I srv_undef R f \<Longrightarrow> keeps_ctx w k I R (on_srv f)"
  unfolding keeps_def by (drule hoare_on_srv [where w = w and k = k], erule hoare_weaken)
    (auto simp: ctx_inv_def)

lemma keeps_on_cmd_result: "keeps (unread_below k) srv_undef R f \<Longrightarrow> keeps_ctx w k I R (on_cmd f)"
  unfolding keeps_def by (rule hoare_on_cmd)

lemma keeps_on_cmd: "safe srv_undef f \<Longrightarrow> keeps_ctx w k I (\<lambda>_. True) (on_cmd f)"
  by (rule keeps_on_cmd_result [OF safe_keeps])

lemma consumes_on_cmd:
  "consumes srv_undef R f \<Longrightarrow>
   hoare (ctx_inv w k I) (on_cmd f) (\<lambda>x c. ctx_inv w (Suc k) I c \<and> R x) (\<lambda>_. ctx_inv w k I) srv_undef"
  unfolding consumes_def by (rule hoare_on_cmd) blast

lemma writes_hoare:
  assumes "writes U f" and "at_end b"
  shows "hoare (\<lambda>b'. b' = b) f (\<lambda>_ b'. at_end b' \<and> prefix (written b) (written b'))
    (\<lambda>_ b'. at_end b' \<and> prefix (written b) (written b')) U"
  using assms unfolding writes_def hoare_def by blast

lemma keeps_on_rsp:
  assumes "writes srv_undef f"
  shows "keeps_ctx w k I (\<lambda>_. True) (on_rsp f)"
  unfolding keeps_def on_rsp_def
  by (rule hoare_zoom, rule hoare_weaken [OF writes_hoare [OF assms]])
    (auto simp: ctx_inv_def intro: prefix_order.trans)

lemma ctx_inv_mono: "ctx_inv w k I c \<Longrightarrow> j \<le> k \<Longrightarrow> ctx_inv w j I c"
  by (auto simp: ctx_inv_def intro: unread_below_mono)

text \<open>The invariants the handlers work with: a fixed or an arbitrary number of devices.\<close>

definition log_ok :: "'p cswp_server_impl_t option \<Rightarrow> ('p cswp_server_state_t \<Rightarrow> bool) \<Rightarrow> bool" where
  "log_ok impl I \<longleftrightarrow> cb_ok (cb impl log_cb) (\<lambda>f. \<forall>l m as. keeps I srv_undef (\<lambda>_. True) (f l m as))"

lemma impl_ok_log: "impl_ok impl \<Longrightarrow> log_ok impl (srv_ok n)" "impl_ok impl \<Longrightarrow> log_ok impl srv_wf"
  unfolding log_ok_def by (auto simp: impl_ok_def cb_ok_def intro: keeps_wf)

lemma keeps_log:
  assumes "log_ok impl I"
  shows "keeps_ctx w k I (\<lambda>_. True) (CSWP_LOG impl level fmt as)"
  unfolding CSWP_LOG_def
  by (rule keeps_if, rule keeps_case_option, rule keeps_ret, simp, rule keeps_ignore [OF keeps_on_srv])
    (use assms in \<open>auto simp: log_ok_def cb_ok_def intro: keeps_ret\<close>)

lemma writes_error_response: "NullDeref \<in> U \<Longrightarrow> writes U (cswp_encode_error_response t e s)"
  unfolding cswp_encode_error_response_def cswp_encode_response_header_def
  by (intro safe_rules)

lemma keeps_error:
  assumes "log_ok impl I"
  shows "keeps_ctx w k I R (cswp_error impl t e fmt as)"
  unfolding cswp_error_def
  by (rule keeps_case_option, rule keeps_undef, simp, rule keeps_check [OF keeps_log [OF assms]],
      rule keeps_ignore [OF keeps_on_rsp [OF writes_error_response] keeps_fail]) simp

lemma keeps_register_error:
  assumes "log_ok impl I"
  shows "keeps_ctx w k I R (register_error impl c e msg r)"
  unfolding register_error_def
  by (rule keeps_case_option, rule keeps_undef, simp, rule keeps_error [OF assms])

lemma keeps_invalid_device:
  "keeps_ctx w k (srv_ok n) (\<lambda>bad. bad \<longleftrightarrow> d \<ge> ucast n) (gets (invalid_device d))"
  by (rule keeps_gets) (simp add: ctx_inv_def srv_ok_def invalid_device_def)

lemma device_index:
  assumes "\<not> d \<ge> ucast (n :: c_uint)"
  shows "unat (ucast d :: c_uint) = unat (d :: 64 word)" and "unat d < unat n"
proof -
  have "unat d < unat (ucast n :: 64 word)" using assms by (simp add: word_le_nat_alt del: unat_ucast_32_64)
  then show lt: "unat d < unat n" by simp
  have "unat n < 2 ^ LENGTH(32)" by (rule unsigned_less)
  with lt have "d < 0x100000000" by (simp add: word_less_nat_alt)
  then show "unat (ucast d :: c_uint) = unat d" by (rule unat_ucast_64_32)
qed

text \<open>The device-number check of the handlers.\<close>

lemma keeps_device_check:
  assumes "log_ok impl (srv_ok n)"
    and "\<not> d \<ge> ucast n \<Longrightarrow> unat (ucast d :: c_uint) < unat n \<Longrightarrow> keeps_ctx w k (srv_ok n) R body"
  shows "keeps_ctx w k (srv_ok n) R (cswp_check (gets (invalid_device d)) (\<lambda>bad.
     if bad then cswp_error impl t e fmt as else body))"
  by (rule keeps_check [OF keeps_invalid_device], rule keeps_if, rule keeps_error [OF assms(1)],
      rule assms(2)) (simp_all add: device_index)

text \<open>A response that the handler ends with.\<close>

lemma keeps_respond:
  assumes "log_ok impl I" and "writes srv_undef f"
  shows "keeps_ctx w k I (\<lambda>_. True) (attempt (on_rsp f) (\<lambda>res. cswp_error impl t res fmt as) ret)"
  by (rule keeps_attempt [OF keeps_on_rsp [OF assms(2)] keeps_error [OF assms(1)] keeps_ret]) simp

subsection \<open>Decoders and encoders\<close>

lemmas srv_safe_rules = safe_rules srv_undefI

lemma safe_bodies:
  "safe srv_undef (cswp_decode_init_command_body a)"
  "safe srv_undef (cswp_decode_client_info_command_body a)"
  "safe srv_undef cswp_decode_set_devices_command_body"
  "safe srv_undef cswp_decode_device_open_command_body"
  "safe srv_undef cswp_decode_device_close_command_body"
  "safe srv_undef (cswp_decode_set_config_command_body a b)"
  "safe srv_undef (cswp_decode_get_config_command_body a)"
  "safe srv_undef cswp_decode_get_device_capabilities_command_body"
  "safe srv_undef cswp_decode_reg_list_command_body"
  "safe srv_undef cswp_decode_reg_read_command_body"
  "safe srv_undef cswp_decode_reg_write_command_body"
  "safe srv_undef cswp_decode_mem_read_command_body"
  "safe srv_undef cswp_decode_mem_write_command_body"
  "safe srv_undef cswp_decode_mem_poll_command_body"
  "safe srv_undef cswp_decode_command_header"
  unfolding message_defs by (rule srv_safe_rules)+

lemma writes_responses:
  "writes srv_undef (cswp_encode_init_response v (Some t) u)"
  "writes srv_undef cswp_encode_term_response"
  "writes srv_undef cswp_encode_client_info_response"
  "writes srv_undef cswp_encode_set_devices_response"
  "unat sz \<le> length d \<Longrightarrow> writes srv_undef (cswp_encode_get_system_description_response f sz d)"
  "writes srv_undef (cswp_encode_device_open_response s)"
  "writes srv_undef cswp_encode_device_close_response"
  "writes srv_undef cswp_encode_set_config_response"
  "writes srv_undef (cswp_encode_get_config_response s)"
  "writes srv_undef (cswp_encode_get_device_capabilities_response c e)"
  "writes srv_undef (cswp_encode_reg_list_response c)"
  "writes srv_undef (cswp_encode_reg_info r n z m s)"
  "writes srv_undef cswp_encode_reg_write_response"
  "unat sz \<le> length d \<Longrightarrow> writes srv_undef (cswp_encode_mem_read_response sz d)"
  "writes srv_undef cswp_encode_mem_write_response"
  "unat sz \<le> length d \<Longrightarrow> writes srv_undef (cswp_encode_mem_poll_response sz d)"
  unfolding message_defs by (rule srv_safe_rules | assumption)+

lemma writes_nth_p:
  assumes "arr_ok n p" and "i < unat n" and "\<And>x. writes srv_undef (k x)"
  shows "writes srv_undef (cswp_check (nth_p p i) k)"
  using assms by (cases p)
    (auto simp: nth_p_Some nth_p_def [of None] arr_ok_def writes_def cswp_check_def)

lemma writes_get_devices_response:
  assumes "arr_ok n names" and "arr_ok n types"
  shows "writes srv_undef (cswp_encode_get_devices_response (ucast n) names types)"
  unfolding message_defs
  by (intro safe_rules writes_nth_p [OF assms(1)] writes_nth_p [OF assms(2)]) simp_all

lemma writes_reg_read_response:
  assumes "unat n \<le> length vals"
  shows "writes srv_undef (cswp_encode_reg_read_response n vals)"
  unfolding message_defs using assms
  by (intro srv_safe_rules) (simp add: nth_c_def writes_put_uint32 del: ret_apply)

lemma keeps_get_varint: "keeps (unread_below k) srv_undef (\<lambda>w. w = varint_wire w) cswp_buffer_get_varint"
proof (rule keepsI)
  note safe = safe_keeps [OF safe_get_varint [of srv_undef], OF srv_undefI(1)]
  fix b assume b: "unread_below k b"
  { fix w b' assume r: "cswp_buffer_get_varint b = Done w b'"
    from b have "buf_ok b" by (simp add: unread_below_def)
    from get_varint_sext [OF this r] keeps_Done [OF safe b r] show "unread_below k b' \<and> w = varint_wire w"
      by simp }
  { fix e b' assume "cswp_buffer_get_varint b = Fail e b'"
    from keeps_Fail [OF safe b this] show "unread_below k b'" . }
  { fix u assume "cswp_buffer_get_varint b = Undef u"
    from keeps_Undef [OF safe b this] show "u \<in> srv_undef" . }
qed

lemma keeps_reg_read_body:
  "keeps (unread_below k) srv_undef (\<lambda>c. snd c = varint_wire (snd c)) cswp_decode_reg_read_command_body"
  unfolding cswp_decode_reg_read_command_body_def
  by (rule keeps_check [OF keeps_get_varint], rule keeps_check [OF keeps_get_varint], rule keeps_ret) simp

subsection \<open>Handlers that keep the device count\<close>

lemma keeps_gets_srv: "keeps_ctx w k I I (gets srv)"
  by (rule keeps_gets) (simp add: ctx_inv_def)

lemma keeps_client_info:
  assumes "log_ok impl I"
  shows "keeps_ctx w k I (\<lambda>_. True) (cswp_client_info_srv impl)"
  unfolding cswp_client_info_srv_def
  by (rule keeps_attempt [OF keeps_on_cmd [OF safe_bodies(2)] keeps_error [OF assms]],
      rule keeps_check [OF keeps_log [OF assms] keeps_respond [OF assms writes_responses(3)]])

lemma keeps_get_devices:
  assumes "impl_ok impl"
  shows "keeps_ctx w k (srv_ok n) (\<lambda>_. True) (cswp_get_devices_srv impl)"
  unfolding cswp_get_devices_srv_def
proof (rule keeps_check [OF keeps_gets_srv], rule keeps_respond [OF impl_ok_log(1) [OF assms]])
  fix s :: "'a cswp_server_state_t" assume "srv_ok n s"
  note ok = srv_okD [OF this]
  show "writes srv_undef (cswp_encode_get_devices_response (ucast (deviceCount s)) (deviceNames s) (deviceTypes s))"
    unfolding ok(1) by (rule writes_get_devices_response [OF ok(2,3)])
qed

lemma keeps_get_system_description:
  assumes "impl_ok impl"
  shows "keeps_ctx w k (srv_ok n) (\<lambda>_. True) (cswp_get_system_description_srv impl)"
  unfolding cswp_get_system_description_srv_def
  by (rule keeps_check [OF keeps_gets_srv], rule keeps_case_option,
      rule keeps_error [OF impl_ok_log(1) [OF assms]],
      rule keeps_respond [OF impl_ok_log(1) [OF assms]], rule writes_responses(5))
    (simp add: srv_ok_def)

text \<open>The shape of most device handlers: decode, check the device, call the implementation,
  respond.\<close>

lemma keeps_device_handler:
  assumes impl: "impl_ok impl" and dec: "safe srv_undef dec"
    and op: "\<And>n a. unat (ucast (dev a) :: c_uint) < unat n \<Longrightarrow> keeps_srv n (S a) (op a)"
    and rsp: "\<And>a x. S a x \<Longrightarrow> writes srv_undef (enc a x)"
  shows "keeps_ctx w k (srv_ok n) (\<lambda>_. True)
    (attempt (on_cmd dec) (\<lambda>res. cswp_error impl t1 res m1 as1) (\<lambda>a.
     cswp_check (gets (invalid_device (dev a))) (\<lambda>bad.
     if bad then cswp_error impl t2 e2 m2 (as2 a)
     else
       cswp_check (CSWP_LOG impl l3 m3 (as3 a)) (\<lambda>_.
       attempt (on_srv (op a)) (\<lambda>res. cswp_error impl t4 res m4 (as4 a)) (\<lambda>x.
       attempt (on_rsp (enc a x)) (\<lambda>res. cswp_error impl t5 res m5 as5) ret)))))"
  using impl_ok_log(1) [OF impl, of n]
  by (intro keeps_attempt [OF keeps_on_cmd [OF dec] keeps_error] keeps_device_check
      keeps_check [OF keeps_log] keeps_attempt [OF keeps_on_srv [OF op] keeps_error]
      keeps_respond rsp) simp_all

text \<open>The same with the log entry before the check.\<close>

lemma keeps_logged_device_handler:
  assumes impl: "impl_ok impl" and dec: "safe srv_undef dec"
    and op: "\<And>n a. unat (ucast (dev a) :: c_uint) < unat n \<Longrightarrow> keeps_srv n (S a) (op a)"
    and rsp: "\<And>a x. S a x \<Longrightarrow> writes srv_undef (enc a x)"
  shows "keeps_ctx w k (srv_ok n) (\<lambda>_. True)
    (attempt (on_cmd dec) (\<lambda>res. cswp_error impl t1 res m1 as1) (\<lambda>a.
     cswp_check (CSWP_LOG impl l3 m3 (as3 a)) (\<lambda>_.
     cswp_check (gets (invalid_device (dev a))) (\<lambda>bad.
     if bad then cswp_error impl t2 e2 m2 (as2 a)
     else
       attempt (on_srv (op a)) (\<lambda>res. cswp_error impl t4 res m4 (as4 a)) (\<lambda>x.
       attempt (on_rsp (enc a x)) (\<lambda>res. cswp_error impl t5 res m5 as5) ret)))))"
  using impl_ok_log(1) [OF impl, of n]
  by (intro keeps_attempt [OF keeps_on_cmd [OF dec] keeps_error] keeps_device_check
      keeps_check [OF keeps_log] keeps_attempt [OF keeps_on_srv [OF op] keeps_error]
      keeps_respond rsp) simp_all

lemma keeps_device_open:
  "impl_ok impl \<Longrightarrow> keeps_ctx w k (srv_ok n) (\<lambda>_. True) (cswp_device_open_srv impl)"
  unfolding cswp_device_open_srv_def
  by (rule keeps_logged_device_handler [OF _ safe_bodies(4), where dev = "\<lambda>a. a" and S = "\<lambda>_ _. True"])
    (simp_all add: keeps_server_device_open writes_responses)

lemma keeps_device_close:
  "impl_ok impl \<Longrightarrow> keeps_ctx w k (srv_ok n) (\<lambda>_. True) (cswp_device_close_srv impl)"
  unfolding cswp_device_close_srv_def
  by (rule keeps_device_handler [OF _ safe_bodies(5), where dev = "\<lambda>a. a" and S = "\<lambda>_ _. True"])
    (simp_all add: keeps_server_device_close writes_responses)

lemma keeps_set_config:
  "impl_ok impl \<Longrightarrow> keeps_ctx w k (srv_ok n) (\<lambda>_. True) (cswp_set_config_srv impl)"
  unfolding cswp_set_config_srv_def split_def
  by (rule keeps_logged_device_handler [OF _ safe_bodies(6), where dev = fst and S = "\<lambda>_ _. True"])
    (simp_all add: keeps_implementation_ops writes_responses)

lemma keeps_get_config:
  "impl_ok impl \<Longrightarrow> keeps_ctx w k (srv_ok n) (\<lambda>_. True) (cswp_get_config_srv impl)"
  unfolding cswp_get_config_srv_def split_def
  by (rule keeps_logged_device_handler [OF _ safe_bodies(7), where dev = fst and S = "\<lambda>_ _. True"])
    (simp_all add: keeps_implementation_ops writes_responses)

lemma keeps_get_device_capabilities:
  "impl_ok impl \<Longrightarrow> keeps_ctx w k (srv_ok n) (\<lambda>_. True) (cswp_get_device_capabilities_srv impl)"
  unfolding cswp_get_device_capabilities_srv_def split_def
  by (rule keeps_logged_device_handler [OF _ safe_bodies(8), where dev = "\<lambda>a. a" and S = "\<lambda>_ _. True"])
    (simp_all add: keeps_implementation_ops writes_responses)

lemma keeps_mem_read:
  "impl_ok impl \<Longrightarrow> keeps_ctx w k (srv_ok n) (\<lambda>_. True) (cswp_mem_read_srv os impl)"
  unfolding cswp_mem_read_srv_def split_def
  by (rule keeps_device_handler [OF _ safe_bodies(12), where dev = fst
        and S = "\<lambda>a q. unat (fst (snd (snd a))) \<le> length (block q)"])
    (simp_all add: keeps_implementation_ops writes_responses)

lemma safe_mem_write_in: "safe srv_undef mem_write_in"
  and safe_mem_poll_in: "safe srv_undef mem_poll_in"
  unfolding mem_write_in_def mem_poll_in_def
  by (rule safe_bodies(13,14) safe_rules)+

lemma keeps_mem_write:
  "impl_ok impl \<Longrightarrow> keeps_ctx w k (srv_ok n) (\<lambda>_. True) (cswp_mem_write_srv impl)"
  unfolding cswp_mem_write_srv_def split_def mem_write_in_def [symmetric]
  by (rule keeps_device_handler [OF _ safe_mem_write_in, where dev = "\<lambda>a. fst (fst a)" and S = "\<lambda>_ _. True"])
    (simp_all add: keeps_implementation_ops writes_responses)

lemma keeps_mem_poll:
  "impl_ok impl \<Longrightarrow> keeps_ctx w k (srv_ok n) (\<lambda>_. True) (cswp_mem_poll_srv os impl)"
  unfolding cswp_mem_poll_srv_def split_def mem_poll_in_def [symmetric]
  by (rule keeps_device_handler [OF _ safe_mem_poll_in, where dev = "\<lambda>a. fst (fst a)"
        and S = "\<lambda>a q. unat (fst (snd (snd (fst a)))) \<le> length (block q)"])
    (simp_all add: keeps_implementation_ops writes_responses)

subsection \<open>Handlers with a loop\<close>

lemma keeps_gets_info: "keeps_ctx w k (srv_ok n) (\<lambda>p. arr_ok n p \<and> devs_ok p) (gets (\<lambda>c. deviceInfo (srv c)))"
  by (rule keeps_gets) (simp add: ctx_inv_def srv_ok_def)

lemma keeps_reg_list_item:
  assumes "dev_ok d" and "i < unat (registerCount d)"
  shows "keeps_ctx w k I (\<lambda>_. True) (reg_list_item d i)"
  unfolding reg_list_item_def
proof (rule keeps_check [where S = "\<lambda>_. True"])
  show "keeps_ctx w k I (\<lambda>_. True) (nth_p (registerInfo d) i)"
    using assms by (cases "registerInfo d")
      (auto simp: nth_p_Some nth_p_def [of None] dev_ok_def intro!: keeps_undef keeps_ret simp del: ret_apply)
qed (rule keeps_on_rsp [OF writes_responses(12)])

lemma keeps_reg_list:
  assumes impl: "impl_ok impl"
  shows "keeps_ctx w k (srv_ok n) (\<lambda>_. True) (cswp_reg_list_srv impl)"
proof -
  note log = impl_ok_log(1) [OF impl, of n]
  have list: "keeps_ctx w k (srv_ok n) (\<lambda>_. True)
      (cswp_check (gets (\<lambda>c. deviceInfo (srv c))) (\<lambda>p.
       cswp_check (nth_p p (unat (deviceNo :: 64 word))) (\<lambda>d.
       attempt
         (cswp_check (on_rsp (cswp_encode_reg_list_response (ucast (registerCount d)))) (\<lambda>_.
          c_for 0 (unat (registerCount d)) (reg_list_item d)))
         (\<lambda>res. cswp_error impl t res m as) ret)))"
    if lt: "unat deviceNo < unat n" for deviceNo t m as
  proof (rule keeps_check [OF keeps_gets_info])
    fix p :: "cswp_device_info_t list option" assume p: "arr_ok n p \<and> devs_ok p"
    show "keeps_ctx w k (srv_ok n) (\<lambda>_. True) (cswp_check (nth_p p (unat deviceNo)) (\<lambda>d.
       attempt
         (cswp_check (on_rsp (cswp_encode_reg_list_response (ucast (registerCount d)))) (\<lambda>_.
          c_for 0 (unat (registerCount d)) (reg_list_item d)))
         (\<lambda>res. cswp_error impl t res m as) ret))"
      by (rule keeps_check [OF keeps_nth_p [OF conjunct1 [OF p] lt srv_undefI(3)]],
          rule keeps_attempt [OF _ keeps_error [OF log] keeps_ret],
          rule keeps_check [OF keeps_on_rsp [OF writes_responses(11)]], rule keeps_for,
          rule keeps_reg_list_item [OF devs_okD [OF conjunct2 [OF p]]]) simp_all
  qed
  show ?thesis
    unfolding cswp_reg_list_srv_def
    by (rule keeps_attempt [OF keeps_on_cmd [OF safe_bodies(9)] keeps_error [OF log]],
        rule keeps_device_check [OF log],
        rule keeps_ignore [OF keeps_on_srv [OF keeps_implementation_ops(4) [OF impl]]], rule list)
      (simp add: device_index)
qed

text \<open>The block the read loop stores to is large enough, also when the count is negative.\<close>

lemma varint_wire_range:
  assumes "w = varint_wire w"
  shows "unat w < 2 ^ 31 \<or> 2 ^ 64 - 2 ^ 31 \<le> unat w"
proof -
  obtain c :: "32 word" where w: "w = scast c" using assms by (auto simp: varint_wire_def)
  have "sint c < 2 ^ 31" "- (2 ^ 31) \<le> sint c"
    using sint_lt [of c] sint_ge [of c] by simp_all
  moreover have "uint (of_int (sint c) :: 64 word) = take_bit 64 (sint c)"
    by (simp only: unsigned_of_int of_int_eq_id id_apply) simp
  then have "uint w = sint c mod 2 ^ 64"
    by (simp only: w of_int_sint take_bit_eq_mod)
  moreover have "sint c mod 2 ^ 64 = sint c + 2 ^ 64" if "sint c < 0" "- (2 ^ 31) \<le> sint c"
    using that mod_add_self2 [of "sint c" "2 ^ 64"] mod_pos_pos_trivial [of "sint c + 2 ^ 64" "2 ^ 64"]
    by simp
  ultimately show ?thesis
    by (cases "sint c < 0") (auto simp: unat_eq_nat_uint)
qed

lemma reg_block_size:
  assumes "n = varint_wire n" and "k < uint_rounds n"
  shows "4 * (unat (of_nat k :: c_uint) + 1) \<le> unat (n * 4 :: 64 word)"
proof -
  have k32: "unat (of_nat k :: c_uint) < 2 ^ 32" using unsigned_less [of "of_nat k :: c_uint"] by simp
  have mul: "unat (n * 4) = unat n * 4 mod 2 ^ 64" by (simp add: unat_word_ariths)
  from varint_wire_range [OF assms(1)] show ?thesis
  proof
    assume n: "unat n < 2 ^ 31"
    then have "k < unat n" using assms(2) by (simp add: uint_rounds_def word_less_nat_alt)
    moreover from this n have "unat (of_nat k :: c_uint) = k"
      by (simp add: unat_of_nat take_bit_nat_eq_self)
    ultimately show ?thesis using n mul by simp
  next
    assume n: "2 ^ 64 - 2 ^ 31 \<le> unat n"
    have "unat n < 2 ^ LENGTH(64)" by (rule unsigned_less)
    then have "unat n * 4 mod 2 ^ 64 = unat n * 4 - 3 * 2 ^ 64"
      using n by (simp add: le_mod_geq)
    then show ?thesis using n mul k32 by simp
  qed
qed

text \<open>One round of a loop that reads its next item from the command.\<close>

lemma hoare_round:
  assumes "consumes srv_undef R f" and "\<And>e. keeps_ctx w b I (\<lambda>_. False) (h e)"
    and "\<And>x. R x \<Longrightarrow> keeps_ctx w (Suc (b + j)) I S (k x)"
  shows "hoare (ctx_inv w (b + j) I) (attempt (on_cmd f) h k)
    (\<lambda>y c. ctx_inv w (Suc (b + j)) I c \<and> S y) (\<lambda>_. ctx_inv w b I) srv_undef"
proof (rule hoare_attempt [OF consumes_on_cmd [OF assms(1)]])
  show "hoare (ctx_inv w (b + j) I) (h e) (\<lambda>y c. ctx_inv w (Suc (b + j)) I c \<and> S y) (\<lambda>_. ctx_inv w b I) srv_undef" for e
    by (rule hoare_weaken [OF assms(2) [unfolded keeps_def]]) (auto intro: ctx_inv_mono)
  show "hoare (\<lambda>c. ctx_inv w (Suc (b + j)) I c \<and> R x) (k x)
      (\<lambda>y c. ctx_inv w (Suc (b + j)) I c \<and> S y) (\<lambda>_. ctx_inv w b I) srv_undef" for x
    by (rule hoare_weaken [OF keeps_assuming [where p = "R x", OF assms(3)]]) (auto intro: ctx_inv_mono)
qed

lemma ctx_inv_never [simp]: "\<not> ctx_inv w (b + 2 ^ 64) I c"
  by (simp add: ctx_inv_def unread_below_def del: power_numeral)

lemma keeps_read_loop:
  assumes round: "\<And>j acc. j < uint_rounds n \<Longrightarrow> Q j acc \<Longrightarrow> hoare (ctx_inv w (b + j) I) (body j acc)
      (\<lambda>y c. ctx_inv w (Suc (b + j)) I c \<and> Q (Suc j) y) (\<lambda>_. ctx_inv w b I) srv_undef"
    and "Q 0 acc"
  shows "keeps_ctx w b I (Q (uint_rounds n)) (uint_loop n (\<lambda>k. c_fold 0 k body acc))"
proof -
  have "hoare (ctx_inv w (b + 0) I) (c_fold 0 (uint_rounds n) body acc)
      (\<lambda>y c. ctx_inv w (b + uint_rounds n) I c \<and> Q (uint_rounds n) y) (\<lambda>_. ctx_inv w b I) srv_undef"
    by (rule keeps_fold [where J = "\<lambda>j. ctx_inv w (b + j) I"]) (use round assms(2) in simp_all)
  from hoare_uint_loop_ends [where run = "\<lambda>k. c_fold 0 k body acc" and J = "\<lambda>j. ctx_inv w (b + j) I", OF this ctx_inv_never]
  show ?thesis unfolding keeps_def
    by (rule hoare_weaken) (auto intro: ctx_inv_mono)
qed

lemma keeps_reg_read:
  assumes impl: "impl_ok impl" and os: "libc_ok os"
  shows "keeps_ctx w b (srv_ok n) (\<lambda>_. True) (cswp_reg_read_srv os impl)"
proof -
  note log = impl_ok_log(1) [OF impl, of n]
  have store: "keeps_ctx w k (srv_ok n) (\<lambda>_. True) (reg_store (malloc os (m * 4)) j)"
    if "m = varint_wire m" "j < uint_rounds m" for m j k
    using reg_block_size [OF that] os
    by (cases "malloc os (m * 4)")
      (auto simp: reg_store_def libc_ok_def intro!: keeps_undef keeps_ret simp del: ret_apply)
  have loop: "keeps_ctx w b (srv_ok n) (\<lambda>acc. length (snd acc) = uint_rounds m)
      (uint_loop m (\<lambda>k. c_fold 0 k (reg_read_item impl d (malloc os (m * 4))) (None, [])))"
    if m: "m = varint_wire m" for m d
  proof (rule keeps_read_loop)
    fix j and acc :: "64 word option \<times> c_uint list"
    assume j: "j < uint_rounds m" and acc: "length (snd acc) = j"
    show "hoare (ctx_inv w (b + j) (srv_ok n)) (reg_read_item impl d (malloc os (m * 4)) j acc)
        (\<lambda>y c. ctx_inv w (Suc (b + j)) (srv_ok n) c \<and> length (snd y) = Suc j)
        (\<lambda>_. ctx_inv w b (srv_ok n)) srv_undef"
      unfolding reg_read_item_def split_def
      by (rule hoare_round [OF consumes_get_varint], simp, rule keeps_register_error [OF log],
          rule keeps_check [OF keeps_log [OF log]],
          rule keeps_attempt [OF keeps_on_srv [OF keeps_implementation_ops(5) [OF impl]]
            keeps_register_error [OF log]],
          rule keeps_check [OF store [OF m j]], rule keeps_ret) (simp add: acc)
  qed simp
  show ?thesis
    unfolding cswp_reg_read_srv_def split_def
  proof (rule keeps_attempt [OF keeps_on_cmd_result [OF keeps_reg_read_body] keeps_error [OF log]],
      rule keeps_device_check [OF log], rule keeps_check [OF loop], assumption)
    fix c :: "64 word \<times> 64 word" and acc :: "64 word option \<times> c_uint list"
    assume "length (snd acc) = uint_rounds (snd c)"
    moreover have "unat (snd c) < 2 ^ LENGTH(64)" by (rule unsigned_less)
    then have "unat (snd c) \<le> uint_rounds (snd c)" by (simp add: uint_rounds_def)
    ultimately show "keeps_ctx w b (srv_ok n) (\<lambda>_. True)
        (attempt (on_rsp (cswp_encode_reg_read_response (snd c) (snd acc)))
          (\<lambda>res. cswp_error impl (cmd_val CSWP_REG_READ) res ''Failed to encode CSWP_REG_READ response'' []) ret)"
      by (intro keeps_respond [OF log] writes_reg_read_response) simp
  qed
qed

lemma keeps_reg_write:
  assumes impl: "impl_ok impl"
  shows "keeps_ctx w b (srv_ok n) (\<lambda>_. True) (cswp_reg_write_srv impl)"
proof -
  note log = impl_ok_log(1) [OF impl, of n]
  have loop: "keeps_ctx w b (srv_ok n) (\<lambda>_. True)
      (uint_loop m (\<lambda>k. c_fold 0 k (reg_write_item impl d) None))" for m d
  proof (rule keeps_read_loop [where Q = "\<lambda>_ _. True"])
    fix j and acc :: "64 word option"
    show "hoare (ctx_inv w (b + j) (srv_ok n)) (reg_write_item impl d j acc)
        (\<lambda>y c. ctx_inv w (Suc (b + j)) (srv_ok n) c \<and> True) (\<lambda>_. ctx_inv w b (srv_ok n)) srv_undef"
      unfolding reg_write_item_def
      by (rule hoare_round [OF consumes_get_varint], simp, rule keeps_register_error [OF log],
          rule keeps_attempt [OF keeps_on_cmd [OF safe_get_uint32] keeps_register_error [OF log]],
          rule keeps_check [OF keeps_log [OF log]],
          rule keeps_attempt [OF keeps_on_srv [OF keeps_implementation_ops(6) [OF impl]]
            keeps_register_error [OF log] keeps_ret]) simp
  qed simp
  show ?thesis
    unfolding cswp_reg_write_srv_def split_def
    by (rule keeps_attempt [OF keeps_on_cmd [OF safe_bodies(11)] keeps_error [OF log]],
        rule keeps_device_check [OF log],
        rule keeps_check [OF loop keeps_respond [OF log writes_responses(13)]])
qed

subsection \<open>Handlers that change the device count\<close>

lemma keeps_init:
  assumes impl: "impl_ok impl"
  shows "keeps_ctx w k srv_wf (\<lambda>_. True) (cswp_init_srv impl)"
  unfolding cswp_init_srv_def split_def
  by (rule keeps_attempt [OF keeps_on_cmd [OF safe_bodies(1)] keeps_error [OF impl_ok_log(2) [OF impl]]],
      rule keeps_check [OF keeps_log [OF impl_ok_log(2) [OF impl]]],
      rule keeps_check [OF keeps_on_srv [OF keeps_server_init [OF impl]]],
      rule keeps_respond [OF impl_ok_log(2) [OF impl] writes_responses(1)])

lemma keeps_term:
  assumes impl: "impl_ok impl"
  shows "keeps_ctx w k srv_wf (\<lambda>_. True) (cswp_term_srv impl)"
  unfolding cswp_term_srv_def
  by (rule keeps_check [OF keeps_log [OF impl_ok_log(2) [OF impl]]],
      rule keeps_check [OF keeps_on_srv [OF keeps_server_term [OF impl]]],
      rule keeps_respond [OF impl_ok_log(2) [OF impl] writes_responses(2)])

lemma hoare_set_devices_item:
  assumes impl: "impl_ok impl"
  shows "hoare (ctx_inv w (b + j) (srv_ok n)) (set_devices_item os impl i)
    (\<lambda>_. ctx_inv w (b + Suc j) (srv_ok n)) (\<lambda>_. ctx_inv w b (srv_ok n)) srv_undef"
proof -
  note log = impl_ok_log(1) [OF impl, of n]
  have "hoare (ctx_inv w (b + j) (srv_ok n)) (set_devices_item os impl i)
    (\<lambda>y c. ctx_inv w (Suc (b + j)) (srv_ok n) c \<and> True) (\<lambda>_. ctx_inv w b (srv_ok n)) srv_undef"
    unfolding set_devices_item_def
    by (rule hoare_round [OF consumes_get_string], simp, rule keeps_error [OF log],
        rule keeps_attempt [OF keeps_on_cmd [OF safe_get_string] keeps_error [OF log]], simp,
        rule keeps_check [OF keeps_log [OF log]],
        rule keeps_attempt [OF keeps_on_srv [OF keeps_server_set_device [OF impl]] keeps_error [OF log] keeps_ret])
      simp
  then show ?thesis by simp
qed

lemma keeps_ctx_wf: "ctx_inv w k (srv_ok n) c \<Longrightarrow> ctx_inv w k srv_wf c"
  by (auto simp: ctx_inv_def intro: srv_ok_wf)

lemma keeps_set_devices:
  assumes impl: "impl_ok impl"
  shows "keeps_ctx w b srv_wf (\<lambda>_. True) (cswp_set_devices_srv os impl)"
proof -
  note log = impl_ok_log(2) [OF impl]
  have loop: "hoare (ctx_inv w (b + 0) (srv_ok n)) (c_for_uint m (set_devices_item os impl))
      (\<lambda>_. ctx_inv w b srv_wf) (\<lambda>_. ctx_inv w b srv_wf) srv_undef" for n m
  proof -
    have "hoare (ctx_inv w (b + 0) (srv_ok n)) (c_for 0 (uint_rounds m) (\<lambda>i. set_devices_item os impl (of_nat i)))
        (\<lambda>_ c. ctx_inv w (b + uint_rounds m) (srv_ok n) c \<and> True) (\<lambda>_. ctx_inv w b (srv_ok n)) srv_undef"
      using hoare_for_indexed [where J = "\<lambda>j. ctx_inv w (b + j) (srv_ok n)" and i = 0 and n = "uint_rounds m"
          and body = "\<lambda>i. set_devices_item os impl (of_nat i)", OF hoare_set_devices_item [OF impl]]
      by (simp only: le0 simp_thms)
    from hoare_uint_loop_ends [where run = "\<lambda>k. c_for 0 k (\<lambda>i. set_devices_item os impl (of_nat i))"
          and J = "\<lambda>j. ctx_inv w (b + j) (srv_ok n)", OF this ctx_inv_never]
    show ?thesis unfolding c_for_uint_def
      by (rule hoare_weaken) (auto intro: ctx_inv_mono keeps_ctx_wf)
  qed
  have build: "keeps_ctx w b srv_wf (\<lambda>_. True)
      (cswp_check (on_srv (cswp_server_init_devices os impl n)) (\<lambda>_. c_for_uint m (set_devices_item os impl)))"
    for n m
    unfolding keeps_def
    by (rule hoare_check [OF hoare_on_srv [OF server_init_devices [OF impl]]],
        rule hoare_weaken [OF loop]) simp_all
  show ?thesis
    unfolding cswp_set_devices_srv_def
    by (rule keeps_attempt [OF keeps_on_cmd [OF safe_bodies(3)] keeps_error [OF log]],
        rule keeps_check [OF keeps_on_srv [OF keeps_server_clear_devices [OF impl]]],
        subst cswp_check_assoc [symmetric],
        rule keeps_check [OF build keeps_respond [OF log writes_responses(4)]])
qed

subsection \<open>Every command\<close>

lemma keeps_ctx_any:
  assumes m: "\<And>n. keeps_ctx w k (srv_ok n) R m"
  shows "keeps_ctx w k srv_wf R m"
proof (rule keepsI)
  fix c :: "'a ctx" assume "ctx_inv w k srv_wf c"
  then have c: "ctx_inv w k (srv_ok (deviceCount (srv c))) c" by (simp add: ctx_inv_def srv_wf_def)
  { fix x c' assume "m c = Done x c'"
    from keeps_Done [OF m c this] show "ctx_inv w k srv_wf c' \<and> R x" by (blast intro: keeps_ctx_wf) }
  { fix e c' assume "m c = Fail e c'"
    from keeps_Fail [OF m c this] show "ctx_inv w k srv_wf c'" by (rule keeps_ctx_wf) }
  { fix u assume "m c = Undef u"
    from keeps_Undef [OF m c this] show "u \<in> srv_undef" . }
qed

lemma keeps_dispatch:
  assumes "impl_ok impl" and "libc_ok os"
  shows "keeps_ctx w b srv_wf (\<lambda>_. True) (cswp_dispatch_command os impl t)"
  unfolding cswp_dispatch_command_def
  by (intro keeps_if keeps_init keeps_term keeps_set_devices keeps_client_info keeps_ctx_any
      keeps_get_devices keeps_get_system_description keeps_device_open keeps_device_close
      keeps_set_config keeps_get_config keeps_get_device_capabilities keeps_reg_list keeps_reg_read
      keeps_reg_write keeps_mem_read keeps_mem_write keeps_mem_poll keeps_fail keeps_error
      impl_ok_log assms)

lemma keeps_handle_command:
  assumes "impl_ok impl" and "libc_ok os"
  shows "keeps_ctx w b srv_wf (\<lambda>_. True) (cswp_handle_command os impl stateNull)"
  unfolding cswp_handle_command_def
  by (rule keeps_if, rule keeps_fail,
      rule keeps_attempt [OF keeps_on_cmd [OF safe_bodies(15)] keeps_error [OF impl_ok_log(2) [OF assms(1)]]],
      rule keeps_dispatch [OF assms])

text \<open>A command that finds bytes consumes at least one of them, also when it fails: the header is read
  first.\<close>

lemma header_consumes:
  "hoare (\<lambda>c. ctx_inv w k I c \<and> unread (cmd c) \<noteq> []) (on_cmd cswp_decode_command_header)
    (\<lambda>_. ctx_inv w (Suc k) I) (\<lambda>_. ctx_inv w (Suc k) I) srv_undef"
proof -
  have "hoare (\<lambda>b. unread_below k b \<and> unread b \<noteq> []) cswp_buffer_get_varint
      (\<lambda>_. unread_below (Suc k)) (\<lambda>_. unread_below (Suc k)) srv_undef"
  proof (rule hoareI)
    fix b x b' assume b: "unread_below k b \<and> unread b \<noteq> []" and r: "cswp_buffer_get_varint b = Done x b'"
    have "consumes srv_undef (\<lambda>w. w = varint_wire w) cswp_buffer_get_varint" by (rule consumes_get_varint) simp
    then show "unread_below (Suc k) b'" using b r unfolding consumes_def by (blast dest: hoare_Done)
  next
    fix b e b' assume b: "unread_below k b \<and> unread b \<noteq> []" and r: "cswp_buffer_get_varint b = Fail e b'"
    then have ok: "buf_ok b" by (simp add: unread_below_def)
    from r obtain m where m: "varint_parse 0 0 0 (unread b) = Fail e m" "b' = adv m b"
      by (auto simp: get_varint_parse [OF ok] lift_adv_def split: outcome.splits)
    have "0 < m \<and> m \<le> length (unread b)"
      using varint_parse_Fail [OF m(1)] b by auto
    moreover from this have "length (unread b') = length (unread b) - m" using ok m(2) by (simp add: unread_adv)
    ultimately show "unread_below (Suc k) b'" using b ok m(2) unfolding unread_below_def by (simp only: adv_ok) linarith
  next
    fix b u assume "unread_below k b \<and> unread b \<noteq> []" and "cswp_buffer_get_varint b = Undef u"
    then show "u \<in> srv_undef" using keeps_Undef [OF safe_keeps [OF safe_get_varint]] by blast
  qed
  then show ?thesis
    unfolding cswp_decode_command_header_def on_cmd_def
    by (intro hoare_zoom) (auto simp: hoare_def ctx_inv_def split: outcome.splits)
qed

lemma handle_command_consumes:
  assumes "impl_ok impl" and "libc_ok os"
  shows "hoare (\<lambda>c. ctx_inv w k srv_wf c \<and> unread (cmd c) \<noteq> []) (cswp_handle_command os impl False)
    (\<lambda>_. ctx_inv w (Suc k) srv_wf) (\<lambda>_. ctx_inv w (Suc k) srv_wf) srv_undef"
proof -
  have err: "hoare (ctx_inv w (Suc k) srv_wf) (cswp_error impl t e msg [] :: ('a, unit) handler)
      (\<lambda>_. ctx_inv w (Suc k) srv_wf) (\<lambda>_. ctx_inv w (Suc k) srv_wf) srv_undef" for t e msg
    by (rule hoare_weaken [OF keeps_error [where R = "\<lambda>_. True", OF impl_ok_log(2) [OF assms(1)], unfolded keeps_def]]) simp_all
  have run: "hoare (ctx_inv w (Suc k) srv_wf) (cswp_dispatch_command os impl t)
      (\<lambda>_. ctx_inv w (Suc k) srv_wf) (\<lambda>_. ctx_inv w (Suc k) srv_wf) srv_undef" for t
    by (rule hoare_weaken [OF keeps_dispatch [OF assms, unfolded keeps_def]]) simp_all
  show ?thesis
    unfolding cswp_handle_command_def if_False by (rule hoare_attempt [OF header_consumes err run])
qed

end
