(* ===== verification/Target_Safety.thy ===== *)
theory Target_Safety
  imports Target_Refines Server_Safety
begin

text \<open>
  The server program on arbitrary input. Every round of the loop over the commands of a request
  consumes a byte, so the loop ends within \<open>used + 1\<close> rounds; whatever the bytes of the request
  are, the response buffer stays well formed and no access leaves an object.
\<close>

lemma command_consumes:
  assumes "impl_ok impl" and "libc_ok os" and "ctx_inv w 0 srv_wf c" and "unread (cmd c) \<noteq> []"
  shows "case cswp_handle_command os impl False c of
      Done _ c' \<Rightarrow> ctx_inv w 0 srv_wf c' \<and> length (unread (cmd c')) < length (unread (cmd c))
    | Fail e c' \<Rightarrow> ctx_inv w 0 srv_wf c' \<and> length (unread (cmd c')) < length (unread (cmd c))
    | Undef u \<Rightarrow> u \<in> srv_undef"
proof -
  define k where "k = 2 ^ 64 - 1 - length (unread (cmd c))"
  have ok: "buf_ok (cmd c)" using assms(3) by (simp add: ctx_inv_def unread_below_def)
  have small: "length (unread (cmd c)) < 2 ^ 64" using assms(3) by (simp add: ctx_inv_def unread_below_def)
  then have k: "length (unread (cmd c)) + k = 2 ^ 64 - 1" by (simp add: k_def)
  then have "ctx_inv w k srv_wf c \<and> unread (cmd c) \<noteq> []"
    using assms(3,4) ok by (simp add: ctx_inv_def unread_below_def)
  then have "case cswp_handle_command os impl False c of
      Done _ c' \<Rightarrow> ctx_inv w (Suc k) srv_wf c' | Fail e c' \<Rightarrow> ctx_inv w (Suc k) srv_wf c' | Undef u \<Rightarrow> u \<in> srv_undef"
    using handle_command_consumes [OF assms(1,2), of w k] by (simp add: hoare_def)
  moreover have "length (unread (cmd c')) < length (unread (cmd c)) \<and> ctx_inv w 0 srv_wf c'"
    if "ctx_inv w (Suc k) srv_wf c'" for c' :: "'a ctx"
  proof -
    have "length (unread (cmd c')) + Suc k < 2 ^ 64" using that by (simp add: ctx_inv_def unread_below_def)
    moreover have "ctx_inv w 0 srv_wf c'" by (rule ctx_inv_mono [OF that]) simp
    ultimately show ?thesis using k by linarith
  qed
  ultimately show ?thesis by (auto split: outcome.splits)
qed

lemma run_commands_safe:
  assumes "impl_ok impl" and "libc_ok os" and "ctx_inv w 0 srv_wf c" and "length (unread (cmd c)) < fuel"
  shows "case run_commands fuel os impl n a i res c of
      Done _ c' \<Rightarrow> ctx_inv w 0 srv_wf c' | Fail e c' \<Rightarrow> False | Undef u \<Rightarrow> u \<in> srv_undef"
  using assms(3,4)
proof (induction fuel arbitrary: c i res)
  case (Suc fuel)
  show ?case
  proof (cases "ucast i < n \<and> bpos (cmd c) < bused (cmd c)")
    case True
    then have "unread (cmd c) \<noteq> []"
      using length_unread [of "cmd c"] Suc.prems(1) by (auto simp: ctx_inv_def unread_below_def word_less_nat_alt)
    note step = command_consumes [OF assms(1,2) Suc.prems(1) this]
    have next_ok: "case run_commands fuel os impl n a (i + 1) e c' of
        Done _ c' \<Rightarrow> ctx_inv w 0 srv_wf c' | Fail e c' \<Rightarrow> False | Undef u \<Rightarrow> u \<in> srv_undef"
      if "ctx_inv w 0 srv_wf c' \<and> length (unread (cmd c')) < length (unread (cmd c))" for e c'
      using that Suc.prems(2) by (intro Suc.IH) auto
    show ?thesis
      using True step next_ok [of _ 0] next_ok
      by (cases "cswp_handle_command os impl False c"; cases a) (auto simp: Let_def cswp_check_def gets_def attempt_def)
  next
    case False
    then show ?thesis using Suc.prems(1) by (auto simp: Let_def cswp_check_def gets_def)
  qed
qed simp

text \<open>The parts of the command buffer that reading leaves alone.\<close>

definition serving :: "size_t \<Rightarrow> 'p ctx \<Rightarrow> bool" where
  "serving n c \<longleftrightarrow> srv_wf (srv c) \<and> buf_ok (cmd c) \<and> bused (cmd c) = n \<and> buf_ok (rsp c) \<and> 4 \<le> unat (bsize (rsp c))"

lemma serving_read:
  fixes f :: "(CSWP_BUFFER, 'x) prog"
  assumes "safe U f"
  shows "hoare (serving n :: 'p ctx \<Rightarrow> bool) (on_cmd f) (\<lambda>_. serving n) (\<lambda>_. serving n) U"
  unfolding hoare_def
proof (intro allI impI)
  fix c :: "'p ctx"
  assume c: "serving n c"
  then have ok: "buf_ok (cmd c)" by (simp add: serving_def)
  have keep: "serving n (c\<lparr>cmd := b\<rparr>)" if "moved (cmd c) b" for b
    using that c moved_ok [OF ok that] by (auto simp: serving_def moved_def)
  have "case f (cmd c) of Done x b \<Rightarrow> moved (cmd c) b | Fail e b \<Rightarrow> moved (cmd c) b | Undef u \<Rightarrow> u \<in> U"
    using assms ok by (simp add: safe_def)
  then show "case on_cmd f c of Done x c' \<Rightarrow> serving n c' | Fail e c' \<Rightarrow> serving n c' | Undef u \<Rightarrow> u \<in> U"
    using keep by (cases "f (cmd c)") (simp_all add: on_cmd_def zoom_def)
qed

lemma hoare_for_from: "hoare P body (\<lambda>_. P) E U \<Longrightarrow> hoare P (c_for i n (\<lambda>_. body)) (\<lambda>_. P) E U"
  by (rule hoare_for)

lemma ignore_then: "ignore f k = cswp_check (ignore f (ret ())) (\<lambda>_. k)"
  by (rule ext) (simp add: ignore_def cswp_check_def split: outcome.splits)

lemma start_response:
  "hoare (serving n) (cswp_check (on_rsp (modify cswp_buffer_clear)) (\<lambda>_.
      ignore (on_rsp (cswp_buffer_put_uint32 0)) (ignore (on_rsp (cswp_buffer_put_varint v)) (ret ()))))
    (\<lambda>_ c. ctx_inv (le_bytes 4 (0 :: c_uint)) 0 srv_wf c \<and> bused (cmd c) = n) (\<lambda>_ _. False) {}"
proof -
  have run: "\<exists>c'. cswp_check (on_rsp (modify cswp_buffer_clear)) (\<lambda>_.
      ignore (on_rsp (cswp_buffer_put_uint32 0)) (ignore (on_rsp (cswp_buffer_put_varint v)) (ret ()))) c = Done () c'
    \<and> ctx_inv (le_bytes 4 (0 :: c_uint)) 0 srv_wf c' \<and> bused (cmd c') = n"
    if c: "serving n c" for c :: "'a ctx"
  proof -
    let ?c = "c\<lparr>rsp := cswp_buffer_clear (rsp c)\<rparr>"
    have e: "at_end (rsp ?c)" "bused (rsp ?c) = 0" "written (rsp ?c) = []" "4 \<le> unat (bsize (rsp ?c))"
      using c cswp_buffer_clear_at_end [of "rsp c"] by (simp_all add: serving_def cswp_buffer_clear_def written_def)
    obtain b where b: "on_rsp (cswp_buffer_put_uint32 0) ?c = Done () (?c\<lparr>rsp := b\<rparr>)" "at_end b"
        "written b = le_bytes 4 (0 :: c_uint)"
      using on_rsp_emits [OF emits_put_uint32 e(1)] e by auto
    have w: "case cswp_buffer_put_varint v b of Done _ b' \<Rightarrow> at_end b' \<and> prefix (written b) (written b')
        | Fail e b' \<Rightarrow> at_end b' \<and> prefix (written b) (written b') | Undef u \<Rightarrow> u \<in> {}"
      using writes_put_varint [of "{}" v] b(2) unfolding writes_def by blast
    obtain b' where b': "ignore (on_rsp (cswp_buffer_put_varint v)) (ret ()) (c\<lparr>rsp := b\<rparr>) = Done () (c\<lparr>rsp := b'\<rparr>)"
        "at_end b'" "prefix (written b) (written b')"
      using w by (cases "cswp_buffer_put_varint v b") (auto simp: ignore_def on_rsp_def zoom_def)
    have "ctx_inv (le_bytes 4 (0 :: c_uint)) 0 srv_wf (c\<lparr>rsp := b'\<rparr>)"
      using c b b' by (auto simp: ctx_inv_def serving_def unread_below_0)
    then show ?thesis using b(1) b'(1) c
      by (auto simp: ignore_def serving_def on_rsp_modify)
  qed
  show ?thesis using run by (force simp: hoare_def)
qed

lemma cancel_safe:
  fixes w :: "byte list"
  shows "hoare (ctx_inv w 0 srv_wf) (cancel_commands n a e) (\<lambda>_. ctx_inv w 0 srv_wf) (\<lambda>_ _. False)
    (if n < 0x100000000 then srv_undef else insert Endless srv_undef)"
proof -
  have reply: "hoare (ctx_inv w 0 srv_wf) (ignore (on_rsp (cswp_encode_error_response 0 (ucast (res_val CSWP_CANCELLED))
      (Some (bytes_of ''Cancelled'')))) (ret ())) (\<lambda>_. ctx_inv w 0 srv_wf) (\<lambda>_ _. False) srv_undef"
  proof (rule hoare_ignore)
    show "hoare (ctx_inv w 0 srv_wf) (on_rsp (cswp_encode_error_response 0 (ucast (res_val CSWP_CANCELLED))
        (Some (bytes_of ''Cancelled'')))) (\<lambda>_. ctx_inv w 0 srv_wf) (\<lambda>_. ctx_inv w 0 srv_wf) srv_undef"
      by (rule hoare_weaken [OF keeps_on_rsp [OF writes_error_response, unfolded keeps_def]]) simp_all
  qed (rule hoare_ret)
  have rest: "hoare (ctx_inv w 0 srv_wf) (cancel_rest n c) (\<lambda>_. ctx_inv w 0 srv_wf) (\<lambda>_ _. False)
      (if n < 0x100000000 then srv_undef else insert Endless srv_undef)" for c
    unfolding cancel_rest_def by (cases "n < 0x100000000") (simp_all add: hoare_for_from [OF reply] hoare_undef)
  show ?thesis
    unfolding cancel_commands_def split_def
    by (rule hoare_if, rule hoare_ret, assumption, cases a)
      (use rest in \<open>auto intro!: hoare_undef hoare_ret simp del: ret_apply\<close>)
qed

text \<open>The end of a request: the length is stored in front.\<close>

definition send_response :: "('p, byte list) handler" where
  "send_response =
     cswp_check (gets (\<lambda>c. bused (rsp c))) (\<lambda>used.
     cswp_check (on_rsp (poke 0 (len_bytes used))) (\<lambda>_.
     cswp_check (gets rsp) (\<lambda>r.
     cswp_check (hex_dump (bdata r) (bused r)) (\<lambda>_.
     if unat (bused r) \<le> length (bdata r) then ret (take (unat (bused r)) (bdata r))
     else undef OutOfBounds))))"

definition served :: "byte list \<Rightarrow> 'p ctx \<Rightarrow> bool" where
  "served out c \<longleftrightarrow> srv_wf (srv c) \<and> buf_ok (cmd c) \<and> buf_ok (rsp c) \<and> out = written (rsp c)"

lemma send_response_safe:
  fixes U :: "c_undef set"
  shows "hoare (ctx_inv (le_bytes 4 (0 :: c_uint)) 0 srv_wf) send_response served (\<lambda>_ _. False) U"
proof -
  have "\<exists>c'. send_response c = Done (written (rsp c')) c' \<and> served (written (rsp c')) c'"
    if c: "ctx_inv (le_bytes 4 (0 :: c_uint)) 0 srv_wf c" for c :: "'a ctx"
  proof -
    have r: "buf_ok (rsp c)" using c by (simp add: ctx_inv_def at_end_def)
    have "length (le_bytes 4 (0 :: c_uint)) \<le> length (written (rsp c))"
      using c by (simp only: ctx_inv_def prefix_length_le)
    then have "length (len_bytes (bused (rsp c))) \<le> unat (bused (rsp c))"
      using r by (simp add: length_written len_bytes_def)
    from poke_front [OF r this] obtain b where b: "poke 0 (len_bytes (bused (rsp c))) (rsp c) = Done () b" "buf_ok b"
      by auto
    have le: "unat (bused b) \<le> length (bdata b)" using buf_okD [OF b(2)] by linarith
    have "send_response c = Done (written b) (c\<lparr>rsp := b\<rparr>)"
      using b le by (simp add: send_response_def on_rsp_def zoom_def dump_ok written_def del: ret_apply) (simp add: written_def)
    then show ?thesis using c b(2) by (auto simp: served_def ctx_inv_def unread_below_0)
  qed
  then show ?thesis by (force simp: hoare_def)
qed

lemma process_request_serves:
  assumes "impl_ok impl" and "libc_ok os" and "serving (bused (cmd c)) c"
  shows "case process_request os impl c of
      Done out c' \<Rightarrow> served out c' | Fail e c' \<Rightarrow> False | Undef u \<Rightarrow> u \<in> insert Endless srv_undef"
proof -
  let ?U = "insert Endless srv_undef" and ?w = "le_bytes 4 (0 :: c_uint)" and ?n = "bused (cmd c)"
  have ok: "buf_ok (cmd c)" using assms(3) by (simp add: serving_def)
  have stop: "hoare (serving ?n) (undef UninitRead) served (\<lambda>_ _. False) ?U" by (rule hoare_undef) simp
  have dump: "hoare (\<lambda>s. s = c) (hex_dump (bdata (cmd c)) (bused (cmd c))) (\<lambda>_. serving ?n) (\<lambda>_ _. False) ?U"
    using assms(3) by (simp add: hoare_def dump_ok [OF ok])
  have seek: "hoare (serving ?n) (on_cmd (modify (cswp_buffer_seek 0))) (\<lambda>_. serving ?n) (\<lambda>_ _. False) ?U"
    by (auto simp: hoare_def on_cmd_def zoom_def serving_def cswp_buffer_seek_def buf_ok_def)
  have read: "safe ?U cswp_buffer_get_uint32" "safe ?U cswp_buffer_get_varint" "safe ?U cswp_buffer_get_uint8"
    by (rule safe_rules | simp)+
  have run: "hoare (\<lambda>c. ctx_inv ?w 0 srv_wf c \<and> bused (cmd c) = ?n)
      (run_commands (Suc (unat ?n)) os impl n a 0 0) (\<lambda>_. ctx_inv ?w 0 srv_wf) (\<lambda>_ _. False) ?U" for n a
    unfolding hoare_def
  proof (intro allI impI)
    fix c' :: "'a ctx" assume c': "ctx_inv ?w 0 srv_wf c' \<and> bused (cmd c') = ?n"
    then have "length (unread (cmd c')) < Suc (unat ?n)"
      using length_unread [of "cmd c'"] by (simp add: ctx_inv_def unread_below_def)
    from run_commands_safe [OF assms(1,2) _ this, of ?w n a 0 0] c'
    show "case run_commands (Suc (unat ?n)) os impl n a 0 0 c' of
      Done _ c' \<Rightarrow> ctx_inv ?w 0 srv_wf c' | Fail e c' \<Rightarrow> False | Undef u \<Rightarrow> u \<in> ?U"
      by (auto split: outcome.splits simp del: run_commands.simps)
  qed
  have cancel: "hoare (ctx_inv ?w 0 srv_wf) (cancel_commands n a e) (\<lambda>_. ctx_inv ?w 0 srv_wf) (\<lambda>_ _. False) ?U" for n a and e
    by (rule hoare_weaken [OF cancel_safe]) auto
  have start: "hoare (serving ?n) (cswp_check (on_rsp (modify cswp_buffer_clear)) (\<lambda>_.
      ignore (on_rsp (cswp_buffer_put_uint32 0)) (ignore (on_rsp (cswp_buffer_put_varint v)) k)))
      served (\<lambda>_ _. False) ?U"
    if k: "hoare (\<lambda>c. ctx_inv ?w 0 srv_wf c \<and> bused (cmd c) = ?n) k served (\<lambda>_ _. False) ?U"
    for v and k :: "('a, byte list) handler"
  proof -
    have "cswp_check (on_rsp (modify cswp_buffer_clear)) (\<lambda>_.
        ignore (on_rsp (cswp_buffer_put_uint32 0)) (ignore (on_rsp (cswp_buffer_put_varint v)) k))
      = cswp_check (cswp_check (on_rsp (modify cswp_buffer_clear)) (\<lambda>_.
        ignore (on_rsp (cswp_buffer_put_uint32 0)) (ignore (on_rsp (cswp_buffer_put_varint v)) (ret ())))) (\<lambda>_. k)"
      by (rule ext) (simp add: cswp_check_def ignore_def split: outcome.splits)
    then show ?thesis using hoare_check [OF hoare_weaken [OF start_response] k] by auto
  qed
  have "hoare (\<lambda>s. s = c) (process_request os impl) served (\<lambda>_ _. False) ?U"
    unfolding process_request_def send_response_def [symmetric]
  proof (rule hoare_check [OF hoare_gets, where R = "\<lambda>b s. b = cmd c \<and> s = c"], simp, rule hoare_conj_pre, hypsubst)
    show "hoare (\<lambda>s. s = c) (cswp_check (hex_dump (bdata (cmd c)) ?n) (\<lambda>_.
      cswp_check (on_cmd (modify (cswp_buffer_seek 0))) (\<lambda>_.
      attempt (on_cmd cswp_buffer_get_uint32) (\<lambda>_. undef UninitRead) (\<lambda>cmdSize.
      attempt (on_cmd cswp_buffer_get_varint) (\<lambda>_. undef UninitRead) (\<lambda>numCmds.
      cswp_check (attempt (on_cmd cswp_buffer_get_uint8) (\<lambda>_. ret None) (\<lambda>a. ret (Some a))) (\<lambda>abortOnError.
      cswp_check (on_rsp (modify cswp_buffer_clear)) (\<lambda>_.
      ignore (on_rsp (cswp_buffer_put_uint32 0))
      (ignore (on_rsp (cswp_buffer_put_varint numCmds))
      (cswp_check (run_commands (Suc (unat ?n)) os impl numCmds abortOnError 0 0) (\<lambda>end_of_loop.
       cswp_check (cancel_commands numCmds abortOnError end_of_loop) (\<lambda>_. send_response))))))))))) served (\<lambda>_ _. False) ?U"
      by (rule hoare_check [OF dump], rule hoare_check [OF seek],
          rule hoare_attempt [OF serving_read [OF read(1)] stop],
          rule hoare_attempt [OF serving_read [OF read(2)] stop],
          rule hoare_check [OF hoare_attempt [OF serving_read [OF read(3)]]], rule hoare_ret, assumption, rule hoare_ret, assumption,
          rule start, rule hoare_check [OF run], rule hoare_check [OF cancel send_response_safe])
  qed
  then show ?thesis by (simp add: hoare_def)
qed

end
