(* ===== verification/Server_Properties.thy ===== *)
theory Server_Properties
  imports Wire_Properties Target_Safety
begin

text \<open>
  The properties of the server: the command interpreter against the abstract server, its behaviour
  on arbitrary input and on the inputs it refuses. The witnesses run it with no implementation
  behind it (a null callback table), an allocator that succeeds and a server without devices.
\<close>

definition plain_libc :: libc where
  "plain_libc = \<lparr>calloc_ok = \<lambda>_ _. True, malloc = \<lambda>n. Some (replicate (unat n) 0), strdup_ok = \<lambda>_. True\<rparr>"

definition no_impl :: "unit cswp_server_impl_t option" where "no_impl = None"

definition fresh_ctx :: "byte list \<Rightarrow> unit ctx" where
  "fresh_ctx bs = \<lparr>srv = zero_state (), cmd = received_buffer bs, rsp = empty_buffer 64\<rparr>"

lemma plain_libc_ok: "libc_ok plain_libc" "alloc_ok plain_libc"
  by (simp_all add: plain_libc_def libc_ok_def alloc_ok_def)

lemma no_impl_ok: "impl_ok no_impl" "quiet no_impl" "silent no_impl"
  by (simp_all add: no_impl_def impl_ok_def quiet_def silent_def cb_def cb_ok_def)

lemma report_no_impl [simp]: "report no_impl m s = Done () s"
  by (rule silent_report [OF no_impl_ok(3)])

lemma fresh_ctx_simps [simp]:
  "srv (fresh_ctx bs) = zero_state ()" "cmd (fresh_ctx bs) = received_buffer bs" "rsp (fresh_ctx bs) = empty_buffer 64"
  by (simp_all add: fresh_ctx_def)

lemma zero_state_wf: "srv_wf (zero_state p)"
  by (simp add: srv_wf_def srv_ok_def zero_state_def arr_ok_def devs_ok_def)

lemma fresh_ctx_ok:
  assumes "length bs < 2 ^ 64"
  shows "buf_ok (cmd (fresh_ctx bs))" "unread (cmd (fresh_ctx bs)) = bs" "at_end (rsp (fresh_ctx bs))"
    "bused (rsp (fresh_ctx bs)) = 0" "unat (bsize (rsp (fresh_ctx bs))) = 64" "srv_wf (srv (fresh_ctx bs))"
    "buf_ok (rsp (fresh_ctx bs))"
  using assms received_buffer_ok unread_received_buffer empty_buffer_at_end [of 64]
  by (simp_all add: zero_state_wf empty_buffer_def at_end_def)

subsection \<open>The interpreter implements the abstract server\<close>

text \<open>C3: a well-formed command at the front of the command buffer has the effect the abstract server
  gives it: the same server state, the same result code, and a reply whose bytes are appended to
  the response. A successful command is consumed exactly; a refused one is when it drains.\<close>

theorem server_refines_spec:
  assumes "quiet impl" and "alloc_ok os" and "command_ok x"
    and "buf_ok (cmd c)" and "unread (cmd c) = command_bytes x @ zs" and "at_end (rsp c)"
    and "perform os impl x (srv c) = Done (res, r) s" and "reply_ok r"
    and "unat (bused (rsp c)) + length (reply_bytes r) \<le> unat (bsize (rsp c))"
  shows "\<exists>c'. cswp_handle_command os impl False c = (case res of None \<Rightarrow> Done () c' | Some e \<Rightarrow> Fail e c')
    \<and> srv c' = s \<and> written (rsp c') = written (rsp c) @ reply_bytes r
    \<and> (res = None \<or> drains x \<longrightarrow> unread (cmd c') = zs)"
  using answersD [OF answers_command [OF assms(1-3)] assms(4-9)] by (auto simp: answered_def)

theorem server_refines_spec_witness:
  "\<exists>c'. cswp_handle_command plain_libc no_impl False (fresh_ctx (command_bytes (Client_info [104, 105]))) = Done () c'
    \<and> written (rsp c') = reply_bytes (Ack CSWP_CLIENT_INFO)"
proof -
  let ?x = "Client_info [104, 105]"
  have "length (command_bytes ?x) = 4" by code_simp
  then have len: "length (command_bytes ?x) < 2 ^ 64" by simp
  have rep: "length (reply_bytes (Ack CSWP_CLIENT_INFO)) = 2" by code_simp
  show ?thesis
    using server_refines_spec [OF no_impl_ok(2) plain_libc_ok(2), of ?x "fresh_ctx (command_bytes ?x)" "[]" None
        "Ack CSWP_CLIENT_INFO" "zero_state ()"] fresh_ctx_ok [OF len] rep
    by (auto simp: str_ok_def accept_def simp del: reply_bytes.simps)
qed



text \<open>C19: a command that finds bytes consumes at least one of them, also when it is refused, so the
  loop over the commands of a request makes progress.\<close>

theorem server_command_progress:
  assumes "impl_ok impl" and "libc_ok os"
    and "srv_wf (srv c)" and "buf_ok (cmd c)" and "at_end (rsp c)" and "unread (cmd c) \<noteq> []"
  shows "case cswp_handle_command os impl False c of
      Done _ c' \<Rightarrow> length (unread (cmd c')) < length (unread (cmd c))
    | Fail e c' \<Rightarrow> length (unread (cmd c')) < length (unread (cmd c))
    | Undef u \<Rightarrow> u \<noteq> Endless"
proof -
  have "ctx_inv [] 0 srv_wf c" using assms(3-5) by (simp add: ctx_inv_def unread_below_0)
  from command_consumes [OF assms(1,2) this assms(6)] show ?thesis
    by (auto simp: srv_undef_def split: outcome.splits)
qed

theorem server_command_progress_witness:
  "case cswp_handle_command plain_libc no_impl False (fresh_ctx [0xFF]) of
      Done _ c' \<Rightarrow> unread (cmd c') = [] | Fail e c' \<Rightarrow> unread (cmd c') = [] | Undef u \<Rightarrow> u \<noteq> Endless"
  using server_command_progress [OF no_impl_ok(1) plain_libc_ok(1), of "fresh_ctx [0xFF]"] fresh_ctx_ok [of "[0xFF]"]
  by (cases "cswp_handle_command plain_libc no_impl False (fresh_ctx [0xFF])") auto

subsection \<open>What is refused\<close>

lemma text_ok_error: "text_ok (Some (error_text e m))"
  by (simp add: text_ok_def error_text_def)

text \<open>A command of an unknown type is answered with an error reply that carries the type and the
  code \<open>CSWP_UNSUPPORTED\<close>, and only its header is consumed.\<close>

theorem unknown_command_refused:
  assumes "silent impl" and "varint_ok t"
    and "\<And>k. t = cmd_val k \<Longrightarrow> k \<in> {CSWP_NONE, CSWP_IMPLEMENTATION_DEFINED_BEGIN, CSWP_IMPLEMENTATION_DEFINED_END}"
    and "buf_ok (cmd c)" and "unread (cmd c) = varint_enc t @ zs" and "at_end (rsp c)"
    and "c_format (bytes_of ''Unknown message type %d'') [Arg_int t] = Some m"
    and "unat (bused (rsp c)) + length (reply_bytes (Error_reply t (res_val CSWP_UNSUPPORTED)
        (error_text (res_val CSWP_UNSUPPORTED) m))) \<le> unat (bsize (rsp c))"
  shows "\<exists>c'. cswp_handle_command os impl False c = Fail (res_val CSWP_UNSUPPORTED) c' \<and> srv c' = srv c
    \<and> unread (cmd c') = zs
    \<and> written (rsp c') = written (rsp c) @ reply_bytes (Error_reply t (res_val CSWP_UNSUPPORTED)
        (error_text (res_val CSWP_UNSUPPORTED) m))"
proof -
  have t: "t \<noteq> cmd_val k" if "k \<notin> {CSWP_NONE, CSWP_IMPLEMENTATION_DEFINED_BEGIN, CSWP_IMPLEMENTATION_DEFINED_END}" for k
    using assms(3) that by blast
  have "cswp_dispatch_command os impl t
      = (cswp_error impl t (res_val CSWP_UNSUPPORTED) ''Unknown message type %d'' [Arg_int t] :: ('a, unit) handler)"
    by (simp add: cswp_dispatch_command_def t)
  then have run: "answers True (cswp_dispatch_command os impl t) []
      (refuse impl t (res_val CSWP_UNSUPPORTED) ''Unknown message type %d'' [Arg_int t] :: 'a answer)"
    by (simp add: answers_error)
  have "reads cswp_decode_command_header (varint_enc t) t"
    using assms(2) by (simp add: message_defs reads_get_varint)
  then have "answers True (attempt (on_cmd cswp_decode_command_header)
        (\<lambda>res. cswp_error impl (cmd_val CSWP_NONE) res ''Failed to decode command header'' [])
        (cswp_dispatch_command os impl)) (varint_enc t @ [])
      (refuse impl t (res_val CSWP_UNSUPPORTED) ''Unknown message type %d'' [Arg_int t] :: 'a answer)"
    by (rule answers_decode) (rule run)
  then have "answers True (cswp_handle_command os impl False) (varint_enc t @ [])
      (refuse impl t (res_val CSWP_UNSUPPORTED) ''Unknown message type %d'' [Arg_int t] :: 'a answer)"
    by (simp add: cswp_handle_command_def)
  then have "answered True c zs (Some (res_val CSWP_UNSUPPORTED)) (Error_reply t (res_val CSWP_UNSUPPORTED)
      (error_text (res_val CSWP_UNSUPPORTED) m)) (srv c) (cswp_handle_command os impl False c)"
    by (rule answersD [OF _ assms(4)])
      (use assms(5-8) text_ok_error in \<open>simp_all add: refuse_def silent_report [OF assms(1)] del: reply_bytes.simps\<close>)
  then show ?thesis by (auto simp: answered_def)
qed

theorem unknown_command_refused_witness:
  "\<exists>c'. cswp_handle_command plain_libc no_impl False (fresh_ctx [3]) = Fail (res_val CSWP_UNSUPPORTED) c'"
proof -
  let ?m = "bytes_of ''Unknown message type 3''"
  have e: "varint_enc 3 = [3]" by code_simp
  have m: "c_format (bytes_of ''Unknown message type %d'') [Arg_int 3] = Some ?m" by code_simp
  have len: "length (reply_bytes (Error_reply 3 (res_val CSWP_UNSUPPORTED) (error_text (res_val CSWP_UNSUPPORTED) ?m))) = 35"
    by code_simp
  have t: "k \<in> {CSWP_NONE, CSWP_IMPLEMENTATION_DEFINED_BEGIN, CSWP_IMPLEMENTATION_DEFINED_END}" if "3 = cmd_val k" for k
    using that by (cases k) (simp_all add: cmd_val.simps)
  show ?thesis
    using unknown_command_refused [OF no_impl_ok(3), of 3 "fresh_ctx [3]" "[]" ?m plain_libc, OF _ t _ _ _ m]
      fresh_ctx_ok [of "[3]"] len e
    by (auto simp: varint_ok_def)
qed

lemma handle_header:
  assumes "varint_ok t" and "buf_ok (cmd c)" and "unread (cmd c) = varint_enc t @ zs"
  shows "cswp_handle_command os impl False c
      = cswp_dispatch_command os impl t (c\<lparr>cmd := adv (length (varint_enc t)) (cmd c)\<rparr>)"
proof -
  have "reads cswp_decode_command_header (varint_enc t) t"
    using assms(1) by (simp add: message_defs reads_get_varint)
  from on_cmd_reads [OF this assms(2,3)] show ?thesis by (simp add: cswp_handle_command_def)
qed

text \<open>An asynchronous message from a client is refused without a word in the response, although
  the response's header counts it.\<close>

theorem async_message_unanswered:
  assumes "buf_ok (cmd c)" and "unread (cmd c) = varint_enc (cmd_val CSWP_ASYNC_MESSAGE) @ zs"
  shows "\<exists>c'. cswp_handle_command os impl False c = Fail (res_val CSWP_UNSUPPORTED) c'
    \<and> rsp c' = rsp c \<and> srv c' = srv c"
  using handle_header [OF varint_ok_cmd assms] by (simp add: cswp_dispatch_command_def)

theorem async_message_unanswered_witness:
  "\<exists>c'. cswp_handle_command plain_libc no_impl False (fresh_ctx [0x80, 0x20]) = Fail (res_val CSWP_UNSUPPORTED) c'
    \<and> rsp c' = empty_buffer 64"
proof -
  have "varint_enc (cmd_val CSWP_ASYNC_MESSAGE) = [0x80, 0x20]" by code_simp
  then show ?thesis
    using async_message_unanswered [of "fresh_ctx [0x80, 0x20]" "[]" plain_libc no_impl] fresh_ctx_ok [of "[0x80, 0x20]"]
    by auto
qed

lemma check_gets: "cswp_check (gets f) k s = k (f s) s"
  by simp

lemma valid_device: "d < ucast (deviceCount (srv c)) \<Longrightarrow> \<not> invalid_device d c"
  by (simp add: invalid_device_def not_le)

text \<open>A register read that ends before its first register number makes the error path print a
  variable that no round has assigned.\<close>

theorem reg_read_truncated_uninitialised:
  assumes "buf_ok (cmd c)" and "unread (cmd c) = varint_enc (cmd_val CSWP_REG_READ) @ varint_enc d @ varint_enc n"
    and "varint_ok d" and "varint_ok n" and "0 < n" and "d < ucast (deviceCount (srv c))"
  shows "cswp_handle_command os impl False c = Undef UninitRead"
proof -
  let ?c = "c\<lparr>cmd := adv (length (varint_enc (cmd_val CSWP_REG_READ))) (cmd c)\<rparr>"
  have ok: "buf_ok (cmd ?c)" "unread (cmd ?c) = (varint_enc d @ varint_enc n) @ []"
    using assms(1,2) by (simp_all add: adv_ok unread_adv)
  have "reads cswp_decode_reg_read_command_body (varint_enc d @ varint_enc n) (d, n)"
    using assms(3,4) by (rule reads_counts)
  note body = on_cmd_reads [OF this ok]
  let ?d = "?c\<lparr>cmd := adv (length (varint_enc d @ varint_enc n)) (cmd ?c)\<rparr>"
  have end_ok: "buf_ok (cmd ?d)" "unread (cmd ?d) = []"
    using ok by (simp_all add: adv_ok unread_adv del: adv_adv)
  have stop: "on_cmd cswp_buffer_get_varint ?d = Fail (res_val CSWP_BUFFER_EMPTY) ?d"
    using end_ok by (simp add: on_cmd_def zoom_def get_varint_parse del: adv_adv)
  have small: "n < 0x100000000" and pos: "0 < unat n"
    using assms(4,5) by (simp_all add: varint_ok_def word_less_nat_alt)
  have "reg_read_item impl (ucast d) (malloc os (n * 4)) 0 (None, []) ?d = Undef UninitRead"
    using stop by (simp add: reg_read_item_def register_error_def del: adv_adv)
  then have "uint_loop n (\<lambda>k. c_fold 0 k (reg_read_item impl (ucast d) (malloc os (n * 4))) (None, [])) ?d = Undef UninitRead"
    using small by (simp add: uint_loop_def c_fold_step [OF pos] del: adv_adv)
  then have "cswp_reg_read_srv os impl ?c = Undef UninitRead"
    using body assms(6) by (simp add: cswp_reg_read_srv_def valid_device check_gets del: adv_adv)
  then show ?thesis
    using handle_header [OF varint_ok_cmd assms(1,2)] by (simp add: cswp_dispatch_command_def)
qed

definition one_device_ctx :: "byte list \<Rightarrow> unit ctx" where
  "one_device_ctx bs = (fresh_ctx bs)\<lparr>srv := (zero_state ())\<lparr>deviceCount := 1\<rparr>\<rparr>"

theorem reg_read_truncated_uninitialised_witness:
  "cswp_handle_command plain_libc no_impl False (one_device_ctx [0x81, 0x04, 0, 1]) = Undef UninitRead"
proof -
  have e: "varint_enc (cmd_val CSWP_REG_READ) @ varint_enc 0 @ varint_enc 1 = [0x81, 0x04, 0, 1]" by code_simp
  show ?thesis
    using reg_read_truncated_uninitialised [of "one_device_ctx [0x81, 0x04, 0, 1]" 0 1 plain_libc no_impl]
      fresh_ctx_ok [of "[0x81, 0x04, 0, 1]"] e
    by (simp add: one_device_ctx_def varint_ok_def)
qed

lemma error_outcome:
  assumes "silent impl" and "at_end (rsp c)" and "c_format (bytes_of msg) args = Some m"
  shows "\<exists>b. (cswp_error impl t e msg args :: ('p, 'a) handler) c = Fail e (c\<lparr>rsp := b\<rparr>) \<and> at_end b \<and> bsize b = bsize (rsp c)"
proof -
  let ?enc = "cswp_encode_error_response t (scast e) (Some (error_text e m))"
  have "reply_ok (Error_reply t e (error_text e m))" using text_ok_error by simp
  note em = emits_error_reply [OF this]
  have log: "CSWP_LOG impl l m [] c = Done () c" for l m
    using assms(1) by (auto simp: CSWP_LOG_def silent_def ignore_def on_srv_def zoom_def split: option.splits)
  show ?thesis
  proof (cases "unat (bused (rsp c)) + length (reply_bytes (Error_reply t e (error_text e m))) \<le> unat (bsize (rsp c))")
    case True
    obtain b' where "?enc (rsp c) = Done () b'" "at_end b'" "bsize b' = bsize (rsp c)"
      by (rule emits_Done [OF em assms(2) True])
    then show ?thesis
      using assms(3) log by (auto simp: cswp_error_def cswp_check_def ignore_def on_rsp_def zoom_def)
  next
    case False
    obtain b' p where "?enc (rsp c) = Fail (res_val CSWP_BUFFER_FULL) b'" "at_end b'" "bsize b' = bsize (rsp c)"
      by (rule emits_Fail [OF em assms(2) False])
    then show ?thesis
      using assms(3) log by (auto simp: cswp_error_def cswp_check_def ignore_def on_rsp_def zoom_def)
  qed
qed

lemma get_devices_unnamed:
  assumes "deviceNames (srv c) = Some (None # ns)" and "0 < deviceCount (srv c)"
    and "at_end (rsp c)" and "unat (bused (rsp c)) + 30 \<le> unat (bsize (rsp c))"
  shows "cswp_get_devices_srv impl c = Undef NullDeref"
proof -
  let ?n = "ucast (deviceCount (srv c)) :: 64 word"
  let ?h = "cswp_check (cswp_encode_response_header (cmd_val CSWP_GET_DEVICES) 0) (\<lambda>_. cswp_buffer_put_varint ?n)"
  let ?bs = "varint_enc (cmd_val CSWP_GET_DEVICES) @ varint_enc 0 @ varint_enc ?n"
  have em: "emits ?h ?bs"
    by (simp only: message_defs check_ret_unit cswp_check_assoc) (intro emits_check emits_put_varint)
  have len: "length (varint_enc (cmd_val CSWP_GET_DEVICES)) = 1" "length (varint_enc 0) = 1" by code_simp+
  have "unat (bused (rsp c)) + length ?bs \<le> unat (bsize (rsp c))"
    using assms(4) length_varint_enc_le_10 [of ?n] len by simp
  from emits_Done [OF em assms(3) this] obtain b where b: "?h (rsp c) = Done () b" .
  have pos: "0 < unat ?n" using assms(2) by (simp add: word_less_nat_alt unsigned_ucast_eq take_bit_nat_eq_self unsigned_less)
  have "cswp_encode_get_devices_response ?n (deviceNames (srv c)) (deviceTypes (srv c)) (rsp c) = Undef NullDeref"
    using b assms(1) pos
    by (auto simp: cswp_encode_get_devices_response_def cswp_check_def c_for_int_def c_for_step nth_p_Some nth_p_def
        cswp_buffer_put_string_def undef_def ret_def nth_c_def split: outcome.splits)
  then show ?thesis by (simp add: cswp_get_devices_srv_def on_rsp_def zoom_def)
qed

text \<open>A device list that ends before its first name is refused, but the server keeps the number
  of devices with no names. The next request for its devices follows a null pointer.\<close>

theorem failed_set_devices_breaks_get_devices:
  assumes "silent impl" and "cb impl clear_devices_cb = None" and "cb impl init_devices_cb = None"
    and "\<And>n sz. calloc_ok os n sz" and "deviceCount (srv c) = 0"
    and "buf_ok (cmd c)" and "unread (cmd c) = varint_enc (cmd_val CSWP_SET_DEVICES) @ varint_enc n"
    and "varint_ok n" and "0 < n" and "at_end (rsp c)"
    and "buf_ok q" and "unread q = varint_enc (cmd_val CSWP_GET_DEVICES)"
  shows "\<exists>c'. cswp_handle_command os impl False c = Fail (res_val CSWP_BUFFER_EMPTY) c'
    \<and> deviceCount (srv c') = ucast n
    \<and> cswp_handle_command os impl False (c'\<lparr>cmd := q, rsp := empty_buffer 64\<rparr>) = Undef NullDeref"
proof -
  let ?c = "c\<lparr>cmd := adv (length (varint_enc (cmd_val CSWP_SET_DEVICES))) (cmd c)\<rparr>"
  have ok: "buf_ok (cmd ?c)" "unread (cmd ?c) = varint_enc n @ []"
    using assms(6,7) by (simp_all add: adv_ok unread_adv)
  have "reads cswp_decode_set_devices_command_body (varint_enc n) n"
    using assms(8) by (simp add: message_defs reads_get_varint)
  note body = on_cmd_reads [OF this ok]
  let ?d = "?c\<lparr>cmd := adv (length (varint_enc n)) (cmd ?c)\<rparr>"
  have end_ok: "buf_ok (cmd ?d)" "unread (cmd ?d) = []"
    using ok by (simp_all add: adv_ok unread_adv del: adv_adv)
  have small: "n < 0x100000000" and pos: "0 < unat n" and n32: "unat n < 2 ^ 31"
    using assms(8,9) by (simp_all add: varint_ok_def word_less_nat_alt)
  let ?s = "(srv c)\<lparr>deviceCount := ucast n, deviceNames := Some (replicate (unat n) None),
       deviceTypes := Some (replicate (unat n) None),
       deviceInfo := Some (replicate (unat n) \<lparr>registerCount = 0, registerInfo = None\<rparr>)\<rparr>"
  have "unat (ucast n :: c_uint) = unat n" using small by (rule unat_ucast_64_32)
  then have n_eq: "unat (ucast (ucast n :: c_uint) :: 64 word) = unat n"
    by (simp only: unat_ucast_32_64)
  let ?e = "?d\<lparr>srv := ?s\<rparr>"
  have clear: "on_srv (cswp_server_clear_devices impl) ?d = Done () (?d\<lparr>srv := no_devices (srv c)\<rparr>)"
    using assms(2,5) by (simp add: on_srv_def zoom_def cswp_server_clear_devices_def del: adv_adv)
  have init: "on_srv (cswp_server_init_devices os impl (ucast n)) (?d\<lparr>srv := no_devices (srv c)\<rparr>) = Done () ?e"
    using assms(3,4) n_eq
    by (simp add: on_srv_def zoom_def cswp_server_init_devices_def calloc_def no_devices_def del: adv_adv)
  have stop: "on_cmd (cswp_buffer_get_string 256) ?e = Fail (res_val CSWP_BUFFER_EMPTY) ?e"
    using end_ok by (simp add: on_cmd_def zoom_def cswp_buffer_get_string_def get_varint_parse del: adv_adv)
  have e_end: "at_end (rsp ?e)" using assms(10) by simp
  have text_eq: "c_format (bytes_of ''Failed to decode CSWP_SET_DEVICES command - Cannot get device name'') []
      = Some (bytes_of ''Failed to decode CSWP_SET_DEVICES command - Cannot get device name'')" by code_simp
  obtain r where "set_devices_item os impl 0 ?e = Fail (res_val CSWP_BUFFER_EMPTY) (?e\<lparr>rsp := r\<rparr>)"
    using error_outcome [OF assms(1) e_end text_eq, of "cmd_val CSWP_SET_DEVICES" "res_val CSWP_BUFFER_EMPTY"] stop
    by (auto simp: set_devices_item_def simp del: adv_adv)
  then have loop: "c_for_uint n (set_devices_item os impl) ?e = Fail (res_val CSWP_BUFFER_EMPTY) (?e\<lparr>rsp := r\<rparr>)"
    using small by (simp add: c_for_uint_def uint_loop_def c_for_step [OF pos] del: adv_adv)
  have "cswp_set_devices_srv os impl ?c = Fail (res_val CSWP_BUFFER_EMPTY) (?e\<lparr>rsp := r\<rparr>)"
    using body clear init loop by (simp add: cswp_set_devices_srv_def del: adv_adv)
  then have first: "cswp_handle_command os impl False c = Fail (res_val CSWP_BUFFER_EMPTY) (?e\<lparr>rsp := r\<rparr>)"
    using handle_header [OF varint_ok_cmd assms(6,7)] by (simp add: cswp_dispatch_command_def)
  let ?q = "(?e\<lparr>rsp := r\<rparr>)\<lparr>cmd := q, rsp := empty_buffer 64\<rparr>"
  have names: "deviceNames ?s = Some (None # replicate (unat n - 1) None)"
    using pos by (cases "unat n") simp_all
  have cnt: "0 < deviceCount ?s" using pos small by (simp add: word_less_nat_alt unat_ucast_64_32)
  have "cswp_get_devices_srv impl c' = Undef NullDeref"
    if "srv c' = ?s" "rsp c' = empty_buffer 64" for c'
    by (rule get_devices_unnamed) (use that names cnt empty_buffer_at_end [of 64] in \<open>simp_all add: empty_buffer_def\<close>)
  then have "cswp_handle_command os impl False ?q = Undef NullDeref"
    using handle_header [OF varint_ok_cmd, of ?q CSWP_GET_DEVICES "[]"] assms(11,12) by (simp add: cswp_dispatch_command_def)
  then show ?thesis using first by auto
qed

theorem failed_set_devices_breaks_get_devices_witness:
  "\<exists>c'. cswp_handle_command plain_libc no_impl False (fresh_ctx [0x10, 5]) = Fail (res_val CSWP_BUFFER_EMPTY) c'
    \<and> cswp_handle_command plain_libc no_impl False
        (c'\<lparr>cmd := received_buffer [0x11], rsp := empty_buffer 64\<rparr>) = Undef NullDeref"
proof -
  have e: "varint_enc (cmd_val CSWP_SET_DEVICES) @ varint_enc 5 = [0x10, 5]"
    "varint_enc (cmd_val CSWP_GET_DEVICES) = [0x11]" by code_simp+
  show ?thesis
    using failed_set_devices_breaks_get_devices [of no_impl plain_libc "fresh_ctx [0x10, 5]" 5 "received_buffer [0x11]"]
      fresh_ctx_ok [of "[0x10, 5]"] fresh_ctx_ok [of "[0x11]"] e no_impl_ok
    by (auto simp: varint_ok_def no_impl_def cb_def plain_libc_def zero_state_def)
qed

end
