(* ===== verification/Target_Events.thy ===== *)
theory Target_Events
  imports Prelude
begin

text \<open>
  Start and stop of the command thread in \<^verbatim>\<open>target/cswp_server/cswp_server.c\<close>: the events the USB
  function driver sends on endpoint 0. The handlers are functions of the results of the system
  calls they make; \<open>None\<close> is \<open>exit\<close>. The process is a step relation that interleaves events with
  the end of the command thread, which leaves its loop on its own when the connection is closed
  or a write fails.
\<close>

definition INVALID_FD :: int where "INVALID_FD = - 1"

text \<open>\<open>server_state_t\<close>; \<open>thread\<close> tells whether the thread \<open>cmdThreadId\<close> is running.\<close>

record server_state_t =
  active :: bool
  outFd :: int
  inFd :: int
  thread :: bool

definition gServerState :: server_state_t where
  "gServerState = \<lparr>active = False, outFd = INVALID_FD, inFd = INVALID_FD, thread = False\<rparr>"

definition start_command_thread :: "int \<Rightarrow> int \<Rightarrow> bool \<Rightarrow> server_state_t \<Rightarrow> server_state_t option" where
  "start_command_thread ep1 ep2 created s =
     (if \<not> active s then
        let s1 = s\<lparr>outFd := ep1\<rparr> in
        if ep1 < 0 then None
        else let s2 = s1\<lparr>inFd := ep2\<rparr> in
          if ep2 < 0 then None
          else let s3 = s2\<lparr>active := True\<rparr> in
            if \<not> created then None else Some (s3\<lparr>thread := True\<rparr>)
      else Some s)"

text \<open>The descriptors are closed but keep their numbers; \<open>pthread_join\<close> waits for the thread.\<close>

definition stop_command_thread :: "server_state_t \<Rightarrow> server_state_t" where
  "stop_command_thread s = (if active s then s\<lparr>thread := False, active := False\<rparr> else s)"

datatype functionfs_event =
    FUNCTIONFS_BIND | FUNCTIONFS_UNBIND | FUNCTIONFS_ENABLE | FUNCTIONFS_DISABLE
  | FUNCTIONFS_SETUP | FUNCTIONFS_SUSPEND | FUNCTIONFS_RESUME | FUNCTIONFS_UNKNOWN

text \<open>The results of the system calls of one round: the number of bytes \<open>read\<close> returned, the event
  it stored (none when nothing was stored), the two \<open>open\<close> calls and \<open>pthread_create\<close>.\<close>

record ep0_calls =
  read_res :: int
  event :: "functionfs_event option"
  open_ep1 :: int
  open_ep2 :: int
  thread_created :: bool

text \<open>\<open>sizeof (struct usb_functionfs_event)\<close>.\<close>

definition EVENT_SIZE :: size_t where "EVENT_SIZE = 12"

fun ep0_dispatch :: "functionfs_event \<Rightarrow> ep0_calls \<Rightarrow> server_state_t \<Rightarrow> server_state_t option" where
  "ep0_dispatch FUNCTIONFS_BIND k s = start_command_thread (open_ep1 k) (open_ep2 k) (thread_created k) s"
| "ep0_dispatch FUNCTIONFS_UNBIND k s = Some (stop_command_thread s)"
| "ep0_dispatch FUNCTIONFS_ENABLE k s = Some s"
| "ep0_dispatch FUNCTIONFS_DISABLE k s = Some s"
| "ep0_dispatch FUNCTIONFS_SETUP k s = Some s"
| "ep0_dispatch FUNCTIONFS_SUSPEND k s = Some s"
| "ep0_dispatch FUNCTIONFS_RESUME k s = Some s"
| "ep0_dispatch FUNCTIONFS_UNKNOWN k s = Some s"

text \<open>The \<open>ssize_t\<close> result is converted to \<open>size_t\<close> for the comparison with \<open>sizeof\<close>. The program
  result is \<open>None\<close> when the process exits.\<close>

definition ep0_handle :: "ep0_calls \<Rightarrow> (server_state_t, bool) prog" where
  "ep0_handle k s =
     (if (word_of_int (read_res k) :: size_t) < EVENT_SIZE then Done False s
      else case event k of
          None \<Rightarrow> Undef UninitRead
        | Some ev \<Rightarrow> (case ep0_dispatch ev k s of None \<Rightarrow> Done False s | Some s' \<Rightarrow> Done True s'))"

inductive server_step :: "server_state_t \<Rightarrow> server_state_t \<Rightarrow> bool" where
  handled: "ep0_handle k s = Done True s' \<Longrightarrow> server_step s s'"
| thread_ends: "thread s \<Longrightarrow> server_step s (s\<lparr>thread := False\<rparr>)"

inductive reachable :: "server_state_t \<Rightarrow> bool" where
  start: "reachable gServerState"
| step: "reachable s \<Longrightarrow> server_step s s' \<Longrightarrow> reachable s'"

inductive_cases server_stepE: "server_step s s'"

definition server_inv :: "server_state_t \<Rightarrow> bool" where
  "server_inv s \<longleftrightarrow> (thread s \<longrightarrow> active s) \<and> (active s \<longrightarrow> 0 \<le> outFd s \<and> 0 \<le> inFd s)"

lemma start_inv: "server_inv s \<Longrightarrow> start_command_thread a b c s = Some s' \<Longrightarrow> server_inv s' \<and> active s'"
  by (auto simp: start_command_thread_def server_inv_def Let_def split: if_splits)

lemma stop_inv: "server_inv s \<Longrightarrow> server_inv (stop_command_thread s) \<and> \<not> active (stop_command_thread s)
    \<and> \<not> thread (stop_command_thread s)"
  by (auto simp: stop_command_thread_def server_inv_def)

lemma dispatch_inv: "server_inv s \<Longrightarrow> ep0_dispatch ev k s = Some s' \<Longrightarrow> server_inv s'"
  by (cases ev) (auto dest: start_inv stop_inv)

lemma step_inv: "server_step s s' \<Longrightarrow> server_inv s \<Longrightarrow> server_inv s'"
  by (erule server_stepE)
    (auto simp: ep0_handle_def dest: dispatch_inv split: if_splits option.splits, auto simp: server_inv_def)

lemma reachable_inv: "reachable s \<Longrightarrow> server_inv s"
  by (induction rule: reachable.induct) (auto dest: step_inv, simp add: server_inv_def gServerState_def)

end
