(* ===== verification/Target_Properties.thy ===== *)
theory Target_Properties
  imports Server_Properties Target_Events
begin

text \<open>
  The properties of the server program: the answer to a request, its behaviour on arbitrary bytes,
  tracing, writing to the endpoint, and the life of the command thread.
\<close>

subsection \<open>Requests and sessions\<close>

text \<open>A request of well-formed commands is answered by one message whose bytes are those of the
  replies the abstract server gives, and leaves the abstract server's state.\<close>

theorem request_answered:
  assumes "quiet impl" and "alloc_ok os" and "\<And>x. x \<in> set cs \<Longrightarrow> command_ok x" and "length cs < 2 ^ 31"
    and "buf_ok (cmd c)" and "written (cmd c) = request_bytes a cs"
    and "buf_ok (rsp c)" and "length (response_bytes (length cs) rs) \<le> unat (bsize (rsp c))"
    and "perform_batch os impl (a \<noteq> 0) cs (srv c) = Done rs s" and "\<And>r. r \<in> set rs \<Longrightarrow> reply_ok r"
  shows "\<exists>c'. process_request os impl c = Done (response_bytes (length cs) rs) c' \<and> srv c' = s"
  using process_request_batch [OF assms] by auto

lemma written_received_buffer: "length bs < 2 ^ 64 \<Longrightarrow> written (received_buffer bs) = bs"
  by (simp add: written_def received_buffer_def unat_of_nat_small)

theorem request_answered_witness:
  "\<exists>c'. process_request plain_libc no_impl (fresh_ctx (request_bytes 0 [Client_info [104, 105], Get_devices]))
     = Done (response_bytes 2 [Ack CSWP_CLIENT_INFO, Get_devices_reply []]) c'"
proof -
  let ?cs = "[Client_info [104, 105], Get_devices]" and ?rs = "[Ack CSWP_CLIENT_INFO, Get_devices_reply []]"
  have "length (request_bytes 0 ?cs) = 11" by code_simp
  then have len: "length (request_bytes 0 ?cs) < 2 ^ 64" by simp
  have rep: "length (response_bytes (length ?cs) ?rs) = 10" by code_simp
  have run: "perform_batch plain_libc no_impl (0 \<noteq> (0 :: byte)) ?cs (srv (fresh_ctx (request_bytes 0 ?cs)))
      = Done ?rs (zero_state ())"
    by (simp add: accept_def device_list_def zero_state_def items_def cswp_check_def code_def)
  have ok: "command_ok x" if "x \<in> set ?cs" for x using that by (auto simp: str_ok_def)
  have oks: "reply_ok r" if "r \<in> set ?rs" for r using that by (auto simp: count_ok_def)
  have "\<exists>c'. process_request plain_libc no_impl (fresh_ctx (request_bytes 0 ?cs))
      = Done (response_bytes (length ?cs) ?rs) c' \<and> srv c' = zero_state ()"
    by (rule request_answered [OF no_impl_ok(2) plain_libc_ok(2) ok _ _ _ _ _ run oks])
      (use fresh_ctx_ok [OF len] written_received_buffer [OF len] rep in simp_all)
  then show ?thesis by (simp add: numeral_2_eq_2) blast
qed

text \<open>C4: a session of requests that ends with the connection closed gives one response per request,
  each the abstract server's, and the state carries over from one request to the next.\<close>

theorem session_answered:
  assumes "quiet impl" and "alloc_ok os" and "\<And>q. q \<in> set qs \<Longrightarrow> request_ok (bsize (cmd c)) q"
    and "buf_ok (cmd c)" and "buf_ok (rsp c)"
    and "perform_session os impl qs (srv c) = Done rss s"
    and "list_all2 (replies_ok (bsize (rsp c))) qs rss"
    and "cswp_server_term impl s = Done () s'"
  shows "\<exists>c'. run_session os impl (requests_then_close qs) c
      = Done (map2 (\<lambda>q rs. response_bytes (length (snd q)) rs) qs rss, True) c' \<and> srv c' = s'"
  using command_loop_session [OF assms(1-7)] assms(8)
  by (auto simp: run_session_def on_srv_def zoom_def)

definition idle_ctx :: "unit ctx" where
  "idle_ctx = \<lparr>srv = zero_state (), cmd = empty_buffer 64, rsp = empty_buffer 64\<rparr>"

theorem session_answered_witness:
  "\<exists>c'. run_session plain_libc no_impl (requests_then_close [(1, [Client_info [104]]), (0, [Get_devices])]) idle_ctx
     = Done ([response_bytes 1 [Ack CSWP_CLIENT_INFO], response_bytes 1 [Get_devices_reply []]], True) c'"
proof -
  let ?qs = "[(1, [Client_info [104]]), (0, [Get_devices])] :: (byte \<times> command list) list"
    and ?rss = "[[Ack CSWP_CLIENT_INFO], [Get_devices_reply []]]"
  have len: "length (request_bytes 1 [Client_info [104]]) = 9" "length (request_bytes 0 [Get_devices]) = 7"
    "length (response_bytes 1 [Ack CSWP_CLIENT_INFO]) = 7" "length (response_bytes 1 [Get_devices_reply []]) = 8" by code_simp+
  have size: "unat (bsize (cmd idle_ctx)) = 64" "unat (bsize (rsp idle_ctx)) = 64"
    by (simp_all add: idle_ctx_def empty_buffer_def)
  have run: "perform_session plain_libc no_impl ?qs (srv idle_ctx) = Done ?rss (zero_state ())"
    by (simp add: idle_ctx_def accept_def device_list_def zero_state_def items_def cswp_check_def code_def)
  have stop: "cswp_server_term no_impl (zero_state ()) = Done () (no_devices (zero_state ()))"
    by (simp add: cswp_server_term_def cswp_server_clear_devices_def no_impl_def cb_def zero_state_def)
  have "\<exists>c'. run_session plain_libc no_impl (requests_then_close ?qs) idle_ctx
      = Done (map2 (\<lambda>q rs. response_bytes (length (snd q)) rs) ?qs ?rss, True) c' \<and> srv c' = no_devices (zero_state ())"
    by (rule session_answered [OF no_impl_ok(2) plain_libc_ok(2) _ _ _ run _ stop])
      (use len size empty_buffer_at_end [of 64] in
        \<open>auto simp: request_ok_def replies_ok_def str_ok_def count_ok_def at_end_def idle_ctx_def\<close>)
  then show ?thesis by auto
qed



subsection \<open>The end of a batch after an error\<close>

lemma perform_batch_refused:
  assumes "perform_batch os impl True xs s = Done rs s1" and "length rs = length xs"
    and "perform os impl x s1 = Done (Some e, r) s2" and "e \<noteq> 0" and "\<And>y. y \<in> set xs \<Longrightarrow> drains y"
  shows "perform_batch os impl True (xs @ x # ys) s = Done (rs @ r # replicate (Suc (length ys)) cancelled) s2"
  using assms
proof (induction xs arbitrary: s rs)
  case Nil
  then show ?case by (simp add: code_def)
next
  case (Cons c xs)
  from Cons.prems(1) obtain res q t where q: "perform os impl c s = Done (res, q) t"
    by (auto simp: cswp_check_eq_Done)
  have go: "code res = 0"
    using Cons.prems(1,2) q by (auto simp: cswp_check_eq_Done split: if_splits)
  obtain rs' where rs': "perform_batch os impl True xs t = Done rs' s1" "rs = q # rs'"
    using Cons.prems(1) q go by (auto simp: cswp_check_eq_Done split: if_splits)
  show ?case
    using q go rs' Cons.IH [OF rs'(1) _ Cons.prems(3,4)] Cons.prems(2,5)
    by (simp add: cswp_check_def del: replicate_Suc)
qed

text \<open>In a batch that stops at an error the command that failed is answered twice: with its own
  error reply and again with a cancelled reply, so the response holds one reply more than its
  header says.\<close>

theorem aborted_batch_one_reply_too_many:
  assumes "quiet impl" and "alloc_ok os" and "\<And>y. y \<in> set (xs @ x # ys) \<Longrightarrow> command_ok y"
    and "length (xs @ x # ys) < 2 ^ 31"
    and "buf_ok (cmd c)" and "written (cmd c) = request_bytes a (xs @ x # ys)" and "a \<noteq> 0" and "buf_ok (rsp c)"
    and "perform_batch os impl True xs (srv c) = Done rs s1" and "length rs = length xs"
    and "\<And>y. y \<in> set xs \<Longrightarrow> drains y"
    and "perform os impl x s1 = Done (Some e, r) s2" and "e \<noteq> 0"
    and "\<And>q. q \<in> set (rs @ [r]) \<Longrightarrow> reply_ok q"
    and "all = rs @ r # replicate (length ys + 1) cancelled"
    and "length (response_bytes (length (xs @ x # ys)) all) \<le> unat (bsize (rsp c))"
  shows "\<exists>c'. process_request os impl c = Done (response_bytes (length (xs @ x # ys)) all) c'
    \<and> srv c' = s2 \<and> length all = length (xs @ x # ys) + 1"
proof -
  have run: "perform_batch os impl (a \<noteq> 0) (xs @ x # ys) (srv c) = Done all s2"
    using perform_batch_refused [OF assms(9,10,12,13,11)] assms(7,15) by simp
  have "reply_ok cancelled" by (simp add: cancelled_def text_ok_def bytes_of_def)
  then have oks: "reply_ok q" if "q \<in> set all" for q using that assms(14,15) by auto
  show ?thesis
    using process_request_batch [OF assms(1-6,8,16) run oks] assms(10,15) by auto
qed

theorem aborted_batch_one_reply_too_many_witness:
  "\<exists>all c'. process_request plain_libc no_impl (fresh_ctx (request_bytes 1 [Get_system_description]))
     = Done (response_bytes 1 all) c' \<and> length all = 2"
proof -
  let ?x = "Get_system_description" and ?m = "bytes_of ''Failed to get system description''"
  let ?r = "Error_reply (cmd_val CSWP_GET_SYSTEM_DESCRIPTION) (res_val CSWP_UNSUPPORTED) (error_text (res_val CSWP_UNSUPPORTED) ?m)"
  let ?all = "[] @ ?r # replicate (length ([] :: command list) + 1) cancelled"
  have "length (request_bytes 1 [?x]) = 7" by code_simp
  then have len: "length (request_bytes 1 ([] @ ?x # [])) < 2 ^ 64" by simp
  have rep: "length (response_bytes (length ([] @ ?x # [])) ?all) = 62" by code_simp
  have m: "c_format ?m [] = Some ?m" by code_simp
  have run: "perform plain_libc no_impl ?x (srv (fresh_ctx (request_bytes 1 ([] @ ?x # []))))
      = Done (Some (res_val CSWP_UNSUPPORTED), ?r) (zero_state ())"
    by (simp add: description_def zero_state_def refuse_def m)
  have "\<exists>c'. process_request plain_libc no_impl (fresh_ctx (request_bytes 1 ([] @ ?x # [])))
      = Done (response_bytes (length ([] @ ?x # [])) ?all) c' \<and> srv c' = zero_state ()
      \<and> length ?all = length ([] @ ?x # []) + 1"
    by (rule aborted_batch_one_reply_too_many [OF no_impl_ok(2) plain_libc_ok(2) _ _ _ _ _ _ _ _ _ run, where rs = "[]"])
      (use fresh_ctx_ok [OF len] written_received_buffer [OF len] rep text_ok_error in
        \<open>auto simp: res_val.simps empty_buffer_def simp del: replicate_Suc\<close>)
  then show ?thesis by (intro exI [of _ ?all]) (simp add: eval_nat_numeral, blast)
qed

subsection \<open>Tracing\<close>

lemma c_for_undef:
  assumes "\<And>i. a \<le> i \<Longrightarrow> i < j \<Longrightarrow> body i s = Done () s" and "body j s = Undef u" and "a \<le> j" and "j < n"
  shows "c_for a n body s = Undef u"
  using assms
proof (induction "j - a" arbitrary: a)
  case 0
  then have "a = j" by simp
  then show ?case using 0 by (simp add: c_for_step)
next
  case (Suc m)
  then have "a < n" "m = j - Suc a" "a < j" by simp_all
  then show ?case using Suc.prems Suc.hyps(1) by (simp add: c_for_step)
qed

lemma nth_c_outside: "length xs \<le> i \<Longrightarrow> nth_c xs i s = Undef OutOfBounds"
  by (simp add: nth_c_def)

lemma dump_lines_outside:
  "p \<le> length buf \<Longrightarrow> length buf < p + unat sz \<Longrightarrow> dump_lines buf p sz s = Undef OutOfBounds
     \<or> (\<exists>p' sz'. dump_lines buf p sz s = Done (p', sz') s \<and> p' \<le> length buf \<and> length buf < p' + unat sz')"
proof (induction buf p sz s rule: dump_lines.induct)
  case (1 buf p sz s)
  show ?case
  proof (cases "8 < sz")
    case True
    then have m: "unat (sz - 8) = unat sz - 8" "8 < unat sz"
      by (simp_all add: unat_sub word_le_nat_alt word_less_nat_alt)
    let ?line = "c_for 0 8 (\<lambda>i. cswp_check (nth_c buf (p + i)) (\<lambda>_. ret ())) s"
    show ?thesis
    proof (cases "p + 8 \<le> length buf")
      case fits: True
      have line: "?line = Done () s" using fits by (intro c_for_skip) (simp add: nth_c_ok)
      from "1.IH" [OF True line] "1.prems" m fits show ?thesis
        by (subst (1 2) dump_lines.simps) (simp add: True line)
    next
      case False
      have "?line = Undef OutOfBounds"
        by (rule c_for_undef [where j = "length buf - p"])
          (use "1.prems" False in \<open>simp_all add: nth_c_ok nth_c_outside\<close>)
      then show ?thesis by (subst dump_lines.simps) (simp add: True)
    qed
  next
    case False
    then show ?thesis using "1.prems" by (subst (1 2) dump_lines.simps) simp
  qed
qed

lemma dump_rest_outside:
  "p \<le> length buf \<Longrightarrow> length buf < p + unat sz \<Longrightarrow> dump_rest buf p sz s = Undef OutOfBounds"
proof (induction buf p sz s rule: dump_rest.induct)
  case (1 buf p sz s)
  show ?case
  proof (cases "1 < sz")
    case True
    then have m: "unat (sz - 1) = unat sz - 1" "1 < unat sz"
      by (simp_all add: unat_sub word_le_nat_alt word_less_nat_alt)
    show ?thesis
    proof (cases "p < length buf")
      case p: True
      have n: "nth_c buf p s = Done (buf ! p) s" using p by (rule nth_c_ok)
      from "1.IH" [OF True n] "1.prems" m p show ?thesis
        by (subst dump_rest.simps) (simp add: True n)
    next
      case False
      then show ?thesis by (subst dump_rest.simps) (simp add: True nth_c_outside)
    qed
  next
    case False
    have "sz \<noteq> 0" using "1.prems" by auto
    then have "0 < sz" by (simp add: word_neq_0_conv)
    moreover have "unat sz \<le> 1" using False by (simp add: not_less word_le_nat_alt)
    ultimately show ?thesis using False "1.prems"
      by (subst dump_rest.simps) (simp add: nth_c_outside cswp_check_def)
  qed
qed

text \<open>Tracing a buffer reads exactly the bytes it is told to: it has no effect when the buffer has
  them, and reads past the buffer when it has not.\<close>

theorem hex_dump_exact:
  "hex_dump buf sz s = (if unat sz \<le> length buf then Done () s else Undef OutOfBounds)"
  using hex_dump_ok [of sz buf s] dump_lines_outside [of 0 buf sz s]
  by (auto simp: hex_dump_def dump_rest_outside)

text \<open>A read that fails for another reason than a shutdown of the endpoint is not left out: its
  result \<open>-1\<close> becomes the size of the request, and tracing it reads past the buffer.\<close>

theorem failed_read_out_of_bounds:
  assumes "buf_ok (cmd c)" and "unat (bsize (cmd c)) < 2 ^ 64 - 1"
  shows "command_loop os impl ((Read_failed, w) # evs) c = Undef OutOfBounds"
proof -
  have "unat (- 1 :: size_t) = 2 ^ 64 - 1" by (simp add: unsigned_minus_1_eq_mask mask_eq_exp_minus_1)
  then have "\<not> unat (- 1 :: size_t) \<le> length (bdata (cmd c))"
    using assms buf_okD(1) [OF assms(1)] by simp
  then show ?thesis
    by (simp add: process_request_def hex_dump_exact on_cmd_def zoom_def cswp_buffer_clear_def)
qed

theorem failed_read_out_of_bounds_witness:
  "command_loop plain_libc no_impl [(Read_failed, True)] idle_ctx = Undef OutOfBounds"
  by (rule failed_read_out_of_bounds)
    (use empty_buffer_at_end [of 64] in \<open>simp_all add: idle_ctx_def at_end_def empty_buffer_def\<close>)

subsection \<open>Writing a response\<close>

text \<open>The write loop sends a message to its last byte and then returns its length, when the calls of
  \<open>write\<close> take positive parts of it; the first call that takes nothing or fails makes it fail.\<close>

theorem write_msg_usb_sends_all:
  assumes "\<And>n. n \<in> set ns \<Longrightarrow> 0 < n" and "sum_list ns \<le> sz - sent" and "sent \<le> sz"
  shows "write_msg_usb (map Some ns @ rest) sz sent =
    (if sent + sum_list ns = sz then Sent sz
     else case rest of [] \<Rightarrow> Sending (sent + sum_list ns)
       | r # rs \<Rightarrow> if r = None \<or> r = Some 0 then Send_error else write_msg_usb rest sz (sent + sum_list ns))"
  using assms
proof (induction ns arbitrary: sent)
  case Nil
  then show ?case by (cases rest) (auto split: option.splits nat.splits)
next
  case (Cons n ns)
  have "0 < n" and le: "sent + n + sum_list ns \<le> sz" using Cons.prems by force+
  then obtain k where k: "n = Suc k" by (cases n) auto
  have step: "write_msg_usb (map Some (n # ns) @ rest) sz sent = write_msg_usb (map Some ns @ rest) sz (sent + n)"
    using le k by simp
  have total: "sent + sum_list (n # ns) = sent + n + sum_list ns" by simp
  show ?case unfolding step total by (rule Cons.IH) (use Cons.prems(1) le in auto)
qed

theorem write_msg_usb_sends_all_witness:
  "write_msg_usb (map Some [512, 512, 100] @ []) 1124 0 = Sent 1124"
  using write_msg_usb_sends_all [of "[512, 512, 100]" 1124 0 "[]"] by simp

subsection \<open>The life of the command thread\<close>

text \<open>C20: in every reachable state of the server process the command thread runs only while the server
  is marked active, and an active server has both endpoints open.\<close>

theorem command_thread_invariant:
  assumes "reachable s"
  shows "(thread s \<longrightarrow> active s) \<and> (active s \<longrightarrow> 0 \<le> outFd s \<and> 0 \<le> inFd s)"
  using reachable_inv [OF assms] by (simp add: server_inv_def)

definition bind_calls :: ep0_calls where
  "bind_calls = \<lparr>read_res = 12, event = Some FUNCTIONFS_BIND, open_ep1 = 4, open_ep2 = 5, thread_created = True\<rparr>"

lemma bound_reachable: "reachable \<lparr>active = True, outFd = 4, inFd = 5, thread = True\<rparr>"
proof (rule reachable.step [OF reachable.start], rule handled)
  show "ep0_handle bind_calls gServerState = Done True \<lparr>active = True, outFd = 4, inFd = 5, thread = True\<rparr>"
    by (simp add: ep0_handle_def bind_calls_def EVENT_SIZE_def start_command_thread_def gServerState_def INVALID_FD_def
        word_less_nat_alt)
qed

theorem command_thread_invariant_witness:
  "0 \<le> outFd \<lparr>active = True, outFd = 4, inFd = 5, thread = True\<rparr>"
  using command_thread_invariant [OF bound_reachable] by simp

text \<open>C40: once the command thread has ended on its own the server still counts as active. A
  \<open>BIND\<close> event then changes nothing, whatever the system calls would return; only an \<open>UNBIND\<close>
  before it starts the thread again.\<close>

theorem bind_ignored_after_thread_end:
  assumes "reachable s" and "thread s" and "server_step s t" and "t = s\<lparr>thread := False\<rparr>"
    and "12 \<le> read_res k" and "read_res k < 2 ^ 63" and "event k = Some FUNCTIONFS_BIND"
    and "0 \<le> open_ep1 k" and "0 \<le> open_ep2 k" and "thread_created k"
  shows "ep0_handle k t = Done True t \<and> (\<exists>u v. ep0_handle (k\<lparr>event := Some FUNCTIONFS_UNBIND\<rparr>) t = Done True u \<and> ep0_handle k u = Done True v \<and> thread v)"
proof -
  have a: "active t" using reachable_inv [OF assms(1)] assms(2,4) by (simp add: server_inv_def)
  have r: "\<not> (word_of_int (read_res k) :: size_t) < EVENT_SIZE"
    using assms(5,6) by (simp add: EVENT_SIZE_def word_less_def uint_word_of_int_eq take_bit_int_eq_self)
  have ignored: "ep0_handle k t = Done True t"
    using a r assms(7) by (simp add: ep0_handle_def start_command_thread_def)
  have "\<exists>u v. ep0_handle (k\<lparr>event := Some FUNCTIONFS_UNBIND\<rparr>) t = Done True u \<and> ep0_handle k u = Done True v \<and> thread v"
    using a r assms(7-10) by (simp add: ep0_handle_def start_command_thread_def stop_command_thread_def Let_def)
  with ignored show ?thesis ..
qed

theorem bind_ignored_after_thread_end_witness:
  "ep0_handle bind_calls \<lparr>active = True, outFd = 4, inFd = 5, thread = False\<rparr>
     = Done True \<lparr>active = True, outFd = 4, inFd = 5, thread = False\<rparr>"
  using bind_ignored_after_thread_end [OF bound_reachable _ thread_ends, of bind_calls]
  by (simp add: bind_calls_def)

text \<open>A failed read on endpoint 0 is not noticed: its result \<open>-1\<close> is compared as an unsigned
  number, and the event that was never stored is used. A short read ends the process.\<close>

theorem ep0_failed_read_uses_event:
  assumes "event k = None" and "- (2 ^ 63) \<le> read_res k" and "read_res k < 12"
  shows "ep0_handle k s = (if read_res k < 0 then Undef UninitRead else Done False s)"
proof -
  have "\<not> (word_of_int (read_res k) :: size_t) < EVENT_SIZE" if "read_res k < 0"
  proof -
    have "take_bit 64 (read_res k) = read_res k + 2 ^ 64"
      unfolding take_bit_eq_mod
      by (subst mod_add_self2 [symmetric], rule mod_pos_pos_trivial) (use that assms(2) in simp_all)
    then show ?thesis using assms(2) by (simp add: EVENT_SIZE_def word_less_def uint_word_of_int_eq)
  qed
  moreover have "(word_of_int (read_res k) :: size_t) < EVENT_SIZE" if "\<not> read_res k < 0"
    using that assms(3) by (simp add: EVENT_SIZE_def word_less_def uint_word_of_int_eq take_bit_int_eq_self)
  ultimately show ?thesis using assms(1) by (simp add: ep0_handle_def)
qed

theorem ep0_failed_read_uses_event_witness:
  "ep0_handle (bind_calls\<lparr>read_res := - 1, event := None\<rparr>) gServerState = Undef UninitRead"
  using ep0_failed_read_uses_event [of "bind_calls\<lparr>read_res := - 1, event := None\<rparr>"] by simp

end
