(* ===== verification/Tcp_Transport.thy ===== *)
theory Tcp_Transport
  imports Wire_Properties
begin

text \<open>
  Messages over a TCP stream, \<^verbatim>\<open>common_tcp/common_tcp.c\<close>, used by the client's TCP transport and by
  the server program. What the socket does is a list of events, one per segment that has arrived
  or per call that fails; a call of \<open>read\<close> takes at most the bytes it asks for and leaves the rest of
  the segment. The end of the list is the end of the stream. The destination is an object, so a
  read past its end is \<open>Undef\<close>. The lemmas: a message is read whole however the stream is cut into
  segments, and so is what \<open>write\<close> takes piece by piece.
\<close>

subsection \<open>The socket\<close>

datatype sock_event = Segment "byte list" | Interrupted | Broken

record sock =
  incoming :: "sock_event list"
  dest :: "byte list"

definition put_back :: "byte list \<Rightarrow> sock_event list \<Rightarrow> sock_event list" where
  "put_back bs evs = (if bs = [] then evs else Segment bs # evs)"

definition store_at :: "nat \<Rightarrow> byte list \<Rightarrow> byte list \<Rightarrow> byte list" where
  "store_at p bs d = take p d @ bs @ drop (p + length bs) d"

subsection \<open>Reading\<close>

lemma nleft_minus:
  assumes "n \<le> unat (nleft :: size_t)" shows "unat (nleft - of_nat n) = unat nleft - n"
proof -
  have "n < 2 ^ 64" using assms unsigned_less [of nleft, where ?'a = nat] by simp
  then have "unat (of_nat n :: size_t) = n" by (rule unat_of_nat_small)
  then show ?thesis using assms by (simp add: unat_sub word_le_nat_alt)
qed

text \<open>The loop of \<open>cswp_readn\<close>. The result is \<open>nleft\<close>, or \<open>None\<close> for the early return of \<open>-1\<close>. Linux refuses
  a \<open>read\<close> whose count is negative as a \<open>ssize_t\<close>.\<close>

function readn_loop :: "nat \<Rightarrow> size_t \<Rightarrow> (sock, size_t option) prog" where
  "readn_loop p nleft s = (if 2 ^ 63 \<le> unat nleft then Done None s
     else if 0 < nleft
     then (case incoming s of
         [] \<Rightarrow> Done (Some nleft) s
       | Interrupted # evs \<Rightarrow> readn_loop p nleft (s\<lparr>incoming := evs\<rparr>)
       | Broken # evs \<Rightarrow> Done None (s\<lparr>incoming := evs\<rparr>)
       | Segment bs # evs \<Rightarrow>
           if bs = [] then Done (Some nleft) (s\<lparr>incoming := evs\<rparr>)
           else if p + length (take (unat nleft) bs) \<le> length (dest s)
           then readn_loop (p + length (take (unat nleft) bs)) (nleft - of_nat (length (take (unat nleft) bs)))
                  (s\<lparr>incoming := put_back (drop (unat nleft) bs) evs, dest := store_at p (take (unat nleft) bs) (dest s)\<rparr>)
           else Undef OutOfBounds)
     else Done (Some nleft) s)"
  by pat_completeness auto

termination
proof (relation "measure (\<lambda>(p, nleft, s). length (incoming s) + unat nleft)", simp_all)
  fix nleft :: size_t and s :: sock and evs and bs :: "byte list"
  assume "0 < nleft" and "incoming s = Segment bs # evs" and "bs \<noteq> []"
  then have "0 < unat nleft" "0 < length bs" by (simp_all add: word_less_nat_alt)
  then show "length (put_back (drop (unat nleft) bs) evs) + unat (nleft - of_nat (min (length bs) (unat nleft)))
      < Suc (length evs + unat nleft)"
    by (auto simp: nleft_minus put_back_def)
qed

declare readn_loop.simps [simp del]

definition cswp_readn :: "nat \<Rightarrow> size_t \<Rightarrow> (sock, int) prog" where
  "cswp_readn p n = cswp_check (readn_loop p n) (\<lambda>r. ret (case r of None \<Rightarrow> - 1 | Some nleft \<Rightarrow> sint (n - nleft)))"

definition cswp_common_tcp_get_uint32 :: "(sock, c_uint) prog" where
  "cswp_common_tcp_get_uint32 =
     cswp_check (gets dest) (\<lambda>buf.
     cswp_check (nth_c buf 0) (\<lambda>b0.
     cswp_check (nth_c buf 1) (\<lambda>b1.
     cswp_check (int_shl b1 8) (\<lambda>v1.
     cswp_check (nth_c buf 2) (\<lambda>b2.
     cswp_check (int_shl b2 16) (\<lambda>v2.
     cswp_check (nth_c buf 3) (\<lambda>b3.
     cswp_check (int_shl b3 24) (\<lambda>v3.
     ret (ucast b0 OR v1 OR v2 OR v3)))))))))"

text \<open>The result is a number of bytes, \<open>0\<close> for a stream that ends early and \<open>-1\<close> for an error. The
  length of the rest is computed as a \<open>size_t\<close>: a message that says it is shorter than its own
  header asks for almost \<open>2\<^sup>6\<^sup>4\<close> bytes. \<open>nread\<close> is compared with it as an unsigned number.\<close>

definition cswp_read_msg_tcp :: "size_t \<Rightarrow> (sock, int) prog" where
  "cswp_read_msg_tcp maxSz =
     cswp_check (cswp_readn 0 4) (\<lambda>nread.
     if nread = - 1 then ret (- 1)
     else if (word_of_int nread :: size_t) \<noteq> 4 then ret 0
     else
       cswp_check cswp_common_tcp_get_uint32 (\<lambda>len.
       let msgLen = (if ucast len > maxSz then ucast maxSz else len) :: c_uint; body = ucast msgLen - 4 :: size_t in
       cswp_check (cswp_readn 4 body) (\<lambda>nread.
       if nread = - 1 then ret (- 1)
       else if (word_of_int nread :: size_t) \<noteq> body then ret 0
       else ret (nread + 4))))"

subsection \<open>Writing\<close>

text \<open>The calls of \<open>write\<close>: how many bytes one takes at most, or that it is interrupted or fails. The
  loop yields the bytes sent and whether all of them are, \<open>None\<close> while it still waits.\<close>

datatype write_event = Takes nat | Write_interrupted | Write_broken

fun writen_loop :: "write_event list \<Rightarrow> byte list \<Rightarrow> byte list \<times> bool option" where
  "writen_loop evs data = (if data = [] then ([], Some True) else case evs of
       [] \<Rightarrow> ([], None)
     | Write_interrupted # evs \<Rightarrow> writen_loop evs data
     | Write_broken # evs \<Rightarrow> ([], Some False)
     | Takes k # evs \<Rightarrow>
         if k = 0 then ([], Some False)
         else (case writen_loop evs (drop k data) of (sent, r) \<Rightarrow> (take k data @ sent, r)))"

declare writen_loop.simps [simp del]

definition cswp_write_msg_tcp :: "write_event list \<Rightarrow> byte list \<Rightarrow> byte list \<times> int option" where
  "cswp_write_msg_tcp evs data = (case writen_loop evs data of (sent, r) \<Rightarrow>
     (sent, map_option (\<lambda>all. if all then int (length data) else - 1) r))"

subsection \<open>The stream\<close>

fun segment :: "sock_event \<Rightarrow> byte list" where
  "segment (Segment bs) = bs"
| "segment _ = []"

definition stream :: "sock_event list \<Rightarrow> byte list" where
  "stream evs = concat (map segment evs)"

text \<open>A stream without errors: no segment is empty.\<close>

definition clean :: "sock_event list \<Rightarrow> bool" where
  "clean evs \<longleftrightarrow> Broken \<notin> set evs \<and> Segment [] \<notin> set evs"

lemma stream_simps [simp]:
  "stream [] = []" "stream (e # evs) = segment e @ stream evs" "stream (put_back bs evs) = bs @ stream evs"
  by (simp_all add: stream_def put_back_def)

lemma clean_simps [simp]:
  "clean []" "clean (Segment bs # evs) \<longleftrightarrow> bs \<noteq> [] \<and> clean evs" "clean (Interrupted # evs) \<longleftrightarrow> clean evs"
  "\<not> clean (Broken # evs)" "clean (put_back bs evs) \<longleftrightarrow> clean evs"
  by (auto simp: clean_def put_back_def)

lemma store_at_store_at:
  "p + length as + length bs \<le> length d \<Longrightarrow> store_at (p + length as) bs (store_at p as d) = store_at p (as @ bs) d"
  by (simp add: store_at_def add.commute add.left_commute)

lemma length_store_at [simp]: "p + length bs \<le> length d \<Longrightarrow> length (store_at p bs d) = length d"
  by (simp add: store_at_def)

lemma store_at_Nil [simp]: "store_at p [] d = d"
  by (simp add: store_at_def)

text \<open>Reading from a clean stream: what is asked for when the stream has it, what there is
  otherwise; how it is cut into segments does not matter.\<close>

lemma readn_loop_reads:
  assumes "clean (incoming s)" and "p + min (unat n) (length (stream (incoming s))) \<le> length (dest s)"
    and "unat n < 2 ^ 63"
  shows "\<exists>s'. readn_loop p n s = Done (Some (n - of_nat (min (unat n) (length (stream (incoming s)))))) s'
    \<and> dest s' = store_at p (take (unat n) (stream (incoming s))) (dest s)
    \<and> clean (incoming s') \<and> stream (incoming s') = drop (unat n) (stream (incoming s))"
  using assms
proof (induction p n s rule: readn_loop.induct)
  case (1 p n s)
  have ssize: "\<not> 2 ^ 63 \<le> unat n" using "1.prems"(3) by simp
  show ?case
  proof (cases "0 < n")
    case n: True
    then have pos: "0 < unat n" by (simp add: word_less_nat_alt)
    show ?thesis
    proof (cases "incoming s")
      case Nil
      then show ?thesis using ssize by (subst readn_loop.simps) (simp add: n)
    next
      case (Cons e evs)
      show ?thesis
      proof (cases e)
        case (Segment bs)
        let ?got = "take (unat n) bs"
        let ?s = "s\<lparr>incoming := put_back (drop (unat n) bs) evs, dest := store_at p ?got (dest s)\<rparr>"
        have ne: "bs \<noteq> []" using "1.prems"(1) Cons Segment by simp
        have fits: "p + length ?got \<le> length (dest s)"
          using "1.prems"(2) Cons Segment by simp
        have m: "unat (n - of_nat (length ?got)) = unat n - length ?got" by (rule nleft_minus) simp
        have step: "readn_loop p n s = readn_loop (p + length ?got) (n - of_nat (length ?got)) ?s"
          using ssize by (subst readn_loop.simps) (simp add: n Cons Segment ne fits del: length_take)
        have L: "stream (incoming s) = bs @ stream evs" "stream (incoming ?s) = drop (unat n) bs @ stream evs"
          by (simp_all add: Cons Segment)
        have got: "?got @ take (unat n - length ?got) (drop (unat n) bs @ stream evs) = take (unat n) (bs @ stream evs)"
          and rest: "drop (unat n - length ?got) (drop (unat n) bs @ stream evs) = drop (unat n) (bs @ stream evs)"
          and count: "length ?got + min (unat n - length ?got) (length (drop (unat n) bs @ stream evs))
            = min (unat n) (length (bs @ stream evs))"
          by (cases "unat n \<le> length bs"; simp)+
        have ih: "\<exists>s'. readn_loop (p + length ?got) (n - of_nat (length ?got)) ?s
            = Done (Some (n - of_nat (length ?got) - of_nat (min (unat n - length ?got) (length (stream (incoming ?s)))))) s'
          \<and> dest s' = store_at (p + length ?got) (take (unat n - length ?got) (stream (incoming ?s))) (dest ?s)
          \<and> clean (incoming s') \<and> stream (incoming s') = drop (unat n - length ?got) (stream (incoming ?s))"
        proof (rule "1.IH"(1) [OF ssize n Cons Segment ne fits, unfolded m])
          show "unat n - length ?got < 2 ^ 63" using ssize by simp
          show "clean (incoming ?s)" using "1.prems"(1) Cons Segment by simp
          show "p + length ?got + min (unat n - length ?got) (length (stream (incoming ?s))) \<le> length (dest ?s)"
            using "1.prems"(2) fits unfolding L add.assoc count by simp
        qed
        have num: "n - of_nat (length ?got) - of_nat (min (unat n - length ?got) (length (drop (unat n) bs @ stream evs)))
            = n - of_nat (min (unat n) (length (bs @ stream evs)))"
          unfolding count [symmetric] by (simp only: of_nat_add diff_diff_eq)
        have "length (?got @ take (unat n - length ?got) (drop (unat n) bs @ stream evs)) = min (unat n) (length (bs @ stream evs))"
          unfolding got by simp
        then have "p + length ?got + length (take (unat n - length ?got) (drop (unat n) bs @ stream evs)) \<le> length (dest s)"
          using "1.prems"(2) unfolding L by simp
        from store_at_store_at [OF this]
        have d: "store_at (p + length ?got) (take (unat n - length ?got) (drop (unat n) bs @ stream evs)) (dest ?s)
            = store_at p (take (unat n) (bs @ stream evs)) (dest s)"
          unfolding got by simp
        show ?thesis using ih unfolding step L num d rest .
      next
        case Interrupted
        then show ?thesis
          using "1.IH"(2) [OF ssize n Cons Interrupted] "1.prems" Cons by (subst readn_loop.simps) (simp add: n)
      next
        case Broken
        then show ?thesis using "1.prems"(1) Cons by simp
      qed
    qed
  next
    case False
    then have "n = 0" using word_neq_0_conv by blast
    then show ?thesis using "1.prems" by (subst readn_loop.simps) simp
  qed
qed

lemma cswp_readn_reads:
  assumes "clean (incoming s)" and "p + min (unat n) (length (stream (incoming s))) \<le> length (dest s)"
    and "length (dest s) < 2 ^ 63" and "unat n < 2 ^ 63"
  shows "\<exists>s'. cswp_readn p n s = Done (int (min (unat n) (length (stream (incoming s))))) s'
    \<and> dest s' = store_at p (take (unat n) (stream (incoming s))) (dest s)
    \<and> clean (incoming s') \<and> stream (incoming s') = drop (unat n) (stream (incoming s))"
proof -
  let ?k = "min (unat n) (length (stream (incoming s)))"
  have "?k < 2 ^ 63" using assms(2,3) by linarith
  then have "sint (of_nat ?k :: size_t) = int ?k" by (simp add: signed_of_nat signed_take_bit_int_eq_self)
  then have "sint (n - (n - of_nat ?k)) = int ?k" by (simp only: diff_diff_eq2 diff_add_cancel add_diff_cancel_left')
  then show ?thesis
    using readn_loop_reads [OF assms(1,2,4)] by (auto simp: cswp_readn_def)
qed

lemma tcp_length:
  assumes "4 \<le> length (dest s)" and "take 4 (dest s) = le_bytes 4 v"
  shows "cswp_common_tcp_get_uint32 s = Done v s"
proof -
  obtain b0 b1 b2 b3 rest where d: "dest s = b0 # b1 # b2 # b3 # rest"
    using assms(1) by (auto simp: Suc_le_length_iff eval_nat_numeral)
  then have "[b0, b1, b2, b3] = le_bytes 4 v" using assms(2) by (simp add: eval_nat_numeral)
  then show ?thesis
    by (simp add: cswp_common_tcp_get_uint32_def d nth_c_def int_shl_def le_bytes_32 le_combine_32)
qed

subsection \<open>Messages\<close>

lemma writen_loop_sent:
  "prefix (fst (writen_loop evs data)) data \<and> (snd (writen_loop evs data) = Some True \<longrightarrow> fst (writen_loop evs data) = data)"
proof (induction evs data rule: writen_loop.induct)
  case (1 evs data)
  show ?case
  proof (cases "data = []")
    case True
    then show ?thesis by (subst (1 2 3) writen_loop.simps) simp
  next
    case False
    note data = False
    show ?thesis
    proof (cases evs)
      case Nil
      then show ?thesis using data by (subst (1 2 3) writen_loop.simps) simp
    next
      case (Cons e rest)
      show ?thesis
      proof (cases e)
        case (Takes k)
        obtain sent r where r: "writen_loop rest (drop k data) = (sent, r)" by (cases "writen_loop rest (drop k data)")
        show ?thesis
        proof (cases "k = 0")
          case True
          then show ?thesis using data Cons Takes by (subst (1 2 3) writen_loop.simps) simp
        next
          case False
          have ih: "prefix sent (drop k data)" "r = Some True \<longrightarrow> sent = drop k data"
            using "1.IH"(1) [OF data Cons Takes False] r by simp_all
          have step: "writen_loop evs data = (take k data @ sent, r)"
            using data Cons Takes False r by (subst writen_loop.simps) simp
          have "prefix (take k data @ sent) data"
            using ih(1) by (metis append_take_drop_id same_prefix_prefix)
          then show ?thesis unfolding step using ih(2) by auto
        qed
      next
        case Write_interrupted
        then have step: "writen_loop evs data = writen_loop rest data" using data Cons by (subst writen_loop.simps) simp
        show ?thesis unfolding step by (rule "1.IH"(2) [OF data Cons Write_interrupted])
      next
        case Write_broken
        then show ?thesis using data Cons by (subst (1 2 3) writen_loop.simps) simp
      qed
    qed
  qed
qed

lemma read_msg_whole:
  assumes "clean (incoming s)" and "stream (incoming s) = msg @ rest" and "length msg < 2 ^ 32"
    and "take 4 msg = le_bytes 4 (of_nat (length msg) :: c_uint)" and "4 \<le> length msg"
    and "length msg \<le> unat maxSz" and "length msg \<le> length (dest s)" and "length (dest s) < 2 ^ 63"
  shows "\<exists>s'. cswp_read_msg_tcp maxSz s = Done (int (length msg)) s' \<and> take (length msg) (dest s') = msg
    \<and> clean (incoming s') \<and> stream (incoming s') = rest"
proof -
  let ?n = "of_nat (length msg) :: c_uint"
  have un: "unat ?n = length msg" using assms(3) by (simp add: unat_of_nat take_bit_nat_eq_self)
  have u4: "unat (4 :: size_t) = 4" by simp
  obtain s1 where s1: "cswp_readn 0 4 s = Done 4 s1" "dest s1 = store_at 0 (take 4 msg) (dest s)"
    "clean (incoming s1)" "stream (incoming s1) = drop 4 msg @ rest"
    using cswp_readn_reads [OF assms(1), of 0 4] assms(2,5,7,8) by (auto simp: min_absorb1)
  have d1: "length (dest s1) = length (dest s)" "take 4 (dest s1) = le_bytes 4 ?n"
    unfolding s1(2) using assms(4,5,7) by (simp_all add: store_at_def)
  have len: "cswp_common_tcp_get_uint32 s1 = Done ?n s1"
    by (rule tcp_length) (use d1 assms(5,7) in simp_all)
  have small: "\<not> maxSz < ucast ?n" using assms(6) un by (simp only: word_less_nat_alt unat_ucast_32_64 not_less)
  have "unat (ucast ?n :: size_t) = length msg" by (simp only: unat_ucast_32_64 un)
  then have body: "unat (ucast ?n - 4 :: size_t) = length msg - 4"
    using assms(5) by (simp add: unat_sub word_le_nat_alt)
  have "length msg - 4 < 9223372036854775808" using assms(3) by simp
  then obtain s2 where s2: "cswp_readn 4 (ucast ?n - 4) s1 = Done (int (length msg - 4)) s2"
    "dest s2 = store_at 4 (drop 4 msg) (dest s1)" "clean (incoming s2)" "stream (incoming s2) = rest"
    using cswp_readn_reads [OF s1(3), of 4 "ucast ?n - 4"] s1(4) d1(1) body assms(3,5,7,8) by (auto simp: min_absorb1)
  have "(word_of_int (int (length msg - 4)) :: size_t) = ucast ?n - 4"
    unfolding body [symmetric] by simp
  then have "cswp_read_msg_tcp maxSz s = Done (int (length msg - 4) + 4) s2"
    using s1(1) len s2(1) small by (simp add: cswp_read_msg_tcp_def Let_def)
  moreover have "int (length msg - 4) + 4 = int (length msg)" using assms(5) by simp
  moreover have "take (length msg) (dest s2) = msg"
  proof -
    have "dest s2 = store_at 0 (take 4 msg @ drop 4 msg) (dest s)"
      unfolding s2(2) s1(2) using store_at_store_at [of 0 "take 4 msg" "drop 4 msg" "dest s"] assms(5,7) by (simp add: min_absorb2)
    then show ?thesis by (simp add: store_at_def)
  qed
  ultimately show ?thesis using s2(3,4) by auto
qed

text \<open>C29: a message one side has written, in as many pieces as \<open>write\<close> takes, is what the other side
  reads, however the network cuts the stream into segments and however often a call is
  interrupted; the bytes after it stay in the stream for the next read.\<close>

theorem tcp_message_transmitted:
  assumes "cswp_write_msg_tcp ws msg = (sent, Some r)" and "r \<noteq> - 1"
    and "take 4 msg = le_bytes 4 (of_nat (length msg) :: c_uint)" and "4 \<le> length msg" and "length msg < 2 ^ 32"
    and "clean (incoming s)" and "stream (incoming s) = sent @ rest"
    and "length msg \<le> unat maxSz" and "length msg \<le> length (dest s)" and "length (dest s) < 2 ^ 63"
  shows "\<exists>s'. r = int (length msg) \<and> cswp_read_msg_tcp maxSz s = Done (int (length msg)) s'
    \<and> take (length msg) (dest s') = msg \<and> clean (incoming s') \<and> stream (incoming s') = rest"
proof -
  obtain all where all: "writen_loop ws msg = (sent, Some all)" "r = (if all then int (length msg) else - 1)"
    using assms(1) by (auto simp: cswp_write_msg_tcp_def split: prod.splits)
  with assms(2) have "all" by (auto split: if_splits)
  then have "sent = msg" and r: "r = int (length msg)" using writen_loop_sent [of ws msg] all by auto
  then have "stream (incoming s) = msg @ rest" using assms(7) by simp
  from read_msg_whole [OF assms(6) this assms(5,3,4,8-10)] r show ?thesis by auto
qed

theorem tcp_message_transmitted_witness:
  "\<exists>s'. cswp_read_msg_tcp 16 \<lparr>incoming = [Segment [6, 0], Interrupted, Segment [0, 0, 1, 2, 9]], dest = replicate 16 0\<rparr> = Done 6 s'
    \<and> take 6 (dest s') = [6, 0, 0, 0, 1, 2] \<and> stream (incoming s') = [9]"
proof -
  let ?msg = "[6, 0, 0, 0, 1, 2] :: byte list"
  let ?s = "\<lparr>incoming = [Segment [6, 0], Interrupted, Segment [0, 0, 1, 2, 9]], dest = replicate 16 0\<rparr>"
  have w: "cswp_write_msg_tcp [Takes 4, Write_interrupted, Takes 4] ?msg = (?msg, Some 6)" by code_simp
  have h: "take 4 ?msg = le_bytes 4 (of_nat (length ?msg) :: c_uint)" by code_simp
  have six: "length ?msg = 6" by simp
  have "\<exists>s'. 6 = int (length ?msg) \<and> cswp_read_msg_tcp 16 ?s = Done (int (length ?msg)) s'
    \<and> take (length ?msg) (dest s') = ?msg \<and> clean (incoming s') \<and> stream (incoming s') = [9]"
    by (rule tcp_message_transmitted [OF w _ h]) simp_all
  then show ?thesis unfolding six by auto
qed

text \<open>A message that says it is shorter than its own length field makes the reader ask for almost
  \<open>2\<^sup>6\<^sup>4\<close> bytes. The system refuses that, so the message is an error and the stream stays after its
  length field.\<close>

theorem tcp_short_message_refused:
  assumes "clean (incoming s)" and "stream (incoming s) = le_bytes 4 v @ rest" and "unat (v :: c_uint) < 4"
    and "4 \<le> unat maxSz" and "4 \<le> length (dest s)" and "length (dest s) < 2 ^ 63"
  shows "\<exists>s'. cswp_read_msg_tcp maxSz s = Done (- 1) s' \<and> stream (incoming s') = rest"
proof -
  obtain s1 where s1: "cswp_readn 0 4 s = Done 4 s1" "dest s1 = store_at 0 (le_bytes 4 v) (dest s)"
    "clean (incoming s1)" "stream (incoming s1) = rest"
    using cswp_readn_reads [OF assms(1), of 0 4] assms(2,5,6) by (auto simp: min_absorb1)
  have d1: "length (dest s1) = length (dest s)" "take 4 (dest s1) = le_bytes 4 v"
    unfolding s1(2) using assms(5) by (simp_all add: store_at_def)
  have len: "cswp_common_tcp_get_uint32 s1 = Done v s1"
    by (rule tcp_length) (use d1 assms(5) in simp_all)
  have "unat (ucast v :: size_t) \<le> unat maxSz" using assms(3,4) by (simp only: unat_ucast_32_64)
  then have small: "\<not> maxSz < ucast v" by (simp only: word_less_nat_alt not_less)
  have "unat (ucast v - 4 :: size_t) = 2 ^ 64 + unat v - 4"
  proof -
    have "\<not> (4 :: size_t) \<le> ucast v" using assms(3) by (simp only: word_le_nat_alt unat_ucast_32_64) simp
    then show ?thesis using assms(3) by (simp add: unat_sub_if')
  qed
  then have body: "2 ^ 63 \<le> unat (ucast v - 4 :: size_t)" by simp
  then have "readn_loop 4 (ucast v - 4) s1 = Done None s1" by (subst readn_loop.simps) simp
  then show ?thesis
    using s1(1,4) len small by (simp add: cswp_read_msg_tcp_def Let_def cswp_readn_def)
qed

theorem tcp_short_message_refused_witness:
  "\<exists>s'. cswp_read_msg_tcp 8 \<lparr>incoming = [Segment [0, 0, 0, 0], Segment [1, 2, 3, 4, 5]], dest = replicate 8 0\<rparr> = Done (- 1) s'
    \<and> stream (incoming s') = [1, 2, 3, 4, 5]"
proof -
  have "le_bytes 4 (0 :: c_uint) = [0, 0, 0, 0]" by code_simp
  then show ?thesis
    by (intro tcp_short_message_refused [where v = 0]) simp_all
qed

end
