(* ===== verification/Target_Impl.thy ===== *)
theory Target_Impl
  imports Server_Impl
begin

text \<open>
  The reference implementation of the callbacks, \<^verbatim>\<open>target/cswp_server/cswp_impl.c\<close>: device access
  through \<^verbatim>\<open>/dev/mem\<close>, \<^verbatim>\<open>mmap\<close> and the files of the CoreSight driver. The private data of the
  server state are \<open>'m host\<close>: the heap object behind \<open>state->priv\<close> and the machine \<open>'m\<close>, which
  stands for the hardware and the file system. What the system calls do to it is the parameter
  \<open>'m sys\<close>. A block that has been freed is an object without bytes: its pointer is not null,
  and every access is out of bounds.
\<close>

subsection \<open>The system\<close>

datatype d_type_t = DT_DIR | DT_REG | DT_LNK | DT_OTHER

record dirent =
  d_name :: "byte list"
  d_type :: d_type_t

text \<open>
  \<open>alphasorted\<close> are the entries of a directory in the order of \<open>alphasort\<close>, \<open>None\<close> a failed
  \<open>scandir\<close>; \<open>sdf_file\<close> the size \<open>ftell\<close> reports and the bytes \<open>fread\<close> delivers; \<open>open_file\<close> whether
  \<open>open\<close> succeeds, for writing or only for reading; \<open>mmap_file\<close> whether mapping so many bytes at an
  offset does. \<open>load\<close> and \<open>store\<close>
  are single accesses to physical addresses, \<open>None\<close> one that raises \<open>SIGBUS\<close>. \<open>read_attr\<close> and
  \<open>write_attr\<close> are \<open>read\<close> and \<open>write\<close> on a driver file. \<open>stack_bytes\<close> is what an array on the stack
  holds before it is written.
\<close>

record 'm sys =
  alphasorted :: "byte list \<Rightarrow> 'm \<Rightarrow> dirent list option"
  sdf_file :: "'m \<Rightarrow> (c_uint \<times> byte list) option"
  open_file :: "byte list \<Rightarrow> bool \<Rightarrow> 'm \<Rightarrow> bool"
  mmap_file :: "byte list \<Rightarrow> bool \<Rightarrow> size_t \<Rightarrow> 64 word \<Rightarrow> 'm \<Rightarrow> bool"
  page_size :: size_t
  load :: "nat \<Rightarrow> 64 word \<Rightarrow> 'm \<Rightarrow> (byte list \<times> 'm) option"
  store :: "64 word \<Rightarrow> byte list \<Rightarrow> 'm \<Rightarrow> 'm option"
  read_attr :: "byte list \<Rightarrow> nat \<Rightarrow> 'm \<Rightarrow> (byte list \<times> 'm) option"
  write_attr :: "byte list \<Rightarrow> byte list \<Rightarrow> 'm \<Rightarrow> 'm option"
  stack_bytes :: "nat \<Rightarrow> byte list"
  verbose :: int

subsection \<open>State\<close>

record cswp_server_device_priv_t =
  path :: cstring
  regsDiscovered :: bool
  dev_address :: c_uint
  supportedAccessWidths :: byte

record cswp_server_priv_t =
  devicePriv :: "cswp_server_device_priv_t list option"
  lastPollData :: "byte list option"
  lastPollDataSize :: c_uint

record 'm host =
  host_priv :: "cswp_server_priv_t option"
  machine :: 'm

type_synonym ('m, 'a) impl_prog = "('m host, 'a) srv_prog"

definition zero_dev :: cswp_server_device_priv_t where
  "zero_dev = \<lparr>path = None, regsDiscovered = False, dev_address = 0, supportedAccessWidths = 0\<rparr>"

definition zero_priv :: cswp_server_priv_t where
  "zero_priv = \<lparr>devicePriv = None, lastPollData = None, lastPollDataSize = 0\<rparr>"

definition MAX_DEV_PATH :: nat where "MAX_DEV_PATH = 256"

definition CORESIGHT_DEVICES :: "byte list" where "CORESIGHT_DEVICES = bytes_of ''/sys/bus/coresight/devices''"

definition DEV_MEM :: "byte list" where "DEV_MEM = bytes_of ''/dev/mem''"

definition CORESIGHT_MEMAP_CSW :: c_uint where "CORESIGHT_MEMAP_CSW = 0x80000000"

definition CORESIGHT_CSW_ADDR_INC :: c_uint where "CORESIGHT_CSW_ADDR_INC = 0x10"

definition CORESIGHT_CSW_OFFSET :: c_uint where "CORESIGHT_CSW_OFFSET = 0xD00"

definition CORESIGHT_TAR_OFFSET :: c_uint where "CORESIGHT_TAR_OFFSET = 0xD04"

definition CORESIGHT_DRW_OFFSET :: c_uint where "CORESIGHT_DRW_OFFSET = 0xD0C"

definition WIDTH_8_MASK :: byte where "WIDTH_8_MASK = 1"

definition WIDTH_16_MASK :: byte where "WIDTH_16_MASK = 2"

definition WIDTH_32_MASK :: byte where "WIDTH_32_MASK = 4"

definition WIDTHS_DETERMINED_MASK :: byte where "WIDTHS_DETERMINED_MASK = 128"

text \<open>Following \<open>state->priv\<close> and the element of \<open>devicePriv\<close>.\<close>

definition get_priv :: "('m, cswp_server_priv_t) impl_prog" where
  "get_priv = cswp_check (gets (\<lambda>s. host_priv (priv s))) (\<lambda>p. case p of None \<Rightarrow> undef NullDeref | Some q \<Rightarrow> ret q)"

definition put_priv :: "cswp_server_priv_t option \<Rightarrow> ('m, unit) impl_prog" where
  "put_priv q = modify (\<lambda>s. s\<lparr>priv := (priv s)\<lparr>host_priv := q\<rparr>\<rparr>)"

definition get_dev :: "c_uint \<Rightarrow> ('m, cswp_server_device_priv_t) impl_prog" where
  "get_dev i = cswp_check get_priv (\<lambda>q. nth_p (devicePriv q) (unat i))"

definition put_dev :: "c_uint \<Rightarrow> cswp_server_device_priv_t \<Rightarrow> ('m, unit) impl_prog" where
  "put_dev i d = cswp_check get_priv (\<lambda>q.
     cswp_check (update_p (devicePriv q) (unat i) d) (\<lambda>ds. put_priv (Some (q\<lparr>devicePriv := ds\<rparr>))))"

definition get_type :: "c_uint \<Rightarrow> ('m, cstring) impl_prog" where
  "get_type i = cswp_check (gets deviceTypes) (\<lambda>p. nth_p p (unat i))"

definition machine_of :: "('m \<Rightarrow> 'a) \<Rightarrow> ('m, 'a) impl_prog" where
  "machine_of f = gets (\<lambda>s. f (machine (priv s)))"

definition set_machine :: "'m \<Rightarrow> ('m, unit) impl_prog" where
  "set_machine m = modify (\<lambda>s. s\<lparr>priv := (priv s)\<lparr>machine := m\<rparr>\<rparr>)"

text \<open>\<open>strcmp(lit, s) == 0\<close>.\<close>

definition c_streq :: "string \<Rightarrow> cstring \<Rightarrow> ('s, bool) prog" where
  "c_streq lit str = (case str of None \<Rightarrow> undef NullDeref | Some t \<Rightarrow> ret (cstr t = bytes_of lit))"

definition is_mem_ap_type :: "cstring \<Rightarrow> ('s, bool) prog" where
  "is_mem_ap_type type = (case type of None \<Rightarrow> undef NullDeref
     | Some t \<Rightarrow> ret (take 6 (cstr t) = bytes_of ''mem-ap''))"

subsection \<open>Logging\<close>

text \<open>The number of arguments a format takes.\<close>

fun conversions :: "byte list \<Rightarrow> nat" where
  "conversions (c # d # r) = (if c = 37 then (if d = 37 then 0 else 1) + conversions r else conversions (d # r))"
| "conversions _ = 0"

fun verbosity :: "cswp_log_level_t \<Rightarrow> int" where
  "verbosity CSWP_LOG_ERROR = 0"
| "verbosity CSWP_LOG_WARN = 0"
| "verbosity CSWP_LOG_INFO = 1"
| "verbosity CSWP_LOG_DEBUG = 2"

text \<open>Printing has no effect on the state; a format with more conversions than arguments reads
  arguments that were not passed.\<close>

definition cswp_server_impl_log :: "'m sys \<Rightarrow> cswp_log_level_t \<Rightarrow> byte list \<Rightarrow> log_arg list \<Rightarrow> ('m, unit) impl_prog" where
  "cswp_server_impl_log sys level msg args =
     (if verbosity level \<le> verbose sys \<and> length args < conversions msg then undef UninitRead else ret ())"

subsection \<open>Directory filters\<close>

definition special_dir_filter :: "dirent \<Rightarrow> bool" where
  "special_dir_filter e \<longleftrightarrow> \<not> (d_name e = bytes_of ''.'' \<or> d_name e = bytes_of ''..'')"

definition dir_filter :: "dirent \<Rightarrow> bool" where
  "dir_filter e \<longleftrightarrow> \<not> (d_name e = bytes_of ''.'' \<or> d_name e = bytes_of ''..'' \<or> d_type e \<noteq> DT_DIR)"

definition file_filter :: "dirent \<Rightarrow> bool" where
  "file_filter e \<longleftrightarrow> d_type e = DT_REG \<or> d_type e = DT_LNK"

definition scandir :: "'m sys \<Rightarrow> byte list \<Rightarrow> (dirent \<Rightarrow> bool) \<Rightarrow> ('m, byte list list) impl_prog" where
  "scandir sys dir flt = cswp_check (machine_of (alphasorted sys dir)) (\<lambda>r. case r of
       None \<Rightarrow> fail (res_val CSWP_INVALID_DEVICE)
     | Some es \<Rightarrow> ret (map d_name (filter flt es)))"

subsection \<open>Start and end of a session\<close>

text \<open>\<open>sdfSize\<close> is 32 bits wide, and so is the sum with one. The test after \<open>malloc\<close> looks at the
  wrong pointer, so a failed allocation is written through. The \<open>++\<close> moves the pointer, not the size.\<close>

definition cswp_server_impl_load_sdf :: "libc \<Rightarrow> 'm sys \<Rightarrow> ('m, byte list \<times> c_uint) impl_prog" where
  "cswp_server_impl_load_sdf os sys = cswp_check (machine_of (sdf_file sys)) (\<lambda>f. case f of
       None \<Rightarrow> fail (res_val CSWP_FAILED)
     | Some (sdfSize, got) \<Rightarrow> (case malloc os (ucast (sdfSize + 1)) of
           None \<Rightarrow> undef NullDeref
         | Some block \<Rightarrow>
             if length block < length got then undef OutOfBounds
             else if (of_nat (length got) :: c_uint) \<noteq> sdfSize then fail (res_val CSWP_FAILED)
             else if length block \<le> unat sdfSize then undef OutOfBounds
             else ret (got @ [0], sdfSize)))"

text \<open>The old device list is not looked at.\<close>

definition cswp_server_impl_init_devices :: "libc \<Rightarrow> c_uint \<Rightarrow> ('m, unit) impl_prog" where
  "cswp_server_impl_init_devices os n = cswp_check get_priv (\<lambda>q.
     put_priv (Some (q\<lparr>devicePriv := calloc os (ucast n) 24 zero_dev\<rparr>)))"

definition set_device_strings :: "libc \<Rightarrow> nat \<Rightarrow> byte list \<Rightarrow> byte list \<Rightarrow> ('m, unit) impl_prog" where
  "set_device_strings os i name type =
     cswp_check (gets deviceNames) (\<lambda>p.
     cswp_check (update_p p i (strdup os name)) (\<lambda>p'.
     cswp_check (modify (\<lambda>s. s\<lparr>deviceNames := p'\<rparr>)) (\<lambda>_.
     cswp_check (gets deviceTypes) (\<lambda>p.
     cswp_check (update_p p i (strdup os type)) (\<lambda>p'.
     modify (\<lambda>s. s\<lparr>deviceTypes := p'\<rparr>))))))"

definition set_device_path :: "c_uint \<Rightarrow> cstring \<Rightarrow> ('m, unit) impl_prog" where
  "set_device_path i p = cswp_check (get_dev i) (\<lambda>d. put_dev i (d\<lparr>path := p, dev_address := 0\<rparr>))"

text \<open>One entry of the driver's directory.\<close>

definition add_cs_device :: "libc \<Rightarrow> nat \<Rightarrow> byte list \<Rightarrow> ('m, unit) impl_prog" where
  "add_cs_device os i name =
     cswp_check (set_device_strings os (i + 1) name (bytes_of ''cscomp'')) (\<lambda>_.
     (case malloc os (of_nat MAX_DEV_PATH) of
        None \<Rightarrow> undef NullDeref
      | Some _ \<Rightarrow> set_device_path (of_nat (i + 1))
          (Some (take (MAX_DEV_PATH - 1) (CORESIGHT_DEVICES @ bytes_of ''/'' @ cstr name)))))"

definition set_description :: "byte list option \<Rightarrow> c_uint \<Rightarrow> ('m, unit) impl_prog" where
  "set_description d n = modify (\<lambda>s. s\<lparr>systemDescription := d, systemDescriptionSize := n, systemDescriptionFormat := 0\<rparr>)"

definition cswp_server_impl_init :: "libc \<Rightarrow> 'm sys \<Rightarrow> ('m, unit) impl_prog" where
  "cswp_server_impl_init os sys =
     cswp_check (scandir sys CORESIGHT_DEVICES special_dir_filter) (\<lambda>entries.
     let numDevices = of_nat (length entries + 1) in
     cswp_check (modify (\<lambda>s. s\<lparr>deviceCount := numDevices,
         deviceNames := calloc os (ucast numDevices) 8 None,
         deviceTypes := calloc os (ucast numDevices) 8 None,
         deviceInfo := calloc os (ucast numDevices) 16 \<lparr>registerCount = 0, registerInfo = None\<rparr>\<rparr>)) (\<lambda>_.
     cswp_check (attempt (cswp_server_impl_load_sdf os sys)
         (\<lambda>_. set_description None 0) (\<lambda>(sdfData, sdfSize). set_description (Some sdfData) sdfSize)) (\<lambda>_.
     cswp_check (put_priv (map_option hd (calloc os 1 24 zero_priv))) (\<lambda>_.
     cswp_check (cswp_server_impl_init_devices os numDevices) (\<lambda>_.
     cswp_check (set_device_strings os 0 DEV_MEM (bytes_of ''memory'')) (\<lambda>_.
     cswp_check (set_device_path 0 (strdup os DEV_MEM)) (\<lambda>_.
     cswp_check (c_for 0 (length entries) (\<lambda>i. add_cs_device os i (entries ! i))) (\<lambda>_.
     cswp_check get_priv (\<lambda>q.
     put_priv (Some (q\<lparr>lastPollDataSize := 0\<rparr>)))))))))))"

text \<open>The paths are visited to free them, then the list itself is freed.\<close>

definition cswp_server_impl_clear_devices :: "('m, unit) impl_prog" where
  "cswp_server_impl_clear_devices =
     cswp_check (gets (\<lambda>s. (host_priv (priv s), deviceCount s))) (\<lambda>(p, n). case p of
         None \<Rightarrow> ret ()
       | Some q \<Rightarrow>
           cswp_check (c_for 0 (unat n) (\<lambda>i. cswp_check (nth_p (devicePriv q) i) (\<lambda>_. ret ()))) (\<lambda>_.
           put_priv (Some (q\<lparr>devicePriv := (case devicePriv q of None \<Rightarrow> None | Some _ \<Rightarrow> Some [])\<rparr>))))"

definition cswp_server_impl_term :: "('m, unit) impl_prog" where
  "cswp_server_impl_term = cswp_check cswp_server_impl_clear_devices (\<lambda>_. put_priv None)"

subsection \<open>Devices\<close>

definition cswp_server_impl_device_add :: "libc \<Rightarrow> c_uint \<Rightarrow> cstring \<Rightarrow> ('m, unit) impl_prog" where
  "cswp_server_impl_device_add os i deviceType =
     cswp_check (get_dev i) (\<lambda>d.
     cswp_check (put_dev i (d\<lparr>regsDiscovered := False, supportedAccessWidths := 0, dev_address := 0\<rparr>)) (\<lambda>_.
     cswp_check (is_mem_ap_type deviceType) (\<lambda>ap.
     cswp_check (c_streq ''memory'' deviceType) (\<lambda>mem.
     cswp_check (get_dev i) (\<lambda>d.
     put_dev i (d\<lparr>path := (if ap \<or> mem then strdup os DEV_MEM else None)\<rparr>))))))"

definition get_info :: "c_uint \<Rightarrow> ('m, cswp_device_info_t) impl_prog" where
  "get_info i = cswp_check (gets deviceInfo) (\<lambda>p. nth_p p (unat i))"

definition put_info :: "c_uint \<Rightarrow> cswp_device_info_t \<Rightarrow> ('m, unit) impl_prog" where
  "put_info i d = cswp_check (gets deviceInfo) (\<lambda>p. cswp_check (update_p p (unat i) d) (\<lambda>p'.
     modify (\<lambda>s. s\<lparr>deviceInfo := p'\<rparr>)))"

definition cswp_server_impl_device_open :: "c_uint \<Rightarrow> ('m, unit) impl_prog" where
  "cswp_server_impl_device_open i =
     cswp_check (get_info i) (\<lambda>inf.
     cswp_check (put_info i (inf\<lparr>registerCount := 0, registerInfo := None\<rparr>)) (\<lambda>_.
     cswp_check (get_dev i) (\<lambda>d. put_dev i (d\<lparr>regsDiscovered := False\<rparr>))))"

text \<open>\<open>sprintf\<close> into an array of 256 bytes.\<close>

definition sub_path :: "byte list \<Rightarrow> ('s, byte list) prog" where
  "sub_path str = (if length str < 256 then ret str else undef OutOfBounds)"

text \<open>The registers of one directory, with their names relative to the device.\<close>

definition dir_regs :: "'m sys \<Rightarrow> byte list \<Rightarrow> byte list option \<Rightarrow> ('m, byte list list) impl_prog" where
  "dir_regs sys devPath dir =
     cswp_check (sub_path (devPath @ bytes_of ''/'' @ (case dir of None \<Rightarrow> bytes_of ''.'' | Some d \<Rightarrow> d))) (\<lambda>p.
     scandir sys p file_filter)"

definition reg_path :: "byte list option \<Rightarrow> byte list \<Rightarrow> byte list" where
  "reg_path dir name = (case dir of None \<Rightarrow> name | Some d \<Rightarrow> d @ bytes_of ''/'' @ name)"

definition reg_entry :: "libc \<Rightarrow> byte list \<Rightarrow> nat \<Rightarrow> cswp_register_info_t" where
  "reg_entry os p dr = \<lparr>reg_id = of_nat dr, reg_name = strdup os p, reg_size = 1,
     reg_displayName = strdup os p, reg_description = strdup os p\<rparr>"

text \<open>The list of a device's registers, from their paths.\<close>

definition put_registers :: "libc \<Rightarrow> c_uint \<Rightarrow> byte list list \<Rightarrow> ('m, unit) impl_prog" where
  "put_registers os i paths =
     cswp_check (get_info i) (\<lambda>inf.
     (case calloc os (of_nat (length paths)) 40 () of
        None \<Rightarrow> if paths = [] then put_info i (inf\<lparr>registerCount := 0, registerInfo := None\<rparr>) else undef NullDeref
      | Some _ \<Rightarrow> put_info i (inf\<lparr>registerCount := of_nat (length paths),
          registerInfo := Some (map2 (reg_entry os) paths [0..<length paths])\<rparr>)))"

text \<open>The paths of all registers are built after all directories have been scanned.\<close>

definition build_registers :: "libc \<Rightarrow> 'm sys \<Rightarrow> c_uint \<Rightarrow> byte list \<Rightarrow> byte list option list \<Rightarrow> ('m, unit) impl_prog" where
  "build_registers os sys i devPath dirs =
     cswp_check (c_map 0 (length dirs) (\<lambda>j. dir_regs sys (cstr devPath) (dirs ! j))) (\<lambda>regs.
     let paths = concat (map2 (\<lambda>dir names. map (reg_path dir) names) dirs regs) in
     cswp_check (c_map 0 (length paths) (\<lambda>j. sub_path (paths ! j))) (put_registers os i))"

text \<open>The first directory is the device's own. The copies of directory and file names that are kept
  while the list is built are taken to succeed.\<close>

definition register_directories :: "libc \<Rightarrow> 'm sys \<Rightarrow> c_uint \<Rightarrow> byte list \<Rightarrow> ('m, unit) impl_prog" where
  "register_directories os sys i devPath =
     cswp_check (scandir sys (cstr devPath) dir_filter) (\<lambda>subdirs.
     build_registers os sys i devPath (None # map Some subdirs))"

definition cswp_server_impl_cs_device_build_regs :: "libc \<Rightarrow> 'm sys \<Rightarrow> c_uint \<Rightarrow> ('m, unit) impl_prog" where
  "cswp_server_impl_cs_device_build_regs os sys i =
     cswp_check (get_dev i) (\<lambda>d. case path d of
         None \<Rightarrow> fail (res_val CSWP_NOT_INITIALIZED)
       | Some devPath \<Rightarrow> register_directories os sys i devPath)"

text \<open>A device behind a MEM-AP has 4095 registers, and no descriptions of them. The flag is set even
  if the list could not be built.\<close>

definition cswp_server_impl_device_discover_regs :: "libc \<Rightarrow> 'm sys \<Rightarrow> c_uint \<Rightarrow> ('m, unit) impl_prog" where
  "cswp_server_impl_device_discover_regs os sys i =
     (let found = cswp_check (get_dev i) (\<lambda>d. put_dev i (d\<lparr>regsDiscovered := True\<rparr>)) in
      cswp_check get_priv (\<lambda>_.
      cswp_check (get_type i) (\<lambda>t.
      cswp_check (is_mem_ap_type t) (\<lambda>ap.
      if ap then
        cswp_check (get_info i) (\<lambda>inf.
        cswp_check (put_info i (inf\<lparr>registerCount := 4095\<rparr>)) (\<lambda>_. found))
      else
        cswp_check (get_dev i) (\<lambda>d.
        if path d = None \<or> map_option cstr (path d) = Some DEV_MEM then found
        else attempt (cswp_server_impl_cs_device_build_regs os sys i)
          (\<lambda>res. cswp_check found (\<lambda>_. fail res)) (\<lambda>_. found))))))"

definition cswp_server_impl_reg_list_build :: "libc \<Rightarrow> 'm sys \<Rightarrow> c_uint \<Rightarrow> ('m, unit) impl_prog" where
  "cswp_server_impl_reg_list_build os sys i =
     cswp_check (get_dev i) (\<lambda>d.
     if regsDiscovered d then ret () else cswp_server_impl_device_discover_regs os sys i)"

subsection \<open>Numbers in text\<close>

text \<open>\<open>strtol\<close> and \<open>strtoul\<close> in base 16: white space, a sign, an optional prefix that a digit
  follows, digits. \<open>None\<close> stands for \<open>ERANGE\<close>.\<close>

fun hex_digit :: "byte \<Rightarrow> nat option" where
  "hex_digit c = (if 48 \<le> c \<and> c \<le> 57 then Some (unat c - 48)
     else if 65 \<le> c \<and> c \<le> 70 then Some (unat c - 55)
     else if 97 \<le> c \<and> c \<le> 102 then Some (unat c - 87)
     else None)"

fun hex_value :: "nat \<Rightarrow> byte list \<Rightarrow> nat" where
  "hex_value n [] = n"
| "hex_value n (c # r) = (case hex_digit c of None \<Rightarrow> n | Some d \<Rightarrow> hex_value (16 * n + d) r)"

definition hex_prefix :: "byte list \<Rightarrow> bool" where
  "hex_prefix s \<longleftrightarrow> 2 < length s \<and> s ! 0 = 48 \<and> (s ! 1 = 88 \<or> s ! 1 = 120) \<and> hex_digit (s ! 2) \<noteq> None"

definition hex_body :: "byte list \<Rightarrow> nat" where
  "hex_body s = hex_value 0 (if hex_prefix s then drop 2 s else s)"

definition is_space :: "byte \<Rightarrow> bool" where
  "is_space c \<longleftrightarrow> c = 32 \<or> 9 \<le> c \<and> c \<le> 13"

definition parse_hex :: "byte list \<Rightarrow> bool \<times> nat" where
  "parse_hex s = (case dropWhile is_space s of
       [] \<Rightarrow> (False, 0)
     | c # r \<Rightarrow> if c = 45 then (True, hex_body r) else if c = 43 then (False, hex_body r)
         else (False, hex_body (c # r)))"

definition strtol16 :: "byte list \<Rightarrow> 64 word" where
  "strtol16 s = (case parse_hex s of (neg, n) \<Rightarrow>
     word_of_int (max (- (2 ^ 63)) (min (2 ^ 63 - 1) (if neg then - int n else int n))))"

definition strtoul16 :: "byte list \<Rightarrow> 64 word option" where
  "strtoul16 s = (case parse_hex s of (neg, n) \<Rightarrow>
     if 2 ^ 64 \<le> n then None else Some (if neg then - of_nat n else of_nat n))"

text \<open>\<open>%08x\<close>.\<close>

definition fmt_08x :: "c_uint \<Rightarrow> byte list" where
  "fmt_08x v = map (\<lambda>c. if 65 \<le> c then c + 32 else c) (fmt_08X v)"

subsection \<open>Configuration\<close>

definition cswp_server_impl_set_config :: "libc \<Rightarrow> c_uint \<Rightarrow> byte list \<Rightarrow> byte list \<Rightarrow> ('m, unit) impl_prog" where
  "cswp_server_impl_set_config os i name val =
     cswp_check get_priv (\<lambda>_.
     cswp_check (get_type i) (\<lambda>t.
     cswp_check (c_streq ''linux.cscomp'' t) (\<lambda>linux.
     if linux then
       if cstr name = bytes_of ''PATH'' then
         if MAX_DEV_PATH \<le> length (cstr val) then fail (res_val CSWP_BAD_ARGS)
         else
           cswp_check (get_dev i) (\<lambda>d.
           if map_option cstr (path d) \<noteq> Some (cstr val)
           then put_dev i (d\<lparr>path := strdup os val, regsDiscovered := False\<rparr>) else ret ())
       else fail (res_val CSWP_BAD_ARGS)
     else
       cswp_check (is_mem_ap_type t) (\<lambda>ap.
       if ap then
         if cstr name = bytes_of ''BASE_ADDRESS'' then
           cswp_check (get_dev i) (\<lambda>d. put_dev i (d\<lparr>dev_address := ucast (strtol16 (cstr val))\<rparr>))
         else fail (res_val CSWP_BAD_ARGS)
       else ret ()))))"

definition cswp_server_fill_config :: "byte list \<Rightarrow> size_t \<Rightarrow> ('s, byte list) prog" where
  "cswp_server_fill_config val bufSize =
     (if unat bufSize \<le> length val then fail (res_val CSWP_BAD_ARGS) else ret val)"

definition cswp_server_impl_get_config :: "c_uint \<Rightarrow> byte list \<Rightarrow> size_t \<Rightarrow> ('m, byte list) impl_prog" where
  "cswp_server_impl_get_config i name valueSize =
     cswp_check get_priv (\<lambda>_.
     if cstr name = bytes_of ''CONFIG_ITEMS'' then cswp_server_fill_config (bytes_of ''PATH'') valueSize
     else if cstr name = bytes_of ''PATH'' then
       cswp_check (get_dev i) (\<lambda>d.
       cswp_server_fill_config (case path d of None \<Rightarrow> [] | Some p \<Rightarrow> cstr p) valueSize)
     else if cstr name = bytes_of ''ADDRESS'' then
       cswp_check (get_dev i) (\<lambda>d.
       cswp_server_fill_config (bytes_of ''0x'' @ fmt_08x (dev_address d)) valueSize)
     else fail (res_val CSWP_BAD_ARGS))"

text \<open>The capabilities by type.\<close>

definition type_capabilities :: "byte list \<Rightarrow> 64 word" where
  "type_capabilities t =
     (if t = bytes_of ''mem-ap.v2'' then CSWP_CAP_REG OR CSWP_CAP_MEM OR CSWP_CAP_MEM_POLL
      else if t = bytes_of ''mem-ap.v1'' then CSWP_CAP_REG OR CSWP_CAP_MEM OR CSWP_CAP_MEM_POLL
      else if t = bytes_of ''memory'' then CSWP_CAP_MEM OR CSWP_CAP_MEM_POLL
      else if t = bytes_of ''dap.v6'' then CSWP_CAP_REG
      else if t = bytes_of ''dap.v5'' then CSWP_CAP_REG
      else if t = bytes_of ''jtag.ap'' then CSWP_CAP_REG
      else if t = bytes_of ''cscomp'' then CSWP_CAP_REG
      else if t = bytes_of ''linux.cscomp'' then CSWP_CAP_REG
      else CSWP_CAP_REG OR CSWP_CAP_MEM OR CSWP_CAP_MEM_POLL)"

definition cswp_server_impl_get_device_capabilities :: "c_uint \<Rightarrow> ('m, 64 word \<times> 64 word) impl_prog" where
  "cswp_server_impl_get_device_capabilities i =
     cswp_check (get_type i) (\<lambda>t. case t of
         None \<Rightarrow> undef NullDeref
       | Some s \<Rightarrow> ret (type_capabilities (cstr s), 0))"

end
