(* ===== verification/Target_Memory.thy ===== *)
theory Target_Memory
  imports Target_Impl Codec
begin

text \<open>
  The second half of \<^verbatim>\<open>target/cswp_server/cswp_impl.c\<close>: copies in units of an access width, 32-bit
  accesses to device registers through \<^verbatim>\<open>/dev/mem\<close>, registers, memory access and polling. A mapped
  region is its physical address and length; each unit a copy moves is one access of the machine.
  A device whose type starts with \<^verbatim>\<open>mem-ap\<close> is a MEM-AP: memory behind it is reached through its
  CSW, TAR and DRW registers.
\<close>

subsection \<open>Memory objects\<close>

text \<open>Reading and writing part of an object, and through a pointer that may be null.\<close>

definition obj_load :: "byte list \<Rightarrow> nat \<Rightarrow> nat \<Rightarrow> ('s, byte list) prog" where
  "obj_load xs off w = (if off + w \<le> length xs then ret (take w (drop off xs)) else undef OutOfBounds)"

definition obj_store :: "nat \<Rightarrow> byte list \<Rightarrow> byte list \<Rightarrow> ('s, byte list) prog" where
  "obj_store off bs xs = (if off + length bs \<le> length xs
     then ret (take off xs @ bs @ drop (off + length bs) xs) else undef OutOfBounds)"

definition buf_store :: "nat \<Rightarrow> byte list \<Rightarrow> byte list option \<Rightarrow> ('s, byte list option) prog" where
  "buf_store off bs p = (case p of None \<Rightarrow> undef NullDeref
     | Some xs \<Rightarrow> cswp_check (obj_store off bs xs) (\<lambda>ys. ret (Some ys)))"

text \<open>The value of a little-endian object.\<close>

definition le_word :: "byte list \<Rightarrow> c_uint" where
  "le_word bs = foldr (\<lambda>b v. ucast b OR push_bit 8 v) bs 0"

subsection \<open>Copying\<close>

text \<open>\<open>rd\<close> and \<open>wr\<close> access the source and the destination at an offset; \<open>'d\<close> is the destination where
  it is an object of the program.\<close>

definition copy_units :: "nat \<Rightarrow> (nat \<Rightarrow> nat \<Rightarrow> ('s, byte list) prog) \<Rightarrow> (nat \<Rightarrow> byte list \<Rightarrow> 'd \<Rightarrow> ('s, 'd) prog)
    \<Rightarrow> size_t \<Rightarrow> 'd \<Rightarrow> ('s, 'd) prog" where
  "copy_units w rd wr sz = c_fold 0 (unat sz div w) (\<lambda>i d. cswp_check (rd (i * w) w) (\<lambda>bs. wr (i * w) bs d))"

definition copy_8 :: "(nat \<Rightarrow> nat \<Rightarrow> ('s, byte list) prog) \<Rightarrow> (nat \<Rightarrow> byte list \<Rightarrow> 'd \<Rightarrow> ('s, 'd) prog)
    \<Rightarrow> size_t \<Rightarrow> 'd \<Rightarrow> ('s, 'd) prog" where
  "copy_8 rd wr sz d = copy_units 1 rd wr sz d"

definition copy_16 :: "(nat \<Rightarrow> nat \<Rightarrow> ('s, byte list) prog) \<Rightarrow> (nat \<Rightarrow> byte list \<Rightarrow> 'd \<Rightarrow> ('s, 'd) prog)
    \<Rightarrow> size_t \<Rightarrow> 'd \<Rightarrow> ('s, 'd) prog" where
  "copy_16 rd wr sz d = (if sz mod 2 \<noteq> 0 then fail (res_val CSWP_BAD_ARGS) else copy_units 2 rd wr sz d)"

definition copy_32 :: "(nat \<Rightarrow> nat \<Rightarrow> ('s, byte list) prog) \<Rightarrow> (nat \<Rightarrow> byte list \<Rightarrow> 'd \<Rightarrow> ('s, 'd) prog)
    \<Rightarrow> size_t \<Rightarrow> 'd \<Rightarrow> ('s, 'd) prog" where
  "copy_32 rd wr sz d = (if sz mod 4 \<noteq> 0 then fail (res_val CSWP_BAD_ARGS) else copy_units 4 rd wr sz d)"

definition copy_64 :: "(nat \<Rightarrow> nat \<Rightarrow> ('s, byte list) prog) \<Rightarrow> (nat \<Rightarrow> byte list \<Rightarrow> 'd \<Rightarrow> ('s, 'd) prog)
    \<Rightarrow> size_t \<Rightarrow> 'd \<Rightarrow> ('s, 'd) prog" where
  "copy_64 rd wr sz d = (if sz mod 8 \<noteq> 0 then fail (res_val CSWP_BAD_ARGS) else copy_units 8 rd wr sz d)"

definition copy :: "(nat \<Rightarrow> nat \<Rightarrow> ('s, byte list) prog) \<Rightarrow> (nat \<Rightarrow> byte list \<Rightarrow> 'd \<Rightarrow> ('s, 'd) prog)
    \<Rightarrow> size_t \<Rightarrow> c_uint \<Rightarrow> 'd \<Rightarrow> ('s, 'd) prog" where
  "copy rd wr sz accessSize d =
     (if accessSize = access_val CSWP_ACCESS_SIZE_16 then copy_16 rd wr sz d
      else if accessSize = access_val CSWP_ACCESS_SIZE_32 then copy_32 rd wr sz d
      else if accessSize = access_val CSWP_ACCESS_SIZE_64 then copy_64 rd wr sz d
      else copy_8 rd wr sz d)"

subsection \<open>Mapped memory\<close>

text \<open>\<open>map_offset\<close> is where the address asked for lies in the mapping.\<close>

record mapped_t =
  map_addr :: "64 word"
  map_size :: size_t
  map_offset :: nat

definition map_region :: "'m sys \<Rightarrow> byte list \<Rightarrow> bool \<Rightarrow> 64 word \<Rightarrow> size_t \<Rightarrow> ('m, mapped_t) impl_prog" where
  "map_region sys file writable address sz =
     (let pageSize = page_size sys;
          pageAddr = address AND NOT (pageSize - 1);
          pages = (address + sz - pageAddr + pageSize - 1) div pageSize
      in
      cswp_check (machine_of (mmap_file sys file writable (pageSize * pages) pageAddr)) (\<lambda>ok.
      if ok then ret \<lparr>map_addr = pageAddr, map_size = pageSize * pages, map_offset = unat (address - pageAddr)\<rparr>
      else fail (res_val CSWP_MEM_FAILED)))"

text \<open>One access at an offset from the address asked for; \<open>fault\<close> is what the process does on
  \<open>SIGBUS\<close>.\<close>

definition bus_load :: "'m sys \<Rightarrow> mapped_t \<Rightarrow> ('m, byte list) impl_prog \<Rightarrow> nat \<Rightarrow> nat \<Rightarrow> ('m, byte list) impl_prog" where
  "bus_load sys mp fault off w =
     (if unat (map_size mp) < map_offset mp + off + w then undef OutOfBounds
      else cswp_check (machine_of (load sys w (map_addr mp + of_nat (map_offset mp + off)))) (\<lambda>r. case r of
          None \<Rightarrow> fault
        | Some (bs, m) \<Rightarrow> cswp_check (set_machine m) (\<lambda>_. ret bs)))"

definition bus_store :: "'m sys \<Rightarrow> mapped_t \<Rightarrow> ('m, unit) impl_prog \<Rightarrow> nat \<Rightarrow> byte list \<Rightarrow> unit \<Rightarrow> ('m, unit) impl_prog" where
  "bus_store sys mp fault off bs u =
     (if unat (map_size mp) < map_offset mp + off + length bs then undef OutOfBounds
      else cswp_check (machine_of (store sys (map_addr mp + of_nat (map_offset mp + off)) bs)) (\<lambda>r. case r of
          None \<Rightarrow> fault
        | Some m \<Rightarrow> set_machine m))"

text \<open>The handler of \<open>SIGBUS\<close> jumps back into \<open>do_32bit_read\<close> and \<open>do_32bit_write\<close>; outside of them it
  ends the process. \<open>fd\<close> is whether the file could be opened.\<close>

definition do_32bit_read :: "'m sys \<Rightarrow> bool \<Rightarrow> 64 word \<Rightarrow> ('m, c_uint) impl_prog" where
  "do_32bit_read sys fd address =
     (if \<not> fd then fail (res_val CSWP_MEM_FAILED)
      else
        cswp_check (map_region sys DEV_MEM False address 4) (\<lambda>mp.
        cswp_check (copy_32 (bus_load sys mp (fail (res_val CSWP_MEM_FAILED))) obj_store 4 (replicate 4 0)) (\<lambda>bs.
        ret (le_word bs))))"

definition do_32bit_write :: "'m sys \<Rightarrow> bool \<Rightarrow> 64 word \<Rightarrow> c_uint \<Rightarrow> ('m, unit) impl_prog" where
  "do_32bit_write sys fd address v =
     (if \<not> fd then fail (res_val CSWP_MEM_FAILED)
      else
        cswp_check (map_region sys DEV_MEM True address 4) (\<lambda>mp.
        copy_32 (obj_load (le_bytes 4 v)) (bus_store sys mp (fail (res_val CSWP_MEM_FAILED))) 4 ()))"

subsection \<open>Access widths of a MEM-AP\<close>

text \<open>A width is supported if the size field of the CSW register keeps the value written to it.\<close>

definition ap_register :: "c_uint \<Rightarrow> c_uint \<Rightarrow> ('m, 64 word) impl_prog" where
  "ap_register i off = cswp_check (get_dev i) (\<lambda>d. ret (ucast (dev_address d OR off)))"

definition probe_width :: "'m sys \<Rightarrow> bool \<Rightarrow> c_uint \<Rightarrow> c_uint \<Rightarrow> byte \<Rightarrow> ('m, unit) impl_prog" where
  "probe_width sys fd i cswVal flag =
     cswp_check (ap_register i CORESIGHT_CSW_OFFSET) (\<lambda>csw.
     cswp_check (do_32bit_write sys fd csw cswVal) (\<lambda>_.
     cswp_check (do_32bit_read sys fd csw) (\<lambda>buf.
     if buf AND 7 = cswVal
     then cswp_check (get_dev i) (\<lambda>d. put_dev i (d\<lparr>supportedAccessWidths := supportedAccessWidths d OR flag\<rparr>))
     else ret ())))"

definition determine_supported_access_widths :: "'m sys \<Rightarrow> bool \<Rightarrow> c_uint \<Rightarrow> ('m, unit) impl_prog" where
  "determine_supported_access_widths sys fd i =
     cswp_check (probe_width sys fd i 0 WIDTH_8_MASK) (\<lambda>_.
     cswp_check (probe_width sys fd i 1 WIDTH_16_MASK) (\<lambda>_.
     cswp_check (probe_width sys fd i 2 WIDTH_32_MASK) (\<lambda>_.
     cswp_check (get_dev i) (\<lambda>d.
     put_dev i (d\<lparr>supportedAccessWidths := supportedAccessWidths d OR WIDTHS_DETERMINED_MASK\<rparr>)))))"

definition get_csw_size_value :: "'m sys \<Rightarrow> c_uint \<Rightarrow> c_uint \<Rightarrow> ('m, byte) impl_prog" where
  "get_csw_size_value sys i access_size =
     cswp_check (get_dev i) (\<lambda>d.
     cswp_check (if supportedAccessWidths d AND WIDTHS_DETERMINED_MASK = 0
       then cswp_check (machine_of (open_file sys DEV_MEM True)) (\<lambda>fd. determine_supported_access_widths sys fd i)
       else ret ()) (\<lambda>_.
     cswp_check (get_dev i) (\<lambda>d.
     let widths = supportedAccessWidths d in
     if (access_size = access_val CSWP_ACCESS_SIZE_32 \<or> access_size = access_val CSWP_ACCESS_SIZE_DEF)
       \<and> widths AND WIDTH_32_MASK \<noteq> 0 then ret 2
     else if access_size = access_val CSWP_ACCESS_SIZE_16 \<and> widths AND WIDTH_16_MASK \<noteq> 0 then ret 1
     else if access_size = access_val CSWP_ACCESS_SIZE_8 \<and> widths AND WIDTH_8_MASK \<noteq> 0 then ret 0
     else fail (res_val CSWP_MEM_BAD_ACCESS_SIZE))))"

subsection \<open>Registers\<close>

text \<open>The path and the type of a device, which both have to be set.\<close>

definition device_ready :: "c_uint \<Rightarrow> ('m, byte list \<times> byte list) impl_prog" where
  "device_ready i =
     cswp_check (get_dev i) (\<lambda>d. case path d of
         None \<Rightarrow> fail (res_val CSWP_NOT_INITIALIZED)
       | Some p \<Rightarrow> cswp_check (get_type i) (\<lambda>t. case t of
           None \<Rightarrow> fail (res_val CSWP_NOT_INITIALIZED)
         | Some t \<Rightarrow> ret (cstr p, t)))"

text \<open>The checks of a register access: the device's path and whether it is a MEM-AP.\<close>

definition reg_device :: "libc \<Rightarrow> 'm sys \<Rightarrow> c_uint \<Rightarrow> c_int \<Rightarrow> ('m, byte list \<times> bool) impl_prog" where
  "reg_device os sys i registerID =
     cswp_check (device_ready i) (\<lambda>(p, t).
     cswp_check (get_dev i) (\<lambda>d.
     cswp_check (if regsDiscovered d then ret () else cswp_server_impl_device_discover_regs os sys i) (\<lambda>_.
     cswp_check (get_info i) (\<lambda>inf.
     if registerCount inf \<le> registerID then fail (res_val CSWP_BAD_ARGS)
     else cswp_check (is_mem_ap_type (Some t)) (\<lambda>ap. ret (p, ap))))))"

text \<open>The driver file of a register. \<open>snprintf\<close> is given one byte less than \<open>regPath\<close> has.\<close>

definition reg_file :: "c_uint \<Rightarrow> byte list \<Rightarrow> c_int \<Rightarrow> ('m, byte list) impl_prog" where
  "reg_file i devPath registerID =
     cswp_check (get_info i) (\<lambda>inf.
     cswp_check (nth_p (registerInfo inf) (unat registerID)) (\<lambda>r. case reg_name r of
         None \<Rightarrow> undef NullDeref
       | Some name \<Rightarrow> ret (take 254 (devPath @ bytes_of ''/'' @ cstr name))))"

text \<open>\<open>rdBuf\<close> has 64 bytes, all of which \<open>read\<close> may fill; the terminator goes after what was read.\<close>

definition cswp_server_impl_reg_read :: "libc \<Rightarrow> 'm sys \<Rightarrow> c_uint \<Rightarrow> c_int \<Rightarrow> ('m, c_uint) impl_prog" where
  "cswp_server_impl_reg_read os sys i registerID =
     cswp_check (reg_device os sys i registerID) (\<lambda>(devPath, ap).
     if ap then
       cswp_check (machine_of (open_file sys DEV_MEM False)) (\<lambda>fd.
       if \<not> fd then fail (res_val CSWP_REG_FAILED)
       else cswp_check (ap_register i registerID) (do_32bit_read sys fd))
     else
       cswp_check (reg_file i devPath registerID) (\<lambda>regPath.
       cswp_check (machine_of (open_file sys regPath False)) (\<lambda>fd.
       if \<not> fd then fail (res_val CSWP_REG_FAILED)
       else
         cswp_check (machine_of (read_attr sys regPath 64)) (\<lambda>r. case r of
             None \<Rightarrow> fail (res_val CSWP_REG_FAILED)
           | Some (rdBuf, m) \<Rightarrow>
               cswp_check (set_machine m) (\<lambda>_.
               if 64 \<le> length rdBuf then undef OutOfBounds
               else (case strtoul16 (cstr rdBuf) of
                   None \<Rightarrow> fail (res_val CSWP_REG_FAILED)
                 | Some v \<Rightarrow> ret (ucast v)))))))"

text \<open>All 64 bytes of \<open>wrBuf\<close> are written, those after the number as the stack had them.\<close>

definition reg_text :: "'m sys \<Rightarrow> c_uint \<Rightarrow> byte list" where
  "reg_text sys v = (let text = digits 16 (unat v) @ [0] in text @ take (63 - length text) (drop (length text) (stack_bytes sys 64)) @ [0])"

definition cswp_server_impl_reg_write :: "libc \<Rightarrow> 'm sys \<Rightarrow> c_uint \<Rightarrow> c_int \<Rightarrow> c_uint \<Rightarrow> ('m, unit) impl_prog" where
  "cswp_server_impl_reg_write os sys i registerID v =
     cswp_check (reg_device os sys i registerID) (\<lambda>(devPath, ap).
     if ap then
       cswp_check (machine_of (open_file sys DEV_MEM True)) (\<lambda>fd.
       if \<not> fd then fail (res_val CSWP_REG_FAILED)
       else cswp_check (ap_register i registerID) (\<lambda>address. do_32bit_write sys fd address v))
     else
       cswp_check (reg_file i devPath registerID) (\<lambda>regPath.
       cswp_check (machine_of (open_file sys regPath True)) (\<lambda>fd.
       if \<not> fd then fail (res_val CSWP_REG_FAILED)
       else
         cswp_check (machine_of (write_attr sys regPath (reg_text sys v))) (\<lambda>r. case r of
             None \<Rightarrow> fail (res_val CSWP_REG_FAILED)
           | Some m \<Rightarrow> set_machine m))))"

subsection \<open>Memory\<close>

text \<open>\<open>1 << (accessSize - 1)\<close>, a shift of an \<open>int\<close> by an unsigned number.\<close>

definition access_bytes :: "c_uint \<Rightarrow> ('s, c_uint) prog" where
  "access_bytes accessSize = (if accessSize - 1 < 32 then ret (push_bit (unat (accessSize - 1)) 1) else undef BadShift)"

text \<open>The common checks: the device's path, whether it is a MEM-AP, and the access width in bytes.\<close>

definition mem_device :: "c_uint \<Rightarrow> c_uint \<Rightarrow> c_uint \<Rightarrow> ('m, byte list \<times> bool \<times> c_uint) impl_prog" where
  "mem_device i accessSize flags =
     cswp_check (device_ready i) (\<lambda>(p, t).
     if i \<noteq> 0 then fail (res_val CSWP_UNSUPPORTED)
     else if flags AND CSWP_MEM_NO_ADDR_INC \<noteq> 0 \<and> accessSize = access_val CSWP_ACCESS_SIZE_DEF
     then fail (res_val CSWP_BAD_ARGS)
     else
       cswp_check (access_bytes accessSize) (\<lambda>accessSizeBytes.
       cswp_check (is_mem_ap_type (Some t)) (\<lambda>ap. ret (p, ap, accessSizeBytes))))"

definition ap_setup :: "'m sys \<Rightarrow> bool \<Rightarrow> c_uint \<Rightarrow> c_uint \<Rightarrow> 64 word \<Rightarrow> ('m, unit) impl_prog" where
  "ap_setup sys fd i cswVal address =
     cswp_check (ap_register i CORESIGHT_CSW_OFFSET) (\<lambda>csw.
     cswp_check (do_32bit_write sys fd csw cswVal) (\<lambda>_.
     cswp_check (ap_register i CORESIGHT_TAR_OFFSET) (\<lambda>tar.
     do_32bit_write sys fd tar (ucast (address AND 0xFFFFFFFF)))))"

text \<open>The value of \<open>cswVal\<close> for a transfer.\<close>

definition csw_value :: "byte \<Rightarrow> c_uint \<Rightarrow> c_uint" where
  "csw_value cswSize flags = CORESIGHT_MEMAP_CSW OR ucast cswSize
     OR (if flags AND CSWP_MEM_NO_ADDR_INC \<noteq> 0 then 0 else CORESIGHT_CSW_ADDR_INC)"

text \<open>The byte lanes of the data register.\<close>

definition lane_read :: "c_uint \<Rightarrow> c_uint \<Rightarrow> c_uint \<Rightarrow> c_uint" where
  "lane_read accessSize currAddr data =
     (if accessSize = access_val CSWP_ACCESS_SIZE_8 then drop_bit (8 * unat (currAddr AND 3)) data AND 0xFF
      else if accessSize = access_val CSWP_ACCESS_SIZE_16 then drop_bit (8 * unat (currAddr AND 2)) data AND 0xFFFF
      else data)"

definition lane_write :: "c_uint \<Rightarrow> c_uint \<Rightarrow> c_uint \<Rightarrow> c_uint" where
  "lane_write accessSize currAddr data =
     (if accessSize = access_val CSWP_ACCESS_SIZE_8 then push_bit (8 * unat (currAddr AND 3)) data AND 0xFF
      else if accessSize = access_val CSWP_ACCESS_SIZE_16 then push_bit (8 * unat (currAddr AND 2)) data AND 0xFFFF
      else data)"

text \<open>The address of unit \<open>k\<close>, cut to 32 bits.\<close>

definition unit_addr :: "64 word \<Rightarrow> nat \<Rightarrow> c_uint \<Rightarrow> c_uint" where
  "unit_addr address k accessSizeBytes = ucast (address + of_nat k * ucast accessSizeBytes)"

text \<open>\<open>copy\<close> of a local variable to unit \<open>k\<close> of \<open>pData\<close>, its result code dropped.\<close>

definition store_unit :: "c_uint \<Rightarrow> c_uint \<Rightarrow> nat \<Rightarrow> c_uint \<Rightarrow> byte list option \<Rightarrow> ('s, byte list option) prog" where
  "store_unit accessSize accessSizeBytes k copyData p =
     attempt (copy (obj_load (le_bytes 4 copyData)) (\<lambda>o'. buf_store (k * unat accessSizeBytes + o'))
         (ucast accessSizeBytes) accessSize p)
       (\<lambda>_. ret p) ret"

definition ap_read_unit :: "'m sys \<Rightarrow> bool \<Rightarrow> c_uint \<Rightarrow> 64 word \<Rightarrow> c_uint \<Rightarrow> c_uint \<Rightarrow> nat \<Rightarrow> byte list option
    \<Rightarrow> ('m, byte list option) impl_prog" where
  "ap_read_unit sys fd i address accessSize accessSizeBytes k p =
     cswp_check (ap_register i CORESIGHT_DRW_OFFSET) (\<lambda>drw.
     cswp_check (do_32bit_read sys fd drw) (\<lambda>data.
     store_unit accessSize accessSizeBytes k (lane_read accessSize (unit_addr address k accessSizeBytes) data) p))"

definition cswp_server_impl_mem_read :: "'m sys \<Rightarrow> c_uint \<Rightarrow> 64 word \<Rightarrow> size_t \<Rightarrow> c_uint \<Rightarrow> c_uint \<Rightarrow> byte list option
    \<Rightarrow> ('m, byte list option) impl_prog" where
  "cswp_server_impl_mem_read sys i address sz accessSize flags pData =
     cswp_check (mem_device i accessSize flags) (\<lambda>(devPath, ap, accessSizeBytes).
     let units = unat (sz div ucast accessSizeBytes) in
     if ap then
       cswp_check (machine_of (open_file sys DEV_MEM True)) (\<lambda>fd.
       cswp_check (get_csw_size_value sys i accessSize) (\<lambda>cswSize.
       cswp_check (ap_setup sys fd i (csw_value cswSize flags) address) (\<lambda>_.
       c_fold 0 units (ap_read_unit sys fd i address accessSize accessSizeBytes) pData)))
     else
       cswp_check (machine_of (open_file sys devPath False)) (\<lambda>fd.
       if \<not> fd then fail (res_val CSWP_MEM_FAILED)
       else
         cswp_check (map_region sys devPath False address sz) (\<lambda>mp.
         if flags AND CSWP_MEM_NO_ADDR_INC \<noteq> 0
         then c_fold 0 units (\<lambda>k. copy (bus_load sys mp (undef Killed))
                (\<lambda>o'. buf_store (k * unat accessSizeBytes + o')) (ucast accessSizeBytes) accessSize) pData
         else copy (bus_load sys mp (undef Killed)) buf_store sz accessSize pData)))"

text \<open>\<open>data\<close> is a local variable of which the copy sets only the bytes of one unit.\<close>

definition load_unit :: "'m sys \<Rightarrow> c_uint \<Rightarrow> c_uint \<Rightarrow> nat \<Rightarrow> byte list \<Rightarrow> ('s, c_uint) prog" where
  "load_unit sys accessSize accessSizeBytes k pData =
     attempt (copy (\<lambda>o'. obj_load pData (k * unat accessSizeBytes + o')) obj_store
         (ucast accessSizeBytes) accessSize (stack_bytes sys 4))
       (\<lambda>_. ret (le_word (stack_bytes sys 4))) (\<lambda>data. ret (le_word data))"

definition ap_write_unit :: "'m sys \<Rightarrow> bool \<Rightarrow> c_uint \<Rightarrow> 64 word \<Rightarrow> c_uint \<Rightarrow> c_uint \<Rightarrow> byte list \<Rightarrow> nat
    \<Rightarrow> ('m, unit) impl_prog" where
  "ap_write_unit sys fd i address accessSize accessSizeBytes pData k =
     cswp_check (load_unit sys accessSize accessSizeBytes k pData) (\<lambda>data.
     cswp_check (ap_register i CORESIGHT_DRW_OFFSET) (\<lambda>drw.
     do_32bit_write sys fd drw (lane_write accessSize (unit_addr address k accessSizeBytes) data)))"

definition cswp_server_impl_mem_write :: "'m sys \<Rightarrow> c_uint \<Rightarrow> 64 word \<Rightarrow> size_t \<Rightarrow> c_uint \<Rightarrow> c_uint \<Rightarrow> byte list
    \<Rightarrow> ('m, unit) impl_prog" where
  "cswp_server_impl_mem_write sys i address sz accessSize flags pData =
     cswp_check (mem_device i accessSize flags) (\<lambda>(devPath, ap, accessSizeBytes).
     let units = unat (sz div ucast accessSizeBytes) in
     if ap then
       cswp_check (machine_of (open_file sys DEV_MEM True)) (\<lambda>fd.
       cswp_check (get_csw_size_value sys i accessSize) (\<lambda>cswSize.
       cswp_check (ap_setup sys fd i (csw_value cswSize flags) address) (\<lambda>_.
       c_for 0 units (ap_write_unit sys fd i address accessSize accessSizeBytes pData))))
     else
       cswp_check (machine_of (open_file sys devPath True)) (\<lambda>fd.
       if \<not> fd then fail (res_val CSWP_MEM_FAILED)
       else
         cswp_check (map_region sys devPath True address sz) (\<lambda>mp.
         if flags AND CSWP_MEM_NO_ADDR_INC \<noteq> 0
         then c_for 0 units (\<lambda>k. copy (\<lambda>o'. obj_load pData (k * unat accessSizeBytes + o'))
                (bus_store sys mp (undef Killed)) (ucast accessSizeBytes) accessSize ())
         else copy (obj_load pData) (bus_store sys mp (undef Killed)) sz accessSize ())))"

subsection \<open>Polling\<close>

text \<open>\<open>buf[i] = vs[i] & ms[i]\<close> for the first \<open>n\<close> elements; \<open>step\<close> is the increment of the counter.\<close>

definition masked_copy :: "nat \<Rightarrow> (nat \<Rightarrow> ('s, unit) prog) \<Rightarrow> byte list option \<Rightarrow> byte list \<Rightarrow> byte list option
    \<Rightarrow> ('s, byte list option) prog" where
  "masked_copy n step vs ms = c_fold 0 n (\<lambda>i buf.
     cswp_check (nth_p vs i) (\<lambda>v.
     cswp_check (nth_c ms i) (\<lambda>m.
     cswp_check (update_p buf i (v AND m)) (\<lambda>buf.
     cswp_check (step i) (\<lambda>_. ret buf)))))"

definition no_overflow :: "nat \<Rightarrow> ('s, unit) prog" where
  "no_overflow i = ret ()"

definition the_block :: "byte list option \<Rightarrow> byte list" where
  "the_block p = (case p of None \<Rightarrow> [] | Some d \<Rightarrow> d)"

text \<open>The condition on the result of \<open>memcmp\<close>.\<close>

definition poll_matches :: "c_uint \<Rightarrow> nat \<Rightarrow> byte list option \<Rightarrow> byte list option \<Rightarrow> bool" where
  "poll_matches flags n valBuf cmpBuf \<longleftrightarrow>
     (let differ = take n (the_block valBuf) \<noteq> take n (the_block cmpBuf) in
      if flags AND CSWP_MEM_POLL_MATCH_NE \<noteq> 0 then differ else \<not> differ)"

text \<open>\<open>memcpy\<close> of \<open>n\<close> bytes between two pointers.\<close>

definition ptr_copy :: "nat \<Rightarrow> byte list option \<Rightarrow> byte list option \<Rightarrow> ('s, byte list option) prog" where
  "ptr_copy n src dst = (case src of None \<Rightarrow> undef NullDeref
     | Some xs \<Rightarrow> cswp_check (obj_load xs 0 n) (\<lambda>bs. buf_store 0 bs dst))"

text \<open>The data is stored also without a match, where the caller does not look at it.\<close>

definition cswp_server_impl_check_last :: "libc \<Rightarrow> size_t \<Rightarrow> c_uint \<Rightarrow> byte list \<Rightarrow> byte list \<Rightarrow> byte list option
    \<Rightarrow> ('m, byte list option) impl_prog" where
  "cswp_server_impl_check_last os sz flags pMask pValue pData =
     cswp_check get_priv (\<lambda>q.
     if lastPollData q = None \<or> lastPollDataSize q = 0 then fail (res_val CSWP_BAD_ARGS)
     else if ucast (lastPollDataSize q) < sz then fail (res_val CSWP_BAD_ARGS)
     else
       cswp_check (masked_copy (unat sz) int_incr (Some pValue) pMask (malloc os sz)) (\<lambda>cmpBuf.
       cswp_check (masked_copy (unat sz) int_incr (lastPollData q) pMask (malloc os sz)) (\<lambda>valBuf.
       cswp_check (ptr_copy (unat sz) (lastPollData q) pData) (\<lambda>pData.
       if poll_matches flags (unat sz) valBuf cmpBuf then ret pData
       else fail (res_val CSWP_MEM_POLL_NO_MATCH)))))"

text \<open>One round of a loop ends it (\<open>Inl\<close>) or not (\<open>Inr\<close>); \<open>tries\<close> is the counter of the condition.\<close>

fun while_tries :: "nat \<Rightarrow> ('x \<Rightarrow> ('s, 'x + 'x) prog) \<Rightarrow> 'x \<Rightarrow> ('s, 'x) prog" where
  "while_tries 0 body x = ret x"
| "while_tries (Suc tries) body x = cswp_check (body x) (\<lambda>r. case r of
       Inl y \<Rightarrow> ret y
     | Inr y \<Rightarrow> while_tries tries body y)"

text \<open>Masking and comparing what was read. The variable \<open>res\<close> and \<open>pData\<close> are the state of the loop;
  \<open>None\<close> is a \<open>res\<close> that has not been set.\<close>

definition poll_compare :: "size_t \<Rightarrow> c_uint \<Rightarrow> byte list \<Rightarrow> byte list option \<Rightarrow> byte list option \<Rightarrow> byte list option
    \<Rightarrow> ('s, c_int option \<times> byte list option + c_int option \<times> byte list option) prog" where
  "poll_compare sz flags pMask cmpBuf valBuf p =
     cswp_check (masked_copy (unat sz) no_overflow p pMask valBuf) (\<lambda>valBuf.
     ret (if poll_matches flags (unat sz) valBuf cmpBuf then Inl (Some (res_val CSWP_SUCCESS), p)
          else Inr (Some (res_val CSWP_MEM_POLL_NO_MATCH), p)))"

text \<open>A failed read still copies \<open>data\<close>, which then has its old contents; nothing reads the copy.\<close>

definition poll_unit :: "'m sys \<Rightarrow> bool \<Rightarrow> c_uint \<Rightarrow> 64 word \<Rightarrow> c_uint \<Rightarrow> c_uint \<Rightarrow> nat \<Rightarrow> byte list option
    \<Rightarrow> ('m, byte list option) impl_prog" where
  "poll_unit sys fd i address accessSize accessSizeBytes k p =
     cswp_check (ap_register i CORESIGHT_DRW_OFFSET) (\<lambda>drw.
     attempt (do_32bit_read sys fd drw)
       (\<lambda>res. cswp_check (store_unit accessSize accessSizeBytes k (le_word (stack_bytes sys 4)) p) (\<lambda>_. fail res))
       (\<lambda>data. store_unit accessSize accessSizeBytes k
          (lane_read accessSize (unit_addr address k accessSizeBytes) data) p))"

text \<open>The loop over a MEM-AP goes on only while \<open>res\<close> is \<open>CSWP_SUCCESS\<close>.\<close>

definition ap_poll_round :: "'m sys \<Rightarrow> bool \<Rightarrow> c_uint \<Rightarrow> 64 word \<Rightarrow> size_t \<Rightarrow> c_uint \<Rightarrow> c_uint \<Rightarrow> c_uint
    \<Rightarrow> byte list \<Rightarrow> byte list option \<Rightarrow> byte list option \<Rightarrow> c_int option \<times> byte list option
    \<Rightarrow> ('m, c_int option \<times> byte list option + c_int option \<times> byte list option) impl_prog" where
  "ap_poll_round sys fd i address sz accessSize flags accessSizeBytes pMask cmpBuf valBuf = (\<lambda>(res, p).
     if res \<noteq> Some (res_val CSWP_SUCCESS) then ret (Inl (res, p))
     else
       attempt (c_fold 0 (unat (sz div ucast accessSizeBytes)) (poll_unit sys fd i address accessSize accessSizeBytes) p)
         (\<lambda>e. ret (Inl (Some e, p)))
         (poll_compare sz flags pMask cmpBuf valBuf))"

definition map_poll_round :: "'m sys \<Rightarrow> mapped_t \<Rightarrow> size_t \<Rightarrow> c_uint \<Rightarrow> c_uint
    \<Rightarrow> byte list \<Rightarrow> byte list option \<Rightarrow> byte list option \<Rightarrow> c_int option \<times> byte list option
    \<Rightarrow> ('m, c_int option \<times> byte list option + c_int option \<times> byte list option) impl_prog" where
  "map_poll_round sys mp sz accessSize flags pMask cmpBuf valBuf = (\<lambda>(res, p).
     attempt (copy (bus_load sys mp (undef Killed)) buf_store sz accessSize p)
       (\<lambda>_. ret (Inl (res, p)))
       (poll_compare sz flags pMask cmpBuf valBuf))"

text \<open>The end of the function: what was read is kept for \<open>check_last\<close> if it matched.\<close>

definition finish_poll :: "libc \<Rightarrow> size_t \<Rightarrow> c_int option \<times> byte list option \<Rightarrow> ('m, byte list option) impl_prog" where
  "finish_poll os sz = (\<lambda>(res, p). case res of
       None \<Rightarrow> undef UninitRead
     | Some e \<Rightarrow>
         cswp_check get_priv (\<lambda>q.
         if e = res_val CSWP_SUCCESS then
           (case malloc os sz of
              None \<Rightarrow> cswp_check (put_priv (Some (q\<lparr>lastPollData := None\<rparr>))) (\<lambda>_. fail (res_val CSWP_FAILED))
            | Some blk \<Rightarrow>
                cswp_check (ptr_copy (unat sz) p (Some blk)) (\<lambda>saved.
                cswp_check (put_priv (Some (q\<lparr>lastPollData := saved, lastPollDataSize := ucast sz\<rparr>))) (\<lambda>_. ret p)))
         else
           cswp_check (put_priv (Some (q\<lparr>lastPollData := None, lastPollDataSize := 0\<rparr>))) (\<lambda>_. fail e)))"

definition cswp_server_impl_mem_poll :: "libc \<Rightarrow> 'm sys \<Rightarrow> c_uint \<Rightarrow> 64 word \<Rightarrow> size_t \<Rightarrow> c_uint \<Rightarrow> c_uint \<Rightarrow> c_uint
    \<Rightarrow> c_uint \<Rightarrow> byte list \<Rightarrow> byte list \<Rightarrow> byte list option \<Rightarrow> ('m, byte list option) impl_prog" where
  "cswp_server_impl_mem_poll os sys i address sz accessSize flags tries interval pMask pValue pData =
     cswp_check get_priv (\<lambda>_.
     if flags AND CSWP_MEM_POLL_CHECK_LAST \<noteq> 0 then cswp_server_impl_check_last os sz flags pMask pValue pData
     else
       cswp_check (device_ready i) (\<lambda>(devPath, t).
       if i \<noteq> 0 then fail (res_val CSWP_UNSUPPORTED)
       else if malloc os sz = None then fail (res_val CSWP_FAILED)
       else
         cswp_check (masked_copy (unat sz) no_overflow (Some pValue) pMask (malloc os sz)) (\<lambda>cmpBuf.
         cswp_check (access_bytes accessSize) (\<lambda>accessSizeBytes.
         cswp_check (is_mem_ap_type (Some t)) (\<lambda>ap.
         if ap then
           cswp_check (machine_of (open_file sys DEV_MEM True)) (\<lambda>fd.
           cswp_check (attempt (cswp_check (get_csw_size_value sys i accessSize) (\<lambda>cswSize.
                 ap_setup sys fd i (CORESIGHT_MEMAP_CSW OR ucast cswSize) address))
               (\<lambda>e. ret e) (\<lambda>_. ret (res_val CSWP_SUCCESS))) (\<lambda>res.
           cswp_check (while_tries (unat tries)
               (ap_poll_round sys fd i address sz accessSize flags accessSizeBytes pMask cmpBuf (malloc os sz))
               (Some res, pData)) (finish_poll os sz)))
         else
           cswp_check (machine_of (open_file sys devPath False)) (\<lambda>fd.
           if \<not> fd then fail (res_val CSWP_MEM_FAILED)
           else
             cswp_check (map_region sys devPath False address sz) (\<lambda>mp.
             cswp_check (while_tries (unat tries)
                 (map_poll_round sys mp sz accessSize flags pMask cmpBuf (malloc os sz))
                 (None, pData)) (finish_poll os sz))))))))"

subsection \<open>The table of callbacks\<close>

definition cswpServerImpl :: "libc \<Rightarrow> 'm sys \<Rightarrow> 'm host cswp_server_impl_t" where
  "cswpServerImpl os sys = \<lparr>
     init_cb = Some (cswp_server_impl_init os sys),
     term_cb = Some cswp_server_impl_term,
     init_devices_cb = Some (cswp_server_impl_init_devices os),
     clear_devices_cb = Some cswp_server_impl_clear_devices,
     device_add_cb = Some (cswp_server_impl_device_add os),
     device_open_cb = Some cswp_server_impl_device_open,
     device_close_cb = None,
     set_config_cb = Some (cswp_server_impl_set_config os),
     get_config_cb = Some cswp_server_impl_get_config,
     get_device_capabilities_cb = Some cswp_server_impl_get_device_capabilities,
     register_list_build_cb = Some (cswp_server_impl_reg_list_build os sys),
     register_read_cb = Some (cswp_server_impl_reg_read os sys),
     register_write_cb = Some (cswp_server_impl_reg_write os sys),
     mem_read_cb = Some (cswp_server_impl_mem_read sys),
     mem_write_cb = Some (cswp_server_impl_mem_write sys),
     mem_poll_cb = Some (cswp_server_impl_mem_poll os sys),
     log_cb = Some (cswp_server_impl_log sys)\<rparr>"

end
