(* ===== verification/Device_Lemmas.thy ===== *)
theory Device_Lemmas
  imports Target_Memory Server_Refines
begin

text \<open>
  Lemmas on the reference implementation: running its accesses to the state, the page arithmetic of
  \<open>mmap\<close>, and copies between memory and a buffer. \<open>ram_like\<close> is the contract of ordinary memory, on
  which a copy in any width is a copy of bytes.
\<close>

subsection \<open>Devices of a state\<close>

definition has_device :: "c_uint \<Rightarrow> cswp_server_device_priv_t \<Rightarrow> cstring \<Rightarrow> 'm host cswp_server_state_t \<Rightarrow> bool" where
  "has_device i d t s \<longleftrightarrow> (\<exists>q ds ts. host_priv (priv s) = Some q \<and> devicePriv q = Some ds
     \<and> unat i < length ds \<and> ds ! unat i = d \<and> deviceTypes s = Some ts \<and> unat i < length ts \<and> ts ! unat i = t)"

abbreviation with_machine :: "'m \<Rightarrow> 'm host cswp_server_state_t \<Rightarrow> 'm host cswp_server_state_t" where
  "with_machine m s \<equiv> s\<lparr>priv := (priv s)\<lparr>machine := m\<rparr>\<rparr>"

lemma has_device_with_machine [simp]: "has_device i d t (with_machine m s) \<longleftrightarrow> has_device i d t s"
  by (simp add: has_device_def)

lemma check_machine_of [simp]: "cswp_check (machine_of f) k s = k (f (machine (priv s))) s"
  and check_set_machine [simp]: "cswp_check (set_machine m) k' s = k' () (with_machine m s)"
  and set_machine_apply [simp]: "set_machine m s = Done () (with_machine m s)"
  by (simp_all add: machine_of_def set_machine_def gets_def modify_def cswp_check_def)

lemma get_priv_apply: "host_priv (priv s) = Some q \<Longrightarrow> get_priv s = Done q s"
  and get_priv_NULL: "host_priv (priv s) = None \<Longrightarrow> get_priv s = Undef NullDeref"
  by (simp_all add: get_priv_def gets_def cswp_check_def undef_def)

lemma get_dev_apply: "has_device i d t s \<Longrightarrow> get_dev i s = Done d s"
  by (auto simp: has_device_def get_dev_def get_priv_apply nth_p_def nth_c_def)

lemma get_type_apply: "has_device i d t s \<Longrightarrow> get_type i s = Done t s"
  by (auto simp: has_device_def get_type_def gets_def cswp_check_def nth_p_def nth_c_def)

lemma has_device_priv: "has_device i d t s \<Longrightarrow> \<exists>q. get_priv s = Done q s"
  by (auto simp: has_device_def get_priv_apply)

lemma device_ready_apply:
  "has_device i d (Some t) s \<Longrightarrow> path d = Some p \<Longrightarrow> device_ready i s = Done (cstr p, t) s"
  by (simp add: device_ready_def get_dev_apply get_type_apply)

lemma is_mem_ap_type_Some [simp]: "is_mem_ap_type (Some t) = ret (take 6 (cstr t) = bytes_of ''mem-ap'')"
  by (simp add: is_mem_ap_type_def)

subsection \<open>Loops\<close>

lemma c_fold_invariant:
  assumes "\<And>k acc s. k < n \<Longrightarrow> P k acc s \<Longrightarrow> \<exists>acc' s'. body k acc s = Done acc' s' \<and> P (Suc k) acc' s'"
    and "P i acc s" and "i \<le> n"
  shows "\<exists>acc' s'. c_fold i n body acc s = Done acc' s' \<and> P n acc' s'"
  using assms(2,3)
proof (induction "n - i" arbitrary: i acc s)
  case 0
  then show ?case by (simp add: c_fold_done)
next
  case (Suc m)
  then have lt: "i < n" and m: "m = n - Suc i" by simp_all
  obtain acc' s' where "body i acc s = Done acc' s'" "P (Suc i) acc' s'" using assms(1) [OF lt Suc.prems(1)] by blast
  then show ?case using Suc.hyps(1) [OF m] lt by (simp add: c_fold_step)
qed

lemma c_fold_cong:
  assumes "\<And>k acc. i \<le> k \<Longrightarrow> k < n \<Longrightarrow> f k acc = g k acc" shows "c_fold i n f acc = c_fold i n g acc"
  using assms
proof (induction "n - i" arbitrary: i acc)
  case 0
  then show ?case by (simp add: c_fold_done)
next
  case (Suc m)
  then have lt: "i < n" and m: "m = n - Suc i" by simp_all
  have "c_fold (Suc i) n f = c_fold (Suc i) n g" by (rule ext, rule Suc.hyps(1) [OF m]) (simp add: Suc.prems)
  then show ?case using lt Suc.prems [of i] by (simp add: c_fold_step)
qed

subsection \<open>Pages\<close>

text \<open>A page size is a power of two. The mapping that covers a range of bytes is no shorter than the
  range and its offset together.\<close>

definition page_size_ok :: "'m sys \<Rightarrow> bool" where
  "page_size_ok sys \<longleftrightarrow> (\<exists>n < 32. page_size sys = push_bit n 1)"

lemma page_offset:
  fixes a :: "64 word" shows "a - (a AND NOT (push_bit n 1 - 1)) = take_bit n a"
proof -
  have m: "push_bit n 1 - 1 = (mask n :: 64 word)" by (simp add: mask_eq_exp_minus_1 push_bit_eq_mult)
  have "a AND NOT (mask n) = push_bit n (drop_bit n a)"
    by (rule bit_word_eqI) (auto simp: bit_simps)
  then have "a = (a AND NOT (mask n)) + take_bit n a" by (simp add: bits_ident)
  then show ?thesis unfolding m by (metis add_diff_cancel_left')
qed

lemma map_covers:
  fixes a sz ps :: "64 word"
  assumes "ps = push_bit n 1" and "n < 32" and "unat sz < 2 ^ 63"
  defines "base \<equiv> a AND NOT (ps - 1)"
  shows "unat (a - base) + unat sz \<le> unat (ps * ((a + sz - base + ps - 1) div ps))"
proof -
  let ?p = "2 ^ n :: nat" and ?x = "a + sz - base + ps - 1"
  have "?p \<le> 2 ^ 31" using assms(2) by (intro power_increasing) simp_all
  have ps: "unat ps = ?p"
  proof -
    have "ps = of_nat ?p" using assms(1) by (simp add: push_bit_eq_mult)
    moreover have "?p < 2 ^ 64" using assms(2) by (intro power_strict_increasing) simp_all
    ultimately show ?thesis by (simp only: unat_of_nat_small)
  qed
  have off: "a - base = take_bit n a" unfolding base_def assms(1) by (rule page_offset)
  have lt: "unat (a - base) < ?p" unfolding off by (simp add: unsigned_take_bit_eq)
  have m1: "unat (ps - 1) = ?p - 1" using ps by (simp add: unat_sub word_le_nat_alt)
  have "?x = (a - base) + sz + (ps - 1)" by simp
  then have x: "unat ?x = unat (a - base) + unat sz + (?p - 1)" 
  proof -
    assume x: "?x = (a - base) + sz + (ps - 1)"
    have "unat (a - base) + unat sz < 2 ^ 64" "unat (a - base) + unat sz + (?p - 1) < 2 ^ 64"
      using lt assms(3) \<open>?p \<le> 2 ^ 31\<close> by simp_all
    then show ?thesis unfolding x unat_word_ariths m1 by (simp only: mod_less size_word.rep_eq len_of_numeral_defs) simp
  qed
  have "unat (ps * (?x div ps)) = ?p * (unat ?x div ?p)"
  proof -
    have "?p * (unat ?x div ?p) \<le> unat ?x" by simp
    also have "\<dots> < 2 ^ 64" using unsigned_less [of ?x, where ?'a = nat] by simp
    finally show ?thesis using ps by (simp add: unat_word_ariths mod_mult_right_eq)
  qed
  moreover have "unat ?x < ?p * (unat ?x div ?p) + ?p"
  proof -
    have "unat ?x mod ?p < ?p" by simp
    moreover have "?p * (unat ?x div ?p) + unat ?x mod ?p = unat ?x" by (rule mult_div_mod_eq)
    ultimately show ?thesis by linarith
  qed
  ultimately show ?thesis using x by simp
qed

subsection \<open>Ordinary memory\<close>

text \<open>\<open>mem\<close> is the byte at a physical address. A load returns the bytes and changes nothing, a store
  changes the bytes it covers, and neither faults; the files can be opened and mapped.\<close>

definition ram_like :: "'m sys \<Rightarrow> ('m \<Rightarrow> 64 word \<Rightarrow> byte) \<Rightarrow> bool" where
  "ram_like sys mem \<longleftrightarrow> page_size_ok sys
     \<and> (\<forall>w a m. load sys w a m = Some (map (\<lambda>k. mem m (a + of_nat k)) [0..<w], m))
     \<and> (\<forall>a bs m. \<exists>m'. store sys a bs m = Some m'
          \<and> (\<forall>x. mem m' x = (if unat (x - a) < length bs then bs ! unat (x - a) else mem m x)))
     \<and> (\<forall>file writable m. open_file sys file writable m)
     \<and> (\<forall>file writable n off m. mmap_file sys file writable n off m)"

definition bytes_at :: "('m \<Rightarrow> 64 word \<Rightarrow> byte) \<Rightarrow> 'm \<Rightarrow> 64 word \<Rightarrow> nat \<Rightarrow> byte list" where
  "bytes_at mem m a n = map (\<lambda>k. mem m (a + of_nat k)) [0..<n]"

lemma length_bytes_at [simp]: "length (bytes_at mem m a n) = n"
  by (simp add: bytes_at_def)

lemma ram_likeD:
  assumes "ram_like sys mem"
  shows "load sys w a m = Some (bytes_at mem m a w, m)"
    and "\<exists>m'. store sys a bs m = Some m'
      \<and> (\<forall>x. mem m' x = (if unat (x - a) < length bs then bs ! unat (x - a) else mem m x))"
    and "open_file sys file writable m" and "mmap_file sys file writable n off m" and "page_size_ok sys"
  using assms unfolding ram_like_def bytes_at_def by blast+

text \<open>A mapping that has room for \<open>n\<close> bytes from the address asked for.\<close>

definition covers :: "mapped_t \<Rightarrow> 64 word \<Rightarrow> nat \<Rightarrow> bool" where
  "covers mp a n \<longleftrightarrow> map_addr mp + of_nat (map_offset mp) = a \<and> map_offset mp + n \<le> unat (map_size mp)"

lemma map_region_ram:
  assumes "ram_like sys mem" and "unat sz < 2 ^ 63"
  shows "\<exists>mp. map_region sys file writable a sz s = Done mp s \<and> covers mp a (unat sz)"
proof -
  obtain n where n: "n < 32" "page_size sys = push_bit n 1"
    using ram_likeD(5) [OF assms(1)] by (auto simp: page_size_ok_def)
  show ?thesis
    using map_covers [OF n(2,1) assms(2), of a]
    by (simp add: map_region_def Let_def ram_likeD(4) [OF assms(1)] covers_def)
qed

lemma bus_load_ram:
  assumes "ram_like sys mem" and "covers mp a n" and "off + w \<le> n"
  shows "bus_load sys mp fault off w s = Done (bytes_at mem (machine (priv s)) (a + of_nat off) w) s"
  using assms(2,3)
  by (auto simp: bus_load_def covers_def ram_likeD(1) [OF assms(1)] add.assoc [symmetric])

lemma bus_store_ram:
  assumes "ram_like sys mem" and "covers mp a n" and "off + length bs \<le> n"
  shows "\<exists>m. bus_store sys mp fault off bs u s = Done () (with_machine m s)
    \<and> (\<forall>x. mem m x = (if unat (x - (a + of_nat off)) < length bs then bs ! unat (x - (a + of_nat off))
                      else mem (machine (priv s)) x))"
  using assms(2,3) ram_likeD(2) [OF assms(1), of "a + of_nat off" bs "machine (priv s)"]
  by (auto simp: bus_store_def covers_def add.assoc [symmetric])

text \<open>The width of an access, and that a copy in it succeeds for whole units.\<close>

fun access_width :: "cswp_access_size_t \<Rightarrow> nat" where
  "access_width CSWP_ACCESS_SIZE_16 = 2"
| "access_width CSWP_ACCESS_SIZE_32 = 4"
| "access_width CSWP_ACCESS_SIZE_64 = 8"
| "access_width _ = 1"

lemma copy_eq_units:
  assumes "unat sz mod access_width w = 0"
  shows "copy rd wr sz (access_val w) d = copy_units (access_width w) rd wr sz d"
proof -
  have "sz mod of_nat (access_width w) = 0"
    using assms by (cases w) (simp_all add: unat_word_ariths flip: unat_0_iff)
  then show ?thesis by (cases w) (simp_all add: copy_def copy_8_def copy_16_def copy_32_def copy_64_def)
qed

lemma bytes_at_add: "bytes_at mem m a (i + j) = bytes_at mem m a i @ bytes_at mem m (a + of_nat i) j"
  by (rule nth_equalityI) (auto simp: bytes_at_def nth_append of_nat_diff algebra_simps)

lemma bytes_at_0 [simp]: "bytes_at mem m a 0 = []"
  by (simp add: bytes_at_def)

lemma copy_out_ram:
  assumes "ram_like sys mem" and "covers mp a (w * n)" and "length xs = w * n" and "0 < w" and "unat sz = w * n"
  shows "copy_units w (bus_load sys mp fault) buf_store sz (Some xs) s
    = Done (Some (bytes_at mem (machine (priv s)) a (w * n))) s"
proof -
  let ?got = "\<lambda>k. bytes_at mem (machine (priv s)) a (w * k)"
  let ?P = "\<lambda>k acc s'. s' = s \<and> acc = Some (?got k @ drop (w * k) xs)"
  have "\<exists>acc' s'. c_fold 0 n (\<lambda>i d. cswp_check (bus_load sys mp fault (i * w) w) (\<lambda>bs. buf_store (i * w) bs d)) (Some xs) s
      = Done acc' s' \<and> ?P n acc' s'"
  proof (rule c_fold_invariant [where P = ?P])
    fix k acc s' assume k: "k < n" and P: "?P k acc s'"
    have fits: "k * w + w \<le> w * n" using k mult_le_mono2 [of "Suc k" n w] by (simp add: mult.commute)
    then have room: "w \<le> n * w - k * w" by (simp add: mult.commute)
    have "?got (Suc k) = ?got k @ bytes_at mem (machine (priv s)) (a + of_nat (k * w)) w"
      using bytes_at_add [of mem "machine (priv s)" a "w * k" w] by (simp add: add.commute mult.commute)
    then show "\<exists>acc' s''. cswp_check (bus_load sys mp fault (k * w) w) (\<lambda>bs. buf_store (k * w) bs acc) s' = Done acc' s''
        \<and> ?P (Suc k) acc' s''"
      using P fits room assms(3)
      by (simp add: bus_load_ram [OF assms(1,2) fits] buf_store_def obj_store_def mult.commute add.commute)
  qed simp_all
  then show ?thesis using assms(3-5) by (simp add: copy_units_def)
qed

lemma copy_in_ram:
  assumes "ram_like sys mem" and "covers mp a (w * n)" and "length bs = w * n" and "0 < w" and "unat sz = w * n"
  shows "\<exists>m. copy_units w (obj_load bs) (bus_store sys mp fault) sz () s = Done () (with_machine m s)
    \<and> (\<forall>x. mem m x = (if unat (x - a) < w * n then bs ! unat (x - a) else mem (machine (priv s)) x))"
proof -
  let ?P = "\<lambda>k (acc :: unit) s'. \<exists>m. s' = with_machine m s
    \<and> (\<forall>x. mem m x = (if unat (x - a) < w * k then bs ! unat (x - a) else mem (machine (priv s)) x))"
  have "\<exists>acc' s'. c_fold 0 n (\<lambda>i d. cswp_check (obj_load bs (i * w) w) (\<lambda>b. bus_store sys mp fault (i * w) b d)) () s
      = Done acc' s' \<and> ?P n acc' s'"
  proof (rule c_fold_invariant [where P = ?P])
    fix k s' and acc :: unit assume k: "k < n" and P: "?P k acc s'"
    then obtain m where m: "s' = with_machine m s"
      "\<And>x. mem m x = (if unat (x - a) < w * k then bs ! unat (x - a) else mem (machine (priv s)) x)"
      by blast
    have fits: "k * w + w \<le> w * n" using k mult_le_mono2 [of "Suc k" n w] by (simp add: mult.commute)
    let ?u = "take w (drop (k * w) bs)"
    have u: "length ?u = w" using fits assms(3) by simp
    have "w * n < 2 ^ 64" using assms(5) unsigned_less [of sz, where ?'a = nat] by simp
    then have kw: "unat (of_nat (k * w) :: 64 word) = k * w" using fits by (intro unat_of_nat_small) linarith
    obtain m' where m': "bus_store sys mp fault (k * w) ?u () s' = Done () (with_machine m' s')"
      "\<And>x. mem m' x = (if unat (x - (a + of_nat (k * w))) < w then ?u ! unat (x - (a + of_nat (k * w))) else mem m x)"
      using bus_store_ram [OF assms(1,2), of "k * w" ?u fault "()" s', unfolded u, OF fits] by (auto simp: m(1))
    have "mem m' x = (if unat (x - a) < w * Suc k then bs ! unat (x - a) else mem (machine (priv s)) x)" for x
    proof (cases "k * w \<le> unat (x - a)")
      case True
      then have le: "(of_nat (k * w) :: 64 word) \<le> x - a" by (simp only: word_le_nat_alt kw)
      have "x - (a + of_nat (k * w)) = (x - a) - of_nat (k * w)" by (rule diff_diff_eq [symmetric])
      then have d: "unat (x - (a + of_nat (k * w))) = unat (x - a) - k * w" by (simp only: unat_sub [OF le] kw)
      show ?thesis
      proof (cases "unat (x - a) < w * Suc k")
        case True
        then have "unat (x - a) - k * w < w" using \<open>k * w \<le> unat (x - a)\<close> by (simp add: mult.commute)
        moreover have "k * w \<le> length bs" using fits assms(3) by linarith
        ultimately show ?thesis using True \<open>k * w \<le> unat (x - a)\<close> unfolding m'(2) d by simp
      next
        case False
        then have "\<not> unat (x - a) - k * w < w" "\<not> unat (x - a) < w * k" using assms(4) by (auto simp: mult.commute)
        then show ?thesis using False unfolding m'(2) d m(2) by simp
      qed
    next
      case False
      have "\<not> unat (x - (a + of_nat (k * w))) < w"
      proof
        assume lt: "unat (x - (a + of_nat (k * w))) < w"
        have "x - a = (x - (a + of_nat (k * w))) + of_nat (k * w)" by simp
        then have "unat (x - a) = unat (x - (a + of_nat (k * w))) + k * w"
          using unat_add_of_nat [of "x - (a + of_nat (k * w))" "k * w"] lt fits \<open>w * n < 2 ^ 64\<close> by simp
        then show False using False by simp
      qed
      moreover have "unat (x - a) < w * k" "unat (x - a) < w * Suc k" using False by (simp_all add: mult.commute)
      ultimately show ?thesis unfolding m'(2) m(2) by simp
    qed
    moreover have "obj_load bs (k * w) w s' = Done ?u s'" using fits assms(3) by (simp add: obj_load_def)
    ultimately show "\<exists>acc' s''. cswp_check (obj_load bs (k * w) w) (\<lambda>b. bus_store sys mp fault (k * w) b acc) s' = Done acc' s''
        \<and> ?P (Suc k) acc' s''"
      using m'(1) m(1) by auto
  qed (auto intro!: exI [of _ "machine (priv s)"])
  then show ?thesis using assms(4,5) by (auto simp: copy_units_def)
qed

lemma bytes_at_stored:
  assumes "\<And>x. mem m x = (if unat (x - a) < length bs then bs ! unat (x - a) else f x)" and "length bs < 2 ^ 64"
  shows "bytes_at mem m a (length bs) = bs"
proof (rule nth_equalityI)
  fix k assume "k < length (bytes_at mem m a (length bs))"
  then have k: "k < length bs" by simp
  then have "unat (of_nat k :: 64 word) = k" using assms(2) by (intro unat_of_nat_small) simp
  then show "bytes_at mem m a (length bs) ! k = bs ! k" using k by (simp add: bytes_at_def assms(1))
qed simp

subsection \<open>Numbers in text\<close>

declare hex_digit.simps [simp del]

lemma hex_value_append:
  "\<forall>c \<in> set xs. hex_digit c \<noteq> None \<Longrightarrow> hex_value n (xs @ ys) = hex_value (hex_value n xs) ys"
  by (induction xs arbitrary: n) auto

definition lower :: "byte \<Rightarrow> byte" where
  "lower c = (if 65 \<le> c then c + 32 else c)"

lemma hex_digit_lower: "n < 16 \<Longrightarrow> hex_digit (lower (of_nat (if n < 10 then 48 + n else 55 + n))) = Some n"
proof -
  have "\<forall>n \<in> set [0..<16]. hex_digit (lower (of_nat (if n < 10 then 48 + n else 55 + n))) = Some n" by code_simp
  then show "n < 16 \<Longrightarrow> hex_digit (lower (of_nat (if n < 10 then 48 + n else 55 + n))) = Some n" by simp
qed

lemma digits_hex:
  "(\<forall>c \<in> set (map lower (digits 16 n)). hex_digit c \<noteq> None) \<and> hex_value 0 (map lower (digits 16 n)) = n
    \<and> (0 < k \<longrightarrow> n < 16 ^ k \<longrightarrow> length (digits 16 n) \<le> k)"
proof (induction n arbitrary: k rule: less_induct)
  case (less n)
  show ?case
  proof (cases "n < 16")
    case True
    then have d: "digits 16 n = [of_nat (if n < 10 then 48 + n else 55 + n)]" by (subst digits.simps) simp
    show ?thesis unfolding d using hex_digit_lower [OF True] by simp
  next
    case False
    then have d: "digits 16 n = digits 16 (n div 16) @ [of_nat (if n mod 16 < 10 then 48 + n mod 16 else 55 + n mod 16)]"
      by (subst digits.simps) simp
    have last: "hex_digit (lower (of_nat (if n mod 16 < 10 then 48 + n mod 16 else 55 + n mod 16))) = Some (n mod 16)"
      by (rule hex_digit_lower) simp
    have lt: "n div 16 < n" using False by simp
    note ih = less.IH [OF lt]
    have "length (digits 16 (n div 16)) \<le> k - 1" if "n < 16 ^ k" "0 < k"
    proof -
      have k: "k = Suc (k - 1)" using that(2) by simp
      have "n < 16 * 16 ^ (k - 1)" using that(1) by (subst (asm) k) simp
      then have "n div 16 < 16 ^ (k - 1)" by (simp add: less_mult_imp_div_less mult.commute)
      moreover have "0 < k - 1" using False that by (cases "k = 1") auto
      ultimately show ?thesis using ih [of "k - 1"] by blast
    qed
    then show ?thesis
      unfolding d using ih [of 0] last hex_value_append [of "map lower (digits 16 (n div 16))"]
      by auto
  qed
qed


lemma fmt_08x_eq: "fmt_08x v = replicate (8 - length (digits 16 (unat v))) 48 @ map lower (digits 16 (unat v))"
proof -
  have "fmt_08x v = map lower (fmt_08X v)" by (simp add: fmt_08x_def lower_def)
  also have "\<dots> = replicate (8 - length (digits 16 (unat v))) (lower 48) @ map lower (digits 16 (unat v))"
    by (simp add: fmt_08X_def Let_def)
  also have "lower 48 = 48" by (simp add: lower_def)
  finally show ?thesis .
qed

lemma hex_digit_0 [simp]: "hex_digit 48 = Some 0"
  by (simp add: hex_digit.simps)

lemma hex_value_zeros: "hex_value 0 (replicate k 48 @ xs) = hex_value 0 xs"
  by (induction k) simp_all

lemma digits_not_Nil: "digits 16 n \<noteq> []"
  by (subst digits.simps) simp

lemma fmt_08x_digits:
  "hex_value 0 (fmt_08x v) = unat v" "length (fmt_08x v) = 8" "\<forall>c \<in> set (fmt_08x v). hex_digit c \<noteq> None"
proof -
  have "unat v < 16 ^ 8" using unsigned_less [of v, where ?'a = nat] by simp
  then have "length (digits 16 (unat v)) \<le> 8" using digits_hex [of "unat v" 8] by simp
  then show "hex_value 0 (fmt_08x v) = unat v" "length (fmt_08x v) = 8" "\<forall>c \<in> set (fmt_08x v). hex_digit c \<noteq> None"
    using digits_hex [of "unat v" 0] by (auto simp: fmt_08x_eq hex_value_zeros)
qed

lemma strtol16_fmt: "ucast (strtol16 (bytes_of ''0x'' @ fmt_08x v)) = v"
proof -
  obtain c r where f: "fmt_08x v = c # r" using fmt_08x_digits(2) [of v] by (cases "fmt_08x v") simp_all
  have "bytes_of ''0x'' = [48, 120]" by code_simp
  moreover have "hex_prefix (48 # 120 # c # r)" using fmt_08x_digits(3) [of v] f by (simp add: hex_prefix_def)
  then have "hex_body (48 # 120 # c # r) = unat v" using fmt_08x_digits(1) [of v] f by (simp add: hex_body_def)
  moreover have "\<not> is_space 48" by (simp add: is_space_def)
  ultimately have p: "parse_hex (bytes_of ''0x'' @ fmt_08x v) = (False, unat v)"
    using f by (simp add: parse_hex_def)
  have "uint v < 2 ^ 32" using unsigned_less [of v, where ?'a = int] by simp
  moreover have "- 9223372036854775808 \<le> uint v" by (rule order_trans [of _ 0]) simp_all
  ultimately have "max (- (2 ^ 63)) (min (2 ^ 63 - 1) (uint v)) = uint v" by (simp add: max_def)
  then have "strtol16 (bytes_of ''0x'' @ fmt_08x v) = word_of_int (uint v)" by (simp add: strtol16_def p)
  also have "\<dots> = ucast v" by simp
  finally show ?thesis by (simp only:) (rule bit_word_eqI, simp add: bit_simps)
qed

lemma cstr_hex: "cstr (bytes_of ''0x'' @ fmt_08x v) = bytes_of ''0x'' @ fmt_08x v"
proof (rule cstr_id)
  have "hex_digit 0 = None" by code_simp
  then have "0 \<notin> set (fmt_08x v)" using fmt_08x_digits(3) [of v] by auto
  moreover have "0 \<notin> set (bytes_of ''0x'')" by code_simp
  ultimately show "0 \<notin> set (bytes_of ''0x'' @ fmt_08x v)" by simp
qed

end
