(* ===== verification/Device_Properties.thy ===== *)
theory Device_Properties
  imports Device_Lemmas Server_Properties
begin

text \<open>
  The properties of the reference implementation: what memory and register accesses, polling and
  configuration do on a device, and where the callbacks leave the C language. The witnesses run on
  \<open>ram_sys\<close>, whose machine is a function from addresses to bytes.
\<close>

definition ram_sys :: "(64 word \<Rightarrow> byte) sys" where
  "ram_sys = \<lparr>alphasorted = \<lambda>_ _. Some [], sdf_file = \<lambda>_. None, open_file = \<lambda>_ _ _. True, mmap_file = \<lambda>_ _ _ _ _. True,
     page_size = 4096, load = \<lambda>w a m. Some (map (\<lambda>k. m (a + of_nat k)) [0..<w], m),
     store = \<lambda>a bs m. Some (\<lambda>x. if unat (x - a) < length bs then bs ! unat (x - a) else m x),
     read_attr = \<lambda>_ _ _. None, write_attr = \<lambda>_ _ _. None, stack_bytes = \<lambda>n. replicate n 0xAA, verbose = 0\<rparr>"

lemma ram_sys_ram: "ram_like ram_sys (\<lambda>m. m)"
  unfolding ram_like_def
proof (intro conjI)
  show "page_size_ok ram_sys"
    unfolding page_size_ok_def by (rule exI [of _ 12]) (simp add: ram_sys_def push_bit_eq_mult)
qed (simp_all add: ram_sys_def)

text \<open>A server whose devices have the given private data and types.\<close>

definition host_state :: "'m \<Rightarrow> (cswp_server_device_priv_t \<times> cstring) list \<Rightarrow> 'm host cswp_server_state_t" where
  "host_state m ds = (zero_state \<lparr>host_priv = Some (zero_priv\<lparr>devicePriv := Some (map fst ds)\<rparr>), machine = m\<rparr>)
     \<lparr>deviceCount := of_nat (length ds), deviceNames := Some (map snd ds), deviceTypes := Some (map snd ds),
      deviceInfo := Some (replicate (length ds) \<lparr>registerCount = 0, registerInfo = None\<rparr>)\<rparr>"

abbreviation ram_state :: "(cswp_server_device_priv_t \<times> cstring) list \<Rightarrow> (64 word \<Rightarrow> byte) host cswp_server_state_t" where
  "ram_state \<equiv> host_state (\<lambda>_. 0)"

definition memory_device :: "cswp_server_device_priv_t" where
  "memory_device = zero_dev\<lparr>path := Some DEV_MEM\<rparr>"

lemma host_state_device:
  assumes "unat i < length ds" and "ds ! unat i = (d, t)"
  shows "has_device i d t (host_state m ds)"
  using assms by (simp add: has_device_def host_state_def zero_state_def)

subsection \<open>Memory\<close>

lemma mem_device_apply:
  assumes "has_device 0 d (Some t) s" and "path d = Some p" and "w \<noteq> CSWP_ACCESS_SIZE_DEF"
  shows "mem_device 0 (access_val w) flags s
    = Done (cstr p, take 6 (cstr t) = bytes_of ''mem-ap'', of_nat (access_width w)) s"
  using assms(3) by (cases w) (simp_all add: mem_device_def device_ready_apply [OF assms(1,2)] access_bytes_def push_bit_eq_mult)

lemma access_width_pos [simp]: "0 < access_width w"
  by (cases w) simp_all

lemma copy_partial:
  assumes "unat sz mod access_width w \<noteq> 0"
  shows "copy rd wr sz (access_val w) d = fail (res_val CSWP_BAD_ARGS)"
proof -
  have "unat (sz mod of_nat (access_width w)) \<noteq> 0"
    using assms by (cases w) (simp_all add: unat_word_ariths)
  then have "sz mod of_nat (access_width w) \<noteq> 0" by (simp only: unat_0_iff [symmetric] not_False_eq_True)
  then show ?thesis using assms by (cases w) (simp_all add: copy_def copy_16_def copy_32_def copy_64_def)
qed

lemma memory_copied:
  assumes ram: "ram_like sys mem" and dev: "has_device 0 d (Some t) s" "path d = Some p"
    and kind: "take 6 (cstr t) \<noteq> bytes_of ''mem-ap''"
    and w: "w \<noteq> CSWP_ACCESS_SIZE_DEF" and flags: "flags AND CSWP_MEM_NO_ADDR_INC = 0"
    and len: "length bs < 2 ^ 63" "length xs = length bs"
  shows "if length bs mod access_width w = 0
    then \<exists>m. cswp_server_impl_mem_write sys 0 address (of_nat (length bs)) (access_val w) flags bs s = Done () (with_machine m s)
      \<and> cswp_server_impl_mem_read sys 0 address (of_nat (length bs)) (access_val w) flags (Some xs) (with_machine m s)
          = Done (Some bs) (with_machine m s)
      \<and> (\<forall>x. length bs \<le> unat (x - address) \<longrightarrow> mem m x = mem (machine (priv s)) x)
    else cswp_server_impl_mem_write sys 0 address (of_nat (length bs)) (access_val w) flags bs s = Fail (res_val CSWP_BAD_ARGS) s
      \<and> cswp_server_impl_mem_read sys 0 address (of_nat (length bs)) (access_val w) flags (Some xs) s = Fail (res_val CSWP_BAD_ARGS) s"
proof -
  let ?sz = "of_nat (length bs) :: size_t" and ?w = "access_width w"
  have "length bs < 2 ^ 64" using len(1) by simp
  then have sz: "unat ?sz = length bs" by (rule unat_of_nat_small)
  then have small: "unat ?sz < 2 ^ 63" using len(1) by simp
  note run = mem_device_apply [OF _ dev(2) w] kind flags ram_likeD(3) [OF ram] Let_def
  have region: "\<exists>mp. map_region sys f writable address ?sz s' = Done mp s' \<and> covers mp address (length bs)" for f writable s'
    using map_region_ram [OF ram small] sz by simp
  obtain mp where mp: "map_region sys (cstr p) True address ?sz s = Done mp s" "covers mp address (length bs)"
    using region by blast
  show ?thesis
  proof (cases "length bs mod ?w = 0")
    case True
    then obtain n where n: "length bs = ?w * n" by (metis mod_0_imp_dvd dvd_def)
    have units: "unat ?sz mod ?w = 0" using True sz by simp
    have cov: "covers mp address (?w * n)" using mp(2) n by simp
    obtain m where m: "copy_units ?w (obj_load bs) (bus_store sys mp (undef Killed)) ?sz () s = Done () (with_machine m s)"
      "\<And>x. mem m x = (if unat (x - address) < ?w * n then bs ! unat (x - address) else mem (machine (priv s)) x)"
      using copy_in_ram [OF ram cov n access_width_pos, of ?sz "undef Killed" s] sz n by auto
    obtain mp' where mp': "map_region sys (cstr p) False address ?sz (with_machine m s) = Done mp' (with_machine m s)"
      "covers mp' address (?w * n)"
      using region n by metis
    have stored: "bytes_at mem m address (length bs) = bs"
      by (rule bytes_at_stored) (use m(2) n \<open>length bs < 2 ^ 64\<close> in simp_all)
    have "copy_units ?w (bus_load sys mp' (undef Killed)) buf_store ?sz (Some xs) (with_machine m s)
        = Done (Some bs) (with_machine m s)"
      using copy_out_ram [OF ram mp'(2), of xs ?sz "undef Killed" "with_machine m s"] len(2) n sz stored by simp
    then have "cswp_server_impl_mem_read sys 0 address ?sz (access_val w) flags (Some xs) (with_machine m s)
        = Done (Some bs) (with_machine m s)"
      using dev(1) by (simp add: cswp_server_impl_mem_read_def run mp' copy_eq_units [OF units])
    moreover have "cswp_server_impl_mem_write sys 0 address ?sz (access_val w) flags bs s = Done () (with_machine m s)"
      using dev(1) m(1) by (simp add: cswp_server_impl_mem_write_def run mp copy_eq_units [OF units])
    ultimately show ?thesis using True m(2) n by auto
  next
    case False
    then have part: "unat ?sz mod ?w \<noteq> 0" using sz by simp
    obtain mp' where mp': "map_region sys (cstr p) False address ?sz s = Done mp' s"
      using region by blast
    show ?thesis
      using False dev(1) by (simp add: cswp_server_impl_mem_write_def cswp_server_impl_mem_read_def run mp(1) mp' copy_partial [OF part] fail_def)
  qed
qed

text \<open>C30: memory written through a memory device is read back: in whole units of any access width
  the bytes arrive, and neither direction changes anything else; a size that is not a number of
  units is refused by both and nothing is written.\<close>

theorem memory_write_read:
  assumes ram: "ram_like sys mem" and dev: "has_device 0 d (Some t) s" "path d = Some p"
    and kind: "take 6 (cstr t) \<noteq> bytes_of ''mem-ap''"
    and w: "w \<noteq> CSWP_ACCESS_SIZE_DEF" and flags: "flags AND CSWP_MEM_NO_ADDR_INC = 0"
    and len: "length bs < 2 ^ 63" "length xs = length bs"
  shows "if length bs mod access_width w = 0
    then \<exists>m. cswp_server_impl_mem_write sys 0 address (of_nat (length bs)) (access_val w) flags bs s = Done () (with_machine m s)
      \<and> cswp_server_impl_mem_read sys 0 address (of_nat (length bs)) (access_val w) flags (Some xs) (with_machine m s)
          = Done (Some bs) (with_machine m s)
      \<and> (\<forall>x. length bs \<le> unat (x - address) \<longrightarrow> mem m x = mem (machine (priv s)) x)
    else cswp_server_impl_mem_write sys 0 address (of_nat (length bs)) (access_val w) flags bs s = Fail (res_val CSWP_BAD_ARGS) s
      \<and> cswp_server_impl_mem_read sys 0 address (of_nat (length bs)) (access_val w) flags (Some xs) s = Fail (res_val CSWP_BAD_ARGS) s"
  by (rule memory_copied [OF ram dev kind w flags len])

theorem memory_write_read_witness:
  "\<exists>m. cswp_server_impl_mem_write ram_sys 0 4094 (of_nat 4) (access_val CSWP_ACCESS_SIZE_16) 0 [1, 2, 3, 4]
      (ram_state [(memory_device, Some (bytes_of ''memory''))])
    = Done () (with_machine m (ram_state [(memory_device, Some (bytes_of ''memory''))]))"
proof -
  have t: "take 6 (cstr (bytes_of ''memory'')) \<noteq> bytes_of ''mem-ap''" by code_simp
  have p: "path memory_device = Some DEV_MEM" by (simp add: memory_device_def)
  have d: "has_device 0 memory_device (Some (bytes_of ''memory'')) (ram_state [(memory_device, Some (bytes_of ''memory''))])"
    by (rule host_state_device) simp_all
  show ?thesis
    using memory_write_read [OF ram_sys_ram d p t, of CSWP_ACCESS_SIZE_16 0 "[1, 2, 3, 4]" "[0, 0, 0, 0]" 4094] by auto
qed

subsection \<open>Memory behind a MEM-AP\<close>

lemma and_255: "x AND 0xFF = take_bit 8 x" and and_65535: "x AND 0xFFFF = take_bit 16 x" for x :: c_uint
  by (simp_all add: take_bit_eq_mask mask_eq_exp_minus_1)

lemma c_fold_once [simp]: "c_fold 0 (Suc 0) body acc s = body 0 acc s"
  by (simp add: c_fold_step c_fold_done cswp_check_def split: outcome.splits)

text \<open>What a byte written to lane \<open>addr AND 3\<close> becomes: the shift goes to the lane, the mask keeps lane 0.\<close>

lemma lane_write_byte:
  "lane_write (access_val CSWP_ACCESS_SIZE_8) addr (le_word (b # r)) = (if addr AND 3 = 0 then ucast b else 0)"
proof -
  have b: "bit b n \<Longrightarrow> n < 8" for n using bit_imp_le_length [of b n] by simp
  show ?thesis
  proof (cases "addr AND 3 = 0")
  case True
  show ?thesis unfolding lane_write_def le_word_def and_255 using True by (auto intro!: bit_word_eqI simp: bit_simps dest: b)
next
  case False
  then have "unat (addr AND 3) \<noteq> 0" by (simp add: unat_eq_zero)
  then have "8 \<le> 8 * unat (addr AND 3)" by simp
  then show ?thesis unfolding lane_write_def and_255 using False by (auto intro!: bit_word_eqI simp: bit_simps simp del: unat_eq_zero)
  qed
qed

lemma load_unit_byte:
  assumes "k < length bs" and "stack_bytes sys 4 \<noteq> []"
  shows "load_unit sys (access_val CSWP_ACCESS_SIZE_8) 1 k bs s = Done (le_word (bs ! k # drop 1 (stack_bytes sys 4))) s"
proof -
  have "take 1 (drop k bs) = [bs ! k]" using assms(1) by (simp add: take_Suc_conv_app_nth hd_drop_conv_nth take_Suc)
  then show ?thesis
    using assms by (cases "stack_bytes sys 4")
      (simp_all add: load_unit_def copy_def copy_8_def copy_units_def obj_load_def obj_store_def)
qed

lemma unit_addr_lane: "unit_addr address k 1 AND 3 = 0 \<longleftrightarrow> (unat address + k) mod 4 = 0"
proof -
  have "unit_addr address k 1 AND 3 = take_bit 2 (ucast (address + of_nat k))"
    by (simp add: unit_addr_def take_bit_eq_mask mask_eq_exp_minus_1)
  also have "\<dots> = ucast (take_bit 2 (address + of_nat k))" by (rule bit_word_eqI) (auto simp: bit_simps)
  finally have "unit_addr address k 1 AND 3 = 0 \<longleftrightarrow> unat (take_bit 2 (address + of_nat k)) mod 2 ^ 32 = 0"
    by (simp add: unat_eq_zero [symmetric] unsigned_ucast_eq take_bit_eq_mod del: unat_eq_zero)
  then show ?thesis
    by (simp add: unsigned_take_bit_eq take_bit_eq_mod unat_word_ariths unat_of_nat mod_mod_cancel mod_add_right_eq)
qed

lemma unat_access_8 [simp]: "of_nat (access_width CSWP_ACCESS_SIZE_8) = (1 :: c_uint)"
  by simp

text \<open>C32: in a write of bytes through a MEM-AP only the bytes at word-aligned addresses matter: the
  mask is applied after the shift to the byte lane, so the others are written as zero.\<close>

theorem mem_ap_write_loses_bytes:
  fixes s :: "'a host cswp_server_state_t"
  assumes dev: "has_device 0 d (Some t) s" "path d = Some p" and kind: "take 6 (cstr t) = bytes_of ''mem-ap''"
    and stack: "length (stack_bytes sys 4) = 4"
    and len: "length bs' = length bs" "length bs < 2 ^ 64"
    and same: "\<And>k. k < length bs \<Longrightarrow> (unat address + k) mod 4 = 0 \<Longrightarrow> bs ! k = bs' ! k"
  shows "cswp_server_impl_mem_write sys 0 address (of_nat (length bs)) (access_val CSWP_ACCESS_SIZE_8) flags bs s
    = cswp_server_impl_mem_write sys 0 address (of_nat (length bs)) (access_val CSWP_ACCESS_SIZE_8) flags bs' s"
proof -
  have n: "unat (of_nat (length bs) :: size_t) = length bs" using len(2) by (rule unat_of_nat_small)
  have "stack_bytes sys 4 \<noteq> []" using stack by auto
  note load = load_unit_byte [OF _ this]
  have unit_eq: "ap_write_unit sys fd 0 address (access_val CSWP_ACCESS_SIZE_8) 1 bs k
      = ap_write_unit sys fd 0 address (access_val CSWP_ACCESS_SIZE_8) 1 bs' k" if k: "k < length bs" for fd k
  proof
    fix s :: "'a host cswp_server_state_t"
    have "k < length bs'" using k len(1) by simp
    from load [OF k, of s] load [OF this, of s] same [OF k]
    show "ap_write_unit sys fd 0 address (access_val CSWP_ACCESS_SIZE_8) 1 bs k s
        = ap_write_unit sys fd 0 address (access_val CSWP_ACCESS_SIZE_8) 1 bs' k s"
      by (cases "(unat address + k) mod 4 = 0")
        (simp_all add: ap_write_unit_def lane_write_byte unit_addr_lane del: access_val.simps)
  qed
  have "c_for 0 (length bs) (ap_write_unit sys fd 0 address (access_val CSWP_ACCESS_SIZE_8) 1 bs)
      = c_for 0 (length bs) (ap_write_unit sys fd 0 address (access_val CSWP_ACCESS_SIZE_8) 1 bs')" for fd
    by (rule c_for_cong) (rule unit_eq)
  then show ?thesis
    using mem_device_apply [OF dev, of CSWP_ACCESS_SIZE_8 flags] kind n
    by (simp add: cswp_server_impl_mem_write_def Let_def del: access_val.simps)
qed

theorem mem_ap_write_loses_bytes_witness:
  "cswp_server_impl_mem_write ram_sys 0 0x1001 (of_nat 3) (access_val CSWP_ACCESS_SIZE_8) 0 [1, 2, 3]
      (ram_state [(memory_device, Some (bytes_of ''mem-ap.v2''))])
    = cswp_server_impl_mem_write ram_sys 0 0x1001 (of_nat 3) (access_val CSWP_ACCESS_SIZE_8) 0 [9, 9, 9]
      (ram_state [(memory_device, Some (bytes_of ''mem-ap.v2''))])"
proof -
  have t: "take 6 (cstr (bytes_of ''mem-ap.v2'')) = bytes_of ''mem-ap''" by code_simp
  have p: "path memory_device = Some DEV_MEM" by (simp add: memory_device_def)
  have d: "has_device 0 memory_device (Some (bytes_of ''mem-ap.v2'')) (ram_state [(memory_device, Some (bytes_of ''mem-ap.v2''))])"
    by (rule host_state_device) simp_all
  have three: "length ([1, 2, 3] :: byte list) = 3" by simp
  have lanes: "[1, 2, 3] ! k = ([9, 9, 9] :: byte list) ! k" if "k < length ([1, 2, 3] :: byte list)" "(unat (0x1001 :: 64 word) + k) mod 4 = 0" for k
  proof -
    have "unat (0x1001 :: 64 word) = 4097" by simp
    then show ?thesis using that by (simp only: three) presburger
  qed
  have st: "length (stack_bytes ram_sys 4) = 4" by (simp add: ram_sys_def)
  show ?thesis
    using mem_ap_write_loses_bytes [OF d p t st, where bs = "[1, 2, 3]" and bs' = "[9, 9, 9]" and address = "0x1001" and flags = 0] lanes unfolding three by simp
qed

subsection \<open>Polling\<close>

lemma ap_poll_round_stops:
  "res \<noteq> Some (res_val CSWP_SUCCESS) \<Longrightarrow> ap_poll_round sys fd i a sz acc flags asb ms c v (res, p) s = Done (Inl (res, p)) s"
  by (simp add: ap_poll_round_def)

lemma ap_poll_round_again:
  assumes "ap_poll_round sys fd i a sz acc flags asb ms c v x s = Done (Inr (res, p)) s'"
  shows "res = Some (res_val CSWP_MEM_POLL_NO_MATCH)"
  using assms
  by (auto simp: ap_poll_round_def poll_compare_def attempt_def cswp_check_def split: prod.splits if_splits outcome.splits)

text \<open>A poll through a MEM-AP that does not match at its first attempt does not make another one,
  whatever number of tries it was given: the loop goes on only while its result code is success.\<close>

theorem mem_ap_polls_once:
  fixes s :: "'a host cswp_server_state_t"
  assumes dev: "has_device 0 d (Some t) s" "path d = Some p" and kind: "take 6 (cstr t) = bytes_of ''mem-ap''"
    and tries: "0 < tries" and flags: "flags AND CSWP_MEM_POLL_CHECK_LAST = 0"
  shows "cswp_server_impl_mem_poll os sys 0 address sz accessSize flags tries interval pMask pValue pData s
    = cswp_server_impl_mem_poll os sys 0 address sz accessSize flags 1 interval pMask pValue pData s"
proof -
  have once: "while_tries (Suc n) (ap_poll_round sys fd 0 address sz accessSize flags asb pMask c v) x
      = while_tries (Suc 0) (ap_poll_round sys fd 0 address sz accessSize flags asb pMask c v) x" for n fd asb c v x
  proof
    fix s :: "'a host cswp_server_state_t"
    let ?round = "ap_poll_round sys fd 0 address sz accessSize flags asb pMask c v"
    have again: "while_tries n ?round (res, p) s' = Done (res, p) s'"
      if "?round x s = Done (Inr (res, p)) s'" for res p s'
      using ap_poll_round_again [OF that] by (cases n) (simp_all add: ap_poll_round_stops)
    show "while_tries (Suc n) ?round x s = while_tries (Suc 0) ?round x s"
      using again by (auto simp: cswp_check_def split: outcome.splits sum.splits)
  qed
  obtain n where n: "unat tries = Suc n" using tries by (cases "unat tries") (simp_all add: unat_eq_zero)
  obtain q where q: "get_priv s = Done q s" using has_device_priv [OF dev(1)] by blast
  have "unat (1 :: c_uint) = Suc 0" by simp
  then show ?thesis
    using flags kind device_ready_apply [OF dev] q
    by (simp add: cswp_server_impl_mem_poll_def n once [of n] del: while_tries.simps)
qed

lemma masked_copy_runs:
  assumes "n \<le> length vs" and "n \<le> length ms" and "n \<le> length buf"
  shows "masked_copy n no_overflow (Some vs) ms (Some buf) s = Done (Some (map2 (AND) (take n vs) (take n ms) @ drop n buf)) s"
proof -
  let ?P = "\<lambda>k acc s'. s' = s \<and> acc = Some (map2 (AND) (take k vs) (take k ms) @ drop k buf)"
  have "\<exists>acc' s'. masked_copy n no_overflow (Some vs) ms (Some buf) s = Done acc' s' \<and> ?P n acc' s'"
    unfolding masked_copy_def
  proof (rule c_fold_invariant [where P = ?P])
    fix k acc s' assume k: "k < n" and P: "?P k acc s'"
    have "(map2 (AND) (take k vs) (take k ms) @ drop k buf)[k := vs ! k AND ms ! k]
        = map2 (AND) (take (Suc k) vs) (take (Suc k) ms) @ drop (Suc k) buf"
      using k assms by (simp add: take_Suc_conv_app_nth list_update_append Cons_nth_drop_Suc [symmetric] min_absorb2)
    then show "\<exists>acc' s''. cswp_check (nth_p (Some vs) k) (\<lambda>v. cswp_check (nth_c ms k) (\<lambda>m.
        cswp_check (update_p acc k (v AND m)) (\<lambda>buf. cswp_check (no_overflow k) (\<lambda>_. ret buf)))) s' = Done acc' s''
        \<and> ?P (Suc k) acc' s''"
      using P k assms by (simp add: nth_p_def nth_c_def update_p_def no_overflow_def)
  qed simp_all
  then show ?thesis by auto
qed

text \<open>A poll of mapped memory needs at least one attempt to have a result.\<close>

lemma mapped_poll_without_tries:
  assumes "ram_like sys mem" and "has_device 0 d (Some t) s" and "path d = Some p"
    and "take 6 (cstr t) \<noteq> bytes_of ''mem-ap''" and "w \<noteq> CSWP_ACCESS_SIZE_DEF"
    and "flags AND CSWP_MEM_POLL_CHECK_LAST = 0" and "malloc os sz = Some blk" and "length blk = unat sz"
    and "length pMask = unat sz" and "length pValue = unat sz" and "unat sz < 2 ^ 63"
  shows "cswp_server_impl_mem_poll os sys 0 address sz (access_val w) flags 0 interval pMask pValue pData s = Undef UninitRead"
proof -
  obtain q where q: "get_priv s = Done q s" using has_device_priv [OF assms(2)] by blast
  obtain mp where mp: "map_region sys (cstr p) False address sz s = Done mp s" using map_region_ram [OF assms(1,11)] by blast
  have w: "access_bytes (access_val w) s = Done (of_nat (access_width w)) s"
    using assms(5) by (cases w) (simp_all add: access_bytes_def push_bit_eq_mult)
  obtain c where c: "masked_copy (unat sz) no_overflow (Some pValue) pMask (Some blk) s = Done c s"
    using masked_copy_runs [of "unat sz" pValue pMask blk s] assms(8-10) by auto
  show ?thesis
    using assms(4,6,7) q mp w c device_ready_apply [OF assms(2,3)] ram_likeD(3) [OF assms(1)]
    by (simp add: cswp_server_impl_mem_poll_def finish_poll_def undef_def)
qed

theorem mem_ap_polls_once_witness:
  "cswp_server_impl_mem_poll plain_libc ram_sys 0 0x1000 4 (access_val CSWP_ACCESS_SIZE_32) 0 5 0 [1, 1, 1, 1] [1, 0, 0, 0]
      (Some [0, 0, 0, 0]) (ram_state [(memory_device, Some (bytes_of ''mem-ap.v2''))])
    = cswp_server_impl_mem_poll plain_libc ram_sys 0 0x1000 4 (access_val CSWP_ACCESS_SIZE_32) 0 1 0 [1, 1, 1, 1] [1, 0, 0, 0]
      (Some [0, 0, 0, 0]) (ram_state [(memory_device, Some (bytes_of ''mem-ap.v2''))])"
proof -
  have t: "take 6 (cstr (bytes_of ''mem-ap.v2'')) = bytes_of ''mem-ap''" by code_simp
  have p: "path memory_device = Some DEV_MEM" by (simp add: memory_device_def)
  have d: "has_device 0 memory_device (Some (bytes_of ''mem-ap.v2'')) (ram_state [(memory_device, Some (bytes_of ''mem-ap.v2''))])"
    by (rule host_state_device) simp_all
  show ?thesis by (rule mem_ap_polls_once [OF d p t]) simp_all
qed

subsection \<open>The default access size\<close>

text \<open>The access size the protocol calls the default makes the width of an access a shift by
  \<open>2\<^sup>3\<^sup>2 - 1\<close>: reading, writing and polling memory with it have undefined behaviour on every device
  that is ready, unless an earlier check refuses the request.\<close>

theorem default_access_size_undefined:
  fixes s :: "'a host cswp_server_state_t"
  assumes dev: "has_device 0 d (Some t) s" "path d = Some p"
    and flags: "flags AND CSWP_MEM_NO_ADDR_INC = 0" "flags AND CSWP_MEM_POLL_CHECK_LAST = 0"
    and blk: "malloc os sz = Some blk" "length blk = unat sz" and len: "length pMask = unat sz" "length pValue = unat sz"
  shows "cswp_server_impl_mem_read sys 0 address sz (access_val CSWP_ACCESS_SIZE_DEF) flags pData s = Undef BadShift
    \<and> cswp_server_impl_mem_write sys 0 address sz (access_val CSWP_ACCESS_SIZE_DEF) flags bs s = Undef BadShift
    \<and> cswp_server_impl_mem_poll os sys 0 address sz (access_val CSWP_ACCESS_SIZE_DEF) flags tries interval
         pMask pValue pData s = Undef BadShift"
proof -
  have acc: "access_bytes 0 s' = Undef BadShift" for s' :: "'a host cswp_server_state_t"
    by (simp add: access_bytes_def undef_def)
  have "mem_device 0 0 flags s = Undef BadShift"
    using flags by (simp add: mem_device_def device_ready_apply [OF dev] acc)
  moreover obtain q where "get_priv s = Done q s" using has_device_priv [OF dev(1)] by blast
  moreover obtain c where "masked_copy (unat sz) no_overflow (Some pValue) pMask (Some blk) s = Done c s"
    using masked_copy_runs [of "unat sz" pValue pMask blk s] blk(2) len by auto
  ultimately show ?thesis
    using flags blk(1) acc by (simp add: cswp_server_impl_mem_read_def cswp_server_impl_mem_write_def
      cswp_server_impl_mem_poll_def device_ready_apply [OF dev])
qed

theorem default_access_size_undefined_witness:
  "cswp_server_impl_mem_read ram_sys 0 0x1000 4 (access_val CSWP_ACCESS_SIZE_DEF) 0 (Some [0, 0, 0, 0])
    (ram_state [(memory_device, Some (bytes_of ''memory''))]) = Undef BadShift"
proof -
  have p: "path memory_device = Some DEV_MEM" by (simp add: memory_device_def)
  have d: "has_device 0 memory_device (Some (bytes_of ''memory'')) (ram_state [(memory_device, Some (bytes_of ''memory''))])"
    by (rule host_state_device) simp_all
  have "malloc plain_libc 4 = Some (replicate 4 0)" by (simp add: plain_libc_def)
  from default_access_size_undefined [OF d p _ _ this, of 0 "replicate 4 0" "replicate 4 0"] show ?thesis by simp
qed

subsection \<open>Registers behind a MEM-AP\<close>

lemma put_info_apply:
  "deviceInfo s = Some ds \<Longrightarrow> unat i < length ds \<Longrightarrow> put_info i info s = Done () (s\<lparr>deviceInfo := Some (ds[unat i := info])\<rparr>)"
  by (simp add: put_info_def update_p_def modify_def gets_def cswp_check_def)

lemma get_info_apply: "deviceInfo s = Some ds \<Longrightarrow> unat i < length ds \<Longrightarrow> get_info i s = Done (ds ! unat i) s"
  by (simp add: get_info_def nth_p_def nth_c_def gets_def cswp_check_def)

lemma put_dev_apply:
  assumes "has_device i d t s"
  shows "\<exists>s'. put_dev i d' s = Done () s' \<and> has_device i d' t s' \<and> deviceInfo s' = deviceInfo s
    \<and> deviceCount s' = deviceCount s \<and> machine (priv s') = machine (priv s)"
  using assms
  by (auto simp: has_device_def put_dev_def get_priv_apply update_p_def put_priv_def modify_def)

lemma mem_ap_discover:
  assumes dev: "has_device i d (Some t) s" and kind: "take 6 (cstr t) = bytes_of ''mem-ap''" and new: "\<not> regsDiscovered d"
    and info: "deviceInfo s = Some ds" "unat i < length ds"
  shows "\<exists>s'. cswp_server_impl_reg_list_build os sys i s = Done () s'
    \<and> deviceInfo s' = Some (ds[unat i := (ds ! unat i)\<lparr>registerCount := 4095\<rparr>]) \<and> deviceCount s' = deviceCount s"
proof -
  let ?s = "s\<lparr>deviceInfo := Some (ds[unat i := (ds ! unat i)\<lparr>registerCount := 4095\<rparr>])\<rparr>"
  have dev': "has_device i d (Some t) ?s" using dev by (simp add: has_device_def)
  obtain q where q: "get_priv s = Done q s" using has_device_priv [OF dev] by blast
  obtain s' where s': "put_dev i (d\<lparr>regsDiscovered := True\<rparr>) ?s = Done () s'" "deviceInfo s' = deviceInfo ?s"
    "deviceCount s' = deviceCount ?s"
    using put_dev_apply [OF dev'] by blast
  show ?thesis
    using new kind q s' by (simp add: cswp_server_impl_reg_list_build_def cswp_server_impl_device_discover_regs_def Let_def
      get_dev_apply [OF dev] get_type_apply [OF dev] get_dev_apply [OF dev'] get_info_apply [OF info] put_info_apply [OF info])
qed

text \<open>Asked for the registers of a device behind a MEM-AP, the server follows a null pointer: the
  device is said to have 4095 registers, but nobody builds their descriptions.\<close>

theorem mem_ap_register_list_undefined:
  assumes cmd: "buf_ok (cmd c)" "unread (cmd c) = varint_enc (cmd_val CSWP_REG_LIST) @ varint_enc i @ zs" "varint_ok i"
    and valid: "i < ucast (deviceCount (srv c))"
    and dev: "has_device (ucast i) d (Some t) (srv c)" "take 6 (cstr t) = bytes_of ''mem-ap''" "\<not> regsDiscovered d"
    and info: "deviceInfo (srv c) = Some ds" "unat i < length ds" "registerInfo (ds ! unat i) = None"
    and room: "at_end (rsp c)" "unat (bused (rsp c)) + 30 \<le> unat (bsize (rsp c))"
  shows "cswp_handle_command os (Some (cswpServerImpl os sys)) False c = Undef NullDeref"
proof -
  let ?impl = "Some (cswpServerImpl os sys)"
  let ?c = "c\<lparr>cmd := adv (length (varint_enc (cmd_val CSWP_REG_LIST))) (cmd c)\<rparr>"
  have ok: "buf_ok (cmd ?c)" "unread (cmd ?c) = varint_enc i @ zs"
    using cmd by (simp_all add: adv_ok unread_adv)
  have "reads cswp_decode_reg_list_command_body (varint_enc i) i"
    using cmd(3) by (simp add: message_defs reads_get_varint)
  note body = on_cmd_reads [OF this ok]
  let ?d = "?c\<lparr>cmd := adv (length (varint_enc i)) (cmd ?c)\<rparr>"
  have small: "unat (ucast i :: c_uint) = unat i"
    using cmd(3) by (intro unat_ucast_64_32) (simp add: varint_ok_def word_less_nat_alt)
  have at: "unat (ucast i :: c_uint) < length ds" using info(2) small by simp
  obtain s' where s': "cswp_server_impl_reg_list_build os sys (ucast i) (srv c) = Done () s'"
    "deviceInfo s' = Some (ds[unat i := (ds ! unat i)\<lparr>registerCount := 4095\<rparr>])"
    using mem_ap_discover [OF dev info(1) at] small by auto
  let ?e = "?d\<lparr>srv := s'\<rparr>"
  have build: "on_srv (cswp_server_reg_list_build ?impl (ucast i)) ?d = Done () ?e"
    using s'(1) by (simp add: on_srv_def zoom_def cswp_server_reg_list_build_def cb_def cswpServerImpl_def del: adv_adv)
  have len: "length (ok_header CSWP_REG_LIST @ varint_enc 4095) = 5" by code_simp
  obtain b where b: "on_rsp (cswp_encode_reg_list_response 4095) ?e = Done () (?e\<lparr>rsp := b\<rparr>)"
    using on_rsp_emits [OF emits_reg_list_header, of ?e 4095] room len by auto
  have "(0 :: nat) < 4095" by simp
  then have list: "c_for 0 4095 (reg_list_item ((ds ! unat i)\<lparr>registerCount := 4095\<rparr>)) c' = Undef NullDeref" for c' :: "'a host ctx"
    using info(3) by (subst c_for_step) (simp_all add: reg_list_item_def nth_p_def undef_def)
  have "cswp_reg_list_srv ?impl ?c = Undef NullDeref"
    using body valid build s'(2) info(2) b list
    by (simp add: cswp_reg_list_srv_def valid_device check_gets ignore_def nth_p_def nth_c_def attempt_def del: adv_adv)
  then show ?thesis
    using handle_header [OF varint_ok_cmd cmd(1,2)] by (simp add: cswp_dispatch_command_def)
qed

definition ap_ctx :: "byte list \<Rightarrow> (64 word \<Rightarrow> byte) host ctx" where
  "ap_ctx bs = \<lparr>srv = ram_state [(memory_device, Some (bytes_of ''mem-ap.v2''))], cmd = received_buffer bs,
     rsp = empty_buffer 64\<rparr>"

theorem mem_ap_register_list_undefined_witness:
  "cswp_handle_command plain_libc (Some (cswpServerImpl plain_libc ram_sys)) False (ap_ctx [0x80, 4, 0]) = Undef NullDeref"
proof -
  have e: "varint_enc (cmd_val CSWP_REG_LIST) @ varint_enc 0 @ [] = [0x80, 4, 0]" by code_simp
  have t: "take 6 (cstr (bytes_of ''mem-ap.v2'')) = bytes_of ''mem-ap''" by code_simp
  have d: "has_device (ucast (0 :: 64 word)) memory_device (Some (bytes_of ''mem-ap.v2'')) (srv (ap_ctx [0x80, 4, 0]))"
    by (simp add: ap_ctx_def host_state_device)
  have i: "deviceInfo (srv (ap_ctx [0x80, 4, 0])) = Some [\<lparr>registerCount = 0, registerInfo = None\<rparr>]"
    by (simp add: ap_ctx_def host_state_def)
  have b: "buf_ok (received_buffer [0x80, 4, 0])" "unread (received_buffer [0x80, 4, 0]) = [0x80, 4, 0]"
    using fresh_ctx_ok [of "[0x80, 4, 0]"] by simp_all
  show ?thesis
    by (rule mem_ap_register_list_undefined [OF _ _ _ _ d t _ i, of "[]"])
      (use e b empty_buffer_at_end [of 64] in \<open>simp_all add: ap_ctx_def varint_ok_def host_state_def memory_device_def zero_dev_def empty_buffer_def\<close>)
qed

subsection \<open>Configuration\<close>

lemma set_path:
  assumes dev: "has_device i d (Some t) s" and t: "cstr t = bytes_of ''linux.cscomp''"
    and val: "length (cstr val) < 256" "strdup_ok os (cstr val)"
  obtains d' s' where "cswp_server_impl_set_config os i (bytes_of ''PATH'') val s = Done () s'"
    "has_device i d' (Some t) s'" "map_option cstr (path d') = Some (cstr val)"
proof -
  obtain q where q: "get_priv s = Done q s" using has_device_priv [OF dev] by blast
  have name: "cstr (bytes_of ''PATH'') = bytes_of ''PATH''" by code_simp
  note set_up = cswp_server_impl_set_config_def q get_type_apply [OF dev] get_dev_apply [OF dev] c_streq_def name
  show ?thesis
  proof (cases "map_option cstr (path d) = Some (cstr val)")
    case True
    have "cswp_server_impl_set_config os i (bytes_of ''PATH'') val s = Done () s"
      using t val(1) True by (auto simp: set_up MAX_DEV_PATH_def)
    then show ?thesis using that dev True by blast
  next
    case False
    obtain s' where "put_dev i (d\<lparr>path := strdup os val, regsDiscovered := False\<rparr>) s = Done () s'"
      "has_device i (d\<lparr>path := strdup os val, regsDiscovered := False\<rparr>) (Some t) s'"
      using put_dev_apply [OF dev] by blast
    moreover have "cswp_server_impl_set_config os i (bytes_of ''PATH'') val s
        = put_dev i (d\<lparr>path := strdup os val, regsDiscovered := False\<rparr>) s"
      using t val(1) False by (simp add: set_up MAX_DEV_PATH_def)
    ultimately show ?thesis using val(2) by (intro that) (auto simp: strdup_def)
  qed
qed

text \<open>Configuration that is accepted is read back: the path of a driver's device unchanged, and the
  base address of a MEM-AP, printed the way the server prints addresses, as the same text; it is set
  under the name \<open>BASE_ADDRESS\<close> and read under the name \<open>ADDRESS\<close>.\<close>

theorem configuration_read_back:
  assumes dev: "has_device i d (Some t) s"
    and kind: "cstr t = bytes_of ''linux.cscomp'' \<and> name = bytes_of ''PATH'' \<and> asked = bytes_of ''PATH''
        \<and> length (cstr val) < 256 \<and> strdup_ok os (cstr val)
      \<or> take 6 (cstr t) = bytes_of ''mem-ap'' \<and> name = bytes_of ''BASE_ADDRESS'' \<and> asked = bytes_of ''ADDRESS''
        \<and> val = bytes_of ''0x'' @ fmt_08x a"
  shows "\<exists>s'. cswp_server_impl_set_config os i name val s = Done () s'
    \<and> cswp_server_impl_get_config i asked 256 s' = Done (cstr val) s'"
proof -
  obtain q where q: "get_priv s = Done q s" using has_device_priv [OF dev] by blast
  have names: "cstr (bytes_of ''PATH'') = bytes_of ''PATH''" "cstr (bytes_of ''BASE_ADDRESS'') = bytes_of ''BASE_ADDRESS''"
    "cstr (bytes_of ''ADDRESS'') = bytes_of ''ADDRESS''" "bytes_of ''PATH'' \<noteq> bytes_of ''CONFIG_ITEMS''"
    "bytes_of ''ADDRESS'' \<noteq> bytes_of ''CONFIG_ITEMS''" "bytes_of ''ADDRESS'' \<noteq> bytes_of ''PATH''"
    "take 6 (bytes_of ''linux.cscomp'') \<noteq> bytes_of ''mem-ap''"
    by code_simp+
  note set_up = cswp_server_impl_set_config_def q get_type_apply [OF dev] get_dev_apply [OF dev] c_streq_def names
  from kind show ?thesis
  proof (elim disjE conjE)
    assume t: "cstr t = bytes_of ''linux.cscomp''" "name = bytes_of ''PATH''" "asked = bytes_of ''PATH''"
      and val: "length (cstr val) < 256" "strdup_ok os (cstr val)"
    obtain d' s' where s': "cswp_server_impl_set_config os i name val s = Done () s'" "has_device i d' (Some t) s'"
      "map_option cstr (path d') = Some (cstr val)"
      using set_path [OF dev t(1) val] unfolding t(2) by blast
    obtain q' where q': "get_priv s' = Done q' s'" using has_device_priv [OF s'(2)] by blast
    have "cswp_server_impl_get_config i asked 256 s' = Done (cstr val) s'"
      using t(3) s'(3) val(1) q' get_dev_apply [OF s'(2)]
      by (auto simp: cswp_server_impl_get_config_def cswp_server_fill_config_def names)
    then show ?thesis using s'(1) by blast
  next
    assume t: "take 6 (cstr t) = bytes_of ''mem-ap''" "name = bytes_of ''BASE_ADDRESS''" "asked = bytes_of ''ADDRESS''"
      and val: "val = bytes_of ''0x'' @ fmt_08x a"
    have not_linux: "cstr t \<noteq> bytes_of ''linux.cscomp''" using t(1) names(7) by auto
    have addr: "ucast (strtol16 (cstr val)) = a" unfolding val cstr_hex by (rule strtol16_fmt)
    obtain s' where s': "put_dev i (d\<lparr>dev_address := a\<rparr>) s = Done () s'" "has_device i (d\<lparr>dev_address := a\<rparr>) (Some t) s'"
      using put_dev_apply [OF dev] by blast
    have set: "cswp_server_impl_set_config os i name val s = Done () s'"
      using t not_linux s'(1) addr by (simp add: set_up)
    obtain q' where q': "get_priv s' = Done q' s'" using has_device_priv [OF s'(2)] by blast
    have len: "length (bytes_of ''0x'') = 2" by code_simp
    have "cswp_server_impl_get_config i asked 256 s' = Done (cstr val) s'"
      using t(3) q' get_dev_apply [OF s'(2)] fmt_08x_digits(2) [of a] len
      unfolding val cstr_hex by (simp add: cswp_server_impl_get_config_def cswp_server_fill_config_def names)
    then show ?thesis using set by blast
  qed
qed

theorem configuration_read_back_witness:
  "\<exists>s'. cswp_server_impl_set_config plain_libc 0 (bytes_of ''BASE_ADDRESS'') (bytes_of ''0x00000010'')
      (ram_state [(memory_device, Some (bytes_of ''mem-ap.v2''))]) = Done () s'
    \<and> cswp_server_impl_get_config 0 (bytes_of ''ADDRESS'') 256 s' = Done (bytes_of ''0x00000010'') s'"
proof -
  have t: "take 6 (cstr (bytes_of ''mem-ap.v2'')) = bytes_of ''mem-ap''" by code_simp
  have d: "has_device 0 memory_device (Some (bytes_of ''mem-ap.v2'')) (ram_state [(memory_device, Some (bytes_of ''mem-ap.v2''))])"
    by (rule host_state_device) simp_all
  have v: "bytes_of ''0x00000010'' = bytes_of ''0x'' @ fmt_08x 0x00000010" by code_simp
  have c: "cstr (bytes_of ''0x00000010'') = bytes_of ''0x00000010''" by code_simp
  have "\<exists>s'. cswp_server_impl_set_config plain_libc 0 (bytes_of ''BASE_ADDRESS'') (bytes_of ''0x00000010'')
      (ram_state [(memory_device, Some (bytes_of ''mem-ap.v2''))]) = Done () s'
    \<and> cswp_server_impl_get_config 0 (bytes_of ''ADDRESS'') 256 s' = Done (cstr (bytes_of ''0x00000010'')) s'"
    by (rule configuration_read_back [OF d disjI2]) (rule conjI [OF t conjI [OF refl conjI [OF refl v]]])
  then show ?thesis unfolding c .
qed

subsection \<open>Registers of a driver's device\<close>

lemma c_map_pure:
  assumes "\<And>j x s s'. body j s = Done x s' \<Longrightarrow> s' = s \<and> R j x" and "c_map i n body s = Done xs s'"
  shows "s' = s \<and> length xs = n - i \<and> (\<forall>j < length xs. R (i + j) (xs ! j))"
  using assms(2)
proof (induction "n - i" arbitrary: i xs)
  case 0
  then show ?case by (simp add: c_map_done)
next
  case (Suc m)
  then have lt: "i < n" and m: "m = n - Suc i" by simp_all
  obtain x s1 xs' where x: "body i s = Done x s1" "c_map (Suc i) n body s1 = Done xs' s'" "xs = x # xs'"
    using Suc.prems unfolding c_map_step [OF lt] by (auto simp: cswp_check_eq_Done)
  have r: "s1 = s" "R i x" using assms(1) [OF x(1)] by simp_all
  have "s' = s \<and> length xs' = n - Suc i \<and> (\<forall>j < length xs'. R (Suc i + j) (xs' ! j))"
    using x(2) r(1) by (intro Suc.hyps(1) [OF m]) simp
  then show ?case using r(2) lt x(3) by (auto simp: nth_Cons' less_Suc_eq_0_disj)
qed

lemma scandir_pure: "scandir sys dir flt s = Done x s' \<Longrightarrow> s' = s"
  by (auto simp: scandir_def fail_def split: option.splits)

lemma sub_path_pure: "sub_path str s = Done x s' \<Longrightarrow> s' = s \<and> x = str \<and> length str < 256"
  by (auto simp: sub_path_def undef_def split: if_splits)

lemma dir_regs_pure: "dir_regs sys p dir s = Done x s' \<Longrightarrow> s' = s"
  by (auto simp: dir_regs_def cswp_check_eq_Done dest: scandir_pure sub_path_pure)

lemma c_map_dirs: "c_map i n (\<lambda>j. dir_regs sys p (dirs ! j)) s = Done xs s' \<Longrightarrow> s' = s"
  using c_map_pure [of "\<lambda>j. dir_regs sys p (dirs ! j)" "\<lambda>_ _. True"] dir_regs_pure by blast

lemma c_map_paths:
  assumes "c_map 0 (length paths) (\<lambda>j. sub_path (paths ! j)) s = Done ps s'"
  shows "s' = s \<and> ps = paths \<and> (\<forall>p \<in> set paths. length p < 256)"
proof -
  have "s' = s \<and> length ps = length paths - 0 \<and> (\<forall>j < length ps. ps ! (0 + j) = paths ! (0 + j) \<and> length (paths ! (0 + j)) < 256)"
    using c_map_pure [where R = "\<lambda>j x. x = paths ! j \<and> length (paths ! j) < 256", OF _ assms]
    by (auto dest: sub_path_pure)
  then show ?thesis by (intro conjI ballI nth_equalityI) (auto simp: in_set_conv_nth)
qed

lemma get_dev_pure: "get_dev i s = Done d s' \<Longrightarrow> s' = s"
  by (auto simp: get_dev_def get_priv_def nth_p_def nth_c_def gets_def cswp_check_def undef_def
    split: option.splits if_splits outcome.splits)


definition driver_sys :: "(64 word \<Rightarrow> byte) sys" where
  "driver_sys = ram_sys\<lparr>alphasorted := \<lambda>_ _. Some [\<lparr>d_name = bytes_of ''ctrl'', d_type = DT_REG\<rparr>,
     \<lparr>d_name = bytes_of ''mode'', d_type = DT_LNK\<rparr>]\<rparr>"

definition driver_state :: "(64 word \<Rightarrow> byte) host cswp_server_state_t" where
  "driver_state = ram_state [(zero_dev\<lparr>path := Some (bytes_of ''/dev/etm'')\<rparr>, Some (bytes_of ''linux.cscomp''))]"

lemma driver_registers:
  "\<exists>s'. cswp_server_impl_cs_device_build_regs plain_libc driver_sys 0 driver_state = Done () s'"
proof -
  let ?d = "zero_dev\<lparr>path := Some (bytes_of ''/dev/etm'')\<rparr>"
  have dev: "get_dev 0 driver_state = Done ?d driver_state"
    unfolding driver_state_def by (rule get_dev_apply [OF host_state_device [where t = "Some (bytes_of ''linux.cscomp'')"]]) simp_all
  have info: "get_info 0 driver_state = Done \<lparr>registerCount = 0, registerInfo = None\<rparr> driver_state"
    by (simp add: driver_state_def host_state_def get_info_def nth_p_def nth_c_def gets_def cswp_check_def)
  have put: "\<exists>s'. put_info 0 inf driver_state = Done () s'" for inf
    by (simp add: driver_state_def host_state_def put_info_def update_p_def gets_def modify_def cswp_check_def)
  have dirs: "scandir driver_sys p dir_filter s = Done [] s" for p s
    by (simp add: scandir_def driver_sys_def dir_filter_def)
  have files: "scandir driver_sys p file_filter s = Done [bytes_of ''ctrl'', bytes_of ''mode''] s" for p s
    by (simp add: scandir_def driver_sys_def file_filter_def)
  have "length (bytes_of str) = length str" for str by (simp add: bytes_of_def)
  then have len: "length (cstr (bytes_of ''/dev/etm'') @ bytes_of ''/'' @ bytes_of ''.'') < 256"
    using length_cstr_le [of "bytes_of ''/dev/etm''"] by simp
  have names: "length (bytes_of ''ctrl'') < 256" "length (bytes_of ''mode'') < 256" by (simp_all add: bytes_of_def)
  have dir: "dir_regs driver_sys (cstr (bytes_of ''/dev/etm'')) None s = Done [bytes_of ''ctrl'', bytes_of ''mode''] s" for s :: "(64 word \<Rightarrow> byte) host cswp_server_state_t"
    using len by (simp add: dir_regs_def sub_path_def files)
  have "c_map 0 1 (\<lambda>j. dir_regs driver_sys (cstr (bytes_of ''/dev/etm'')) ([None] ! j)) driver_state
      = Done [[bytes_of ''ctrl'', bytes_of ''mode'']] driver_state"
    by (simp add: c_map_step c_map_done dir)
  moreover have "c_map 0 2 (\<lambda>j. sub_path ([bytes_of ''ctrl'', bytes_of ''mode''] ! j)) driver_state
      = Done [bytes_of ''ctrl'', bytes_of ''mode''] driver_state"
    using names by (simp add: c_map_step c_map_done sub_path_def numeral_2_eq_2)
  ultimately show ?thesis
    using dev info put by (simp add: cswp_server_impl_cs_device_build_regs_def register_directories_def build_registers_def
      dirs put_registers_def reg_path_def calloc_def plain_libc_def numeral_2_eq_2)
qed


text \<open>C34: a path of 254 or 255 characters is accepted as configuration of a driver's device, but the
  buffer in which the register list is built has no room for it and the name of a directory: if there
  is such a directory, building the list writes past the end of the buffer.\<close>

theorem long_path_overflows:
  assumes dev: "has_device i d (Some t) s" and t: "cstr t = bytes_of ''linux.cscomp''"
    and val: "254 \<le> length (cstr val)" "length (cstr val) < 256" "strdup_ok os (cstr val)"
    and dir: "\<And>m. alphasorted sys (cstr val) m \<noteq> None"
  shows "\<exists>s'. cswp_server_impl_set_config os i (bytes_of ''PATH'') val s = Done () s'
    \<and> cswp_server_impl_cs_device_build_regs os sys i s' = Undef OutOfBounds"
proof -
  obtain d' s' where s': "cswp_server_impl_set_config os i (bytes_of ''PATH'') val s = Done () s'"
    "has_device i d' (Some t) s'" "map_option cstr (path d') = Some (cstr val)"
    using set_path [OF dev t val(2,3)] by blast
  then obtain p where p: "path d' = Some p" "cstr p = cstr val" by auto
  obtain subdirs where "scandir sys (cstr p) dir_filter s' = Done subdirs s'"
    using dir [of "machine (priv s')"] p(2) by (auto simp: scandir_def)
  moreover have "sub_path (cstr p @ bytes_of ''/'' @ bytes_of ''.'') s' = Undef OutOfBounds"
    using val(1) p(2) by (simp add: sub_path_def undef_def bytes_of_def)
  ultimately have "cswp_server_impl_cs_device_build_regs os sys i s' = Undef OutOfBounds"
    using p(1) get_dev_apply [OF s'(2)]
    by (simp add: cswp_server_impl_cs_device_build_regs_def register_directories_def build_registers_def dir_regs_def
        c_map.simps cswp_check_def)
  with s'(1) show ?thesis by blast
qed

theorem long_path_overflows_witness:
  "\<exists>s'. cswp_server_impl_set_config plain_libc 0 (bytes_of ''PATH'') (replicate 255 47) driver_state = Done () s'
    \<and> cswp_server_impl_cs_device_build_regs plain_libc driver_sys 0 s' = Undef OutOfBounds"
proof -
  have t: "cstr (bytes_of ''linux.cscomp'') = bytes_of ''linux.cscomp''" by code_simp
  have c: "cstr (replicate 255 47) = replicate 255 47" by (rule cstr_id) simp
  have d: "has_device 0 (zero_dev\<lparr>path := Some (bytes_of ''/dev/etm'')\<rparr>) (Some (bytes_of ''linux.cscomp'')) driver_state"
    unfolding driver_state_def by (rule host_state_device) simp_all
  show ?thesis by (rule long_path_overflows [OF d t]) (simp_all add: c driver_sys_def plain_libc_def)
qed

text \<open>The masked contents of memory agree with the masked value, or must not.\<close>

definition poll_wanted :: "c_uint \<Rightarrow> byte list \<Rightarrow> byte list \<Rightarrow> byte list \<Rightarrow> bool" where
  "poll_wanted flags bs pMask pValue \<longleftrightarrow>
     (map2 (AND) bs pMask = map2 (AND) pValue pMask) = (flags AND CSWP_MEM_POLL_MATCH_NE = 0)"

lemma poll_compare_run:
  assumes "length bs = unat sz" and "length pMask = unat sz" and "length pValue = unat sz" and "length blk = unat sz"
  shows "poll_compare sz flags pMask (Some (map2 (AND) pValue pMask)) (Some blk) (Some bs) s
    = Done (if poll_wanted flags bs pMask pValue then Inl (Some (res_val CSWP_SUCCESS), Some bs)
            else Inr (Some (res_val CSWP_MEM_POLL_NO_MATCH), Some bs)) s"
  using assms masked_copy_runs [of "unat sz" bs pMask blk s]
  by (simp add: poll_compare_def poll_matches_def the_block_def poll_wanted_def Let_def)

lemma while_tries_stable:
  assumes "\<And>x. P x \<Longrightarrow> body x s = Done (if good then Inl y else Inr z) s" and "P x" and "P z"
  shows "while_tries (Suc n) body x s = Done (if good then y else z) s"
  using assms(2)
proof (induction n arbitrary: x)
  case (Suc n)
  show ?case
    using assms(1) [OF Suc.prems] Suc.IH [OF assms(3)] by (subst while_tries.simps) (simp del: while_tries.simps)
qed (simp add: assms(1))

text \<open>Polling mapped memory answers the question it was asked: it succeeds with the bytes there if
  they match, keeping them for a later check, and reports no match otherwise, forgetting what was
  kept; memory is only read.\<close>

theorem mapped_poll_result:
  fixes address :: "64 word"
  assumes ram: "ram_like sys mem" and dev: "has_device 0 d (Some t) s" "path d = Some p"
    and kind: "take 6 (cstr t) \<noteq> bytes_of ''mem-ap''" and w: "w \<noteq> CSWP_ACCESS_SIZE_DEF"
    and flags: "flags AND CSWP_MEM_POLL_CHECK_LAST = 0" and tries: "0 < tries"
    and blk: "malloc os sz = Some blk" "length blk = unat sz"
    and len: "length pMask = unat sz" "length pValue = unat sz" "length xs = unat sz"
    and sz: "unat sz mod access_width w = 0" "unat sz < 2 ^ 63"
  defines "bs \<equiv> bytes_at mem (machine (priv s)) address (unat sz)"
  defines "found \<equiv> poll_wanted flags bs pMask pValue"
  shows "\<exists>s' q. cswp_server_impl_mem_poll os sys 0 address sz (access_val w) flags tries interval pMask pValue (Some xs) s
      = (if found then Done (Some bs) s' else Fail (res_val CSWP_MEM_POLL_NO_MATCH) s')
    \<and> host_priv (priv s') = Some q \<and> lastPollData q = (if found then Some bs else None)
    \<and> lastPollDataSize q = (if found then ucast sz else 0) \<and> machine (priv s') = machine (priv s)"
proof -
  obtain q where q: "host_priv (priv s) = Some q" using dev(1) by (auto simp: has_device_def)
  have acc: "access_bytes (access_val w) s = Done (of_nat (access_width w)) s"
    using w by (cases w) (simp_all add: access_bytes_def push_bit_eq_mult)
  obtain mp where mp: "map_region sys (cstr p) False address sz s = Done mp s" "covers mp address (unat sz)"
    using map_region_ram [OF ram sz(2)] by blast
  obtain n where n: "unat sz = access_width w * n" using sz(1) by (metis mod_0_imp_dvd dvd_def)
  let ?cmp = "Some (map2 (AND) pValue pMask)"
  let ?round = "map_poll_round sys mp sz (access_val w) flags pMask ?cmp (Some blk)"
  have cmp: "masked_copy (unat sz) no_overflow (Some pValue) pMask (Some blk) s = Done ?cmp s"
    using masked_copy_runs [of "unat sz" pValue pMask blk s] len blk(2) by simp
  have round: "?round (r, Some ys) s = Done (if found then Inl (Some (res_val CSWP_SUCCESS), Some bs)
      else Inr (Some (res_val CSWP_MEM_POLL_NO_MATCH), Some bs)) s" if "length ys = unat sz" for r ys
  proof -
    have "copy_units (access_width w) (bus_load sys mp (undef Killed)) buf_store sz (Some ys) s = Done (Some bs) s"
      using copy_out_ram [OF ram, of mp address "access_width w" n ys sz "undef Killed" s] mp(2) that n by (simp add: bs_def)
    then show ?thesis
      using poll_compare_run [of bs sz pMask pValue blk flags s] len blk(2)
      by (simp add: map_poll_round_def copy_eq_units [OF sz(1)] found_def bs_def)
  qed
  obtain k where k: "unat tries = Suc k" using tries by (cases "unat tries") (simp_all add: unat_eq_zero)
  have loop: "while_tries (Suc k) ?round (None, Some xs) s
      = Done (if found then (Some (res_val CSWP_SUCCESS), Some bs) else (Some (res_val CSWP_MEM_POLL_NO_MATCH), Some bs)) s"
  proof (rule while_tries_stable [where P = "\<lambda>(r :: c_int option, y :: byte list option). \<exists>ys. y = Some ys \<and> length ys = unat sz"])
    fix x :: "c_int option \<times> byte list option" assume "case x of (r, y) \<Rightarrow> \<exists>ys. y = Some ys \<and> length ys = unat sz"
    then show "?round x s = Done (if found then Inl (Some (res_val CSWP_SUCCESS), Some bs)
        else Inr (Some (res_val CSWP_MEM_POLL_NO_MATCH), Some bs)) s"
      using round by (cases x) auto
  qed (use len(3) in \<open>simp_all add: bs_def\<close>)
  have run: "cswp_server_impl_mem_poll os sys 0 address sz (access_val w) flags tries interval pMask pValue (Some xs) s
      = finish_poll os sz (if found then (Some (res_val CSWP_SUCCESS), Some bs) else (Some (res_val CSWP_MEM_POLL_NO_MATCH), Some bs)) s"
    using kind flags blk(1) mp(1) acc cmp k loop get_priv_apply [OF q] device_ready_apply [OF dev] ram_likeD(3) [OF ram]
    by (simp add: cswp_server_impl_mem_poll_def del: while_tries.simps)
  have "ptr_copy (unat sz) (Some bs) (Some blk) s = Done (Some bs) s"
    using blk(2) by (simp add: ptr_copy_def obj_load_def buf_store_def obj_store_def bs_def)
  then show ?thesis
    unfolding run using blk(1) get_priv_apply [OF q]
    by (auto simp: finish_poll_def put_priv_def modify_def cswp_check_def fail_def)
qed

theorem mapped_poll_result_witness:
  "\<exists>s'. cswp_server_impl_mem_poll plain_libc ram_sys 0 0x1000 4 (access_val CSWP_ACCESS_SIZE_32) 0 5 0 (replicate 4 1) (replicate 4 0)
      (Some (replicate 4 9)) (ram_state [(memory_device, Some (bytes_of ''memory''))]) = Done (Some (replicate 4 0)) s'"
proof -
  have t: "take 6 (cstr (bytes_of ''memory'')) \<noteq> bytes_of ''mem-ap''" by code_simp
  have p: "path memory_device = Some DEV_MEM" by (simp add: memory_device_def)
  have d: "has_device 0 memory_device (Some (bytes_of ''memory'')) (ram_state [(memory_device, Some (bytes_of ''memory''))])"
    by (rule host_state_device) simp_all
  have blk: "malloc plain_libc 4 = Some (replicate 4 0)" by (simp add: plain_libc_def)
  have bs: "bytes_at (\<lambda>m. m) (machine (priv (ram_state [(memory_device, Some (bytes_of ''memory''))]))) a 4 = replicate 4 0" for a
    by (rule nth_equalityI) (simp_all add: bytes_at_def host_state_def zero_state_def)
  have f: "poll_wanted 0 (replicate 4 0) (replicate 4 1) (replicate 4 0)" by (simp add: poll_wanted_def)
  show ?thesis
    using mapped_poll_result [OF ram_sys_ram d p t, where w = CSWP_ACCESS_SIZE_32 and flags = 0 and tries = 5 and os = plain_libc
        and sz = 4 and blk = "replicate 4 0" and pMask = "replicate 4 1" and pValue = "replicate 4 0" and xs = "replicate 4 9"
        and address = "0x1000" and interval = 0]
      blk bs f by auto
qed

end
