(* ===== verification/Full_Stack.thy ===== *)
theory Full_Stack
  imports Device_Properties End_To_End Client_Properties
begin

text \<open>
  The client library, both codecs, the command interpreter, the server program and the reference
  implementation together: memory accesses of a client on the memory of the machine the server
  runs on.
\<close>

text \<open>The server is started without \<open>-v\<close>: what it is handed as information is not printed.\<close>

lemma quiet_host:
  assumes "verbose sys < 1"
  shows "quiet (Some (cswpServerImpl os sys))"
  using assms by (auto simp: quiet_def cb_def cswpServerImpl_def cswp_server_impl_log_def)

lemma access_val_round [simp]: "ucast (ucast (access_val w) :: 64 word) = access_val w" "varint_ok (ucast (access_val w))"
  by (cases w; simp add: varint_ok_def)+

lemma exchange_fitsI:
  assumes "length (body_bytes x) \<le> 32700" and "length (reply_bytes r) \<le> 32700"
  shows "exchange_fits [x] [r]"
proof -
  have "length (varint_enc v) \<le> 10" for v by (rule length_varint_enc_le_10)
  from this [of "cmd_val (command_type x)"] this [of 1] assms show ?thesis
    by (simp add: exchange_fits_def command_bytes_def response_bytes_def Let_def BUFFER_SIZE_def)
qed

subsection \<open>Memory\<close>

lemma perform_memory:
  fixes s :: "'m host cswp_server_state_t"
  assumes "0 < deviceCount s" and "malloc os (of_nat (length bs)) = Some blk"
  shows "cswp_server_impl_mem_write sys 0 address (of_nat (length bs)) (access_val w) flags bs s = Done () s'
      \<Longrightarrow> perform os (Some (cswpServerImpl os sys)) (Mem_write 0 address (ucast (access_val w)) (ucast flags) bs) s
        = Done (None, Ack CSWP_MEM_WRITE) s'"
    and "cswp_server_impl_mem_read sys 0 address (of_nat (length bs)) (access_val w) flags (Some blk) s = Done (Some bs) s
      \<Longrightarrow> length bs < 2 ^ 64
      \<Longrightarrow> perform os (Some (cswpServerImpl os sys)) (Mem_read 0 address (of_nat (length bs)) (ucast (access_val w)) (ucast flags)) s
        = Done (None, Mem_read_reply bs) s"
proof -
  have dev: "\<not> (ucast (deviceCount s) :: 64 word) \<le> 0"
    using assms(1) by (simp add: word_le_nat_alt unat_ucast_32_64 word_less_nat_alt)
  have flags: "ucast (ucast flags :: 64 word) = flags" by (rule bit_word_eqI) (simp add: bit_simps)
  show "cswp_server_impl_mem_write sys 0 address (of_nat (length bs)) (access_val w) flags bs s = Done () s'
      \<Longrightarrow> perform os (Some (cswpServerImpl os sys)) (Mem_write 0 address (ucast (access_val w)) (ucast flags) bs) s
        = Done (None, Ack CSWP_MEM_WRITE) s'"
    using dev by (simp add: on_device_def cswp_server_mem_write_def cb_def cswpServerImpl_def accept_def flags)
  show "cswp_server_impl_mem_read sys 0 address (of_nat (length bs)) (access_val w) flags (Some blk) s = Done (Some bs) s
      \<Longrightarrow> length bs < 2 ^ 64
      \<Longrightarrow> perform os (Some (cswpServerImpl os sys)) (Mem_read 0 address (of_nat (length bs)) (ucast (access_val w)) (ucast flags)) s
        = Done (None, Mem_read_reply bs) s"
    using dev assms(2)
    by (simp add: on_device_def cswp_server_mem_read_def cb_def cswpServerImpl_def accept_def flags mem_reply_def items_def
        block_def unat_of_nat_small)
qed

lemma memory_exchange_fits:
  assumes "length bs \<le> 32000"
  shows "exchange_fits [Mem_write i address a f bs] [Ack CSWP_MEM_WRITE]"
    and "exchange_fits [Mem_read i address n a f] [Mem_read_reply bs]"
proof -
  have len: "length (varint_enc v) \<le> 10" for v by (rule length_varint_enc_le_10)
  from len [of i] len [of n] len [of a] len [of f] len [of "of_nat (length bs)"] len [of "cmd_val CSWP_MEM_WRITE"]
    len [of "cmd_val CSWP_MEM_READ"] len [of 0] assms
  show "exchange_fits [Mem_write i address a f bs] [Ack CSWP_MEM_WRITE]"
      "exchange_fits [Mem_read i address n a f] [Mem_read_reply bs]"
    by (simp_all add: exchange_fitsI ok_header_def data_bytes_def)
qed

lemma memory_round_trip:
  fixes c :: "'m host link cswp_client_t"
  assumes ram: "ram_like sys mem" and quiet: "verbose sys < 1" and libc: "alloc_ok os"
    and client: "client_ok c" "batch_mode c = BATCH_NONE" "transport_priv c = (d, msg)" and server: "server_ready d"
    and dev: "has_device 0 dev (Some t) (srv d)" "path dev = Some p" "0 < deviceCount (srv d)"
    and kind: "take 6 (cstr t) \<noteq> bytes_of ''mem-ap''"
    and w: "w \<noteq> CSWP_ACCESS_SIZE_DEF" and flags: "flags AND CSWP_MEM_NO_ADDR_INC = 0" "varint_ok (ucast flags)"
    and len: "length bs mod access_width w = 0" "length bs \<le> 32000"
    and dest: "m_bytes (c_out c) a = Some buf" "length bs \<le> length buf" "m_size (c_out c) k = Some n"
  shows "\<exists>c1 c2. cswp_device_mem_write (loopback os (Some (cswpServerImpl os sys))) 0 address (of_nat (length bs))
        (access_val w) flags bs c = Done () c1
    \<and> cswp_device_mem_read (loopback os (Some (cswpServerImpl os sys))) 0 address (of_nat (length bs))
        (access_val w) flags (Some a) (Some k) c1 = Done () c2
    \<and> m_bytes (c_out c2) a = Some (bs @ drop (length bs) buf) \<and> m_size (c_out c2) k = Some (of_nat (length bs))"
proof -
  let ?impl = "Some (cswpServerImpl os sys)" and ?n = "of_nat (length bs) :: size_t"
  let ?wr = "Mem_write 0 address (ucast (access_val w)) (ucast flags) bs"
  let ?rd = "Mem_read 0 address ?n (ucast (access_val w)) (ucast flags)"
  have n: "unat ?n = length bs" using len(2) by (intro unat_of_nat_small) simp
  have small: "varint_ok ?n" "count_ok bs"
    using len(2) by (simp_all add: varint_ok_def word_less_nat_alt n count_ok_def)
  obtain blk where blk: "malloc os ?n = Some blk" "length blk = length bs"
    using libc n unfolding alloc_ok_def by metis
  have lens: "length bs < 2 ^ 63" using len(2) by simp
  obtain m where m:
    "cswp_server_impl_mem_write sys 0 address ?n (access_val w) flags bs (srv d) = Done () (with_machine m (srv d))"
    "cswp_server_impl_mem_read sys 0 address ?n (access_val w) flags (Some blk) (with_machine m (srv d))
      = Done (Some bs) (with_machine m (srv d))"
    using memory_copied [OF ram dev(1,2) kind w flags(1) lens blk(2)] len(1) by auto
  note run = perform_memory [where sys = sys and os = os and flags = flags and w = w and address = address and bs = bs]
  have wr: "perform os ?impl ?wr (srv d) = Done (None, Ack CSWP_MEM_WRITE) (with_machine m (srv d))"
    by (rule run(1) [OF dev(3) blk(1) m(1)])
  have rd: "perform os ?impl ?rd (with_machine m (srv d)) = Done (None, Mem_read_reply bs) (with_machine m (srv d))"
    by (rule run(2) [OF _ blk(1) m(2)]) (use dev(3) len(2) in simp_all)
  obtain c1 d1 where c1: "submit (loopback os ?impl) (encode_command ?wr) CSWP_MEM_WRITE No_completion c = Done () c1"
    "c_out c1 = c_out c" "transport_priv c1 = (d1, [])" "srv d1 = with_machine m (srv d)" "client_ok c1" "server_ready d1"
    "batch_mode c1 = BATCH_NONE"
    using call_accepted [OF quiet_host [OF quiet] libc _ client server wr _ memory_exchange_fits(1) [OF len(2)],
        of CSWP_MEM_WRITE No_completion "c_out c"] small flags(2)
    by (auto simp: reply_for_def varint_ok_0)
  let ?mem = "(c_out c)\<lparr>m_bytes := (m_bytes (c_out c))(a \<mapsto> bs @ drop (length bs) buf), m_size := (m_size (c_out c))(k \<mapsto> ?n)\<rparr>"
  have stored: "deliver (Mem_read_complete (Some a) (Some k)) (Mem_read_reply bs) (c_out c1) = Done () ?mem"
    using dest c1(2) by (cases "bs = []") (simp_all add: cswp_check_def store_bytes_def store_size_def fun_upd_idem)
  obtain c2 where "submit (loopback os ?impl) (encode_command ?rd) CSWP_MEM_READ (Mem_read_complete (Some a) (Some k)) c1 = Done () c2"
    "c_out c2 = ?mem"
    using call_accepted [OF quiet_host [OF quiet] libc _ c1(5,7,3,6) rd [folded c1(4)] _
        memory_exchange_fits(2) [OF len(2)] _ stored] small flags(2)
    by (auto simp: reply_for_def varint_ok_0)
  with c1(1) show ?thesis by (auto simp: cswp_device_mem_write_def cswp_device_mem_read_def)
qed


definition memory_server :: "(64 word \<Rightarrow> byte) host ctx" where
  "memory_server = \<lparr>srv = host_state (\<lambda>_. 0) [(memory_device, Some (bytes_of ''memory''))],
     cmd = empty_buffer 32768, rsp = empty_buffer 32768\<rparr>"

lemma memory_server_ready:
  "server_ready memory_server" "has_device 0 memory_device (Some (bytes_of ''memory'')) (srv memory_server)"
  "path memory_device = Some DEV_MEM" "0 < deviceCount (srv memory_server)"
proof -
  have s: "srv memory_server = host_state (\<lambda>_. 0) [(memory_device, Some (bytes_of ''memory''))]"
    by (simp add: memory_server_def)
  show "path memory_device = Some DEV_MEM" by (simp add: memory_device_def)
  show "has_device 0 memory_device (Some (bytes_of ''memory'')) (srv memory_server)"
    unfolding s by (rule host_state_device) simp_all
  show "0 < deviceCount (srv memory_server)" by (simp add: s host_state_def)
  show "server_ready memory_server"
    using empty_buffer_at_end [of 32768]
    by (simp add: server_ready_def memory_server_def TARGET_BUFFER_SIZE_def at_end_def empty_buffer_def)
qed


end
