(* ===== verification/Rddi_Handles.thy ===== *)
theory Rddi_Handles
  imports Prelude
begin

text \<open>
  What the two RDDI libraries share: the result codes of \<^verbatim>\<open>rddi/rddi.h\<close>, the table of open handles
  (\<^verbatim>\<open>rddi_streaming_trace/common/env_map.cpp\<close> and \<^verbatim>\<open>rddi-memap_cswp/env_map.cpp\<close> differ in the class of
  their exceptions only), the environment behind a handle, and the turning of exceptions into result
  codes. The table is the list of its entries in the order of the handles, as \<^verbatim>\<open>std::map\<close> keeps them. The
  trace library keeps the last error of each thread, the MEM-AP library one for all: the type \<open>'k\<close> of the
  keys is \<open>nat\<close> or \<open>unit\<close>. Texts of errors are left out here.
\<close>

definition RDDI_SUCCESS :: c_int where "RDDI_SUCCESS = 0x0000"
definition RDDI_BADARG :: c_int where "RDDI_BADARG = 0x0001"
definition RDDI_INVHANDLE :: c_int where "RDDI_INVHANDLE = 0x0002"
definition RDDI_FAILED :: c_int where "RDDI_FAILED = 0x0003"
definition RDDI_TOOMANYCONNECTIONS :: c_int where "RDDI_TOOMANYCONNECTIONS = 0x0004"
definition RDDI_BUFFER_OVERFLOW :: c_int where "RDDI_BUFFER_OVERFLOW = 0x0005"
definition RDDI_INTERNAL_ERROR :: c_int where "RDDI_INTERNAL_ERROR = 0x000D"
definition RDDI_PARSE_FAILED :: c_int where "RDDI_PARSE_FAILED = 0x000E"
definition RDDI_NO_CONFIG :: c_int where "RDDI_NO_CONFIG = 0x0066"

definition RDDI_STREAMING_TRACE_TIMEOUT :: c_int where "RDDI_STREAMING_TRACE_TIMEOUT = 0x0204"

subsection \<open>Handles\<close>

text \<open>Until a configuration file has been opened, every call on a handle fails.\<close>

datatype 'i env = NullImplementation | RealImplementation 'i

record ('e, 'k) rddi_state =
  g_envs :: "(c_int \<times> 'e) list"
  g_err :: "'k \<Rightarrow> c_int"

type_synonym ('e, 'k, 'a) rddi = "(('e, 'k) rddi_state, 'a) prog"

text \<open>The entries are compared with the numbers from \<open>0\<close> on; the first difference is the handle.\<close>

primrec first_available :: "c_int \<Rightarrow> c_int list \<Rightarrow> c_int" where
  "first_available n [] = n"
| "first_available n (k # ks) = (if k = n then first_available (n + 1) ks else n)"

primrec put_env :: "c_int \<Rightarrow> 'e \<Rightarrow> (c_int \<times> 'e) list \<Rightarrow> (c_int \<times> 'e) list" where
  "put_env h e [] = [(h, e)]"
| "put_env h e (x # es) = (if fst x = h then (h, e) # es else if h <s fst x then (h, e) # x # es else x # put_env h e es)"

definition env_Lookup :: "c_int \<Rightarrow> ('e, 'k, 'e) rddi" where
  "env_Lookup h = cswp_check (gets g_envs) (\<lambda>es. case map_of es h of None \<Rightarrow> fail RDDI_INVHANDLE | Some e \<Rightarrow> ret e)"

definition env_Store :: "'e \<Rightarrow> ('e, 'k, c_int) rddi" where
  "env_Store e =
     cswp_check (gets (\<lambda>r. first_available 0 (map fst (g_envs r)))) (\<lambda>h.
     if h = 0x7FFFFFFF then fail RDDI_TOOMANYCONNECTIONS
     else cswp_check (modify (\<lambda>r. r\<lparr>g_envs := put_env h e (g_envs r)\<rparr>)) (\<lambda>_. ret h))"

definition env_Remove :: "c_int \<Rightarrow> ('e, 'k, unit) rddi" where
  "env_Remove h =
     cswp_check (gets g_envs) (\<lambda>es.
     if map_of es h = None then fail RDDI_INVHANDLE
     else modify (\<lambda>r. r\<lparr>g_envs := filter (\<lambda>x. fst x \<noteq> h) (g_envs r)\<rparr>))"

subsection \<open>Results\<close>

definition StoreError :: "'k \<Rightarrow> c_int \<Rightarrow> ('e, 'k, unit) rddi" where
  "StoreError th e = modify (\<lambda>r. r\<lparr>g_err := (g_err r)(th := e)\<rparr>)"

definition LastErrorCode :: "'k \<Rightarrow> ('e, 'k, c_int) rddi" where
  "LastErrorCode th = gets (\<lambda>r. g_err r th)"

text \<open>\<open>TRAP_EXCEPTIONS\<close>, with \<open>code\<close> for the result code of an exception, and a function that ends with the
  return of the last error. What the block writes through pointers is its result; there is none if it throws.\<close>

definition TRAP_EXCEPTIONS :: "(c_int \<Rightarrow> c_int) \<Rightarrow> 'k \<Rightarrow> ('e, 'k, 'a) rddi \<Rightarrow> ('e, 'k, 'a option) rddi" where
  "TRAP_EXCEPTIONS code th m =
     attempt m (\<lambda>e. cswp_check (StoreError th (code e)) (\<lambda>_. ret None))
       (\<lambda>x. cswp_check (StoreError th RDDI_SUCCESS) (\<lambda>_. ret (Some x)))"

definition rddi_api :: "(c_int \<Rightarrow> c_int) \<Rightarrow> 'k \<Rightarrow> ('e, 'k, 'a) rddi \<Rightarrow> ('e, 'k, c_int \<times> 'a option) rddi" where
  "rddi_api code th m =
     cswp_check (TRAP_EXCEPTIONS code th m) (\<lambda>r. cswp_check (LastErrorCode th) (\<lambda>e. ret (e, r)))"

definition CheckNotNull :: "'p option \<Rightarrow> ('s, unit) prog" where
  "CheckNotNull p = (if p = None then fail RDDI_BADARG else ret ())"

text \<open>Three numbers, and the name of the library if there is a buffer for it. The length of the buffer has been cut
  to 32 bits by the caller.\<close>

definition Version :: "c_int \<times> c_int \<times> c_int \<Rightarrow> byte list \<Rightarrow> unit option \<Rightarrow> unit option \<Rightarrow> unit option \<Rightarrow> unit option \<Rightarrow> c_uint
    \<Rightarrow> ('s, (c_int \<times> c_int \<times> c_int) \<times> byte list option) prog" where
  "Version numbers NAME major minor build name nameLen =
     (if major = None then fail RDDI_BADARG
      else if minor = None then fail RDDI_BADARG
      else if build = None then fail RDDI_BADARG
      else if name \<noteq> None \<and> nameLen > 0 then
        if nameLen \<le> of_nat (length NAME) then fail RDDI_BUFFER_OVERFLOW
        else ret (numbers, Some (NAME @ [0]))
      else ret (numbers, None))"

text \<open>A call on the environment of a handle.\<close>

definition on_env :: "c_int \<Rightarrow> ('i, 'a) prog \<Rightarrow> ('i env, 'k, 'a) rddi" where
  "on_env h m =
     cswp_check (env_Lookup h) (\<lambda>e. case e of
         NullImplementation \<Rightarrow> fail RDDI_NO_CONFIG
       | RealImplementation i \<Rightarrow> zoom (\<lambda>r. i) (\<lambda>i r. r\<lparr>g_envs := put_env h (RealImplementation i) (g_envs r)\<rparr>) m)"

lemmas api_defs = rddi_api_def TRAP_EXCEPTIONS_def StoreError_def LastErrorCode_def cswp_check_def attempt_def RDDI_SUCCESS_def

subsection \<open>The table of handles\<close>

text \<open>The handles are in order, none is negative, and the largest number is not used.\<close>

definition handles_ok :: "c_int list \<Rightarrow> bool" where
  "handles_ok ks \<longleftrightarrow> sorted_wrt (\<lambda>a b. a <s b) ks \<and> (\<forall>k \<in> set ks. 0 \<le>s k \<and> k \<noteq> 0x7FFFFFFF)"

lemma first_available_least:
  assumes "sorted_wrt (\<lambda>a b. a <s b) ks" and "\<forall>k \<in> set ks. n \<le>s k \<and> k \<noteq> 0x7FFFFFFF" and "0 \<le>s n"
  shows "n \<le>s first_available n ks \<and> first_available n ks \<notin> set ks
    \<and> (\<forall>k. n \<le>s k \<and> k <s first_available n ks \<longrightarrow> k \<in> set ks)"
  using assms
proof (induction ks arbitrary: n)
  case (Cons k ks)
  show ?case
  proof (cases "k = n")
    case False
    then have "n <s k" using Cons.prems(2) by (simp add: signed.less_le)
    moreover have "k <s j" if "j \<in> set ks" for j using Cons.prems(1) that by simp
    ultimately show ?thesis using False by (auto dest: signed.less_trans)
  next
    case True
    then have n: "n \<noteq> 0x7FFFFFFF" using Cons.prems(2) by simp
    note inc = token_incr [OF Cons.prems(3) n]
    have step: "n + 1 \<le>s j \<longleftrightarrow> n <s j" for j
      using sint_incr [OF Cons.prems(3) n] by (auto simp: word_sle_eq word_sless_alt)
    have "\<forall>j \<in> set ks. n + 1 \<le>s j \<and> j \<noteq> 0x7FFFFFFF" using Cons.prems True by (simp add: step)
    from Cons.IH [OF _ this inc(1)] Cons.prems(1)
    have ih: "n + 1 \<le>s first_available (n + 1) ks" "first_available (n + 1) ks \<notin> set ks"
      "\<forall>j. n + 1 \<le>s j \<and> j <s first_available (n + 1) ks \<longrightarrow> j \<in> set ks" by simp_all
    then have "n <s first_available (n + 1) ks" by (simp add: step)
    then show ?thesis
      using True ih by (auto simp: step signed.less_le)
  qed
qed auto

lemma put_env_keys:
  assumes "sorted_wrt (\<lambda>a b. a <s b) (map fst es)"
  shows "sorted_wrt (\<lambda>a b. a <s b) (map fst (put_env h e es)) \<and> fst ` set (put_env h e es) = insert h (fst ` set es)
    \<and> map_of (put_env h e es) = (map_of es)(h \<mapsto> e)"
  using assms
proof (induction es)
  case (Cons x es)
  have "sorted_wrt (\<lambda>a b. a <s b) (map fst es)" using Cons.prems by simp
  note ih = Cons.IH [OF this]
  consider "fst x = h" | "fst x \<noteq> h" "h <s fst x" | "fst x \<noteq> h" "\<not> h <s fst x" by blast
  then show ?case
  proof cases
    case 1
    then show ?thesis using Cons.prems by (cases x) (auto simp: fun_eq_iff)
  next
    case 2
    then show ?thesis using Cons.prems by (cases x) (auto intro: signed.less_trans simp: fun_eq_iff)
  next
    case 3
    then have "fst x <s h" by (simp add: signed.not_less signed.less_le)
    moreover have "\<forall>y \<in> set (map fst (put_env h e es)). y = h \<or> y \<in> set (map fst es)" using ih by auto
    ultimately show ?thesis using Cons.prems ih 3 by (cases x) (auto simp: fun_eq_iff)
  qed
qed simp

lemma put_env_present:
  assumes "sorted_wrt (\<lambda>a b. a <s b) (map fst es)" and "h \<in> fst ` set es"
  shows "map fst (put_env h e es) = map fst es"
  using assms
proof (induction es)
  case (Cons x es)
  then have "\<not> h <s fst x" if "fst x \<noteq> h"
    using that by (auto simp: signed.not_less intro: signed.less_imp_le)
  with Cons show ?case by auto
qed simp

text \<open>A call through a handle, as one step.\<close>

lemma env_call:
  "rddi_api code th (on_env h m) r =
     (let result = \<lambda>e x es. Done (e, x) (r\<lparr>g_envs := es, g_err := (g_err r)(th := e)\<rparr>) in
      case map_of (g_envs r) h of
        None \<Rightarrow> result (code RDDI_INVHANDLE) None (g_envs r)
      | Some NullImplementation \<Rightarrow> result (code RDDI_NO_CONFIG) None (g_envs r)
      | Some (RealImplementation i) \<Rightarrow> (case m i of
          Done x i' \<Rightarrow> result 0 (Some x) (put_env h (RealImplementation i') (g_envs r))
        | Fail c i' \<Rightarrow> result (code c) None (put_env h (RealImplementation i') (g_envs r))
        | Undef u \<Rightarrow> Undef u))"
  by (simp add: api_defs on_env_def env_Lookup_def zoom_def Let_def fail_def split: option.split env.split outcome.split)

text \<open>C26: A call through a handle touches nothing else: whatever it does and however it ends, the other
  connections and the set of handles stay as they were, and the code it returns is the last error of its
  thread and no other's. A handle that is not open or has no configuration is refused without a change, and
  a call that throws returns the code of the exception, after what it had done to its own connection.\<close>

theorem call_isolated:
  assumes "handles_ok (map fst (g_envs r))"
  shows "case rddi_api code th (on_env h m) r of
      Done (e, x) r' \<Rightarrow> g_err r' = (g_err r)(th := e) \<and> map fst (g_envs r') = map fst (g_envs r)
        \<and> (\<forall>k. k \<noteq> h \<longrightarrow> map_of (g_envs r') k = map_of (g_envs r) k)
        \<and> (case map_of (g_envs r) h of
            None \<Rightarrow> e = code RDDI_INVHANDLE \<and> x = None \<and> g_envs r' = g_envs r
          | Some NullImplementation \<Rightarrow> e = code RDDI_NO_CONFIG \<and> x = None \<and> g_envs r' = g_envs r
          | Some (RealImplementation i) \<Rightarrow> (case m i of
              Done y i' \<Rightarrow> e = RDDI_SUCCESS \<and> x = Some y \<and> map_of (g_envs r') h = Some (RealImplementation i')
            | Fail c i' \<Rightarrow> e = code c \<and> x = None \<and> map_of (g_envs r') h = Some (RealImplementation i')
            | Undef u \<Rightarrow> False))
    | Fail e r' \<Rightarrow> False
    | Undef u \<Rightarrow> \<exists>i. map_of (g_envs r) h = Some (RealImplementation i) \<and> m i = Undef u"
proof -
  have sorted: "sorted_wrt (\<lambda>a b. a <s b) (map fst (g_envs r))" using assms by (simp add: handles_ok_def)
  have here: "h \<in> fst ` set (g_envs r)" if "map_of (g_envs r) h = Some e" for e
    using map_of_SomeD [OF that] by force
  note keys = put_env_present [OF sorted here]
  have upd: "map_of (put_env h e (g_envs r)) = (map_of (g_envs r))(h \<mapsto> e)" for e
    using put_env_keys [OF sorted] by blast
  show ?thesis
    by (auto simp: env_call Let_def keys upd RDDI_SUCCESS_def split: option.split env.split outcome.split)
qed

theorem call_isolated_witness:
  "\<exists>r'. rddi_api id () (on_env 2 (modify Suc)) \<lparr>g_envs = [(0, NullImplementation), (2, RealImplementation 7)], g_err = (\<lambda>_. 3)\<rparr>
      = Done (0, Some ()) r' \<and> map_of (g_envs r') 0 = Some NullImplementation \<and> map_of (g_envs r') 2 = Some (RealImplementation 8)"
proof -
  let ?r = "\<lparr>g_envs = [(0, NullImplementation), (2, RealImplementation (7 :: nat))], g_err = (\<lambda>_. 3)\<rparr> :: (nat env, unit) rddi_state"
  have ok: "handles_ok (map fst (g_envs ?r))" by (simp add: handles_ok_def word_sle_eq word_sless_alt)
  obtain r' where r': "rddi_api id () (on_env 2 (modify Suc)) ?r = Done (0, Some ()) r'"
    by (simp add: env_call modify_def Let_def)
  with call_isolated [OF ok, where code = id and th = "()" and h = 2 and m = "modify Suc"] show ?thesis by (simp add: modify_def)
qed

end
