(* ===== verification/Trace_Capture.thy ===== *)
theory Trace_Capture
  imports Server_Properties Rddi_Handles
begin

text \<open>
  The trace capture program, \<^verbatim>\<open>rddi_streaming_trace/streaming_trace_capture/main.c\<close>: finding the sinks
  of the streaming trace library, handing it buffers, writing completed buffers to a file and handing
  them back until the capture ends. What the library and the user do is a value of type \<open>trace_run\<close>:
  the result codes of its calls and, per round of the capture loop, the signals that have arrived, the
  time, and the buffer that is completed. The state records the calls the program makes. Messages to
  the terminal are left out.
\<close>

subsection \<open>The library\<close>

datatype event_type = TYPE_NONE | TYPE_EVENT | TYPE_ERROR | TYPE_DATA | TYPE_END_OF_DATA | TYPE_CUSTOM c_int

record event_buffer =
  buf_type :: event_type
  buf_pBuf :: "byte list"
  buf_used :: size_t

record sink_details =
  dataBufferCount :: size_t
  dataBufferSize :: size_t
  eventBufferCount :: size_t
  eventBufferSize :: size_t

text \<open>Calls with their results. \<open>Submitted t i e v\<close> hands over buffer \<open>i\<close> for events of type \<open>t\<close>; the
  library returns \<open>e\<close> and, if it wrote one, the token \<open>v\<close>.\<close>

datatype api_call =
    Attached c_int | Started c_int | Flushed c_int | Stopped c_int | Detached c_int
  | Submitted event_type nat c_int | Waited c_int

text \<open>Waiting ends with a result code and no token, or completes a buffer: the library has filled the
  buffer with the index \<open>j\<close> and returns its token.\<close>

datatype wait_result = Wait_code c_int | Completed c_int nat event_type "byte list"

record trace_round =
  signals :: nat
  clock :: int
  flush_res :: c_int
  wait_res :: wait_result
  submit_res :: "c_int \<times> c_int option"

record trace_run =
  attach_res :: c_int
  start_res :: c_int
  first_submits :: "(c_int \<times> c_int option) list"
  rounds :: "trace_round list"
  stop_res :: c_int
  last_waits :: "c_int list"
  detach_res :: c_int

record capture =
  exitFlag :: nat
  buffers :: "event_buffer list"
  bufferTokens :: "c_int list"
  pendingBuffers :: int
  bytesCaptured :: size_t
  flushed :: bool
  tFlush :: int
  outFile :: "byte list option"
  calls :: "api_call list"

definition call :: "api_call \<Rightarrow> (capture, unit) prog" where
  "call c = modify (\<lambda>s. s\<lparr>calls := calls s @ [c]\<rparr>)"

subsection \<open>Buffers\<close>

text \<open>The last of the buffers with the token.\<close>

definition find_buffer :: "c_int \<Rightarrow> c_int list \<Rightarrow> nat option" where
  "find_buffer token tokens =
     fold (\<lambda>i foundBuffer. if token = tokens ! i then Some i else foundBuffer) [0..<length tokens] None"

definition data_type :: "nat \<Rightarrow> nat \<Rightarrow> event_type" where
  "data_type numDataBuffers i = (if i < numDataBuffers then TYPE_DATA else TYPE_EVENT)"

text \<open>Handing over a buffer. A result other than success is the error of the caller.\<close>

definition submit_buffer :: "nat \<Rightarrow> nat \<Rightarrow> c_int \<times> c_int option \<Rightarrow> (capture, unit) prog" where
  "submit_buffer numDataBuffers i r =
     cswp_check (call (Submitted (data_type numDataBuffers i) i (fst r))) (\<lambda>_.
     cswp_check (case snd r of None \<Rightarrow> ret ()
                 | Some v \<Rightarrow> modify (\<lambda>s. s\<lparr>bufferTokens := (bufferTokens s)[i := v]\<rparr>)) (\<lambda>_.
     of_res (fst r)))"

text \<open>What the library has written into a buffer before it returns the token. It writes no more than
  fits.\<close>

definition fill_buffer :: "nat \<Rightarrow> event_type \<Rightarrow> byte list \<Rightarrow> event_buffer list \<Rightarrow> event_buffer list" where
  "fill_buffer j t bs bufs = (if j < length bufs
     then bufs[j := (bufs ! j)\<lparr>buf_type := t, buf_used := of_nat (length bs),
            buf_pBuf := bs @ drop (length bs) (buf_pBuf (bufs ! j))\<rparr>]
     else bufs)"

subsection \<open>The capture loop\<close>

definition FLUSH_TIMEOUT :: int where "FLUSH_TIMEOUT = 10 * 1000"

text \<open>\<open>fwrite\<close>: as many bytes as the limit leaves room for.\<close>

definition write_trace :: "size_t \<Rightarrow> event_buffer \<Rightarrow> (capture, unit) prog" where
  "write_trace maxCaptureSize b =
     cswp_check (gets id) (\<lambda>s.
     case outFile s of
       None \<Rightarrow> ret ()
     | Some out \<Rightarrow>
         if maxCaptureSize = 0 \<or> bytesCaptured s < maxCaptureSize then
           let n = (if maxCaptureSize \<noteq> 0 \<and> buf_used b > maxCaptureSize - bytesCaptured s
                    then maxCaptureSize - bytesCaptured s else buf_used b) in
           if unat n \<le> length (buf_pBuf b) then modify (\<lambda>s. s\<lparr>outFile := Some (out @ take (unat n) (buf_pBuf b))\<rparr>)
           else undef OutOfBounds
         else ret ())"

text \<open>The first part of a round: stop at the limit, flush once when told to stop. The result says
  whether the flush has timed out.\<close>

definition check_exit :: "size_t \<Rightarrow> trace_round \<Rightarrow> (capture, bool) prog" where
  "check_exit maxCaptureSize r =
     cswp_check (modify (\<lambda>s. if maxCaptureSize \<noteq> 0 \<and> bytesCaptured s \<ge> maxCaptureSize then s\<lparr>exitFlag := 1\<rparr> else s)) (\<lambda>_.
     cswp_check (gets id) (\<lambda>s.
     if exitFlag s = 1 \<and> \<not> flushed s then
       cswp_check (call (Flushed (flush_res r))) (\<lambda>_.
       cswp_check (modify (\<lambda>s. s\<lparr>flushed := True, tFlush := clock r\<rparr>)) (\<lambda>_. ret False))
     else ret (flushed s \<and> clock r > tFlush s + FLUSH_TIMEOUT)))"

text \<open>A completed buffer. The result says whether the loop ends.\<close>

definition process_buffer :: "nat \<Rightarrow> size_t \<Rightarrow> trace_round \<Rightarrow> nat \<Rightarrow> (capture, bool) prog" where
  "process_buffer numDataBuffers maxCaptureSize r i =
     cswp_check (gets buffers) (\<lambda>bufs.
     cswp_check (nth_c bufs i) (\<lambda>b.
     cswp_check (write_trace maxCaptureSize b) (\<lambda>_.
     if buf_type b = TYPE_END_OF_DATA then ret True
     else
       cswp_check (if buf_type b = TYPE_DATA then modify (\<lambda>s. s\<lparr>bytesCaptured := bytesCaptured s + buf_used b\<rparr>)
                   else ret ()) (\<lambda>_.
       attempt (submit_buffer numDataBuffers i (submit_res r))
         (\<lambda>_. ret True)
         (\<lambda>_. cswp_check (modify (\<lambda>s. s\<lparr>pendingBuffers := pendingBuffers s + 1\<rparr>)) (\<lambda>_. ret False))))))"

definition capture_round :: "nat \<Rightarrow> size_t \<Rightarrow> trace_round \<Rightarrow> (capture, bool) prog" where
  "capture_round numDataBuffers maxCaptureSize r =
     cswp_check (check_exit maxCaptureSize r) (\<lambda>timed_out.
     if timed_out then ret True
     else (case wait_res r of
         Wait_code e \<Rightarrow> cswp_check (call (Waited e)) (\<lambda>_.
           if e = RDDI_SUCCESS then undef UninitRead else ret (e \<noteq> RDDI_STREAMING_TRACE_TIMEOUT))
       | Completed token j t bs \<Rightarrow>
           cswp_check (call (Waited RDDI_SUCCESS)) (\<lambda>_.
           cswp_check (modify (\<lambda>s. s\<lparr>buffers := fill_buffer j t bs (buffers s), pendingBuffers := pendingBuffers s - 1\<rparr>)) (\<lambda>_.
           cswp_check (gets bufferTokens) (\<lambda>tokens.
           case find_buffer token tokens of
             None \<Rightarrow> ret True
           | Some i \<Rightarrow> process_buffer numDataBuffers maxCaptureSize r i)))))"

text \<open>The loop. The signals of a round arrive before its test; the result says whether the loop has
  ended, which it has not when the rounds are used up.\<close>

primrec capture_loop :: "nat \<Rightarrow> size_t \<Rightarrow> trace_round list \<Rightarrow> (capture, bool) prog" where
  "capture_loop numDataBuffers maxCaptureSize [] = ret False"
| "capture_loop numDataBuffers maxCaptureSize (r # rs) =
     cswp_check (modify (\<lambda>s. s\<lparr>exitFlag := exitFlag s + signals r\<rparr>)) (\<lambda>_.
     cswp_check (gets exitFlag) (\<lambda>f.
     if f > 1 then ret True
     else cswp_check (capture_round numDataBuffers maxCaptureSize r) (\<lambda>stop.
       if stop then ret True else capture_loop numDataBuffers maxCaptureSize rs)))"

subsection \<open>A capture\<close>

text \<open>The buffers. A failed \<open>malloc\<close> is noticed at the first element that is stored; a block for the
  library that could not be allocated is empty. Numbers of buffers that are no \<open>int\<close> are left out.\<close>

definition new_buffers :: "libc \<Rightarrow> nat \<Rightarrow> size_t \<Rightarrow> event_buffer list" where
  "new_buffers os n sz = replicate n \<lparr>buf_type = TYPE_NONE, buf_pBuf = block (malloc os sz), buf_used = 0\<rparr>"

definition allocate_buffers :: "libc \<Rightarrow> sink_details \<Rightarrow> (capture, nat \<times> nat) prog" where
  "allocate_buffers os sd =
     (let nd = unat (dataBufferCount sd); ne = unat (eventBufferCount sd) in
      if nd + ne < 2 ^ 31 then
        if nd + ne > 0 \<and> (malloc os (of_nat ((nd + ne) * 32)) = None \<or> malloc os (of_nat ((nd + ne) * 4)) = None)
        then undef NullDeref
        else cswp_check (modify (\<lambda>s. s\<lparr>bufferTokens := replicate (nd + ne) (- 1),
               buffers := new_buffers os nd (dataBufferSize sd) @ new_buffers os ne (eventBufferSize sd)\<rparr>)) (\<lambda>_.
             ret (nd, nd + ne))
      else undef IntOverflow)"

definition submit_buffers :: "trace_run \<Rightarrow> nat \<Rightarrow> nat \<Rightarrow> (capture, unit) prog" where
  "submit_buffers run numDataBuffers numBuffers = c_for 0 numBuffers (\<lambda>i.
     attempt (submit_buffer numDataBuffers i (first_submits run ! i))
       (\<lambda>e. cswp_check (call (Stopped (stop_res run))) (\<lambda>_.
            cswp_check (call (Detached (detach_res run))) (\<lambda>_. fail e)))
       ret)"

text \<open>The buffers that are still with the library are waited for; the result says whether the loop has
  ended.\<close>

primrec drain_loop :: "c_int list \<Rightarrow> (capture, bool) prog" where
  "drain_loop [] = cswp_check (gets pendingBuffers) (\<lambda>n. ret (n \<le> 0))"
| "drain_loop (e # es) =
     cswp_check (gets pendingBuffers) (\<lambda>n.
     if n \<le> 0 then ret True
     else
       cswp_check (call (Waited e)) (\<lambda>_.
       if e \<noteq> RDDI_SUCCESS then ret True
       else cswp_check (modify (\<lambda>s. s\<lparr>pendingBuffers := pendingBuffers s - 1\<rparr>)) (\<lambda>_. drain_loop es)))"

text \<open>The result code is that of the last call; \<open>False\<close> says that the capture still runs or waits.\<close>

definition end_capture :: "trace_run \<Rightarrow> (capture, bool) prog" where
  "end_capture run =
     cswp_check (call (Stopped (stop_res run))) (\<lambda>_.
     cswp_check (drain_loop (last_waits run)) (\<lambda>drained.
     if drained then
       cswp_check (call (Detached (detach_res run))) (\<lambda>_.
       cswp_check (of_res (detach_res run)) (\<lambda>_. ret True))
     else ret False))"

definition collect_trace :: "libc \<Rightarrow> sink_details \<Rightarrow> size_t \<Rightarrow> trace_run \<Rightarrow> (capture, bool) prog" where
  "collect_trace os sd maxCaptureSize run =
     cswp_check (call (Attached (attach_res run))) (\<lambda>_.
     cswp_check (of_res (attach_res run)) (\<lambda>_.
     cswp_check (allocate_buffers os sd) (\<lambda>(numDataBuffers, numBuffers).
     cswp_check (modify (\<lambda>s. s\<lparr>exitFlag := 0\<rparr>)) (\<lambda>_.
     cswp_check (call (Started (start_res run))) (\<lambda>_.
     if start_res run \<noteq> RDDI_SUCCESS then
       cswp_check (call (Detached (detach_res run))) (\<lambda>_. fail (start_res run))
     else
       cswp_check (submit_buffers run numDataBuffers numBuffers) (\<lambda>_.
       cswp_check (modify (\<lambda>s. s\<lparr>pendingBuffers := int numBuffers, bytesCaptured := 0, flushed := False, tFlush := - 1\<rparr>)) (\<lambda>_.
       cswp_check (capture_loop numDataBuffers maxCaptureSize (rounds run)) (\<lambda>ended.
       if ended then end_capture run else ret False))))))))"

subsection \<open>The calls of a capture\<close>

fun mid_call :: "api_call \<Rightarrow> bool" where
  "mid_call (Submitted t i e) = True"
| "mid_call (Flushed e) = True"
| "mid_call (Waited e) = True"
| "mid_call _ = False"

definition is_flush :: "api_call \<Rightarrow> bool" where
  "is_flush c \<longleftrightarrow> (\<exists>e. c = Flushed e)"

lemma is_flush_simps [simp]: "is_flush (Flushed e)" "\<not> is_flush (Submitted t i e)" "\<not> is_flush (Waited e)"
  by (simp_all add: is_flush_def)

text \<open>Between \<open>s0\<close> and \<open>s\<close> buffers have been handed over and waited for, and the trace has been flushed
  at most once.\<close>

definition extends :: "capture \<Rightarrow> capture \<Rightarrow> bool" where
  "extends s0 s \<longleftrightarrow> (\<exists>cs. calls s = calls s0 @ cs \<and> (\<forall>c \<in> set cs. mid_call c)
     \<and> length (filter is_flush cs) + of_bool (flushed s0) = (of_bool (flushed s) :: nat))"

lemma extends_refl [simp]: "extends s s"
  by (simp add: extends_def)

lemma extends_call:
  assumes "extends s0 s" and "mid_call c" and "\<not> is_flush c"
  shows "extends s0 (s\<lparr>calls := calls s @ [c]\<rparr>)"
proof -
  obtain cs where "calls s = calls s0 @ cs" "\<forall>c \<in> set cs. mid_call c"
    "length (filter is_flush cs) + of_bool (flushed s0) = (of_bool (flushed s) :: nat)"
    using assms(1) by (auto simp: extends_def)
  with assms(2,3) show ?thesis unfolding extends_def by (intro exI [of _ "cs @ [c]"]) simp
qed

lemma extends_flush:
  assumes "extends s0 s" and "\<not> flushed s"
  shows "extends s0 (s\<lparr>calls := calls s @ [Flushed e], flushed := True, tFlush := t\<rparr>)"
proof -
  obtain cs where "calls s = calls s0 @ cs" "\<forall>c \<in> set cs. mid_call c"
    "length (filter is_flush cs) + of_bool (flushed s0) = (of_bool (flushed s) :: nat)"
    using assms(1) by (auto simp: extends_def)
  with assms(2) show ?thesis unfolding extends_def by (intro exI [of _ "cs @ [Flushed e]"]) simp
qed

lemma extends_same: "extends s0 s \<Longrightarrow> calls s' = calls s \<Longrightarrow> flushed s' = flushed s \<Longrightarrow> extends s0 s'"
  by (simp add: extends_def)

lemma keeps_call: "mid_call c \<Longrightarrow> \<not> is_flush c \<Longrightarrow> keeps (extends s0) UNIV (\<lambda>_. True) (call c)"
  unfolding call_def by (rule keeps_modify) (simp_all add: extends_call)

lemma keeps_update:
  "(\<And>s. calls (g s) = calls s \<and> flushed (g s) = flushed s) \<Longrightarrow> keeps (extends s0) UNIV (\<lambda>_. True) (modify g)"
  by (rule keeps_modify) (auto intro: extends_same)

lemma keeps_of_res: "keeps I UNIV (\<lambda>_. True) (of_res e)"
  by (rule keepsI) (auto simp: of_res_def split: if_splits)

lemma keeps_read: "keeps I UNIV (\<lambda>_. True) (gets f)" "keeps I UNIV (\<lambda>_. True) (nth_c xs i)" "keeps I UNIV (\<lambda>_. True) (ret x)"
    "keeps I UNIV (\<lambda>_. True) (undef u)"
  by (auto intro!: keepsI simp: nth_c_def undef_def split: if_splits)

lemmas keeps_capture = keeps_check [where S = "\<lambda>_. True"] keeps_attempt [where S = "\<lambda>_. True"] keeps_if keeps_case_option
  keeps_call keeps_update keeps_of_res keeps_read TrueI

lemma keeps_submit_buffer: "keeps (extends s0) UNIV (\<lambda>_. True) (submit_buffer n i r)"
  unfolding submit_buffer_def by (intro keeps_capture) simp_all

lemma keeps_check_exit: "keeps (extends s0) UNIV (\<lambda>_. True) (check_exit m r)"
  by (rule keepsI)
    (auto simp: check_exit_def call_def gets_def modify_def cswp_check_def ret_def intro: extends_same extends_flush split: if_splits)

lemma keeps_capture_round: "keeps (extends s0) UNIV (\<lambda>_. True) (capture_round n m r)"
  unfolding capture_round_def process_buffer_def write_trace_def Let_def
  by (cases "wait_res r"; simp only: wait_result.case)
    (intro keeps_capture keeps_check_exit keeps_submit_buffer; simp)+

lemma keeps_capture_loop: "keeps (extends s0) UNIV (\<lambda>_. True) (capture_loop n m rs)"
proof (induction rs)
  case Nil
  show ?case unfolding capture_loop.simps by (rule keeps_read)
next
  case (Cons r rs)
  show ?case unfolding capture_loop.simps by (intro keeps_capture keeps_capture_round Cons) simp_all
qed

text \<open>The calls of a whole capture: it detaches when it has attached, stops when it has started, flushes
  at most once, and hands no buffer over after it has stopped.\<close>

definition session_ok :: "trace_run \<Rightarrow> api_call list \<Rightarrow> bool" where
  "session_ok run cs \<longleftrightarrow>
     (if attach_res run \<noteq> RDDI_SUCCESS then cs = [Attached (attach_res run)]
      else if start_res run \<noteq> RDDI_SUCCESS
      then cs = [Attached RDDI_SUCCESS, Started (start_res run), Detached (detach_res run)]
      else \<exists>mid waits. cs = [Attached RDDI_SUCCESS, Started RDDI_SUCCESS] @ mid @ Stopped (stop_res run) # waits @ [Detached (detach_res run)]
        \<and> (\<forall>c \<in> set mid. mid_call c) \<and> length (filter is_flush mid) \<le> 1 \<and> (\<forall>c \<in> set waits. \<exists>e. c = Waited e))"

text \<open>A buffer that cannot be handed over at the start ends the capture.\<close>

definition submits :: "capture \<Rightarrow> capture \<Rightarrow> bool" where
  "submits s0 s \<longleftrightarrow> (\<exists>cs. calls s = calls s0 @ cs \<and> (\<forall>c \<in> set cs. mid_call c \<and> \<not> is_flush c))"

lemma submit_buffer_calls:
  assumes "submits s0 s" and "submit_buffer n i r s = Done x s' \<or> submit_buffer n i r s = Fail e s'"
  shows "submits s0 s'"
proof -
  obtain cs where cs: "calls s = calls s0 @ cs" "\<forall>c \<in> set cs. mid_call c \<and> \<not> is_flush c"
    using assms(1) by (auto simp: submits_def)
  have "calls s' = calls s @ [Submitted (data_type n i) i (fst r)]"
    using assms(2)
    by (auto simp: submit_buffer_def call_def gets_def modify_def cswp_check_def of_res_def ret_def split: option.splits if_splits)
  with cs show ?thesis unfolding submits_def by (intro exI [of _ "cs @ [Submitted (data_type n i) i (fst r)]"]) simp
qed

lemma submit_buffers_calls:
  "hoare (submits s0) (submit_buffers run n k) (\<lambda>_. submits s0)
    (\<lambda>_ s. \<exists>s1. submits s0 s1 \<and> calls s = calls s1 @ [Stopped (stop_res run), Detached (detach_res run)]) UNIV"
proof -
  have "hoare (submits s0) (attempt (submit_buffer n i r)
       (\<lambda>e. cswp_check (call (Stopped (stop_res run))) (\<lambda>_.
            cswp_check (call (Detached (detach_res run))) (\<lambda>_. fail e))) ret) (\<lambda>_. submits s0)
    (\<lambda>_ s. \<exists>s1. submits s0 s1 \<and> calls s = calls s1 @ [Stopped (stop_res run), Detached (detach_res run)]) UNIV" for i r
    by (rule hoareI)
      (auto simp: attempt_def call_def modify_def cswp_check_def fail_def split: outcome.splits dest: submit_buffer_calls)
  then show ?thesis unfolding submit_buffers_def by (rule hoare_for_indexed) simp
qed

text \<open>Waiting for what is left.\<close>

lemma drain_calls:
  assumes "drain_loop es s = Done b s'"
  shows "\<exists>waits. calls s' = calls s @ waits \<and> (\<forall>c \<in> set waits. \<exists>e. c = Waited e)"
  using assms
proof (induction es arbitrary: s)
  case Nil
  then show ?case by (auto simp: gets_def cswp_check_def)
next
  case (Cons e es)
  show ?case
  proof (cases "pendingBuffers s \<le> 0 \<or> e \<noteq> RDDI_SUCCESS")
    case True
    then show ?thesis using Cons.prems by (auto simp: call_def gets_def modify_def cswp_check_def split: if_splits)
  next
    case False
    then have "drain_loop es (s\<lparr>calls := calls s @ [Waited e], pendingBuffers := pendingBuffers s - 1\<rparr>) = Done b s'"
      using Cons.prems by (simp add: call_def gets_def modify_def cswp_check_def)
    from Cons.IH [OF this] show ?thesis by auto
  qed
qed

lemma drain_never_fails: "drain_loop es s \<noteq> Fail e s'"
  by (induction es arbitrary: s) (auto simp: call_def gets_def modify_def cswp_check_def split: outcome.splits)

lemma end_capture_calls:
  assumes "end_capture run s = Done True s' \<or> end_capture run s = Fail e s'"
  shows "\<exists>waits. calls s' = calls s @ Stopped (stop_res run) # waits @ [Detached (detach_res run)] \<and> (\<forall>c \<in> set waits. \<exists>e. c = Waited e)"
proof -
  let ?s = "s\<lparr>calls := calls s @ [Stopped (stop_res run)]\<rparr>"
  obtain b s1 where d: "drain_loop (last_waits run) ?s = Done b s1"
  proof (cases "drain_loop (last_waits run) ?s")
    case (Undef u)
    then show ?thesis using assms by (auto simp: end_capture_def call_def modify_def cswp_check_def)
  qed (use that drain_never_fails in blast)+
  from drain_calls [OF d] obtain waits where w: "calls s1 = calls s @ Stopped (stop_res run) # waits" "\<forall>c \<in> set waits. \<exists>e. c = Waited e"
    by auto
  have "calls s' = calls s1 @ [Detached (detach_res run)]"
    using assms d by (cases b; auto simp: end_capture_def call_def modify_def cswp_check_def of_res_def split: if_splits)
  with w show ?thesis by auto
qed

text \<open>The loop itself does not fail; errors of the library end it.\<close>

definition never_fails :: "('s, 'a) prog \<Rightarrow> bool" where
  "never_fails m \<longleftrightarrow> (\<forall>s e s'. m s \<noteq> Fail e s')"

lemma never_fails_rules:
  "never_fails m \<Longrightarrow> (\<And>x. never_fails (k x)) \<Longrightarrow> never_fails (cswp_check m k)"
  "(\<And>e. never_fails (h e)) \<Longrightarrow> (\<And>x. never_fails (k x)) \<Longrightarrow> never_fails (attempt f h k)"
  "never_fails m \<Longrightarrow> never_fails m' \<Longrightarrow> never_fails (if b then m else m')"
  "never_fails m' \<Longrightarrow> (\<And>x. never_fails (k' x)) \<Longrightarrow> never_fails (case p of None \<Rightarrow> m' | Some x \<Rightarrow> k' x)"
  "never_fails (ret y)" "never_fails (gets g)" "never_fails (modify u)" "never_fails (undef v)" "never_fails (nth_c xs i)"
  by (auto simp: never_fails_def cswp_check_def attempt_def undef_def nth_c_def split: outcome.splits option.splits)

lemma capture_loop_never_fails: "never_fails (capture_loop n m rs)"
proof (induction rs)
  case Nil
  show ?case by (simp add: never_fails_rules del: ret_apply)
next
  case (Cons r rs)
  have "never_fails (capture_round n m r)"
    by (cases "wait_res r"; simp only: capture_round_def process_buffer_def write_trace_def check_exit_def call_def Let_def
        wait_result.case; intro never_fails_rules)
  then show ?case unfolding capture_loop.simps by (intro never_fails_rules Cons)
qed

lemma allocate_buffers_calls:
  "allocate_buffers os sd s = Done nk s' \<Longrightarrow> calls s' = calls s" "allocate_buffers os sd s \<noteq> Fail e s'"
  by (auto simp: allocate_buffers_def undef_def cswp_check_def modify_def Let_def split: if_splits)

text \<open>C35: a capture that comes to an end, with success or with an error, has detached from the sink if it
  had attached to it and stopped it if it had started it, has flushed at most once, and has handed no
  buffer over after the stop.\<close>

theorem capture_calls_balanced:
  assumes "collect_trace os sd maxCaptureSize run s = out" and "out = Done True s' \<or> out = Fail e s'"
  shows "\<exists>cs. calls s' = calls s @ cs \<and> session_ok run cs"
proof (cases "attach_res run = RDDI_SUCCESS \<and> start_res run = RDDI_SUCCESS")
  case False
  have "calls s' = calls s @ (if attach_res run \<noteq> RDDI_SUCCESS then [Attached (attach_res run)]
      else [Attached RDDI_SUCCESS, Started (start_res run), Detached (detach_res run)])"
    using assms False
    by (auto simp: collect_trace_def call_def modify_def cswp_check_def of_res_def allocate_buffers_calls
        RDDI_SUCCESS_def fail_def dest: allocate_buffers_calls(1) split: if_splits outcome.splits)
  then show ?thesis using False by (auto simp: session_ok_def)
next
  case True
  let ?rest = "\<lambda>n k. cswp_check (submit_buffers run n k) (\<lambda>_.
       cswp_check (modify (\<lambda>s. s\<lparr>pendingBuffers := int k, bytesCaptured := 0, flushed := False, tFlush := - 1\<rparr>)) (\<lambda>_.
       cswp_check (capture_loop n maxCaptureSize (rounds run)) (\<lambda>ended.
       if ended then end_capture run else ret False)))"
  let ?s = "s\<lparr>calls := calls s @ [Attached RDDI_SUCCESS]\<rparr>"
  have out: "cswp_check (allocate_buffers os sd) (\<lambda>(n, k).
       cswp_check (modify (\<lambda>s. s\<lparr>exitFlag := 0\<rparr>)) (\<lambda>_. cswp_check (call (Started RDDI_SUCCESS)) (\<lambda>_. ?rest n k))) ?s = out"
    using assms(1) True by (simp add: collect_trace_def call_def modify_def cswp_check_def of_res_def RDDI_SUCCESS_def)
  obtain n k s0 where s0: "allocate_buffers os sd ?s = Done (n, k) s0"
    using out assms(2) allocate_buffers_calls(2) by (cases "allocate_buffers os sd ?s") (auto simp: cswp_check_def)
  let ?t = "s0\<lparr>exitFlag := 0, calls := calls s0 @ [Started RDDI_SUCCESS]\<rparr>"
  obtain s1 where s1: "calls s1 = calls s @ [Attached RDDI_SUCCESS, Started RDDI_SUCCESS]" and out: "?rest n k s1 = out"
    using out s0 allocate_buffers_calls(1) [OF s0] by (intro that [of ?t]) (simp_all add: call_def modify_def cswp_check_def)
  have ok: "\<exists>cs. calls s' = calls s @ cs \<and> session_ok run cs"
    if "calls s' = calls s1 @ mid @ Stopped (stop_res run) # waits @ [Detached (detach_res run)]"
      "\<forall>c \<in> set mid. mid_call c" "length (filter is_flush mid) \<le> 1" "\<forall>c \<in> set waits. \<exists>e. c = Waited e" for mid waits
    using that s1 True by (intro exI [of _ "[Attached RDDI_SUCCESS, Started RDDI_SUCCESS] @ mid @ Stopped (stop_res run) # waits
        @ [Detached (detach_res run)]"]) (auto simp: session_ok_def)
  show ?thesis
  proof (cases "submit_buffers run n k s1")
    case (Done u s2)
    note sub = this
    let ?s3 = "s2\<lparr>pendingBuffers := int k, bytesCaptured := 0, flushed := False, tFlush := - 1\<rparr>"
    obtain cs1 where cs1: "calls s2 = calls s1 @ cs1" "\<forall>c \<in> set cs1. mid_call c \<and> \<not> is_flush c"
      using hoare_Done [OF submit_buffers_calls [of s1] _ Done] by (auto simp: submits_def)
    obtain s4 where s4: "capture_loop n maxCaptureSize (rounds run) ?s3 = Done True s4"
      "end_capture run s4 = Done True s' \<or> end_capture run s4 = Fail e s'"
    proof (cases "capture_loop n maxCaptureSize (rounds run) ?s3")
      case (Done b s4)
      then show ?thesis using that out assms(2) sub
        by (cases b) (auto simp: modify_def cswp_check_def)
    next
      case (Fail e' s4)
      then show ?thesis using capture_loop_never_fails by (fastforce simp: never_fails_def)
    next
      case (Undef u)
      then show ?thesis using out assms(2) sub by (auto simp: modify_def cswp_check_def)
    qed
    have "extends ?s3 s4" using keeps_Done [OF keeps_capture_loop extends_refl s4(1)] by simp
    then obtain cs2 where cs2: "calls s4 = calls s2 @ cs2" "\<forall>c \<in> set cs2. mid_call c" "length (filter is_flush cs2) \<le> 1"
      by (auto simp: extends_def)
    obtain waits where "calls s' = calls s4 @ Stopped (stop_res run) # waits @ [Detached (detach_res run)]"
      "\<forall>c \<in> set waits. \<exists>e. c = Waited e"
      using end_capture_calls [OF s4(2)] by blast
    then show ?thesis using cs1 cs2 by (intro ok [of "cs1 @ cs2" waits]) auto
  next
    case (Fail e' s2)
    then have "s' = s2" using out assms(2) by (auto simp: cswp_check_def)
    moreover obtain cs1 where "calls s2 = (calls s1 @ cs1) @ [Stopped (stop_res run), Detached (detach_res run)]"
      "\<forall>c \<in> set cs1. mid_call c \<and> \<not> is_flush c"
      using hoare_Fail [OF submit_buffers_calls [of s1] _ Fail] by (auto simp: submits_def)
    ultimately show ?thesis by (intro ok [of cs1 "[]"]) auto
  next
    case (Undef u)
    then show ?thesis using out assms(2) by (auto simp: cswp_check_def)
  qed
qed

subsection \<open>The trace file\<close>

text \<open>A library that keeps its word: the token of a completed buffer is that of the buffer it has filled,
  and only buffers for trace data carry bytes.\<close>

fun honest :: "c_int list \<Rightarrow> trace_round list \<Rightarrow> bool" where
  "honest tokens [] = True"
| "honest tokens (r # rs) = (case wait_res r of
       Wait_code e \<Rightarrow> e \<noteq> RDDI_SUCCESS \<and> honest tokens rs
     | Completed token j t bs \<Rightarrow> find_buffer token tokens = Some j \<and> (t \<noteq> TYPE_DATA \<longrightarrow> bs = [])
         \<and> honest (case snd (submit_res r) of None \<Rightarrow> tokens | Some v \<Rightarrow> tokens[j := v]) rs)"

definition trace_bytes :: "trace_round \<Rightarrow> byte list" where
  "trace_bytes r = (case wait_res r of Wait_code e \<Rightarrow> [] | Completed token j t bs \<Rightarrow> bs)"

definition limit :: "size_t \<Rightarrow> byte list \<Rightarrow> byte list" where
  "limit n bs = (if n = 0 then bs else take (unat n) bs)"

text \<open>What has been captured so far.\<close>

definition captured :: "size_t \<Rightarrow> byte list \<Rightarrow> capture \<Rightarrow> bool" where
  "captured n bs s \<longleftrightarrow> outFile s = Some (limit n bs) \<and> bytesCaptured s = of_nat (length bs)
     \<and> length (buffers s) = length (bufferTokens s)"

lemma find_buffer_bound:
  assumes "find_buffer token tokens = Some j" shows "j < length tokens"
proof -
  have "\<forall>j. fold (\<lambda>i found. if token = tokens ! i then Some i else found) is None = Some j \<longrightarrow> j \<in> set is" for "is"
    by (induction "is" rule: rev_induct) auto
  then have "j \<in> set [0..<length tokens]" using assms unfolding find_buffer_def by blast
  then show ?thesis by simp
qed

lemma find_buffer_distinct:
  assumes "distinct tokens" and "j < length tokens" shows "find_buffer (tokens ! j) tokens = Some j"
proof -
  have "fold (\<lambda>i found. if tokens ! j = tokens ! i then Some i else found) is None = (if j \<in> set is then Some j else None)"
    if "set is \<subseteq> {..<length tokens}" for "is"
    using that by (induction "is" rule: rev_induct) (use assms nth_eq_iff_index_eq in auto)
  moreover have "set [0..<length tokens] \<subseteq> {..<length tokens}" by auto
  ultimately show ?thesis using assms(2) unfolding find_buffer_def by auto
qed

lemma write_trace_limit:
  assumes "captured n acc s" and "length acc + length bs < 2 ^ 64"
    and "buf_pBuf b = bs @ rest" and "buf_used b = of_nat (length bs)"
  shows "write_trace n b s = Done () (s\<lparr>outFile := Some (limit n (acc @ bs))\<rparr>)"
proof -
  have u: "unat (of_nat (length acc) :: size_t) = length acc" "unat (of_nat (length bs) :: size_t) = length bs"
    using assms(2) by (simp_all add: unat_of_nat_small)
  consider "n = 0" | "n \<noteq> 0" "length acc < unat n" | "n \<noteq> 0" "unat n \<le> length acc" by linarith
  then show ?thesis
  proof cases
    case 1
    then show ?thesis
      using assms u by (simp add: write_trace_def captured_def limit_def gets_def modify_def cswp_check_def)
  next
    case 2
    then have le: "of_nat (length acc) \<le> n" using u(1) by (simp add: word_le_nat_alt)
    let ?k = "if buf_used b > n - bytesCaptured s then n - bytesCaptured s else buf_used b"
    have "unat ?k = min (length bs) (unat n - length acc)"
      using assms(1,4) u le by (auto simp: captured_def word_less_nat_alt unat_sub)
    moreover have "take (min (length bs) k) bs = take k bs" "min (length bs) k \<le> length bs + length rest" for k
      by (simp_all add: min_def)
    ultimately show ?thesis
      using 2 assms(1,3) u by (simp add: write_trace_def captured_def limit_def gets_def modify_def cswp_check_def word_less_nat_alt Let_def)
  next
    case 3
    then have "\<not> bytesCaptured s < n" using assms(1) u by (simp add: captured_def word_less_nat_alt)
    then show ?thesis
      using 3 assms(1) by (simp add: write_trace_def captured_def limit_def gets_def cswp_check_def)
  qed
qed

lemma check_exit_same:
  "\<exists>x s'. check_exit n r s = Done x s' \<and> outFile s' = outFile s \<and> bytesCaptured s' = bytesCaptured s
    \<and> buffers s' = buffers s \<and> bufferTokens s' = bufferTokens s"
  by (auto simp: check_exit_def call_def gets_def modify_def cswp_check_def ret_def)

lemma length_fill_buffer [simp]: "length (fill_buffer j t bs bufs) = length bufs"
  by (simp add: fill_buffer_def)

lemma submit_buffer_effect:
  obtains s' where "submit_buffer nd i r s = (if fst r = 0 then Done () s' else Fail (fst r) s')"
    "outFile s' = outFile s" "bytesCaptured s' = bytesCaptured s" "buffers s' = buffers s"
    "bufferTokens s' = (case snd r of None \<Rightarrow> bufferTokens s | Some v \<Rightarrow> (bufferTokens s)[i := v])"
proof -
  let ?s = "s\<lparr>calls := calls s @ [Submitted (data_type nd i) i (fst r)],
    bufferTokens := (case snd r of None \<Rightarrow> bufferTokens s | Some v \<Rightarrow> (bufferTokens s)[i := v])\<rparr>"
  show thesis
    by (rule that [of ?s])
      (auto simp: submit_buffer_def call_def modify_def cswp_check_def of_res_def split: option.splits)
qed

text \<open>A buffer that has been filled is written, counted and handed back.\<close>

lemma process_buffer_captures:
  assumes cap: "captured n acc s" and j: "j < length (buffers s)" and small: "length acc + length bs < 2 ^ 64"
    and b: "buffers s ! j = \<lparr>buf_type = t, buf_pBuf = bs @ rest, buf_used = of_nat (length bs)\<rparr>"
    and t: "t \<noteq> TYPE_DATA \<longrightarrow> bs = []"
  obtains stop s' where "process_buffer nd n r j s = Done stop s'" "captured n (acc @ bs) s'"
    "\<not> stop \<Longrightarrow> bufferTokens s' = (case snd (submit_res r) of None \<Rightarrow> bufferTokens s | Some v \<Rightarrow> (bufferTokens s)[j := v])"
proof -
  let ?s1 = "s\<lparr>outFile := Some (limit n (acc @ bs))\<rparr>"
  have written: "write_trace n (buffers s ! j) s = Done () ?s1" by (rule write_trace_limit [OF cap small]) (simp_all add: b)
  note run = process_buffer_def cswp_check_def gets_def nth_c_def j ret_def modify_def attempt_def b
  show thesis
  proof (cases "t = TYPE_END_OF_DATA")
    case True
    have "process_buffer nd n r j s = Done True ?s1" using written True by (simp add: run)
    then show thesis by (rule that) (use cap t True in \<open>simp_all add: captured_def\<close>)
  next
    case False
    let ?s2 = "?s1\<lparr>bytesCaptured := bytesCaptured s + of_nat (length bs)\<rparr>"
    have count: "(if t = TYPE_DATA then modify (\<lambda>s. s\<lparr>bytesCaptured := bytesCaptured s + of_nat (length bs)\<rparr>) else ret ()) ?s1
        = Done () ?s2"
      using t by (simp add: modify_def)
    obtain s3 where s3: "submit_buffer nd j (submit_res r) ?s2
        = (if fst (submit_res r) = 0 then Done () s3 else Fail (fst (submit_res r)) s3)"
      "outFile s3 = outFile ?s2" "bytesCaptured s3 = bytesCaptured ?s2" "buffers s3 = buffers s"
      "bufferTokens s3 = (case snd (submit_res r) of None \<Rightarrow> bufferTokens s | Some v \<Rightarrow> (bufferTokens s)[j := v])"
      by (rule submit_buffer_effect [of nd j "submit_res r" ?s2]) (simp cong: option.case_cong)
    let ?s4 = "if fst (submit_res r) = 0 then s3\<lparr>pendingBuffers := pendingBuffers s3 + 1\<rparr> else s3"
    have "process_buffer nd n r j s = Done (fst (submit_res r) \<noteq> 0) ?s4"
      using written count s3(1) False by (cases "t = TYPE_DATA"; simp add: run)
    then show thesis
      by (rule that) (use cap s3 in \<open>auto simp: captured_def split: option.splits\<close>)
  qed
qed

lemma capture_round_captures:
  assumes cap: "captured n acc s" and lib: "honest (bufferTokens s) (r # rs)"
    and small: "length acc + length (trace_bytes r) < 2 ^ 64"
  obtains stop s' b where "capture_round nd n r s = Done stop s'"
    "captured n (acc @ (if b then trace_bytes r else [])) s'" "stop \<or> b" "stop \<or> honest (bufferTokens s') rs"
proof -
  obtain out s1 where s1: "check_exit n r s = Done out s1" "outFile s1 = outFile s" "bytesCaptured s1 = bytesCaptured s"
    "buffers s1 = buffers s" "bufferTokens s1 = bufferTokens s"
    using check_exit_same by blast
  have cap1: "captured n acc s1" using cap s1 by (simp add: captured_def)
  show thesis
  proof (cases out)
    case True
    then have "capture_round nd n r s = Done True s1" using s1(1) by (simp add: capture_round_def)
    then show thesis by (rule that [of _ _ False]) (use cap1 in simp_all)
  next
    case False
    show thesis
    proof (cases "wait_res r")
      case (Wait_code e)
      let ?s2 = "s1\<lparr>calls := calls s1 @ [Waited e]\<rparr>"
      have "capture_round nd n r s = Done (e \<noteq> RDDI_STREAMING_TRACE_TIMEOUT) ?s2"
        using s1(1) False Wait_code lib by (simp add: capture_round_def call_def modify_def cswp_check_def)
      then show thesis
        by (rule that [of _ _ True]) (use cap1 Wait_code lib s1(5) in \<open>simp_all add: captured_def trace_bytes_def\<close>)
    next
      case (Completed token j t bs)
      then have lib': "find_buffer token (bufferTokens s) = Some j" "t \<noteq> TYPE_DATA \<longrightarrow> bs = []"
        "honest (case snd (submit_res r) of None \<Rightarrow> bufferTokens s | Some v \<Rightarrow> (bufferTokens s)[j := v]) rs"
        using lib by simp_all
      have bs: "trace_bytes r = bs" using Completed by (simp add: trace_bytes_def)
      let ?s2 = "s1\<lparr>calls := calls s1 @ [Waited RDDI_SUCCESS], buffers := fill_buffer j t bs (buffers s1),
          pendingBuffers := pendingBuffers s1 - 1\<rparr>"
      have j1: "j < length (buffers s1)" using find_buffer_bound [OF lib'(1)] cap s1(4) by (simp add: captured_def)
      then have j: "j < length (buffers ?s2)" by simp
      have b: "buffers ?s2 ! j = \<lparr>buf_type = t, buf_pBuf = bs @ drop (length bs) (buf_pBuf (buffers s1 ! j)), buf_used = of_nat (length bs)\<rparr>"
        using j1 by (simp add: fill_buffer_def)
      have cap2: "captured n acc ?s2" using cap1 by (simp add: captured_def)
      obtain stop s3 where s3: "process_buffer nd n r j ?s2 = Done stop s3" "captured n (acc @ bs) s3"
        "\<not> stop \<Longrightarrow> bufferTokens s3 = (case snd (submit_res r) of None \<Rightarrow> bufferTokens ?s2 | Some v \<Rightarrow> (bufferTokens ?s2)[j := v])"
        using process_buffer_captures [OF cap2 j small [unfolded bs] b lib'(2)] by blast
      have "capture_round nd n r s = Done stop s3"
        using s1(1,5) False Completed lib'(1) s3(1) by (simp add: capture_round_def call_def modify_def gets_def cswp_check_def)
      then show thesis
        by (rule that [of _ _ True]) (use s3(2,3) bs lib'(3) s1(5) in \<open>(cases stop; simp cong: option.case_cong)+\<close>)
    qed
  qed
qed

lemma capture_loop_captures:
  assumes "captured n acc s" and "honest (bufferTokens s) rs"
    and "length acc + length (concat (map trace_bytes rs)) < 2 ^ 64"
  shows "\<exists>ended s' k. capture_loop nd n rs s = Done ended s' \<and> k \<le> length rs \<and> (ended \<or> k = length rs)
    \<and> captured n (acc @ concat (map trace_bytes (take k rs))) s'"
  using assms
proof (induction rs arbitrary: acc s)
  case Nil
  then show ?case by (auto intro!: exI [of _ False])
next
  case (Cons r rs)
  let ?s = "s\<lparr>exitFlag := exitFlag s + signals r\<rparr>"
  have cap: "captured n acc ?s" using Cons.prems(1) by (simp add: captured_def)
  show ?case
  proof (cases "exitFlag ?s > 1")
    case True
    then have "capture_loop nd n (r # rs) s = Done True ?s" by (simp add: gets_def modify_def cswp_check_def)
    then show ?thesis using cap by (intro exI [of _ True] exI [of _ ?s] exI [of _ 0]) simp
  next
    case False
    have lib: "honest (bufferTokens ?s) (r # rs)" and small: "length acc + length (trace_bytes r) < 2 ^ 64"
      using Cons.prems(2,3) by simp_all
    obtain stop s1 b where s1: "capture_round nd n r ?s = Done stop s1"
      "captured n (acc @ (if b then trace_bytes r else [])) s1" "stop \<or> b" "stop \<or> honest (bufferTokens s1) rs"
      by (rule capture_round_captures [OF cap lib small, of nd])
    show ?thesis
    proof (cases stop)
      case True
      then have "capture_loop nd n (r # rs) s = Done True s1"
        using s1(1) False by (simp add: gets_def modify_def cswp_check_def)
      then show ?thesis
        using s1(2) by (intro exI [of _ True] exI [of _ s1] exI [of _ "if b then 1 else 0"]) auto
    next
      case go: False
      then have b: b using s1(3) by simp
      obtain ended s2 k where "capture_loop nd n rs s1 = Done ended s2" "k \<le> length rs" "ended \<or> k = length rs"
        "captured n ((acc @ trace_bytes r) @ concat (map trace_bytes (take k rs))) s2"
        using Cons.IH [of "acc @ trace_bytes r" s1] s1(2,4) go b Cons.prems(3) by auto
      moreover from this have "capture_loop nd n (r # rs) s = Done ended s2"
        using s1(1) False go by (simp add: gets_def modify_def cswp_check_def)
      ultimately show ?thesis by (intro exI [of _ ended] exI [of _ s2] exI [of _ "Suc k"]) auto
    qed
  qed
qed


definition capture_start :: "nat \<Rightarrow> capture" where
  "capture_start n = \<lparr>exitFlag = 0, buffers = replicate n \<lparr>buf_type = TYPE_NONE, buf_pBuf = replicate 4 0, buf_used = 0\<rparr>,
     bufferTokens = map of_nat [0..<n], pendingBuffers = int n, bytesCaptured = 0, flushed = False, tFlush = - 1,
     outFile = Some [], calls = []\<rparr>"

definition data_round :: "nat \<Rightarrow> event_type \<Rightarrow> byte list \<Rightarrow> trace_round" where
  "data_round j t bs = \<lparr>signals = 0, clock = 0, flush_res = 0, wait_res = Completed (of_nat j) j t bs, submit_res = (0, Some (of_nat j))\<rparr>"


text \<open>The limit does not hold for other events: their bytes go into the file but are not counted.\<close>

lemma events_exceed_limit:
  "\<exists>s'. capture_loop 1 4 [data_round 1 TYPE_EVENT [1, 2, 3, 4], data_round 0 TYPE_DATA [5, 6, 7, 8]] (capture_start 2) = Done False s'
    \<and> outFile s' = Some [1, 2, 3, 4, 5, 6, 7, 8]"
  by (simp add: capture_start_def data_round_def find_buffer_def upt_conv_Cons capture_round_def check_exit_def process_buffer_def
      write_trace_def submit_buffer_def call_def fill_buffer_def nth_c_def gets_def modify_def cswp_check_def attempt_def
      ret_def of_res_def data_type_def)

text \<open>A capture with one buffer of each kind that runs until the end of the trace.\<close>

definition short_run :: trace_run where
  "short_run = \<lparr>attach_res = 0, start_res = 0, first_submits = [(0, Some 0), (0, Some 1)],
     rounds = [data_round 0 TYPE_DATA [1, 2], data_round 1 TYPE_END_OF_DATA []], stop_res = 0, last_waits = [0], detach_res = 0\<rparr>"

theorem capture_calls_balanced_witness:
  "\<exists>s' cs. collect_trace plain_libc \<lparr>dataBufferCount = 1, dataBufferSize = 4, eventBufferCount = 1, eventBufferSize = 4\<rparr>
      0 short_run (capture_start 0) = Done True s' \<and> session_ok short_run cs \<and> calls s' = cs"
proof -
  let ?sd = "\<lparr>dataBufferCount = 1, dataBufferSize = 4, eventBufferCount = 1, eventBufferSize = 4\<rparr>"
  have "\<exists>s'. collect_trace plain_libc ?sd 0 short_run (capture_start 0) = Done True s'"
    by (simp add: collect_trace_def allocate_buffers_def submit_buffers_def c_for_step new_buffers_def plain_libc_def block_def
        capture_start_def short_run_def data_round_def find_buffer_def upt_conv_Cons capture_round_def check_exit_def process_buffer_def
        write_trace_def submit_buffer_def call_def fill_buffer_def nth_c_def gets_def modify_def cswp_check_def attempt_def
        ret_def of_res_def data_type_def end_capture_def RDDI_SUCCESS_def)
  then obtain s' where s': "collect_trace plain_libc ?sd 0 short_run (capture_start 0) = Done True s'" by blast
  from capture_calls_balanced [OF this disjI1, OF refl] s' show ?thesis by (auto simp: capture_start_def)
qed

end
