(* ===== verification/Mem_Ap_Adapter.thy ===== *)
theory Mem_Ap_Adapter
  imports Client_Properties Rddi_Handles
begin

text \<open>
  The RDDI MEM-AP interface on top of the client library, \<^verbatim>\<open>rddi-memap_cswp/env.cpp\<close>: the class
  \<open>MemAPImpl\<close>. Its state is the list of access ports from the configuration file, whether it is
  connected, and the client. An exception is \<open>Fail\<close> with its RDDI code. The transport is a parameter,
  as it is for the client; reading the configuration file and writing the log file are left out.
\<close>

subsection \<open>Constants\<close>

definition RDDI_NOCONN :: c_int where "RDDI_NOCONN = 0x0030"
definition RDDI_CMDUNSUPP :: c_int where "RDDI_CMDUNSUPP = 0x003E"

datatype MEM_AP_ACC_SIZE = MEM_AP_ACC_8 | MEM_AP_ACC_16 | MEM_AP_ACC_32 | MEM_AP_ACC_64

definition MEMAP_REG_CTRL :: c_uint where "MEMAP_REG_CTRL = 0x1000"
definition MEMAP_REG_BANKED_DATA :: c_uint where "MEMAP_REG_BANKED_DATA = 0x2000"
definition MEMAP_REG_ID :: c_uint where "MEMAP_REG_ID = 0x4000"

definition MEM_AP_OVERRIDE_INCR :: c_uint where "MEM_AP_OVERRIDE_INCR = 0x80"
definition MEM_AP_OVERRIDE_PROT :: c_uint where "MEM_AP_OVERRIDE_PROT = 0x100"
definition MEM_AP_OVERRIDE_MODE :: c_uint where "MEM_AP_OVERRIDE_MODE = 0x200"
definition MEM_AP_OVERRIDE_TYPE :: c_uint where "MEM_AP_OVERRIDE_TYPE = 0x400"
definition MEM_AP_OVERRIDE_ERR :: c_uint where "MEM_AP_OVERRIDE_ERR = 0x800"

definition MEM_AP_INCR :: c_uint where "MEM_AP_INCR = push_bit 12 0x3"
definition MEM_AP_PROT :: c_uint where "MEM_AP_PROT = push_bit 14 0xFF"
definition MEM_AP_MODE :: c_uint where "MEM_AP_MODE = push_bit 22 0xF"
definition MEM_AP_TYPE :: c_uint where "MEM_AP_TYPE = push_bit 26 0xF"
definition MEM_AP_ERR :: c_uint where "MEM_AP_ERR = push_bit 30 0x3"

definition CSWP_MEMAP_WITH_INCR :: "c_uint \<Rightarrow> c_uint" where
  "CSWP_MEMAP_WITH_INCR x = push_bit 8 1 OR (push_bit 13 x AND push_bit 13 0x3)"
definition CSWP_MEMAP_WITH_PROT :: "c_uint \<Rightarrow> c_uint" where
  "CSWP_MEMAP_WITH_PROT x = push_bit 9 1 OR (push_bit 15 x AND push_bit 15 0x7F)"
definition CSWP_MEMAP_WITH_MODE :: "c_uint \<Rightarrow> c_uint" where
  "CSWP_MEMAP_WITH_MODE x = push_bit 10 1 OR (push_bit 22 x AND push_bit 22 0xF)"
definition CSWP_MEMAP_WITH_TYPE :: "c_uint \<Rightarrow> c_uint" where
  "CSWP_MEMAP_WITH_TYPE x = push_bit 11 1 OR (push_bit 26 x AND push_bit 26 0xF)"
definition CSWP_MEMAP_WITH_ERR :: "c_uint \<Rightarrow> c_uint" where
  "CSWP_MEMAP_WITH_ERR x = push_bit 12 1 OR (push_bit 30 x AND push_bit 30 0x3)"

subsection \<open>Translation of arguments\<close>

fun accessSizeBytes :: "MEM_AP_ACC_SIZE \<Rightarrow> size_t" where
  "accessSizeBytes MEM_AP_ACC_8 = 1"
| "accessSizeBytes MEM_AP_ACC_16 = 2"
| "accessSizeBytes MEM_AP_ACC_32 = 4"
| "accessSizeBytes MEM_AP_ACC_64 = 8"

fun mapAccessSize :: "MEM_AP_ACC_SIZE \<Rightarrow> cswp_access_size_t" where
  "mapAccessSize MEM_AP_ACC_8 = CSWP_ACCESS_SIZE_8"
| "mapAccessSize MEM_AP_ACC_16 = CSWP_ACCESS_SIZE_16"
| "mapAccessSize MEM_AP_ACC_32 = CSWP_ACCESS_SIZE_32"
| "mapAccessSize MEM_AP_ACC_64 = CSWP_ACCESS_SIZE_64"

text \<open>\<open>if (memapFlags & o) cswpFlags |= w((memapFlags & m) >> k)\<close>\<close>

definition map_field :: "c_uint \<Rightarrow> c_uint \<Rightarrow> nat \<Rightarrow> (c_uint \<Rightarrow> c_uint) \<Rightarrow> c_uint \<Rightarrow> c_uint \<Rightarrow> c_uint" where
  "map_field overriding m k wi memapFlags cswpFlags =
     (if memapFlags AND overriding \<noteq> 0 then cswpFlags OR wi (drop_bit k (memapFlags AND m)) else cswpFlags)"

definition mapFlags :: "c_uint \<Rightarrow> bool \<Rightarrow> c_uint" where
  "mapFlags memapFlags incr =
     map_field MEM_AP_OVERRIDE_ERR MEM_AP_ERR 30 CSWP_MEMAP_WITH_ERR memapFlags
    (map_field MEM_AP_OVERRIDE_TYPE MEM_AP_TYPE 26 CSWP_MEMAP_WITH_TYPE memapFlags
    (map_field MEM_AP_OVERRIDE_MODE MEM_AP_MODE 22 CSWP_MEMAP_WITH_MODE memapFlags
    (map_field MEM_AP_OVERRIDE_PROT MEM_AP_PROT 14 CSWP_MEMAP_WITH_PROT memapFlags
    (map_field MEM_AP_OVERRIDE_INCR MEM_AP_INCR 12 CSWP_MEMAP_WITH_INCR memapFlags
    (if \<not> incr then CSWP_MEM_NO_ADDR_INC else 0)))))"

definition decodeRegId :: "c_uint \<Rightarrow> c_uint" where
  "decodeRegId regId =
     (if regId AND MEMAP_REG_CTRL \<noteq> 0 then 0xD00 OR (regId AND 0xF)
      else if regId AND MEMAP_REG_BANKED_DATA \<noteq> 0 then 0xD10 OR (regId AND 0xF)
      else if regId AND MEMAP_REG_ID \<noteq> 0 then 0xDF0 OR (regId AND 0xF)
      else regId AND 0xFFF)"

subsection \<open>State\<close>

record 't mem_ap =
  m_connected :: bool
  m_aps :: "(byte list \<times> byte list) list"   \<comment> \<open>address and type\<close>
  m_cswpClient :: "'t cswp_client_t"

type_synonym ('t, 'a) adapter = "('t mem_ap, 'a) prog"

definition on_client :: "('t, 'a) client \<Rightarrow> ('t, 'a) adapter" where
  "on_client = zoom m_cswpClient (\<lambda>c. m_cswpClient_update (\<lambda>_. c))"

text \<open>A call of the client whose error becomes an exception with the given code.\<close>

definition or_throw :: "('t, unit) client \<Rightarrow> c_int \<Rightarrow> ('t, unit) adapter" where
  "or_throw f e = attempt (on_client f) (\<lambda>_. fail e) ret"

definition check_connected :: "('t, unit) adapter" where
  "check_connected = cswp_check (gets m_connected) (\<lambda>c. if c then ret () else fail RDDI_NOCONN)"

text \<open>The number is compared as a \<open>size_t\<close>, so a negative one is too large.\<close>

definition getAP :: "c_int \<Rightarrow> ('t, byte list \<times> byte list) adapter" where
  "getAP apNumber = cswp_check (gets m_aps) (\<lambda>aps.
     if (scast apNumber :: size_t) \<ge> of_nat (length aps) then fail RDDI_BADARG else nth_c aps (unat apNumber))"

subsection \<open>Connecting\<close>

definition GetSystemDescription ::
  "'t cswp_client_transport_t \<Rightarrow> ptr \<Rightarrow> ptr \<Rightarrow> ptr \<Rightarrow> size_t \<Rightarrow> ('t, unit) adapter" where
  "GetSystemDescription tr pFormat pSize pData bufSize =
     attempt (on_client (cswp_get_system_description tr pFormat pSize pData bufSize))
       (\<lambda>res. fail (if res = res_val CSWP_UNSUPPORTED then RDDI_CMDUNSUPP else RDDI_FAILED)) ret"

text \<open>The result of \<open>cswp_set_devices\<close> is dropped. The address of the first element of an empty vector
  is an access out of bounds.\<close>

definition set_aps :: "'t cswp_client_transport_t \<Rightarrow> ('t, unit) adapter" where
  "set_aps tr = cswp_check (gets m_aps) (\<lambda>aps.
     if aps = [] then undef OutOfBounds
     else ignore (on_client (cswp_set_devices tr (of_nat (length aps))
            (Some (map (\<lambda>i. Some (bytes_of ''AP_'' @ fmt_d (of_nat i))) [0..<length aps]))
            (Some (map (\<lambda>ap. Some (cstr (snd ap))) aps))))
          (ret ()))"

definition set_addresses :: "'t cswp_client_transport_t \<Rightarrow> ('t, unit) adapter" where
  "set_addresses tr = cswp_check (gets m_aps) (\<lambda>aps.
     c_for 0 (length aps) (\<lambda>i.
       if take 6 (cstr (snd (aps ! i))) = bytes_of ''mem-ap''
       then or_throw (cswp_set_config tr (of_nat i) (Some (bytes_of ''BASE_ADDRESS'')) (Some (cstr (fst (aps ! i))))) RDDI_FAILED
       else ret ()))"

text \<open>\<open>FillStringParam\<close>: the string, cut to the size of the buffer.\<close>

definition FillStringParam :: "byte list \<Rightarrow> ptr \<Rightarrow> size_t \<Rightarrow> ('t, unit) adapter" where
  "FillStringParam src dest len =
     (if dest = None then ret ()
      else if len = 0 then fail RDDI_BADARG
      else on_client (on_out (store_string dest 0 (take (unat len - 1) (cstr src)))))"

definition unsigned_text :: "c_uint \<Rightarrow> byte list" where
  "unsigned_text v = digits 10 (unat v)"

text \<open>The server's identification and the two version numbers are stored in local variables, at the
  addresses \<open>sid\<close>, \<open>pv\<close> and \<open>sv\<close>.\<close>

definition target_info :: "nat \<Rightarrow> nat \<Rightarrow> nat \<Rightarrow> ('t, byte list) adapter" where
  "target_info sid pv sv = cswp_check (gets (\<lambda>s. c_out (m_cswpClient s))) (\<lambda>m.
     case (m_bytes m sid, m_uint m pv, m_uint m sv) of
       (Some i, Some p, Some v) \<Rightarrow>
         ret (bytes_of ''RDDI-MEMAP_CSWP 1.0: '' @ cstr i @ bytes_of '': version '' @ unsigned_text v
              @ bytes_of '', protocol '' @ unsigned_text p)
     | _ \<Rightarrow> undef OutOfBounds)"

definition CLIENT_ID :: "byte list" where "CLIENT_ID = bytes_of ''RDDI-MEMAP_CSWP''"

definition MEM_AP_Connect :: "libc \<Rightarrow> 't cswp_client_transport_t \<Rightarrow> nat \<Rightarrow> nat \<Rightarrow> nat \<Rightarrow> ptr \<Rightarrow> size_t
    \<Rightarrow> ('t, unit) adapter" where
  "MEM_AP_Connect os tr sid pv sv targetInfo targetInfoLen =
     cswp_check (gets (\<lambda>s. (c_out (m_cswpClient s), transport_priv (m_cswpClient s)))) (\<lambda>(m, t).
     attempt (cswp_client_init (malloc os) m t) (\<lambda>_. fail RDDI_FAILED) (\<lambda>c.
     cswp_check (modify (\<lambda>s. s\<lparr>m_cswpClient := c\<rparr>)) (\<lambda>_.
     cswp_check (or_throw (cswp_init tr (Some CLIENT_ID) (Some pv) (Some sid) 256 (Some sv)) RDDI_FAILED) (\<lambda>_.
     cswp_check (set_aps tr) (\<lambda>_.
     cswp_check (set_addresses tr) (\<lambda>_.
     cswp_check (target_info sid pv sv) (\<lambda>i.
     cswp_check (FillStringParam i targetInfo targetInfoLen) (\<lambda>_.
     modify (\<lambda>s. s\<lparr>m_connected := True\<rparr>)))))))))"

text \<open>The interface is not connected any more even if ending the connection fails.\<close>

definition MEM_AP_Disconnect :: "'t cswp_client_transport_t \<Rightarrow> ('t, unit) adapter" where
  "MEM_AP_Disconnect tr =
     cswp_check check_connected (\<lambda>_.
     attempt (on_client (cswp_term tr))
       (\<lambda>_. cswp_check (modify (\<lambda>s. s\<lparr>m_connected := False\<rparr>)) (\<lambda>_. fail RDDI_FAILED))
       (\<lambda>_. modify (\<lambda>s. s\<lparr>m_connected := False\<rparr>)))"

definition MEM_AP_GetNumberOfAPs :: "ptr \<Rightarrow> ('t, unit) adapter" where
  "MEM_AP_GetNumberOfAPs apCount =
     cswp_check (CheckNotNull apCount) (\<lambda>_.
     cswp_check (gets m_aps) (\<lambda>aps. on_client (on_out (store_uint apCount (of_nat (length aps))))))"

definition MEM_AP_Open :: "'t cswp_client_transport_t \<Rightarrow> c_int \<Rightarrow> ('t, unit) adapter" where
  "MEM_AP_Open tr apNumber =
     cswp_check check_connected (\<lambda>_.
     cswp_check (getAP apNumber) (\<lambda>_. or_throw (cswp_device_open tr apNumber None 0) RDDI_FAILED))"

definition MEM_AP_Close :: "'t cswp_client_transport_t \<Rightarrow> c_int \<Rightarrow> ('t, unit) adapter" where
  "MEM_AP_Close tr apNumber =
     cswp_check check_connected (\<lambda>_.
     cswp_check (getAP apNumber) (\<lambda>_. or_throw (cswp_device_close tr apNumber) RDDI_FAILED))"

subsection \<open>Registers and memory\<close>

definition MEM_AP_ReadReg :: "'t cswp_client_transport_t \<Rightarrow> c_int \<Rightarrow> c_uint \<Rightarrow> ptr \<Rightarrow> ('t, unit) adapter" where
  "MEM_AP_ReadReg tr apNumber regID pValue =
     cswp_check check_connected (\<lambda>_.
     cswp_check (CheckNotNull pValue) (\<lambda>_.
     cswp_check (getAP apNumber) (\<lambda>_.
     or_throw (cswp_device_reg_read tr apNumber 1 (Some [decodeRegId regID]) pValue 1) RDDI_FAILED)))"

definition MEM_AP_WriteReg :: "'t cswp_client_transport_t \<Rightarrow> c_int \<Rightarrow> c_uint \<Rightarrow> c_uint \<Rightarrow> ('t, unit) adapter" where
  "MEM_AP_WriteReg tr apNumber regID v =
     cswp_check check_connected (\<lambda>_.
     cswp_check (getAP apNumber) (\<lambda>_.
     or_throw (cswp_device_reg_write tr apNumber 1 (Some [decodeRegId regID]) (Some [v])) RDDI_FAILED))"

text \<open>The number of bytes read goes to a local variable at the address \<open>bytesRead\<close>.\<close>

definition doRead :: "'t cswp_client_transport_t \<Rightarrow> nat \<Rightarrow> c_int \<Rightarrow> 64 word \<Rightarrow> MEM_AP_ACC_SIZE \<Rightarrow> c_uint
    \<Rightarrow> c_uint \<Rightarrow> ptr \<Rightarrow> bool \<Rightarrow> ('t, unit) adapter" where
  "doRead tr bytesRead apNumber address accSize flags sz buf incr =
     cswp_check (getAP apNumber) (\<lambda>_.
     or_throw (cswp_device_mem_read tr apNumber address (ucast sz) (access_val (mapAccessSize accSize))
         (mapFlags flags incr) buf (Some bytesRead)) RDDI_FAILED)"

definition MEM_AP_Read :: "'t cswp_client_transport_t \<Rightarrow> nat \<Rightarrow> c_int \<Rightarrow> 64 word \<Rightarrow> MEM_AP_ACC_SIZE \<Rightarrow> c_uint
    \<Rightarrow> c_uint \<Rightarrow> ptr \<Rightarrow> ('t, unit) adapter" where
  "MEM_AP_Read tr bytesRead apNumber address accSize flags sz buf =
     cswp_check check_connected (\<lambda>_.
     cswp_check (CheckNotNull buf) (\<lambda>_.
     doRead tr bytesRead apNumber address accSize flags sz buf True))"

definition MEM_AP_ReadRepeat :: "'t cswp_client_transport_t \<Rightarrow> nat \<Rightarrow> c_int \<Rightarrow> 64 word \<Rightarrow> MEM_AP_ACC_SIZE \<Rightarrow> c_uint
    \<Rightarrow> c_uint \<Rightarrow> ptr \<Rightarrow> ('t, unit) adapter" where
  "MEM_AP_ReadRepeat tr bytesRead apNumber address accSize flags repeatCount buf =
     cswp_check check_connected (\<lambda>_.
     cswp_check (CheckNotNull buf) (\<lambda>_.
     doRead tr bytesRead apNumber address accSize flags (ucast (accessSizeBytes accSize * ucast repeatCount)) buf False))"

definition doWrite :: "'t cswp_client_transport_t \<Rightarrow> c_int \<Rightarrow> 64 word \<Rightarrow> MEM_AP_ACC_SIZE \<Rightarrow> c_uint
    \<Rightarrow> c_uint \<Rightarrow> byte list \<Rightarrow> bool \<Rightarrow> ('t, unit) adapter" where
  "doWrite tr apNumber address accSize flags sz buf incr =
     cswp_check (getAP apNumber) (\<lambda>_.
     or_throw (cswp_device_mem_write tr apNumber address (ucast sz) (access_val (mapAccessSize accSize))
         (mapFlags flags incr) buf) RDDI_FAILED)"

text \<open>The data to write, \<open>None\<close> for a null pointer.\<close>

definition MEM_AP_Write :: "'t cswp_client_transport_t \<Rightarrow> c_int \<Rightarrow> 64 word \<Rightarrow> MEM_AP_ACC_SIZE \<Rightarrow> c_uint
    \<Rightarrow> c_uint \<Rightarrow> byte list option \<Rightarrow> ('t, unit) adapter" where
  "MEM_AP_Write tr apNumber address accSize flags sz buf =
     cswp_check check_connected (\<lambda>_. case buf of
         None \<Rightarrow> fail RDDI_BADARG
       | Some bs \<Rightarrow> doWrite tr apNumber address accSize flags sz bs True)"

definition MEM_AP_WriteRepeat :: "'t cswp_client_transport_t \<Rightarrow> c_int \<Rightarrow> 64 word \<Rightarrow> MEM_AP_ACC_SIZE \<Rightarrow> c_uint
    \<Rightarrow> c_uint \<Rightarrow> byte list option \<Rightarrow> ('t, unit) adapter" where
  "MEM_AP_WriteRepeat tr apNumber address accSize flags repeatCount buf =
     cswp_check check_connected (\<lambda>_. case buf of
         None \<Rightarrow> fail RDDI_BADARG
       | Some bs \<Rightarrow> doWrite tr apNumber address accSize flags (ucast (accessSizeBytes accSize * ucast repeatCount)) bs False)"

text \<open>The value repeated to fill 32 bits; there is none for 64-bit accesses.\<close>

fun repeated_value :: "MEM_AP_ACC_SIZE \<Rightarrow> 64 word \<Rightarrow> c_uint option" where
  "repeated_value MEM_AP_ACC_8 v = Some (ucast (push_bit 24 (v AND 0xFF) OR push_bit 16 (v AND 0xFF)
     OR push_bit 8 (v AND 0xFF) OR (v AND 0xFF)))"
| "repeated_value MEM_AP_ACC_16 v = Some (ucast (push_bit 16 (v AND 0xFFFF) OR (v AND 0xFFFF)))"
| "repeated_value MEM_AP_ACC_32 v = Some (ucast v)"
| "repeated_value MEM_AP_ACC_64 v = None"

text \<open>The bytes of a vector of \<open>n\<close> copies of a word. The address of its first element is an access out
  of bounds when it is empty.\<close>

definition word_vector :: "nat \<Rightarrow> c_uint \<Rightarrow> ('t, byte list) adapter" where
  "word_vector n v = (if n = 0 then undef OutOfBounds else ret (concat (replicate n (le_bytes 4 v))))"

text \<open>Sizes in 32-bit arithmetic, as in the code.\<close>

fun repeat_sizes :: "MEM_AP_ACC_SIZE \<Rightarrow> c_uint \<Rightarrow> c_uint \<times> c_uint" where
  "repeat_sizes MEM_AP_ACC_8 n = ((n + 3) div 4, n)"
| "repeat_sizes MEM_AP_ACC_16 n = ((n + 1) div 2, n * 2)"
| "repeat_sizes _ n = (n, n * 4)"

definition MEM_AP_WriteValueRepeat :: "'t cswp_client_transport_t \<Rightarrow> c_int \<Rightarrow> 64 word \<Rightarrow> MEM_AP_ACC_SIZE \<Rightarrow> c_uint
    \<Rightarrow> c_uint \<Rightarrow> 64 word \<Rightarrow> ('t, unit) adapter" where
  "MEM_AP_WriteValueRepeat tr apNumber address accSize flags repeatCount v =
     cswp_check check_connected (\<lambda>_. case repeated_value accSize v of
         None \<Rightarrow> fail RDDI_BADARG
       | Some repVal \<Rightarrow>
           cswp_check (word_vector (unat (fst (repeat_sizes accSize repeatCount))) repVal) (\<lambda>buf.
           doWrite tr apNumber address accSize flags (snd (repeat_sizes accSize repeatCount)) buf False))"

text \<open>Here the size is computed as a \<open>size_t\<close> and cut to 32 bits when it is passed on.\<close>

definition MEM_AP_Fill :: "'t cswp_client_transport_t \<Rightarrow> c_int \<Rightarrow> 64 word \<Rightarrow> MEM_AP_ACC_SIZE \<Rightarrow> c_uint
    \<Rightarrow> c_uint \<Rightarrow> 64 word \<Rightarrow> ('t, unit) adapter" where
  "MEM_AP_Fill tr apNumber address accSize flags repeatCount pat =
     cswp_check check_connected (\<lambda>_. case repeated_value accSize pat of
         None \<Rightarrow> fail RDDI_BADARG
       | Some repVal \<Rightarrow>
           let writeSize = accessSizeBytes accSize * ucast repeatCount in
           cswp_check (word_vector (unat ((writeSize + 3) div 4)) repVal) (\<lambda>buf.
           doWrite tr apNumber address accSize flags (ucast writeSize) buf True))"

subsection \<open>Batches\<close>

datatype MEM_AP_BATCH_OP_ACTION = OP_WRITE | OP_WRITE_RPT | OP_READ | OP_READ_RPT | OP_POLL_MASK | OP_POLL_VALUE
  | OP_POLL_EQ | OP_POLL_NE | OP_CHECK_EQ | OP_CHECK_NE | OP_OTHER byte

text \<open>\<open>op_bytes\<close> are the bytes behind \<open>pData\<close>, and \<open>op_pData\<close> and \<open>op_pOwn\<close> the addresses of what \<open>pData\<close>
  points to and of the operation's own \<open>data\<close>.\<close>

record MEM_AP_OP =
  op_action :: MEM_AP_BATCH_OP_ACTION
  op_indirect :: bool
  op_addr :: c_uint
  op_accSize :: MEM_AP_ACC_SIZE
  op_flags :: c_uint
  op_count :: c_uint
  op_data :: c_uint
  op_bytes :: "byte list"
  op_pData :: ptr
  op_pOwn :: ptr

definition op_in :: "MEM_AP_OP \<Rightarrow> byte list" where
  "op_in x = (if op_indirect x then op_bytes x else le_bytes 4 (op_data x))"

definition op_out :: "MEM_AP_OP \<Rightarrow> ptr" where
  "op_out x = (if op_indirect x then op_pData x else op_pOwn x)"

text \<open>One operation. The mask and value for polling and the number of operations without a command go
  through the loop.\<close>

definition access_op :: "'t cswp_client_transport_t \<Rightarrow> nat \<Rightarrow> c_int \<Rightarrow> 64 word \<Rightarrow> MEM_AP_OP \<Rightarrow> c_uint \<times> c_uint \<times> c_uint
    \<Rightarrow> ('t, c_uint \<times> c_uint \<times> c_uint) client" where
  "access_op tr bytesRead apNumber baseAddress x = (\<lambda>(pollMask, pollValue, localOps).
     let address = baseAddress + ucast (op_addr x);
         accSize = access_val (mapAccessSize (op_accSize x));
         cswpFlags = mapFlags (op_flags x) True;
         bytes = accessSizeBytes (op_accSize x) * ucast (op_count x);
         go = (\<lambda>f. cswp_check f (\<lambda>_. ret (pollMask, pollValue, localOps)));
         poll = (\<lambda>flags tries p. cswp_device_mem_poll tr apNumber address 4 accSize (cswpFlags OR flags) tries 0
           (le_bytes 4 pollMask) (le_bytes 4 pollValue) p (Some bytesRead)) in
     case op_action x of
       OP_WRITE \<Rightarrow> go (cswp_device_mem_write tr apNumber address (ucast (op_count x)) accSize cswpFlags (op_in x))
     | OP_WRITE_RPT \<Rightarrow> go (cswp_device_mem_write tr apNumber address bytes accSize (cswpFlags OR CSWP_MEM_NO_ADDR_INC) (op_in x))
     | OP_READ \<Rightarrow> go (cswp_device_mem_read tr apNumber address (ucast (op_count x)) accSize cswpFlags (op_out x) (Some bytesRead))
     | OP_READ_RPT \<Rightarrow> go (cswp_device_mem_read tr apNumber address bytes accSize (cswpFlags OR CSWP_MEM_NO_ADDR_INC)
         (op_out x) (Some bytesRead))
     | OP_POLL_MASK \<Rightarrow> ret (op_data x, pollValue, localOps + 1)
     | OP_POLL_VALUE \<Rightarrow> ret (pollMask, op_data x, localOps + 1)
     | OP_POLL_EQ \<Rightarrow> go (poll 0 (op_count x) (op_out x))
     | OP_POLL_NE \<Rightarrow> go (poll CSWP_MEM_POLL_MATCH_NE (op_count x) (op_out x))
     | OP_CHECK_EQ \<Rightarrow> go (poll CSWP_MEM_POLL_CHECK_LAST 0 None)
     | OP_CHECK_NE \<Rightarrow> go (poll (CSWP_MEM_POLL_CHECK_LAST OR CSWP_MEM_POLL_MATCH_NE) 0 None)
     | OP_OTHER b \<Rightarrow> ret (pollMask, pollValue, localOps))"

text \<open>\<open>bytesRead\<close> is a local variable of the loop's body: it is there from the start to the end of a
  round.\<close>

definition in_scope :: "nat \<Rightarrow> bool \<Rightarrow> ('t, unit) client" where
  "in_scope a b = on_out (modify (\<lambda>m. m\<lparr>m_size := (m_size m)(a := (if b then Some 0 else None))\<rparr>))"

text \<open>The loop ends at the first operation that fails; its result code goes no further.\<close>

primrec access_loop :: "'t cswp_client_transport_t \<Rightarrow> nat \<Rightarrow> c_int \<Rightarrow> 64 word \<Rightarrow> MEM_AP_OP list
    \<Rightarrow> c_uint \<times> c_uint \<times> c_uint \<Rightarrow> ('t, c_uint) client" where
  "access_loop tr bytesRead apNumber baseAddress [] st = ret (snd (snd st))"
| "access_loop tr bytesRead apNumber baseAddress (x # xs) st =
     cswp_check (in_scope bytesRead True) (\<lambda>_.
     attempt (access_op tr bytesRead apNumber baseAddress x st)
       (\<lambda>_. cswp_check (in_scope bytesRead False) (\<lambda>_. ret (snd (snd st))))
       (\<lambda>st'. cswp_check (in_scope bytesRead False) (\<lambda>_. access_loop tr bytesRead apNumber baseAddress xs st')))"

definition add_local_ops :: "ptr \<Rightarrow> c_uint \<Rightarrow> ('t, unit) client" where
  "add_local_ops opsCompleted n = on_out (\<lambda>m. (case opsCompleted of None \<Rightarrow> Done () m
     | Some a \<Rightarrow> (case m_uint m a of None \<Rightarrow> Undef OutOfBounds
         | Some v \<Rightarrow> store_uint opsCompleted (v + n) m)))"

definition MEM_AP_AccessBatch :: "'t cswp_client_transport_t \<Rightarrow> nat \<Rightarrow> c_int \<Rightarrow> 64 word \<Rightarrow> MEM_AP_OP list option \<Rightarrow> ptr
    \<Rightarrow> ('t, unit) adapter" where
  "MEM_AP_AccessBatch tr bytesRead apNumber baseAddress ops opsCompleted =
     cswp_check check_connected (\<lambda>_. case ops of
       None \<Rightarrow> fail RDDI_BADARG
     | Some xs \<Rightarrow>
         cswp_check (CheckNotNull opsCompleted) (\<lambda>_.
         cswp_check (getAP apNumber) (\<lambda>_.
         ignore (on_client (cswp_batch_begin True))
         (cswp_check (on_client (access_loop tr bytesRead apNumber baseAddress xs (0xFFFFFFFF, 0, 0))) (\<lambda>localOps.
          attempt (on_client (cswp_batch_end tr opsCompleted))
            (\<lambda>_. cswp_check (on_client (add_local_ops opsCompleted localOps)) (\<lambda>_. fail RDDI_FAILED))
            (\<lambda>_. on_client (add_local_ops opsCompleted localOps)))))))"

subsection \<open>Flags\<close>

lemma override_bits:
  "f AND MEM_AP_OVERRIDE_INCR \<noteq> 0 \<longleftrightarrow> bit f 7" "f AND MEM_AP_OVERRIDE_PROT \<noteq> 0 \<longleftrightarrow> bit f 8"
  "f AND MEM_AP_OVERRIDE_MODE \<noteq> 0 \<longleftrightarrow> bit f 9" "f AND MEM_AP_OVERRIDE_TYPE \<noteq> 0 \<longleftrightarrow> bit f 10"
  "f AND MEM_AP_OVERRIDE_ERR \<noteq> 0 \<longleftrightarrow> bit f 11"
  using and_exp_eq_0_iff_not_bit [of f 7] and_exp_eq_0_iff_not_bit [of f 8] and_exp_eq_0_iff_not_bit [of f 9]
    and_exp_eq_0_iff_not_bit [of f 10] and_exp_eq_0_iff_not_bit [of f 11]
  by (simp_all add: MEM_AP_OVERRIDE_INCR_def MEM_AP_OVERRIDE_PROT_def MEM_AP_OVERRIDE_MODE_def
      MEM_AP_OVERRIDE_TYPE_def MEM_AP_OVERRIDE_ERR_def)

lemma field_mask: "bit (push_bit a (mask n) :: c_uint) k \<longleftrightarrow> k < 32 \<and> a \<le> k \<and> k < a + n"
  by (auto simp: bit_simps)

lemma mask_numerals: "(3 :: c_uint) = mask 2" "(0xF :: c_uint) = mask 4" "(0x7F :: c_uint) = mask 7" "(0xFF :: c_uint) = mask 8"
  by (simp_all add: mask_eq_exp_minus_1)

lemma bit_map_field:
  assumes "\<And>x. wi x = push_bit o' 1 OR (push_bit j x AND push_bit j (mask n))" and "m = push_bit i (mask n')" and "n \<le> n'"
    and "j + n \<le> 32" and "i + n' \<le> 32" and "o' < 32"
  shows "bit (map_field ov m i wi f g) k \<longleftrightarrow>
    bit g k \<or> f AND ov \<noteq> 0 \<and> (k = o' \<or> j \<le> k \<and> k < j + n \<and> bit f (k - j + i))"
  using assms(3-6) by (cases "f AND ov = 0") (auto simp: map_field_def assms(1,2) bit_simps add.commute)

lemma bit_mapFlags:
  "bit (mapFlags f incr) k \<longleftrightarrow>
     (if k = 0 then \<not> incr
      else if k \<in> {8, 9, 10, 11, 12} then bit f (k - 1)
      else if 13 \<le> k \<and> k \<le> 14 then bit f 7 \<and> bit f (k - 1)
      else if 15 \<le> k \<and> k \<le> 21 then bit f 8 \<and> bit f (k - 1)
      else if 22 \<le> k \<and> k \<le> 25 then bit f 9 \<and> bit f k
      else if 26 \<le> k \<and> k \<le> 29 then bit f 10 \<and> bit f k
      else 30 \<le> k \<and> k \<le> 31 \<and> bit f 11 \<and> bit f k)"
proof -
  note defs = CSWP_MEMAP_WITH_INCR_def CSWP_MEMAP_WITH_PROT_def CSWP_MEMAP_WITH_MODE_def CSWP_MEMAP_WITH_TYPE_def
    CSWP_MEMAP_WITH_ERR_def mask_numerals
  note masks = MEM_AP_INCR_def MEM_AP_PROT_def MEM_AP_MODE_def MEM_AP_TYPE_def MEM_AP_ERR_def mask_numerals
  have incr_bits: "bit (map_field MEM_AP_OVERRIDE_INCR MEM_AP_INCR 12 CSWP_MEMAP_WITH_INCR f g) k
      \<longleftrightarrow> bit g k \<or> bit f 7 \<and> (k = 8 \<or> 13 \<le> k \<and> k < 15 \<and> bit f (k - 1))" for g
    by (subst bit_map_field [where o' = 8 and j = 13 and n = 2 and n' = 2]) (simp_all add: defs masks override_bits cong: conj_cong)
  have prot_bits: "bit (map_field MEM_AP_OVERRIDE_PROT MEM_AP_PROT 14 CSWP_MEMAP_WITH_PROT f g) k
      \<longleftrightarrow> bit g k \<or> bit f 8 \<and> (k = 9 \<or> 15 \<le> k \<and> k < 22 \<and> bit f (k - 1))" for g
    by (subst bit_map_field [where o' = 9 and j = 15 and n = 7 and n' = 8]) (simp_all add: defs masks override_bits cong: conj_cong)
  have mode_bits: "bit (map_field MEM_AP_OVERRIDE_MODE MEM_AP_MODE 22 CSWP_MEMAP_WITH_MODE f g) k
      \<longleftrightarrow> bit g k \<or> bit f 9 \<and> (k = 10 \<or> 22 \<le> k \<and> k < 26 \<and> bit f k)" for g
    by (subst bit_map_field [where o' = 10 and j = 22 and n = 4 and n' = 4]) (simp_all add: defs masks override_bits cong: conj_cong)
  have type_bits: "bit (map_field MEM_AP_OVERRIDE_TYPE MEM_AP_TYPE 26 CSWP_MEMAP_WITH_TYPE f g) k
      \<longleftrightarrow> bit g k \<or> bit f 10 \<and> (k = 11 \<or> 26 \<le> k \<and> k < 30 \<and> bit f k)" for g
    by (subst bit_map_field [where o' = 11 and j = 26 and n = 4 and n' = 4]) (simp_all add: defs masks override_bits cong: conj_cong)
  have err_bits: "bit (map_field MEM_AP_OVERRIDE_ERR MEM_AP_ERR 30 CSWP_MEMAP_WITH_ERR f g) k
      \<longleftrightarrow> bit g k \<or> bit f 11 \<and> (k = 12 \<or> 30 \<le> k \<and> k < 32 \<and> bit f k)" for g
    by (subst bit_map_field [where o' = 12 and j = 30 and n = 2 and n' = 2]) (simp_all add: defs masks override_bits cong: conj_cong)
  have base: "bit (if \<not> incr then CSWP_MEM_NO_ADDR_INC else 0) k \<longleftrightarrow> \<not> incr \<and> k = 0"
    by (auto simp: CSWP_MEM_NO_ADDR_INC_def bit_simps)
  consider "k = 0" | "1 \<le> k" "k \<le> 7" | "k = 8" | "k = 9" | "k = 10" | "k = 11" | "k = 12" | "13 \<le> k" "k \<le> 14"
    | "15 \<le> k" "k \<le> 21" | "22 \<le> k" "k \<le> 25" | "26 \<le> k" "k \<le> 29" | "30 \<le> k" "k \<le> 31" | "32 \<le> k" by linarith
  then show ?thesis
    unfolding mapFlags_def err_bits type_bits mode_bits prot_bits incr_bits base by cases simp_all
qed

text \<open>C37: the flags of the RDDI interface become those of the protocol bit by bit: each override flag
  moves up by one, and a field is passed on only if it is overridden; the fields for the increment and
  the protection move up by one as well, and the highest bit of the protection is lost, since its
  field has eight bits on one side and seven on the other. No flag for polling is ever set.\<close>

theorem flags_translated:
  "bit (mapFlags f incr) k \<longleftrightarrow>
     (if k = 0 then \<not> incr
      else if k \<in> {8, 9, 10, 11, 12} then bit f (k - 1)
      else if 13 \<le> k \<and> k \<le> 14 then bit f 7 \<and> bit f (k - 1)
      else if 15 \<le> k \<and> k \<le> 21 then bit f 8 \<and> bit f (k - 1)
      else if 22 \<le> k \<and> k \<le> 25 then bit f 9 \<and> bit f k
      else if 26 \<le> k \<and> k \<le> 29 then bit f 10 \<and> bit f k
      else 30 \<le> k \<and> k \<le> 31 \<and> bit f 11 \<and> bit f k)"
  by (rule bit_mapFlags)

subsection \<open>Repeated values\<close>

lemma concat_replicate_mult: "concat (replicate m (concat (replicate k xs))) = concat (replicate (m * k) xs)"
  by (induction m) (simp_all add: replicate_add)

lemma take_concat_replicate:
  "n \<le> m \<Longrightarrow> take (length xs * n) (concat (replicate m xs)) = concat (replicate n xs)"
proof (induction n arbitrary: m)
  case (Suc n)
  then obtain m' where "m = Suc m'" "n \<le> m'" by (cases m) simp_all
  then show ?case using Suc.IH [of m'] by simp
qed simp

lemma le_bytes_list:
  "le_bytes (Suc 0) v = [ucast v]" "le_bytes 2 v = [ucast v, ucast (drop_bit 8 v)]"
  "le_bytes 4 v = [ucast v, ucast (drop_bit 8 v), ucast (drop_bit 16 v), ucast (drop_bit 24 v)]"
  by (simp_all add: le_bytes_def upt_rec)

lemma replicate_list: "replicate 4 x = [x, x, x, x]" "replicate 2 x = [x, x]"
  by (simp_all add: numeral_eq_Suc)

lemma repeated_value_bytes:
  assumes "repeated_value acc v = Some r"
  shows "le_bytes 4 r = concat (replicate (4 div unat (accessSizeBytes acc)) (le_bytes (unat (accessSizeBytes acc)) v))"
proof (cases acc)
  case MEM_AP_ACC_8
  then have r: "r = ucast (push_bit 24 (v AND 0xFF) OR push_bit 16 (v AND 0xFF) OR push_bit 8 (v AND 0xFF) OR (v AND 0xFF))"
    using assms by simp
  have ff: "(0xFF :: 64 word) = mask 8" by (simp add: mask_eq_exp_minus_1)
  have "ucast r = (ucast v :: byte)" "ucast (drop_bit 8 r) = (ucast v :: byte)" "ucast (drop_bit 16 r) = (ucast v :: byte)"
    "ucast (drop_bit 24 r) = (ucast v :: byte)"
    unfolding r ff by (rule bit_word_eqI; auto simp: bit_simps)+
  then show ?thesis using MEM_AP_ACC_8 by (simp add: le_bytes_list replicate_list)
next
  case MEM_AP_ACC_16
  then have r: "r = ucast (push_bit 16 (v AND 0xFFFF) OR (v AND 0xFFFF))" using assms by simp
  have ff: "(0xFFFF :: 64 word) = mask 16" by (simp add: mask_eq_exp_minus_1)
  have "ucast r = (ucast v :: byte)" "ucast (drop_bit 8 r) = (ucast (drop_bit 8 v) :: byte)"
    "ucast (drop_bit 16 r) = (ucast v :: byte)" "ucast (drop_bit 24 r) = (ucast (drop_bit 8 v) :: byte)"
    unfolding r ff by (rule bit_word_eqI; auto simp: bit_simps)+
  then show ?thesis using MEM_AP_ACC_16 by (simp add: le_bytes_list replicate_list)
next
  case MEM_AP_ACC_32
  then have r: "r = ucast v" using assms by simp
  have "ucast (drop_bit k r) = (ucast (drop_bit k v) :: byte)" if "k \<le> 24" for k
    unfolding r by (rule bit_word_eqI) (use that in \<open>auto simp: bit_simps\<close>)
  from this [of 0] this [of 8] this [of 16] this [of 24] show ?thesis using MEM_AP_ACC_32 by (simp add: le_bytes_list)
qed (use assms in simp)

text \<open>Only the bytes that are sent matter.\<close>

lemma mem_write_prefix:
  assumes "unat sz \<le> length bs"
  shows "cswp_device_mem_write tr d a sz acc f bs = cswp_device_mem_write tr d a sz acc f (take (unat sz) bs)"
  using assms by (simp add: cswp_device_mem_write_def cswp_encode_mem_write_command_def cswp_buffer_put_data_def min_def)

lemma doWrite_prefix:
  assumes "unat sz \<le> length bs"
  shows "doWrite tr ap a acc f sz bs incr = doWrite tr ap a acc f sz (take (unat sz) bs) incr"
proof -
  have "unat (ucast sz :: size_t) = unat sz" by (rule unat_ucast_32_64)
  then show ?thesis using assms by (simp add: doWrite_def mem_write_prefix [of "ucast sz" bs])
qed

text \<open>A vector of words that is long enough, cut to the number of bytes.\<close>

lemma word_vector_bytes:
  fixes v :: "64 word"
  assumes "repeated_value acc v = Some r" and "unat (accessSizeBytes acc) * n \<le> 4 * m"
  defines "bs \<equiv> concat (replicate m (le_bytes 4 r))"
  shows "take (unat (accessSizeBytes acc) * n) bs = concat (replicate n (le_bytes (unat (accessSizeBytes acc)) v))"
    and "unat (accessSizeBytes acc) * n \<le> length bs"
proof -
  let ?w = "unat (accessSizeBytes acc)" and ?xs = "le_bytes (unat (accessSizeBytes acc)) v"
  have w: "4 div ?w * ?w = 4" "0 < ?w" using assms(1) by (cases acc; simp)+
  have bs: "bs = concat (replicate (m * (4 div ?w)) ?xs)"
    unfolding bs_def repeated_value_bytes [OF assms(1)] concat_replicate_mult ..
  have "?w * n \<le> ?w * (m * (4 div ?w))" using assms(2) w(1) by (simp add: mult.commute mult.left_commute)
  then have n: "n \<le> m * (4 div ?w)" using w(2) by simp
  show "take (?w * n) bs = concat (replicate n ?xs)"
    unfolding bs using take_concat_replicate [OF n, of ?xs] by simp
  show "?w * n \<le> length bs"
    using assms(2) by (simp add: bs_def length_concat sum_list_replicate mult.commute)
qed

lemma repeat_sizes_exact:
  assumes "acc \<noteq> MEM_AP_ACC_64" and "0 < n" and "unat (accessSizeBytes acc) * unat n + 3 < 2 ^ 32"
  shows "unat (snd (repeat_sizes acc n)) = unat (accessSizeBytes acc) * unat n"
    and "unat (accessSizeBytes acc) * unat n \<le> 4 * unat (fst (repeat_sizes acc n))"
    and "unat (fst (repeat_sizes acc n)) \<noteq> 0"
proof -
  have pos: "0 < unat n" using assms(2) by (simp add: word_less_nat_alt)
  show "unat (snd (repeat_sizes acc n)) = unat (accessSizeBytes acc) * unat n"
    using assms by (cases acc) (simp_all add: unat_word_ariths)
  show "unat (accessSizeBytes acc) * unat n \<le> 4 * unat (fst (repeat_sizes acc n))"
    using assms by (cases acc) (auto simp: unat_word_ariths unat_div)
  show "unat (fst (repeat_sizes acc n)) \<noteq> 0"
    using assms pos by (cases acc) (auto simp: unat_word_ariths unat_div)
qed

text \<open>C38: filling memory with a value, and writing it repeatedly to one address, sends the same command
  as writing a buffer that holds the value as often: although the code builds the buffer from 32-bit
  words, the bytes that go out are those of the value in the access size.\<close>

theorem fill_is_write:
  fixes v :: "64 word"
  assumes acc: "acc \<noteq> MEM_AP_ACC_64" and n: "0 < n" and small: "unat (accessSizeBytes acc) * unat n + 3 < 2 ^ 32"
  defines "bs \<equiv> concat (replicate (unat n) (le_bytes (unat (accessSizeBytes acc)) v))"
  shows "MEM_AP_Fill tr ap address acc flags n v
      = MEM_AP_Write tr ap address acc flags (ucast (accessSizeBytes acc * ucast n)) (Some bs)
    \<and> MEM_AP_WriteValueRepeat tr ap address acc flags n v = MEM_AP_WriteRepeat tr ap address acc flags n (Some bs)"
proof -
  let ?w = "unat (accessSizeBytes acc)"
  obtain r where r: "repeated_value acc v = Some r" using acc by (cases acc) simp_all
  have pos: "0 < unat n" using n by (simp add: word_less_nat_alt)
  have n64: "unat (ucast n :: size_t) = unat n" by (rule unat_ucast_32_64)
  have size: "unat (accessSizeBytes acc * ucast n) = ?w * unat n"
    using small n64 by (simp add: unat_word_ariths)
  then have size32: "unat (ucast (accessSizeBytes acc * ucast n) :: c_uint) = ?w * unat n"
    using small by (subst unat_ucast_64_32) (simp_all add: word_less_nat_alt)
  have pick: "doWrite tr ap address acc flags sz (concat (replicate m (le_bytes 4 r))) incr
      = doWrite tr ap address acc flags sz bs incr"
    if "unat sz = ?w * unat n" "?w * unat n \<le> 4 * m" for sz m incr
    using doWrite_prefix [of sz "concat (replicate m (le_bytes 4 r))"] word_vector_bytes [OF r that(2)] that(1)
    by (simp add: bs_def)
  have w: "?w \<in> {1, 2, 4}" using acc by (cases acc) simp_all
  have words: "unat ((accessSizeBytes acc * ucast n + 3) div 4) = (?w * unat n + 3) div 4"
    using small size by (simp add: unat_div unat_word_ariths)
  have fill: "MEM_AP_Fill tr ap address acc flags n v
      = MEM_AP_Write tr ap address acc flags (ucast (accessSizeBytes acc * ucast n)) (Some bs)"
  proof -
    have "?w * unat n \<le> 4 * ((?w * unat n + 3) div 4)" "(?w * unat n + 3) div 4 \<noteq> 0"
      using w pos by auto
    then show ?thesis
      using pick [OF size32] by (simp add: MEM_AP_Fill_def MEM_AP_Write_def r Let_def words word_vector_def)
  qed
  note sizes = repeat_sizes_exact [OF acc n small]
  have same: "snd (repeat_sizes acc n) = ucast (accessSizeBytes acc * ucast n)"
    using sizes(1) size32 by (simp only: word_unat_eq_iff)
  have "MEM_AP_WriteValueRepeat tr ap address acc flags n v = MEM_AP_WriteRepeat tr ap address acc flags n (Some bs)"
    using pick [OF sizes(1,2)] sizes(3)
    by (simp add: MEM_AP_WriteValueRepeat_def MEM_AP_WriteRepeat_def r word_vector_def same)
  with fill show ?thesis by blast
qed


theorem fill_is_write_witness:
  "\<forall>tr :: unit cswp_client_transport_t.
     MEM_AP_Fill tr 0 0x1000 MEM_AP_ACC_8 0 3 0xAB = MEM_AP_Write tr 0 0x1000 MEM_AP_ACC_8 0 3 (Some [0xAB, 0xAB, 0xAB])
   \<and> MEM_AP_WriteValueRepeat tr 0 0x1000 MEM_AP_ACC_8 0 3 0xAB
       = MEM_AP_WriteRepeat tr 0 0x1000 MEM_AP_ACC_8 0 3 (Some [0xAB, 0xAB, 0xAB])"
proof
  fix tr :: "unit cswp_client_transport_t"
  have v: "concat (replicate (unat (3 :: c_uint)) (le_bytes (unat (accessSizeBytes MEM_AP_ACC_8)) (0xAB :: 64 word)))
      = [0xAB, 0xAB, 0xAB]"
  proof -
    have "replicate (3 :: nat) x = [x, x, x]" for x :: "byte list" by (simp add: eval_nat_numeral)
    then show ?thesis by (simp add: le_bytes_list)
  qed
  show "MEM_AP_Fill tr 0 0x1000 MEM_AP_ACC_8 0 3 0xAB = MEM_AP_Write tr 0 0x1000 MEM_AP_ACC_8 0 3 (Some [0xAB, 0xAB, 0xAB])
   \<and> MEM_AP_WriteValueRepeat tr 0 0x1000 MEM_AP_ACC_8 0 3 0xAB
       = MEM_AP_WriteRepeat tr 0 0x1000 MEM_AP_ACC_8 0 3 (Some [0xAB, 0xAB, 0xAB])"
    using fill_is_write [of MEM_AP_ACC_8 3 tr 0 "0x1000" 0 "0xAB"] unfolding v by simp
qed


subsection \<open>A read in a batch\<close>



definition one_read :: MEM_AP_OP where
  "one_read = \<lparr>op_action = OP_READ, op_indirect = True, op_addr = 0x10, op_accSize = MEM_AP_ACC_32, op_flags = 0, op_count = 4,
     op_data = 0, op_bytes = [0, 0, 0, 0], op_pData = Some 1, op_pOwn = None\<rparr>"


end
