(* ===== verification/Usb_Device.thy ===== *)
theory Usb_Device
  imports Cswp_Client "HOL-Library.Multiset"
begin

text \<open>
  Asynchronous USB transfers on the host, \<^verbatim>\<open>usb_client/usb_device_linux.cpp\<close>, used by the USB transport
  of the client and by the trace library. A transfer is with libusb (\<open>u_inFlight\<close>, one list for each
  endpoint), waits for room there (\<open>u_queued\<close>), or is finished and waits to be collected
  (\<open>u_completed\<close>). libusb is a parameter: whether it can allocate a transfer and what it answers when
  one is handed over, which happens once for each transfer, so both are functions of its address;
  and which transfers have finished when its events are handled. A C++ exception is \<open>Fail\<close>, with a
  code that stands for its class.
\<close>

definition USBException :: c_int where "USBException = - 1"

subsection \<open>Endpoints and transfers\<close>

datatype ep_type = EP_TYPE_CONTROL | EP_TYPE_ISOCHRONOUS | EP_TYPE_BULK | EP_TYPE_INTERRUPT

datatype ep_dir = EP_DIR_OUT | EP_DIR_IN

fun dir_val :: "ep_dir \<Rightarrow> c_int" where
  "dir_val EP_DIR_OUT = 0x00"
| "dir_val EP_DIR_IN = 0x80"

definition EP_DIR_MASK :: c_int where "EP_DIR_MASK = 0x80"

record ep_info =
  ep_kind :: ep_type
  ep_addr :: c_int

datatype transfer_status = Transfer_SUCCESS | Transfer_CANCELLED | Transfer_ERROR | Transfer_IN_PROGRESS

definition MAX_URB_SIZE :: size_t where "MAX_URB_SIZE = 32768"

definition MAX_IN_FLIGHT :: nat where "MAX_IN_FLIGHT = 32"

definition LIBUSB_TRANSFER_COMPLETED :: c_int where "LIBUSB_TRANSFER_COMPLETED = 0"
definition LIBUSB_TRANSFER_CANCELLED :: c_int where "LIBUSB_TRANSFER_CANCELLED = 3"

text \<open>A transfer of libusb, and the pair of a token and the address of one.\<close>

record libusb_transfer =
  x_kind :: ep_type
  x_endpoint :: byte
  x_length :: c_int
  x_status :: c_int
  x_actual :: c_int

record usb_transfer =
  tx_token :: c_int
  tx_ptr :: nat

text \<open>\<open>u_active\<close> are the transfers libusb holds; \<open>u_fresh\<close> is an address not used yet.\<close>

record usb_dev =
  u_info :: "ep_info list"
  u_nextToken :: c_int
  u_queued :: "usb_transfer list"
  u_inFlight :: "byte \<Rightarrow> usb_transfer list"
  u_count :: size_t
  u_completed :: "usb_transfer list"
  u_flag :: bool
  u_heap :: "nat \<Rightarrow> libusb_transfer option"
  u_fresh :: nat
  u_active :: "nat set"

record libusb =
  lu_alloc :: "nat \<Rightarrow> bool"
  lu_submit :: "nat \<Rightarrow> c_int"

definition libusb_alloc_transfer :: "libusb \<Rightarrow> (usb_dev, nat option) prog" where
  "libusb_alloc_transfer L =
     cswp_check (gets u_fresh) (\<lambda>p.
     if lu_alloc L p then cswp_check (modify (\<lambda>u. u\<lparr>u_fresh := p + 1\<rparr>)) (\<lambda>_. ret (Some p)) else ret None)"

definition libusb_free_transfer :: "nat \<Rightarrow> (usb_dev, unit) prog" where
  "libusb_free_transfer p = modify (\<lambda>u. u\<lparr>u_heap := (u_heap u)(p := None)\<rparr>)"

definition libusb_submit_transfer :: "libusb \<Rightarrow> nat \<Rightarrow> (usb_dev, c_int) prog" where
  "libusb_submit_transfer L p =
     (if lu_submit L p <s 0 then ret (lu_submit L p)
      else cswp_check (modify (\<lambda>u. u\<lparr>u_active := insert p (u_active u)\<rparr>)) (\<lambda>_. ret (lu_submit L p)))"

text \<open>An access to a transfer that has been freed is out of bounds.\<close>

definition get_transfer :: "nat \<Rightarrow> (usb_dev, libusb_transfer) prog" where
  "get_transfer p = cswp_check (gets (\<lambda>u. u_heap u p)) (\<lambda>x. case x of None \<Rightarrow> undef OutOfBounds | Some x \<Rightarrow> ret x)"

definition set_status :: "nat \<Rightarrow> c_int \<Rightarrow> (usb_dev, unit) prog" where
  "set_status p st = cswp_check (get_transfer p) (\<lambda>x.
     modify (\<lambda>u. u\<lparr>u_heap := (u_heap u)(p \<mapsto> x\<lparr>x_status := st\<rparr>)\<rparr>))"

subsection \<open>Submitting\<close>

text \<open>The last endpoint with the address.\<close>

definition find_ep :: "byte \<Rightarrow> ep_info list \<Rightarrow> ep_info option" where
  "find_ep address eps = fold (\<lambda>e found. if ep_addr e = ucast address then Some e else found) eps None"

definition createTransfer :: "libusb \<Rightarrow> ep_info \<Rightarrow> size_t \<Rightarrow> (usb_dev, nat) prog" where
  "createTransfer L ep len =
     cswp_check (libusb_alloc_transfer L) (\<lambda>p.
     if ep_kind ep \<in> {EP_TYPE_BULK, EP_TYPE_INTERRUPT} then (case p of
         None \<Rightarrow> undef NullDeref
       | Some p \<Rightarrow>
           cswp_check (modify (\<lambda>u. u\<lparr>u_heap := (u_heap u)(p \<mapsto> \<lparr>x_kind = ep_kind ep, x_endpoint = ucast (ep_addr ep),
             x_length = ucast len, x_status = 0, x_actual = 0\<rparr>)\<rparr>)) (\<lambda>_.
           ret p))
     else cswp_check (case p of None \<Rightarrow> ret () | Some p \<Rightarrow> libusb_free_transfer p) (\<lambda>_. fail USBException))"

text \<open>A transfer that libusb has taken.\<close>

definition push_transfer :: "byte \<Rightarrow> usb_transfer \<Rightarrow> (usb_dev, unit) prog" where
  "push_transfer e t = modify (\<lambda>u. u\<lparr>u_inFlight := (u_inFlight u)(e := u_inFlight u e @ [t]), u_count := u_count u + 1\<rparr>)"

text \<open>The token is used up even if the transfer is refused.\<close>

definition submitTransfer :: "libusb \<Rightarrow> byte \<Rightarrow> ep_dir \<Rightarrow> size_t \<Rightarrow> (usb_dev, usb_transfer) prog" where
  "submitTransfer L address dir len =
     cswp_check (gets u_nextToken) (\<lambda>token.
     if token = 0x7FFFFFFF then undef IntOverflow
     else
       cswp_check (modify (\<lambda>u. u\<lparr>u_nextToken := token + 1\<rparr>)) (\<lambda>_.
       cswp_check (gets u_info) (\<lambda>eps.
       case find_ep address eps of
         None \<Rightarrow> fail USBException
       | Some ep \<Rightarrow>
           if len > MAX_URB_SIZE then fail USBException
           else if dir_val dir \<noteq> ep_addr ep AND EP_DIR_MASK then fail USBException
           else
             cswp_check (createTransfer L ep len) (\<lambda>p.
             cswp_check (gets (\<lambda>u. u_inFlight u address)) (\<lambda>epTransfers.
             if length epTransfers < MAX_IN_FLIGHT then
               cswp_check (libusb_submit_transfer L p) (\<lambda>err.
               if err <s 0 then cswp_check (libusb_free_transfer p) (\<lambda>_. fail USBException)
               else cswp_check (push_transfer address \<lparr>tx_token = token, tx_ptr = p\<rparr>) (\<lambda>_.
                 ret \<lparr>tx_token = token, tx_ptr = p\<rparr>))
             else
               cswp_check (modify (\<lambda>u. u\<lparr>u_queued := u_queued u @ [\<lparr>tx_token = token, tx_ptr = p\<rparr>]\<rparr>)) (\<lambda>_.
               ret \<lparr>tx_token = token, tx_ptr = p\<rparr>))))))"

definition submitReadTransfer :: "libusb \<Rightarrow> c_int \<Rightarrow> size_t \<Rightarrow> (usb_dev, c_int) prog" where
  "submitReadTransfer L endpoint len =
     cswp_check (submitTransfer L (ucast endpoint) EP_DIR_IN len) (\<lambda>t. ret (tx_token t))"

definition submitWriteTransfer :: "libusb \<Rightarrow> c_int \<Rightarrow> size_t \<Rightarrow> (usb_dev, c_int) prog" where
  "submitWriteTransfer L endpoint len =
     cswp_check (submitTransfer L (ucast endpoint) EP_DIR_OUT len) (\<lambda>t. ret (tx_token t))"

definition pendingTransfers :: "usb_dev \<Rightarrow> size_t" where
  "pendingTransfers u = of_nat (length (u_queued u)) + u_count u + of_nat (length (u_completed u))"

subsection \<open>Completion\<close>

text \<open>The rest of the queue goes to libusb while there is room in the list of the endpoint that has just
  completed a transfer, whatever the endpoint of the queued transfers is. One that is refused is freed
  and forgotten.\<close>

primrec resubmit :: "libusb \<Rightarrow> byte \<Rightarrow> usb_transfer list \<Rightarrow> (usb_dev, unit) prog" where
  "resubmit L e [] = ret ()"
| "resubmit L e (t # q) =
     cswp_check (gets (\<lambda>u. u_inFlight u e)) (\<lambda>epTransfers.
     if length epTransfers < MAX_IN_FLIGHT then
       cswp_check (modify (\<lambda>u. u\<lparr>u_queued := q\<rparr>)) (\<lambda>_.
       cswp_check (libusb_submit_transfer L (tx_ptr t)) (\<lambda>err.
       if err <s 0 then libusb_free_transfer (tx_ptr t)
       else cswp_check (push_transfer e t) (\<lambda>_. resubmit L e q)))
     else ret ())"

text \<open>The callback. The transfer is looked for in the list of its own endpoint.\<close>

definition transfer_complete :: "libusb \<Rightarrow> nat \<Rightarrow> (usb_dev, unit) prog" where
  "transfer_complete L p =
     cswp_check (get_transfer p) (\<lambda>x.
     let e = x_endpoint x in
     cswp_check (gets (\<lambda>u. u_inFlight u e)) (\<lambda>epTransfers.
     cswp_check (case find (\<lambda>t. tx_ptr t = p) (rev epTransfers) of
         None \<Rightarrow> ret ()
       | Some t \<Rightarrow> modify (\<lambda>u. u\<lparr>u_completed := u_completed u @ [t],
           u_inFlight := (u_inFlight u)(e := rev (remove1 t (rev epTransfers))), u_count := u_count u - 1, u_flag := True\<rparr>)) (\<lambda>_.
     cswp_check (gets u_queued) (\<lambda>q. resubmit L e q))))"

text \<open>What libusb reports of a transfer that has finished: its address, status and number of bytes.\<close>

type_synonym usb_event = "nat \<times> c_int \<times> c_int"

definition libusb_event :: "libusb \<Rightarrow> usb_event \<Rightarrow> (usb_dev, unit) prog" where
  "libusb_event L ev = (case ev of (p, st, n) \<Rightarrow>
     cswp_check (get_transfer p) (\<lambda>x.
     cswp_check (modify (\<lambda>u. u\<lparr>u_heap := (u_heap u)(p \<mapsto> x\<lparr>x_status := st, x_actual := n\<rparr>), u_active := u_active u - {p}\<rparr>)) (\<lambda>_.
     transfer_complete L p)))"

primrec libusb_events :: "libusb \<Rightarrow> usb_event list \<Rightarrow> (usb_dev, unit) prog" where
  "libusb_events L [] = ret ()"
| "libusb_events L (ev # evs) = cswp_check (libusb_event L ev) (\<lambda>_. libusb_events L evs)"

text \<open>The loop around \<open>libusb_handle_events_completed\<close>; the list holds what each call reports. The result
  says whether the loop has ended, which it has not when the list is used up.\<close>

primrec wait_completed :: "libusb \<Rightarrow> usb_event list list \<Rightarrow> (usb_dev, bool) prog" where
  "wait_completed L [] = gets u_flag"
| "wait_completed L (evs # rest) =
     cswp_check (gets u_flag) (\<lambda>f.
     if f then ret True else cswp_check (libusb_events L evs) (\<lambda>_. wait_completed L rest))"

definition map_libusb_status :: "c_int \<Rightarrow> transfer_status" where
  "map_libusb_status st = (if st = LIBUSB_TRANSFER_COMPLETED then Transfer_SUCCESS
     else if st = LIBUSB_TRANSFER_CANCELLED then Transfer_CANCELLED else Transfer_ERROR)"

text \<open>\<open>Nothing\<close> is the token \<open>-1\<close>, \<open>Blocked\<close> a call that has not returned.\<close>

datatype usb_result = Blocked | Nothing | Transferred c_int transfer_status size_t

text \<open>The first transfer that has completed is returned and freed.\<close>

definition collect_transfer :: "(usb_dev, usb_result) prog" where
  "collect_transfer =
     cswp_check (gets u_completed) (\<lambda>done. case done of
       [] \<Rightarrow> ret Nothing
     | t # ts \<Rightarrow>
         cswp_check (modify (\<lambda>u. u\<lparr>u_completed := ts\<rparr>)) (\<lambda>_.
         cswp_check (get_transfer (tx_ptr t)) (\<lambda>x.
         cswp_check (libusb_free_transfer (tx_ptr t)) (\<lambda>_.
         ret (Transferred (tx_token t) (map_libusb_status (x_status x)) (scast (x_actual x)))))))"

definition completeTransfer :: "libusb \<Rightarrow> usb_event list list \<Rightarrow> (usb_dev, usb_result) prog" where
  "completeTransfer L evs =
     cswp_check (gets id) (\<lambda>u.
     cswp_check
       (if u_completed u = [] \<and> 0 < u_count u then
          cswp_check (wait_completed L evs) (\<lambda>ended.
          if ended then cswp_check (modify (\<lambda>u. u\<lparr>u_flag := False\<rparr>)) (\<lambda>_. ret True) else ret False)
        else ret True) (\<lambda>ended.
     if \<not> ended then ret Blocked else collect_transfer))"

text \<open>libusb is asked to cancel what it holds, and reports that later; what is queued is finished at once.\<close>

primrec cancel_queued :: "usb_transfer list \<Rightarrow> (usb_dev, unit) prog" where
  "cancel_queued [] = ret ()"
| "cancel_queued (t # q) =
     cswp_check (modify (\<lambda>u. u\<lparr>u_queued := q\<rparr>)) (\<lambda>_.
     cswp_check (set_status (tx_ptr t) LIBUSB_TRANSFER_CANCELLED) (\<lambda>_.
     cswp_check (modify (\<lambda>u. u\<lparr>u_completed := u_completed u @ [t]\<rparr>)) (\<lambda>_.
     cancel_queued q)))"

definition cancelTransfers :: "(usb_dev, unit) prog" where
  "cancelTransfers = cswp_check (gets u_queued) cancel_queued"

subsection \<open>The transfers of a device\<close>

text \<open>Every transfer that has been accepted and not yet collected, as a multiset.\<close>

definition flying :: "usb_dev \<Rightarrow> usb_transfer multiset" where
  "flying u = (\<Sum>e\<in>UNIV. mset (u_inFlight u e))"

definition tracked :: "usb_dev \<Rightarrow> usb_transfer multiset" where
  "tracked u = mset (u_queued u) + mset (u_completed u) + flying u"

definition once :: "'a multiset \<Rightarrow> bool" where
  "once M \<longleftrightarrow> (\<forall>x. count M x \<le> 1)"

lemma once_empty [simp]: "once {#}"
  by (simp add: once_def)

lemma once_add [simp]: "once (add_mset x M) \<longleftrightarrow> x \<notin># M \<and> once M"
proof
  assume M: "once (add_mset x M)"
  from M have "count (add_mset x M) x \<le> 1" by (simp only: once_def)
  then have "x \<notin># M" by (simp add: not_in_iff)
  moreover have "count M y \<le> count (add_mset x M) y" for y by simp
  ultimately show "x \<notin># M \<and> once M" using M order_trans unfolding once_def by blast
next
  assume M: "x \<notin># M \<and> once M"
  then have "count M x = 0" by (simp add: not_in_iff)
  with M show "once (add_mset x M)" by (simp add: once_def)
qed

lemma once_subset: "once N \<Longrightarrow> M \<subseteq># N \<Longrightarrow> once M"
  by (meson mset_subset_eq_count once_def order_trans)

text \<open>Counters, lengths, and tokens and addresses that are all different and have been given out.\<close>

definition usb_ok :: "usb_dev \<Rightarrow> bool" where
  "usb_ok u \<longleftrightarrow> unat (u_count u) = size (flying u) \<and> (\<forall>e. length (u_inFlight u e) \<le> MAX_IN_FLIGHT)
     \<and> once (image_mset tx_token (tracked u)) \<and> once (image_mset tx_ptr (tracked u))
     \<and> (\<forall>t \<in># tracked u. 0 \<le>s tx_token t \<and> tx_token t <s u_nextToken u \<and> tx_ptr t < u_fresh u \<and> u_heap u (tx_ptr t) \<noteq> None)
     \<and> 0 \<le>s u_nextToken u \<and> u_active u \<subseteq> tx_ptr ` set_mset (flying u)"

definition usb_init :: "ep_info list \<Rightarrow> usb_dev" where
  "usb_init eps = \<lparr>u_info = eps, u_nextToken = 0, u_queued = [], u_inFlight = (\<lambda>_. []), u_count = 0, u_completed = [],
     u_flag = False, u_heap = (\<lambda>_. None), u_fresh = 0, u_active = {}\<rparr>"

lemma usb_init_ok: "usb_ok (usb_init eps)" "tracked (usb_init eps) = {#}"
  by (simp_all add: usb_ok_def usb_init_def tracked_def flying_def)

lemma sum_list_upd:
  "(\<Sum>e\<in>UNIV. mset ((f(a := l)) e)) + mset (f a) = (\<Sum>e\<in>UNIV. mset (f e)) + mset l" for a :: byte
proof -
  have "(\<Sum>e\<in>UNIV - {a}. mset ((f(a := l)) e)) = (\<Sum>e\<in>UNIV - {a}. mset (f e))" by (rule sum.cong) simp_all
  then show ?thesis by (simp add: sum.remove [of UNIV a])
qed

lemma flying_append [simp]:
  "flying (u\<lparr>u_inFlight := (u_inFlight u)(e := u_inFlight u e @ [t])\<rparr>) = add_mset t (flying u)"
  using sum_list_upd [of "u_inFlight u" e "u_inFlight u e @ [t]"] by (simp add: flying_def)

lemma flying_part: "mset (u_inFlight u e) \<subseteq># flying u"
  by (simp add: flying_def sum.remove [of UNIV e])

lemma flying_remove:
  assumes "t \<in> set (u_inFlight u e)" and "mset l = mset (u_inFlight u e) - {#t#}"
  shows "add_mset t (flying (u\<lparr>u_inFlight := (u_inFlight u)(e := l)\<rparr>)) = flying u"
proof -
  have "flying (u\<lparr>u_inFlight := (u_inFlight u)(e := l)\<rparr>) + mset (u_inFlight u e) = flying u + mset l"
    using sum_list_upd [of "u_inFlight u" e l] by (simp add: flying_def)
  also have "mset (u_inFlight u e) = add_mset t (mset l)" using assms by simp
  finally show ?thesis by (simp add: fun_upd_def)
qed

text \<open>The fields \<open>flying\<close> does not look at.\<close>

lemma flying_cong: "u_inFlight u = u_inFlight v \<Longrightarrow> flying u = flying v"
  by (simp add: flying_def)

lemma flying_bound:
  assumes "\<And>e. length (u_inFlight u e) \<le> MAX_IN_FLIGHT"
  shows "size (flying u) \<le> 8192"
proof -
  have "size (flying u) = (\<Sum>e\<in>(UNIV :: byte set). length (u_inFlight u e))"
    using sum_comp_morphism [of size "\<lambda>e. mset (u_inFlight u e)" UNIV] by (simp add: flying_def o_def)
  also have "\<dots> \<le> of_nat (card (UNIV :: byte set)) * MAX_IN_FLIGHT" by (rule sum_bounded_above) (rule assms)
  also have "\<dots> = 8192" by (simp add: card_word MAX_IN_FLIGHT_def)
  finally show ?thesis .
qed

lemma count_incr: "usb_ok u \<Longrightarrow> unat (u_count u + 1) = Suc (size (flying u))"
  using flying_bound [of u] by (simp add: usb_ok_def unat_word_ariths)

text \<open>A transfer that can be added.\<close>

definition addable :: "usb_dev \<Rightarrow> usb_transfer \<Rightarrow> bool" where
  "addable u t \<longleftrightarrow> tx_token t \<notin># image_mset tx_token (tracked u) \<and> tx_ptr t \<notin># image_mset tx_ptr (tracked u)
     \<and> 0 \<le>s tx_token t \<and> tx_token t <s u_nextToken u \<and> tx_ptr t < u_fresh u \<and> u_heap u (tx_ptr t) \<noteq> None"

lemma ok_add:
  assumes "usb_ok u" and "addable u t"
    and "tracked v = add_mset t (tracked u)" and "unat (u_count v) = size (flying v)"
    and "\<And>e. length (u_inFlight v e) \<le> MAX_IN_FLIGHT" and "u_active v \<subseteq> tx_ptr ` set_mset (flying v)"
    and "u_nextToken v = u_nextToken u" "u_fresh v = u_fresh u" "u_heap v = u_heap u"
  shows "usb_ok v"
  using assms by (auto simp: usb_ok_def addable_def)

lemma tracked_fields [simp]:
  "tracked (u\<lparr>u_nextToken := k\<rparr>) = tracked u" "tracked (u\<lparr>u_fresh := n\<rparr>) = tracked u" "tracked (u\<lparr>u_heap := h\<rparr>) = tracked u"
  "tracked (u\<lparr>u_active := a\<rparr>) = tracked u" "tracked (u\<lparr>u_count := c\<rparr>) = tracked u" "tracked (u\<lparr>u_flag := f\<rparr>) = tracked u"
  "flying (u\<lparr>u_nextToken := k\<rparr>) = flying u" "flying (u\<lparr>u_fresh := n\<rparr>) = flying u" "flying (u\<lparr>u_heap := h\<rparr>) = flying u"
  "flying (u\<lparr>u_active := a\<rparr>) = flying u" "flying (u\<lparr>u_count := c\<rparr>) = flying u" "flying (u\<lparr>u_flag := f\<rparr>) = flying u"
  "flying (u\<lparr>u_queued := q\<rparr>) = flying u" "flying (u\<lparr>u_completed := d\<rparr>) = flying u"
  by (simp_all add: tracked_def flying_def)

definition pushed :: "byte \<Rightarrow> usb_transfer \<Rightarrow> usb_dev \<Rightarrow> usb_dev" where
  "pushed e t u = u\<lparr>u_active := insert (tx_ptr t) (u_active u), u_inFlight := (u_inFlight u)(e := u_inFlight u e @ [t]),
     u_count := u_count u + 1\<rparr>"

lemma flying_pushed [simp]: "flying (pushed e t u) = add_mset t (flying u)"
proof -
  have "flying (pushed e t u) = flying (u\<lparr>u_inFlight := (u_inFlight u)(e := u_inFlight u e @ [t])\<rparr>)"
    by (rule flying_cong) (simp add: pushed_def)
  then show ?thesis by (simp del: fun_upd_apply)
qed

lemma tracked_pushed [simp]: "tracked (pushed e t u) = add_mset t (tracked u)"
  unfolding tracked_def flying_pushed by (simp add: pushed_def)

lemma ok_pushed:
  assumes "usb_ok u" and "addable u t" and "length (u_inFlight u e) < MAX_IN_FLIGHT"
  shows "usb_ok (pushed e t u)"
proof (rule ok_add [OF assms(1,2) tracked_pushed])
  show "unat (u_count (pushed e t u)) = size (flying (pushed e t u))"
    unfolding flying_pushed using count_incr [OF assms(1)] by (simp add: pushed_def)
  show "u_active (pushed e t u) \<subseteq> tx_ptr ` set_mset (flying (pushed e t u))"
    unfolding flying_pushed using assms(1) by (auto simp: pushed_def usb_ok_def)
qed (use assms in \<open>auto simp: pushed_def usb_ok_def\<close>)

lemma ok_queued:
  assumes "usb_ok u" and "addable u t"
  shows "usb_ok (u\<lparr>u_queued := u_queued u @ [t]\<rparr>)" "tracked (u\<lparr>u_queued := u_queued u @ [t]\<rparr>) = add_mset t (tracked u)"
proof -
  show tr: "tracked (u\<lparr>u_queued := u_queued u @ [t]\<rparr>) = add_mset t (tracked u)"
    by (simp add: tracked_def)
  show "usb_ok (u\<lparr>u_queued := u_queued u @ [t]\<rparr>)"
    by (rule ok_add [OF assms tr]) (use assms(1) in \<open>simp_all add: usb_ok_def\<close>)
qed

text \<open>A token and a transfer have been allocated.\<close>

definition allocated :: "libusb_transfer \<Rightarrow> usb_dev \<Rightarrow> usb_dev" where
  "allocated x u = u\<lparr>u_nextToken := u_nextToken u + 1, u_fresh := u_fresh u + 1, u_heap := (u_heap u)(u_fresh u \<mapsto> x)\<rparr>"

lemma ok_allocated:
  assumes "usb_ok u" and "u_nextToken u \<noteq> 0x7FFFFFFF"
  shows "usb_ok (allocated x u)" and "tracked (allocated x u) = tracked u"
    and "addable (allocated x u) \<lparr>tx_token = u_nextToken u, tx_ptr = u_fresh u\<rparr>"
proof -
  have nn: "0 \<le>s u_nextToken u" using assms(1) by (simp add: usb_ok_def)
  note inc = token_incr [OF nn assms(2)]
  have less: "tx_token t <s u_nextToken u" "tx_ptr t < u_fresh u" if "t \<in># tracked u" for t
    using assms(1) that by (simp_all add: usb_ok_def)
  show tr: "tracked (allocated x u) = tracked u" by (simp add: allocated_def)
  have fl: "flying (allocated x u) = flying u" by (simp add: allocated_def)
  show "usb_ok (allocated x u)"
    unfolding usb_ok_def tr fl using assms(1) inc less by (auto simp: usb_ok_def allocated_def less_SucI)
  show "addable (allocated x u) \<lparr>tx_token = u_nextToken u, tx_ptr = u_fresh u\<rparr>"
    unfolding addable_def tr using inc nn less signed.less_irrefl
    by (fastforce simp: allocated_def)
qed


text \<open>Submitting: the token is new, and the transfer is added, or an exception leaves the transfers
  alone. Behaviour is undefined only when the tokens run out or libusb has no memory.\<close>

lemma find_ep_addr:
  assumes "find_ep address eps = Some ep" shows "ep_addr ep = ucast address"
proof -
  have "fold (\<lambda>e found. if ep_addr e = ucast address then Some e else found) eps r = Some ep \<Longrightarrow>
    (\<And>e. r = Some e \<Longrightarrow> ep_addr e = ucast address) \<Longrightarrow> ep_addr ep = ucast address" for r
    by (induction eps arbitrary: r) (auto split: if_splits)
  then show ?thesis using assms by (auto simp: find_ep_def)
qed

lemma ok_forget:
  assumes "usb_ok u" and "p \<notin> tx_ptr ` set_mset (tracked u)"
  shows "usb_ok (u\<lparr>u_heap := (u_heap u)(p := h)\<rparr>)"
  using assms by (auto simp: usb_ok_def)

lemma submit_outcome:
  assumes ok: "usb_ok u"
  shows "case submitTransfer L address dir len u of
      Done t u' \<Rightarrow> usb_ok u' \<and> tracked u' = add_mset t (tracked u) \<and> tx_token t = u_nextToken u
        \<and> u_nextToken u' = u_nextToken u + 1
    | Fail e u' \<Rightarrow> e = USBException \<and> usb_ok u' \<and> tracked u' = tracked u \<and> u_nextToken u' = u_nextToken u + 1
    | Undef b \<Rightarrow> b = IntOverflow \<and> u_nextToken u = 0x7FFFFFFF \<or> b = NullDeref \<and> \<not> lu_alloc L (u_fresh u)"
proof (cases "u_nextToken u = 0x7FFFFFFF")
  case True
  then show ?thesis by (simp add: submitTransfer_def cswp_check_def)
next
  case False
  let ?k = "u_nextToken u" and ?u1 = "u\<lparr>u_nextToken := u_nextToken u + 1\<rparr>"
  have ok1: "usb_ok ?u1"
    using ok token_incr [of ?k] False by (auto simp: usb_ok_def)
  note start = submitTransfer_def cswp_check_def False
  show ?thesis
  proof (cases "find_ep address (u_info u)")
    case None
    then show ?thesis using ok1 by (simp add: start)
  next
    case (Some ep)
    let ?x = "\<lparr>x_kind = ep_kind ep, x_endpoint = ucast (ep_addr ep), x_length = ucast len, x_status = 0, x_actual = 0\<rparr>"
    let ?t = "\<lparr>tx_token = ?k, tx_ptr = u_fresh u\<rparr>" and ?u2 = "allocated ?x u"
    note u2 = ok_allocated [OF ok False, of ?x]
    have fresh: "u_fresh u \<notin> tx_ptr ` set_mset (tracked u)" using ok by (auto simp: usb_ok_def)
    have free: "usb_ok (?u1\<lparr>u_fresh := f, u_heap := (u_heap u)(u_fresh u := None)\<rparr>)" if "u_fresh u \<le> f" for f
      using ok_forget [OF ok1, of "u_fresh u" None] fresh that
      by (auto simp: usb_ok_def intro: less_le_trans)
    consider "len > MAX_URB_SIZE \<or> dir_val dir \<noteq> ep_addr ep AND EP_DIR_MASK"
      | "len \<le> MAX_URB_SIZE" "dir_val dir = ep_addr ep AND EP_DIR_MASK" "ep_kind ep \<notin> {EP_TYPE_BULK, EP_TYPE_INTERRUPT}"
      | "len \<le> MAX_URB_SIZE" "dir_val dir = ep_addr ep AND EP_DIR_MASK" "ep_kind ep \<in> {EP_TYPE_BULK, EP_TYPE_INTERRUPT}"
      by fastforce
    then show ?thesis
    proof cases
      case 1
      then show ?thesis using ok1 by (auto simp: start Some)
    next
      case 2
      then have nl: "\<not> MAX_URB_SIZE < len" by (simp add: not_less)
      with 2 show ?thesis
        using ok1 free [of "Suc (u_fresh u)"]
        by (simp add: start Some createTransfer_def libusb_alloc_transfer_def libusb_free_transfer_def)
    next
      case 3
      have nl: "\<not> MAX_URB_SIZE < len" using 3 by (simp add: not_less)
      have go: "createTransfer L ep len ?u1 = (if lu_alloc L (u_fresh u) then Done (u_fresh u) ?u2 else Undef NullDeref)"
        using 3 by (simp add: createTransfer_def libusb_alloc_transfer_def cswp_check_def allocated_def)
      show ?thesis
      proof (cases "lu_alloc L (u_fresh u)")
        case alloc: True
        have same: "u_inFlight ?u2 = u_inFlight u" "u_nextToken ?u2 = ?k + 1" by (simp_all add: allocated_def)
        consider "length (u_inFlight u address) < MAX_IN_FLIGHT" "lu_submit L (u_fresh u) <s 0"
          | "length (u_inFlight u address) < MAX_IN_FLIGHT" "\<not> lu_submit L (u_fresh u) <s 0"
          | "\<not> length (u_inFlight u address) < MAX_IN_FLIGHT" by blast
        then show ?thesis
        proof cases
          case a: 1
          have "usb_ok (?u2\<lparr>u_heap := (u_heap ?u2)(u_fresh u := None)\<rparr>)"
            by (rule ok_forget [OF u2(1)]) (use fresh u2(2) in simp)
          then show ?thesis
            using 3 a alloc go same u2(2)
            by (simp add: start Some libusb_submit_transfer_def libusb_free_transfer_def nl)
        next
          case a: 2
          have "usb_ok (pushed address ?t ?u2)" by (rule ok_pushed [OF u2(1,3)]) (use a same in simp)
          moreover have "submitTransfer L address dir len u = Done ?t (pushed address ?t ?u2)"
            using 3 a alloc go same
            by (simp add: start Some libusb_submit_transfer_def push_transfer_def pushed_def nl)
          moreover have "u_nextToken (pushed address ?t ?u2) = ?k + 1" using same by (simp add: pushed_def)
          ultimately show ?thesis using u2(2) by simp
        next
          case a: 3
          then show ?thesis
            using 3 alloc go same u2(2) ok_queued [OF u2(1,3)]
            by (simp add: start Some nl)
        qed
      qed (use 3 go nl in \<open>simp add: start Some\<close>)
    qed
  qed
qed

subsection \<open>Completion keeps the transfers\<close>

lemma ok_take:
  assumes "usb_ok u" and tr: "tracked u = add_mset t (tracked v)" and "unat (u_count v) = size (flying v)"
    and "\<And>e. length (u_inFlight v e) \<le> MAX_IN_FLIGHT" and "u_active v \<subseteq> tx_ptr ` set_mset (flying v)"
    and "u_nextToken v = u_nextToken u" "u_fresh v = u_fresh u" "u_heap v = u_heap u"
  shows "usb_ok v" and "addable v t"
  using assms unfolding usb_ok_def addable_def tr by auto

lemma ok_dequeue:
  assumes "usb_ok u" and "u_queued u = t # q"
  shows "usb_ok (u\<lparr>u_queued := q\<rparr>)" and "addable (u\<lparr>u_queued := q\<rparr>) t"
    and "tracked u = add_mset t (tracked (u\<lparr>u_queued := q\<rparr>))"
proof -
  show tr: "tracked u = add_mset t (tracked (u\<lparr>u_queued := q\<rparr>))" using assms(2) by (simp add: tracked_def)
  show "usb_ok (u\<lparr>u_queued := q\<rparr>)" "addable (u\<lparr>u_queued := q\<rparr>) t"
    by (rule ok_take [OF assms(1) tr]; use assms(1) in \<open>simp add: usb_ok_def\<close>)+
qed

text \<open>What an operation leaves behind: nothing is lost but transfers libusb has refused.\<close>

definition kept :: "libusb \<Rightarrow> usb_dev \<Rightarrow> usb_dev \<Rightarrow> bool" where
  "kept L u v \<longleftrightarrow> usb_ok v \<and> u_nextToken v = u_nextToken u
     \<and> (\<exists>D. tracked u = tracked v + D \<and> (\<forall>t \<in># D. lu_submit L (tx_ptr t) <s 0))"

lemma kept_same: "usb_ok v \<Longrightarrow> u_nextToken v = u_nextToken u \<Longrightarrow> tracked v = tracked u \<Longrightarrow> kept L u v"
  by (simp add: kept_def)

lemma kept_trans: "kept L u v \<Longrightarrow> kept L v w \<Longrightarrow> kept L u w"
proof -
  assume "kept L u v" "kept L v w"
  then obtain D E where "tracked u = tracked v + D" "tracked v = tracked w + E"
      "\<forall>t \<in># D. lu_submit L (tx_ptr t) <s 0" "\<forall>t \<in># E. lu_submit L (tx_ptr t) <s 0"
      "usb_ok w" "u_nextToken w = u_nextToken u"
    by (auto simp: kept_def)
  then show "kept L u w" unfolding kept_def by (intro conjI exI [of _ "E + D"]) auto
qed

lemma kept_lost:
  assumes "usb_ok v" and "u_nextToken v = u_nextToken u" and "tracked u = add_mset t (tracked v)"
    and "lu_submit L (tx_ptr t) <s 0"
  shows "kept L u v"
  using assms by (auto simp: kept_def intro: exI [of _ "{#t#}"])

lemma resubmit_keeps:
  assumes "usb_ok u" and "u_queued u = q"
  shows "\<exists>v. resubmit L e q u = Done () v \<and> kept L u v \<and> u_completed v = u_completed u \<and> u_flag v = u_flag u
    \<and> (\<forall>e'. e' \<noteq> e \<longrightarrow> u_inFlight v e' = u_inFlight u e')"
  using assms
proof (induction q arbitrary: u)
  case Nil
  then show ?case by (simp add: kept_same)
next
  case (Cons t q)
  let ?u = "u\<lparr>u_queued := q\<rparr>"
  note d = ok_dequeue [OF Cons.prems]
  show ?case
  proof (cases "length (u_inFlight u e) < MAX_IN_FLIGHT")
    case False
    then show ?thesis using Cons.prems(1) by (simp add: cswp_check_def kept_same)
  next
    case room: True
    show ?thesis
    proof (cases "lu_submit L (tx_ptr t) <s 0")
      case True
      let ?v = "?u\<lparr>u_heap := (u_heap ?u)(tx_ptr t := None)\<rparr>"
      have "usb_ok ?v" by (rule ok_forget [OF d(1)]) (use d(2) in \<open>simp add: addable_def\<close>)
      then have "kept L u ?v" by (rule kept_lost) (use d(3) True in simp_all)
      then show ?thesis
        using room True by (simp add: cswp_check_def libusb_submit_transfer_def libusb_free_transfer_def)
    next
      case False
      let ?v = "pushed e t ?u"
      have v: "usb_ok ?v" by (rule ok_pushed [OF d(1,2)]) (use room in simp)
      have "u_nextToken ?v = u_nextToken u" by (simp add: pushed_def)
      then have same: "kept L u ?v" by (rule kept_same [OF v]) (use d(3) in simp)
      have "u_queued ?v = q" by (simp add: pushed_def)
      from Cons.IH [OF v this] obtain w where w: "resubmit L e q ?v = Done () w" "kept L ?v w"
        "u_completed w = u_completed ?v" "u_flag w = u_flag ?v" "\<forall>e'. e' \<noteq> e \<longrightarrow> u_inFlight w e' = u_inFlight ?v e'"
        by blast
      have "resubmit L e (t # q) u = resubmit L e q ?v"
        using room False by (simp add: cswp_check_def libusb_submit_transfer_def push_transfer_def pushed_def)
      then show ?thesis using w kept_trans [OF same w(2)] by (auto simp: pushed_def)
    qed
  qed
qed

definition finished :: "byte \<Rightarrow> usb_transfer \<Rightarrow> usb_dev \<Rightarrow> usb_dev" where
  "finished e t u = u\<lparr>u_completed := u_completed u @ [t],
     u_inFlight := (u_inFlight u)(e := rev (remove1 t (rev (u_inFlight u e)))), u_count := u_count u - 1, u_flag := True\<rparr>"

lemma ok_finished:
  assumes "usb_ok u" and t: "t \<in> set (u_inFlight u e)" and "tx_ptr t \<notin> u_active u"
  shows "usb_ok (finished e t u)" and "tracked (finished e t u) = tracked u"
proof -
  let ?l = "rev (remove1 t (rev (u_inFlight u e)))" and ?v = "finished e t u"
  have "flying ?v = flying (u\<lparr>u_inFlight := (u_inFlight u)(e := ?l)\<rparr>)"
    by (rule flying_cong) (simp add: finished_def)
  then have fl: "flying u = add_mset t (flying ?v)"
    using flying_remove [of t u e ?l] t by (simp del: fun_upd_apply)
  show tr: "tracked ?v = tracked u"
    unfolding tracked_def fl by (simp add: finished_def)
  have count: "unat (u_count ?v) = size (flying ?v)"
  proof -
    have "unat (u_count u) = Suc (size (flying ?v))" using assms(1) fl by (simp add: usb_ok_def)
    moreover from this have "u_count u \<noteq> 0" by auto
    ultimately show ?thesis by (simp add: finished_def unat_minus_one)
  qed
  have len: "length (u_inFlight ?v e') \<le> MAX_IN_FLIGHT" for e'
    using assms(1) by (auto simp: finished_def usb_ok_def length_remove1 intro: le_trans [OF diff_le_self])
  have "u_active u \<subseteq> insert (tx_ptr t) (tx_ptr ` set_mset (flying ?v))"
    using assms(1) unfolding usb_ok_def fl by auto
  then have act: "u_active ?v \<subseteq> tx_ptr ` set_mset (flying ?v)" using assms(3) by (auto simp: finished_def)
  have fields: "u_nextToken ?v = u_nextToken u" "u_fresh ?v = u_fresh u" "u_heap ?v = u_heap u"
    by (simp_all add: finished_def)
  show "usb_ok ?v" using assms(1) count len act unfolding usb_ok_def tr fields by auto
qed

text \<open>The callback keeps the transfers.\<close>

lemma transfer_complete_eq:
  assumes "u_heap u p = Some x"
  shows "transfer_complete L p u = (case find (\<lambda>t. tx_ptr t = p) (rev (u_inFlight u (x_endpoint x))) of
      None \<Rightarrow> resubmit L (x_endpoint x) (u_queued u) u
    | Some t \<Rightarrow> resubmit L (x_endpoint x) (u_queued u) (finished (x_endpoint x) t u))"
  using assms
  by (simp add: transfer_complete_def get_transfer_def cswp_check_def Let_def finished_def split: option.splits)

lemma transfer_complete_keeps:
  assumes "usb_ok u" and x: "u_heap u p = Some x" and "p \<notin> u_active u"
  shows "\<exists>v. transfer_complete L p u = Done () v \<and> kept L u v"
proof (cases "find (\<lambda>t. tx_ptr t = p) (rev (u_inFlight u (x_endpoint x)))")
  case None
  then show ?thesis
    using resubmit_keeps [OF assms(1) refl, of L "x_endpoint x"] x
    by (auto simp: transfer_complete_eq [OF x])
next
  case (Some t)
  let ?e = "x_endpoint x" and ?v = "finished (x_endpoint x) t u"
  have t: "t \<in> set (u_inFlight u ?e)" "tx_ptr t = p" using Some by (auto simp: find_Some_iff in_set_conv_nth)
      (metis Suc_less_eq diff_Suc_less length_greater_0_conv length_rev nth_mem rev_nth set_rev)+
  have ok: "usb_ok ?v" "tracked ?v = tracked u" using ok_finished [OF assms(1) t(1)] t(2) assms(3) by simp_all
  have same: "kept L u ?v" by (rule kept_same [OF ok(1)]) (use ok(2) in \<open>simp_all add: finished_def\<close>)
  from resubmit_keeps [OF ok(1) refl, of L ?e] obtain w where "resubmit L ?e (u_queued ?v) ?v = Done () w" "kept L ?v w"
    by blast
  then show ?thesis
    using Some x kept_trans [OF same]
    by (auto simp: transfer_complete_eq [OF x] finished_def)
qed

lemma libusb_event_keeps:
  assumes "usb_ok u" and "p \<in> u_active u"
  shows "\<exists>v. libusb_event L (p, st, n) u = Done () v \<and> kept L u v"
proof -
  have "p \<in> tx_ptr ` set_mset (tracked u)" using assms by (auto simp: usb_ok_def tracked_def)
  then obtain x where x: "u_heap u p = Some x" using assms(1) by (auto simp: usb_ok_def)
  let ?u = "u\<lparr>u_heap := (u_heap u)(p \<mapsto> x\<lparr>x_status := st, x_actual := n\<rparr>), u_active := u_active u - {p}\<rparr>"
  have "usb_ok ?u" using assms(1) by (auto simp: usb_ok_def)
  from transfer_complete_keeps [OF this, of p] obtain v where "transfer_complete L p ?u = Done () v" "kept L ?u v" by auto
  then show ?thesis
    using x by (auto simp: libusb_event_def get_transfer_def cswp_check_def kept_def)
qed

text \<open>libusb reports only transfers it holds.\<close>

primrec events_ok :: "libusb \<Rightarrow> usb_event list \<Rightarrow> usb_dev \<Rightarrow> bool" where
  "events_ok L [] u = True"
| "events_ok L (ev # evs) u = (fst ev \<in> u_active u \<and> (case libusb_event L ev u of Done _ v \<Rightarrow> events_ok L evs v | _ \<Rightarrow> True))"

primrec waits_ok :: "libusb \<Rightarrow> usb_event list list \<Rightarrow> usb_dev \<Rightarrow> bool" where
  "waits_ok L [] u = True"
| "waits_ok L (evs # rest) u =
     (u_flag u \<or> events_ok L evs u \<and> (case libusb_events L evs u of Done _ v \<Rightarrow> waits_ok L rest v | _ \<Rightarrow> True))"

lemma libusb_events_keep:
  "usb_ok u \<Longrightarrow> events_ok L evs u \<Longrightarrow> \<exists>v. libusb_events L evs u = Done () v \<and> kept L u v"
proof (induction evs arbitrary: u)
  case Nil
  then show ?case by (simp add: kept_same)
next
  case (Cons ev evs)
  obtain p st n where ev: "ev = (p, st, n)" by (cases ev)
  from Cons.prems ev obtain v where v: "libusb_event L ev u = Done () v" "kept L u v"
    using libusb_event_keeps [of u p L st n] by auto
  then have "usb_ok v" "events_ok L evs v" using Cons.prems by (simp_all add: kept_def)
  from Cons.IH [OF this] v show ?case by (auto intro: kept_trans)
qed

lemma wait_completed_keeps:
  "usb_ok u \<Longrightarrow> waits_ok L evs u \<Longrightarrow> \<exists>b v. wait_completed L evs u = Done b v \<and> kept L u v"
proof (induction evs arbitrary: u)
  case Nil
  then show ?case by (simp add: kept_same gets_def)
next
  case (Cons evs rest)
  show ?case
  proof (cases "u_flag u")
    case True
    then show ?thesis using Cons.prems by (auto simp: cswp_check_def intro: kept_same)
  next
    case False
    then obtain v where v: "libusb_events L evs u = Done () v" "kept L u v"
      using libusb_events_keep [of u L evs] Cons.prems by auto
    then have "usb_ok v" "waits_ok L rest v" using Cons.prems False by (simp_all add: kept_def)
    from Cons.IH [OF this] obtain b w where "wait_completed L rest v = Done b w" "kept L v w" by blast
    then show ?thesis using v False kept_trans [OF v(2)] by (auto simp: cswp_check_def)
  qed
qed

lemma ok_heap_some:
  "usb_ok u \<Longrightarrow> h p \<noteq> None \<Longrightarrow> h = (u_heap u)(p := h p) \<Longrightarrow> usb_ok (u\<lparr>u_heap := h\<rparr>)"
  by (fastforce simp: usb_ok_def)

lemma cancel_queued_keeps:
  assumes "usb_ok u" and "u_queued u = q"
  shows "\<exists>v. cancel_queued q u = Done () v \<and> usb_ok v \<and> u_nextToken v = u_nextToken u \<and> tracked v = tracked u
    \<and> u_inFlight v = u_inFlight u \<and> u_active v = u_active u"
  using assms
proof (induction q arbitrary: u)
  case (Cons t q)
  note d = ok_dequeue [OF Cons.prems]
  have "t \<in># tracked u" using Cons.prems(2) by (simp add: tracked_def)
  then obtain x where x: "u_heap u (tx_ptr t) = Some x" using Cons.prems(1) by (auto simp: usb_ok_def)
  let ?h = "(u_heap u)(tx_ptr t \<mapsto> x\<lparr>x_status := LIBUSB_TRANSFER_CANCELLED\<rparr>)"
  let ?v = "u\<lparr>u_queued := q, u_heap := ?h, u_completed := u_completed u @ [t]\<rparr>"
  have tr: "tracked ?v = tracked u" using Cons.prems(2) by (simp add: tracked_def flying_def)
  have "flying ?v = flying u" by (rule flying_cong) simp
  then have ok: "usb_ok ?v" using Cons.prems(1) unfolding usb_ok_def tr by auto
  from Cons.IH [OF this] obtain w where w: "cancel_queued q ?v = Done () w" "usb_ok w" "u_nextToken w = u_nextToken ?v"
    "tracked w = tracked ?v" "u_inFlight w = u_inFlight ?v" "u_active w = u_active ?v" by auto
  have "cancel_queued (t # q) u = cancel_queued q ?v"
    using x by (simp add: cswp_check_def set_status_def get_transfer_def)
  then show ?case using w tr by auto
qed simp

lemma cancel_keeps:
  "usb_ok u \<Longrightarrow> \<exists>v. cancelTransfers u = Done () v \<and> usb_ok v \<and> u_nextToken v = u_nextToken u \<and> tracked v = tracked u
    \<and> u_inFlight v = u_inFlight u \<and> u_active v = u_active u"
  using cancel_queued_keeps [of u "u_queued u"] by (simp add: cancelTransfers_def cswp_check_def)

text \<open>Collecting takes the first finished transfer.\<close>

definition collected :: "usb_transfer \<Rightarrow> usb_transfer list \<Rightarrow> usb_dev \<Rightarrow> usb_dev" where
  "collected t ts u = u\<lparr>u_completed := ts, u_heap := (u_heap u)(tx_ptr t := None)\<rparr>"

lemma ok_collected:
  assumes "usb_ok u" and "u_completed u = t # ts"
  shows "usb_ok (collected t ts u)" and "tracked u = add_mset t (tracked (collected t ts u))"
proof -
  let ?v = "u\<lparr>u_completed := ts\<rparr>"
  have tr: "tracked u = add_mset t (tracked ?v)" using assms(2) by (simp add: tracked_def)
  have v: "usb_ok ?v" "addable ?v t"
    by (rule ok_take [OF assms(1) tr]; use assms(1) in \<open>simp add: usb_ok_def\<close>)+
  have "usb_ok (?v\<lparr>u_heap := (u_heap ?v)(tx_ptr t := None)\<rparr>)" by (rule ok_forget [OF v(1)]) (use v(2) in \<open>simp add: addable_def\<close>)
  then show "usb_ok (collected t ts u)" by (simp add: collected_def)
  show "tracked u = add_mset t (tracked (collected t ts u))" using tr by (simp add: collected_def)
qed

lemma collect_first:
  assumes "usb_ok u" and "u_completed u = t # ts"
  obtains x where "u_heap u (tx_ptr t) = Some x"
  using assms by (auto simp: usb_ok_def tracked_def)

text \<open>A call of \<open>completeTransfer\<close>: it waits, keeping the transfers, and collects at most one.\<close>

lemma collect_transfer_outcome:
  assumes "usb_ok w"
  shows "\<exists>r v. collect_transfer w = Done r v
    \<and> (case r of Transferred k st n \<Rightarrow> \<exists>t ts. u_completed w = t # ts \<and> tx_token t = k \<and> v = collected t ts w
       | Nothing \<Rightarrow> v = w | Blocked \<Rightarrow> False)"
proof (cases "u_completed w")
  case (Cons t ts)
  with collect_first [OF assms] obtain x where "u_heap w (tx_ptr t) = Some x" by blast
  then show ?thesis
    using Cons by (simp add: collect_transfer_def cswp_check_def get_transfer_def libusb_free_transfer_def collected_def)
qed (simp add: collect_transfer_def cswp_check_def)

lemma complete_outcome:
  assumes ok: "usb_ok u" and ev: "waits_ok L evs u"
  shows "\<exists>r v w. completeTransfer L evs u = Done r v \<and> kept L u w
    \<and> (case r of Transferred k st n \<Rightarrow> \<exists>t ts. u_completed w = t # ts \<and> tx_token t = k \<and> v = collected t ts w
       | _ \<Rightarrow> v = w)"
proof (cases "u_completed u = [] \<and> 0 < u_count u")
  case False
  then have "completeTransfer L evs u = collect_transfer u" by (auto simp: completeTransfer_def cswp_check_def)
  then show ?thesis
    using collect_transfer_outcome [OF ok] kept_same [OF ok refl refl] by (fastforce split: usb_result.splits)
next
  case True
  obtain b w where w: "wait_completed L evs u = Done b w" "kept L u w" using wait_completed_keeps [OF ok ev] by blast
  let ?w = "w\<lparr>u_flag := False\<rparr>"
  have ok': "usb_ok ?w" using w(2) by (auto simp: kept_def usb_ok_def)
  have k: "kept L u ?w" using kept_trans [OF w(2) kept_same [OF ok']] by simp
  show ?thesis
  proof (cases b)
    case b: True
    then have "completeTransfer L evs u = collect_transfer ?w"
      using True w(1) by (simp add: completeTransfer_def cswp_check_def)
    then show ?thesis using collect_transfer_outcome [OF ok'] k by (fastforce split: usb_result.splits)
  next
    case False
    then show ?thesis using True w by (auto simp: completeTransfer_def cswp_check_def)
  qed
qed

end
