(* ===== verification/Usb_Transfers.thy ===== *)
theory Usb_Transfers
  imports Usb_Device
begin

text \<open>
  What becomes of a USB transfer. A run is any sequence of calls of the device, with a log of the
  tokens it accepts and gives back; in between, libusb reports transfers it holds. Every transfer is
  accounted for: it has been given back, or the device still tracks it, or libusb refused it when it
  left the queue. Two of these are ways to lose a transfer, and the second theorem is a third: one that
  is queued while another endpoint completes a transfer is filed under that endpoint and never found
  again.
\<close>

datatype usb_log = Accepted c_int | Returned c_int

inductive usb_run :: "libusb \<Rightarrow> usb_dev \<Rightarrow> usb_log list \<Rightarrow> usb_dev \<Rightarrow> bool" for L u0 where
  start: "usb_run L u0 [] u0"
| submit: "usb_run L u0 log u \<Longrightarrow> submitTransfer L address dir len u = Done t v
    \<Longrightarrow> usb_run L u0 (log @ [Accepted (tx_token t)]) v"
| refused: "usb_run L u0 log u \<Longrightarrow> submitTransfer L address dir len u = Fail e v \<Longrightarrow> usb_run L u0 log v"
| event: "usb_run L u0 log u \<Longrightarrow> p \<in> u_active u \<Longrightarrow> libusb_event L (p, st, n) u = Done () v \<Longrightarrow> usb_run L u0 log v"
| collect: "usb_run L u0 log u \<Longrightarrow> waits_ok L evs u \<Longrightarrow> completeTransfer L evs u = Done (Transferred k st n) v
    \<Longrightarrow> usb_run L u0 (log @ [Returned k]) v"
| nothing: "usb_run L u0 log u \<Longrightarrow> waits_ok L evs u \<Longrightarrow> completeTransfer L evs u = Done r v \<Longrightarrow> r \<in> {Nothing, Blocked}
    \<Longrightarrow> usb_run L u0 log v"
| cancel: "usb_run L u0 log u \<Longrightarrow> cancelTransfers u = Done () v \<Longrightarrow> usb_run L u0 log v"

fun accepted :: "usb_log list \<Rightarrow> c_int multiset" where
  "accepted [] = {#}"
| "accepted (Accepted k # log) = add_mset k (accepted log)"
| "accepted (Returned k # log) = accepted log"

fun returned :: "usb_log list \<Rightarrow> c_int multiset" where
  "returned [] = {#}"
| "returned (Returned k # log) = add_mset k (returned log)"
| "returned (Accepted k # log) = returned log"

lemma log_append [simp]:
  "accepted (xs @ ys) = accepted xs + accepted ys" "returned (xs @ ys) = returned xs + returned ys"
  by (induction xs rule: accepted.induct) simp_all

subsection \<open>Accounting\<close>

text \<open>The accounts, with the transfers \<open>D\<close> that were refused.\<close>

definition accounts :: "libusb \<Rightarrow> usb_log list \<Rightarrow> usb_dev \<Rightarrow> bool" where
  "accounts L log u \<longleftrightarrow> usb_ok u \<and> once (accepted log) \<and> (\<forall>k \<in># accepted log. k <s u_nextToken u)
     \<and> (\<exists>D. accepted log = returned log + image_mset tx_token (tracked u + D) \<and> (\<forall>t \<in># D. lu_submit L (tx_ptr t) <s 0))"

lemma accounts_kept:
  assumes "accounts L log u" and "kept L u v"
  shows "accounts L log v"
proof -
  obtain D where D: "accepted log = returned log + image_mset tx_token (tracked u + D)" "\<forall>t \<in># D. lu_submit L (tx_ptr t) <s 0"
    using assms(1) by (auto simp: accounts_def)
  obtain E where E: "tracked u = tracked v + E" "\<forall>t \<in># E. lu_submit L (tx_ptr t) <s 0"
    using assms(2) by (auto simp: kept_def)
  have "accepted log = returned log + image_mset tx_token (tracked v + (E + D))" using D(1) E(1) by (simp add: ac_simps)
  then show ?thesis using assms D(2) E(2) by (auto simp: accounts_def kept_def intro!: exI [of _ "E + D"])
qed

lemma accounts_collected:
  assumes "accounts L log u" and "u_completed u = t # ts"
  shows "accounts L (log @ [Returned (tx_token t)]) (collected t ts u)"
proof -
  have ok: "usb_ok u" using assms(1) by (simp add: accounts_def)
  note c = ok_collected [OF ok assms(2)]
  have "u_nextToken (collected t ts u) = u_nextToken u" by (simp add: collected_def)
  then show ?thesis using assms(1) c by (auto simp: accounts_def)
qed

lemma accounts_submitted:
  assumes "accounts L log u" and "submitTransfer L address dir len u = Done t v"
  shows "accounts L (log @ [Accepted (tx_token t)]) v"
proof -
  have ok: "usb_ok u" using assms(1) by (simp add: accounts_def)
  from submit_outcome [OF ok, of L address dir len] assms(2)
  have v: "usb_ok v" "tracked v = add_mset t (tracked u)" "tx_token t = u_nextToken u" "u_nextToken v = u_nextToken u + 1"
    by simp_all
  have "t \<in># tracked v" using v(2) by simp
  then have "u_nextToken u <s u_nextToken u + 1" using v by (auto simp: usb_ok_def)
  moreover have "k <s u_nextToken u" if "k \<in># accepted log" for k using assms(1) that by (simp add: accounts_def)
  ultimately show ?thesis
    using assms(1) v by (auto simp: accounts_def intro: signed.less_trans)
qed

lemma accounts_refused:
  assumes "accounts L log u" and "submitTransfer L address dir len u = Fail e v"
  shows "accounts L log v"
proof -
  have ok: "usb_ok u" using assms(1) by (simp add: accounts_def)
  from submit_outcome [OF ok, of L address dir len] assms(2)
  have v: "usb_ok v" "tracked v = tracked u" "u_nextToken v = u_nextToken u + 1" by simp_all
  have "u_nextToken u \<noteq> 0x7FFFFFFF" using assms(2) by (auto simp: submitTransfer_def cswp_check_def)
  then have "k <s u_nextToken v" if "k <s u_nextToken u" for k
    using token_incr(2) [of "u_nextToken u" k] ok that v(3) by (simp add: usb_ok_def)
  then show ?thesis using assms(1) v by (auto simp: accounts_def)
qed

lemma accounts_complete:
  assumes "accounts L log u" and "waits_ok L evs u" and "completeTransfer L evs u = Done r v"
  shows "case r of Transferred k st n \<Rightarrow> accounts L (log @ [Returned k]) v | _ \<Rightarrow> accounts L log v"
proof -
  have "usb_ok u" using assms(1) by (simp add: accounts_def)
  from complete_outcome [OF this assms(2)] assms(3) obtain w where w: "kept L u w"
    "case r of Transferred k st n \<Rightarrow> \<exists>t ts. u_completed w = t # ts \<and> tx_token t = k \<and> v = collected t ts w | _ \<Rightarrow> v = w"
    by auto
  from accounts_kept [OF assms(1) w(1)] have "accounts L log w" .
  then show ?thesis using w(2) accounts_collected [of L log w] by (auto split: usb_result.splits)
qed

lemma transfers_accounts:
  assumes "usb_run L u0 log u" and "usb_ok u0" and "tracked u0 = {#}"
  shows "accounts L log u"
  using assms(1)
proof (induction rule: usb_run.induct)
  case start
  then show ?case using assms(2,3) by (auto simp: accounts_def)
next
  case (submit log u address dir len t v)
  then show ?case by (rule_tac accounts_submitted)
next
  case (refused log u address dir len e v)
  then show ?case by (rule_tac accounts_refused)
next
  case (event log u p st n v)
  then have "usb_ok u" by (simp add: accounts_def)
  from libusb_event_keeps [OF this event.hyps(2), of L st n] event.hyps(3) have "kept L u v" by auto
  then show ?case using event.IH accounts_kept by blast
next
  case (collect log u evs k st n v)
  then show ?case using accounts_complete [OF collect.IH collect.hyps(2,3)] by simp
next
  case (nothing log u evs r v)
  then show ?case using accounts_complete [OF nothing.IH nothing.hyps(2,3)] by auto
next
  case (cancel log u v)
  then have "usb_ok u" by (simp add: accounts_def)
  from cancel_keeps [OF this] cancel.hyps(2) have "kept L u v" by (auto intro: kept_same)
  then show ?case using cancel.IH accounts_kept by blast
qed

text \<open>C12: Every transfer a USB device accepts is accounted for: it has been given back once, or it is still
  with the device, or libusb refused it when it was taken from the queue. Tokens are never given out
  twice, and the counter and the limit of the transfers in flight are right at every moment.\<close>

theorem usb_transfers_accounted:
  assumes "usb_run L (usb_init eps) log u"
  shows "usb_ok u \<and> once (accepted log)
    \<and> (\<exists>D. accepted log = returned log + image_mset tx_token (tracked u + D) \<and> (\<forall>t \<in># D. lu_submit L (tx_ptr t) <s 0))"
  using transfers_accounts [OF assms usb_init_ok] by (simp add: accounts_def)

definition calm :: libusb where
  "calm = \<lparr>lu_alloc = (\<lambda>_. True), lu_submit = (\<lambda>_. 0)\<rparr>"

definition bulk_in :: ep_info where
  "bulk_in = \<lparr>ep_kind = EP_TYPE_BULK, ep_addr = 0x81\<rparr>"

theorem usb_transfers_accounted_witness:
  "\<exists>u. usb_run calm (usb_init [bulk_in]) [Accepted 0] u \<and> image_mset tx_token (tracked u) = {#0#}"
proof -
  let ?t = "\<lparr>tx_token = 0, tx_ptr = 0\<rparr>"
  have "\<exists>v. submitTransfer calm 0x81 EP_DIR_IN 64 (usb_init [bulk_in]) = Done ?t v"
    by (simp add: submitTransfer_def createTransfer_def libusb_alloc_transfer_def libusb_submit_transfer_def push_transfer_def
        cswp_check_def usb_init_def bulk_in_def calm_def find_ep_def MAX_URB_SIZE_def EP_DIR_MASK_def MAX_IN_FLIGHT_def)
  then obtain v where v: "submitTransfer calm 0x81 EP_DIR_IN 64 (usb_init [bulk_in]) = Done ?t v" by blast
  have run: "usb_run calm (usb_init [bulk_in]) [Accepted 0] v"
    using usb_run.submit [OF usb_run.start v] by simp
  from usb_transfers_accounted [OF run] obtain D where "{#0#} = image_mset tx_token (tracked v + D)"
      "\<forall>t \<in># D. lu_submit calm (tx_ptr t) <s 0" by auto
  moreover from this(2) have "D = {#}" by (cases D) (auto simp: calm_def)
  ultimately show ?thesis using run by auto
qed

subsection \<open>Transfers that are never found again\<close>

text \<open>A transfer in a list in flight that libusb does not hold.\<close>

definition stuck :: "byte \<Rightarrow> usb_transfer \<Rightarrow> usb_dev \<Rightarrow> bool" where
  "stuck e t u \<longleftrightarrow> usb_ok u \<and> t \<in> set (u_inFlight u e) \<and> tx_ptr t \<notin> u_active u"

lemma in_flight_tracked: "t \<in> set (u_inFlight u e) \<Longrightarrow> t \<in># flying u"
  using flying_part [of u e] by (meson in_multiset_in_set mset_subset_eqD)

lemma once_image_inj:
  assumes "once (image_mset f (M + N))" and "x \<in># M" and "y \<in># N" shows "f x \<noteq> f y"
proof
  assume eq: "f x = f y"
  obtain M' where M: "M = add_mset x M'" using assms(2) by (meson multi_member_split)
  obtain N' where N: "N = add_mset y N'" using assms(3) by (meson multi_member_split)
  show False using assms(1) unfolding M N by (simp add: eq)
qed

lemma stuck_queued:
  assumes "stuck e t u" and "q \<in> set (u_queued u) \<union> set (u_completed u)"
  shows "tx_ptr q \<noteq> tx_ptr t" and "tx_token q \<noteq> tx_token t"
proof -
  have t: "t \<in># flying u" using assms(1) in_flight_tracked by (auto simp: stuck_def)
  have q: "q \<in># mset (u_queued u) + mset (u_completed u)" using assms(2) by auto
  have "once (image_mset tx_ptr (mset (u_queued u) + mset (u_completed u) + flying u))"
      "once (image_mset tx_token (mset (u_queued u) + mset (u_completed u) + flying u))"
    using assms(1) by (simp_all add: stuck_def usb_ok_def tracked_def)
  from once_image_inj [OF this(1) q t] once_image_inj [OF this(2) q t]
  show "tx_ptr q \<noteq> tx_ptr t" "tx_token q \<noteq> tx_token t" .
qed

text \<open>An operation that takes nothing out of the lists but what libusb reports, and hands libusb only new
  or queued transfers.\<close>

lemma submit_grows:
  assumes "case submitTransfer L address dir len u of Done _ v' \<Rightarrow> v' = v | Fail _ v' \<Rightarrow> v' = v | Undef _ \<Rightarrow> False"
  shows "set (u_inFlight u e) \<subseteq> set (u_inFlight v e)" and "u_active v \<subseteq> insert (u_fresh u) (u_active u)"
  using assms
  by (auto simp: submitTransfer_def createTransfer_def libusb_alloc_transfer_def libusb_submit_transfer_def
      libusb_free_transfer_def push_transfer_def cswp_check_def split: if_splits option.splits outcome.splits)

lemma resubmit_grows:
  "resubmit L e q u = Done () v \<Longrightarrow> set (u_inFlight u e') \<subseteq> set (u_inFlight v e')
     \<and> u_active v \<subseteq> u_active u \<union> tx_ptr ` set q \<and> u_active u \<subseteq> u_active v
     \<and> (\<forall>p. p \<notin> tx_ptr ` set q \<longrightarrow> u_heap v p = u_heap u p)"
proof (induction q arbitrary: u)
  case (Cons t q)
  consider "\<not> length (u_inFlight u e) < MAX_IN_FLIGHT" | "length (u_inFlight u e) < MAX_IN_FLIGHT" "lu_submit L (tx_ptr t) <s 0"
    | "length (u_inFlight u e) < MAX_IN_FLIGHT" "\<not> lu_submit L (tx_ptr t) <s 0" by blast
  then show ?case
  proof cases
    case 1
    then have "v = u" using Cons.prems by (simp add: cswp_check_def)
    then show ?thesis by auto
  next
    case 2
    then have "v = u\<lparr>u_queued := q, u_heap := (u_heap u)(tx_ptr t := None)\<rparr>"
      using Cons.prems by (simp add: cswp_check_def libusb_submit_transfer_def libusb_free_transfer_def)
    then show ?thesis by auto
  next
    case 3
    then have "resubmit L e q (pushed e t (u\<lparr>u_queued := q\<rparr>)) = Done () v"
      using Cons.prems by (simp add: cswp_check_def libusb_submit_transfer_def push_transfer_def pushed_def)
    from Cons.IH [OF this] show ?thesis by (auto simp: pushed_def split: if_splits)
  qed
qed simp

lemma finished_keeps:
  assumes "t \<in> set (u_inFlight u e)" and "t \<noteq> s"
  shows "t \<in> set (u_inFlight (finished e' s u) e)"
  using assms by (cases "e = e'") (simp_all add: finished_def)

lemma stuck_event:
  assumes "stuck e t u" and p: "p \<in> u_active u" and ev: "libusb_event L (p, st, n) u = Done () v"
  shows "stuck e t v"
proof -
  have ok: "usb_ok u" using assms(1) by (simp add: stuck_def)
  have okv: "usb_ok v" using libusb_event_keeps [OF ok p, of L st n] ev by (auto simp: kept_def)
  have "p \<in> tx_ptr ` set_mset (tracked u)" using ok p by (auto simp: usb_ok_def tracked_def)
  then obtain x where x: "u_heap u p = Some x" using ok by (auto simp: usb_ok_def)
  let ?u = "u\<lparr>u_heap := (u_heap u)(p \<mapsto> x\<lparr>x_status := st, x_actual := n\<rparr>), u_active := u_active u - {p}\<rparr>"
  let ?f = "find (\<lambda>t. tx_ptr t = p) (rev (u_inFlight u (x_endpoint x)))"
  let ?w = "case ?f of None \<Rightarrow> ?u | Some s \<Rightarrow> finished (x_endpoint x) s ?u"
  have run: "resubmit L (x_endpoint x) (u_queued u) ?w = Done () v"
    using ev x transfer_complete_eq [of ?u p "x\<lparr>x_status := st, x_actual := n\<rparr>" L]
    by (auto simp: libusb_event_def get_transfer_def cswp_check_def split: option.splits)
  have ne: "tx_ptr t \<noteq> p" using assms(1) p by (auto simp: stuck_def)
  have w: "t \<in> set (u_inFlight ?w e) \<and> u_active ?w \<subseteq> u_active u"
  proof (cases ?f)
    case None
    then show ?thesis using assms(1) by (auto simp: stuck_def)
  next
    case (Some s)
    then have "tx_ptr s = p" by (auto simp: find_Some_iff)
    then have "t \<noteq> s" using ne by auto
    then show ?thesis
      using Some assms(1) finished_keeps [of t ?u e s "x_endpoint x"] by (auto simp: stuck_def finished_def [of _ _ ?u])
  qed
  have "tx_ptr t \<notin> tx_ptr ` set (u_queued u)" using stuck_queued(1) [OF assms(1)] by force
  then show ?thesis using resubmit_grows [OF run, of e] w assms(1) okv by (auto simp: stuck_def)
qed

lemma stuck_events:
  "stuck e t u \<Longrightarrow> events_ok L evs u \<Longrightarrow> libusb_events L evs u = Done () v \<Longrightarrow> stuck e t v"
proof (induction evs arbitrary: u)
  case (Cons ev evs)
  obtain p st n where ev: "ev = (p, st, n)" by (cases ev)
  have ok: "usb_ok u" using Cons.prems(1) by (simp add: stuck_def)
  have p: "p \<in> u_active u" using Cons.prems(2) ev by simp
  obtain w where w: "libusb_event L ev u = Done () w" using libusb_event_keeps [OF ok p, of L st n] ev by auto
  then have "libusb_events L evs w = Done () v" "events_ok L evs w" using Cons.prems by simp_all
  then show ?case using Cons.IH stuck_event [OF Cons.prems(1) p] w ev by blast
qed simp

lemma stuck_wait:
  "stuck e t u \<Longrightarrow> waits_ok L evs u \<Longrightarrow> wait_completed L evs u = Done b v \<Longrightarrow> stuck e t v"
proof (induction evs arbitrary: u)
  case Nil
  then show ?case by (simp add: gets_def)
next
  case (Cons evs rest)
  show ?case
  proof (cases "u_flag u")
    case True
    then show ?thesis using Cons.prems by (simp add: cswp_check_def)
  next
    case False
    have ok: "usb_ok u" using Cons.prems(1) by (simp add: stuck_def)
    obtain w where w: "libusb_events L evs u = Done () w" using libusb_events_keep [OF ok, of L evs] Cons.prems(2) False by auto
    then have "wait_completed L rest w = Done b v" "waits_ok L rest w" using Cons.prems False by (simp_all add: cswp_check_def)
    then show ?thesis using Cons.IH stuck_events [OF Cons.prems(1) _ w] Cons.prems(2) False by simp
  qed
qed


lemma complete_cases:
  assumes "completeTransfer L evs u = Done r v"
  obtains w where "collect_transfer w = Done r v \<or> r = Blocked \<and> v = w"
    and "w = u \<or> (\<exists>b. wait_completed L evs u = Done b w) \<or> (\<exists>b w'. wait_completed L evs u = Done b w' \<and> w = w'\<lparr>u_flag := False\<rparr>)"
  using assms by (auto simp: completeTransfer_def cswp_check_def split: if_splits outcome.splits)

lemma stuck_complete:
  assumes "stuck e t u" and "waits_ok L evs u" and "completeTransfer L evs u = Done r v"
  shows "stuck e t v \<and> (case r of Transferred k st n \<Rightarrow> k \<noteq> tx_token t | _ \<Rightarrow> True)"
proof -
  from assms(3) obtain w where w: "collect_transfer w = Done r v \<or> r = Blocked \<and> v = w"
    "w = u \<or> (\<exists>b. wait_completed L evs u = Done b w) \<or> (\<exists>b w'. wait_completed L evs u = Done b w' \<and> w = w'\<lparr>u_flag := False\<rparr>)"
    by (rule complete_cases)
  have "stuck e t w"
    using w(2) assms(1) stuck_wait [OF assms(1,2)] by (auto simp: stuck_def usb_ok_def)
  then have s: "usb_ok w" "stuck e t w" by (simp_all add: stuck_def)
  show ?thesis
  proof (cases "collect_transfer w = Done r v")
    case False
    then show ?thesis using w(1) s by simp
  next
    case True
    from collect_transfer_outcome [OF s(1)] True
    have out: "case r of Transferred k st n \<Rightarrow> \<exists>t ts. u_completed w = t # ts \<and> tx_token t = k \<and> v = collected t ts w
       | Nothing \<Rightarrow> v = w | Blocked \<Rightarrow> False" by auto
    show ?thesis
    proof (cases r)
      case (Transferred k st n)
      then obtain t' ts where t': "u_completed w = t' # ts" "tx_token t' = k" "v = collected t' ts w" using out by auto
      have "usb_ok v" using ok_collected [OF s(1) t'(1)] t'(3) by simp
      moreover have "k \<noteq> tx_token t" using stuck_queued(2) [OF s(2), of t'] t' by auto
      ultimately show ?thesis using s(2) t'(3) Transferred by (simp add: stuck_def collected_def)
    qed (use out s in auto)
  qed
qed

lemma stuck_for_ever:
  assumes "usb_run L u0 log u" and "stuck e t u0"
  shows "stuck e t u \<and> Returned (tx_token t) \<notin> set log"
  using assms(1)
proof (induction rule: usb_run.induct)
  case start
  then show ?case using assms(2) by simp
next
  case (submit log u address dir len t' v)
  then have "usb_ok u" by (simp add: stuck_def)
  from submit_outcome [OF this, of L address dir len] submit.hyps(2) have v: "usb_ok v" by simp
  have "t \<in># tracked u" using submit.IH in_flight_tracked by (auto simp: stuck_def tracked_def)
  then have "tx_ptr t < u_fresh u" using \<open>usb_ok u\<close> by (auto simp: usb_ok_def)
  then show ?case
    using submit_grows [of v L address dir len u] submit v by (auto simp: stuck_def)
next
  case (refused log u address dir len e' v)
  then have "usb_ok u" by (simp add: stuck_def)
  from submit_outcome [OF this, of L address dir len] refused.hyps(2) have v: "usb_ok v" by simp
  have "t \<in># tracked u" using refused.IH in_flight_tracked by (auto simp: stuck_def tracked_def)
  then have "tx_ptr t < u_fresh u" using \<open>usb_ok u\<close> by (auto simp: usb_ok_def)
  then show ?case
    using submit_grows [of v L address dir len u] refused v by (auto simp: stuck_def)
next
  case (event log u p st n v)
  then show ?case using stuck_event by blast
next
  case (collect log u evs k st n v)
  then show ?case using stuck_complete [of e t u L evs "Transferred k st n" v] by auto
next
  case (nothing log u evs r v)
  then show ?case using stuck_complete [of e t u L evs r v] by auto
next
  case (cancel log u v)
  then have "usb_ok u" by (simp add: stuck_def)
  from cancel_keeps [OF this] cancel show ?case by (auto simp: stuck_def)
qed


lemma other_list:
  assumes "usb_ok u" and "t \<in> set (u_inFlight u e)" and "e \<noteq> e'"
  shows "find (\<lambda>s. tx_ptr s = tx_ptr t) (rev (u_inFlight u e')) = None"
proof -
  have "tx_ptr s \<noteq> tx_ptr t" if "s \<in> set (u_inFlight u e')" for s
  proof -
    have fl: "flying u = mset (u_inFlight u e) + (\<Sum>e\<in>UNIV - {e}. mset (u_inFlight u e))"
      by (simp add: flying_def sum.remove [of UNIV e])
    have "mset (u_inFlight u e') \<subseteq># (\<Sum>e\<in>UNIV - {e}. mset (u_inFlight u e))"
      using assms(3) by (simp add: sum.remove [of "UNIV - {e}" e'])
    then have s: "s \<in># (\<Sum>e\<in>UNIV - {e}. mset (u_inFlight u e))" using that by (meson in_multiset_in_set mset_subset_eqD)
    have "once (image_mset tx_ptr (flying u))"
      using assms(1) by (auto simp: usb_ok_def tracked_def intro: once_subset)
    then have "once (image_mset tx_ptr (mset (u_inFlight u e) + (\<Sum>e\<in>UNIV - {e}. mset (u_inFlight u e))))"
      by (simp only: fl)
    from once_image_inj [OF this _ s, of t] show ?thesis using assms(2) by auto
  qed
  then show ?thesis by (simp add: find_None_iff)
qed

text \<open>A transfer that is filed under the wrong endpoint is stuck once libusb has reported it.\<close>

lemma misfiled_stuck:
  assumes "usb_ok u" and "t \<in> set (u_inFlight u e)" and "tx_ptr t \<in> u_active u"
    and x: "u_heap u (tx_ptr t) = Some x" and "x_endpoint x \<noteq> e"
    and ev: "libusb_event L (tx_ptr t, st, n) u = Done () v"
  shows "stuck e t v"
proof -
  have okv: "usb_ok v" using libusb_event_keeps [OF assms(1,3), of L st n] ev by (auto simp: kept_def)
  let ?u = "u\<lparr>u_heap := (u_heap u)(tx_ptr t \<mapsto> x\<lparr>x_status := st, x_actual := n\<rparr>), u_active := u_active u - {tx_ptr t}\<rparr>"
  have "find (\<lambda>s. tx_ptr s = tx_ptr t) (rev (u_inFlight u (x_endpoint x))) = None"
    by (rule other_list [OF assms(1,2)]) (use assms(5) in simp)
  then have run: "resubmit L (x_endpoint x) (u_queued u) ?u = Done () v"
    using ev x transfer_complete_eq [of ?u "tx_ptr t" "x\<lparr>x_status := st, x_actual := n\<rparr>" L]
    by (simp add: libusb_event_def get_transfer_def cswp_check_def)
  have "once (image_mset tx_ptr (mset (u_queued u) + mset (u_completed u) + flying u))"
    using assms(1) by (simp add: usb_ok_def tracked_def)
  from once_image_inj [OF this _ in_flight_tracked [OF assms(2)]]
  have "tx_ptr t \<notin> tx_ptr ` set (u_queued u)" by force
  then show ?thesis using resubmit_grows [OF run, of e] assms(2) okv by (auto simp: stuck_def)
qed

text \<open>C22: A queued transfer is lost when a transfer on another endpoint completes first. It is handed to
  libusb but filed under that endpoint; when libusb reports it, it is looked for under its own, and not
  found. From then on it counts as in flight, libusb does not hold it any more, and no call ever
  returns its token.\<close>

theorem queued_transfer_lost:
  assumes ok: "usb_ok u" and q: "u_queued u = t # q"
    and "s \<in> set (u_inFlight u e)" and "tx_ptr s \<in> u_active u"
    and "u_heap u (tx_ptr s) = Some y" and "x_endpoint y = e"
    and "u_heap u (tx_ptr t) = Some x" and "x_endpoint x \<noteq> e" and "\<not> lu_submit L (tx_ptr t) <s 0"
    and ev: "libusb_events L [(tx_ptr s, st, n), (tx_ptr t, st', n')] u = Done () v"
    and run: "usb_run L v log w"
  shows "t \<in> set (u_inFlight w e) \<and> tx_ptr t \<notin> u_active w \<and> 0 < u_count w \<and> Returned (tx_token t) \<notin> set log"
proof -
  obtain u1 where u1: "libusb_event L (tx_ptr s, st, n) u = Done () u1" "kept L u u1"
    using libusb_event_keeps [OF ok assms(4), of L st n] by blast
  have ev2: "libusb_event L (tx_ptr t, st', n') u1 = Done () v"
    using ev u1(1) by (auto simp: cswp_check_def split: outcome.splits)
  have s: "s \<in># tracked u" using assms(3) in_flight_tracked by (auto simp: tracked_def)
  have inj: "s' = s" if "s' \<in># flying u" "tx_ptr s' = tx_ptr s" for s'
  proof (rule ccontr)
    assume "s' \<noteq> s"
    obtain M where M: "flying u = add_mset s M" using in_flight_tracked [OF assms(3)] by (meson multi_member_split)
    then have "s' \<in># M" using that(1) \<open>s' \<noteq> s\<close> by simp
    moreover have "once (image_mset tx_ptr (flying u))" using ok by (auto simp: usb_ok_def tracked_def intro: once_subset)
    ultimately show False using M that(2) image_eqI [of "tx_ptr s" tx_ptr s' "set_mset M"] by auto
  qed
  let ?u = "u\<lparr>u_heap := (u_heap u)(tx_ptr s \<mapsto> y\<lparr>x_status := st, x_actual := n\<rparr>), u_active := u_active u - {tx_ptr s}\<rparr>"
  have "find (\<lambda>t. tx_ptr t = tx_ptr s) (rev (u_inFlight u e)) \<noteq> None"
    using assms(3) by (auto simp: find_None_iff)
  then obtain s' where f: "find (\<lambda>t. tx_ptr t = tx_ptr s) (rev (u_inFlight u e)) = Some s'" by blast
  then have s': "s' \<in> set (u_inFlight u e)" "tx_ptr s' = tx_ptr s"
    by (auto simp: find_Some_iff) (metis length_rev nth_mem set_rev)
  then have "s' = s" using inj in_flight_tracked by blast
  then have run1: "resubmit L e (t # q) (finished e s ?u) = Done () u1"
    using u1(1) assms(5,6) q f transfer_complete_eq [of ?u "tx_ptr s" "y\<lparr>x_status := st, x_actual := n\<rparr>" L]
    by (simp add: libusb_event_def get_transfer_def cswp_check_def)
  let ?p = "pushed e t ((finished e s ?u)\<lparr>u_queued := q\<rparr>)"
  have "0 < length (u_inFlight u e)" using assms(3) by (cases "u_inFlight u e") simp_all
  moreover have "length (u_inFlight u e) \<le> MAX_IN_FLIGHT" using ok by (simp add: usb_ok_def)
  moreover have "length (u_inFlight (finished e s ?u) e) = length (u_inFlight u e) - 1"
    using assms(3) by (simp add: finished_def length_remove1)
  ultimately have "length (u_inFlight (finished e s ?u) e) < MAX_IN_FLIGHT" by linarith
  then have run2: "resubmit L e q ?p = Done () u1"
    using run1 assms(9) by (simp add: cswp_check_def libusb_submit_transfer_def push_transfer_def pushed_def)
  note g = resubmit_grows [OF run2, of e]
  have t: "t \<in> set (u_inFlight u1 e)" "tx_ptr t \<in> u_active u1" using g by (auto simp: pushed_def)
  have ptrs: "once (image_mset tx_ptr (mset (u_queued u) + mset (u_completed u) + flying u))"
    using ok by (simp add: usb_ok_def tracked_def)
  have "once (image_mset tx_ptr (mset (t # q)))" by (rule once_subset [OF ptrs]) (simp add: q)
  then have tq: "tx_ptr t \<notin> tx_ptr ` set q" by auto
  have ts: "tx_ptr t \<noteq> tx_ptr s" using once_image_inj [OF ptrs _ in_flight_tracked [OF assms(3)], of t] q by auto
  have "u_heap u1 (tx_ptr t) = u_heap ?p (tx_ptr t)" using g tq by auto
  also have "\<dots> = Some x" using ts assms(7) by (simp add: pushed_def finished_def)
  finally have x: "u_heap u1 (tx_ptr t) = Some x" .
  have "usb_ok u1" using u1(2) by (simp add: kept_def)
  from misfiled_stuck [OF this t x assms(8) ev2] have "stuck e t v" .
  from stuck_for_ever [OF run this] have w: "stuck e t w" "Returned (tx_token t) \<notin> set log" by blast+
  then have "0 < size (flying w)" using in_flight_tracked [of t w e]
    by (auto simp: stuck_def nonempty_has_size [symmetric])
  then have "0 < u_count w" using w(1) by (auto simp: stuck_def usb_ok_def word_less_nat_alt)
  then show ?thesis using w by (simp add: stuck_def)
qed


definition two_endpoints :: usb_dev where
  "two_endpoints = \<lparr>u_info = [bulk_in, \<lparr>ep_kind = EP_TYPE_INTERRUPT, ep_addr = 0x82\<rparr>], u_nextToken = 2,
     u_queued = [\<lparr>tx_token = 1, tx_ptr = 1\<rparr>], u_inFlight = (\<lambda>_. [])(0x82 := [\<lparr>tx_token = 0, tx_ptr = 0\<rparr>]), u_count = 1,
     u_completed = [], u_flag = False,
     u_heap = (\<lambda>_. None)(0 \<mapsto> \<lparr>x_kind = EP_TYPE_INTERRUPT, x_endpoint = 0x82, x_length = 8, x_status = 0, x_actual = 0\<rparr>,
       1 \<mapsto> \<lparr>x_kind = EP_TYPE_BULK, x_endpoint = 0x81, x_length = 64, x_status = 0, x_actual = 0\<rparr>),
     u_fresh = 2, u_active = {0}\<rparr>"

lemma flying_single: "flying (u\<lparr>u_inFlight := (\<lambda>_. [])(e := l)\<rparr>) = mset l"
  using sum_list_upd [of "\<lambda>_. []" e l] by (simp add: flying_def)

theorem queued_transfer_lost_witness:
  "\<exists>v. libusb_events calm [(0, 0, 8), (1, 0, 64)] two_endpoints = Done () v \<and> u_count v = 1
    \<and> (\<forall>log w. usb_run calm v log w \<longrightarrow> Returned 1 \<notin> set log)"
proof -
  let ?s = "\<lparr>tx_token = 0, tx_ptr = 0\<rparr>" and ?t = "\<lparr>tx_token = 1, tx_ptr = 1\<rparr>"
  have fl: "flying two_endpoints = {#?s#}"
    using flying_single [where u = two_endpoints and e = "0x82" and l = "[?s]"] by (simp add: two_endpoints_def)
  then have ok: "usb_ok two_endpoints"
    by (simp add: usb_ok_def tracked_def) (simp add: two_endpoints_def MAX_IN_FLIGHT_def word_sle_eq word_sless_alt)
  have "\<exists>v. libusb_events calm [(0, 0, 8), (1, 0, 64)] two_endpoints = Done () v \<and> u_count v = 1"
    by (simp add: libusb_event_def get_transfer_def cswp_check_def transfer_complete_def two_endpoints_def calm_def Let_def
        libusb_submit_transfer_def push_transfer_def MAX_IN_FLIGHT_def)
  then obtain v where v: "libusb_events calm [(0, 0, 8), (1, 0, 64)] two_endpoints = Done () v" "u_count v = 1" by blast
  have "Returned 1 \<notin> set log" if "usb_run calm v log w" for log w
    using queued_transfer_lost [where L = calm and u = two_endpoints and t = ?t and q = "[]" and s = ?s and e = "0x82",
        OF ok _ _ _ _ _ _ _ _ _ that] v(1)
    by (simp add: two_endpoints_def calm_def)
  with v show ?thesis by blast
qed

end
