(* ===== verification/Usb_Connect.thy ===== *)
theory Usb_Connect
  imports Usb_Device
begin

text \<open>
  Finding, opening and closing a USB device, the rest of \<^verbatim>\<open>usb_client/usb_device_linux.cpp\<close>. What is on the
  bus, and what libusb answers, is a parameter; the state holds the handles that are open, so that a
  handle that is not closed can be seen.
\<close>

subsection \<open>The bus\<close>

record alt_setting =
  as_number :: c_int
  as_endpoints :: "(byte \<times> byte) list"   \<comment> \<open>address and attributes\<close>

type_synonym usb_config = "alt_setting list list"

text \<open>A device: vendor and product from its descriptor, its configuration, whether it can be opened, and
  the answers to the two requests for its serial number. \<open>None\<close> is an error.\<close>

record bus_device =
  bd_ids :: "(c_int \<times> c_int) option"
  bd_config :: "usb_config option"
  bd_opens :: bool
  bd_languages :: "c_int \<times> byte list"
  bd_serial :: "c_int \<times> byte list"

record usb_answers =
  an_init :: c_int
  an_devices :: "bus_device list option"
  an_claim :: c_int
  an_alt :: c_int
  an_clear :: "c_int \<Rightarrow> c_int"

record usb_ident =
  vendorID :: c_int
  productID :: c_int
  interfaceNumber :: c_int
  serialNumber :: "byte list"

text \<open>The connection: libusb is initialised, the handles that are open (by the position of their device on
  the bus), the one in use, and the endpoints.\<close>

record usb_conn =
  k_context :: bool
  k_handles :: "nat list"
  k_dev :: "nat option"
  k_info :: "ep_info list"

subsection \<open>Strings\<close>

text \<open>A string descriptor: the length of the data in the first byte, then 16-bit characters, of which the low
  byte is kept. The buffer has 256 bytes and starts as zeros. A descriptor that says it has no bytes gives
  a length of almost \<open>2\<^sup>6\<^sup>4\<close>, which \<open>resize\<close> refuses with an exception.\<close>

definition descriptor_text :: "byte list \<Rightarrow> byte list option" where
  "descriptor_text buf =
     (if buf ! 0 = 0 then None
      else Some (map (\<lambda>i. buf ! (2 + 2 * i)) [0..<(unat (buf ! 0) - 2) div 2]))"

definition received_in :: "byte list \<Rightarrow> byte list \<Rightarrow> byte list" where
  "received_in bs buf = take 256 bs @ drop (length (take 256 bs)) buf"

definition getUsbString :: "bus_device \<Rightarrow> (usb_conn, byte list option) prog" where
  "getUsbString d =
     (if fst (bd_languages d) <s 0 then ret None
      else if fst (bd_serial d) <s 0 \<or> fst (bd_serial d) = 0 then ret None
      else (case descriptor_text (received_in (snd (bd_serial d)) (received_in (snd (bd_languages d)) (replicate 256 0))) of
          None \<Rightarrow> fail USBException
        | Some s \<Rightarrow> ret (Some s)))"

subsection \<open>Finding a device\<close>

definition libusb_close :: "nat \<Rightarrow> (usb_conn, unit) prog" where
  "libusb_close h = modify (\<lambda>k. k\<lparr>k_handles := remove1 h (k_handles k)\<rparr>)"

text \<open>The device is opened, and closed again if its serial number is not the one wanted.\<close>

definition try_open :: "byte list \<Rightarrow> nat \<Rightarrow> bus_device \<Rightarrow> (usb_conn, nat option) prog" where
  "try_open serial i d =
     (if bd_opens d then
        cswp_check (modify (\<lambda>k. k\<lparr>k_handles := i # k_handles k\<rparr>)) (\<lambda>_.
        cswp_check
          (if serial = [] then ret True
           else cswp_check (getUsbString d) (\<lambda>s. ret (s = Some serial))) (\<lambda>found.
        if found then ret (Some i) else cswp_check (libusb_close i) (\<lambda>_. ret None)))
      else ret None)"

text \<open>Each interface is looked at once, at the first of its settings with the number.\<close>

primrec probe_interfaces :: "usb_ident \<Rightarrow> nat \<Rightarrow> bus_device \<Rightarrow> usb_config \<Rightarrow> (usb_conn, nat option) prog" where
  "probe_interfaces ident i d [] = ret None"
| "probe_interfaces ident i d (alts # ifs) =
     (if interfaceNumber ident \<in> set (map as_number alts) then
        cswp_check (try_open (serialNumber ident) i d) (\<lambda>h. case h of
            Some h \<Rightarrow> ret (Some h)
          | None \<Rightarrow> probe_interfaces ident i d ifs)
      else probe_interfaces ident i d ifs)"

primrec probe_devices :: "usb_ident \<Rightarrow> nat \<Rightarrow> bus_device list \<Rightarrow> (usb_conn, nat option) prog" where
  "probe_devices ident i [] = ret None"
| "probe_devices ident i (d # ds) =
     (if bd_ids d = Some (vendorID ident, productID ident) \<and> bd_config d \<noteq> None then
        cswp_check (probe_interfaces ident i d (the (bd_config d))) (\<lambda>h. case h of
            Some h \<Rightarrow> ret (Some h)
          | None \<Rightarrow> probe_devices ident (Suc i) ds)
      else probe_devices ident (Suc i) ds)"

text \<open>When the list of devices cannot be had, the pointer to it is freed without having been set.\<close>

definition findAndOpenDeviceBySerialNumber :: "usb_ident \<Rightarrow> usb_answers \<Rightarrow> (usb_conn, nat option) prog" where
  "findAndOpenDeviceBySerialNumber ident a =
     cswp_check (gets k_context) (\<lambda>c.
     if \<not> c then ret None
     else (case an_devices a of
         None \<Rightarrow> undef UninitRead
       | Some ds \<Rightarrow> probe_devices ident 0 ds))"

subsection \<open>Connecting\<close>

definition ep_type_of :: "byte \<Rightarrow> ep_type" where
  "ep_type_of attributes = (let t = attributes AND 3 in
     if t = 0 then EP_TYPE_CONTROL else if t = 1 then EP_TYPE_ISOCHRONOUS else if t = 2 then EP_TYPE_BULK else EP_TYPE_INTERRUPT)"

text \<open>The endpoints of the first interface with the number, in its setting \<open>0\<close>.\<close>

primrec interface_endpoints :: "c_int \<Rightarrow> usb_config \<Rightarrow> (usb_conn, ep_info list) prog" where
  "interface_endpoints n [] = ret []"
| "interface_endpoints n (alts # ifs) =
     cswp_check (nth_c alts 0) (\<lambda>s.
     if as_number s = n then ret (map (\<lambda>(e, attributes). \<lparr>ep_kind = ep_type_of attributes, ep_addr = ucast e\<rparr>) (as_endpoints s))
     else interface_endpoints n ifs)"

definition examineEndpoints :: "usb_ident \<Rightarrow> usb_config option \<Rightarrow> (usb_conn, unit) prog" where
  "examineEndpoints ident config =
     cswp_check (modify (\<lambda>k. k\<lparr>k_info := []\<rparr>)) (\<lambda>_. case config of
         None \<Rightarrow> fail USBException
       | Some ifs \<Rightarrow> cswp_check (interface_endpoints (interfaceNumber ident) ifs) (\<lambda>eps. modify (\<lambda>k. k\<lparr>k_info := eps\<rparr>)))"

definition doDisconnect :: "(usb_conn, unit) prog" where
  "doDisconnect =
     cswp_check (gets k_dev) (\<lambda>d.
     cswp_check (case d of
         None \<Rightarrow> ret ()
       | Some h \<Rightarrow> cswp_check (libusb_close h) (\<lambda>_. modify (\<lambda>k. k\<lparr>k_dev := None\<rparr>))) (\<lambda>_.
     modify (\<lambda>k. k\<lparr>k_context := False\<rparr>)))"

text \<open>Only bulk endpoints are reset: the test names them twice.\<close>

primrec clear_endpoints :: "usb_answers \<Rightarrow> ep_info list \<Rightarrow> (usb_conn, unit) prog" where
  "clear_endpoints a [] = ret ()"
| "clear_endpoints a (e # es) =
     (if ep_kind e = EP_TYPE_BULK \<or> ep_kind e = EP_TYPE_BULK
      then if an_clear a (ep_addr e) <s 0 then fail USBException else clear_endpoints a es
      else clear_endpoints a es)"

definition usb_connect :: "usb_ident \<Rightarrow> usb_answers \<Rightarrow> (usb_conn, unit) prog" where
  "usb_connect ident a =
     cswp_check (gets k_context) (\<lambda>c.
     cswp_check
       (if c then ret ()
        else if an_init a \<noteq> 0 then fail USBException else modify (\<lambda>k. k\<lparr>k_context := True\<rparr>)) (\<lambda>_.
     cswp_check (findAndOpenDeviceBySerialNumber ident a) (\<lambda>d.
     cswp_check (modify (\<lambda>k. k\<lparr>k_dev := d\<rparr>)) (\<lambda>_. case d of
         None \<Rightarrow> cswp_check doDisconnect (\<lambda>_. fail USBException)
       | Some h \<Rightarrow>
           if an_claim a <s 0 then fail USBException
           else if an_alt a <s 0 then fail USBException
           else
             cswp_check (case an_devices a of None \<Rightarrow> undef UninitRead | Some ds \<Rightarrow> nth_c ds h) (\<lambda>dev.
             cswp_check (examineEndpoints ident (bd_config dev)) (\<lambda>_.
             cswp_check (gets k_info) (clear_endpoints a)))))))"

definition usb_disconnect :: "(usb_conn, unit) prog" where
  "usb_disconnect = doDisconnect"

definition no_conn :: usb_conn where
  "no_conn = \<lparr>k_context = False, k_handles = [], k_dev = None, k_info = []\<rparr>"

subsection \<open>No handle is left open\<close>

text \<open>The interface is looked for in the first configuration.\<close>

definition matches :: "usb_ident \<Rightarrow> bus_device \<Rightarrow> bool" where
  "matches ident d \<longleftrightarrow> bd_ids d = Some (vendorID ident, productID ident)
     \<and> (case bd_config d of None \<Rightarrow> False | Some ifs \<Rightarrow> \<exists>alts \<in> set ifs. interfaceNumber ident \<in> set (map as_number alts))"

text \<open>The device that is looked for: it can be opened and has the serial number, if there is one.\<close>

definition wanted :: "usb_ident \<Rightarrow> bus_device \<Rightarrow> bool" where
  "wanted ident d \<longleftrightarrow> matches ident d \<and> bd_opens d
     \<and> (serialNumber ident = [] \<or> getUsbString d no_conn = Done (Some (serialNumber ident)) no_conn)"

text \<open>The serial number of every device can be read, or is found missing, without an exception.\<close>

definition serials_ok :: "bus_device list \<Rightarrow> bool" where
  "serials_ok ds \<longleftrightarrow> (\<forall>d \<in> set ds. case getUsbString d no_conn of Fail e k \<Rightarrow> False | _ \<Rightarrow> True)"

lemma getUsbString_cases:
  "(\<exists>s. \<forall>k. getUsbString d k = Done s k) \<or> (\<forall>k. getUsbString d k = Fail USBException k)"
  by (auto simp: getUsbString_def ret_def fail_def split: option.splits)

lemma serials_read:
  assumes "serials_ok ds" and "d \<in> set ds"
  obtains s where "\<And>k. getUsbString d k = Done s k"
  using assms getUsbString_cases [of d] by (fastforce simp: serials_ok_def)

definition opened :: "nat \<Rightarrow> usb_conn \<Rightarrow> usb_conn" where
  "opened i k = k\<lparr>k_handles := i # k_handles k\<rparr>"

lemma try_open_result:
  assumes "\<And>k. getUsbString d k = Done s k"
  shows "try_open serial i d k = (if bd_opens d \<and> (serial = [] \<or> s = Some serial) then Done (Some i) (opened i k) else Done None k)"
  by (simp add: try_open_def cswp_check_def libusb_close_def assms opened_def)

lemma probe_interfaces_result:
  assumes "\<And>k. getUsbString d k = Done s k"
  shows "probe_interfaces ident i d ifs k =
    (if (\<exists>alts \<in> set ifs. interfaceNumber ident \<in> set (map as_number alts))
        \<and> bd_opens d \<and> (serialNumber ident = [] \<or> s = Some (serialNumber ident))
     then Done (Some i) (opened i k) else Done None k)"
  by (induction ifs) (auto simp: cswp_check_def try_open_result [of d s, OF assms])

lemma probe_devices_result:
  "serials_ok ds \<Longrightarrow> probe_devices ident n ds k =
    (case find (\<lambda>i. wanted ident (ds ! (i - n))) [n..<n + length ds] of
       None \<Rightarrow> Done None k | Some i \<Rightarrow> Done (Some i) (opened i k))"
proof (induction ds arbitrary: n)
  case (Cons d ds)
  obtain s where s: "\<And>k. getUsbString d k = Done s k" using serials_read [OF Cons.prems] by (metis list.set_intros(1))
  have ok: "serials_ok ds" using Cons.prems by (simp add: serials_ok_def)
  have "find (\<lambda>i. wanted ident ((d # ds) ! (i - n))) [Suc n..<Suc (n + length ds)]
      = find (\<lambda>i. wanted ident (ds ! (i - Suc n))) [Suc n..<Suc (n + length ds)]"
    by (rule find_cong) (auto simp: nth_Cons' simp flip: diff_diff_add)
  then have find: "find (\<lambda>i. wanted ident ((d # ds) ! (i - n))) [n..<n + length (d # ds)]
      = (if wanted ident d then Some n else find (\<lambda>i. wanted ident (ds ! (i - Suc n))) [Suc n..<Suc n + length ds])"
    by (simp add: upt_rec [of n] del: upt_Suc)
  show ?case
    unfolding find using Cons.IH [OF ok, of "Suc n"]
    by (auto simp: wanted_def matches_def s cswp_check_def probe_interfaces_result [of d s, OF s] del: upt_Suc split: option.splits)
qed simp

text \<open>Resetting endpoints and reading their descriptors changes neither handles nor device.\<close>

lemma clear_endpoints_same: "clear_endpoints a es k = Done () k \<or> clear_endpoints a es k = Fail USBException k"
  by (induction es) auto

lemma interface_endpoints_same:
  "(\<exists>eps. interface_endpoints n ifs k = Done eps k) \<or> (interface_endpoints n ifs k = Undef OutOfBounds \<and> [] \<in> set ifs)"
  by (induction ifs) (auto simp: cswp_check_def nth_c_def)

lemma doDisconnect_closes:
  "k_handles k = (case k_dev k of None \<Rightarrow> [] | Some h \<Rightarrow> [h]) \<Longrightarrow>
    doDisconnect k = Done () (k\<lparr>k_context := False, k_handles := [], k_dev := None\<rparr>)"
  by (cases "k_dev k") (simp_all add: doDisconnect_def cswp_check_def libusb_close_def)

lemma find_opens:
  assumes "k_context k" and "an_devices a = Some ds" and "serials_ok ds"
  shows "findAndOpenDeviceBySerialNumber ident a k = (case find (\<lambda>i. wanted ident (ds ! i)) [0..<length ds] of
      None \<Rightarrow> Done None k | Some i \<Rightarrow> Done (Some i) (opened i k))"
  using assms probe_devices_result [of ds ident 0 k]
  by (simp add: findAndOpenDeviceBySerialNumber_def cswp_check_def)

text \<open>The connection as it stays when something fails after the device has been opened, and at the end.\<close>

definition holds :: "nat \<Rightarrow> usb_conn \<Rightarrow> bool" where
  "holds i k \<longleftrightarrow> k_dev k = Some i \<and> k_handles k = [i]"

text \<open>What is done with the device once it is open.\<close>

definition set_up :: "usb_ident \<Rightarrow> usb_answers \<Rightarrow> nat \<Rightarrow> (usb_conn, unit) prog" where
  "set_up ident a h =
     (if an_claim a <s 0 then fail USBException
      else if an_alt a <s 0 then fail USBException
      else
        cswp_check (case an_devices a of None \<Rightarrow> undef UninitRead | Some ds \<Rightarrow> nth_c ds h) (\<lambda>dev.
        cswp_check (examineEndpoints ident (bd_config dev)) (\<lambda>_.
        cswp_check (gets k_info) (clear_endpoints a))))"

lemma examineEndpoints_holds:
  assumes "holds i k" and "bd_config d = Some ifs"
  shows "case examineEndpoints ident (bd_config d) k of
      Done _ k' \<Rightarrow> holds i k' | Fail e k' \<Rightarrow> False | Undef u \<Rightarrow> [] \<in> set ifs"
proof -
  consider eps where "interface_endpoints (interfaceNumber ident) ifs (k\<lparr>k_info := []\<rparr>) = Done eps (k\<lparr>k_info := []\<rparr>)"
    | "interface_endpoints (interfaceNumber ident) ifs (k\<lparr>k_info := []\<rparr>) = Undef OutOfBounds" "[] \<in> set ifs"
    using interface_endpoints_same by blast
  then show ?thesis using assms by cases (simp_all add: examineEndpoints_def cswp_check_def holds_def)
qed

lemma set_up_holds:
  assumes "holds i k" and "an_devices a = Some ds" and "i < length ds" and "bd_config (ds ! i) = Some ifs"
  shows "case set_up ident a i k of
      Done _ k' \<Rightarrow> holds i k' | Fail e k' \<Rightarrow> e = USBException \<and> holds i k' | Undef u \<Rightarrow> [] \<in> set ifs"
proof -
  have ex: "case examineEndpoints ident (bd_config (ds ! i)) k of
      Done _ k' \<Rightarrow> holds i k' | Fail e k' \<Rightarrow> False | Undef u \<Rightarrow> [] \<in> set ifs"
    by (rule examineEndpoints_holds) (use assms in simp_all)
  show ?thesis
  proof (cases "examineEndpoints ident (bd_config (ds ! i)) k")
    case (Done u k')
    have cl: "clear_endpoints a (k_info k') k' = Done () k' \<or> clear_endpoints a (k_info k') k' = Fail USBException k'"
      by (rule clear_endpoints_same)
    then show ?thesis
      using Done ex assms by (auto simp: set_up_def cswp_check_def nth_c_def)
  qed (use ex assms in \<open>auto simp: set_up_def cswp_check_def nth_c_def\<close>)
qed

text \<open>C21: Connecting to a USB device opens the first device on the bus that has the interface and the
  serial number asked for and can be opened, and no other handle stays open: after \<open>connect\<close>, whether it
  succeeds or throws, the one handle is the one \<open>disconnect\<close> closes.\<close>

theorem usb_connect_opens_first:
  assumes "an_devices a = Some ds" and "serials_ok ds"
  shows "case usb_connect ident a no_conn of
      Done _ k \<Rightarrow> \<exists>i. find (\<lambda>i. wanted ident (ds ! i)) [0..<length ds] = Some i \<and> k_dev k = Some i \<and> k_handles k = [i]
        \<and> usb_disconnect k = Done () (k\<lparr>k_context := False, k_handles := [], k_dev := None\<rparr>)
    | Fail e k \<Rightarrow> e = USBException \<and> usb_disconnect k = Done () (k\<lparr>k_context := False, k_handles := [], k_dev := None\<rparr>)
    | Undef u \<Rightarrow> \<exists>d \<in> set ds. case bd_config d of None \<Rightarrow> False | Some ifs \<Rightarrow> [] \<in> set ifs"
proof (cases "an_init a = 0")
  case init: True
  let ?k = "no_conn\<lparr>k_context := True\<rparr>" and ?find = "find (\<lambda>i. wanted ident (ds ! i)) [0..<length ds]"
  have f: "findAndOpenDeviceBySerialNumber ident a ?k = (case ?find of
      None \<Rightarrow> Done None ?k | Some i \<Rightarrow> Done (Some i) (opened i ?k))"
    by (rule find_opens) (use assms in simp_all)
  show ?thesis
  proof (cases ?find)
    case None
    then have "usb_connect ident a no_conn = Fail USBException (?k\<lparr>k_context := False\<rparr>)"
      using f init by (simp add: usb_connect_def cswp_check_def no_conn_def doDisconnect_def)
    then show ?thesis by (simp add: usb_disconnect_def doDisconnect_closes no_conn_def)
  next
    case (Some i)
    then have i: "i < length ds" "wanted ident (ds ! i)" by (auto simp: find_Some_iff)
    then obtain ifs where ifs: "bd_config (ds ! i) = Some ifs" by (auto simp: wanted_def matches_def split: option.splits)
    let ?k' = "(opened i ?k)\<lparr>k_dev := Some i\<rparr>"
    have "usb_connect ident a no_conn = set_up ident a i ?k'"
      using f init Some by (simp add: usb_connect_def set_up_def cswp_check_def no_conn_def)
    moreover have "case set_up ident a i ?k' of
        Done _ k \<Rightarrow> holds i k | Fail e k \<Rightarrow> e = USBException \<and> holds i k | Undef u \<Rightarrow> [] \<in> set ifs"
      by (rule set_up_holds [OF _ assms(1) i(1) ifs]) (simp add: holds_def opened_def no_conn_def)
    ultimately show ?thesis
      using Some ifs nth_mem [OF i(1)]
      by (cases "set_up ident a i ?k'")
        (auto simp: holds_def usb_disconnect_def doDisconnect_closes intro!: bexI [of _ "ds ! i"])
  qed
next
  case False
  then have "usb_connect ident a no_conn = Fail USBException no_conn"
    by (simp add: usb_connect_def cswp_check_def no_conn_def)
  then show ?thesis by (simp add: usb_disconnect_def doDisconnect_closes no_conn_def)
qed

text \<open>Two devices with the interface, the first with another serial number.\<close>

definition serial_device :: "byte \<Rightarrow> bus_device" where
  "serial_device c = \<lparr>bd_ids = Some (5, 2), bd_config = Some [[\<lparr>as_number = 1, as_endpoints = [(1, 2), (0x81, 2)]\<rparr>]],
     bd_opens = True, bd_languages = (4, [4, 3, 9, 4]), bd_serial = (4, [4, 3, c, 0])\<rparr>"

definition two_devices :: usb_answers where
  "two_devices = \<lparr>an_init = 0, an_devices = Some [serial_device 65, serial_device 66], an_claim = 0, an_alt = 0, an_clear = (\<lambda>_. 0)\<rparr>"

definition device_B :: usb_ident where
  "device_B = \<lparr>vendorID = 5, productID = 2, interfaceNumber = 1, serialNumber = [66]\<rparr>"

lemma serial_device_text [simp]: "getUsbString (serial_device c) k = Done (Some [c]) k"
  by (simp add: getUsbString_def serial_device_def descriptor_text_def received_in_def upt_rec word_sless_alt)

lemma serial_device_fields [simp]:
  "bd_ids (serial_device c) = Some (5, 2)" "bd_opens (serial_device c)"
  "bd_config (serial_device c) = Some [[\<lparr>as_number = 1, as_endpoints = [(1, 2), (0x81, 2)]\<rparr>]]"
  by (simp_all add: serial_device_def)

theorem usb_connect_opens_first_witness:
  "case usb_connect device_B two_devices no_conn of
     Done _ k \<Rightarrow> k_handles k = [1] \<and> map ep_addr (k_info k) = [1, 0x81] \<and> k_handles (fst (case usb_disconnect k of Done u k' \<Rightarrow> (k', u))) = []
   | _ \<Rightarrow> False"
proof -
  have d: "an_devices two_devices = Some [serial_device 65, serial_device 66]" by (simp add: two_devices_def)
  have ok: "serials_ok [serial_device 65, serial_device 66]" by (simp add: serials_ok_def)
  have run: "usb_connect device_B two_devices no_conn = Done () \<lparr>k_context = True, k_handles = [1], k_dev = Some 1,
      k_info = [\<lparr>ep_kind = EP_TYPE_BULK, ep_addr = 1\<rparr>, \<lparr>ep_kind = EP_TYPE_BULK, ep_addr = 0x81\<rparr>]\<rparr>"
    by (simp add: usb_connect_def cswp_check_def no_conn_def findAndOpenDeviceBySerialNumber_def two_devices_def try_open_def
        libusb_close_def device_B_def nth_c_def examineEndpoints_def ep_type_of_def)
  show ?thesis
    using usb_connect_opens_first [OF d ok, of device_B] by (simp add: run)
qed

end
