(* ===== verification/Client_Transports.thy ===== *)
theory Client_Transports
  imports Client_Properties Tcp_Transport Usb_Connect
begin

text \<open>
  The two transports of the client, \<^verbatim>\<open>cswp/tcp_transport/cswp_tcp_transport.cpp\<close> on
  \<^verbatim>\<open>tcp_client/tcp_device.cpp\<close> and \<^verbatim>\<open>cswp/usb_transport/cswp_usb_transport.cpp\<close> on the USB device, as records of
  the callbacks the client library calls. The private data of a transport is the object \<open>priv\<close> points to,
  \<open>None\<close> for \<open>NULL\<close>, with the environment: what sockets and libusb answer. A C++ exception becomes the code
  \<open>CSWP_COMMS\<close> and its text the client's error message; it is used as the format of that message. The
  pointers the client passes are never null, so the tests for null are left out. The lemmas: a
  transaction over TCP delivers, whatever the network does to the stream; a transport that is not
  connected follows a null pointer.
\<close>

subsection \<open>TCP\<close>

text \<open>What the system answers when a socket is opened, and what happens on it then: the segments that arrive,
  and how each message is taken by \<open>write\<close>.\<close>

record tcp_env =
  te_addr_ok :: bool
  te_port :: c_int
  te_resolves :: bool
  te_socket :: bool
  te_connect :: bool
  te_events :: "sock_event list"
  te_writes :: "write_event list list"
  te_error :: string

text \<open>The device: the socket is open or closed; \<open>td_sent\<close> is what has left so far.\<close>

record tcp_dev =
  td_open :: bool
  td_in :: "sock_event list"
  td_writes :: "write_event list list"
  td_sent :: "byte list"

text \<open>\<open>tp_client\<close> is \<open>priv\<close>, and in it \<open>m_tcp\<close>.\<close>

record tcp_priv =
  tp_client :: "tcp_dev option option"
  tp_env :: tcp_env

type_synonym 'a tcp_client = "(tcp_priv, 'a) client"

text \<open>An exception that reaches the callback.\<close>

definition throws :: "string \<Rightarrow> ('t, 'a) client" where
  "throws what = cswp_client_error (res_val CSWP_COMMS) what []"

definition tcp_priv_of :: "(tcp_priv \<Rightarrow> 'a) \<Rightarrow> 'a tcp_client" where
  "tcp_priv_of f = gets (\<lambda>c. f (transport_priv c))"

definition set_tcp :: "tcp_dev option option \<Rightarrow> unit tcp_client" where
  "set_tcp d = modify (\<lambda>c. c\<lparr>transport_priv := (transport_priv c)\<lparr>tp_client := d\<rparr>\<rparr>)"

text \<open>The constructor of \<open>TCPDevice\<close>.\<close>

definition new_TCPDevice :: "tcp_env \<Rightarrow> tcp_dev tcp_client" where
  "new_TCPDevice e =
     (if \<not> te_addr_ok e then throws ''Invalid IPv4 address for TCPDevice''
      else if te_port e \<le>s 0 \<or> 65535 <s te_port e then throws ''Invalid network port for TCPDevice''
      else if \<not> te_resolves e then throws (te_error e)
      else if \<not> te_socket e then throws (te_error e)
      else if \<not> te_connect e then throws (te_error e)
      else ret \<lparr>td_open = True, td_in = te_events e, td_writes = te_writes e, td_sent = []\<rparr>)"

text \<open>\<open>m_tcp\<close>, which is null before \<open>connect\<close>, in the object \<open>priv\<close> points to.\<close>

definition get_tcp :: "tcp_dev tcp_client" where
  "get_tcp = cswp_check (tcp_priv_of tp_client) (\<lambda>p. case p of
       Some (Some d) \<Rightarrow> ret d
     | _ \<Rightarrow> undef NullDeref)"

definition cswp_tcp_connect :: "unit tcp_client" where
  "cswp_tcp_connect =
     cswp_check (tcp_priv_of tp_client) (\<lambda>p.
     if p = None then undef NullDeref
     else
       cswp_check (tcp_priv_of tp_env) (\<lambda>e.
       cswp_check (new_TCPDevice e) (\<lambda>d.
       set_tcp (Some (Some d)))))"

text \<open>The object is deleted, so the transport cannot be connected again.\<close>

definition cswp_tcp_disconnect :: "unit tcp_client" where
  "cswp_tcp_disconnect =
     cswp_check (tcp_priv_of tp_client) (\<lambda>p.
     if p = None then ret () else cswp_check get_tcp (\<lambda>d. set_tcp None))"

text \<open>The first list of \<open>td_writes\<close> is for this message. The call waits while \<open>write\<close> does.\<close>

definition TCPDevice_write :: "byte list \<Rightarrow> unit tcp_client" where
  "TCPDevice_write data =
     cswp_check get_tcp (\<lambda>d.
     if \<not> td_open d then cswp_check (tcp_priv_of tp_env) (\<lambda>e. throws (te_error e))
     else (case cswp_write_msg_tcp (case td_writes d of [] \<Rightarrow> [] | w # ws \<Rightarrow> w) data of (sent, r) \<Rightarrow>
       cswp_check (set_tcp (Some (Some (d\<lparr>td_sent := td_sent d @ sent, td_writes := tl (td_writes d)\<rparr>)))) (\<lambda>_.
       case r of
         None \<Rightarrow> undef Endless
       | Some n \<Rightarrow> if n = - 1 then cswp_check (tcp_priv_of tp_env) (\<lambda>e. throws (te_error e)) else ret ())))"

definition cswp_tcp_send :: "byte list \<Rightarrow> unit tcp_client" where
  "cswp_tcp_send = TCPDevice_write"

text \<open>The bytes of the message are returned; the buffer has the size of the destination.\<close>

definition TCPDevice_read :: "size_t \<Rightarrow> byte list tcp_client" where
  "TCPDevice_read sz =
     cswp_check get_tcp (\<lambda>d.
     cswp_check (tcp_priv_of tp_env) (\<lambda>e.
     if \<not> td_open d then throws (te_error e)
     else (case cswp_read_msg_tcp sz \<lparr>incoming = td_in d, dest = replicate (unat sz) 0\<rparr> of
         Undef u \<Rightarrow> undef u
       | Fail x s \<Rightarrow> fail x
       | Done n s \<Rightarrow>
           cswp_check (set_tcp (Some (Some (d\<lparr>td_in := incoming s\<rparr>)))) (\<lambda>_.
           if n = - 1 then throws (te_error e)
           else if n = 0 then throws ''Error during read, connection was shut down on other end''
           else ret (take (nat n) (dest s))))))"

definition cswp_tcp_receive :: "size_t \<Rightarrow> byte list tcp_client" where
  "cswp_tcp_receive = TCPDevice_read"

definition cswp_client_tcp_transport :: "tcp_priv cswp_client_transport_t" where
  "cswp_client_tcp_transport = \<lparr>t_connect = Some cswp_tcp_connect, t_disconnect = Some cswp_tcp_disconnect,
     t_send = cswp_tcp_send, t_receive = cswp_tcp_receive\<rparr>"

definition tcp_transport_init :: "tcp_env \<Rightarrow> tcp_priv" where
  "tcp_transport_init e = \<lparr>tp_client = Some None, tp_env = e\<rparr>"

subsection \<open>A transaction over TCP\<close>

text \<open>The socket takes the request whole and then has the response, followed by anything.\<close>

definition tcp_ready :: "byte list \<Rightarrow> byte list \<Rightarrow> tcp_dev \<Rightarrow> bool" where
  "tcp_ready req resp d \<longleftrightarrow> td_open d \<and> (\<exists>ws wss. td_writes d = ws # wss \<and> (\<exists>n. snd (cswp_write_msg_tcp ws req) = Some n \<and> n \<noteq> - 1))
     \<and> clean (td_in d) \<and> prefix resp (stream (td_in d))"

definition framed :: "byte list \<Rightarrow> bool" where
  "framed msg \<longleftrightarrow> take 4 msg = le_bytes 4 (of_nat (length msg) :: c_uint) \<and> 4 \<le> length msg \<and> length msg \<le> unat BUFFER_SIZE"

lemma written_whole: "snd (cswp_write_msg_tcp ws req) = Some n \<Longrightarrow> n \<noteq> - 1 \<Longrightarrow> cswp_write_msg_tcp ws req = (req, Some n)"
  using writen_loop_sent [of ws req] by (auto simp: cswp_write_msg_tcp_def split: prod.splits if_splits)

lemma tcp_exchanges:
  assumes "tp_client t = Some (Some d)" and "tcp_ready req resp d" and "framed resp"
  shows "\<exists>evs. exchanges cswp_client_tcp_transport req t resp
      (t\<lparr>tp_client := Some (Some (d\<lparr>td_sent := td_sent d @ req, td_writes := tl (td_writes d), td_in := evs\<rparr>))\<rparr>)
    \<and> clean evs \<and> resp @ stream evs = stream (td_in d)"
proof -
  obtain ws wss n where ws: "td_writes d = ws # wss" "cswp_write_msg_tcp ws req = (req, Some n)" "n \<noteq> - 1"
    using assms(2) written_whole unfolding tcp_ready_def by metis
  obtain rest where rest: "stream (td_in d) = resp @ rest" using assms(2) by (auto simp: tcp_ready_def prefix_def)
  let ?s = "\<lparr>incoming = td_in d, dest = replicate (unat BUFFER_SIZE) 0\<rparr>"
  have len: "length resp \<le> unat BUFFER_SIZE" "length resp < 2 ^ 32" using assms(3) by (simp_all add: framed_def BUFFER_SIZE_def)
  obtain s' where s': "cswp_read_msg_tcp BUFFER_SIZE ?s = Done (int (length resp)) s'" "take (length resp) (dest s') = resp"
    "clean (incoming s')" "stream (incoming s') = rest"
    using read_msg_whole [of ?s resp rest BUFFER_SIZE] assms(2,3) rest len
    by (auto simp: framed_def tcp_ready_def BUFFER_SIZE_def)
  let ?d1 = "d\<lparr>td_sent := td_sent d @ req, td_writes := wss\<rparr>"
  let ?t1 = "t\<lparr>tp_client := Some (Some ?d1)\<rparr>" and ?t2 = "t\<lparr>tp_client := Some (Some (?d1\<lparr>td_in := incoming s'\<rparr>))\<rparr>"
  have o: "td_open d" using assms(2) by (simp add: tcp_ready_def)
  have send: "t_send cswp_client_tcp_transport req c = Done () (c\<lparr>transport_priv := ?t1\<rparr>)" if "transport_priv c = t" for c
    using that assms(1) o ws
    by (simp add: cswp_client_tcp_transport_def cswp_tcp_send_def TCPDevice_write_def get_tcp_def tcp_priv_of_def set_tcp_def cswp_check_def)
  have pos: "resp \<noteq> []" using assms(3) by (auto simp: framed_def)
  have recv: "t_receive cswp_client_tcp_transport BUFFER_SIZE c = Done resp (c\<lparr>transport_priv := ?t2\<rparr>)"
    if "transport_priv c = ?t1" for c
    using that o s'(1,2) pos
    by (simp add: cswp_client_tcp_transport_def cswp_tcp_receive_def TCPDevice_read_def get_tcp_def tcp_priv_of_def set_tcp_def cswp_check_def)
  have "exchanges cswp_client_tcp_transport req t resp ?t2" unfolding exchanges_def using send recv by blast
  then show ?thesis using s'(3,4) rest ws(1) by auto
qed

lemma response_framed:
  assumes "length (response_bytes n rs) \<le> unat BUFFER_SIZE" shows "framed (response_bytes n rs)"
  using assms by (simp add: framed_def response_bytes_def Let_def)

text \<open>C13: A transaction over TCP delivers. However the network cuts the response into segments, and however
  many pieces \<open>write\<close> takes the request in, the commands queued by the client leave the socket as one
  request, their replies are stored where their calls want them, and the bytes after the response stay
  in the stream for the next transaction.\<close>

theorem tcp_transaction_delivers:
  assumes "client_ok c" and "queued c cs" and "tp_client (transport_priv c) = Some (Some d)"
    and "tcp_ready (request_bytes (batch_val (batch_mode c)) cs) (response_bytes (length cs) rs) d"
    and "length (response_bytes (length cs) rs) \<le> unat BUFFER_SIZE"
    and "(if ops = None then ret () else store_uint ops 0) (c_out c) = Done () mem"
    and "list_all2 reply_for (pending_responses c) rs"
    and "deliver_all ops (zip (pending_responses c) rs) mem = Done () mem'"
  shows "\<exists>c' d'. cswp_client_transact cswp_client_tcp_transport ops c = Done () c' \<and> client_ok c' \<and> c_out c' = mem'
    \<and> pending_responses c' = [] \<and> tp_client (transport_priv c') = Some (Some d') \<and> td_open d'
    \<and> td_sent d' = td_sent d @ request_bytes (batch_val (batch_mode c)) cs
    \<and> clean (td_in d') \<and> response_bytes (length cs) rs @ stream (td_in d') = stream (td_in d)"
proof -
  obtain evs where evs: "exchanges cswp_client_tcp_transport (request_bytes (batch_val (batch_mode c)) cs) (transport_priv c)
      (response_bytes (length cs) rs) ((transport_priv c)\<lparr>tp_client := Some (Some (d\<lparr>td_sent := td_sent d
        @ request_bytes (batch_val (batch_mode c)) cs, td_writes := tl (td_writes d), td_in := evs\<rparr>))\<rparr>)"
    "clean evs" "response_bytes (length cs) rs @ stream evs = stream (td_in d)"
    using tcp_exchanges [OF assms(3,4) response_framed [OF assms(5)]] by blast
  have "td_open d" using assms(4) by (simp add: tcp_ready_def)
  then show ?thesis
    using transact_delivers [OF assms(1,2) evs(1) assms(5-8)] evs(2,3) by (auto simp: after_transact_def)
qed

text \<open>A client over TCP with one call in its queue.\<close>

lemma tcp_call_queued:
  assumes "command_ok x" and "length (command_bytes x) + 15 \<le> unat BUFFER_SIZE"
  obtains c where "submit tr (encode_command x) t cf (fresh_client d) = cswp_client_transact tr None c"
    "client_ok c" "queued c [x]" "pending_responses c = [\<lparr>pending_type = t, complete = cf\<rparr>]" "c_out c = test_mem"
    "transport_priv c = d" "batch_mode c = BATCH_NONE"
proof -
  obtain c where c: "submit tr (encode_command x) t cf (fresh_client d) = cswp_client_transact tr None c"
    "client_ok c" "queued c [x]"
    "c = (fresh_client d)\<lparr>c_cmd := c_cmd c, pending_responses := [\<lparr>pending_type = t, complete = cf\<rparr>], num_cmds := 1\<rparr>"
    using submit_transacts [OF fresh_client_ok(1,2) [of d] assms, of tr t cf] by auto
  show thesis
    by (rule that [OF c(1-3)])
      (use arg_cong [OF c(4), of c_out] arg_cong [OF c(4), of transport_priv] arg_cong [OF c(4), of pending_responses]
        arg_cong [OF c(4), of batch_mode] fresh_client_ok(2-4) [of d] in simp_all)
qed

definition demo_tcp :: "byte list \<Rightarrow> tcp_priv" where
  "demo_tcp resp = \<lparr>tp_client = Some (Some \<lparr>td_open = True, td_in = [Segment (take 3 resp), Interrupted, Segment (drop 3 resp @ [99])],
       td_writes = [[Takes 5, Write_interrupted, Takes 100]], td_sent = []\<rparr>),
     tp_env = \<lparr>te_addr_ok = True, te_port = 1, te_resolves = True, te_socket = True, te_connect = True, te_events = [], te_writes = [], te_error = []\<rparr>\<rparr>"

theorem tcp_transaction_delivers_witness:
  "\<exists>c'. cswp_device_mem_read cswp_client_tcp_transport 0 0x80000000 2 2 0 (Some 1) (Some 2)
       (fresh_client (demo_tcp (response_bytes 1 [Mem_read_reply [7, 8]]))) = Done () c'
    \<and> m_bytes (c_out c') 1 = Some [7, 8, 0, 0] \<and> m_size (c_out c') 2 = Some 2"
proof -
  let ?x = "Mem_read 0 0x80000000 2 2 0" and ?r = "Mem_read_reply [7, 8]" and ?cf = "Mem_read_complete (Some 1) (Some 2)"
  let ?mem = "test_mem\<lparr>m_bytes := (m_bytes test_mem)(1 \<mapsto> [7, 8, 0, 0]), m_size := (m_size test_mem)(2 \<mapsto> 2)\<rparr>"
  let ?t = "demo_tcp (response_bytes 1 [?r])" and ?d = "the (the (tp_client (demo_tcp (response_bytes 1 [?r]))))"
  have len: "length (command_bytes ?x) = 14" "length (response_bytes 1 [?r]) = 11" by code_simp+
  have ok: "command_ok ?x" "length (command_bytes ?x) + 15 \<le> unat BUFFER_SIZE"
    by (simp add: varint_ok_def) (simp add: len BUFFER_SIZE_def)
  obtain c where c: "submit cswp_client_tcp_transport (encode_command ?x) CSWP_MEM_READ ?cf (fresh_client ?t)
      = cswp_client_transact cswp_client_tcp_transport None c"
    "client_ok c" "queued c [?x]" "pending_responses c = [\<lparr>pending_type = CSWP_MEM_READ, complete = ?cf\<rparr>]" "c_out c = test_mem"
    "transport_priv c = ?t" "batch_mode c = BATCH_NONE"
    using tcp_call_queued [OF ok] by metis
  have w: "cswp_write_msg_tcp [Takes 5, Write_interrupted, Takes 100] (request_bytes 0 [?x])
      = (request_bytes 0 [?x], Some 20)" by code_simp
  have ready: "tcp_ready (request_bytes (batch_val (batch_mode c)) [?x]) (response_bytes (length [?x]) [?r]) ?d"
  proof -
    have r: "response_bytes 1 [?r] \<noteq> []" "take 3 (response_bytes 1 [?r]) \<noteq> []" using len(2) by auto
    have "prefix xs (take 3 xs @ drop 3 xs @ [99])" for xs :: "byte list" by (metis append_assoc append_take_drop_id prefixI)
    then show ?thesis using w c(7) r by (auto simp: tcp_ready_def demo_tcp_def)
  qed
  have fits: "list_all2 reply_for (pending_responses c) [?r]" using c(4) by (simp add: reply_for_def count_ok_def)
  have mem: "deliver_all None (zip (pending_responses c) [?r]) test_mem = Done () ?mem"
    using c(4) by (simp add: store_bytes_def store_size_def test_mem_def incr_uint_def cswp_check_def)
  have priv: "tp_client (transport_priv c) = Some (Some ?d)" using c(6) by (simp add: demo_tcp_def)
  have "\<exists>c' d'. cswp_client_transact cswp_client_tcp_transport None c = Done () c' \<and> client_ok c' \<and> c_out c' = ?mem
      \<and> pending_responses c' = [] \<and> tp_client (transport_priv c') = Some (Some d') \<and> td_open d'
      \<and> td_sent d' = td_sent ?d @ request_bytes (batch_val (batch_mode c)) [?x]
      \<and> clean (td_in d') \<and> response_bytes (length [?x]) [?r] @ stream (td_in d') = stream (td_in ?d)"
    by (rule tcp_transaction_delivers [OF c(2,3) priv ready _ _ fits mem]) (use c(5) len in \<open>simp_all add: BUFFER_SIZE_def\<close>)
  then show ?thesis using c(1) by (auto simp: cswp_device_mem_read_def)
qed

subsection \<open>Not connected\<close>

text \<open>A TCP transport whose \<open>connect\<close> has failed or has not been called follows a null pointer when it
  sends, receives or disconnects, instead of reporting that it is not connected; and because
  \<open>disconnect\<close> deletes the object the transport stands for, a client that disconnects cannot connect
  again: \<open>connect\<close>, too, follows a null pointer then.\<close>

theorem tcp_not_connected_null:
  assumes "tp_client (transport_priv c) = Some None"
  shows "cswp_tcp_send data c = Undef NullDeref \<and> cswp_tcp_receive sz c = Undef NullDeref \<and> cswp_tcp_disconnect c = Undef NullDeref
    \<and> (\<forall>d. \<exists>c'. cswp_tcp_disconnect (c\<lparr>transport_priv := (transport_priv c)\<lparr>tp_client := Some (Some d)\<rparr>\<rparr>) = Done () c'
        \<and> cswp_tcp_connect c' = Undef NullDeref \<and> cswp_tcp_send data c' = Undef NullDeref)"
  using assms
  by (simp add: cswp_tcp_send_def TCPDevice_write_def cswp_tcp_receive_def TCPDevice_read_def cswp_tcp_disconnect_def
      cswp_tcp_connect_def get_tcp_def tcp_priv_of_def set_tcp_def cswp_check_def)

theorem tcp_not_connected_null_witness:
  "\<exists>c'. cswp_tcp_connect (fresh_client (tcp_transport_init ((tp_env (demo_tcp []))\<lparr>te_connect := False, te_error := ''refused''\<rparr>)))
      = Fail (res_val CSWP_COMMS) c' \<and> cswp_tcp_disconnect c' = Undef NullDeref"
proof -
  let ?t = "tcp_transport_init ((tp_env (demo_tcp []))\<lparr>te_connect := False, te_error := ''refused''\<rparr>)"
  have f: "c_format (bytes_of ''refused'') [] = Some (bytes_of ''refused'')" by code_simp
  have "cswp_tcp_connect (fresh_client ?t)
      = Fail (res_val CSWP_COMMS) ((fresh_client ?t)\<lparr>errorMsg := take (unat ERROR_MESSAGE_SIZE - 1) (bytes_of ''refused'')\<rparr>)"
    by (simp add: cswp_tcp_connect_def new_TCPDevice_def throws_def cswp_client_error_def f tcp_priv_of_def cswp_check_def
        tcp_transport_init_def demo_tcp_def fresh_client_def word_sle_eq word_sless_alt)
  then show ?thesis
    using tcp_not_connected_null [of "(fresh_client ?t)\<lparr>errorMsg := take (unat ERROR_MESSAGE_SIZE - 1) (bytes_of ''refused'')\<rparr>"]
    by (simp add: tcp_transport_init_def fresh_client_def)
qed

subsection \<open>USB\<close>

text \<open>What the bus and libusb answer, what happens in each blocking call in turn, and the data that the
  transfers of the responses bring.\<close>

record usb_env =
  ue_serial :: "byte list"
  ue_libusb :: libusb
  ue_answers :: usb_answers
  ue_error :: string

record usb_client =
  uc_dev :: "(usb_conn \<times> usb_dev) option"
  uc_epCmd :: c_int
  uc_epRsp :: c_int

record usb_priv =
  up_client :: "usb_client option"
  up_waits :: "usb_event list list list"
  up_data :: "byte list list"
  up_env :: usb_env

type_synonym 'a usb_prog = "(usb_priv, 'a) client"

definition usb_priv_of :: "(usb_priv \<Rightarrow> 'a) \<Rightarrow> 'a usb_prog" where
  "usb_priv_of f = gets (\<lambda>c. f (transport_priv c))"

definition set_usb :: "(usb_priv \<Rightarrow> usb_priv) \<Rightarrow> unit usb_prog" where
  "set_usb f = modify (\<lambda>c. c\<lparr>transport_priv := f (transport_priv c)\<rparr>)"

definition get_usb_client :: "usb_client usb_prog" where
  "get_usb_client = cswp_check (usb_priv_of up_client) (\<lambda>p. case p of None \<Rightarrow> undef NullDeref | Some k \<Rightarrow> ret k)"

definition set_usb_client :: "usb_client \<Rightarrow> unit usb_prog" where
  "set_usb_client k = set_usb (\<lambda>p. p\<lparr>up_client := Some k\<rparr>)"

text \<open>A call of the device; its exceptions reach the callback.\<close>

definition usb_call :: "(usb_conn \<times> usb_dev, 'a) prog \<Rightarrow> 'a usb_prog" where
  "usb_call m =
     cswp_check get_usb_client (\<lambda>k. case uc_dev k of
         None \<Rightarrow> undef NullDeref
       | Some cu \<Rightarrow> (case m cu of
             Done x cu' \<Rightarrow> cswp_check (set_usb_client (k\<lparr>uc_dev := Some cu'\<rparr>)) (\<lambda>_. ret x)
           | Fail e cu' \<Rightarrow> cswp_check (set_usb_client (k\<lparr>uc_dev := Some cu'\<rparr>)) (\<lambda>_.
               cswp_check (usb_priv_of up_env) (\<lambda>en. throws (ue_error en)))
           | Undef u \<Rightarrow> undef u))"

definition usb_on_device :: "(usb_dev, 'a) prog \<Rightarrow> (usb_conn \<times> usb_dev, 'a) prog" where
  "usb_on_device = zoom snd (\<lambda>u cu. (fst cu, u))"

definition on_connection :: "(usb_conn, 'a) prog \<Rightarrow> (usb_conn \<times> usb_dev, 'a) prog" where
  "on_connection = zoom fst (\<lambda>k cu. (k, snd cu))"

text \<open>The last bulk endpoint for output takes commands, the last one for input has the responses.\<close>

definition find_endpoints :: "ep_info list \<Rightarrow> usb_client \<Rightarrow> usb_client" where
  "find_endpoints eps k = fold (\<lambda>e k.
     if ep_addr e AND EP_DIR_MASK = dir_val EP_DIR_OUT \<and> ep_kind e = EP_TYPE_BULK then k\<lparr>uc_epCmd := ep_addr e\<rparr>
     else if ep_addr e AND EP_DIR_MASK = dir_val EP_DIR_IN \<and> ep_kind e = EP_TYPE_BULK then k\<lparr>uc_epRsp := ep_addr e\<rparr>
     else k) eps k"

definition cswp_usb_connect :: "unit usb_prog" where
  "cswp_usb_connect =
     cswp_check get_usb_client (\<lambda>k.
     cswp_check (usb_priv_of up_env) (\<lambda>en.
     cswp_check (set_usb_client (k\<lparr>uc_dev := Some (no_conn, usb_init [])\<rparr>)) (\<lambda>_.
     cswp_check (usb_call (on_connection (usb_connect
       \<lparr>vendorID = 0x05c0, productID = 0x0002, interfaceNumber = 1, serialNumber = ue_serial en\<rparr> (ue_answers en)))) (\<lambda>_.
     cswp_check (usb_call (on_connection (gets k_info))) (\<lambda>eps.
     cswp_check (usb_call (usb_on_device (modify (\<lambda>u. u\<lparr>u_info := eps\<rparr>)))) (\<lambda>_.
     cswp_check get_usb_client (\<lambda>k.
     cswp_check (set_usb_client (find_endpoints eps k)) (\<lambda>_.
     if uc_epCmd (find_endpoints eps k) = - 1 then throws ''Failed to find command endpoint''
     else if uc_epRsp (find_endpoints eps k) = - 1 then throws ''Failed to find response endpoint''
     else ret ()))))))))"

definition cswp_usb_disconnect :: "unit usb_prog" where
  "cswp_usb_disconnect =
     cswp_check (usb_priv_of up_client) (\<lambda>p.
     if p = None then ret ()
     else cswp_check (usb_call (on_connection usb_disconnect)) (\<lambda>_. set_usb (\<lambda>p. p\<lparr>up_client := None\<rparr>)))"

text \<open>The loop around \<open>completeTransfer\<close>: it ends with the result of the transfer with the token. The list is
  what happens in the calls; the loop goes on after the last.\<close>

primrec await_transfer :: "usb_event list list list \<Rightarrow> c_int \<Rightarrow> (transfer_status \<times> size_t) usb_prog" where
  "await_transfer [] token = undef Endless"
| "await_transfer (w # ws) token =
     cswp_check (set_usb (\<lambda>p. p\<lparr>up_waits := ws\<rparr>)) (\<lambda>_.
     cswp_check (usb_priv_of up_env) (\<lambda>en.
     cswp_check (usb_call (usb_on_device (completeTransfer (ue_libusb en) w))) (\<lambda>r. case r of
         Blocked \<Rightarrow> undef Endless
       | Nothing \<Rightarrow> await_transfer ws token
       | Transferred k status used \<Rightarrow> if k = token then ret (status, used) else await_transfer ws token)))"

definition cswp_usb_send :: "byte list \<Rightarrow> unit usb_prog" where
  "cswp_usb_send data =
     cswp_check get_usb_client (\<lambda>k.
     cswp_check (usb_priv_of up_env) (\<lambda>en.
     cswp_check (usb_call (usb_on_device (submitWriteTransfer (ue_libusb en) (uc_epCmd k) (of_nat (length data))))) (\<lambda>cmdToken.
     cswp_check (usb_priv_of up_waits) (\<lambda>ws.
     cswp_check (await_transfer ws cmdToken) (\<lambda>(status, used).
     if status \<noteq> Transfer_SUCCESS \<or> used < of_nat (length data) then throws ''Failed to send command'' else ret ())))))"

text \<open>The data of the response is in the destination when its transfer has completed.\<close>

definition cswp_usb_receive :: "size_t \<Rightarrow> byte list usb_prog" where
  "cswp_usb_receive sz =
     cswp_check get_usb_client (\<lambda>k.
     cswp_check (usb_priv_of up_env) (\<lambda>en.
     cswp_check (usb_call (usb_on_device (submitReadTransfer (ue_libusb en) (uc_epRsp k) sz))) (\<lambda>rspToken.
     cswp_check (usb_priv_of up_waits) (\<lambda>ws.
     cswp_check (await_transfer ws rspToken) (\<lambda>(status, used).
     if status \<noteq> Transfer_SUCCESS then throws ''Failed to receive response''
     else
       cswp_check (usb_priv_of up_data) (\<lambda>ds.
       cswp_check (set_usb (\<lambda>p. p\<lparr>up_data := tl ds\<rparr>)) (\<lambda>_.
       ret (take (unat used) (case ds of [] \<Rightarrow> [] | d # _ \<Rightarrow> d)))))))))"

definition cswp_client_usb_transport :: "usb_priv cswp_client_transport_t" where
  "cswp_client_usb_transport = \<lparr>t_connect = Some cswp_usb_connect, t_disconnect = Some cswp_usb_disconnect,
     t_send = cswp_usb_send, t_receive = cswp_usb_receive\<rparr>"

definition usb_transport_init :: "usb_env \<Rightarrow> usb_event list list list \<Rightarrow> byte list list \<Rightarrow> usb_priv" where
  "usb_transport_init en ws ds = \<lparr>up_client = Some \<lparr>uc_dev = None, uc_epCmd = - 1, uc_epRsp = - 1\<rparr>, up_waits = ws, up_data = ds, up_env = en\<rparr>"

subsection \<open>A transaction over USB\<close>

text \<open>A device with nothing under way, whose transfers libusb takes, and which answers the request of a
  transaction with the response.\<close>

definition usb_idle :: "libusb \<Rightarrow> usb_client \<Rightarrow> usb_dev \<Rightarrow> bool" where
  "usb_idle L k u \<longleftrightarrow> u_queued u = [] \<and> u_completed u = [] \<and> u_inFlight u = (\<lambda>_. []) \<and> u_count u = 0 \<and> \<not> u_flag u
     \<and> (\<forall>p. lu_alloc L p \<and> lu_submit L p = 0) \<and> u_nextToken u + 1 \<noteq> 0x7FFFFFFF \<and> u_nextToken u \<noteq> 0x7FFFFFFF
     \<and> find_ep (ucast (uc_epCmd k)) (u_info u) = Some \<lparr>ep_kind = EP_TYPE_BULK, ep_addr = uc_epCmd k\<rparr> \<and> uc_epCmd k AND EP_DIR_MASK = 0
     \<and> find_ep (ucast (uc_epRsp k)) (u_info u) = Some \<lparr>ep_kind = EP_TYPE_BULK, ep_addr = uc_epRsp k\<rparr> \<and> uc_epRsp k AND EP_DIR_MASK = 0x80"

text \<open>One transfer from an idle device.\<close>

definition transferred_one :: "usb_dev \<Rightarrow> usb_dev" where
  "transferred_one u = u\<lparr>u_nextToken := u_nextToken u + 1, u_fresh := u_fresh u + 1, u_heap := (u_heap u)(u_fresh u := None),
     u_active := u_active u - {u_fresh u}\<rparr>"

lemma one_transfer:
  assumes "u_queued u = []" "u_completed u = []" "u_inFlight u = (\<lambda>_. [])" "u_count u = 0" "\<not> u_flag u"
    and "\<forall>p. lu_alloc L p \<and> lu_submit L p = 0" and "u_nextToken u \<noteq> 0x7FFFFFFF"
    and "find_ep e (u_info u) = Some \<lparr>ep_kind = EP_TYPE_BULK, ep_addr = a\<rparr>" and "a AND EP_DIR_MASK = dir_val dir"
    and "ucast a = e" and "len \<le> MAX_URB_SIZE"
  shows "\<exists>v. submitTransfer L e dir len u = Done \<lparr>tx_token = u_nextToken u, tx_ptr = u_fresh u\<rparr> v
    \<and> completeTransfer L [[(u_fresh u, 0, n)]] v = Done (Transferred (u_nextToken u) Transfer_SUCCESS (scast n)) (transferred_one u)"
  using assms
  by (simp add: submitTransfer_def createTransfer_def libusb_alloc_transfer_def libusb_submit_transfer_def push_transfer_def
      cswp_check_def completeTransfer_def libusb_event_def transfer_complete_def get_transfer_def collect_transfer_def
      libusb_free_transfer_def map_libusb_status_def LIBUSB_TRANSFER_COMPLETED_def transferred_one_def Let_def MAX_IN_FLIGHT_def
      fun_upd_idem)

lemma transferred_one_same [simp]:
  "u_queued (transferred_one u) = u_queued u" "u_completed (transferred_one u) = u_completed u" "u_inFlight (transferred_one u) = u_inFlight u"
  "u_count (transferred_one u) = u_count u" "u_flag (transferred_one u) = u_flag u" "u_info (transferred_one u) = u_info u"
  "u_nextToken (transferred_one u) = u_nextToken u + 1" "u_fresh (transferred_one u) = u_fresh u + 1"
  by (simp_all add: transferred_one_def)

text \<open>What the environment does in a transaction: it reports the request as sent, then the response.\<close>

definition usb_ready :: "byte list \<Rightarrow> byte list \<Rightarrow> usb_conn \<Rightarrow> usb_dev \<Rightarrow> usb_priv \<Rightarrow> bool" where
  "usb_ready req resp cn u p \<longleftrightarrow> (\<exists>k. up_client p = Some k \<and> uc_dev k = Some (cn, u) \<and> usb_idle (ue_libusb (up_env p)) k u)
     \<and> (\<exists>ws. up_waits p = [[(u_fresh u, 0, of_nat (length req))]] # [[(u_fresh u + 1, 0, of_nat (length resp))]] # ws)
     \<and> (\<exists>ds. up_data p = resp # ds)"

lemma small_count:
  assumes "length xs \<le> unat MAX_URB_SIZE"
  shows "(scast (of_nat (length xs) :: c_int) :: size_t) = of_nat (length xs)" and "(of_nat (length xs) :: size_t) \<le> MAX_URB_SIZE"
    and "unat (of_nat (length xs) :: size_t) = length xs"
proof -
  have n: "length xs \<le> 32768" using assms by (simp add: MAX_URB_SIZE_def)
  then show u: "unat (of_nat (length xs) :: size_t) = length xs" by (intro unat_of_nat_small) simp
  then show "(of_nat (length xs) :: size_t) \<le> MAX_URB_SIZE" using assms by (simp add: word_le_nat_alt)
  have "sint (of_nat (length xs) :: c_int) = int (length xs)"
    using n by (simp add: signed_of_nat signed_take_bit_int_eq_self)
  then show "(scast (of_nat (length xs) :: c_int) :: size_t) = of_nat (length xs)"
    by (simp add: scast_eq)
qed

lemma usb_step:
  assumes "submitTransfer L e dir len u = Done tk v" and "completeTransfer L w v = Done (Transferred (tx_token tk) Transfer_SUCCESS n) v'"
    and "up_client p = Some k" and "uc_dev k = Some (cn, u)" and "ue_libusb (up_env p) = L" and "up_waits p = w # ws"
    and "transport_priv c = p"
  shows "usb_call (usb_on_device (cswp_check (submitTransfer L e dir len) (\<lambda>t. ret (tx_token t)))) c
      = Done (tx_token tk) (c\<lparr>transport_priv := p\<lparr>up_client := Some (k\<lparr>uc_dev := Some (cn, v)\<rparr>)\<rparr>\<rparr>)"
    and "await_transfer (w # ws) (tx_token tk) (c\<lparr>transport_priv := p\<lparr>up_client := Some (k\<lparr>uc_dev := Some (cn, v)\<rparr>)\<rparr>\<rparr>)
      = Done (Transfer_SUCCESS, n) (c\<lparr>transport_priv := p\<lparr>up_client := Some (k\<lparr>uc_dev := Some (cn, v')\<rparr>), up_waits := ws\<rparr>\<rparr>)"
  using assms
  by (simp_all add: usb_call_def usb_on_device_def zoom_def get_usb_client_def usb_priv_of_def set_usb_client_def set_usb_def cswp_check_def)

lemma usb_exchanges:
  assumes "usb_ready req resp cn u p" and "length req \<le> unat MAX_URB_SIZE" and "length resp \<le> unat MAX_URB_SIZE"
  shows "\<exists>k ws ds. up_client p = Some k \<and> exchanges cswp_client_usb_transport req p resp
      (p\<lparr>up_client := Some (k\<lparr>uc_dev := Some (cn, transferred_one (transferred_one u))\<rparr>), up_waits := ws, up_data := ds\<rparr>)"
proof -
  obtain k ws ds where k: "up_client p = Some k" "uc_dev k = Some (cn, u)" "usb_idle (ue_libusb (up_env p)) k u"
      and ws: "up_waits p = [[(u_fresh u, 0, of_nat (length req))]] # [[(u_fresh u + 1, 0, of_nat (length resp))]] # ws"
      and ds: "up_data p = resp # ds"
    using assms(1) by (auto simp: usb_ready_def)
  let ?L = "ue_libusb (up_env p)" and ?u1 = "transferred_one u"
  note idle = k(3) [unfolded usb_idle_def]
  obtain v where v: "submitTransfer ?L (ucast (uc_epCmd k)) EP_DIR_OUT (of_nat (length req)) u = Done \<lparr>tx_token = u_nextToken u, tx_ptr = u_fresh u\<rparr> v"
      "completeTransfer ?L [[(u_fresh u, 0, of_nat (length req))]] v
        = Done (Transferred (u_nextToken u) Transfer_SUCCESS (scast (of_nat (length req) :: c_int))) ?u1"
    using one_transfer [of u ?L "ucast (uc_epCmd k)" "uc_epCmd k" EP_DIR_OUT "of_nat (length req)" "of_nat (length req)"]
      idle small_count(2) [OF assms(2)] by auto
  obtain v' where v': "submitTransfer ?L (ucast (uc_epRsp k)) EP_DIR_IN BUFFER_SIZE ?u1
        = Done \<lparr>tx_token = u_nextToken ?u1, tx_ptr = u_fresh ?u1\<rparr> v'"
      "completeTransfer ?L [[(u_fresh ?u1, 0, of_nat (length resp))]] v'
        = Done (Transferred (u_nextToken ?u1) Transfer_SUCCESS (scast (of_nat (length resp) :: c_int))) (transferred_one ?u1)"
    using one_transfer [of ?u1 ?L "ucast (uc_epRsp k)" "uc_epRsp k" EP_DIR_IN BUFFER_SIZE "of_nat (length resp)"]
      idle by (auto simp: BUFFER_SIZE_def MAX_URB_SIZE_def)
  let ?p1 = "p\<lparr>up_client := Some (k\<lparr>uc_dev := Some (cn, ?u1)\<rparr>), up_waits := [[(u_fresh u + 1, 0, of_nat (length resp))]] # ws\<rparr>"
  let ?p2 = "p\<lparr>up_client := Some (k\<lparr>uc_dev := Some (cn, transferred_one ?u1)\<rparr>), up_waits := ws, up_data := ds\<rparr>"
  have send: "cswp_usb_send req c = Done () (c\<lparr>transport_priv := ?p1\<rparr>)" if c: "transport_priv c = p" for c
  proof -
    note st = usb_step [OF v(1) _ k(1,2) refl ws c]
    show ?thesis
      using st(1) st(2) [of "scast (of_nat (length req) :: c_int)" ?u1] v(2) c k ws small_count(1) [OF assms(2)]
      by (simp add: cswp_usb_send_def submitWriteTransfer_def cswp_check_def get_usb_client_def usb_priv_of_def)
  qed
  have recv: "cswp_usb_receive BUFFER_SIZE c = Done resp (c\<lparr>transport_priv := ?p2\<rparr>)" if c: "transport_priv c = ?p1" for c
  proof -
    have q: "up_client ?p1 = Some (k\<lparr>uc_dev := Some (cn, ?u1)\<rparr>)" "uc_dev (k\<lparr>uc_dev := Some (cn, ?u1)\<rparr>) = Some (cn, ?u1)"
      "ue_libusb (up_env ?p1) = ?L" "up_waits ?p1 = [[(u_fresh u + 1, 0, of_nat (length resp))]] # ws" by simp_all
    note st = usb_step [OF v'(1) _ q c]
    show ?thesis
      using st(1) st(2) [of "scast (of_nat (length resp) :: c_int)" "transferred_one ?u1"] v'(2) c ds small_count(1,3) [OF assms(3)]
      by (simp add: cswp_usb_receive_def submitReadTransfer_def cswp_check_def get_usb_client_def usb_priv_of_def set_usb_def)
  qed
  have "exchanges cswp_client_usb_transport req p resp ?p2"
    unfolding exchanges_def cswp_client_usb_transport_def using send recv by auto
  then show ?thesis using k(1) by blast
qed

text \<open>C14: A transaction over USB delivers: the request goes out as one transfer and the response comes in as
  another, their tokens tell them apart, the replies are stored where their calls want them, and the
  device is idle again with nothing left in its queues.\<close>

theorem usb_transaction_delivers:
  assumes "client_ok c" and "queued c cs"
    and "usb_ready (request_bytes (batch_val (batch_mode c)) cs) (response_bytes (length cs) rs) cn u (transport_priv c)"
    and "length (request_bytes (batch_val (batch_mode c)) cs) \<le> unat MAX_URB_SIZE"
    and "length (response_bytes (length cs) rs) \<le> unat BUFFER_SIZE"
    and "(if ops = None then ret () else store_uint ops 0) (c_out c) = Done () mem"
    and "list_all2 reply_for (pending_responses c) rs"
    and "deliver_all ops (zip (pending_responses c) rs) mem = Done () mem'"
  shows "\<exists>c' k v. cswp_client_transact cswp_client_usb_transport ops c = Done () c' \<and> client_ok c' \<and> c_out c' = mem'
    \<and> pending_responses c' = [] \<and> up_client (transport_priv c') = Some k \<and> uc_dev k = Some (cn, v)
    \<and> pendingTransfers v = 0 \<and> u_nextToken v = u_nextToken u + 2"
proof -
  have fits: "length (response_bytes (length cs) rs) \<le> unat MAX_URB_SIZE"
    using assms(5) by (simp add: BUFFER_SIZE_def MAX_URB_SIZE_def)
  obtain k ws ds where k: "up_client (transport_priv c) = Some k"
      and ex: "exchanges cswp_client_usb_transport (request_bytes (batch_val (batch_mode c)) cs) (transport_priv c)
        (response_bytes (length cs) rs) ((transport_priv c)\<lparr>up_client := Some (k\<lparr>uc_dev := Some (cn, transferred_one (transferred_one u))\<rparr>),
          up_waits := ws, up_data := ds\<rparr>)"
    using usb_exchanges [OF assms(3,4) fits] by blast
  have "pendingTransfers (transferred_one (transferred_one u)) = 0"
    using assms(3) by (auto simp: usb_ready_def usb_idle_def pendingTransfers_def)
  then show ?thesis
    using transact_delivers [OF assms(1,2) ex assms(5-8)] by (auto simp: after_transact_def)
qed

definition demo_usb_client :: usb_client where
  "demo_usb_client = \<lparr>uc_dev = Some (no_conn, usb_init [\<lparr>ep_kind = EP_TYPE_BULK, ep_addr = 1\<rparr>, \<lparr>ep_kind = EP_TYPE_BULK, ep_addr = 0x81\<rparr>]),
     uc_epCmd = 1, uc_epRsp = 0x81\<rparr>"

definition demo_usb_priv :: "byte list \<Rightarrow> usb_priv" where
  "demo_usb_priv resp = \<lparr>up_client = Some demo_usb_client, up_waits = [[[(0, 0, 20)]], [[(1, 0, of_nat (length resp))]]], up_data = [resp],
     up_env = \<lparr>ue_serial = [], ue_libusb = \<lparr>lu_alloc = (\<lambda>p. True), lu_submit = (\<lambda>p. 0)\<rparr>,
       ue_answers = \<lparr>an_init = 0, an_devices = None, an_claim = 0, an_alt = 0, an_clear = (\<lambda>_. 0)\<rparr>, ue_error = []\<rparr>\<rparr>"

theorem usb_transaction_delivers_witness:
  "\<exists>c'. cswp_device_mem_read cswp_client_usb_transport 0 0x80000000 2 2 0 (Some 1) (Some 2)
       (fresh_client (demo_usb_priv (response_bytes 1 [Mem_read_reply [7, 8]]))) = Done () c'
    \<and> m_bytes (c_out c') 1 = Some [7, 8, 0, 0] \<and> m_size (c_out c') 2 = Some 2"
proof -
  let ?x = "Mem_read 0 0x80000000 2 2 0" and ?r = "Mem_read_reply [7, 8]" and ?cf = "Mem_read_complete (Some 1) (Some 2)"
  let ?mem = "test_mem\<lparr>m_bytes := (m_bytes test_mem)(1 \<mapsto> [7, 8, 0, 0]), m_size := (m_size test_mem)(2 \<mapsto> 2)\<rparr>"
  let ?t = "demo_usb_priv (response_bytes 1 [?r])" and ?u = "snd (the (uc_dev demo_usb_client))"
  have len: "length (command_bytes ?x) = 14" "length (response_bytes 1 [?r]) = 11" "length (request_bytes 0 [?x]) = 20" by code_simp+
  have ok: "command_ok ?x" "length (command_bytes ?x) + 15 \<le> unat BUFFER_SIZE"
    by (simp add: varint_ok_def) (simp add: len BUFFER_SIZE_def)
  obtain c where c: "submit cswp_client_usb_transport (encode_command ?x) CSWP_MEM_READ ?cf (fresh_client ?t)
      = cswp_client_transact cswp_client_usb_transport None c"
    "client_ok c" "queued c [?x]" "pending_responses c = [\<lparr>pending_type = CSWP_MEM_READ, complete = ?cf\<rparr>]" "c_out c = test_mem"
    "transport_priv c = ?t" "batch_mode c = BATCH_NONE"
    using tcp_call_queued [OF ok] by metis
  have idle: "usb_idle (ue_libusb (up_env ?t)) demo_usb_client ?u"
    by (simp add: usb_idle_def demo_usb_client_def demo_usb_priv_def usb_init_def find_ep_def EP_DIR_MASK_def)
  have ready: "usb_ready (request_bytes (batch_val (batch_mode c)) [?x]) (response_bytes (length [?x]) [?r]) no_conn ?u (transport_priv c)"
    using idle c(6,7) len by (simp add: usb_ready_def) (simp add: demo_usb_priv_def demo_usb_client_def usb_init_def)
  have fits: "list_all2 reply_for (pending_responses c) [?r]" using c(4) by (simp add: reply_for_def count_ok_def)
  have mem: "deliver_all None (zip (pending_responses c) [?r]) test_mem = Done () ?mem"
    using c(4) by (simp add: store_bytes_def store_size_def test_mem_def incr_uint_def cswp_check_def)
  have "\<exists>c' k v. cswp_client_transact cswp_client_usb_transport None c = Done () c' \<and> client_ok c' \<and> c_out c' = ?mem
      \<and> pending_responses c' = [] \<and> up_client (transport_priv c') = Some k \<and> uc_dev k = Some (no_conn, v)
      \<and> pendingTransfers v = 0 \<and> u_nextToken v = u_nextToken ?u + 2"
    by (rule usb_transaction_delivers [OF c(2,3) ready _ _ _ fits mem]) (use c(5,7) len in \<open>simp_all add: BUFFER_SIZE_def MAX_URB_SIZE_def\<close>)
  then show ?thesis using c(1) by (auto simp: cswp_device_mem_read_def)
qed

end
