(* ===== verification/Streaming_Trace.thy ===== *)
theory Streaming_Trace
  imports Usb_Device Rddi_Handles
begin

text \<open>
  The core of the streaming trace library, \<^verbatim>\<open>rddi_streaming_trace/common/streaming_trace_base.cpp\<close>: sinks, the
  buffers a client hands in, the thread that waits for data, and the buffers given back. The virtual
  functions of the class are a record of callbacks. Every call holds the lock, so it is one step, except
  where it lets go of it: while a thread waits for a transfer, and while \<open>Detach\<close> waits for the thread.
  Both are split there: \<open>thread_wait\<close>, \<open>thread_transfer\<close> and \<open>thread_finish\<close> are the rounds of a data thread,
  \<open>Detach_begin\<close> and \<open>Detach_end\<close> the two halves of \<open>Detach\<close>. A condition variable may wake up at any time, so
  notifications are not modelled. The lemmas: a token is in one place only, no call loses one, and no
  more buffers are with the device than it takes.
\<close>

subsection \<open>Sinks and buffers\<close>

definition RDDI_STREAMING_TRACE_NO_CONNECTION :: c_int where "RDDI_STREAMING_TRACE_NO_CONNECTION = 0x0201"
definition RDDI_STREAMING_TRACE_INVALID_SINK :: c_int where "RDDI_STREAMING_TRACE_INVALID_SINK = 0x0206"
definition RDDI_STREAMING_TRACE_SINK_NOT_ATTACHED :: c_int where "RDDI_STREAMING_TRACE_SINK_NOT_ATTACHED = 0x0207"
definition RDDI_STREAMING_TRACE_SINK_NOT_STARTED :: c_int where "RDDI_STREAMING_TRACE_SINK_NOT_STARTED = 0x0208"

definition EVENT_TYPE_NONE :: c_int where "EVENT_TYPE_NONE = 0"
definition EVENT_TYPE_EVENT :: c_int where "EVENT_TYPE_EVENT = 1"
definition EVENT_TYPE_ERROR :: c_int where "EVENT_TYPE_ERROR = 2"
definition EVENT_TYPE_DATA :: c_int where "EVENT_TYPE_DATA = 3"
definition EVENT_TYPE_END_OF_DATA :: c_int where "EVENT_TYPE_END_OF_DATA = 4"

record sink_info =
  sd_name :: "byte list"
  sd_metadata :: "byte list"
  sd_dataBufferCount :: size_t
  sd_dataBufferSize :: size_t
  sd_eventBufferCount :: size_t
  sd_eventBufferSize :: size_t

text \<open>A buffer is an object of the client; the library keeps its address.\<close>

record client_buffer =
  cb_type :: c_int
  cb_size :: size_t
  cb_used :: size_t

record st_buffer =
  sb_token :: c_int
  sb_ptr :: nat

datatype sink_status = DETACHED | ATTACHED | ACTIVE

text \<open>\<open>ss_transportID\<close> is uninitialised until the sink is attached.\<close>

record sink_state =
  ss_status :: sink_status
  ss_transportID :: "c_uint option"
  ss_pending :: "st_buffer list"
  ss_queued :: "st_buffer list"
  ss_events :: "st_buffer list"
  ss_completed :: "c_int list"

definition SinkState :: sink_state where
  "SinkState = \<lparr>ss_status = DETACHED, ss_transportID = None, ss_pending = [], ss_queued = [], ss_events = [], ss_completed = []\<rparr>"

text \<open>Where a data thread is: at the top of its loop, in the blocking call with a reference to the buffer it
  waits for, back from it with a result, or at its end.\<close>

datatype 'r thread_pc = At_top | In_transfer st_buffer | Has_result st_buffer 'r | Exited

record ('d, 'r) strace =
  m_sinkInfo :: "sink_info list"
  m_sinkState :: "sink_state list"
  m_nextToken :: c_int
  m_dataThread :: "nat option"
  st_threads :: "(c_int \<times> 'r thread_pc) list"
  st_buffers :: "nat \<Rightarrow> client_buffer option"
  st_dev :: 'd

type_synonym ('d, 'r, 'a) st_prog = "(('d, 'r) strace, 'a) prog"

text \<open>The virtual functions. \<open>waitForBuffer\<close> is in two parts: \<open>v_transfer\<close> runs without the lock, with what
  happens meanwhile as its argument, and gives \<open>None\<close> if it does not return. \<open>v_detachDevice\<close> also waits for
  transfers, and its result says whether it returns.\<close>

record ('d, 'r, 'w) st_virtual =
  v_discoverSinks :: "('d, 'r, sink_info list) st_prog"
  v_doConnect :: "('d, 'r, unit) st_prog"
  v_doDisconnect :: "('d, 'r, unit) st_prog"
  v_isConnected :: "('d, 'r) strace \<Rightarrow> bool"
  v_attachDevice :: "c_int \<Rightarrow> ('d, 'r, unit) st_prog"
  v_detachDevice :: "'w list \<Rightarrow> c_int \<Rightarrow> ('d, 'r, bool) st_prog"
  v_submitBuffer :: "c_int \<Rightarrow> st_buffer \<Rightarrow> ('d, 'r, unit) st_prog"
  v_doCancelPendingBuffers :: "c_int \<Rightarrow> ('d, 'r, unit) st_prog"
  v_startDevice :: "c_int \<Rightarrow> ('d, 'r, unit) st_prog"
  v_stopDevice :: "c_int \<Rightarrow> ('d, 'r, unit) st_prog"
  v_doFlush :: "c_int \<Rightarrow> ('d, 'r, unit) st_prog"
  v_transfer :: "'w \<Rightarrow> ('d, 'r, 'r option) st_prog"
  v_received :: "'r \<Rightarrow> c_int \<Rightarrow> st_buffer \<Rightarrow> ('d, 'r, bool) st_prog"

subsection \<open>Access\<close>

text \<open>The state of a sink. A negative index passes the checks of the callers.\<close>

definition get_sink :: "c_int \<Rightarrow> ('d, 'r, sink_state) st_prog" where
  "get_sink sink = cswp_check (gets m_sinkState) (\<lambda>ss. if sink <s 0 then undef OutOfBounds else nth_c ss (unat sink))"

definition upd_sink :: "c_int \<Rightarrow> (sink_state \<Rightarrow> sink_state) \<Rightarrow> ('d, 'r, unit) st_prog" where
  "upd_sink sink f = cswp_check (get_sink sink) (\<lambda>x. modify (\<lambda>s. s\<lparr>m_sinkState := (m_sinkState s)[unat sink := f x]\<rparr>))"

definition sink_info_of :: "c_int \<Rightarrow> ('d, 'r, sink_info) st_prog" where
  "sink_info_of sink = cswp_check (gets m_sinkInfo) (\<lambda>is. if sink <s 0 then undef OutOfBounds else nth_c is (unat sink))"

definition upd_buffer :: "nat \<Rightarrow> (client_buffer \<Rightarrow> client_buffer) \<Rightarrow> ('d, 'r, unit) st_prog" where
  "upd_buffer p f = cswp_check (gets st_buffers) (\<lambda>bs. case bs p of
       None \<Rightarrow> undef OutOfBounds
     | Some b \<Rightarrow> modify (\<lambda>s. s\<lparr>st_buffers := (st_buffers s)(p \<mapsto> f b)\<rparr>))"

definition CheckConnected :: "('d, 'r, 'w) st_virtual \<Rightarrow> ('d, 'r, unit) st_prog" where
  "CheckConnected V = cswp_check (gets (v_isConnected V)) (\<lambda>c. if c then ret () else fail RDDI_STREAMING_TRACE_NO_CONNECTION)"

definition CheckSink :: "c_int \<Rightarrow> ('d, 'r, unit) st_prog" where
  "CheckSink sink = cswp_check (gets m_sinkInfo) (\<lambda>is.
     if word_of_nat (length is) \<le>s sink then fail RDDI_STREAMING_TRACE_INVALID_SINK else ret ())"

subsection \<open>Connecting\<close>

definition Connect :: "('d, 'r, 'w) st_virtual \<Rightarrow> ('d, 'r, unit) st_prog" where
  "Connect V =
     cswp_check (v_doConnect V) (\<lambda>_.
     cswp_check (v_discoverSinks V) (\<lambda>is.
     modify (\<lambda>s. s\<lparr>m_sinkInfo := map (\<lambda>i. if sd_eventBufferCount i = 0 then i\<lparr>sd_eventBufferCount := 1, sd_eventBufferSize := 256\<rparr> else i) is,
                   m_sinkState := replicate (length is) SinkState\<rparr>)))"

definition Disconnect :: "('d, 'r, 'w) st_virtual \<Rightarrow> ('d, 'r, unit) st_prog" where
  "Disconnect V = cswp_check (v_doDisconnect V) (\<lambda>_. modify (\<lambda>s. s\<lparr>m_sinkInfo := [], m_sinkState := []\<rparr>))"

definition GetSinkCount :: "('d, 'r, 'w) st_virtual \<Rightarrow> ('d, 'r, c_int) st_prog" where
  "GetSinkCount V = cswp_check (CheckConnected V) (\<lambda>_. gets (\<lambda>s. word_of_nat (length (m_sinkInfo s))))"

definition GetSinkDetails :: "('d, 'r, 'w) st_virtual \<Rightarrow> c_int \<Rightarrow> ('d, 'r, sink_info) st_prog" where
  "GetSinkDetails V sink = cswp_check (CheckConnected V) (\<lambda>_. cswp_check (CheckSink sink) (\<lambda>_. sink_info_of sink))"

definition GetConfigItem :: "('d, 'r, 'w) st_virtual \<Rightarrow> c_int \<Rightarrow> ('d, 'r, byte list) st_prog" where
  "GetConfigItem V sink = cswp_check (CheckConnected V) (\<lambda>_. cswp_check (CheckSink sink) (\<lambda>_. ret []))"

definition SetConfigItem :: "('d, 'r, 'w) st_virtual \<Rightarrow> c_int \<Rightarrow> ('d, 'r, unit) st_prog" where
  "SetConfigItem V sink = cswp_check (CheckConnected V) (\<lambda>_. CheckSink sink)"

subsection \<open>Buffers\<close>

text \<open>Handing buffers to the device while it takes more. The argument is the number of rounds left; each takes
  a buffer from the queue, so the loop starts with the length of the queue.\<close>

primrec submit_loop :: "nat \<Rightarrow> ('d, 'r, 'w) st_virtual \<Rightarrow> c_int \<Rightarrow> ('d, 'r, unit) st_prog" where
  "submit_loop 0 V sink = ret ()"
| "submit_loop (Suc n) V sink =
     cswp_check (get_sink sink) (\<lambda>x.
     cswp_check (sink_info_of sink) (\<lambda>i.
     if of_nat (length (ss_pending x)) < sd_dataBufferCount i \<and> ss_queued x \<noteq> [] then
       cswp_check (v_submitBuffer V sink (hd (ss_queued x))) (\<lambda>_.
       cswp_check (upd_sink sink (\<lambda>y. y\<lparr>ss_queued := tl (ss_queued y), ss_pending := ss_pending y @ [hd (ss_queued x)]\<rparr>)) (\<lambda>_.
       submit_loop n V sink))
     else ret ()))"

definition submitBuffers :: "('d, 'r, 'w) st_virtual \<Rightarrow> c_int \<Rightarrow> ('d, 'r, unit) st_prog" where
  "submitBuffers V sink = cswp_check (get_sink sink) (\<lambda>x. submit_loop (length (ss_queued x)) V sink)"

text \<open>A buffer from the client. The token is used up even if the type is not one of the two, and the code
  thrown then is the number of an event type.\<close>

definition queue_buffer :: "('d, 'r, 'w) st_virtual \<Rightarrow> c_int \<Rightarrow> sink_status \<Rightarrow> c_int \<Rightarrow> st_buffer \<Rightarrow> ('d, 'r, unit) st_prog" where
  "queue_buffer V sink status bufferType buf =
     (if bufferType = EVENT_TYPE_DATA then
        cswp_check (upd_sink sink (\<lambda>y. y\<lparr>ss_queued := ss_queued y @ [buf]\<rparr>)) (\<lambda>_.
        if status = ACTIVE then submitBuffers V sink else ret ())
      else if bufferType = EVENT_TYPE_EVENT then upd_sink sink (\<lambda>y. y\<lparr>ss_events := ss_events y @ [buf]\<rparr>)
      else fail EVENT_TYPE_ERROR)"

definition SubmitEventBuffer :: "('d, 'r, 'w) st_virtual \<Rightarrow> c_int \<Rightarrow> c_int \<Rightarrow> nat \<Rightarrow> ('d, 'r, c_int) st_prog" where
  "SubmitEventBuffer V sink bufferType p =
     cswp_check (CheckConnected V) (\<lambda>_.
     cswp_check (CheckSink sink) (\<lambda>_.
     cswp_check (get_sink sink) (\<lambda>x.
     if ss_status x = DETACHED then fail RDDI_STREAMING_TRACE_SINK_NOT_ATTACHED
     else
       cswp_check (gets m_nextToken) (\<lambda>token.
       if token = 0x7FFFFFFF then undef IntOverflow
       else
         cswp_check (modify (\<lambda>s. s\<lparr>m_nextToken := token + 1\<rparr>)) (\<lambda>_.
         cswp_check (upd_buffer p (\<lambda>b. b\<lparr>cb_type := EVENT_TYPE_NONE, cb_used := 0\<rparr>)) (\<lambda>_.
         cswp_check (queue_buffer V sink (ss_status x) bufferType \<lparr>sb_token = token, sb_ptr = p\<rparr>) (\<lambda>_.
         ret token)))))))"

text \<open>The end of the wait: a token, or none when the time is over.\<close>

definition WaitForEvent :: "c_int \<Rightarrow> ('d, 'r, c_int) st_prog" where
  "WaitForEvent sink =
     cswp_check (CheckSink sink) (\<lambda>_.
     cswp_check (get_sink sink) (\<lambda>x. case ss_completed x of
         [] \<Rightarrow> fail RDDI_STREAMING_TRACE_TIMEOUT
       | token # rest \<Rightarrow> cswp_check (upd_sink sink (\<lambda>y. y\<lparr>ss_completed := rest\<rparr>)) (\<lambda>_. ret token)))"

text \<open>The first event buffer is completed. The result says whether there was one.\<close>

definition complete_event :: "c_int \<Rightarrow> (client_buffer \<Rightarrow> client_buffer) \<Rightarrow> ('d, 'r, bool) st_prog" where
  "complete_event sink f =
     cswp_check (get_sink sink) (\<lambda>x. case ss_events x of
         [] \<Rightarrow> ret False
       | b # bs \<Rightarrow>
           cswp_check (upd_buffer (sb_ptr b) f) (\<lambda>_.
           cswp_check (upd_sink sink (\<lambda>y. y\<lparr>ss_events := bs, ss_completed := ss_completed y @ [sb_token b]\<rparr>)) (\<lambda>_. ret True)))"

definition doSendStateEvent :: "c_int \<Rightarrow> c_int \<Rightarrow> ('d, 'r, unit) st_prog" where
  "doSendStateEvent sink eventType = cswp_check (complete_event sink (\<lambda>b. b\<lparr>cb_type := eventType\<rparr>)) (\<lambda>_. ret ())"

definition SendStateEvent :: "c_int \<Rightarrow> c_int \<Rightarrow> ('d, 'r, unit) st_prog" where
  "SendStateEvent sink eventType = cswp_check (CheckSink sink) (\<lambda>_. doSendStateEvent sink eventType)"


subsection \<open>Attaching and detaching\<close>

text \<open>The sink counts as attached before the device has agreed. Each call starts another thread.\<close>

definition Attach :: "('d, 'r, 'w) st_virtual \<Rightarrow> c_int \<Rightarrow> ('d, 'r, unit) st_prog" where
  "Attach V sink =
     cswp_check (CheckConnected V) (\<lambda>_.
     cswp_check (CheckSink sink) (\<lambda>_.
     cswp_check (upd_sink sink (\<lambda>x. if ss_status x = DETACHED then x\<lparr>ss_status := ATTACHED\<rparr> else x)) (\<lambda>_.
     cswp_check (v_attachDevice V sink) (\<lambda>_.
     modify (\<lambda>s. s\<lparr>m_dataThread := Some (length (st_threads s)), st_threads := st_threads s @ [(sink, At_top)]\<rparr>)))))"

definition Detach_begin :: "('d, 'r, 'w) st_virtual \<Rightarrow> c_int \<Rightarrow> ('d, 'r, unit) st_prog" where
  "Detach_begin V sink =
     cswp_check (CheckConnected V) (\<lambda>_.
     cswp_check (CheckSink sink) (\<lambda>_.
     upd_sink sink (\<lambda>x. x\<lparr>ss_status := DETACHED\<rparr>)))"

text \<open>\<open>join\<close>: the result says whether the thread has ended.\<close>

definition join_thread :: "('d, 'r, bool) st_prog" where
  "join_thread =
     cswp_check (gets m_dataThread) (\<lambda>t. case t of
         None \<Rightarrow> ret True
       | Some t \<Rightarrow>
           cswp_check (gets st_threads) (\<lambda>ts.
           cswp_check (nth_c ts t) (\<lambda>th.
           if snd th = Exited then cswp_check (modify (\<lambda>s. s\<lparr>m_dataThread := None\<rparr>)) (\<lambda>_. ret True) else ret False)))"

text \<open>Waiting for the buffers the device still has. The list holds what happens in each blocking call; the
  result is \<open>False\<close> while one has not returned.\<close>

primrec drain_pending :: "('d, 'r, 'w) st_virtual \<Rightarrow> c_int \<Rightarrow> 'w list \<Rightarrow> ('d, 'r, bool) st_prog" where
  "drain_pending V sink [] = cswp_check (get_sink sink) (\<lambda>x. ret (ss_pending x = []))"
| "drain_pending V sink (w # ws) =
     cswp_check (get_sink sink) (\<lambda>x. case ss_pending x of
         [] \<Rightarrow> ret True
       | b # _ \<Rightarrow>
           cswp_check (v_transfer V w) (\<lambda>r. case r of
               None \<Rightarrow> ret False
             | Some r \<Rightarrow>
                 cswp_check (v_received V r sink b) (\<lambda>got.
                 if \<not> got then ret True
                 else cswp_check (upd_sink sink (\<lambda>y. y\<lparr>ss_pending := tl (ss_pending y)\<rparr>)) (\<lambda>_. drain_pending V sink ws))))"

definition Detach_end :: "('d, 'r, 'w) st_virtual \<Rightarrow> 'w list \<Rightarrow> 'w list \<Rightarrow> c_int \<Rightarrow> ('d, 'r, bool) st_prog" where
  "Detach_end V ws ws' sink =
     cswp_check join_thread (\<lambda>joined.
     if \<not> joined then ret False
     else
       cswp_check (v_doCancelPendingBuffers V sink) (\<lambda>_.
       cswp_check (drain_pending V sink ws) (\<lambda>drained.
       if \<not> drained then ret False
       else
         cswp_check (v_detachDevice V ws' sink) (\<lambda>detached.
         if \<not> detached then ret False
         else
           cswp_check (upd_sink sink (\<lambda>x. x\<lparr>ss_queued := [], ss_pending := [], ss_events := []\<rparr>)) (\<lambda>_.
           ret True)))))"

subsection \<open>Starting and stopping\<close>

definition Start :: "('d, 'r, 'w) st_virtual \<Rightarrow> c_int \<Rightarrow> ('d, 'r, unit) st_prog" where
  "Start V sink =
     cswp_check (CheckConnected V) (\<lambda>_.
     cswp_check (CheckSink sink) (\<lambda>_.
     cswp_check (get_sink sink) (\<lambda>x.
     if ss_status x = DETACHED then fail RDDI_STREAMING_TRACE_SINK_NOT_ATTACHED
     else
       cswp_check (upd_sink sink (\<lambda>y. y\<lparr>ss_status := ACTIVE\<rparr>)) (\<lambda>_.
       cswp_check (submitBuffers V sink) (\<lambda>_.
       v_startDevice V sink)))))"

text \<open>The event buffers are given back. The argument is their number.\<close>

primrec complete_events :: "nat \<Rightarrow> c_int \<Rightarrow> ('d, 'r, unit) st_prog" where
  "complete_events 0 sink = ret ()"
| "complete_events (Suc n) sink =
     cswp_check (complete_event sink (\<lambda>b. b\<lparr>cb_type := EVENT_TYPE_NONE, cb_used := 0\<rparr>)) (\<lambda>_. complete_events n sink)"

definition Stop :: "('d, 'r, 'w) st_virtual \<Rightarrow> c_int \<Rightarrow> ('d, 'r, unit) st_prog" where
  "Stop V sink =
     cswp_check (CheckConnected V) (\<lambda>_.
     cswp_check (CheckSink sink) (\<lambda>_.
     cswp_check (get_sink sink) (\<lambda>x.
     if ss_status x \<noteq> ACTIVE then fail RDDI_STREAMING_TRACE_SINK_NOT_STARTED
     else
       cswp_check (v_stopDevice V sink) (\<lambda>_.
       cswp_check (upd_sink sink (\<lambda>y. y\<lparr>ss_status := ATTACHED\<rparr>)) (\<lambda>_.
       cswp_check (v_doCancelPendingBuffers V sink) (\<lambda>_.
       cswp_check (get_sink sink) (\<lambda>y. complete_events (length (ss_events y)) sink)))))))"

definition Flush :: "('d, 'r, 'w) st_virtual \<Rightarrow> c_int \<Rightarrow> ('d, 'r, unit) st_prog" where
  "Flush V sink =
     cswp_check (CheckConnected V) (\<lambda>_.
     cswp_check (CheckSink sink) (\<lambda>_.
     cswp_check (get_sink sink) (\<lambda>x.
     if ss_status x = DETACHED then fail RDDI_STREAMING_TRACE_SINK_NOT_ATTACHED else v_doFlush V sink)))"

subsection \<open>The data thread\<close>

definition set_thread :: "nat \<Rightarrow> 'r thread_pc \<Rightarrow> ('d, 'r, unit) st_prog" where
  "set_thread t pc = modify (\<lambda>s. s\<lparr>st_threads := (st_threads s)[t := (fst (st_threads s ! t), pc)]\<rparr>)"

text \<open>The top of \<open>WaitForDataEvent\<close>: the thread ends, goes on waiting for a buffer, or lets go of the lock to
  wait for a transfer.\<close>

definition thread_wait :: "('d, 'r, 'w) st_virtual \<Rightarrow> nat \<Rightarrow> c_int \<Rightarrow> ('d, 'r, unit) st_prog" where
  "thread_wait V t sink =
     cswp_check (get_sink sink) (\<lambda>x.
     cswp_check (gets (v_isConnected V)) (\<lambda>c.
     if \<not> c \<or> ss_status x = DETACHED then set_thread t Exited
     else (case ss_pending x of [] \<Rightarrow> ret () | b # _ \<Rightarrow> set_thread t (In_transfer b))))"

definition thread_transfer :: "('d, 'r, 'w) st_virtual \<Rightarrow> 'w \<Rightarrow> nat \<Rightarrow> st_buffer \<Rightarrow> ('d, 'r, unit) st_prog" where
  "thread_transfer V w t b = cswp_check (v_transfer V w) (\<lambda>r. case r of None \<Rightarrow> ret () | Some r \<Rightarrow> set_thread t (Has_result b r))"

text \<open>With the lock again. The buffer is used through a reference into the queue, which must still be there.
  An exception ends the thread.\<close>

definition data_received :: "('d, 'r, 'w) st_virtual \<Rightarrow> c_int \<Rightarrow> st_buffer \<Rightarrow> ('d, 'r, unit) st_prog" where
  "data_received V sink b =
     cswp_check (get_sink sink) (\<lambda>x.
     if ss_pending x = [] \<or> hd (ss_pending x) \<noteq> b then undef OutOfBounds
     else
       cswp_check (upd_sink sink (\<lambda>y. y\<lparr>ss_pending := tl (ss_pending y)\<rparr>)) (\<lambda>_.
       cswp_check (if ss_status x = ACTIVE then submitBuffers V sink else ret ()) (\<lambda>_.
       upd_sink sink (\<lambda>y. y\<lparr>ss_completed := ss_completed y @ [sb_token b]\<rparr>))))"

definition thread_finish :: "('d, 'r, 'w) st_virtual \<Rightarrow> nat \<Rightarrow> c_int \<Rightarrow> st_buffer \<Rightarrow> 'r \<Rightarrow> ('d, 'r, unit) st_prog" where
  "thread_finish V t sink b r =
     cswp_check (v_received V r sink b) (\<lambda>got.
     cswp_check (if got then data_received V sink b else ret ()) (\<lambda>_.
     set_thread t At_top))"

definition dataThread :: "('d, 'r, 'w) st_virtual \<Rightarrow> 'w \<Rightarrow> nat \<Rightarrow> ('d, 'r, unit) st_prog" where
  "dataThread V w t =
     cswp_check (gets st_threads) (\<lambda>ts.
     cswp_check (nth_c ts t) (\<lambda>th.
     attempt
       (case snd th of
          At_top \<Rightarrow> thread_wait V t (fst th)
        | In_transfer b \<Rightarrow> thread_transfer V w t b
        | Has_result b r \<Rightarrow> thread_finish V t (fst th) b r
        | Exited \<Rightarrow> ret ())
       (\<lambda>_. set_thread t Exited) ret))"

subsection \<open>Tokens\<close>

definition sink_tokens :: "sink_state \<Rightarrow> c_int list" where
  "sink_tokens x = map sb_token (ss_pending x @ ss_queued x @ ss_events x) @ ss_completed x"

definition st_tokens :: "('d, 'r) strace \<Rightarrow> c_int multiset" where
  "st_tokens s = mset (concat (map sink_tokens (m_sinkState s)))"

text \<open>The buffers with the device are no more than it takes.\<close>

definition st_bounded :: "('d, 'r) strace \<Rightarrow> bool" where
  "st_bounded s \<longleftrightarrow> length (m_sinkState s) = length (m_sinkInfo s)
     \<and> (\<forall>i < length (m_sinkState s). length (ss_pending (m_sinkState s ! i)) \<le> unat (sd_dataBufferCount (m_sinkInfo s ! i)))"

text \<open>A step that only moves tokens.\<close>

definition shuffle :: "('d, 'r) strace \<Rightarrow> ('d, 'r) strace \<Rightarrow> bool" where
  "shuffle s s' \<longleftrightarrow> m_sinkInfo s' = m_sinkInfo s \<and> m_nextToken s' = m_nextToken s \<and> st_tokens s' = st_tokens s
     \<and> (st_bounded s \<longrightarrow> st_bounded s')"

text \<open>A step that may also give tokens up.\<close>

definition drops :: "('d, 'r) strace \<Rightarrow> ('d, 'r) strace \<Rightarrow> bool" where
  "drops s s' \<longleftrightarrow> m_sinkInfo s' = m_sinkInfo s \<and> m_nextToken s' = m_nextToken s \<and> st_tokens s' \<subseteq># st_tokens s
     \<and> (st_bounded s \<longrightarrow> st_bounded s')"

definition obeys :: "('s \<Rightarrow> 's \<Rightarrow> bool) \<Rightarrow> ('s, 'a) prog \<Rightarrow> bool" where
  "obeys R m \<longleftrightarrow> (\<forall>s. case m s of Done _ s' \<Rightarrow> R s s' | Fail _ s' \<Rightarrow> R s s' | Undef _ \<Rightarrow> True)"

lemma obeysD: "obeys R m \<Longrightarrow> m s = Done x s' \<Longrightarrow> R s s'" "obeys R m \<Longrightarrow> m s = Fail e s' \<Longrightarrow> R s s'"
  by (metis outcome.simps(10,11) obeys_def)+

lemma obeys_mono: "obeys R m \<Longrightarrow> (\<And>s s'. R s s' \<Longrightarrow> R' s s') \<Longrightarrow> obeys R' m"
  by (fastforce simp: obeys_def split: outcome.splits)

text \<open>Relations between the states before and after that programs respect when their parts do.\<close>

locale step_relation =
  fixes R :: "'s \<Rightarrow> 's \<Rightarrow> bool"
  assumes refl: "R s s" and trans: "R s s' \<Longrightarrow> R s' s'' \<Longrightarrow> R s s''"
begin

lemma basic: "obeys R (ret x)" "obeys R (fail e)" "obeys R (undef u)" "obeys R (gets f)" "obeys R (nth_c xs i)"
  by (simp_all add: obeys_def nth_c_def fail_def undef_def ret_def gets_def refl)

lemma check: "obeys R m \<Longrightarrow> (\<And>x. obeys R (k x)) \<Longrightarrow> obeys R (cswp_check m k)"
  unfolding obeys_def cswp_check_def by (fastforce split: outcome.splits intro: trans)

lemma attempt: "obeys R m \<Longrightarrow> (\<And>e. obeys R (h e)) \<Longrightarrow> (\<And>x. obeys R (k x)) \<Longrightarrow> obeys R (attempt m h k)"
  unfolding obeys_def attempt_def by (fastforce split: outcome.splits intro: trans)

lemma branches:
  "(b \<Longrightarrow> obeys R m) \<Longrightarrow> (\<not> b \<Longrightarrow> obeys R m') \<Longrightarrow> obeys R (if b then m else m')"
  "obeys R n \<Longrightarrow> (\<And>x. obeys R (f x)) \<Longrightarrow> obeys R (case opt of None \<Rightarrow> n | Some x \<Rightarrow> f x)"
  "obeys R n \<Longrightarrow> (\<And>x l. obeys R (g x l)) \<Longrightarrow> obeys R (case lst of [] \<Rightarrow> n | x # l \<Rightarrow> g x l)"
  by (auto split: option.splits list.splits)

lemma modifies: "(\<And>s. R s (f s)) \<Longrightarrow> obeys R (modify f)"
  by (simp add: obeys_def modify_def)

end

lemma shuffle_refl [simp]: "shuffle s s"
  by (simp add: shuffle_def)

lemma shuffle_trans: "shuffle s s' \<Longrightarrow> shuffle s' s'' \<Longrightarrow> shuffle s s''"
  by (simp add: shuffle_def)

lemma drops_trans: "drops s s' \<Longrightarrow> drops s' s'' \<Longrightarrow> drops s s''"
  by (auto simp: drops_def)

lemma shuffle_drops: "shuffle s s' \<Longrightarrow> drops s s'"
  by (simp add: shuffle_def drops_def)

interpretation sh: step_relation shuffle
  by unfold_locales (auto intro: shuffle_trans)

interpretation dr: step_relation drops
  by unfold_locales (auto simp: drops_def intro: drops_trans)

named_theorems shuffles \<open>programs that only move tokens\<close>

declare sh.basic [shuffles] sh.check [shuffles] sh.attempt [shuffles] sh.branches [shuffles]

abbreviation shuffled :: "('d, 'r, 'a) st_prog \<Rightarrow> bool" where
  "shuffled \<equiv> obeys shuffle"

text \<open>Changes of other parts of the state.\<close>

lemma shuffle_other:
  "m_sinkInfo s' = m_sinkInfo s \<Longrightarrow> m_nextToken s' = m_nextToken s \<Longrightarrow> m_sinkState s' = m_sinkState s \<Longrightarrow> shuffle s s'"
  by (simp add: shuffle_def st_tokens_def st_bounded_def)

lemma shuffled_get [shuffles]: "shuffled (get_sink sink)" "shuffled (sink_info_of sink)" "shuffled (upd_buffer p f)"
    "shuffled (CheckConnected V)" "shuffled (CheckSink sink)" "shuffled (set_thread t pc)" "shuffled join_thread"
  unfolding get_sink_def sink_info_of_def upd_buffer_def CheckConnected_def CheckSink_def set_thread_def join_thread_def
  by (intro shuffles sh.modifies shuffle_other; simp)+

text \<open>Replacing the state of one sink.\<close>

lemma mset_concat_update:
  "i < length xs \<Longrightarrow> mset (concat (map f (xs[i := y]))) + mset (f (xs ! i)) = mset (concat (map f xs)) + mset (f y)"
proof (induction xs arbitrary: i)
  case (Cons x xs)
  then show ?case by (cases i) (auto simp: ac_simps)
qed simp

lemma get_sink_ok:
  "0 \<le>s sink \<Longrightarrow> unat sink < length (m_sinkState s) \<Longrightarrow> get_sink sink s = Done (m_sinkState s ! unat sink) s"
  by (simp add: get_sink_def cswp_check_def nth_c_def signed.not_less)

lemma get_sink_cases:
  obtains (ok) "0 \<le>s sink" "unat sink < length (m_sinkState s)" "get_sink sink s = Done (m_sinkState s ! unat sink) s"
    | (bad) "get_sink sink s = Undef OutOfBounds"
  by (cases "sink <s 0"; cases "unat sink < length (m_sinkState s)")
    (auto simp: get_sink_def cswp_check_def nth_c_def signed.not_less)

definition put_sink :: "c_int \<Rightarrow> sink_state \<Rightarrow> ('d, 'r) strace \<Rightarrow> ('d, 'r) strace" where
  "put_sink sink y s = s\<lparr>m_sinkState := (m_sinkState s)[unat sink := y]\<rparr>"

lemma upd_sink_eq: "get_sink sink s = Done x s \<Longrightarrow> upd_sink sink f s = Done () (put_sink sink (f x) s)"
  by (simp add: upd_sink_def cswp_check_def put_sink_def)

lemma put_sink_tokens:
  "unat sink < length (m_sinkState s) \<Longrightarrow>
    st_tokens (put_sink sink y s) + mset (sink_tokens (m_sinkState s ! unat sink)) = st_tokens s + mset (sink_tokens y)"
  by (simp add: st_tokens_def put_sink_def mset_concat_update)

lemma put_sink_bounded:
  assumes "st_bounded s" and "unat sink < length (m_sinkState s)"
    and "length (ss_pending y) \<le> unat (sd_dataBufferCount (m_sinkInfo s ! unat sink))"
  shows "st_bounded (put_sink sink y s)"
  using assms by (auto simp: st_bounded_def put_sink_def nth_list_update)

lemma shuffle_put_sink:
  assumes "unat sink < length (m_sinkState s)" and "mset (sink_tokens y) = mset (sink_tokens (m_sinkState s ! unat sink))"
    and "st_bounded s \<Longrightarrow> length (ss_pending y) \<le> unat (sd_dataBufferCount (m_sinkInfo s ! unat sink))"
  shows "shuffle s (put_sink sink y s)"
  using put_sink_tokens [OF assms(1), of y] assms put_sink_bounded [of s sink y]
  by (simp add: shuffle_def) (simp add: put_sink_def)

lemma bounded_pending:
  "st_bounded s \<Longrightarrow> unat sink < length (m_sinkState s) \<Longrightarrow>
    length (ss_pending (m_sinkState s ! unat sink)) \<le> unat (sd_dataBufferCount (m_sinkInfo s ! unat sink))"
  by (simp add: st_bounded_def)

lemma shuffled_upd [shuffles]:
  assumes "\<And>x. mset (sink_tokens (f x)) = mset (sink_tokens x)" and "\<And>x. length (ss_pending (f x)) \<le> length (ss_pending x)"
  shows "shuffled (upd_sink sink f :: ('d, 'r, unit) st_prog)"
proof -
  have "case upd_sink sink f s of Done _ s' \<Rightarrow> shuffle s s' | Fail _ s' \<Rightarrow> shuffle s s' | Undef _ \<Rightarrow> True"
    for s :: "('d, 'r) strace"
  proof (cases rule: get_sink_cases [of sink s])
    case ok
    have "shuffle s (put_sink sink (f (m_sinkState s ! unat sink)) s)"
      by (rule shuffle_put_sink [OF ok(2) assms(1)]) (use assms(2) bounded_pending [OF _ ok(2)] in \<open>blast intro: le_trans\<close>)
    then show ?thesis by (simp add: upd_sink_eq [OF ok(3)])
  qed (simp add: upd_sink_def cswp_check_def)
  then show ?thesis by (simp add: obeys_def)
qed

lemma complete_event_shuffled [shuffles]: "shuffled (complete_event sink f :: ('d, 'r, bool) st_prog)"
proof -
  have "case complete_event sink f s of Done _ s' \<Rightarrow> shuffle s s' | Fail _ s' \<Rightarrow> shuffle s s' | Undef _ \<Rightarrow> True"
    for s :: "('d, 'r) strace"
  proof (cases rule: get_sink_cases [of sink s])
    case ok
    let ?x = "m_sinkState s ! unat sink"
    show ?thesis
    proof (cases "ss_events ?x")
      case (Cons b bs)
      let ?y = "?x\<lparr>ss_events := bs, ss_completed := ss_completed ?x @ [sb_token b]\<rparr>"
      have p: "shuffle s' (put_sink sink ?y s')" if "m_sinkState s' = m_sinkState s" for s' :: "('d, 'r) strace"
      proof (rule shuffle_put_sink)
        show "length (ss_pending ?y) \<le> unat (sd_dataBufferCount (m_sinkInfo s' ! unat sink))" if "st_bounded s'"
          using bounded_pending [of s' sink] ok(2) that \<open>m_sinkState s' = m_sinkState s\<close> by simp
      qed (use ok(2) Cons that in \<open>simp_all add: sink_tokens_def\<close>)
      show ?thesis
      proof (cases "upd_buffer (sb_ptr b) f s")
        case (Done u s')
        then have s': "shuffle s s'" "m_sinkState s' = m_sinkState s"
          by (auto simp: upd_buffer_def cswp_check_def split: option.splits intro: shuffle_other)
        then have "get_sink sink s' = Done ?x s'" using ok s'(2) by (simp add: get_sink_ok)
        then show ?thesis
          using ok(3) Cons Done shuffle_trans [OF s'(1) p [OF s'(2)]]
          by (simp add: complete_event_def cswp_check_def upd_sink_eq)
      qed (use ok(3) Cons in \<open>simp_all add: complete_event_def cswp_check_def upd_buffer_def split: option.splits\<close>)
    qed (use ok(3) in \<open>simp add: complete_event_def cswp_check_def\<close>)
  qed (simp add: complete_event_def cswp_check_def)
  then show ?thesis by (simp add: obeys_def)
qed

lemma complete_events_shuffled [shuffles]: "shuffled (complete_events n sink)"
  by (induction n) (simp_all add: shuffles del: ret_apply)

lemma doSendStateEvent_shuffled [shuffles]: "shuffled (doSendStateEvent sink t)" "shuffled (SendStateEvent sink t)"
  unfolding SendStateEvent_def doSendStateEvent_def by (intro shuffles)+

subsection \<open>The device\<close>

text \<open>What the class relies on in its virtual functions: they move tokens at most, and handing over a buffer
  does not touch the sinks.\<close>

locale trace_device =
  fixes V :: "('d, 'r, 'w) st_virtual"
  assumes connects: "shuffled (v_doConnect V)" "shuffled (v_discoverSinks V)" "shuffled (v_doDisconnect V)"
    and attaches: "shuffled (v_attachDevice V sink)" "shuffled (v_detachDevice V ws sink)"
    and runs: "shuffled (v_startDevice V sink)" "shuffled (v_stopDevice V sink)" "shuffled (v_doFlush V sink)"
      "shuffled (v_doCancelPendingBuffers V sink)"
    and transfers: "shuffled (v_transfer V w)" "shuffled (v_received V r sink b)"
    and submits: "shuffled (v_submitBuffer V sink b)"
    and submit_sinks: "v_submitBuffer V sink b s = Done u s' \<Longrightarrow> m_sinkState s' = m_sinkState s"
begin

lemma submit_loop_shuffled: "shuffled (submit_loop n V sink)"
proof (induction n)
  case (Suc n)
  have "case submit_loop (Suc n) V sink s of Done _ s' \<Rightarrow> shuffle s s' | Fail _ s' \<Rightarrow> shuffle s s' | Undef _ \<Rightarrow> True"
    for s :: "('d, 'r) strace"
  proof (cases rule: get_sink_cases [of sink s])
    case ok
    let ?x = "m_sinkState s ! unat sink"
    show ?thesis
    proof (cases "unat sink < length (m_sinkInfo s)")
      case False
      then show ?thesis using ok by (auto simp: cswp_check_def sink_info_of_def nth_c_def)
    next
      case True
      let ?n = "sd_dataBufferCount (m_sinkInfo s ! unat sink)"
      have i: "sink_info_of sink s = Done (m_sinkInfo s ! unat sink) s"
        using True ok(1) by (simp add: sink_info_of_def cswp_check_def nth_c_def signed.not_less)
      show ?thesis
      proof (cases "of_nat (length (ss_pending ?x)) < ?n \<and> ss_queued ?x \<noteq> []")
        case False
        then show ?thesis using ok(3) i by (auto simp: cswp_check_def)
      next
        case room: True
        then obtain b q where q: "ss_queued ?x = b # q" by (cases "ss_queued ?x") auto
        show ?thesis
        proof (cases "v_submitBuffer V sink b s")
          case (Done u s')
          let ?y = "?x\<lparr>ss_queued := q, ss_pending := ss_pending ?x @ [b]\<rparr>"
          have same: "m_sinkState s' = m_sinkState s" using submit_sinks Done .
          have s': "shuffle s s'" using submits Done by (rule obeysD)
          have put: "shuffle s' (put_sink sink ?y s')"
          proof (rule shuffle_put_sink)
            assume "st_bounded s'"
            then have le: "length (ss_pending ?x) \<le> unat ?n"
              using bounded_pending [of s' sink] ok(2) same s' by (simp add: shuffle_def)
            then have "unat (of_nat (length (ss_pending ?x)) :: size_t) = length (ss_pending ?x)"
              by (intro unat_of_nat_small) (use unsigned_less [of ?n, where ?'a = nat] in simp)
            then show "length (ss_pending ?y) \<le> unat (sd_dataBufferCount (m_sinkInfo s' ! unat sink))"
              using room s' by (simp add: word_less_nat_alt shuffle_def)
          qed (use ok(2) q same in \<open>simp_all add: sink_tokens_def\<close>)
          have "get_sink sink s' = Done ?x s'" using ok same by (simp add: get_sink_ok)
          then have "submit_loop (Suc n) V sink s = submit_loop n V sink (put_sink sink ?y s')"
            using ok(3) i room q Done by (simp add: cswp_check_def upd_sink_eq)
          moreover have "case submit_loop n V sink (put_sink sink ?y s') of Done _ v \<Rightarrow> shuffle (put_sink sink ?y s') v
              | Fail _ v \<Rightarrow> shuffle (put_sink sink ?y s') v | Undef _ \<Rightarrow> True"
            using Suc by (simp only: obeys_def)
          ultimately show ?thesis
            using shuffle_trans [OF shuffle_trans [OF s' put]] by (auto split: outcome.splits)
        next
          case (Fail e s')
          then show ?thesis using ok(3) i room q obeysD(2) [OF submits Fail] by (simp add: cswp_check_def)
        qed (use ok(3) i room q in \<open>simp add: cswp_check_def\<close>)
      qed
    qed
  qed (simp add: cswp_check_def)
  then show ?case by (simp add: obeys_def)
qed (simp add: shuffles del: ret_apply)

lemma submitBuffers_shuffled: "shuffled (submitBuffers V sink)"
  unfolding submitBuffers_def by (intro shuffles submit_loop_shuffled)

text \<open>The calls that only move tokens.\<close>

lemma calls_shuffled:
  "shuffled (Attach V sink)" "shuffled (Detach_begin V sink)" "shuffled (Start V sink)" "shuffled (Stop V sink)" "shuffled (Flush V sink)"
  "shuffled (thread_wait V t sink)" "shuffled (thread_transfer V w t b)"
  unfolding Attach_def Detach_begin_def Start_def Stop_def Flush_def thread_wait_def thread_transfer_def
  by (intro shuffles submitBuffers_shuffled attaches runs transfers sh.modifies shuffle_other; simp add: sink_tokens_def)+

end

end
