(* ===== verification/Trace_Tokens.thy ===== *)
theory Trace_Tokens
  imports Streaming_Trace
begin

text \<open>
  What becomes of the buffers a client hands to the streaming trace library. A run is any sequence of
  calls of the client and steps of the data threads, with exceptions, and a log of the tokens taken,
  given back and given up. The lemmas on one step are proved for every device that keeps to the
  contract \<open>trace_device\<close>.
\<close>

subsection \<open>Giving up tokens\<close>

lemma dropping_upd:
  assumes "\<And>x. mset (sink_tokens (f x)) \<subseteq># mset (sink_tokens x)" and "\<And>x. length (ss_pending (f x)) \<le> length (ss_pending x)"
  shows "obeys drops (upd_sink sink f :: ('d, 'r, unit) st_prog)"
proof -
  have "case upd_sink sink f s of Done _ s' \<Rightarrow> drops s s' | Fail _ s' \<Rightarrow> drops s s' | Undef _ \<Rightarrow> True"
    for s :: "('d, 'r) strace"
  proof (cases rule: get_sink_cases [of sink s])
    case ok
    let ?x = "m_sinkState s ! unat sink"
    let ?v = "put_sink sink (f ?x) s"
    obtain D where D: "mset (sink_tokens ?x) = mset (sink_tokens (f ?x)) + D" using assms(1) [of ?x] mset_subset_eq_exists_conv by metis
    have "st_tokens ?v + mset (sink_tokens ?x) = st_tokens s + mset (sink_tokens (f ?x))" by (rule put_sink_tokens [OF ok(2)])
    then have "st_tokens s = st_tokens ?v + D" by (simp add: D ac_simps)
    moreover have "st_bounded ?v" if "st_bounded s"
      by (rule put_sink_bounded [OF that ok(2)]) (rule le_trans [OF assms(2) bounded_pending [OF that ok(2)]])
    ultimately have "drops s ?v" by (simp add: drops_def) (simp add: put_sink_def)
    then show ?thesis by (simp add: upd_sink_eq [OF ok(3)])
  qed (simp add: upd_sink_def cswp_check_def)
  then show ?thesis by (simp add: obeys_def)
qed

lemma mset_tl: "mset (tl xs) \<subseteq># mset xs"
  by (cases xs) simp_all

lemma shuffled_dropping: "shuffled m \<Longrightarrow> obeys drops m"
  by (rule obeys_mono [where R = shuffle]) (simp_all add: shuffle_drops)

subsection \<open>Tokens that come and go\<close>

text \<open>\<open>A\<close> leaves the sinks and \<open>B\<close> enters them.\<close>

definition handed :: "c_int multiset \<Rightarrow> c_int multiset \<Rightarrow> ('d, 'r) strace \<Rightarrow> ('d, 'r) strace \<Rightarrow> bool" where
  "handed A B s s' \<longleftrightarrow> m_sinkInfo s' = m_sinkInfo s \<and> m_nextToken s' = m_nextToken s \<and> st_tokens s' + A = st_tokens s + B
     \<and> (st_bounded s \<longrightarrow> st_bounded s')"

lemma handed_trans: "handed A B s s' \<Longrightarrow> handed C D s' s'' \<Longrightarrow> handed (A + C) (B + D) s s''"
  unfolding handed_def by (metis (no_types, lifting) add.assoc add.commute)

lemma handed_nothing: "handed {#} {#} s s' \<longleftrightarrow> shuffle s s'"
  by (auto simp: handed_def shuffle_def)

lemma handed_shuffle: "handed A B s s' \<Longrightarrow> shuffle s' s'' \<Longrightarrow> handed A B s s''" "shuffle s s' \<Longrightarrow> handed A B s' s'' \<Longrightarrow> handed A B s s''"
  by (auto simp: handed_def shuffle_def)

text \<open>One sink changes its tokens from \<open>X + A\<close> to \<open>X + B\<close>.\<close>

lemma handed_upd:
  assumes "upd_sink sink f s = Done u s'" and "\<And>x. get_sink sink s = Done x s \<Longrightarrow> mset (sink_tokens (f x)) + A = mset (sink_tokens x) + B"
    and "\<And>x. length (ss_pending (f x)) \<le> length (ss_pending x)"
  shows "handed A B s s'"
proof (cases rule: get_sink_cases [of sink s])
  case ok
  let ?x = "m_sinkState s ! unat sink"
  have v: "s' = put_sink sink (f ?x) s" using assms(1) by (simp add: upd_sink_eq [OF ok(3)])
  have "st_tokens s' + mset (sink_tokens ?x) = st_tokens s + mset (sink_tokens (f ?x))"
    unfolding v by (rule put_sink_tokens [OF ok(2)])
  then have "(st_tokens s' + A) + mset (sink_tokens ?x) = (st_tokens s + B) + mset (sink_tokens ?x)"
    using assms(2) [OF ok(3)] by (metis (no_types, lifting) add.assoc add.commute)
  moreover have "st_bounded s'" if "st_bounded s"
    unfolding v by (rule put_sink_bounded [OF that ok(2)]) (rule le_trans [OF assms(3) bounded_pending [OF that ok(2)]])
  ultimately show ?thesis by (simp add: handed_def v) (simp add: put_sink_def)
qed (use assms(1) in \<open>simp add: upd_sink_def cswp_check_def\<close>)

lemma wait_moves: "WaitForEvent sink s = Done k s' \<Longrightarrow> handed {#k#} {#} s s'" "WaitForEvent sink s = Fail e s' \<Longrightarrow> s' = s"
proof -
  assume w: "WaitForEvent sink s = Done k s'"
  then obtain x rest where x: "get_sink sink s = Done x s" "ss_completed x = k # rest" and
      u: "upd_sink sink (\<lambda>y. y\<lparr>ss_completed := rest\<rparr>) s = Done () s'"
    by (cases rule: get_sink_cases [of sink s])
      (auto simp: WaitForEvent_def cswp_check_def CheckSink_def split: if_splits list.splits outcome.splits)
  show "handed {#k#} {#} s s'" by (rule handed_upd [OF u]) (use x in \<open>auto simp: sink_tokens_def\<close>)
next
  assume "WaitForEvent sink s = Fail e s'"
  then show "s' = s"
    by (cases rule: get_sink_cases [of sink s])
      (auto simp: WaitForEvent_def cswp_check_def CheckSink_def upd_sink_def split: if_splits list.splits outcome.splits)
qed

text \<open>A buffer the client hands in has the next token. When the call fails the token may still be used.\<close>

definition numbered :: "('d, 'r) strace \<Rightarrow> ('d, 'r) strace" where
  "numbered s = s\<lparr>m_nextToken := m_nextToken s + 1\<rparr>"

lemma check_DoneE:
  assumes "cswp_check m k s = Done y s'" obtains x v where "m s = Done x v" "k x v = Done y s'"
  using assms by (auto simp: cswp_check_def split: outcome.splits)

lemma check_FailE:
  assumes "cswp_check m k s = Fail e s'" obtains "m s = Fail e s'" | x v where "m s = Done x v" "k x v = Fail e s'"
  using assms by (auto simp: cswp_check_def split: outcome.splits)

lemma get_sink_same: "get_sink sink s = Done x v \<Longrightarrow> v = s" "get_sink sink s \<noteq> Fail e v"
  by (cases rule: get_sink_cases [of sink s]; simp)+

lemma upd_sink_no_fail: "upd_sink sink f s \<noteq> Fail e v"
  by (cases rule: get_sink_cases [of sink s]) (auto simp: upd_sink_def cswp_check_def)

context trace_device begin

lemma drain_drops: "obeys drops (drain_pending V sink ws)"
proof (induction ws)
  case (Cons w ws)
  show ?case
    unfolding drain_pending.simps
    by (intro dr.check dr.branches dr.basic dropping_upd Cons shuffled_dropping [OF shuffled_get(1)]
        shuffled_dropping [OF transfers(1)] shuffled_dropping [OF transfers(2)])
      (auto simp: sink_tokens_def mset_tl intro!: image_mset_subseteq_mono)
qed (auto intro!: dr.check dr.basic shuffled_dropping [OF shuffled_get(1)] simp del: ret_apply)

lemma detach_drops: "obeys drops (Detach_end V ws ws' sink)"
  unfolding Detach_end_def
  by (intro dr.check dr.branches dr.basic dropping_upd drain_drops shuffled_dropping [OF shuffled_get(7)]
      shuffled_dropping [OF runs(4)] shuffled_dropping [OF attaches(2)]) (auto simp: sink_tokens_def)

lemma queue_moves:
  "queue_buffer V sink st t b s = Done () s' \<Longrightarrow> handed {#} {#sb_token b#} s s'"
  "queue_buffer V sink st t b s = Fail e s' \<Longrightarrow> shuffle s s' \<or> handed {#} {#sb_token b#} s s'"
proof -
  have q: "handed {#} {#sb_token b#} s v" if "upd_sink sink (\<lambda>y. y\<lparr>ss_queued := ss_queued y @ [b]\<rparr>) s = Done () v" for v
    by (rule handed_upd [OF that]) (simp_all add: sink_tokens_def)
  have ev: "handed {#} {#sb_token b#} s v" if "upd_sink sink (\<lambda>y. y\<lparr>ss_events := ss_events y @ [b]\<rparr>) s = Done () v" for v
    by (rule handed_upd [OF that]) (simp_all add: sink_tokens_def)
  note sh = obeysD [OF submitBuffers_shuffled]
  show "handed {#} {#sb_token b#} s s'" if "queue_buffer V sink st t b s = Done () s'"
    using that unfolding queue_buffer_def
    by (auto elim!: check_DoneE split: if_splits dest!: q ev sh intro: handed_shuffle(1))
  show "shuffle s s' \<or> handed {#} {#sb_token b#} s s'" if "queue_buffer V sink st t b s = Fail e s'"
    using that unfolding queue_buffer_def
    by (auto elim!: check_FailE split: if_splits dest!: q ev sh simp: upd_sink_no_fail intro: handed_shuffle(1))
qed

lemma submit_moves:
  "SubmitEventBuffer V sink t p s = Done k s' \<Longrightarrow>
    k = m_nextToken s \<and> m_nextToken s \<noteq> 0x7FFFFFFF \<and> handed {#} {#k#} (numbered s) s'"
  "SubmitEventBuffer V sink t p s = Fail e s' \<Longrightarrow>
    s' = s \<or> m_nextToken s \<noteq> 0x7FFFFFFF \<and> (shuffle (numbered s) s' \<or> handed {#} {#m_nextToken s#} (numbered s) s')"
proof -
  let ?f = "\<lambda>b. b\<lparr>cb_type := EVENT_TYPE_NONE, cb_used := 0\<rparr>"
  have ub: "shuffle v v'" if "upd_buffer p ?f v = Done u v'" for u and v v' :: "('d, 'r) strace"
    using shuffled_get(3) that by (rule obeysD)
  have uf: "upd_buffer p ?f v \<noteq> Fail e v'" for e and v v' :: "('d, 'r) strace"
    by (auto simp: upd_buffer_def cswp_check_def split: option.splits)
  show "k = m_nextToken s \<and> m_nextToken s \<noteq> 0x7FFFFFFF \<and> handed {#} {#k#} (numbered s) s'"
    if "SubmitEventBuffer V sink t p s = Done k s'"
    using that
    by (cases rule: get_sink_cases [of sink s])
      (auto simp: SubmitEventBuffer_def CheckConnected_def CheckSink_def cswp_check_def numbered_def
        split: if_splits outcome.splits dest!: ub queue_moves(1) intro: handed_shuffle(2))
  show "s' = s \<or> m_nextToken s \<noteq> 0x7FFFFFFF \<and> (shuffle (numbered s) s' \<or> handed {#} {#m_nextToken s#} (numbered s) s')"
    if "SubmitEventBuffer V sink t p s = Fail e s'"
    using that
    by (cases rule: get_sink_cases [of sink s])
      (auto simp: SubmitEventBuffer_def CheckConnected_def CheckSink_def cswp_check_def numbered_def uf
        split: if_splits outcome.splits dest!: ub queue_moves(2) intro: handed_shuffle(2) shuffle_trans)
qed

text \<open>A data thread that gets its buffer moves the token to the completed ones. It is lost when handing over
  the next buffer throws.\<close>

lemma received_moves:
  "data_received V sink b s = Done () s' \<Longrightarrow> shuffle s s'"
  "data_received V sink b s = Fail e s' \<Longrightarrow> handed {#sb_token b#} {#} s s'"
proof -
  let ?pop = "upd_sink sink (\<lambda>y. y\<lparr>ss_pending := tl (ss_pending y)\<rparr>)" and ?push = "upd_sink sink (\<lambda>y. y\<lparr>ss_completed := ss_completed y @ [sb_token b]\<rparr>)"
  let ?rest = "\<lambda>x. if ss_pending x = [] \<or> hd (ss_pending x) \<noteq> b then undef OutOfBounds
    else cswp_check ?pop (\<lambda>_. cswp_check (if ss_status x = ACTIVE then submitBuffers V sink else ret ()) (\<lambda>_. ?push))"
  have next_ok: "shuffled (if st = ACTIVE then submitBuffers V sink else ret ())" for st
    by (intro shuffles submitBuffers_shuffled)
  have pop: "handed {#sb_token b#} {#} s v"
    if "get_sink sink s = Done x s" "ss_pending x \<noteq> []" "hd (ss_pending x) = b" "?pop s = Done () v" for x v
  proof (rule handed_upd [OF that(4)])
    fix y assume "get_sink sink s = Done y s"
    then have "y = x" using that(1) by simp
    then show "mset (sink_tokens (y\<lparr>ss_pending := tl (ss_pending y)\<rparr>)) + {#sb_token b#} = mset (sink_tokens y) + {#}"
      using that(2,3) by (cases "ss_pending x") (auto simp: sink_tokens_def)
  qed simp
  have push: "handed {#} {#sb_token b#} v v'" if "?push v = Done () v'" for v v' :: "('d, 'r) strace"
    by (rule handed_upd [OF that]) (simp_all add: sink_tokens_def)
  have all: "handed {#sb_token b#} {#sb_token b#} s v" if "handed {#sb_token b#} {#} s w" "shuffle w w'" "handed {#} {#sb_token b#} w' v" for w w' v
    using handed_trans [OF handed_shuffle(1) [OF that(1,2)] that(3)] by simp
  show "shuffle s s'" if fin: "data_received V sink b s = Done () s'"
  proof -
    obtain x v w where x: "get_sink sink s = Done x s" "ss_pending x \<noteq> []" "hd (ss_pending x) = b" "?pop s = Done () v"
        and w: "(if ss_status x = ACTIVE then submitBuffers V sink else ret ()) v = Done () w" "?push w = Done () s'"
    proof -
      obtain x v where x: "get_sink sink s = Done x v" "?rest x v = Done () s'"
        using fin [unfolded data_received_def] by (rule check_DoneE)
      moreover have "v = s" using x(1) by (rule get_sink_same)
      ultimately show ?thesis
        using that by (cases "ss_pending x = [] \<or> hd (ss_pending x) \<noteq> b") (auto elim!: check_DoneE simp del: ret_apply)
    qed
    have "handed {#sb_token b#} {#sb_token b#} s s'"
      by (rule all [OF pop [OF x] obeysD(1) [OF next_ok w(1)] push [OF w(2)]])
    then show ?thesis by (simp add: handed_def shuffle_def)
  qed
  show "handed {#sb_token b#} {#} s s'" if failed: "data_received V sink b s = Fail e s'"
  proof -
    obtain x v where x: "get_sink sink s = Done x s" "ss_pending x \<noteq> []" "hd (ss_pending x) = b" "?pop s = Done () v"
        and w: "(if ss_status x = ACTIVE then submitBuffers V sink else ret ()) v = Fail e s'"
    proof -
      obtain x v where x: "get_sink sink s = Done x v" "?rest x v = Fail e s'"
        using failed [unfolded data_received_def] by (rule check_FailE) (simp add: get_sink_same(2))
      moreover have "v = s" using x(1) by (rule get_sink_same)
      ultimately show ?thesis
        using that by (cases "ss_pending x = [] \<or> hd (ss_pending x) \<noteq> b")
          (auto elim!: check_FailE simp: upd_sink_no_fail simp del: ret_apply)
    qed
    show ?thesis by (rule handed_shuffle(1) [OF pop [OF x] obeysD(2) [OF next_ok w]])
  qed
qed

lemma finish_moves:
  "thread_finish V t sink b r s = Done () s' \<Longrightarrow> shuffle s s'"
  "thread_finish V t sink b r s = Fail e s' \<Longrightarrow> shuffle s s' \<or> handed {#sb_token b#} {#} s s'"
proof -
  have set: "shuffle v v'" if "set_thread t At_top v = Done () v'" for v v' :: "('d, 'r) strace"
    using shuffled_get(6) that by (rule obeysD)
  have nf: "set_thread t At_top v \<noteq> Fail e v'" for e and v v' :: "('d, 'r) strace" by (simp add: set_thread_def)
  note got = obeysD [OF transfers(2)]
  show "shuffle s s'" if "thread_finish V t sink b r s = Done () s'"
    using that unfolding thread_finish_def
    by (auto elim!: check_DoneE split: if_splits dest!: set got received_moves(1))
      (meson shuffle_trans)+
  show "shuffle s s' \<or> handed {#sb_token b#} {#} s s'" if "thread_finish V t sink b r s = Fail e s'"
    using that unfolding thread_finish_def
    by (auto elim!: check_FailE split: if_splits simp: nf dest!: got received_moves intro: shuffle_trans handed_shuffle)
qed

end

subsection \<open>Runs\<close>

datatype st_log = Took c_int | Gave c_int | Gave_up "c_int multiset"

definition ends :: "('s, 'a) prog \<Rightarrow> 's \<Rightarrow> 's \<Rightarrow> bool" where
  "ends m s s' \<longleftrightarrow> (\<exists>x. m s = Done x s') \<or> (\<exists>e. m s = Fail e s')"

definition thread_throws :: "('d, 'r, 'w) st_virtual \<Rightarrow> nat \<Rightarrow> ('d, 'r) strace \<Rightarrow> bool" where
  "thread_throws V t s = (case snd (st_threads s ! t) of
      Has_result b r \<Rightarrow> (case thread_finish V t (fst (st_threads s ! t)) b r s of Fail e v \<Rightarrow> True | _ \<Rightarrow> False)
    | _ \<Rightarrow> False)"

text \<open>A token is taken when its buffer is in a queue, also if the call that put it there throws in the end.
  Tokens are given up only when a thread ends with an exception, on \<open>Detach\<close>, and when the connection is
  made anew or closed.\<close>

inductive st_run :: "('d, 'r, 'w) st_virtual \<Rightarrow> ('d, 'r) strace \<Rightarrow> st_log list \<Rightarrow> ('d, 'r) strace \<Rightarrow> bool" for V s0 where
  begins: "st_run V s0 [] s0"
| calls: "st_run V s0 log s \<Longrightarrow> m \<in> {Attach V sink, Detach_begin V sink, Start V sink, Stop V sink, Flush V sink}
    \<Longrightarrow> ends m s s' \<Longrightarrow> st_run V s0 log s'"
| submits: "st_run V s0 log s \<Longrightarrow> SubmitEventBuffer V sink t p s = Done k s' \<Longrightarrow> st_run V s0 (log @ [Took k]) s'"
| submit_throws: "st_run V s0 log s \<Longrightarrow> SubmitEventBuffer V sink t p s = Fail e s'
    \<Longrightarrow> st_run V s0 (log @ (if st_tokens s' = st_tokens s then [] else [Took (m_nextToken s)])) s'"
| waits: "st_run V s0 log s \<Longrightarrow> WaitForEvent sink s = Done k s' \<Longrightarrow> st_run V s0 (log @ [Gave k]) s'"
| times_out: "st_run V s0 log s \<Longrightarrow> WaitForEvent sink s = Fail e s' \<Longrightarrow> st_run V s0 log s'"
| thread_runs: "st_run V s0 log s \<Longrightarrow> dataThread V w t s = Done u s'
    \<Longrightarrow> st_run V s0 (log @ (if thread_throws V t s then [Gave_up (st_tokens s - st_tokens s')] else [])) s'"
| detaches: "st_run V s0 log s \<Longrightarrow> ends (Detach_end V ws ws' sink) s s'
    \<Longrightarrow> st_run V s0 (log @ [Gave_up (st_tokens s - st_tokens s')]) s'"
| connects: "st_run V s0 log s \<Longrightarrow> ends (Connect V) s s' \<or> ends (Disconnect V) s s'
    \<Longrightarrow> st_run V s0 (log @ [Gave_up (st_tokens s - st_tokens s')]) s'"

fun took :: "st_log list \<Rightarrow> c_int multiset" where
  "took [] = {#}"
| "took (Took k # log) = add_mset k (took log)"
| "took (Gave k # log) = took log"
| "took (Gave_up M # log) = took log"

fun gave :: "st_log list \<Rightarrow> c_int multiset" where
  "gave [] = {#}"
| "gave (Took k # log) = gave log"
| "gave (Gave k # log) = add_mset k (gave log)"
| "gave (Gave_up M # log) = gave log"

fun gave_up :: "st_log list \<Rightarrow> c_int multiset" where
  "gave_up [] = {#}"
| "gave_up (Took k # log) = gave_up log"
| "gave_up (Gave k # log) = gave_up log"
| "gave_up (Gave_up M # log) = M + gave_up log"

lemma st_log_append [simp]:
  "took (xs @ ys) = took xs + took ys" "gave (xs @ ys) = gave xs + gave ys" "gave_up (xs @ ys) = gave_up xs + gave_up ys"
  by (induction xs rule: took.induct) (simp_all add: ac_simps)

definition st_accounts :: "st_log list \<Rightarrow> ('d, 'r) strace \<Rightarrow> bool" where
  "st_accounts log s \<longleftrightarrow> took log = gave log + gave_up log + st_tokens s \<and> once (took log)
     \<and> (\<forall>k \<in># took log. k <s m_nextToken s) \<and> 0 \<le>s m_nextToken s \<and> st_bounded s"

lemma accountsI:
  "took log = gave log + gave_up log + st_tokens s \<Longrightarrow> once (took log) \<Longrightarrow> \<forall>k \<in># took log. k <s m_nextToken s
    \<Longrightarrow> 0 \<le>s m_nextToken s \<Longrightarrow> st_bounded s \<Longrightarrow> st_accounts log s"
  unfolding st_accounts_def by blast

lemma accountsD:
  assumes "st_accounts log s"
  shows "took log = gave log + gave_up log + st_tokens s" "once (took log)" "\<forall>k \<in># took log. k <s m_nextToken s"
    "0 \<le>s m_nextToken s" "st_bounded s"
  using assms unfolding st_accounts_def by blast+

lemma accounts_shuffle:
  assumes "st_accounts log s" and "shuffle s s'" shows "st_accounts log s'"
proof -
  have "m_nextToken s' = m_nextToken s" "st_tokens s' = st_tokens s" "st_bounded s \<longrightarrow> st_bounded s'"
    using assms(2) by (simp_all add: shuffle_def)
  then show ?thesis using accountsD [OF assms(1)] by (intro accountsI) (simp_all only:)
qed

lemma accounts_drop:
  assumes "st_accounts log s" and "m_nextToken s' = m_nextToken s" and "st_tokens s' \<subseteq># st_tokens s" and "st_bounded s'"
  shows "st_accounts (log @ [Gave_up (st_tokens s - st_tokens s')]) s'"
proof (rule accountsI)
  have "st_tokens s = (st_tokens s - st_tokens s') + st_tokens s'" using assms(3) by simp
  then show "took (log @ [Gave_up (st_tokens s - st_tokens s')]) = gave (log @ [Gave_up (st_tokens s - st_tokens s')])
      + gave_up (log @ [Gave_up (st_tokens s - st_tokens s')]) + st_tokens s'"
    using accountsD(1) [OF assms(1)] by (simp add: add.assoc)
qed (use accountsD(2-5) [OF assms(1)] assms in simp_all)

lemma accounts_gave:
  assumes "st_accounts log s" and "handed {#k#} {#} s s'" shows "st_accounts (log @ [Gave k]) s'"
proof (rule accountsI)
  have "st_tokens s = add_mset k (st_tokens s')" using assms(2) by (simp add: handed_def)
  then show "took (log @ [Gave k]) = gave (log @ [Gave k]) + gave_up (log @ [Gave k]) + st_tokens s'"
    using accountsD(1) [OF assms(1)] by simp
qed (use accountsD(2-5) [OF assms(1)] assms(2) in \<open>simp_all add: handed_def\<close>)

text \<open>The next token is a new one.\<close>

lemma accounts_next:
  assumes "st_accounts log s" and "m_nextToken s \<noteq> 0x7FFFFFFF"
  shows "once (add_mset (m_nextToken s) (took log))" "0 \<le>s m_nextToken s + 1"
    "\<forall>k \<in># add_mset (m_nextToken s) (took log). k <s m_nextToken s + 1"
proof -
  note n = accountsD(2-4) [OF assms(1)]
  then have "m_nextToken s \<notin># took log" by auto
  then show "once (add_mset (m_nextToken s) (took log))" "0 \<le>s m_nextToken s + 1"
    "\<forall>k \<in># add_mset (m_nextToken s) (took log). k <s m_nextToken s + 1"
    using n token_incr [OF n(3) assms(2)] by auto
qed

lemma numbered_simps [simp]: "st_tokens (numbered s) = st_tokens s" "m_nextToken (numbered s) = m_nextToken s + 1"
    "st_bounded (numbered s) \<longleftrightarrow> st_bounded s" "m_sinkInfo (numbered s) = m_sinkInfo s"
  by (simp_all add: numbered_def st_tokens_def st_bounded_def)

lemma accounts_took:
  assumes "st_accounts log s" and "m_nextToken s \<noteq> 0x7FFFFFFF" and "handed {#} {#m_nextToken s#} (numbered s) s'"
  shows "st_accounts (log @ [Took (m_nextToken s)]) s'"
proof (rule accountsI)
  have "st_tokens s' = add_mset (m_nextToken s) (st_tokens s)" using assms(3) by (simp add: handed_def)
  then show "took (log @ [Took (m_nextToken s)]) = gave (log @ [Took (m_nextToken s)]) + gave_up (log @ [Took (m_nextToken s)]) + st_tokens s'"
    using accountsD(1) [OF assms(1)] by simp
qed (use accountsD(5) [OF assms(1)] accounts_next [OF assms(1,2)] assms(3) in \<open>simp_all add: handed_def\<close>)

lemma accounts_skip:
  assumes "st_accounts log s" and "m_nextToken s \<noteq> 0x7FFFFFFF" and "shuffle (numbered s) s'"
  shows "st_accounts log s'"
proof (rule accountsI)
  show "took log = gave log + gave_up log + st_tokens s'"
    using accountsD(1) [OF assms(1)] assms(3) by (simp add: shuffle_def)
qed (use accountsD(2,5) [OF assms(1)] accounts_next [OF assms(1,2)] assms(3) in \<open>simp_all add: shuffle_def\<close>)

context trace_device begin

lemma thread_moves:
  "dataThread V w t s = Done u s' \<Longrightarrow> if thread_throws V t s then drops s s' else shuffle s s'"
  "dataThread V w t s \<noteq> Fail e s'"
proof -
  have set: "shuffle v v'" if "set_thread t pc v = Done u v'" for u pc and v v' :: "('d, 'r) strace"
    using shuffled_get(6) that by (rule obeysD)
  have lost: "drops v v'" if "handed {#k#} {#} v v'" for k and v v' :: "('d, 'r) strace"
  proof -
    have "st_tokens v = add_mset k (st_tokens v')" using that by (simp add: handed_def)
    then show ?thesis using that by (simp add: handed_def drops_def)
  qed
  note sh = obeysD [OF calls_shuffled(6)] obeysD [OF calls_shuffled(7)]
  show "dataThread V w t s \<noteq> Fail e s'"
    by (auto simp: dataThread_def cswp_check_def attempt_def nth_c_def set_thread_def modify_def ret_def undef_def split: outcome.splits)
  show "if thread_throws V t s then drops s s' else shuffle s s'" if "dataThread V w t s = Done u s'"
  proof (cases "snd (st_threads s ! t)")
    case (Has_result b r)
    let ?f = "thread_finish V t (fst (st_threads s ! t)) b r s"
    have t: "t < length (st_threads s)" using that by (auto simp: dataThread_def cswp_check_def nth_c_def split: if_splits)
    show ?thesis
    proof (cases ?f)
      case (Done x v)
      then have "s' = v" "\<not> thread_throws V t s"
        using that Has_result t by (simp_all add: dataThread_def cswp_check_def nth_c_def thread_throws_def)
      then show ?thesis using finish_moves(1) Done by auto
    next
      case (Fail e v)
      then have "set_thread t Exited v = Done u s'" "thread_throws V t s"
        using that Has_result t by (simp_all add: dataThread_def cswp_check_def nth_c_def thread_throws_def)
      moreover from finish_moves(2) [OF Fail] have "drops s v" using lost shuffle_drops by blast
      ultimately show ?thesis using set shuffle_drops drops_trans by metis
    next
      case (Undef u)
      then show ?thesis using that Has_result t by (simp add: dataThread_def cswp_check_def nth_c_def)
    qed
  qed (use that in \<open>auto simp: dataThread_def cswp_check_def nth_c_def attempt_def thread_throws_def
      split: if_splits outcome.splits dest!: sh set intro: shuffle_trans\<close>)
qed

lemma connect_tokens:
  assumes "st_bounded s" and "ends (Connect V) s s' \<or> ends (Disconnect V) s s'"
  shows "m_nextToken s' = m_nextToken s \<and> st_tokens s' \<subseteq># st_tokens s \<and> st_bounded s'"
proof -
  have fresh: "st_tokens (v\<lparr>m_sinkInfo := infos, m_sinkState := replicate n SinkState\<rparr>) = {#}" for v :: "('d, 'r) strace" and infos n
    by (induction n) (simp_all add: st_tokens_def sink_tokens_def SinkState_def)
  have bounded: "st_bounded (v\<lparr>m_sinkInfo := map f infos, m_sinkState := replicate (length infos) SinkState\<rparr>)" for v :: "('d, 'r) strace" and f infos
    by (simp add: st_bounded_def SinkState_def)
  have none: "st_tokens (v\<lparr>m_sinkInfo := [], m_sinkState := []\<rparr>) = {#}" "st_bounded (v\<lparr>m_sinkInfo := [], m_sinkState := []\<rparr>)"
    for v :: "('d, 'r) strace" by (simp_all add: st_tokens_def st_bounded_def)
  note sh = obeysD [OF connects(1)] obeysD [OF connects(2)] obeysD [OF connects(3)]
  have "shuffle s s' \<or> st_tokens s' = {#} \<and> st_bounded s' \<and> m_nextToken s' = m_nextToken s"
    if "Connect V s = Done x s'" for x
    using that unfolding Connect_def
    by (auto elim!: check_DoneE dest!: sh simp: fresh bounded) (simp add: shuffle_def)
  moreover have "shuffle s s'" if "Connect V s = Fail e s'" for e
    using that unfolding Connect_def
    by (auto elim!: check_FailE dest!: sh) (meson shuffle_trans)
  moreover have "shuffle s s' \<or> st_tokens s' = {#} \<and> st_bounded s' \<and> m_nextToken s' = m_nextToken s"
    if "Disconnect V s = Done x s'" for x
    using that unfolding Disconnect_def
    by (auto elim!: check_DoneE dest!: sh simp: none) (simp add: shuffle_def)
  moreover have "shuffle s s'" if "Disconnect V s = Fail e s'" for e
    using that unfolding Disconnect_def by (auto elim!: check_FailE dest!: sh)
  ultimately have "shuffle s s' \<or> st_tokens s' = {#} \<and> st_bounded s' \<and> m_nextToken s' = m_nextToken s"
    using assms(2) unfolding ends_def by blast
  then show ?thesis using assms(1) by (auto simp: shuffle_def)
qed

text \<open>The accounts of a run.\<close>

lemma run_accounts:
  assumes "st_run V s0 log s" and "st_tokens s0 = {#}" and "st_bounded s0" and "0 \<le>s m_nextToken s0"
  shows "st_accounts log s"
  using assms(1)
proof (induction rule: st_run.induct)
  case begins
  then show ?case using assms by (simp add: st_accounts_def)
next
  case (calls log s m sink s')
  then have "shuffled m" using calls_shuffled by auto
  then have "shuffle s s'" using calls.hyps(3) obeysD unfolding ends_def by metis
  then show ?case using calls.IH by (rule_tac accounts_shuffle)
next
  case (submits log s sink t p k s')
  with submit_moves(1) [OF submits.hyps(2)] show ?case using accounts_took by blast
next
  case (submit_throws log s sink t p e s')
  from submit_moves(2) [OF submit_throws.hyps(2)] consider "s' = s" | "m_nextToken s \<noteq> 0x7FFFFFFF" "shuffle (numbered s) s'"
    | "m_nextToken s \<noteq> 0x7FFFFFFF" "handed {#} {#m_nextToken s#} (numbered s) s'" by blast
  then show ?case
  proof cases
    case 2
    moreover have "st_tokens s' = st_tokens s" using 2(2) by (simp add: shuffle_def)
    ultimately show ?thesis using accounts_skip submit_throws.IH by simp
  next
    case 3
    moreover have "st_tokens s' \<noteq> st_tokens s" using 3(2) by (simp add: handed_def)
    ultimately show ?thesis using accounts_took submit_throws.IH by simp
  qed (use submit_throws.IH in simp)
next
  case (waits log s sink k s')
  then show ?case using wait_moves(1) accounts_gave by blast
next
  case (times_out log s sink e s')
  then show ?case using wait_moves(2) by auto
next
  case (thread_runs log s w t u s')
  have b: "st_bounded s" using thread_runs.IH by (rule accountsD)
  show ?case
  proof (cases "thread_throws V t s")
    case True
    then have "drops s s'" using thread_moves(1) [OF thread_runs.hyps(2)] by simp
    then show ?thesis using True b by (simp add: drops_def accounts_drop [OF thread_runs.IH])
  next
    case False
    then have "shuffle s s'" using thread_moves(1) [OF thread_runs.hyps(2)] by simp
    then show ?thesis using False accounts_shuffle [OF thread_runs.IH] by simp
  qed
next
  case (detaches log s ws ws' sink s')
  then have "drops s s'" using detach_drops obeysD unfolding ends_def by metis
  then show ?case using accountsD(5) [OF detaches.IH] by (intro accounts_drop detaches.IH) (simp_all add: drops_def)
next
  case (connects log s s')
  from connect_tokens [OF accountsD(5) [OF connects.IH] connects.hyps(2)] show ?case
    by (intro accounts_drop connects.IH) simp_all
qed

end

end
