(* ===== verification/Streaming_Amis.thy ===== *)
theory Streaming_Amis
  imports Trace_Tokens Usb_Connect
begin

text \<open>
  Streaming trace over USB: \<^verbatim>\<open>rddi_streaming_trace_amis/streaming_trace_usb.cpp\<close>, which hands buffers to a USB
  device, and \<^verbatim>\<open>streaming_trace_amis.cpp\<close>, which controls the trace hardware with control requests and
  learns of the end of a session from an interrupt endpoint. The classes are levels of one object, so
  their members are the device part of \<open>strace\<close>, and \<open>amis E\<close> is the table of their virtual functions. The
  USB device is the model of \<open>Usb_Device\<close> and \<open>Usb_Connect\<close>; libusb, the bus and the answers to control
  requests are the parameter \<open>E\<close>.
\<close>

subsection \<open>State\<close>

definition USB_CSTRACE_INTF_REQ_STREAM_TMC_INFO :: byte where "USB_CSTRACE_INTF_REQ_STREAM_TMC_INFO = 0"
definition USB_CSTRACE_EP_REQ_SET_TMC :: byte where "USB_CSTRACE_EP_REQ_SET_TMC = 1"
definition USB_CSTRACE_EP_REQ_SET_TX_TIMEOUT :: byte where "USB_CSTRACE_EP_REQ_SET_TX_TIMEOUT = 3"
definition USB_CSTRACE_EP_REQ_SET_BUF_SIZE :: byte where "USB_CSTRACE_EP_REQ_SET_BUF_SIZE = 5"
definition USB_CSTRACE_EP_REQ_SET_WATER_MARK :: byte where "USB_CSTRACE_EP_REQ_SET_WATER_MARK = 7"
definition USB_CSTRACE_EP_REQ_ATTACH_STREAM :: byte where "USB_CSTRACE_EP_REQ_ATTACH_STREAM = 16"
definition USB_CSTRACE_EP_REQ_DETACH_STREAM :: byte where "USB_CSTRACE_EP_REQ_DETACH_STREAM = 17"
definition USB_CSTRACE_EP_REQ_START_STREAM :: byte where "USB_CSTRACE_EP_REQ_START_STREAM = 18"
definition USB_CSTRACE_EP_REQ_STOP_STREAM :: byte where "USB_CSTRACE_EP_REQ_STOP_STREAM = 20"
definition CS_STREAM_END_SESSION :: "16 word" where "CS_STREAM_END_SESSION = 5"
definition ETR_TX_TIMEOUT :: "16 word" where "ETR_TX_TIMEOUT = 100"

record cs_trace_ctl_msg =
  cm_streamIdx :: "16 word"
  cm_status :: "16 word"
  cm_value :: "32 word"

definition sizeof_ctl_msg :: size_t where "sizeof_ctl_msg = 8"

record EndpointInfo =
  te_addr :: c_int
  te_sink :: c_int

text \<open>\<open>ad_controlEP\<close> has no value until an interrupt endpoint has been found. \<open>ad_ident\<close> holds what
  identifies the USB device: vendor, product, interface and serial number.\<close>

record amis_dev =
  ad_usb :: "(usb_conn \<times> usb_dev) option"
  ad_dataTokens :: "c_int list"
  ad_ident :: usb_ident
  ad_bufferSize :: size_t
  ad_bufferWM :: size_t
  ad_endpoints :: "EndpointInfo list"
  ad_controlEP :: "c_int option"
  ad_controlToken :: c_int
  ad_controlMsg :: cs_trace_ctl_msg
  ad_sinkMeta :: "byte list \<Rightarrow> byte list option"

type_synonym amis_state = "(amis_dev, usb_result) strace"

text \<open>The environment. \<open>en_control\<close> answers a control request, given its type, request, value and index,
  with a result code and the bytes received.\<close>

record amis_env =
  en_libusb :: libusb
  en_answers :: usb_answers
  en_control :: "byte \<Rightarrow> byte \<Rightarrow> 16 word \<Rightarrow> 16 word \<Rightarrow> c_int \<times> byte list"

text \<open>What happens in a blocking call: the events of libusb, and the control message that arrives.\<close>

type_synonym amis_wait = "usb_event list list \<times> cs_trace_ctl_msg option"

definition amis_get :: "(amis_dev \<Rightarrow> 'a) \<Rightarrow> (amis_state, 'a) prog" where
  "amis_get f = gets (\<lambda>s. f (st_dev s))"

definition set_dev :: "(amis_dev \<Rightarrow> amis_dev) \<Rightarrow> (amis_state, unit) prog" where
  "set_dev f = modify (\<lambda>s. s\<lparr>st_dev := f (st_dev s)\<rparr>)"

text \<open>Calls of the USB device; \<open>m_usb\<close> may be null.\<close>

definition on_usb :: "(usb_dev, 'a) prog \<Rightarrow> (amis_state, 'a) prog" where
  "on_usb m = cswp_check (amis_get ad_usb) (\<lambda>p. case p of
       None \<Rightarrow> undef NullDeref
     | Some cu \<Rightarrow> zoom (\<lambda>s. snd cu) (\<lambda>u s. s\<lparr>st_dev := (st_dev s)\<lparr>ad_usb := Some (fst cu, u)\<rparr>\<rparr>) m)"

definition on_conn :: "(usb_conn, 'a) prog \<Rightarrow> (amis_state, 'a) prog" where
  "on_conn m = cswp_check (amis_get ad_usb) (\<lambda>p. case p of
       None \<Rightarrow> undef NullDeref
     | Some cu \<Rightarrow> zoom (\<lambda>s. fst cu) (\<lambda>c s. s\<lparr>st_dev := (st_dev s)\<lparr>ad_usb := Some (c, snd cu)\<rparr>\<rparr>) m)"

text \<open>\<open>USBDeviceLinux::controlTransfer\<close>. It throws on a negative result, so the tests its callers make for one
  never succeed.\<close>

definition controlTransfer :: "amis_env \<Rightarrow> byte \<Rightarrow> byte \<Rightarrow> 16 word \<Rightarrow> 16 word \<Rightarrow> (amis_state, c_int \<times> byte list) prog" where
  "controlTransfer E reqType request v ix =
     cswp_check (amis_get ad_usb) (\<lambda>p.
     if p = None then undef NullDeref
     else if fst (en_control E reqType request v ix) <s 0 then fail USBException
     else ret (en_control E reqType request v ix))"

definition endpointSetParam :: "amis_env \<Rightarrow> c_int \<Rightarrow> byte \<Rightarrow> 16 word \<Rightarrow> (amis_state, c_int) prog" where
  "endpointSetParam E addr request v = cswp_check (controlTransfer E 0x42 request v (ucast addr)) (\<lambda>r. ret (fst r))"

text \<open>A request that has to succeed.\<close>

definition set_param :: "amis_env \<Rightarrow> c_int \<Rightarrow> byte \<Rightarrow> 16 word \<Rightarrow> (amis_state, unit) prog" where
  "set_param E addr request v =
     cswp_check (endpointSetParam E addr request v) (\<lambda>res. if res <s 0 then fail USBException else ret ())"

subsection \<open>Connecting\<close>

text \<open>The sinks, one request each, until one fails or answers with an empty name. The index is a 16-bit value in
  the request, so a device that always answers is asked for ever.\<close>

definition stream_name :: "c_int \<times> byte list \<Rightarrow> byte list" where
  "stream_name r = takeWhile (\<lambda>c. c \<noteq> 0) (take (unat (fst r)) (snd r))"

definition sink_of :: "byte list \<Rightarrow> (byte list \<Rightarrow> byte list option) \<Rightarrow> sink_info" where
  "sink_of etrName meta = \<lparr>sd_name = etrName, sd_metadata = (case meta etrName of None \<Rightarrow> [] | Some m \<Rightarrow> m),
     sd_dataBufferCount = of_nat MAX_IN_FLIGHT, sd_dataBufferSize = MAX_URB_SIZE, sd_eventBufferCount = 1, sd_eventBufferSize = 256\<rparr>"

function discover_from :: "amis_env \<Rightarrow> nat \<Rightarrow> sink_info list \<Rightarrow> (amis_state, sink_info list) prog" where
  "discover_from E i sinks = (if i < 65536 then
       cswp_check (amis_get ad_ident) (\<lambda>ident.
       attempt (controlTransfer E 0xC1 USB_CSTRACE_INTF_REQ_STREAM_TMC_INFO (of_nat i) (ucast (interfaceNumber ident))) (\<lambda>e. ret sinks) (\<lambda>r.
       if fst r \<le>s 0 \<or> stream_name r = [] then ret sinks
       else cswp_check (amis_get ad_sinkMeta) (\<lambda>meta. discover_from E (Suc i) (sinks @ [sink_of (stream_name r) meta]))))
     else undef Endless)"
  by pat_completeness auto
termination
  by (relation "measure (\<lambda>(E, i, sinks). 65536 - i)") auto

declare discover_from.simps [simp del]

definition discoverSinks :: "amis_env \<Rightarrow> (amis_state, sink_info list) prog" where
  "discoverSinks E = discover_from E 0 []"

text \<open>Bulk endpoints for input carry trace, an interrupt endpoint the control messages.\<close>

primrec usb_endpoints :: "ep_info list \<Rightarrow> (amis_state, unit) prog" where
  "usb_endpoints [] = ret ()"
| "usb_endpoints (e # es) =
     cswp_check
       (if ep_addr e AND EP_DIR_MASK = dir_val EP_DIR_IN \<and> ep_kind e = EP_TYPE_BULK then
          set_dev (\<lambda>d. d\<lparr>ad_endpoints := ad_endpoints d @ [\<lparr>te_addr = ep_addr e, te_sink = - 1\<rparr>]\<rparr>)
        else if ep_addr e AND EP_DIR_MASK = dir_val EP_DIR_IN \<and> ep_kind e = EP_TYPE_INTERRUPT then
          set_dev (\<lambda>d. d\<lparr>ad_controlEP := Some (ep_addr e)\<rparr>)
        else ret ()) (\<lambda>_.
     usb_endpoints es)"

definition usbSetup :: "(amis_state, unit) prog" where
  "usbSetup = cswp_check (set_dev (\<lambda>d. d\<lparr>ad_endpoints := []\<rparr>)) (\<lambda>_. cswp_check (on_usb (gets u_info)) usb_endpoints)"

text \<open>The device object is there from the moment it is created, also when \<open>connect\<close> then throws.\<close>

definition doConnect :: "amis_env \<Rightarrow> (amis_state, unit) prog" where
  "doConnect E =
     cswp_check (set_dev (\<lambda>d. d\<lparr>ad_usb := Some (no_conn, usb_init [])\<rparr>)) (\<lambda>_.
     cswp_check (amis_get ad_ident) (\<lambda>ident.
     cswp_check (on_conn (usb_connect ident (en_answers E))) (\<lambda>_.
     cswp_check (on_conn (gets k_info)) (\<lambda>eps.
     cswp_check (on_usb (modify (\<lambda>u. u\<lparr>u_info := eps\<rparr>))) (\<lambda>_.
     usbSetup)))))"

definition st_doDisconnect :: "(amis_state, unit) prog" where
  "st_doDisconnect =
     cswp_check (amis_get ad_usb) (\<lambda>p.
     if p = None then ret ()
     else cswp_check (on_conn usb_disconnect) (\<lambda>_. set_dev (\<lambda>d. d\<lparr>ad_usb := None\<rparr>)))"

definition isConnected :: "amis_state \<Rightarrow> bool" where
  "isConnected s \<longleftrightarrow> ad_usb (st_dev s) \<noteq> None"

subsection \<open>Buffers\<close>

definition submitBuffer :: "amis_env \<Rightarrow> c_int \<Rightarrow> st_buffer \<Rightarrow> (amis_state, unit) prog" where
  "submitBuffer E sink buf =
     cswp_check (get_sink sink) (\<lambda>x. case ss_transportID x of
         None \<Rightarrow> undef UninitRead
       | Some endpoint \<Rightarrow>
           cswp_check (gets st_buffers) (\<lambda>bs. case bs (sb_ptr buf) of
               None \<Rightarrow> undef OutOfBounds
             | Some b \<Rightarrow>
                 cswp_check (on_usb (submitReadTransfer (en_libusb E) endpoint (cb_size b))) (\<lambda>token.
                 set_dev (\<lambda>d. d\<lparr>ad_dataTokens := ad_dataTokens d @ [token]\<rparr>))))"

definition doCancelPendingBuffers :: "c_int \<Rightarrow> (amis_state, unit) prog" where
  "doCancelPendingBuffers sink = on_usb cancelTransfers"

definition submitControlChannelRequest :: "amis_env \<Rightarrow> (amis_state, unit) prog" where
  "submitControlChannelRequest E =
     cswp_check (amis_get ad_controlEP) (\<lambda>ep. case ep of
         None \<Rightarrow> undef UninitRead
       | Some ep \<Rightarrow>
           cswp_check (on_usb (submitReadTransfer (en_libusb E) ep sizeof_ctl_msg)) (\<lambda>token.
           set_dev (\<lambda>d. d\<lparr>ad_controlToken := token\<rparr>)))"

text \<open>A transfer that is not the expected buffer: the control message. The sink it names is not checked.\<close>

definition completeUsbTransfer :: "amis_env \<Rightarrow> c_int \<Rightarrow> transfer_status \<Rightarrow> size_t \<Rightarrow> (amis_state, bool) prog" where
  "completeUsbTransfer E token status used =
     cswp_check (amis_get id) (\<lambda>d.
     cswp_check
       (if token = ad_controlToken d then
          if status = Transfer_SUCCESS \<and> used \<ge> sizeof_ctl_msg then
            cswp_check
              (if cm_status (ad_controlMsg d) = CS_STREAM_END_SESSION
               then doSendStateEvent (ucast (cm_streamIdx (ad_controlMsg d))) EVENT_TYPE_END_OF_DATA
               else ret ()) (\<lambda>_.
            submitControlChannelRequest E)
          else set_dev (\<lambda>d. d\<lparr>ad_controlToken := - 1\<rparr>)
        else ret ()) (\<lambda>_.
     ret False))"

text \<open>What the client finds in a buffer.\<close>

definition filled :: "transfer_status \<Rightarrow> size_t \<Rightarrow> client_buffer \<Rightarrow> client_buffer" where
  "filled status used b = (case status of
      Transfer_SUCCESS \<Rightarrow> b\<lparr>cb_type := EVENT_TYPE_DATA, cb_used := used\<rparr>
    | Transfer_CANCELLED \<Rightarrow> b\<lparr>cb_type := EVENT_TYPE_DATA, cb_used := 0\<rparr>
    | _ \<Rightarrow> b\<lparr>cb_type := EVENT_TYPE_ERROR, cb_used := 0\<rparr>)"

text \<open>The two halves of \<open>waitForBuffer\<close>. The token of the transfer is compared with the oldest one that was
  submitted for data; with none the front of an empty queue is read.\<close>

definition wait_transfer :: "amis_env \<Rightarrow> amis_wait \<Rightarrow> (amis_state, usb_result option) prog" where
  "wait_transfer E w =
     cswp_check (on_usb (completeTransfer (en_libusb E) (fst w))) (\<lambda>r.
     cswp_check (case snd w of None \<Rightarrow> ret () | Some m \<Rightarrow> set_dev (\<lambda>d. d\<lparr>ad_controlMsg := m\<rparr>)) (\<lambda>_.
     ret (if r = Blocked then None else Some r)))"

definition got_transfer :: "amis_env \<Rightarrow> usb_result \<Rightarrow> c_int \<Rightarrow> st_buffer \<Rightarrow> (amis_state, bool) prog" where
  "got_transfer E r sink buf = (case r of
      Transferred token status used \<Rightarrow>
        cswp_check (amis_get ad_dataTokens) (\<lambda>ts. case ts of
            [] \<Rightarrow> undef OutOfBounds
          | expDataToken # rest \<Rightarrow>
              if token = expDataToken then
                cswp_check (set_dev (\<lambda>d. d\<lparr>ad_dataTokens := rest\<rparr>)) (\<lambda>_.
                cswp_check (upd_buffer (sb_ptr buf) (filled status used)) (\<lambda>_. ret True))
              else completeUsbTransfer E token status used)
    | _ \<Rightarrow> ret False)"

subsection \<open>Control of the trace hardware\<close>

definition epForSink :: "c_int \<Rightarrow> EndpointInfo list \<Rightarrow> EndpointInfo option" where
  "epForSink sink eps = find (\<lambda>e. te_sink e = sink) eps"

text \<open>Setting the sink of the first endpoint that has the old one.\<close>

primrec set_ep_sink :: "c_int \<Rightarrow> c_int \<Rightarrow> EndpointInfo list \<Rightarrow> EndpointInfo list" where
  "set_ep_sink old new [] = []"
| "set_ep_sink old new (e # es) = (if te_sink e = old then e\<lparr>te_sink := new\<rparr> # es else e # set_ep_sink old new es)"

definition attachDevice :: "amis_env \<Rightarrow> c_int \<Rightarrow> (amis_state, unit) prog" where
  "attachDevice E sink =
     cswp_check (amis_get id) (\<lambda>d.
     if ad_bufferSize d mod 4096 \<noteq> 0 then fail USBException
     else if ad_bufferSize d > 0xFFFF000 then fail USBException
     else if ad_bufferWM d mod 4096 \<noteq> 0 then fail USBException
     else if ad_bufferWM d \<ge> ad_bufferSize d then fail USBException
     else (case epForSink (- 1) (ad_endpoints d) of
         None \<Rightarrow> fail USBException
       | Some e \<Rightarrow>
           cswp_check (set_param E (te_addr e) USB_CSTRACE_EP_REQ_SET_TMC (ucast sink)) (\<lambda>_.
           cswp_check (set_param E (te_addr e) USB_CSTRACE_EP_REQ_SET_TX_TIMEOUT ETR_TX_TIMEOUT) (\<lambda>_.
           cswp_check (set_param E (te_addr e) USB_CSTRACE_EP_REQ_SET_BUF_SIZE (ucast (ad_bufferSize d div 4096))) (\<lambda>_.
           cswp_check (set_param E (te_addr e) USB_CSTRACE_EP_REQ_SET_WATER_MARK (ucast (ad_bufferWM d div 4096))) (\<lambda>_.
           cswp_check (set_param E (te_addr e) USB_CSTRACE_EP_REQ_ATTACH_STREAM 0) (\<lambda>_.
           cswp_check (submitControlChannelRequest E) (\<lambda>_.
           cswp_check (set_dev (\<lambda>d. d\<lparr>ad_endpoints := set_ep_sink (- 1) sink (ad_endpoints d)\<rparr>)) (\<lambda>_.
           upd_sink sink (\<lambda>x. x\<lparr>ss_transportID := Some (te_addr e)\<rparr>))))))))))"

text \<open>The transfers left are collected, until there are none or the device has nothing to give.\<close>

primrec collect_rest :: "amis_env \<Rightarrow> amis_wait list \<Rightarrow> (amis_state, bool) prog" where
  "collect_rest E [] = cswp_check (on_usb (gets pendingTransfers)) (\<lambda>n. ret (n = 0))"
| "collect_rest E (w # ws) =
     cswp_check (on_usb (gets pendingTransfers)) (\<lambda>n.
     if n = 0 then ret True
     else
       cswp_check (wait_transfer E w) (\<lambda>r. case r of
           None \<Rightarrow> ret False
         | Some r \<Rightarrow> if r = Nothing then ret True else collect_rest E ws))"

definition detachDevice :: "amis_env \<Rightarrow> amis_wait list \<Rightarrow> c_int \<Rightarrow> (amis_state, bool) prog" where
  "detachDevice E ws sink =
     cswp_check (amis_get ad_endpoints) (\<lambda>eps.
     cswp_check (case epForSink sink eps of
         None \<Rightarrow> ret ()
       | Some e \<Rightarrow>
           cswp_check (endpointSetParam E (te_addr e) USB_CSTRACE_EP_REQ_DETACH_STREAM 0) (\<lambda>_.
           set_dev (\<lambda>d. d\<lparr>ad_endpoints := set_ep_sink sink (- 1) (ad_endpoints d)\<rparr>))) (\<lambda>_.
     collect_rest E ws))"

text \<open>The condition of \<open>startDevice\<close> is an assignment: \<open>m_controlToken = -1\<close>.\<close>

definition startDevice :: "amis_env \<Rightarrow> c_int \<Rightarrow> (amis_state, unit) prog" where
  "startDevice E sink =
     cswp_check (amis_get ad_endpoints) (\<lambda>eps. case epForSink sink eps of
         None \<Rightarrow> fail USBException
       | Some e \<Rightarrow>
           cswp_check (set_dev (\<lambda>d. d\<lparr>ad_controlToken := - 1\<rparr>)) (\<lambda>_.
           cswp_check (submitControlChannelRequest E) (\<lambda>_.
           set_param E (te_addr e) USB_CSTRACE_EP_REQ_START_STREAM 0)))"

definition stopDevice :: "c_int \<Rightarrow> (amis_state, unit) prog" where
  "stopDevice sink = ret ()"

definition doFlush :: "amis_env \<Rightarrow> c_int \<Rightarrow> (amis_state, unit) prog" where
  "doFlush E sink =
     cswp_check (amis_get ad_endpoints) (\<lambda>eps. case epForSink sink eps of
         None \<Rightarrow> fail USBException
       | Some e \<Rightarrow> set_param E (te_addr e) USB_CSTRACE_EP_REQ_STOP_STREAM 0)"

definition amis :: "amis_env \<Rightarrow> (amis_dev, usb_result, amis_wait) st_virtual" where
  "amis E = \<lparr>v_discoverSinks = discoverSinks E, v_doConnect = doConnect E, v_doDisconnect = st_doDisconnect,
     v_isConnected = isConnected, v_attachDevice = attachDevice E, v_detachDevice = detachDevice E,
     v_submitBuffer = submitBuffer E, v_doCancelPendingBuffers = doCancelPendingBuffers,
     v_startDevice = startDevice E, v_stopDevice = stopDevice, v_doFlush = doFlush E,
     v_transfer = wait_transfer E, v_received = got_transfer E\<rparr>"

subsection \<open>The contract\<close>

lemma set_dev_shuffled [shuffles]: "shuffled (set_dev f)" "shuffled (amis_get g)"
  unfolding set_dev_def amis_get_def by (intro shuffles sh.modifies shuffle_other; simp)+

lemma on_usb_shuffled [shuffles]: "shuffled (on_usb m)" "shuffled (on_conn c)"
  unfolding on_usb_def on_conn_def
  by (intro shuffles; auto simp: obeys_def zoom_def split: outcome.splits intro: shuffle_other)+

lemma control_shuffled [shuffles]: "shuffled (controlTransfer E q r v ix)" "shuffled (endpointSetParam E a r v)" "shuffled (set_param E a r v)"
    "shuffled (submitControlChannelRequest E)"
  unfolding set_param_def endpointSetParam_def controlTransfer_def submitControlChannelRequest_def by (intro shuffles)+

lemma discover_from_shuffled [shuffles]: "shuffled (discover_from E i sinks)"
proof (induction E i sinks rule: discover_from.induct)
  case (1 E i sinks)
  show ?case by (subst discover_from.simps) (intro shuffles 1)
qed

lemma usb_endpoints_shuffled [shuffles]: "shuffled (usb_endpoints es)"
  by (induction es) (simp_all add: shuffles del: ret_apply)

lemma collect_rest_shuffled [shuffles]: "shuffled (wait_transfer E w)" "shuffled (collect_rest E ws)"
proof -
  show w: "shuffled (wait_transfer E w)" for w unfolding wait_transfer_def by (intro shuffles)
  show "shuffled (collect_rest E ws)"
  proof (induction ws)
    case (Cons w ws)
    show ?case unfolding collect_rest.simps by (intro shuffles w Cons)
  qed (auto intro!: shuffles simp del: ret_apply)
qed

lemma submitBuffer_sinks: "submitBuffer E sink b s = Done u s' \<Longrightarrow> m_sinkState s' = m_sinkState s"
  by (auto simp: submitBuffer_def on_usb_def amis_get_def set_dev_def zoom_def elim!: check_DoneE dest!: get_sink_same(1)
      split: option.splits outcome.splits)

interpretation amis: trace_device "amis E" for E
proof
  fix sink ws w r b u and s s' :: amis_state
  show "shuffled (v_doConnect (amis E))" "shuffled (v_discoverSinks (amis E))" "shuffled (v_doDisconnect (amis E))"
    by (auto simp: amis_def doConnect_def discoverSinks_def st_doDisconnect_def usbSetup_def intro!: shuffles simp del: ret_apply)
  show "shuffled (v_attachDevice (amis E) sink)"
    unfolding amis_def st_virtual.simps attachDevice_def by (intro shuffles) (simp_all add: sink_tokens_def)
  show "shuffled (v_detachDevice (amis E) ws sink)"
    unfolding amis_def st_virtual.simps detachDevice_def by (intro shuffles)
  show "shuffled (v_startDevice (amis E) sink)" "shuffled (v_stopDevice (amis E) sink)" "shuffled (v_doFlush (amis E) sink)"
      "shuffled (v_doCancelPendingBuffers (amis E) sink)"
    unfolding amis_def st_virtual.simps startDevice_def stopDevice_def doFlush_def doCancelPendingBuffers_def by (intro shuffles)+
  show "shuffled (v_transfer (amis E) w)" "shuffled (v_received (amis E) r sink b)" "shuffled (v_submitBuffer (amis E) sink b)"
    unfolding amis_def st_virtual.simps got_transfer_def completeUsbTransfer_def submitBuffer_def
    by (cases r; auto intro!: shuffles simp del: ret_apply)+
  show "v_submitBuffer (amis E) sink b s = Done u s' \<Longrightarrow> m_sinkState s' = m_sinkState s"
    by (simp add: amis_def submitBuffer_sinks)
qed

end
