(* ===== verification/Trace_Session.thy ===== *)
theory Trace_Session
  imports Streaming_Amis
begin

text \<open>
  A session of the streaming trace library on a concrete device, step by step: connecting, attaching,
  one buffer, start, stop and detach, and then a second session. It shows that the accounts of
  \<open>trace_tokens_accounted\<close> are those of a real run, and what a detach leaves behind when the control
  request is the first transfer to be reported as cancelled.
\<close>

subsection \<open>The device\<close>

text \<open>One sink, named \<open>A\<close>; a bulk and an interrupt endpoint.\<close>

definition demo_env :: amis_env where
  "demo_env = \<lparr>en_libusb = \<lparr>lu_alloc = (\<lambda>p. True), lu_submit = (\<lambda>p. 0)\<rparr>,
     en_answers = \<lparr>an_init = 0, an_devices = Some [\<lparr>bd_ids = Some (5, 2),
       bd_config = Some [[\<lparr>as_number = 0, as_endpoints = [(0x81, 2), (0x82, 3)]\<rparr>]], bd_opens = True,
       bd_languages = (4, [4, 3, 9, 4]), bd_serial = (4, [4, 3, 65, 0])\<rparr>], an_claim = 0, an_alt = 0, an_clear = (\<lambda>_. 0)\<rparr>,
     en_control = (\<lambda>q r v ix. if q = 0xC1 \<and> v = 0 then (1, [65]) else (0, []))\<rparr>"

text \<open>The transfers in flight, and the transfers of libusb by address.\<close>

definition two_eps :: "usb_transfer list \<Rightarrow> usb_transfer list \<Rightarrow> byte \<Rightarrow> usb_transfer list" where
  "two_eps c d = (\<lambda>e. if e = 0x82 then c else if e = 0x81 then d else [])"

definition lheap :: "libusb_transfer option list \<Rightarrow> nat \<Rightarrow> libusb_transfer option" where
  "lheap xs p = (if p < length xs then xs ! p else None)"

lemma two_eps_simps [simp]: "two_eps c d 0x82 = c" "two_eps c d 0x81 = d" "(two_eps c d)(0x82 := x) = two_eps x d"
    "(two_eps c d)(0x81 := x) = two_eps c x"
  by (auto simp: two_eps_def)

lemma lheap_simps: "p < length xs \<Longrightarrow> (lheap xs)(p := v) = lheap (xs[p := v])" "p = length xs \<Longrightarrow> (lheap xs)(p := v) = lheap (xs @ [v])"
    "p < length xs \<Longrightarrow> lheap xs p = xs ! p"
  by (auto simp: lheap_def nth_append nth_list_update)

definition demo_conn :: usb_conn where
  "demo_conn = \<lparr>k_context = True, k_handles = [0], k_dev = Some 0,
     k_info = [\<lparr>ep_kind = EP_TYPE_BULK, ep_addr = 0x81\<rparr>, \<lparr>ep_kind = EP_TYPE_INTERRUPT, ep_addr = 0x82\<rparr>]\<rparr>"

definition demo_usb :: "c_int \<Rightarrow> usb_transfer list \<Rightarrow> usb_transfer list \<Rightarrow> size_t \<Rightarrow> bool \<Rightarrow> libusb_transfer option list \<Rightarrow> nat set
    \<Rightarrow> (usb_conn \<times> usb_dev) option" where
  "demo_usb n c d cnt flag xs act = Some (demo_conn, \<lparr>u_info = k_info demo_conn, u_nextToken = n, u_queued = [], u_inFlight = two_eps c d,
     u_count = cnt, u_completed = [], u_flag = flag, u_heap = lheap xs, u_fresh = length xs, u_active = act\<rparr>)"

definition demo_state :: "sink_state list \<Rightarrow> c_int \<Rightarrow> nat option \<Rightarrow> usb_result thread_pc list \<Rightarrow> (usb_conn \<times> usb_dev) option \<Rightarrow> c_int list
    \<Rightarrow> c_int list \<Rightarrow> c_int \<Rightarrow> amis_state" where
  "demo_state sinks n th pcs usb toks eps ctl =
     \<lparr>m_sinkInfo = map (\<lambda>x. \<lparr>sd_name = [65], sd_metadata = [], sd_dataBufferCount = 32, sd_dataBufferSize = 32768,
        sd_eventBufferCount = 1, sd_eventBufferSize = 256\<rparr>) sinks,
      m_sinkState = sinks, m_nextToken = n, m_dataThread = th, st_threads = map (\<lambda>pc. (0, pc)) pcs,
      st_buffers = (\<lambda>p. Some \<lparr>cb_type = 0, cb_size = 4096, cb_used = 0\<rparr>),
      st_dev = \<lparr>ad_usb = usb, ad_dataTokens = toks, ad_ident = \<lparr>vendorID = 5, productID = 2, interfaceNumber = 0, serialNumber = []\<rparr>,
        ad_bufferSize = 0x100000, ad_bufferWM = 0xE0000, ad_endpoints = map (\<lambda>k. \<lparr>te_addr = 0x81, te_sink = k\<rparr>) eps,
        ad_controlEP = (case usb of None \<Rightarrow> None | Some u \<Rightarrow> Some 0x82), ad_controlToken = ctl,
        ad_controlMsg = \<lparr>cm_streamIdx = 0, cm_status = 0, cm_value = 0\<rparr>, ad_sinkMeta = (\<lambda>_. None)\<rparr>\<rparr>"

definition demo_start :: amis_state where
  "demo_start = demo_state [] 0 None [] None [] [] (- 1)"

definition sk :: "sink_status \<Rightarrow> st_buffer list \<Rightarrow> st_buffer list \<Rightarrow> sink_state" where
  "sk st p q = \<lparr>ss_status = st, ss_transportID = Some 0x81, ss_pending = p, ss_queued = q, ss_events = [], ss_completed = []\<rparr>"

definition xc :: "c_int \<Rightarrow> libusb_transfer option" where
  "xc st = Some \<lparr>x_kind = EP_TYPE_INTERRUPT, x_endpoint = 0x82, x_length = 8, x_status = st, x_actual = 0\<rparr>"

definition xd :: "c_int \<Rightarrow> c_int \<Rightarrow> libusb_transfer option" where
  "xd st n = Some \<lparr>x_kind = EP_TYPE_BULK, x_endpoint = 0x81, x_length = 4096, x_status = st, x_actual = n\<rparr>"

abbreviation tx :: "nat \<Rightarrow> usb_transfer" where
  "tx k \<equiv> \<lparr>tx_token = word_of_nat k, tx_ptr = k\<rparr>"

abbreviation bf :: "nat \<Rightarrow> st_buffer" where
  "bf k \<equiv> \<lparr>sb_token = word_of_nat k, sb_ptr = k\<rparr>"

subsection \<open>The steps\<close>

lemmas run_simps = cswp_check_def zoom_def amis_get_def set_dev_def on_usb_def on_conn_def get_sink_def upd_sink_def sink_info_of_def nth_c_def
  attempt_def CheckConnected_def CheckSink_def isConnected_def amis_def get_transfer_def word_sless_alt word_sle_eq

lemmas demo_simps = demo_env_def demo_state_def demo_usb_def demo_conn_def SinkState_def sk_def xc_def xd_def lheap_simps

lemmas usb_simps = submitReadTransfer_def submitTransfer_def find_ep_def MAX_URB_SIZE_def EP_DIR_MASK_def sizeof_ctl_msg_def
  createTransfer_def libusb_alloc_transfer_def MAX_IN_FLIGHT_def libusb_submit_transfer_def push_transfer_def submitControlChannelRequest_def

lemma buffers_same: "(\<lambda>p. Some c)(q \<mapsto> c) = (\<lambda>p. Some c)"
  by auto

lemma demo_connect: "Connect (amis demo_env) demo_start = Done () (demo_state [SinkState] 0 None [] (demo_usb 0 [] [] 0 False [] {}) [] [- 1] (- 1))"
proof -
  have "(\<lambda>_. []) = two_eps [] []" "Map.empty = lheap []" by (auto simp: two_eps_def lheap_def)
  then show ?thesis
    by (simp add: run_simps Connect_def demo_simps demo_start_def doConnect_def usb_connect_def no_conn_def findAndOpenDeviceBySerialNumber_def
      try_open_def examineEndpoints_def ep_type_of_def usbSetup_def usb_init_def discoverSinks_def discover_from.simps controlTransfer_def
      stream_name_def sink_of_def MAX_IN_FLIGHT_def MAX_URB_SIZE_def EP_DIR_MASK_def)
qed

lemma demo_attach: "Attach (amis demo_env) 0 (demo_state [SinkState] 0 None [] (demo_usb 0 [] [] 0 False [] {}) [] [- 1] (- 1))
    = Done () (demo_state [sk ATTACHED [] []] 0 (Some 0) [At_top] (demo_usb 1 [tx 0] [] 1 False [xc 0] {0}) [] [0] 0)"
  by (simp add: run_simps demo_simps usb_simps Attach_def attachDevice_def epForSink_def set_param_def endpointSetParam_def controlTransfer_def)

lemma demo_submit: "SubmitEventBuffer (amis demo_env) 0 EVENT_TYPE_DATA 0
      (demo_state [sk ATTACHED [] []] 0 (Some 0) [At_top] (demo_usb 1 [tx 0] [] 1 False [xc 0] {0}) [] [0] 0)
    = Done 0 (demo_state [sk ATTACHED [] [bf 0]] 1 (Some 0) [At_top] (demo_usb 1 [tx 0] [] 1 False [xc 0] {0}) [] [0] 0)"
  by (simp add: run_simps demo_simps SubmitEventBuffer_def queue_buffer_def upd_buffer_def EVENT_TYPE_DATA_def EVENT_TYPE_NONE_def buffers_same)

lemma demo_begin: "Start (amis demo_env) 0 (demo_state [sk ATTACHED [] [bf 0]] 1 (Some 0) [At_top] (demo_usb 1 [tx 0] [] 1 False [xc 0] {0}) [] [0] 0)
    = Done () (demo_state [sk ACTIVE [bf 0] []] 1 (Some 0) [At_top] (demo_usb 3 [tx 0, tx 2] [tx 1] 3 False [xc 0, xd 0 0, xc 0] {0, 1, 2}) [1] [0] 2)"
  by (simp add: run_simps demo_simps usb_simps Start_def submitBuffers_def submitBuffer_def startDevice_def epForSink_def set_param_def
      endpointSetParam_def controlTransfer_def insert_commute) (simp add: numeral_2_eq_2)

lemma demo_stop: "Stop (amis demo_env) 0
      (demo_state [sk ACTIVE [bf 0] []] 1 (Some 0) [At_top] (demo_usb 3 [tx 0, tx 2] [tx 1] 3 False [xc 0, xd 0 0, xc 0] {0, 1, 2}) [1] [0] 2)
    = Done () (demo_state [sk ATTACHED [bf 0] []] 1 (Some 0) [At_top] (demo_usb 3 [tx 0, tx 2] [tx 1] 3 False [xc 0, xd 0 0, xc 0] {0, 1, 2}) [1] [0] 2)"
  by (simp add: run_simps demo_simps Stop_def stopDevice_def doCancelPendingBuffers_def cancelTransfers_def)

lemma demo_detach_begin: "Detach_begin (amis demo_env) 0
      (demo_state [sk ATTACHED [bf 0] []] 1 (Some 0) [At_top] (demo_usb 3 [tx 0, tx 2] [tx 1] 3 False [xc 0, xd 0 0, xc 0] {0, 1, 2}) [1] [0] 2)
    = Done () (demo_state [sk DETACHED [bf 0] []] 1 (Some 0) [At_top] (demo_usb 3 [tx 0, tx 2] [tx 1] 3 False [xc 0, xd 0 0, xc 0] {0, 1, 2}) [1] [0] 2)"
  by (simp add: run_simps demo_simps Detach_begin_def)

lemma demo_exit: "dataThread (amis demo_env) w 0
      (demo_state [sk DETACHED [bf 0] []] 1 (Some 0) [At_top] (demo_usb 3 [tx 0, tx 2] [tx 1] 3 False [xc 0, xd 0 0, xc 0] {0, 1, 2}) [1] [0] 2)
    = Done () (demo_state [sk DETACHED [bf 0] []] 1 (Some 0) [Exited] (demo_usb 3 [tx 0, tx 2] [tx 1] 3 False [xc 0, xd 0 0, xc 0] {0, 1, 2}) [1] [0] 2)"
  by (simp add: run_simps demo_simps dataThread_def thread_wait_def set_thread_def)

text \<open>libusb reports the three transfers as cancelled, the first control request first.\<close>

lemma demo_detach_end: "Detach_end (amis demo_env) [([[(0, 3, 0), (1, 3, 0), (2, 3, 0)]], None)] [([], None), ([], None)] 0
      (demo_state [sk DETACHED [bf 0] []] 1 (Some 0) [Exited] (demo_usb 3 [tx 0, tx 2] [tx 1] 3 False [xc 0, xd 0 0, xc 0] {0, 1, 2}) [1] [0] 2)
    = Done True (demo_state [sk DETACHED [] []] 1 None [Exited] (demo_usb 3 [] [] 0 False [None, None, None] {}) [1] [- 1] 2)"
  by (simp add: run_simps demo_simps Detach_end_def join_thread_def doCancelPendingBuffers_def cancelTransfers_def wait_transfer_def
      completeTransfer_def libusb_event_def transfer_complete_def collect_transfer_def libusb_free_transfer_def map_libusb_status_def
      LIBUSB_TRANSFER_COMPLETED_def LIBUSB_TRANSFER_CANCELLED_def got_transfer_def completeUsbTransfer_def detachDevice_def epForSink_def
      endpointSetParam_def controlTransfer_def pendingTransfers_def Let_def)

text \<open>The second session: the token of the first buffer is still at the front of the queue.\<close>

lemma demo_again: "Attach (amis demo_env) 0 (demo_state [sk DETACHED [] []] 1 None [Exited] (demo_usb 3 [] [] 0 False [None, None, None] {}) [1] [- 1] 2)
    = Done () (demo_state [sk ATTACHED [] []] 1 (Some 1) [Exited, At_top] (demo_usb 4 [tx 3] [] 1 False [None, None, None, xc 0] {3}) [1] [0] 3)"
  by (simp add: run_simps demo_simps usb_simps Attach_def attachDevice_def epForSink_def set_param_def endpointSetParam_def controlTransfer_def
      numeral_3_eq_3)

lemma demo_submit_again: "SubmitEventBuffer (amis demo_env) 0 EVENT_TYPE_DATA 1
      (demo_state [sk ATTACHED [] []] 1 (Some 1) [Exited, At_top] (demo_usb 4 [tx 3] [] 1 False [None, None, None, xc 0] {3}) [1] [0] 3)
    = Done 1 (demo_state [sk ATTACHED [] [bf 1]] 2 (Some 1) [Exited, At_top] (demo_usb 4 [tx 3] [] 1 False [None, None, None, xc 0] {3}) [1] [0] 3)"
  by (simp add: run_simps demo_simps SubmitEventBuffer_def queue_buffer_def upd_buffer_def EVENT_TYPE_DATA_def EVENT_TYPE_NONE_def buffers_same)

lemma demo_begin_again: "Start (amis demo_env) 0
      (demo_state [sk ATTACHED [] [bf 1]] 2 (Some 1) [Exited, At_top] (demo_usb 4 [tx 3] [] 1 False [None, None, None, xc 0] {3}) [1] [0] 3)
    = Done () (demo_state [sk ACTIVE [bf 1] []] 2 (Some 1) [Exited, At_top]
        (demo_usb 6 [tx 3, tx 5] [tx 4] 3 False [None, None, None, xc 0, xd 0 0, xc 0] {3, 4, 5}) [1, 4] [0] 5)"
  by (simp add: run_simps demo_simps usb_simps Start_def submitBuffers_def submitBuffer_def startDevice_def epForSink_def set_param_def
      endpointSetParam_def controlTransfer_def insert_commute) (simp add: eval_nat_numeral)

lemma demo_wait: "dataThread (amis demo_env) w 1 (demo_state [sk ACTIVE [bf 1] []] 2 (Some 1) [Exited, At_top]
        (demo_usb 6 [tx 3, tx 5] [tx 4] 3 False [None, None, None, xc 0, xd 0 0, xc 0] {3, 4, 5}) [1, 4] [0] 5)
    = Done () (demo_state [sk ACTIVE [bf 1] []] 2 (Some 1) [Exited, In_transfer (bf 1)]
        (demo_usb 6 [tx 3, tx 5] [tx 4] 3 False [None, None, None, xc 0, xd 0 0, xc 0] {3, 4, 5}) [1, 4] [0] 5)"
  by (simp add: run_simps demo_simps dataThread_def thread_wait_def set_thread_def)

text \<open>libusb has filled the buffer.\<close>

lemma demo_data: "dataThread (amis demo_env) ([[(4, 0, 4096)]], None) 1 (demo_state [sk ACTIVE [bf 1] []] 2 (Some 1) [Exited, In_transfer (bf 1)]
        (demo_usb 6 [tx 3, tx 5] [tx 4] 3 False [None, None, None, xc 0, xd 0 0, xc 0] {3, 4, 5}) [1, 4] [0] 5)
    = Done () (demo_state [sk ACTIVE [bf 1] []] 2 (Some 1) [Exited, Has_result (bf 1) (Transferred 4 Transfer_SUCCESS 4096)]
        (demo_usb 6 [tx 3, tx 5] [] 2 False [None, None, None, xc 0, None, xc 0] {3, 5}) [1, 4] [0] 5)"
  by (simp add: run_simps demo_simps dataThread_def thread_transfer_def set_thread_def wait_transfer_def
      completeTransfer_def libusb_event_def transfer_complete_def collect_transfer_def libusb_free_transfer_def map_libusb_status_def
      LIBUSB_TRANSFER_COMPLETED_def Let_def) (auto simp: eval_nat_numeral)

lemma demo_lost: "dataThread (amis demo_env) w 1 (demo_state [sk ACTIVE [bf 1] []] 2 (Some 1) [Exited, Has_result (bf 1) (Transferred 4 Transfer_SUCCESS 4096)]
        (demo_usb 6 [tx 3, tx 5] [] 2 False [None, None, None, xc 0, None, xc 0] {3, 5}) [1, 4] [0] 5)
    = Done () (demo_state [sk ACTIVE [bf 1] []] 2 (Some 1) [Exited, At_top]
        (demo_usb 6 [tx 3, tx 5] [] 2 False [None, None, None, xc 0, None, xc 0] {3, 5}) [1, 4] [0] 5)"
  by (simp add: run_simps demo_simps dataThread_def thread_finish_def set_thread_def got_transfer_def completeUsbTransfer_def)

subsection \<open>The runs\<close>

lemma demo_tokens [simp]: "st_tokens (demo_state sinks n th pcs usb toks eps ctl) = mset (concat (map sink_tokens sinks))"
    "st_threads (demo_state sinks n th pcs usb toks eps ctl) = map (\<lambda>pc. (0, pc)) pcs"
    "m_sinkState (demo_state sinks n th pcs usb toks eps ctl) = sinks" "m_nextToken (demo_state sinks n th pcs usb toks eps ctl) = n"
    "sink_tokens (sk st p q) = map sb_token (p @ q)" "sink_tokens SinkState = []"
  by (simp_all add: demo_state_def st_tokens_def sk_def sink_tokens_def SinkState_def)

lemma calls_Done:
  assumes "st_run V s0 log s" and "m s = Done x s'" and "m \<in> {Attach V sink, Detach_begin V sink, Start V sink, Stop V sink, Flush V sink}"
  shows "st_run V s0 log s'"
  by (rule st_run.calls [OF assms(1,3)]) (use assms(2) in \<open>auto simp: ends_def\<close>)

lemma run_steps:
  assumes "st_run V s0 log s"
  shows "Attach V sink s = Done x s' \<Longrightarrow> st_run V s0 log s'" "Detach_begin V sink s = Done x s' \<Longrightarrow> st_run V s0 log s'"
    "Start V sink s = Done x s' \<Longrightarrow> st_run V s0 log s'" "Stop V sink s = Done x s' \<Longrightarrow> st_run V s0 log s'"
    "Connect V s = Done x s' \<Longrightarrow> st_run V s0 (log @ [Gave_up (st_tokens s - st_tokens s')]) s'"
    "Detach_end V ws ws' sink s = Done y s' \<Longrightarrow> st_run V s0 (log @ [Gave_up (st_tokens s - st_tokens s')]) s'"
proof -
  show "Connect V s = Done x s' \<Longrightarrow> st_run V s0 (log @ [Gave_up (st_tokens s - st_tokens s')]) s'"
    using assms by (rule st_run.connects) (simp add: ends_def)
  show "Detach_end V ws ws' sink s = Done y s' \<Longrightarrow> st_run V s0 (log @ [Gave_up (st_tokens s - st_tokens s')]) s'"
    using assms by (rule st_run.detaches) (unfold ends_def, blast)
qed (erule calls_Done [OF assms, where sink = sink]; simp)+

definition first_log :: "st_log list" where
  "first_log = [Gave_up {#}, Took 0, Gave_up {#0#}]"

definition first_end :: amis_state where
  "first_end = demo_state [sk DETACHED [] []] 1 None [Exited] (demo_usb 3 [] [] 0 False [None, None, None] {}) [1] [- 1] 2"

lemma demo_first_run: "st_run (amis demo_env) demo_start first_log first_end"
proof -
  let ?V = "amis demo_env"
  have "st_run ?V demo_start [] demo_start" by (rule st_run.begins)
  from run_steps(5) [OF this demo_connect]
  have "st_run ?V demo_start [Gave_up {#}] (demo_state [SinkState] 0 None [] (demo_usb 0 [] [] 0 False [] {}) [] [- 1] (- 1))"
    by (simp add: demo_start_def)
  note r = run_steps(1) [OF this demo_attach]
  note r = st_run.submits [OF r demo_submit]
  note r = run_steps(3) [OF r demo_begin]
  note r = run_steps(4) [OF r demo_stop]
  note r = run_steps(2) [OF r demo_detach_begin]
  note r = st_run.thread_runs [OF r demo_exit]
  note r = run_steps(6) [OF r demo_detach_end]
  show ?thesis using r by (simp add: first_log_def first_end_def thread_throws_def)
qed

text \<open>C11: Every buffer the trace library has queued is accounted for, whatever the client and its threads do
  and whatever throws: it is in one of the queues of its sink, or its token has been given back by
  \<open>WaitForEvent\<close>, once, or it was given up by a detach, a new connection, or a data thread that ended with
  an exception. Tokens are not given out twice, and the device never has more buffers than it takes.\<close>

theorem trace_tokens_accounted:
  assumes "st_run (amis E) s0 log s" and "m_sinkState s0 = []" and "m_sinkInfo s0 = []" and "m_nextToken s0 = 0"
  shows "took log = gave log + gave_up log + st_tokens s \<and> once (took log)
    \<and> (\<forall>i < length (m_sinkState s). length (ss_pending (m_sinkState s ! i)) \<le> unat (sd_dataBufferCount (m_sinkInfo s ! i)))"
proof -
  have "st_accounts log s"
    by (rule amis.run_accounts [OF assms(1)]) (use assms(2-) in \<open>simp_all add: st_tokens_def st_bounded_def\<close>)
  from accountsD [OF this] show ?thesis unfolding st_bounded_def by blast
qed


theorem trace_tokens_accounted_witness:
  "\<exists>s. st_run (amis demo_env) demo_start first_log s \<and> took first_log = gave first_log + gave_up first_log + st_tokens s"
proof (intro exI conjI)
  show "st_run (amis demo_env) demo_start first_log first_end" by (rule demo_first_run)
  from trace_tokens_accounted [OF this]
  show "took first_log = gave first_log + gave_up first_log + st_tokens first_end" by (simp add: demo_start_def demo_state_def)
qed


subsection \<open>The control request\<close>

text \<open>C25: Starting a sink loses the control request that attaching it has submitted: the test whether one is
  under way is an assignment, so a second request is always submitted and its token replaces the one of
  the first. When the message that ends the session arrives in the first request, it is ignored: no
  event is sent to the client and no further request is submitted.\<close>

theorem start_loses_control_request:
  assumes "startDevice E sink s = Done () s'" and "ad_usb (st_dev s) = Some (cn, u)" and "ad_controlToken (st_dev s) \<noteq> u_nextToken u"
  shows "ad_controlToken (st_dev s') = u_nextToken u
    \<and> (\<forall>v k ks m. ad_controlToken (st_dev v) = ad_controlToken (st_dev s') \<and> ad_dataTokens (st_dev v) = k # ks
        \<and> k \<noteq> ad_controlToken (st_dev s) \<and> ad_controlMsg (st_dev v) = m \<and> cm_status m = CS_STREAM_END_SESSION
        \<longrightarrow> got_transfer E (Transferred (ad_controlToken (st_dev s)) Transfer_SUCCESS sizeof_ctl_msg) sink b v = Done False v)"
proof -
  obtain ep where sub: "submitControlChannelRequest E (s\<lparr>st_dev := (st_dev s)\<lparr>ad_controlToken := - 1\<rparr>\<rparr>) = Done () ep"
      and same: "ad_controlToken (st_dev s') = ad_controlToken (st_dev ep)"
    using assms(1) unfolding startDevice_def
    by (auto elim!: check_DoneE simp: amis_get_def set_dev_def set_param_def endpointSetParam_def controlTransfer_def
        split: option.splits if_splits)
  have tok: "tx_token t = u_nextToken w" if "submitTransfer L a dir len w = Done t w'" for L a dir len w t w'
    using that by (auto elim!: check_DoneE simp: submitTransfer_def split: if_splits option.splits)
  have "ad_controlToken (st_dev ep) = u_nextToken u"
    using sub assms(2) unfolding submitControlChannelRequest_def on_usb_def submitReadTransfer_def
    by (auto elim!: check_DoneE simp: amis_get_def set_dev_def zoom_def dest!: tok split: option.splits outcome.splits)
  with same have new: "ad_controlToken (st_dev s') = u_nextToken u" by simp
  have "got_transfer E (Transferred (ad_controlToken (st_dev s)) Transfer_SUCCESS sizeof_ctl_msg) sink b v = Done False v"
    if "ad_controlToken (st_dev v) = ad_controlToken (st_dev s')" "ad_dataTokens (st_dev v) = k # ks" "k \<noteq> ad_controlToken (st_dev s)" for v k ks
    using that new assms(3) by (simp add: got_transfer_def completeUsbTransfer_def amis_get_def cswp_check_def)
  with new show ?thesis by blast
qed

theorem start_loses_control_request_witness:
  "\<exists>s s'. startDevice demo_env 0 s = Done () s' \<and> ad_controlToken (st_dev s) = 0 \<and> ad_controlToken (st_dev s') = 1
    \<and> got_transfer demo_env (Transferred 0 Transfer_SUCCESS sizeof_ctl_msg) 0 (bf 0)
        (s'\<lparr>st_dev := (st_dev s')\<lparr>ad_dataTokens := [5], ad_controlMsg := \<lparr>cm_streamIdx = 0, cm_status = CS_STREAM_END_SESSION, cm_value = 0\<rparr>\<rparr>\<rparr>)
      = Done False (s'\<lparr>st_dev := (st_dev s')\<lparr>ad_dataTokens := [5], ad_controlMsg := \<lparr>cm_streamIdx = 0, cm_status = CS_STREAM_END_SESSION, cm_value = 0\<rparr>\<rparr>\<rparr>)"
proof -
  let ?s = "demo_state [sk ACTIVE [] []] 0 (Some 0) [At_top] (demo_usb 1 [tx 0] [] 1 False [xc 0] {0}) [] [0] 0"
  let ?s' = "demo_state [sk ACTIVE [] []] 0 (Some 0) [At_top] (demo_usb 2 [tx 0, tx 1] [] 2 False [xc 0, xc 0] {0, 1}) [] [0] 1"
  have r: "startDevice demo_env 0 ?s = Done () ?s'"
    by (simp add: run_simps demo_simps usb_simps startDevice_def epForSink_def set_param_def endpointSetParam_def controlTransfer_def
        insert_commute)
  let ?v = "?s'\<lparr>st_dev := (st_dev ?s')\<lparr>ad_dataTokens := [5], ad_controlMsg := \<lparr>cm_streamIdx = 0, cm_status = CS_STREAM_END_SESSION, cm_value = 0\<rparr>\<rparr>\<rparr>"
  obtain u where u: "ad_usb (st_dev ?s) = Some (demo_conn, u)" "u_nextToken u = 1" by (simp add: demo_state_def demo_usb_def)
  have t: "ad_controlToken (st_dev ?s) = 0" "ad_controlToken (st_dev ?s') = 1" by (simp_all add: demo_state_def)
  have "ad_controlToken (st_dev ?s) \<noteq> u_nextToken u" using u t by simp
  note start = start_loses_control_request [OF r u(1) this, THEN conjunct2, THEN spec [of _ ?v]]
  have "got_transfer demo_env (Transferred 0 Transfer_SUCCESS sizeof_ctl_msg) 0 (bf 0) ?v = Done False ?v"
    using start t by simp
  then show ?thesis using r t by blast
qed

end
