(* ===== verification/Trace_Api.thy ===== *)
theory Trace_Api
  imports Streaming_Amis Rddi_Handles
begin

text \<open>
  The C interface of the streaming trace library, \<^verbatim>\<open>rddi_streaming_trace/common/api_stubs.cpp\<close>, \<^verbatim>\<open>env.cpp\<close>,
  \<^verbatim>\<open>last_error.cpp\<close> and \<^verbatim>\<open>util.cpp\<close>, on the handles of \<open>Rddi_Handles\<close>; the last error is kept for each thread.
  Texts of errors are left out. \<open>StreamingTrace_Detach\<close> is in two halves, like \<open>Detach\<close>.
\<close>

subsection \<open>Results\<close>

type_synonym ('d, 'r, 'a) trace_api = "(('d, 'r) strace env, nat, 'a) rddi"

text \<open>The code of an exception. One of the USB device is a standard exception without a code.\<close>

definition rddi_code :: "c_int \<Rightarrow> c_int" where
  "rddi_code e = (if e = USBException then RDDI_INTERNAL_ERROR else e)"

text \<open>Copying a string to a buffer of \<open>len\<close> bytes: what is written, and whether it fits. Nothing is written to
  a null pointer.\<close>

definition FillStringParam_st :: "byte list \<Rightarrow> size_t option \<Rightarrow> ('s, bool \<times> byte list) prog" where
  "FillStringParam_st src dest = (case dest of
       None \<Rightarrow> ret (True, [])
     | Some len \<Rightarrow>
         if len = 0 then fail RDDI_BADARG
         else ret (of_nat (length src) < len, take (unat len - 1) (cstr src) @ [0]))"

subsection \<open>The environment\<close>

definition RDDI_Open :: "nat \<Rightarrow> unit option \<Rightarrow> ('d, 'r, c_int \<times> c_int option) trace_api" where
  "RDDI_Open th pHandle = rddi_api rddi_code th (cswp_check (CheckNotNull pHandle) (\<lambda>_. env_Store NullImplementation))"

definition RDDI_Close :: "nat \<Rightarrow> c_int \<Rightarrow> ('d, 'r, c_int \<times> unit option) trace_api" where
  "RDDI_Close th h = rddi_api rddi_code th (env_Remove h)"

definition TRACE_NAME :: "byte list" where "TRACE_NAME = bytes_of ''RDDI_STREAMING_TRACE_AMIS''"

definition RDDI_GetVersion :: "nat \<Rightarrow> unit option \<Rightarrow> unit option \<Rightarrow> unit option \<Rightarrow> unit option \<Rightarrow> size_t
    \<Rightarrow> ('d, 'r, c_int \<times> ((c_int \<times> c_int \<times> c_int) \<times> byte list option) option) trace_api" where
  "RDDI_GetVersion th pMajor pMinor pBuild pDescription descriptionLen =
     rddi_api rddi_code th (Version (2, 0, 0) TRACE_NAME pMajor pMinor pBuild pDescription (ucast descriptionLen))"

text \<open>\<open>st\<close> is the object made from the file, or \<open>None\<close> when it cannot be read.\<close>

definition ConfigInfo_OpenFile :: "nat \<Rightarrow> c_int \<Rightarrow> ('d, 'r) strace option \<Rightarrow> ('d, 'r, c_int \<times> unit option) trace_api" where
  "ConfigInfo_OpenFile th h st = rddi_api rddi_code th
     (cswp_check (env_Lookup h) (\<lambda>e. case st of
         None \<Rightarrow> fail RDDI_PARSE_FAILED
       | Some st \<Rightarrow> modify (\<lambda>r. r\<lparr>g_envs := put_env h (RealImplementation st) (g_envs r)\<rparr>)))"

definition StreamingTrace_Connect :: "('d, 'r, 'w) st_virtual \<Rightarrow> nat \<Rightarrow> c_int \<Rightarrow> ('d, 'r, c_int \<times> unit option) trace_api" where
  "StreamingTrace_Connect V th h = rddi_api rddi_code th (on_env h (Connect V))"

definition StreamingTrace_Disconnect :: "('d, 'r, 'w) st_virtual \<Rightarrow> nat \<Rightarrow> c_int \<Rightarrow> ('d, 'r, c_int \<times> unit option) trace_api" where
  "StreamingTrace_Disconnect V th h = rddi_api rddi_code th (on_env h (Disconnect V))"

definition StreamingTrace_GetSinkCount :: "('d, 'r, 'w) st_virtual \<Rightarrow> nat \<Rightarrow> c_int \<Rightarrow> unit option \<Rightarrow> ('d, 'r, c_int \<times> c_int option) trace_api" where
  "StreamingTrace_GetSinkCount V th h pSinkCount = rddi_api rddi_code th
     (on_env h (cswp_check (CheckNotNull pSinkCount) (\<lambda>_. GetSinkCount V)))"

text \<open>The sizes are written before the call reports that a string did not fit, so they are not part of the
  result of a call that fails.\<close>

definition StreamingTrace_GetSinkDetails :: "('d, 'r, 'w) st_virtual \<Rightarrow> nat \<Rightarrow> c_int \<Rightarrow> c_int \<Rightarrow> unit option \<Rightarrow> size_t option \<Rightarrow> size_t option
    \<Rightarrow> ('d, 'r, c_int \<times> (byte list \<times> byte list \<times> sink_info) option) trace_api" where
  "StreamingTrace_GetSinkDetails V th h sink pDetails pName pMetadata = rddi_api rddi_code th (on_env h
     (cswp_check (CheckNotNull pDetails) (\<lambda>_.
      cswp_check (GetSinkDetails V sink) (\<lambda>d.
      cswp_check (FillStringParam_st (sd_name d) pName) (\<lambda>(nameOK, name).
      cswp_check (FillStringParam_st (sd_metadata d) pMetadata) (\<lambda>(metadataOK, metadata).
      if \<not> nameOK \<or> \<not> metadataOK then fail RDDI_BUFFER_OVERFLOW else ret (name, metadata, d)))))))"

definition StreamingTrace_GetConfigItem :: "('d, 'r, 'w) st_virtual \<Rightarrow> nat \<Rightarrow> c_int \<Rightarrow> c_int \<Rightarrow> unit option \<Rightarrow> size_t option
    \<Rightarrow> ('d, 'r, c_int \<times> byte list option) trace_api" where
  "StreamingTrace_GetConfigItem V th h sink pName pValue = rddi_api rddi_code th (on_env h
     (cswp_check (CheckNotNull pName) (\<lambda>_.
      cswp_check (CheckNotNull pValue) (\<lambda>_.
      cswp_check (GetConfigItem V sink) (\<lambda>val.
      cswp_check (FillStringParam_st val pValue) (\<lambda>(ok, bs).
      if ok then ret bs else fail RDDI_BUFFER_OVERFLOW))))))"

definition StreamingTrace_SetConfigItem :: "('d, 'r, 'w) st_virtual \<Rightarrow> nat \<Rightarrow> c_int \<Rightarrow> c_int \<Rightarrow> unit option \<Rightarrow> unit option
    \<Rightarrow> ('d, 'r, c_int \<times> unit option) trace_api" where
  "StreamingTrace_SetConfigItem V th h sink pName pValue = rddi_api rddi_code th (on_env h
     (cswp_check (CheckNotNull pName) (\<lambda>_. cswp_check (CheckNotNull pValue) (\<lambda>_. SetConfigItem V sink))))"

definition StreamingTrace_Attach :: "('d, 'r, 'w) st_virtual \<Rightarrow> nat \<Rightarrow> c_int \<Rightarrow> c_int \<Rightarrow> ('d, 'r, c_int \<times> unit option) trace_api" where
  "StreamingTrace_Attach V th h sink = rddi_api rddi_code th (on_env h (Attach V sink))"

text \<open>A call that fails in the first half returns; otherwise the second half follows, when the thread has ended.\<close>

definition StreamingTrace_Detach_begin :: "('d, 'r, 'w) st_virtual \<Rightarrow> nat \<Rightarrow> c_int \<Rightarrow> c_int \<Rightarrow> ('d, 'r, c_int \<times> unit option) trace_api" where
  "StreamingTrace_Detach_begin V th h sink = rddi_api rddi_code th (on_env h (Detach_begin V sink))"

definition StreamingTrace_Detach_end :: "('d, 'r, 'w) st_virtual \<Rightarrow> 'w list \<Rightarrow> 'w list \<Rightarrow> nat \<Rightarrow> c_int \<Rightarrow> c_int
    \<Rightarrow> ('d, 'r, c_int \<times> bool option) trace_api" where
  "StreamingTrace_Detach_end V ws ws' th h sink = rddi_api rddi_code th (on_env h (Detach_end V ws ws' sink))"

text \<open>Neither pointer of \<open>StreamingTrace_SubmitEventBuffer\<close> is tested.\<close>

definition StreamingTrace_SubmitEventBuffer :: "('d, 'r, 'w) st_virtual \<Rightarrow> nat \<Rightarrow> c_int \<Rightarrow> c_int \<Rightarrow> c_int \<Rightarrow> nat
    \<Rightarrow> ('d, 'r, c_int \<times> c_int option) trace_api" where
  "StreamingTrace_SubmitEventBuffer V th h sink bufferType p = rddi_api rddi_code th (on_env h (SubmitEventBuffer V sink bufferType p))"

definition StreamingTrace_WaitForEvent :: "nat \<Rightarrow> c_int \<Rightarrow> c_int \<Rightarrow> unit option \<Rightarrow> ('d, 'r, c_int \<times> c_int option) trace_api" where
  "StreamingTrace_WaitForEvent th h sink pEventToken = rddi_api rddi_code th
     (on_env h (cswp_check (CheckNotNull pEventToken) (\<lambda>_. WaitForEvent sink)))"

definition StreamingTrace_Start :: "('d, 'r, 'w) st_virtual \<Rightarrow> nat \<Rightarrow> c_int \<Rightarrow> c_int \<Rightarrow> ('d, 'r, c_int \<times> unit option) trace_api" where
  "StreamingTrace_Start V th h sink = rddi_api rddi_code th (on_env h (Start V sink))"

definition StreamingTrace_Stop :: "('d, 'r, 'w) st_virtual \<Rightarrow> nat \<Rightarrow> c_int \<Rightarrow> c_int \<Rightarrow> ('d, 'r, c_int \<times> unit option) trace_api" where
  "StreamingTrace_Stop V th h sink = rddi_api rddi_code th (on_env h (Stop V sink))"

definition StreamingTrace_Flush :: "('d, 'r, 'w) st_virtual \<Rightarrow> nat \<Rightarrow> c_int \<Rightarrow> c_int \<Rightarrow> ('d, 'r, c_int \<times> unit option) trace_api" where
  "StreamingTrace_Flush V th h sink = rddi_api rddi_code th (on_env h (Flush V sink))"

subsection \<open>Opening\<close>

text \<open>C27: Opening a connection gives the smallest handle that is not in use, and it stands for a connection
  without a configuration; no other handle is affected, and the table stays in order, so the search for
  the next handle finds the smallest again. The result is also the last error of the calling thread, and of no
  other.\<close>

theorem open_gives_smallest_handle:
  assumes "handles_ok (map fst (g_envs r))" and "RDDI_Open th p r = Done (e, ph) r'"
  shows "handles_ok (map fst (g_envs r')) \<and> g_err r' = (g_err r)(th := e)
    \<and> (case ph of
        None \<Rightarrow> e \<noteq> 0 \<and> g_envs r' = g_envs r
      | Some h \<Rightarrow> e = 0 \<and> h \<notin> fst ` set (g_envs r) \<and> 0 \<le>s h \<and> (\<forall>k. 0 \<le>s k \<and> k <s h \<longrightarrow> k \<in> fst ` set (g_envs r))
          \<and> map_of (g_envs r') = (map_of (g_envs r))(h \<mapsto> NullImplementation))"
proof -
  let ?h = "first_available 0 (map fst (g_envs r))"
  note ok = assms(1) [unfolded handles_ok_def]
  have least: "0 \<le>s ?h \<and> ?h \<notin> set (map fst (g_envs r)) \<and> (\<forall>k. 0 \<le>s k \<and> k <s ?h \<longrightarrow> k \<in> set (map fst (g_envs r)))"
    by (rule first_available_least) (use ok in simp_all)
  note keys = put_env_keys [OF ok [THEN conjunct1], of ?h NullImplementation]
  note api = RDDI_Open_def api_defs CheckNotNull_def env_Store_def rddi_code_def
  consider "p = None" | "p \<noteq> None" "?h = 0x7FFFFFFF" | "p \<noteq> None" "?h \<noteq> 0x7FFFFFFF" by blast
  then show ?thesis
  proof cases
    case 1
    then show ?thesis using assms by (auto simp: api USBException_def RDDI_BADARG_def)
  next
    case 2
    then show ?thesis using assms by (auto simp: api USBException_def RDDI_TOOMANYCONNECTIONS_def)
  next
    case 3
    then have r: "e = 0" "ph = Some ?h" "r' = r\<lparr>g_envs := put_env ?h NullImplementation (g_envs r), g_err := (g_err r)(th := 0)\<rparr>"
      using assms(2) by (auto simp: api)
    have "handles_ok (map fst (g_envs r'))"
      using keys ok least 3(2) by (simp add: handles_ok_def r(3))
    then show ?thesis using r keys least by simp
  qed
qed

theorem open_gives_smallest_handle_witness:
  "\<exists>r'. RDDI_Open 0 (Some ()) \<lparr>g_envs = [(0, NullImplementation), (2, NullImplementation)], g_err = (\<lambda>_. 7)\<rparr> = Done (0, Some 1) (r' :: ((amis_dev, usb_result) strace env, nat) rddi_state)
    \<and> g_err r' 0 = 0 \<and> g_err r' 1 = 7 \<and> handles_ok (map fst (g_envs r'))"
proof -
  let ?r = "\<lparr>g_envs = [(0, NullImplementation), (2, NullImplementation)], g_err = (\<lambda>_. 7)\<rparr> :: ((amis_dev, usb_result) strace env, nat) rddi_state"
  have ok: "handles_ok (map fst (g_envs ?r))" by (simp add: handles_ok_def word_sle_eq word_sless_alt)
  have run: "RDDI_Open 0 (Some ()) ?r
      = Done (0, Some 1) \<lparr>g_envs = [(0, NullImplementation), (1, NullImplementation), (2, NullImplementation)], g_err = (\<lambda>_. 7)(0 := 0)\<rparr>"
    by (simp add: RDDI_Open_def api_defs CheckNotNull_def env_Store_def word_sless_alt)
  from open_gives_smallest_handle [OF ok run] run show ?thesis by simp
qed

text \<open>A buffer of an invalid type is refused with the code that stands for an invalid handle, because the
  exception carries an event type as its code.\<close>

lemma invalid_type_is_invalid_handle:
  assumes "bufferType \<noteq> EVENT_TYPE_DATA" and "bufferType \<noteq> EVENT_TYPE_EVENT" and "SubmitEventBuffer V sink bufferType p s = Fail e s'"
    and "m_nextToken s' = m_nextToken s + 1"
  shows "rddi_code e = RDDI_INVHANDLE"
proof -
  have "m_nextToken s \<noteq> m_nextToken s + 1" by simp
  then show ?thesis
    using assms unfolding SubmitEventBuffer_def
    by (auto elim!: check_FailE simp: CheckConnected_def CheckSink_def get_sink_same(2) queue_buffer_def upd_buffer_def rddi_code_def
        EVENT_TYPE_ERROR_def USBException_def RDDI_INVHANDLE_def dest!: get_sink_same(1) split: if_splits option.splits)
qed

end
