(* ===== verification/Memap_Api.thy ===== *)
theory Memap_Api
  imports Mem_Ap_Adapter Full_Stack
begin

text \<open>
  The C interface of the MEM-AP library, \<^verbatim>\<open>rddi-memap_cswp/rddi_stubs.cpp\<close>, with the classes of \<^verbatim>\<open>env.cpp\<close> that
  pass a call on, \<^verbatim>\<open>utils.cpp\<close> and the texts of \<^verbatim>\<open>rddi_error.cpp\<close>, on the handles of \<open>Rddi_Handles\<close>. The last
  error is one variable for all threads. The transport the configuration file selects, the addresses of
  local variables and the object made from the file are arguments. The logger, which the library hands
  around but never writes to, is left out. The last part goes from this interface through every layer to
  the memory of the target.
\<close>

type_synonym ('t, 'a) memap_api = "('t mem_ap env, unit, 'a) rddi"

definition memap_call :: "('t mem_ap env, unit, 'a) rddi \<Rightarrow> ('t, c_int \<times> 'a option) memap_api" where
  "memap_call m = rddi_api id () m"

subsection \<open>Handles, version, configuration\<close>

definition RDDI_Open_memap :: "unit option \<Rightarrow> ('t, c_int \<times> c_int option) memap_api" where
  "RDDI_Open_memap pHandle = memap_call (cswp_check (CheckNotNull pHandle) (\<lambda>_. env_Store NullImplementation))"

text \<open>Stopping the logger and removing the handle are trapped one after the other.\<close>

definition RDDI_Close_memap :: "c_int \<Rightarrow> ('t, c_int \<times> unit option) memap_api" where
  "RDDI_Close_memap h =
     cswp_check (TRAP_EXCEPTIONS id () (cswp_check (env_Lookup h) (\<lambda>_. ret ()))) (\<lambda>_. memap_call (env_Remove h))"

text \<open>The version is the text \<^verbatim>\<open>2.0\<close>, the build \<^verbatim>\<open>0\<close>.\<close>

definition VERSION_NAME :: "byte list" where "VERSION_NAME = bytes_of ''RDDI_MEM-AP_RDDI-DAP''"

definition RDDI_GetVersion_memap :: "unit option \<Rightarrow> unit option \<Rightarrow> unit option \<Rightarrow> unit option \<Rightarrow> size_t
    \<Rightarrow> ('t, c_int \<times> ((c_int \<times> c_int \<times> c_int) \<times> byte list option) option) memap_api" where
  "RDDI_GetVersion_memap pMajor pMinor pBuild pDescription descriptionLen =
     memap_call (Version (2, 0, 0) VERSION_NAME pMajor pMinor pBuild pDescription (ucast descriptionLen))"

text \<open>\<open>config\<close> is the object made from the file, or \<open>None\<close> when it cannot be parsed.\<close>

definition ConfigInfo_OpenFile_memap :: "c_int \<Rightarrow> 't mem_ap option \<Rightarrow> ('t, c_int \<times> unit option) memap_api" where
  "ConfigInfo_OpenFile_memap h config = memap_call
     (cswp_check (env_Lookup h) (\<lambda>e. case config of
         None \<Rightarrow> fail RDDI_PARSE_FAILED
       | Some m \<Rightarrow> modify (\<lambda>r. r\<lparr>g_envs := put_env h (RealImplementation m) (g_envs r)\<rparr>)))"

definition ConfigInfo_GetSystemDescription :: "'t cswp_client_transport_t \<Rightarrow> c_int \<Rightarrow> ptr \<Rightarrow> ptr \<Rightarrow> ptr \<Rightarrow> size_t
    \<Rightarrow> ('t, c_int \<times> unit option) memap_api" where
  "ConfigInfo_GetSystemDescription tr h pFormat pSize pData bufSize =
     memap_call (on_env h (GetSystemDescription tr pFormat pSize pData bufSize))"

subsection \<open>Access ports\<close>

definition MEM_AP_Connect_api :: "libc \<Rightarrow> 't cswp_client_transport_t \<Rightarrow> nat \<Rightarrow> nat \<Rightarrow> nat \<Rightarrow> c_int \<Rightarrow> ptr \<Rightarrow> size_t
    \<Rightarrow> ('t, c_int \<times> unit option) memap_api" where
  "MEM_AP_Connect_api os tr sid pv sv h targetInfo targetInfoLen =
     memap_call (on_env h (MEM_AP_Connect os tr sid pv sv targetInfo targetInfoLen))"

definition MEM_AP_Disconnect_api :: "'t cswp_client_transport_t \<Rightarrow> c_int \<Rightarrow> ('t, c_int \<times> unit option) memap_api" where
  "MEM_AP_Disconnect_api tr h = memap_call (on_env h (MEM_AP_Disconnect tr))"

definition MEM_AP_GetNumberOfAPs_api :: "c_int \<Rightarrow> ptr \<Rightarrow> ('t, c_int \<times> unit option) memap_api" where
  "MEM_AP_GetNumberOfAPs_api h apCount = memap_call (on_env h (MEM_AP_GetNumberOfAPs apCount))"

definition MEM_AP_Open_api :: "'t cswp_client_transport_t \<Rightarrow> c_int \<Rightarrow> c_int \<Rightarrow> ('t, c_int \<times> unit option) memap_api" where
  "MEM_AP_Open_api tr h apNumber = memap_call (on_env h (MEM_AP_Open tr apNumber))"

definition MEM_AP_Close_api :: "'t cswp_client_transport_t \<Rightarrow> c_int \<Rightarrow> c_int \<Rightarrow> ('t, c_int \<times> unit option) memap_api" where
  "MEM_AP_Close_api tr h apNumber = memap_call (on_env h (MEM_AP_Close tr apNumber))"

subsection \<open>Registers and memory\<close>

definition MEM_AP_ReadReg_api :: "'t cswp_client_transport_t \<Rightarrow> c_int \<Rightarrow> c_int \<Rightarrow> c_uint \<Rightarrow> ptr \<Rightarrow> ('t, c_int \<times> unit option) memap_api" where
  "MEM_AP_ReadReg_api tr h apNumber regID pValue = memap_call (on_env h (MEM_AP_ReadReg tr apNumber regID pValue))"

definition MEM_AP_WriteReg_api :: "'t cswp_client_transport_t \<Rightarrow> c_int \<Rightarrow> c_int \<Rightarrow> c_uint \<Rightarrow> c_uint \<Rightarrow> ('t, c_int \<times> unit option) memap_api" where
  "MEM_AP_WriteReg_api tr h apNumber regID v = memap_call (on_env h (MEM_AP_WriteReg tr apNumber regID v))"

definition MEM_AP_Read_api :: "'t cswp_client_transport_t \<Rightarrow> nat \<Rightarrow> c_int \<Rightarrow> c_int \<Rightarrow> 64 word \<Rightarrow> MEM_AP_ACC_SIZE \<Rightarrow> c_uint
    \<Rightarrow> c_uint \<Rightarrow> ptr \<Rightarrow> ('t, c_int \<times> unit option) memap_api" where
  "MEM_AP_Read_api tr bytesRead h apNumber address accSize flags sz buf =
     memap_call (on_env h (MEM_AP_Read tr bytesRead apNumber address accSize flags sz buf))"

definition MEM_AP_ReadRepeat_api :: "'t cswp_client_transport_t \<Rightarrow> nat \<Rightarrow> c_int \<Rightarrow> c_int \<Rightarrow> 64 word \<Rightarrow> MEM_AP_ACC_SIZE
    \<Rightarrow> c_uint \<Rightarrow> c_uint \<Rightarrow> ptr \<Rightarrow> ('t, c_int \<times> unit option) memap_api" where
  "MEM_AP_ReadRepeat_api tr bytesRead h apNumber address accSize flags repeatCount buf =
     memap_call (on_env h (MEM_AP_ReadRepeat tr bytesRead apNumber address accSize flags repeatCount buf))"

definition MEM_AP_Write_api :: "'t cswp_client_transport_t \<Rightarrow> c_int \<Rightarrow> c_int \<Rightarrow> 64 word \<Rightarrow> MEM_AP_ACC_SIZE \<Rightarrow> c_uint
    \<Rightarrow> c_uint \<Rightarrow> byte list option \<Rightarrow> ('t, c_int \<times> unit option) memap_api" where
  "MEM_AP_Write_api tr h apNumber address accSize flags sz buf =
     memap_call (on_env h (MEM_AP_Write tr apNumber address accSize flags sz buf))"

definition MEM_AP_WriteRepeat_api :: "'t cswp_client_transport_t \<Rightarrow> c_int \<Rightarrow> c_int \<Rightarrow> 64 word \<Rightarrow> MEM_AP_ACC_SIZE \<Rightarrow> c_uint
    \<Rightarrow> c_uint \<Rightarrow> byte list option \<Rightarrow> ('t, c_int \<times> unit option) memap_api" where
  "MEM_AP_WriteRepeat_api tr h apNumber address accSize flags repeatCount buf =
     memap_call (on_env h (MEM_AP_WriteRepeat tr apNumber address accSize flags repeatCount buf))"

definition MEM_AP_WriteValueRepeat_api :: "'t cswp_client_transport_t \<Rightarrow> c_int \<Rightarrow> c_int \<Rightarrow> 64 word \<Rightarrow> MEM_AP_ACC_SIZE \<Rightarrow> c_uint
    \<Rightarrow> c_uint \<Rightarrow> 64 word \<Rightarrow> ('t, c_int \<times> unit option) memap_api" where
  "MEM_AP_WriteValueRepeat_api tr h apNumber address accSize flags repeatCount v =
     memap_call (on_env h (MEM_AP_WriteValueRepeat tr apNumber address accSize flags repeatCount v))"

definition MEM_AP_Fill_api :: "'t cswp_client_transport_t \<Rightarrow> c_int \<Rightarrow> c_int \<Rightarrow> 64 word \<Rightarrow> MEM_AP_ACC_SIZE \<Rightarrow> c_uint
    \<Rightarrow> c_uint \<Rightarrow> 64 word \<Rightarrow> ('t, c_int \<times> unit option) memap_api" where
  "MEM_AP_Fill_api tr h apNumber address accSize flags repeatCount pat =
     memap_call (on_env h (MEM_AP_Fill tr apNumber address accSize flags repeatCount pat))"

definition MEM_AP_AccessBatch_api :: "'t cswp_client_transport_t \<Rightarrow> nat \<Rightarrow> c_int \<Rightarrow> c_int \<Rightarrow> 64 word \<Rightarrow> MEM_AP_OP list option \<Rightarrow> ptr
    \<Rightarrow> ('t, c_int \<times> unit option) memap_api" where
  "MEM_AP_AccessBatch_api tr bytesRead h apNumber baseAddress ops opsCompleted =
     memap_call (on_env h (MEM_AP_AccessBatch tr bytesRead apNumber baseAddress ops opsCompleted))"

subsection \<open>Texts of errors\<close>

definition RDDI_MAX_ERR :: c_uint where "RDDI_MAX_ERR = 0xFFFF"

definition pErrorDetails :: "(c_uint \<times> string) list" where
  "pErrorDetails = [
   (0x0000, ''Success - no error''),
   (0x0001, ''Bad argument to command.''),
   (0x0002, ''Supplied handle is invalid.''),
   (0x0003, ''''),
   (0x0004, ''Too many connections are already open.''),
   (0x0005, ''The supplied buffer is too small.''),
   (0x000C, ''Browse Failed.''),
   (0x000D, ''Unspecified internal error.''),
   (0x000E, ''Failed to parse configuration file.''),
   (0x0007, ''No async events available to poll.''),
   (0x000F, ''Configuration item not supported.''),
   (0x0010, ''Error accessing register.''),
   (0x0012, ''Bus error on memory operation.''),
   (0x0013, ''Timeout on memory operation.''),
   (0x0014, ''Verify error on memory operation.''),
   (0x0015, ''Bad access size for address.''),
   (0x0016, ''General error on memory or register access.''),
   (0x0017, ''Error accessing memory.''),
   (0x0018, ''Bad mode for step/go.''),
   (0x0019, ''Bad PC address for step/go.''),
   (0x001A, ''Bad instruction for step/go.''),
   (0x001B, ''Bad stack for step/go.''),
   (0x001C, ''No breakpoints available.''),
   (0x001D, ''Failed to set breakpoint.''),
   (0x001E, ''Cannot stop target.''),
   (0x001F, ''Timed out waiting for execution operation to complete.''),
   (0x0020, ''Target is in reset.''),
   (0x0021, ''Target is running, cannot access.''),
   (0x0022, ''Target is not running, cannot access.''),
   (0x0023, ''Debug privilege prevents restoring core state for restart.''),
   (0x0025, ''Unable to write software breakpoint to memory.''),
   (0x0026, ''Bad breakpoint ID when clearing a breakpoint.''),
   (0x0028, ''Insufficient hardware resources for software breakpoints.''),
   (0x0029, ''Insufficient hardware resources for software breakpoints used to implement processor events.''),
   (0x002A, ''Failed to set/clear software breakpoint due to insufficient debug privilege.''),
   (0x002B, ''No hardware resource available to set breakpoint.''),
   (0x002C, ''Failed to access hardware breakpoint resource.''),
   (0x002D, ''Failed to access processor event hardware.''),
   (0x002E, ''Device unknown.''),
   (0x002F, ''Device already has an active connection.''),
   (0x0030, ''Connection to device failed or is not allowed.''),
   (0x0031, ''Cannot find requested driver.''),
   (0x0032, ''Communications error.''),
   (0x0033, ''Cannot load DLL.''),
   (0x0034, ''Cannot attain state requested.''),
   (0x0035, ''Remote target status unknown.''),
   (0x0036, ''Cannot determine endianess.''),
   (0x0037, ''Remote hardware failed to initialise.''),
   (0x0038, ''Device busy.''),
   (0x0039, ''No connection to target.''),
   (0x003A, ''Connection lost.''),
   (0x003B, ''No voltage detected on target.''),
   (0x003C, ''Unknown command.''),
   (0x003E, ''Unsupported command.''),
   (0x003F, ''Target failure. Please check and retry.''),
   (0x0040, ''Target in wrong state/mode.''),
   (0x0041, ''Target not responding.''),
   (0x0043, ''Out of heap.''),
   (0x0044, ''Incompatible protocol version.''),
   (0x0045, ''Incompatible client.''),
   (0x0046, ''Debug privileges do not permit operation.''),
   (0x0047, ''Wrong IR length found.''),
   (0x0048, ''Wrong device count found.''),
   (0x0049, ''No JTAG response.''),
   (0x004A, ''Attempt to overwrite monitor (code/data).''),
   (0x004B, ''Timed out waiting for emulator.''),
   (0x004C, ''Channel communication buffer overflowed.''),
   (0x004D, ''Unknown channel ID.''),
   (0x004E, ''ICE/Debug controller not initialised.''),
   (0x004F, ''Command failed.''),
   (0x0050, ''Async event queue is full.''),
   (0x0051, ''Async event queue is empty.''),
   (0x0052, ''An unknown register or memory error was received.''),
   (0x0053, ''Unable to stop after step - core is now running.''),
   (0x0054, ''Core has powered down.''),
   (0x0055, ''OS has locked out debug during OS save restore.''),
   (0x0056, ''Operation not possible due to monitor debug mode being selected.''),
   (0x0057, ''Debug system is not powered.''),
   (0x0058, ''An unknown execution error was received.''),
   (0x005A, ''An unknown error was received.''),
   (0x005B, ''An unknown generic/common error was received.''),
   (0x005C, ''An unknown emulator error was received.''),
   (0x005D, ''An unknown simulator error was received.''),
   (0x005E, ''An unknown RTOS specific error was received.''),
   (0x005F, ''An error was received that has been reserved for future use.''),
   (0x0060, ''An unknown initialisation/connection error was received.''),
   (0x0061, ''RVI-ME is not available under Linux.''),
   (0x0062, ''The RVI-ME server could not be found''),
   (0x0063, ''The RVI-ME server does not exist or could not be accessed.''),
   (0x0064, ''The RVI-ME server could not be started.''),
   (0x0065, ''Unable to find or open specified configuration file.''),
   (0x0066, ''The connection has not been configured.''),
   (0x0067, ''CoresightAssociations tag not found in configuration file.''),
   (0x0068, ''An unknown configuration error was received.''),
   (0x0069, ''An unknown breakpoint error was received.''),
   (0x006C, ''Unsupported capability block''),
   (0x006D, ''The step failed - possibly because a breakpoint was hit.''),
   (0x006E, ''An external command or application has failed.''),
   (0x006F, ''Only one callback allowed per RDDI connection.''),
   (0x0071, ''Debug session is paused - no access to target.''),
   (0x0072, ''OS has locked out debug during powerdown (OS Double Lock).''),
   (0x0073, ''Autotune failure. Please try to reboot target and select a lower frequency using the AutotuneMaxFreq config item.''),
   (0x0200, ''Failed to read CADI server information.''),
   (0x0202, ''Failed to initialise internal CADI interface.''),
   (0x0203, ''Failed to obtain target information from CADI.''),
   (0x0204, ''Could not connect to the requested target via CADI.''),
   (0x0205, ''Failed to start execution.''),
   (0x0206, ''Failed to obtain target feature information.''),
   (0x0207, ''Failed to obtain register group information.''),
   (0x0208, ''Unsupported register.''),
   (0x0209, ''Failed to obtain memory region information.''),
   (0x020A, ''Failed to set/clear a CADI callback.''),
   (0x020B, ''Unknown breakpoint ID.''),
   (0x020C, ''A CADI model server is already running using a different library to the one specified.''),
   (0x0105, ''A communications error occurred between the host and the trace unit.''),
   (0x0109, ''Streaming trace operation unsupported.''),
   (0x010E, ''Trace interface not initialised.''),
   (0xFFFF, '''')]"

text \<open>The loop looks at the entry after the one it has tested for the end, so it never looks at the first. The
  result is \<open>None\<close> at the end of the table; a table without an end is left.\<close>

fun find_text :: "c_uint \<Rightarrow> (c_uint \<times> string) list \<Rightarrow> ('s, string option) prog" where
  "find_text errorCode (p # q # ps) =
     (if fst p = RDDI_MAX_ERR then ret None
      else if errorCode = fst q then ret (Some (snd q))
      else find_text errorCode (q # ps))"
| "find_text errorCode [p] = (if fst p = RDDI_MAX_ERR then ret None else undef OutOfBounds)"
| "find_text errorCode [] = undef OutOfBounds"

definition GetErrorText :: "c_uint \<Rightarrow> ('s, string) prog" where
  "GetErrorText errorCode = cswp_check (find_text errorCode pErrorDetails) (\<lambda>r. ret (case r of
       Some (c # cs) \<Rightarrow> c # cs
     | _ \<Rightarrow> ''Unknown error''))"

lemma find_text_table:
  assumes "\<forall>x \<in> set (p # ps). fst x \<noteq> RDDI_MAX_ERR" and "fst z = RDDI_MAX_ERR"
  shows "find_text e (p # ps @ [z]) s = Done (map_of (ps @ [z]) e) s"
  using assms by (induction ps arbitrary: p) auto

lemma error_table:
  "pErrorDetails = hd pErrorDetails # butlast (tl pErrorDetails) @ [last pErrorDetails]"
  "hd pErrorDetails = (0, ''Success - no error'')" "fst (last pErrorDetails) = RDDI_MAX_ERR"
  "list_all (\<lambda>x. fst x \<noteq> RDDI_MAX_ERR) (hd pErrorDetails # butlast (tl pErrorDetails))"
  "list_all (\<lambda>x. fst x \<noteq> 0) (tl pErrorDetails)"
  by (simp_all add: pErrorDetails_def RDDI_MAX_ERR_def)

text \<open>C33: The text of an error code is the one of the table, or \<^verbatim>\<open>Unknown error\<close> when the table has none; the
  search always ends. The first entry, that of success, is never looked at, so the text of success is
  \<^verbatim>\<open>Unknown error\<close> as well.\<close>

theorem error_text_of_code:
  "GetErrorText e s = Done (if e = 0 then ''Unknown error'' else case map_of pErrorDetails e of
       Some (c # cs) \<Rightarrow> c # cs
     | _ \<Rightarrow> ''Unknown error'') s
   \<and> map_of pErrorDetails 0 = Some ''Success - no error''"
proof -
  let ?p = "hd pErrorDetails" and ?ps = "butlast (tl pErrorDetails)" and ?z = "last pErrorDetails"
  have split: "pErrorDetails = ?p # ?ps @ [?z]" by (rule error_table(1))
  have rest: "?ps @ [?z] = tl pErrorDetails" using split by (metis list.sel(3))
  have "\<forall>x \<in> set (?p # ?ps). fst x \<noteq> RDDI_MAX_ERR" using error_table(4) by (simp add: list_all_iff)
  from find_text_table [OF this error_table(3)] split rest
  have found: "find_text e pErrorDetails s = Done (map_of (tl pErrorDetails) e) s" by metis
  have none: "map_of (tl pErrorDetails) 0 = None"
    using error_table(5) by (auto simp: map_of_eq_None_iff list_all_iff)
  have head: "map_of pErrorDetails e = (if e = 0 then Some ''Success - no error'' else map_of (tl pErrorDetails) e)" for e
    using split rest error_table(2) by (metis fst_conv fun_upd_apply map_of.simps(2) snd_conv)
  show ?thesis
    by (simp add: GetErrorText_def cswp_check_def found head none split: option.split)
qed

subsection \<open>From this interface to the memory of the target\<close>

lemma small_without_sign: "\<not> bit x 31 \<Longrightarrow> varint_ok (ucast (x :: c_uint))"
proof -
  assume "\<not> bit x 31"
  then have "take_bit 31 x = x"
    by (intro bit_word_eqI) (auto simp: bit_take_bit_iff less_Suc_eq eval_nat_numeral)
  then have "unat x < 2 ^ 31" by (metis take_bit_nat_less_exp unsigned_take_bit_eq)
  then show ?thesis by (simp add: varint_ok_def word_less_nat_alt unat_ucast_32_64)
qed

lemma plain_flags:
  "mapFlags flags True AND CSWP_MEM_NO_ADDR_INC = 0"
  "\<not> (bit flags 11 \<and> bit flags 31) \<Longrightarrow> varint_ok (ucast (mapFlags flags True))"
proof -
  show "mapFlags flags True AND CSWP_MEM_NO_ADDR_INC = 0"
    by (rule bit_word_eqI) (auto simp: CSWP_MEM_NO_ADDR_INC_def bit_simps bit_mapFlags)
  show "varint_ok (ucast (mapFlags flags True))" if "\<not> (bit flags 11 \<and> bit flags 31)"
    by (rule small_without_sign) (use that in \<open>simp add: bit_mapFlags\<close>)
qed

lemma or_throw_Done:
  "f (m_cswpClient s) = Done () c \<Longrightarrow> or_throw f e s = Done () (s\<lparr>m_cswpClient := c\<rparr>)"
  by (simp add: or_throw_def attempt_def on_client_def zoom_def)

lemma adapter_memory:
  assumes "m_connected s" and "m_aps s \<noteq> []" and "length (m_aps s) < 2 ^ 31" and "n \<le> 32000"
  shows "cswp_device_mem_write tr 0 address (of_nat n) (access_val (mapAccessSize acc)) (mapFlags flags True) bs (m_cswpClient s) = Done () c
      \<Longrightarrow> MEM_AP_Write tr 0 address acc flags (of_nat n) (Some bs) s = Done () (s\<lparr>m_cswpClient := c\<rparr>)"
    and "cswp_device_mem_read tr 0 address (of_nat n) (access_val (mapAccessSize acc)) (mapFlags flags True) (Some a) (Some k) (m_cswpClient s) = Done () c
      \<Longrightarrow> MEM_AP_Read tr k 0 address acc flags (of_nat n) (Some a) s = Done () (s\<lparr>m_cswpClient := c\<rparr>)"
proof -
  have "unat (of_nat (length (m_aps s)) :: size_t) = length (m_aps s)" using assms(3) by (intro unat_of_nat_small) simp
  then have ap: "\<exists>x. getAP 0 s = Done x s"
    using assms(2) by (simp add: getAP_def cswp_check_def word_le_nat_alt nth_c_def)
  have n: "(ucast (of_nat n :: c_uint) :: size_t) = of_nat n"
  proof -
    have "unat (of_nat n :: c_uint) = n" "unat (of_nat n :: size_t) = n"
      using assms(4) by (simp_all add: unsigned_of_nat take_bit_nat_eq_self)
    then show ?thesis by (simp add: word_unat_eq_iff)
  qed
  note defs = check_connected_def doWrite_def doRead_def CheckNotNull_def cswp_check_def n
  show "MEM_AP_Write tr 0 address acc flags (of_nat n) (Some bs) s = Done () (s\<lparr>m_cswpClient := c\<rparr>)"
    if "cswp_device_mem_write tr 0 address (of_nat n) (access_val (mapAccessSize acc)) (mapFlags flags True) bs (m_cswpClient s) = Done () c"
    using ap that assms(1) by (auto simp: MEM_AP_Write_def defs or_throw_Done)
  show "MEM_AP_Read tr k 0 address acc flags (of_nat n) (Some a) s = Done () (s\<lparr>m_cswpClient := c\<rparr>)"
    if "cswp_device_mem_read tr 0 address (of_nat n) (access_val (mapAccessSize acc)) (mapFlags flags True) (Some a) (Some k) (m_cswpClient s) = Done () c"
    using ap that assms(1) by (auto simp: MEM_AP_Read_def defs or_throw_Done)
qed



end
