(* ===== verification/Spec2Isabelle.thy ===== *)
theory Spec2Isabelle
  imports Client_Properties Target_Properties Tcp_Transport Full_Stack Trace_Capture Mem_Ap_Adapter
    Usb_Transfers Client_Transports Trace_Session Trace_Api Memap_Api
begin

text \<open>
  The CoreSight wire protocol (CSWP) lets a debugger on a host use the debug hardware of a target over
  USB or TCP. A client library encodes commands into one request message; the server program on the
  target runs the commands of a request one after the other and sends back one response message with
  a reply for each. This library models that path from the call in the client to the memory of the
  target and back, the programs built on top of the client, and the trace library and capture beside it.

  \<^bold>\<open>Conventions\<close> (\<open>Prelude\<close>). A piece of code is a function from a state to an outcome: \<open>Done\<close> with a
  value and a state, \<open>Fail\<close> with a result code and a state, or \<open>Undef\<close> with the kind of undefined
  behaviour. \<open>cswp_check\<close> is the pattern of the macro \<^verbatim>\<open>CSWP_CHECK\<close> (go on if the result is success),
  \<open>ignore\<close> drops a result, \<open>attempt\<close> looks at it. Integers are words of their width; \<open>Undef\<close> stands for
  accesses out of bounds, null pointers, overflow of an \<open>int\<close>, bad shifts, uninitialised values. An
  unbounded loop over a \<open>uint32_t\<close> runs its exact number of rounds, and a loop that never ends is the
  outcome \<open>Undef Endless\<close>, not a partial function.

  \<^bold>\<open>Theories and sources.\<close>
  \<^item> \<open>Cswp_Types\<close>, \<open>Cswp_Buffer\<close>: \<^verbatim>\<open>cswp/cswp_types.h\<close> and \<^verbatim>\<open>cswp/cswp_buffer.c\<close>, the result codes, command
    numbers and the message buffer with its encoders and decoders. \<open>Buffer_Contract\<close> gives each of
    them a contract (\<open>emits\<close>, \<open>reads\<close>, \<open>writes\<close>, \<open>moved\<close>), \<open>Codec\<close> turns a pair of them into a locale
    with its round trip, and \<open>Messages\<close> holds commands and replies as data with their bytes.
  \<^item> \<open>Client_Commands\<close>, \<open>Cswp_Client\<close>: \<^verbatim>\<open>cswp/client/\<close>. A call encodes its command and queues the completion
    for its reply; a transaction sends the request and runs the completions. \<open>Client_Refines\<close> and
    \<open>Client_Transact\<close> show what replies do to the memory of the caller (\<open>deliver\<close>).
  \<^item> \<open>Server_Commands\<close>, \<open>Server_Impl\<close>, \<open>Server_Cmdint\<close>: \<^verbatim>\<open>cswp/server/\<close>, the codec, the server state with
    its table of callbacks, and the command interpreter. \<open>Server_Spec\<close> is the abstract server on
    commands and replies, \<open>Server_Refines\<close> the refinement, \<open>Server_Safety\<close> the behaviour on arbitrary
    bytes. The callbacks are a parameter there; \<open>quiet\<close>, \<open>alloc_ok\<close> and \<open>impl_ok\<close> say what is assumed.
  \<^item> \<open>Target_Server\<close>, \<open>Target_Events\<close>: \<^verbatim>\<open>target/cswp_server/cswp_server.c\<close>, the command thread and the USB
    events that start and stop it, with \<open>Target_Refines\<close> (sessions of requests) and \<open>Target_Safety\<close>.
  \<^item> \<open>Target_Impl\<close>, \<open>Target_Memory\<close>: \<^verbatim>\<open>target/cswp_server/cswp_impl.c\<close>, the reference
    implementation of the callbacks. The file system and the physical memory are the parameter \<open>sys\<close>;
    \<open>Device_Lemmas\<close> and \<open>Device_Properties\<close> hold what its operations do.
  \<^item> \<open>Tcp_Transport\<close>: \<^verbatim>\<open>common_tcp/common_tcp.c\<close>, messages over a stream that is cut into segments.
  \<^item> \<open>End_To_End\<close>, \<open>Full_Stack\<close> and this theory: a client whose transport is the server program
    (\<open>loopback\<close>), in general and with the reference implementation behind it.
  \<^item> \<open>Mem_Ap_Adapter\<close>: \<^verbatim>\<open>rddi-memap_cswp/env.cpp\<close>, the RDDI MEM-AP interface on top of the client.
  \<^item> \<open>Trace_Capture\<close>: \<^verbatim>\<open>rddi_streaming_trace/streaming_trace_capture/main.c\<close>.
  \<^item> \<open>Usb_Device\<close>, \<open>Usb_Connect\<close>: \<^verbatim>\<open>usb_client/usb_device_linux.cpp\<close>, asynchronous transfers over libusb, and
    finding, opening and closing a device. libusb and the bus are parameters. \<open>Usb_Transfers\<close> follows
    the transfers of a device through any sequence of its calls.
  \<^item> \<open>Client_Transports\<close>: \<^verbatim>\<open>cswp/tcp_transport/\<close> with \<^verbatim>\<open>tcp_client/tcp_device.cpp\<close>, and \<^verbatim>\<open>cswp/usb_transport/\<close>, the
    callbacks the client library sends and receives with, and the transactions that run over them.
  \<^item> \<open>Streaming_Trace\<close>: \<^verbatim>\<open>rddi_streaming_trace/common/streaming_trace_base.cpp\<close>, sinks, buffers, the data
    thread. Calls hold a lock and are steps; \<open>Detach\<close> and the thread let go of it and are split there.
    \<open>Trace_Tokens\<close> has the runs of client calls and threads (\<open>st_run\<close>) and the fate of every token, for any
    device that keeps the contract \<open>trace_device\<close>.
  \<^item> \<open>Streaming_Amis\<close>: \<^verbatim>\<open>rddi_streaming_trace_amis/\<close>, that device over USB; \<open>Trace_Session\<close> runs it.
  \<^item> \<open>Rddi_Handles\<close>: what the two RDDI libraries share, the table of handles, the environment behind a handle,
    exceptions as result codes. \<open>Trace_Api\<close>: the C interface of the trace library,
    \<^verbatim>\<open>rddi_streaming_trace/common/api_stubs.cpp\<close> and \<^verbatim>\<open>env.cpp\<close>. \<open>Memap_Api\<close>: that of the MEM-AP library,
    \<^verbatim>\<open>rddi-memap_cswp/rddi_stubs.cpp\<close>, with the texts of \<^verbatim>\<open>rddi_error.cpp\<close>, and the way from it through all
    layers to the memory of the target (\<open>memap_memory_round_trip\<close>).

  \<^bold>\<open>What is shown.\<close> The refinement theorems compose: the codecs are inverse, the interpreter implements the
  abstract server, the command thread answers a request with the replies of its commands, and the
  client delivers them; \<open>accepted_call_delivers\<close> and \<open>accepted_batch_delivers\<close> put this together, and
  \<open>tcp_transaction_delivers\<close> and \<open>usb_transaction_delivers\<close> do so for the real transports. Two invariants
  follow what is in flight: the transfers of a USB device and the buffers of a trace session. The
  safety theorems take arbitrary bytes and bound what can go wrong, and the theorems about errors show
  what does: each names the input and the behaviour. Bounds: lengths and counts below \<open>2\<^sup>3\<^sup>1\<close>, since the
  varint decoder goes through an \<open>int\<close>; request and response within the 32768 bytes of the buffers. The
  loop over the commands of a request takes as many rounds as there are bytes in it and one more,
  which is enough because every command consumes a byte (\<open>server_command_progress\<close>); polling takes at
  most its number of tries. A blocking call takes a list of what happens while it waits; a list that ends
  too early is a call that has not returned (\<open>Blocked\<close>, \<open>False\<close>), not a result.

  \<^bold>\<open>Not modelled.\<close> The start-up of the programs (argument parsing, opening sockets and USB endpoints,
  signal handlers), printing and log files, and the release of memory, where it is not the assignment
  of \<open>NULL\<close> that follows it, have no effect on the protocol. The Windows USB back end repeats the Linux
  one over another system interface. Configuration files are parsed by a library. Of the two
  RDDI libraries the texts of exceptions are left out, with \<open>RDDI_GetLastError\<close>, which prints them, and
  the logger of the MEM-AP library, to which nothing is written. The
  headers of the RDDI interfaces declare functions only; tests, drivers and generated
  documentation are no part of the program. Allocations of a few bytes in the client and of the
  names of register directories are taken to succeed, as the code does.
\<close>

section \<open>Calls through both sides\<close>

definition idle_server :: "unit ctx" where
  "idle_server = \<lparr>srv = zero_state (), cmd = empty_buffer 32768, rsp = empty_buffer 32768\<rparr>"

lemma idle_server_ready: "server_ready idle_server" "srv idle_server = zero_state ()"
  using empty_buffer_at_end [of 32768]
  by (simp_all add: server_ready_def idle_server_def TARGET_BUFFER_SIZE_def at_end_def empty_buffer_def)

definition idle_client :: "unit link cswp_client_t" where
  "idle_client = fresh_client (idle_server, [])"

lemma idle_client_ok: "client_ok idle_client" "batch_mode idle_client = BATCH_NONE"
    "transport_priv idle_client = (idle_server, [])" "c_out idle_client = test_mem"
  unfolding idle_client_def by (rule fresh_client_ok)+

abbreviation "link \<equiv> loopback plain_libc no_impl"





lemma length_error_text_enc: "length (string_enc (Some (error_text e m))) \<le> 1033"
proof -
  have "length (error_text e m) \<le> 1023" by (simp add: error_text_def)
  then have "length (cstr (error_text e m)) \<le> 1023" using length_cstr_le order_trans by blast
  then show ?thesis using length_varint_enc_le_10 [of "of_nat (length (cstr (error_text e m)))"]
    by (simp add: string_enc_def)
qed

lemma refusal_fits:
  assumes "length (command_bytes x) \<le> 1000"
  shows "exchange_fits [x] [Error_reply t e (error_text e m)]"
proof -
  have "length (varint_enc v) \<le> 10" for v by (rule length_varint_enc_le_10)
  from this [of t] this [of "scast e"] this [of 1] length_error_text_enc [of e m] assms show ?thesis
    by (simp add: exchange_fits_def response_bytes_def Let_def BUFFER_SIZE_def)
qed

text \<open>Reading memory of a device the server does not have is refused with the type of another
  command, so the client does not see the server's code: the call returns a communication error,
  and nothing is stored.\<close>

theorem invalid_device_is_communication_error:
  assumes "silent impl" and "alloc_ok os" and "client_ok c" and "batch_mode c = BATCH_NONE"
    and "transport_priv c = (d, m)" and "server_ready d"
    and "deviceCount (srv d) \<le> dev" and "varint_ok (ucast dev)" and "varint_ok n"
    and "varint_ok (ucast a)" and "varint_ok (ucast f)"
  shows "\<exists>c' d'. cswp_device_mem_read (loopback os impl) dev addr n a f pBuf pCount c = Fail (res_val CSWP_COMMS) c'
    \<and> c_out c' = c_out c \<and> transport_priv c' = (d', []) \<and> srv d' = srv d"
proof -
  let ?x = "Mem_read (ucast dev) addr n (ucast a) (ucast f)"
  obtain t where t: "c_format (bytes_of ''Invalid device %u'') [Arg_int (ucast dev)] = Some t"
    by (simp add: bytes_of_def int_conv_def long_conv_def)
  let ?r = "Error_reply (cmd_val CSWP_DEVICE_OPEN) (res_val CSWP_INVALID_DEVICE) (error_text (res_val CSWP_INVALID_DEVICE) t)"
  have "(ucast (deviceCount (srv d)) :: 64 word) \<le> ucast dev"
    using assms(7) by (simp only: word_le_nat_alt unat_ucast_32_64)
  then have run: "perform os impl ?x (srv d) = Done (Some (res_val CSWP_INVALID_DEVICE), ?r) (srv d)"
    by (simp add: on_device_def refuse_def t silent_report [OF assms(1)])
  have "length (varint_enc v) \<le> 10" for v by (rule length_varint_enc_le_10)
  from this [of "cmd_val CSWP_MEM_READ"] this [of "ucast dev"] this [of n] this [of "ucast a"] this [of "ucast f"]
  have "length (command_bytes ?x) \<le> 1000" by (simp add: command_bytes_def)
  then have fits: "exchange_fits [?x] [?r]" by (rule refusal_fits)
  have "\<exists>c' d'. submit (loopback os impl) (encode_command ?x) CSWP_MEM_READ (Mem_read_complete pBuf pCount) c
        = Fail (res_val CSWP_COMMS) c'
    \<and> c_out c' = c_out c \<and> transport_priv c' = (d', []) \<and> srv d' = srv d"
    by (rule call_mistyped [OF silent_quiet [OF assms(1)] assms(2) _ assms(3-6) run _ fits])
      (use assms(8-11) text_ok_error in \<open>simp_all add: varint_ok_cmd, simp_all add: varint_ok_def res_val.simps cmd_val.simps\<close>)
  then show ?thesis by (simp add: cswp_device_mem_read_def)
qed

theorem invalid_device_is_communication_error_witness:
  "\<exists>c'. cswp_device_mem_read link 3 0x1000 4 2 0 (Some 0) (Some 0) idle_client = Fail (res_val CSWP_COMMS) c'"
  using invalid_device_is_communication_error [OF no_impl_ok(3) plain_libc_ok(2) idle_client_ok(1-3) idle_server_ready(1),
      of 3 4 2 0 "0x1000" "Some 0" "Some 0"]
  by (auto simp: idle_server_ready zero_state_def varint_ok_def)

section \<open>Batches\<close>

text \<open>A client with two commands queued in either mode, for the witnesses.\<close>

definition batch_client :: "bool \<Rightarrow> unit link cswp_client_t" where
  "batch_client abort = (batching_client (idle_server, []))\<lparr>batch_mode := (if abort then BATCH_ABORT else BATCH_CONTINUE)\<rparr>"

lemma batch_client_ok: "client_ok (batch_client a)" "queued (batch_client a) []" "batch_mode (batch_client a) \<noteq> BATCH_NONE"
    "unat (bused (c_cmd (batch_client a))) = 15"
  using batching_client_ok [of "(idle_server, []) :: unit link"] by (simp_all add: batch_client_def client_ok_def queued_def)

lemma batch_client_begun: "cswp_batch_begin a idle_client = Done () (batch_client a)"
  by (simp add: cswp_batch_begin_def cswp_client_prepare_cmd_def batch_client_def batching_client_def idle_client_def
      fresh_client_def client_with_def CSWP_REQ_HEADER_SIZE_def)

lemma two_calls_queued:
  fixes x y :: command
  assumes "command_ok x" and "command_ok y" and "length (command_bytes x) \<le> 100" and "length (command_bytes y) \<le> 100"
  shows "\<exists>c. cswp_check (submit tr (encode_command x) t cf) (\<lambda>_. submit tr (encode_command y) u cg) (batch_client a) = Done () c
    \<and> client_ok c \<and> queued c [x, y] \<and> batch_mode c = (if a then BATCH_ABORT else BATCH_CONTINUE)
    \<and> transport_priv c = (idle_server, []) \<and> c_out c = test_mem
    \<and> pending_responses c = [\<lparr>pending_type = t, complete = cf\<rparr>, \<lparr>pending_type = u, complete = cg\<rparr>]"
proof -
  let ?c = "batch_client a"
  obtain c1 where c1: "submit tr (encode_command x) t cf ?c = Done () c1" "client_ok c1" "queued c1 [x]"
    "c1 = ?c\<lparr>c_cmd := c_cmd c1, pending_responses := pending_responses ?c @ [\<lparr>pending_type = t, complete = cf\<rparr>],
         num_cmds := num_cmds ?c + 1\<rparr>"
    using submit_batched [OF batch_client_ok(1,2) [of a] assms(1) _ _ batch_client_ok(3), of tr t cf] batch_client_ok(4) [of a] assms(3)
    by (auto simp: BUFFER_SIZE_def)
  have same1: "batch_mode c1 = batch_mode ?c" "transport_priv c1 = transport_priv ?c" "c_out c1 = c_out ?c"
    "pending_responses c1 = pending_responses ?c @ [\<lparr>pending_type = t, complete = cf\<rparr>]"
    using arg_cong [OF c1(4), of batch_mode] arg_cong [OF c1(4), of transport_priv] arg_cong [OF c1(4), of c_out]
      arg_cong [OF c1(4), of pending_responses] by simp_all
  have "length (drop 15 (written (c_cmd c1))) = length (command_bytes x)"
    using c1(3) by (simp add: queued_def CSWP_REQ_HEADER_SIZE_def del: length_drop)
  then have "unat (bused (c_cmd c1)) = 15 + length (command_bytes x)"
    using c1(3) length_written [of "c_cmd c1"] by (auto simp: queued_def at_end_def CSWP_REQ_HEADER_SIZE_def word_le_nat_alt)
  then obtain c2 where c2: "submit tr (encode_command y) u cg c1 = Done () c2" "client_ok c2" "queued c2 ([x] @ [y])"
    "c2 = c1\<lparr>c_cmd := c_cmd c2, pending_responses := pending_responses c1 @ [\<lparr>pending_type = u, complete = cg\<rparr>],
         num_cmds := num_cmds c1 + 1\<rparr>"
    using submit_batched [OF c1(2,3) assms(2) _ _, of tr u cg] same1(1) batch_client_ok(3) assms(3,4)
    by (auto simp: BUFFER_SIZE_def)
  have "batch_mode c2 = batch_mode c1" "transport_priv c2 = transport_priv c1" "c_out c2 = c_out c1"
    "pending_responses c2 = pending_responses c1 @ [\<lparr>pending_type = u, complete = cg\<rparr>]"
    using arg_cong [OF c2(4), of batch_mode] arg_cong [OF c2(4), of transport_priv] arg_cong [OF c2(4), of c_out]
      arg_cong [OF c2(4), of pending_responses] by simp_all
  with same1 c1(1) c2(1-3) show ?thesis
    by (simp add: batch_client_def batching_client_def fresh_client_def client_with_def)
qed

text \<open>C2: a batch the abstract server performs without an error delivers every reply to the call that
  waits for it, in order, and the client leaves batch mode.\<close>

theorem accepted_batch_delivers:
  assumes "quiet impl" and "alloc_ok os" and "\<And>x. x \<in> set cs \<Longrightarrow> command_ok x"
    and "batch_mode c \<noteq> BATCH_NONE" and "transport_priv c = (d, m)" and "server_ready d"
    and "perform_batch os impl True cs (srv d) = Done rs s" and "\<And>r. r \<in> set rs \<Longrightarrow> reply_ok r"
    and "exchange_fits cs rs"
    and "client_ok c" and "queued c cs" and "cs \<noteq> []"
    and "(if ops = None then ret () else store_uint ops 0) (c_out c) = Done () mem"
    and "list_all2 reply_for (pending_responses c) rs"
    and "deliver_all ops (zip (pending_responses c) rs) mem = Done () mem'"
  shows "\<exists>c' d'. cswp_batch_end (loopback os impl) ops c = Done () c' \<and> c_out c' = mem'
    \<and> batch_mode c' = BATCH_NONE \<and> pending_responses c' = [] \<and> transport_priv c' = (d', []) \<and> srv d' = s
    \<and> client_ok c' \<and> server_ready d'"
  by (rule batch_accepted [OF assms])

theorem accepted_batch_delivers_witness:
  "\<exists>c c'. cswp_check (cswp_client_info link (Some [104])) (\<lambda>_. cswp_get_devices link (Some 1) (Some []) 0 8 (Some []) 0 8)
       (batch_client True) = Done () c
    \<and> cswp_batch_end link (Some 2) c = Done () c' \<and> m_uint (c_out c') 2 = Some 2 \<and> batch_mode c' = BATCH_NONE"
proof -
  let ?x = "Client_info [104]" and ?y = "Get_devices" and ?rs = "[Ack CSWP_CLIENT_INFO, Get_devices_reply []]"
  let ?cg = "Get_devices_complete (Some 1) (Some []) 0 8 (Some []) 0 8"
  have len: "length (command_bytes ?x) = 3" "length (command_bytes ?y) = 1" "length (response_bytes (length [?x, ?y]) ?rs) = 10"
    by code_simp+
  obtain c where c: "cswp_check (submit link (encode_command ?x) CSWP_CLIENT_INFO No_completion)
        (\<lambda>_. submit link (encode_command ?y) CSWP_GET_DEVICES ?cg) (batch_client True) = Done () c"
    "client_ok c" "queued c [?x, ?y]" "batch_mode c \<noteq> BATCH_NONE" "transport_priv c = (idle_server, [])" "c_out c = test_mem"
    "pending_responses c = [\<lparr>pending_type = CSWP_CLIENT_INFO, complete = No_completion\<rparr>,
        \<lparr>pending_type = CSWP_GET_DEVICES, complete = ?cg\<rparr>]"
    using two_calls_queued [of ?x ?y link CSWP_CLIENT_INFO No_completion CSWP_GET_DEVICES ?cg True] len by (auto simp: str_ok_def)
  have run: "perform_batch plain_libc no_impl True [?x, ?y] (srv idle_server) = Done ?rs (zero_state ())"
    by (simp add: idle_server_ready accept_def device_list_def zero_state_def items_def cswp_check_def code_def)
  let ?mem = "test_mem\<lparr>m_uint := (m_uint test_mem)(2 \<mapsto> 0)\<rparr>"
  let ?mem' = "test_mem\<lparr>m_uint := (m_uint test_mem)(2 \<mapsto> 0, 2 \<mapsto> 1, 1 \<mapsto> 0, 2 \<mapsto> 2)\<rparr>"
  have all: "list_all2 reply_for (pending_responses c) ?rs" using c(7) by (simp add: reply_for_def count_ok_def)
  have mem: "deliver_all (Some 2) (zip (pending_responses c) ?rs) ?mem = Done () ?mem'"
    using c(7) by (simp add: store_uint_def test_mem_def incr_uint_def cswp_check_def fun_upd_twist)
  have "\<exists>c' d'. cswp_batch_end link (Some 2) c = Done () c' \<and> c_out c' = ?mem'
    \<and> batch_mode c' = BATCH_NONE \<and> pending_responses c' = [] \<and> transport_priv c' = (d', []) \<and> srv d' = zero_state ()
    \<and> client_ok c' \<and> server_ready d'"
    by (rule accepted_batch_delivers [OF no_impl_ok(2) plain_libc_ok(2) _ c(4,5) idle_server_ready(1) run _ _ c(2,3) _ _ all mem])
      (use c(6) len in \<open>auto simp: str_ok_def count_ok_def exchange_fits_def BUFFER_SIZE_def store_uint_def test_mem_def\<close>)
  then obtain c' where "cswp_batch_end link (Some 2) c = Done () c'" "c_out c' = ?mem'" "batch_mode c' = BATCH_NONE" by auto
  then show ?thesis using c(1) by (auto simp: cswp_client_info_def cswp_get_devices_def)
qed

text \<open>C24: A batch that should go on after an error stops at it: when its first command is refused, no
  other command of the batch is performed, although the client asked for the batch to continue.\<close>

theorem continued_batch_stops:
  assumes "quiet impl" and "alloc_ok os" and "\<And>y. y \<in> set (x # xs) \<Longrightarrow> command_ok y"
    and "batch_mode c = BATCH_CONTINUE" and "transport_priv c = (d, m)" and "server_ready d"
    and "perform os impl x (srv d) = Done (Some e, Error_reply (cmd_val (pending_type p)) e msg) s"
    and "exchange_fits (x # xs) (Error_reply (cmd_val (pending_type p)) e msg # replicate (length xs + 1) cancelled)"
    and "client_ok c" and "queued c (x # xs)" and "pending_responses c = p # ps"
    and "e \<noteq> 0" and "varint_ok (scast e)" and "string_fits ERROR_MESSAGE_SIZE (Some msg)"
  shows "\<exists>c' d'. cswp_batch_end (loopback os impl) None c = Fail e c' \<and> c_out c' = c_out c \<and> errorMsg c' = cstr msg
    \<and> transport_priv c' = (d', []) \<and> srv d' = s"
proof -
  let ?r = "Error_reply (cmd_val (pending_type p)) e msg"
  let ?rs = "[] @ ?r # replicate (length xs + 1) cancelled"
  have run: "perform_batch os impl True (x # xs) (srv d) = Done ?rs s"
    using assms(7,12) by (simp add: cswp_check_def code_def)
  have oks: "reply_ok r" if "r \<in> set ?rs" for r
    using that assms(14) by (auto simp: cancelled_def text_ok_def string_fits_def bytes_of_def)
  have mode: "batch_mode c \<noteq> BATCH_NONE" using assms(4) by simp
  have "\<exists>c' d'. cswp_batch_end (loopback os impl) None c = Fail e c' \<and> c_out c' = c_out c \<and> errorMsg c' = cstr msg
    \<and> batch_mode c' = BATCH_NONE \<and> pending_responses c' = [] \<and> transport_priv c' = (d', []) \<and> srv d' = s"
    by (rule batch_error [where rs = "[]" and ps = "[]" and ps' = ps and p = p and rs' = "replicate (length xs + 1) cancelled",
          OF assms(1-3) mode assms(5,6) run oks])
      (use assms(8-14) in simp_all)
  then show ?thesis by blast
qed

theorem continued_batch_stops_witness:
  "\<exists>c c' d'. cswp_check (cswp_get_system_description link (Some 0) (Some 1) (Some 2) 4)
       (\<lambda>_. cswp_set_devices link 1 (Some [Some [65]]) (Some [Some [66]])) (batch_client False) = Done () c
    \<and> cswp_batch_end link None c = Fail (res_val CSWP_UNSUPPORTED) c'
    \<and> transport_priv c' = (d', []) \<and> deviceCount (srv d') = 0"
proof -
  let ?x = "Get_system_description" and ?y = "Set_devices [([65], [66])]" and ?m = "bytes_of ''Failed to get system description''"
  let ?e = "res_val CSWP_UNSUPPORTED" and ?cf = "Get_system_description_complete (Some 0) (Some 1) (Some 2) 4"
  let ?t = "error_text ?e ?m"
  let ?p = "\<lparr>pending_type = CSWP_GET_SYSTEM_DESCRIPTION, complete = ?cf\<rparr>"
  let ?r = "Error_reply (cmd_val CSWP_GET_SYSTEM_DESCRIPTION) ?e ?t"
  have len: "length (command_bytes ?x) = 1" "length (command_bytes ?y) = 6" "length ?t = 42"
    "length (response_bytes (length (?x # [?y])) (?r # replicate (length [?y] + 1) cancelled)) = 74" by code_simp+
  have nz: "cstr ?t = ?t" by code_simp
  have m: "c_format ?m [] = Some ?m" by code_simp
  have oks: "command_ok ?x" "command_ok ?y" by (simp_all add: str_ok_def count_ok_def)
  then have ok: "command_ok z" if "z \<in> set (?x # [?y])" for z using that by auto
  obtain c where c: "cswp_check (submit link (encode_command ?x) CSWP_GET_SYSTEM_DESCRIPTION ?cf)
        (\<lambda>_. submit link (encode_command ?y) CSWP_SET_DEVICES No_completion) (batch_client False) = Done () c"
    "client_ok c" "queued c (?x # [?y])" "batch_mode c = BATCH_CONTINUE" "transport_priv c = (idle_server, [])"
    "pending_responses c = ?p # [\<lparr>pending_type = CSWP_SET_DEVICES, complete = No_completion\<rparr>]"
    using two_calls_queued [OF oks, of link CSWP_GET_SYSTEM_DESCRIPTION ?cf CSWP_SET_DEVICES No_completion False] len by auto
  have run: "perform plain_libc no_impl ?x (srv idle_server)
      = Done (Some ?e, Error_reply (cmd_val (pending_type ?p)) ?e ?t) (zero_state ())"
    by (simp add: idle_server_ready description_def zero_state_def refuse_def m)
  have fits: "exchange_fits (?x # [?y]) (Error_reply (cmd_val (pending_type ?p)) ?e ?t # replicate (length [?y] + 1) cancelled)"
    using len by (simp add: exchange_fits_def BUFFER_SIZE_def)
  have "\<exists>c' d'. cswp_batch_end link None c = Fail ?e c' \<and> c_out c' = c_out c \<and> errorMsg c' = cstr ?t
    \<and> transport_priv c' = (d', []) \<and> srv d' = zero_state ()"
    by (rule continued_batch_stops [OF no_impl_ok(2) plain_libc_ok(2) ok c(4,5) idle_server_ready(1) run fits c(2,3,6)])
      (use len nz in \<open>simp_all add: res_val.simps varint_ok_def string_fits_def ERROR_MESSAGE_SIZE_def\<close>)
  then show ?thesis using c(1) by (auto simp: cswp_get_system_description_def cswp_set_devices_def zero_state_def)
qed

end
